(* ===== verification/Prelude.thy ===== *)
theory Prelude
  imports Complex_Main
begin

text \<open>
  Shared vocabulary of the development: the Go types every component uses, the
  collections of rewrite rules that carry the component proofs, and generic lemmas
  on lists that stand for database tables (a table is the list of its rows; a
  \<^verbatim>\<open>SELECT ... WHERE\<close> on a key is \<open>find\<close>, an \<^verbatim>\<open>UPDATE ... WHERE\<close> is
  \<open>update_where\<close>).

  Times are \<open>int\<close> nanoseconds (Go's \<^verbatim>\<open>time.Time\<close> and \<^verbatim>\<open>time.Duration\<close>); the
  current time and the UUIDs a call generates are arguments of the operation that
  reads them.
\<close>

type_synonym uuid = string
type_synonym time = int
type_synonym duration = int

definition second :: duration where "second = 1000000000"
definition minute :: duration where "minute = 60 * second"
definition hour :: duration where "hour = 60 * minute"

lemma durations_pos [simp]: "0 < second" "0 < minute" "0 < hour"
  by (simp_all add: second_def minute_def hour_def)

text \<open>Go's \<^verbatim>\<open>int\<close> has 64 bits and wraps around.\<close>

definition wrap64 :: "int \<Rightarrow> int" where
  "wrap64 x = (x + 2 ^ 63) mod 2 ^ 64 - 2 ^ 63"

named_theorems op_defs \<open>definitions of the modelled operations\<close>
named_theorems inv_intros \<open>operations preserve the invariant of their component\<close>

subsection \<open>Tables as lists of rows\<close>

definition update_where :: "('a \<Rightarrow> bool) \<Rightarrow> ('a \<Rightarrow> 'a) \<Rightarrow> 'a list \<Rightarrow> 'a list" where
  "update_where P f rows = map (\<lambda>r. if P r then f r else r) rows"

lemma update_where_Nil [simp]: "update_where P f [] = []"
  by (simp add: update_where_def)

lemma update_where_Cons [simp]:
  "update_where P f (r # rows) = (if P r then f r else r) # update_where P f rows"
  by (simp add: update_where_def)

lemma update_where_append [simp]:
  "update_where P f (xs @ ys) = update_where P f xs @ update_where P f ys"
  by (simp add: update_where_def)

lemma length_update_where [simp]: "length (update_where P f rows) = length rows"
  by (simp add: update_where_def)

lemma map_update_where:
  "(\<And>r. P r \<Longrightarrow> k (f r) = k r) \<Longrightarrow> map k (update_where P f rows) = map k rows"
  by (simp add: update_where_def)

lemma keys_update_where:
  assumes "\<And>r. k (f r) = k r"
  shows "k ` set (update_where P f rows) = k ` set rows"
  using arg_cong [OF map_update_where [of P k f rows], of set] assms by simp

lemma in_set_update_where:
  "r \<in> set (update_where P f rows) \<longleftrightarrow>
     (\<exists>q \<in> set rows. r = (if P q then f q else q))"
  by (auto simp: update_where_def)

lemma update_where_none:
  "(\<And>r. r \<in> set rows \<Longrightarrow> \<not> P r) \<Longrightarrow> update_where P f rows = rows"
  by (induction rows) auto

lemma update_where_idle:
  "(\<And>r. r \<in> set rows \<Longrightarrow> P r \<Longrightarrow> f r = r) \<Longrightarrow> update_where P f rows = rows"
  by (induction rows) auto

lemma update_where_twice:
  "(\<And>r. P r \<Longrightarrow> Q (f r)) \<Longrightarrow> (\<And>r. Q r \<Longrightarrow> P r) \<Longrightarrow>
   update_where Q g (update_where P f rows) = update_where P (g \<circ> f) rows"
  by (induction rows) auto

lemma find_SomeD: "find P rows = Some r \<Longrightarrow> r \<in> set rows \<and> P r"
  by (metis find_Some_iff nth_mem)

lemma find_key_eq:
  "distinct (map k rows) \<Longrightarrow> r \<in> set rows \<Longrightarrow> find (\<lambda>x. k x = k r) rows = Some r"
  by (induction rows) (auto simp: image_iff)

lemma find_update_where_key:
  "(\<And>r. k (f r) = k r) \<Longrightarrow>
   find (\<lambda>x. k x = a) (update_where (\<lambda>x. k x = b) f rows) =
     map_option (\<lambda>x. if a = b then f x else x) (find (\<lambda>x. k x = a) rows)"
  by (induction rows) auto

lemma distinct_key_unique:
  "distinct (map k rows) \<Longrightarrow> r \<in> set rows \<Longrightarrow> q \<in> set rows \<Longrightarrow> k r = k q \<Longrightarrow> r = q"
  by (meson distinct_map inj_onD)

text \<open>Updating the one row with a given key changes a sum over the table by that row's change.\<close>

lemma sum_list_update_key:
  fixes g :: "'a \<Rightarrow> 'b :: ab_group_add"
  assumes "distinct (map k rows)" and "r \<in> set rows"
  shows "sum_list (map g (update_where (\<lambda>x. k x = k r) f rows)) =
           sum_list (map g rows) - g r + g (f r)"
  using assms
proof (induction rows)
  case Nil
  then show ?case by simp
next
  case (Cons a rows)
  show ?case
  proof (cases "a = r")
    case True
    have "update_where (\<lambda>x. k x = k r) f rows = rows"
      by (rule update_where_none) (use Cons.prems True in \<open>force simp: image_iff\<close>)
    with True show ?thesis by simp
  next
    case False
    with Cons.prems have "r \<in> set rows" and "k a \<noteq> k r"
      by (auto simp: image_iff)
    with Cons show ?thesis by (simp add: algebra_simps)
  qed
qed

lemma sum_list_filter_update:
  fixes g :: "'a \<Rightarrow> 'b :: ab_group_add"
  assumes "distinct (map k rows)" and "r \<in> set rows"
  shows "sum_list (map g (filter P (update_where (\<lambda>x. k x = k r) f rows))) =
           sum_list (map g (filter P rows)) - (if P r then g r else 0)
             + (if P (f r) then g (f r) else 0)"
proof -
  have eq: "sum_list (map g (filter P xs)) = sum_list (map (\<lambda>x. if P x then g x else 0) xs)" for xs
    by (induction xs) auto
  show ?thesis unfolding eq using sum_list_update_key [OF assms] by blast
qed

subsection \<open>Systems driven by commands\<close>

text \<open>
  A component whose operations keep an invariant for the commands that are admissible keeps it over
  every sequence of them.
\<close>

locale invariant_system =
  fixes step :: "'c \<Rightarrow> 's \<Rightarrow> 's"
    and ok :: "'c \<Rightarrow> bool"
    and inv :: "'s \<Rightarrow> bool"
  assumes step_keeps: "ok c \<Longrightarrow> inv s \<Longrightarrow> inv (step c s)"
begin

lemma run_keeps: "\<forall>c \<in> set cs. ok c \<Longrightarrow> inv s \<Longrightarrow> inv (fold step cs s)"
  by (induction cs arbitrary: s) (auto intro: step_keeps)

end

end
