(* ===== verification/Session.thy ===== *)
theory Session
  imports Prelude
begin

text \<open>
  How the Go services talk to PostgreSQL. A session is the database (of any component: the
  type parameter), the script of connection faults still to come and the flag of a
  transaction that a failed statement has aborted: PostgreSQL then refuses every further
  statement and turns the commit into a rollback.

  Every statement first consumes one entry of the fault script (\<open>True\<close>: the call fails, as
  on a lost connection), so a theorem about an arbitrary session covers every pattern of
  failures between the statements of an operation. \<open>with_tx\<close> is the code's
  \<^verbatim>\<open>Begin ... defer Rollback ... Commit\<close>: any error restores the database.
\<close>

subsection \<open>Sessions, statements and transactions\<close>

datatype db_error = ConnError | NoRows | NumericOverflow | CheckViolation | UniqueViolation
  | ForeignKeyViolation | TxAborted | NoRowsAffected | ValueTooLong | NegativeOffset | ScanError

record 'd session =
  db :: 'd
  aborted :: bool
  faults :: "bool list"

type_synonym ('d, 'e, 'a) db_op = "'d session \<Rightarrow> ('e + 'a) \<times> 'd session"

definition next_fault :: "'d session \<Rightarrow> bool" where
  "next_fault s = (case faults s of [] \<Rightarrow> False | b # _ \<Rightarrow> b)"

definition tick :: "'d session \<Rightarrow> 'd session" where
  "tick s = s\<lparr>faults := tl (faults s)\<rparr>"

definition ret :: "'a \<Rightarrow> ('d, 'e, 'a) db_op" where
  "ret x s = (Inr x, s)"

definition fail :: "'e \<Rightarrow> ('d, 'e, 'a) db_op" where
  "fail e s = (Inl e, s)"

definition andthen :: "('d, 'e, 'a) db_op \<Rightarrow> ('a \<Rightarrow> ('d, 'e, 'b) db_op) \<Rightarrow> ('d, 'e, 'b) db_op" where
  "andthen m k s = (case m s of (Inl e, s') \<Rightarrow> (Inl e, s') | (Inr x, s') \<Rightarrow> k x s')"

definition on_err :: "(db_error \<Rightarrow> 'e) \<Rightarrow> ('d, db_error, 'a) db_op \<Rightarrow> ('d, 'e, 'a) db_op" where
  "on_err f m s = (case m s of (Inl e, s') \<Rightarrow> (Inl (f e), s') | (Inr x, s') \<Rightarrow> (Inr x, s'))"

text \<open>A call whose error the code drops: the flow goes on, the session keeps its effect.\<close>

definition ignoring :: "('d, 'e, 'a) db_op \<Rightarrow> ('d, 'f, unit) db_op" where
  "ignoring m s = (Inr (), snd (m s))"

text \<open>A row query inside a transaction; no row is an error of \<^verbatim>\<open>Scan\<close>, not of the server.\<close>

definition query_row :: "('d \<Rightarrow> 'a option) \<Rightarrow> ('d, db_error, 'a) db_op" where
  "query_row q s =
     (if aborted s then (Inl TxAborted, s)
      else if next_fault s then (Inl ConnError, (tick s)\<lparr>aborted := True\<rparr>)
      else (case q (db s) of None \<Rightarrow> (Inl NoRows, tick s) | Some x \<Rightarrow> (Inr x, tick s)))"

text \<open>\<^verbatim>\<open>Exec\<close>: the new tables and the number of rows affected, or a server error.\<close>

type_synonym 'd db_update = "'d \<Rightarrow> db_error + ('d \<times> nat)"

definition exec :: "'d db_update \<Rightarrow> ('d, db_error, nat) db_op" where
  "exec f s =
     (if aborted s then (Inl TxAborted, s)
      else if next_fault s then (Inl ConnError, (tick s)\<lparr>aborted := True\<rparr>)
      else (case f (db s) of Inl e \<Rightarrow> (Inl e, (tick s)\<lparr>aborted := True\<rparr>)
            | Inr (d, n) \<Rightarrow> (Inr n, (tick s)\<lparr>db := d\<rparr>)))"

text \<open>The same two on the pool: each is a transaction of its own, and the flag plays no part.\<close>

definition pool_query :: "('d \<Rightarrow> 'a option) \<Rightarrow> ('d, db_error, 'a) db_op" where
  "pool_query q s =
     (if next_fault s then (Inl ConnError, tick s)
      else (case q (db s) of None \<Rightarrow> (Inl NoRows, tick s) | Some x \<Rightarrow> (Inr x, tick s)))"

definition pool_exec :: "'d db_update \<Rightarrow> ('d, db_error, nat) db_op" where
  "pool_exec f s =
     (if next_fault s then (Inl ConnError, tick s)
      else (case f (db s) of Inl e \<Rightarrow> (Inl e, tick s) | Inr (d, n) \<Rightarrow> (Inr n, (tick s)\<lparr>db := d\<rparr>)))"

definition with_tx :: "(db_error \<Rightarrow> 'e) \<Rightarrow> (db_error \<Rightarrow> 'e) \<Rightarrow> ('d, 'e, 'a) db_op \<Rightarrow> ('d, 'e, 'a) db_op" where
  "with_tx begin_err commit_err body s =
     (if next_fault s then (Inl (begin_err ConnError), tick s)
      else (case body ((tick s)\<lparr>aborted := False\<rparr>) of
          (Inl e, s2) \<Rightarrow> (Inl e, s2\<lparr>db := db s, aborted := aborted s\<rparr>)
        | (Inr x, s2) \<Rightarrow>
            (if next_fault s2 then (Inl (commit_err ConnError), (tick s2)\<lparr>db := db s, aborted := aborted s\<rparr>)
             else if aborted s2 then (Inl (commit_err TxAborted), (tick s2)\<lparr>db := db s, aborted := aborted s\<rparr>)
             else (Inr x, (tick s2)\<lparr>aborted := aborted s\<rparr>))))"

lemma tick_simps [simp]: "db (tick s) = db s" "aborted (tick s) = aborted s"
  "faults (tick s) = tl (faults s)"
  by (simp_all add: tick_def)

lemma next_fault_tick [simp]: "faults s = [] \<Longrightarrow> \<not> next_fault s" "faults s = [] \<Longrightarrow> faults (tick s) = []"
  by (simp_all add: next_fault_def tick_def)

text \<open>Atomicity: whatever the body does, an error leaves the database as it was.\<close>

lemma with_tx_error: "with_tx be ce body s = (Inl e, s') \<Longrightarrow> db s' = db s"
  by (auto simp: with_tx_def split: if_splits prod.splits sum.splits)

lemma with_tx_okE:
  assumes "with_tx be ce body s = (Inr x, s')"
  obtains s2 where "body ((tick s)\<lparr>aborted := False\<rparr>) = (Inr x, s2)" and "\<not> aborted s2" and "db s' = db s2"
  using assms by (auto simp: with_tx_def split: if_splits prod.splits sum.splits)

lemma andthen_okE:
  assumes "andthen m k s = (Inr y, s')"
  obtains x s2 where "m s = (Inr x, s2)" and "k x s2 = (Inr y, s')"
  using assms by (auto simp: andthen_def split: prod.splits sum.splits)

lemma on_err_okE:
  assumes "on_err f m s = (Inr x, s')"
  obtains "m s = (Inr x, s')"
  using assms by (auto simp: on_err_def split: prod.splits sum.splits)

lemma query_row_okE:
  assumes "query_row q s = (Inr x, s')"
  obtains "q (db s) = Some x" and "s' = tick s" and "\<not> aborted s"
  using assms by (auto simp: query_row_def split: if_splits option.splits)

lemma exec_okE:
  assumes "exec f s = (Inr u, s')"
  obtains d where "f (db s) = Inr (d, u)" and "s' = (tick s)\<lparr>db := d\<rparr>" and "\<not> aborted s"
  using assms by (auto simp: exec_def split: if_splits sum.splits)

lemma ret_ok [simp]: "ret x s = (Inr y, s') \<longleftrightarrow> y = x \<and> s' = s"
  by (auto simp: ret_def)

lemma fail_ok [simp]: "fail e s \<noteq> (Inr y, s')"
  by (simp add: fail_def)

lemma ret_okE:
  assumes "ret x s = (Inr y, s')"
  obtains "y = x" and "s' = s"
  using assms by (simp add: ret_def)

lemma guard_okE:
  assumes "(if b then fail e else m) s = (Inr y, s')"
  obtains "\<not> b" and "m s = (Inr y, s')"
  using assms by (auto simp: fail_def split: if_splits)

lemmas go_okE = ret_okE guard_okE with_tx_okE andthen_okE on_err_okE query_row_okE exec_okE

text \<open>Without faults every construct computes by plain rewriting.\<close>

lemma query_row_run [op_defs]:
  "faults s = [] \<Longrightarrow> \<not> aborted s \<Longrightarrow>
   query_row q s = (case q (db s) of None \<Rightarrow> (Inl NoRows, s) | Some x \<Rightarrow> (Inr x, s))"
  by (cases s) (auto simp: query_row_def tick_def split: option.splits)

lemma exec_run [op_defs]:
  "faults s = [] \<Longrightarrow> \<not> aborted s \<Longrightarrow>
   exec f s = (case f (db s) of Inl e \<Rightarrow> (Inl e, s\<lparr>aborted := True\<rparr>) | Inr (d, n) \<Rightarrow> (Inr n, s\<lparr>db := d\<rparr>))"
  by (cases s) (auto simp: exec_def tick_def split: sum.splits)

lemma pool_query_run [op_defs]:
  "faults s = [] \<Longrightarrow>
   pool_query q s = (case q (db s) of None \<Rightarrow> (Inl NoRows, s) | Some x \<Rightarrow> (Inr x, s))"
  by (cases s) (auto simp: pool_query_def tick_def split: option.splits)

lemma with_tx_run [op_defs]:
  assumes "faults s = []" and "body (s\<lparr>aborted := False\<rparr>) = (r, s2)" and "faults s2 = []"
  shows "with_tx be ce body s =
    (case r of Inl e \<Rightarrow> (Inl e, s2\<lparr>db := db s, aborted := aborted s\<rparr>)
     | Inr x \<Rightarrow> if aborted s2 then (Inl (ce TxAborted), s2\<lparr>db := db s, aborted := aborted s\<rparr>)
               else (Inr x, s2\<lparr>aborted := aborted s\<rparr>))"
proof -
  have t: "tick s = s" "tick s2 = s2" using assms(1,3) by (simp_all add: tick_def)
  show ?thesis using assms unfolding with_tx_def t by (cases r) simp_all
qed

end
