(* ===== verification/Float64.thy ===== *)
theory Float64
  imports Complex_Main "HOL-Library.Log_Nat"
begin

text \<open>
  Go's \<^verbatim>\<open>float64\<close>, the type of every amount of money in the program. A finite value is
  the rational it denotes; \<open>fl\<close> rounds an exact result to the nearest binary64 value,
  ties to even, with 53 bits of precision and gradual underflow (overflow to infinity is
  beyond every amount here: the tables hold at most 15 decimal digits). A sum or a
  difference in the code is \<open>fadd\<close> or \<open>fsub\<close>; a comparison compares the rationals.

  The tables store \<^verbatim>\<open>NUMERIC(p,2)\<close>, modelled as an \<open>int\<close> number of cents. Reading a
  column scans it into the nearest \<^verbatim>\<open>float64\<close> (\<open>dec\<close>); writing one rounds half away from
  zero to two decimals (\<open>cents\<close>). The driver sends the shortest decimal of the float, so
  the two roundings could differ from \<open>cents\<close> only on a value within half an ulp of a tie
  at the third decimal; every lemma below is about values within 4/1024 of a whole number
  of cents, where they agree.

  The main results: on whole cents below \<open>10 ^ 15\<close>, write-after-read, addition,
  subtraction and comparison in floats are exact in cents (\<open>cents_dec\<close>, \<open>cents_fadd\<close>,
  \<open>cents_fsub\<close>, \<open>dec_less_iff\<close>, \<open>fsub_neg_iff\<close>).
\<close>

type_synonym float64 = rat

definition pow2 :: "int \<Rightarrow> rat" where
  "pow2 k = (if 0 \<le> k then 2 ^ nat k else 1 / 2 ^ nat (- k))"

lemma pow2_powi: "pow2 k = 2 powi k"
  by (simp add: pow2_def power_int_def field_simps)

lemma pow2_pos [simp]: "0 < pow2 k"
  by (simp add: pow2_def)

lemma pow2_add: "pow2 (a + b) = pow2 a * pow2 b"
  by (simp add: pow2_powi power_int_add)

lemma pow2_less: "a < b \<Longrightarrow> pow2 a < pow2 b"
  unfolding pow2_powi by (rule power_int_strict_increasing) simp_all

lemma pow2_mono: "a \<le> b \<Longrightarrow> pow2 a \<le> pow2 b"
  using pow2_less [of a b] by (cases "a = b") auto

lemma pow2_less_iff: "pow2 a < pow2 b \<longleftrightarrow> a < b"
  using pow2_less [of a b] pow2_mono [of b a] by force

lemma pow2_nat: "pow2 (int n) = 2 ^ n"
  by (simp add: pow2_def)

definition round_even :: "rat \<Rightarrow> int" where
  "round_even y =
     (let n = \<lfloor>y\<rfloor>; d = y - of_int n in
      if d < 1 / 2 then n else if 1 / 2 < d then n + 1
      else if even n then n else n + 1)"

lemma round_even_err: "\<bar>of_int (round_even y) - y\<bar> \<le> 1 / 2"
proof -
  have "of_int \<lfloor>y\<rfloor> \<le> y" "y < of_int \<lfloor>y\<rfloor> + 1" by linarith+
  then show ?thesis unfolding round_even_def Let_def abs_if by (simp; linarith)
qed

lemma round_even_int [simp]: "round_even (of_int k) = k"
  by (simp add: round_even_def)

definition flog2 :: "rat \<Rightarrow> int" where
  "flog2 x =
     (let (p, q) = quotient_of \<bar>x\<bar>; k = bitlen p - bitlen q in
      if pow2 k \<le> \<bar>x\<bar> then k else k - 1)"

lemma bitlen_pow2_bounds:
  assumes "0 < p"
  shows "pow2 (bitlen p - 1) \<le> of_int p" and "of_int p < pow2 (bitlen p)"
proof -
  have b: "2 ^ nat (bitlen p - 1) \<le> p" "p < 2 ^ nat (bitlen p)"
    using bitlen_bounds [OF assms] by auto
  have n: "0 < bitlen p" using compute_bitlen [of p] bitlen_nonneg [of "p div 2"] assms by simp
  have "(of_int (2 ^ nat (bitlen p - 1)) :: rat) \<le> of_int p" using b(1) by (simp only: of_int_le_iff)
  then show "pow2 (bitlen p - 1) \<le> of_int p" using n by (simp add: pow2_def)
  have "(of_int p :: rat) < of_int (2 ^ nat (bitlen p))" using b(2) by (simp only: of_int_less_iff)
  then show "of_int p < pow2 (bitlen p)" using n by (simp add: pow2_def)
qed

lemma flog2_lower:
  assumes "x \<noteq> 0"
  shows "pow2 (flog2 x) \<le> \<bar>x\<bar>"
proof -
  obtain p q where pq: "quotient_of \<bar>x\<bar> = (p, q)" by fastforce
  have q: "0 < q" using quotient_of_denom_pos [OF pq] .
  have x: "\<bar>x\<bar> = of_int p / of_int q" using quotient_of_div [OF pq] .
  have p: "0 < p"
  proof -
    have "(0::rat) < of_int p / of_int q" using assms x by (metis zero_less_abs_iff)
    then show ?thesis using q by (simp add: zero_less_divide_iff)
  qed
  have "pow2 (bitlen p - 1) * of_int q \<le> of_int p * pow2 (bitlen q)"
    by (rule mult_mono) (use bitlen_pow2_bounds p q in \<open>auto intro: less_imp_le\<close>)
  moreover have "pow2 (bitlen p - 1) = pow2 (bitlen p - bitlen q - 1) * pow2 (bitlen q)"
    by (simp flip: pow2_add)
  ultimately have "(pow2 (bitlen p - bitlen q - 1) * of_int q) * pow2 (bitlen q) \<le> of_int p * pow2 (bitlen q)"
    by (simp add: mult_ac)
  then have "pow2 (bitlen p - bitlen q - 1) * of_int q \<le> of_int p"
    by (simp add: mult_le_cancel_right)
  then have "pow2 (bitlen p - bitlen q - 1) \<le> \<bar>x\<bar>" using q x by (simp add: pos_le_divide_eq)
  then show ?thesis by (simp add: flog2_def pq Let_def)
qed

definition quantum :: "rat \<Rightarrow> rat" where
  "quantum x = pow2 (max (flog2 x) (- 1022) - 52)"

definition fl :: "rat \<Rightarrow> float64" where
  "fl x = (if x = 0 then 0 else of_int (round_even (x / quantum x)) * quantum x)"

lemma quantum_pos [simp]: "0 < quantum x"
  by (simp add: quantum_def)

lemma fl_err: "\<bar>fl x - x\<bar> \<le> quantum x / 2"
proof (cases "x = 0")
  case True
  then show ?thesis by (simp add: fl_def less_imp_le)
next
  case False
  have "\<bar>fl x - x\<bar> = \<bar>of_int (round_even (x / quantum x)) - x / quantum x\<bar> * quantum x"
  proof -
    have "fl x - x = (of_int (round_even (x / quantum x)) - x / quantum x) * quantum x"
      using False less_imp_neq [OF quantum_pos [of x]] by (simp add: fl_def left_diff_distrib)
    then show ?thesis using abs_of_pos [OF quantum_pos [of x]] by (simp add: abs_mult)
  qed
  also have "\<dots> \<le> (1 / 2) * quantum x"
    by (rule mult_right_mono [OF round_even_err]) (simp add: less_imp_le)
  finally show ?thesis by simp
qed

lemma fl_near:
  assumes "\<bar>x\<bar> < pow2 k" and "- 1022 < k"
  shows "\<bar>fl x - x\<bar> \<le> pow2 (k - 54)"
proof (cases "x = 0")
  case True
  then show ?thesis by (simp add: fl_def less_imp_le)
next
  case False
  have "flog2 x < k" using flog2_lower [OF False] assms(1) by (simp flip: pow2_less_iff)
  then have "quantum x \<le> pow2 (k - 53)" unfolding quantum_def using assms(2) by (intro pow2_mono) auto
  moreover have "pow2 (k - 53) = 2 * pow2 (k - 54)" using pow2_add [of 1 "k - 54"] by (simp add: pow2_def [of 1])
  ultimately show ?thesis using fl_err [of x] by simp
qed

lemma fl_zero [simp]: "fl 0 = 0" by (simp add: fl_def)

definition dec :: "int \<Rightarrow> float64" where
  "dec c = fl (of_int c / 100)"

definition cents :: "float64 \<Rightarrow> int" where
  "cents x = (if 0 \<le> x then \<lfloor>100 * x + 1 / 2\<rfloor> else - \<lfloor>1 / 2 - 100 * x\<rfloor>)"

definition fadd :: "float64 \<Rightarrow> float64 \<Rightarrow> float64" where
  "fadd x y = fl (x + y)"

definition fsub :: "float64 \<Rightarrow> float64 \<Rightarrow> float64" where
  "fsub x y = fl (x - y)"

definition in_range :: "int \<Rightarrow> bool" where
  "in_range c \<longleftrightarrow> \<bar>c\<bar> < 10 ^ 15"

lemma cents_near:
  assumes "\<bar>x - of_int c / 100\<bar> < 1 / 200"
  shows "cents x = c"
proof (cases "0 \<le> x")
  case True
  have "\<lfloor>100 * x + 1 / 2\<rfloor> = c"
    by (rule floor_unique) (use assms in linarith)+
  with True show ?thesis by (simp add: cents_def)
next
  case False
  have "\<lfloor>1 / 2 - 100 * x\<rfloor> = - c"
    by (rule floor_unique) (use assms in linarith)+
  with False show ?thesis by (simp add: cents_def)
qed

lemma in_range_abs:
  assumes "in_range c"
  shows "\<bar>of_int c / (100::rat)\<bar> < 10 ^ 13"
proof -
  have "\<bar>of_int c :: rat\<bar> = of_int \<bar>c\<bar>" by simp
  also have "\<dots> < of_int (10 ^ 15)" using assms unfolding in_range_def by (simp only: of_int_less_iff)
  finally show ?thesis by (simp add: abs_divide)
qed

lemma dec_near:
  assumes "in_range c"
  shows "\<bar>dec c - of_int c / 100\<bar> \<le> 1 / 1024"
proof -
  have "\<bar>of_int c / (100::rat)\<bar> < pow2 44" using in_range_abs [OF assms] by (simp add: pow2_def)
  from fl_near [OF this] show ?thesis by (simp add: dec_def pow2_def)
qed

lemma near_abs_bound: "\<bar>x - y\<bar> \<le> 2 / 1024 \<Longrightarrow> \<bar>y\<bar> < 2 * 10 ^ 13 \<Longrightarrow> \<bar>x\<bar> < (35184372088832 :: rat)"
proof -
  assume xy: "\<bar>x - y\<bar> \<le> 2 / 1024" and "\<bar>y\<bar> < 2 * 10 ^ 13"
  then have "\<bar>y\<bar> < 20000000000000" by simp
  with xy show ?thesis by linarith
qed

lemma near_neg: "\<bar>x - y / 100\<bar> \<le> 4 / 1024 \<Longrightarrow> y \<le> - 1 \<Longrightarrow> x < (0 :: rat)"
  by linarith

lemma near_pos: "\<bar>x - y / 100\<bar> \<le> 4 / 1024 \<Longrightarrow> 1 \<le> y \<Longrightarrow> (0 :: rat) < x"
  by linarith

lemma fl_cents_near:
  assumes "\<bar>x - of_int c / 100\<bar> \<le> 2 / 1024" and "\<bar>of_int c / (100::rat)\<bar> < 2 * 10 ^ 13"
  shows "\<bar>fl x - of_int c / 100\<bar> \<le> 4 / 1024"
proof -
  have "\<bar>x\<bar> < pow2 45" using near_abs_bound [OF assms] by (simp add: pow2_def)
  from fl_near [OF this] have "\<bar>fl x - x\<bar> \<le> 2 / 1024" by (simp add: pow2_def)
  with assms(1) show ?thesis by linarith
qed

lemma fadd_near:
  assumes "in_range a" and "in_range b"
  shows "\<bar>fadd (dec a) (dec b) - of_int (a + b) / 100\<bar> \<le> 4 / 1024"
  unfolding fadd_def
proof (rule fl_cents_near)
  show "\<bar>dec a + dec b - of_int (a + b) / 100\<bar> \<le> 2 / 1024"
    using dec_near [OF assms(1)] dec_near [OF assms(2)]
    unfolding of_int_add add_divide_distrib by linarith
  show "\<bar>of_int (a + b) / (100::rat)\<bar> < 2 * 10 ^ 13"
    using in_range_abs [OF assms(1)] in_range_abs [OF assms(2)]
    unfolding of_int_add add_divide_distrib by linarith
qed

lemma fsub_near:
  assumes "in_range a" and "in_range b"
  shows "\<bar>fsub (dec a) (dec b) - of_int (a - b) / 100\<bar> \<le> 4 / 1024"
  unfolding fsub_def
proof (rule fl_cents_near)
  show "\<bar>dec a - dec b - of_int (a - b) / 100\<bar> \<le> 2 / 1024"
    using dec_near [OF assms(1)] dec_near [OF assms(2)]
    unfolding of_int_diff diff_divide_distrib by linarith
  show "\<bar>of_int (a - b) / (100::rat)\<bar> < 2 * 10 ^ 13"
    using in_range_abs [OF assms(1)] in_range_abs [OF assms(2)]
    unfolding of_int_diff diff_divide_distrib by linarith
qed

lemma cents_dec [simp]: "in_range c \<Longrightarrow> cents (dec c) = c"
  by (rule cents_near) (use dec_near in fastforce)

lemma cents_fadd [simp]: "in_range a \<Longrightarrow> in_range b \<Longrightarrow> cents (fadd (dec a) (dec b)) = a + b"
  by (rule cents_near) (use fadd_near in fastforce)

lemma cents_fsub [simp]: "in_range a \<Longrightarrow> in_range b \<Longrightarrow> cents (fsub (dec a) (dec b)) = a - b"
  by (rule cents_near) (use fsub_near in fastforce)

lemma dec_strict_mono:
  assumes "in_range a" and "in_range b" and "a < b"
  shows "dec a < dec b"
proof -
  have "(of_int a :: rat) + 1 \<le> of_int b" using assms(3) by (metis of_int_1 of_int_add of_int_le_iff zless_imp_add1_zle)
  then show ?thesis using dec_near [OF assms(1)] dec_near [OF assms(2)] by linarith
qed

lemma dec_less_iff: "in_range a \<Longrightarrow> in_range b \<Longrightarrow> dec a < dec b \<longleftrightarrow> a < b"
  by (metis dec_strict_mono less_irrefl linorder_less_linear order_less_trans)

lemma dec_le_iff: "in_range a \<Longrightarrow> in_range b \<Longrightarrow> dec a \<le> dec b \<longleftrightarrow> a \<le> b"
  by (metis dec_less_iff linorder_not_less)

lemma fsub_neg_iff:
  assumes "in_range a" and "in_range b"
  shows "fsub (dec a) (dec b) < 0 \<longleftrightarrow> a < b"
proof (cases "a < b")
  case True
  then have "(of_int (a - b) :: rat) \<le> - 1" by linarith
  then have "fsub (dec a) (dec b) < 0" by (rule near_neg [OF fsub_near [OF assms]])
  then show ?thesis using True by simp
next
  case False
  show ?thesis
  proof (cases "a = b")
    case True
    then show ?thesis by (simp add: fsub_def)
  next
    case neq: False
    with False have "(1 :: rat) \<le> of_int (a - b)" by linarith
    then have "0 < fsub (dec a) (dec b)" by (rule near_pos [OF fsub_near [OF assms]])
    then show ?thesis using False by simp
  qed
qed

text \<open>\<^verbatim>\<open>NUMERIC(15,2)\<close>: the value is rounded to cents and must have at most thirteen digits before the point.\<close>

definition money :: "float64 \<Rightarrow> int option" where
  "money x = (let c = cents x in if in_range c then Some c else None)"

lemma money_dec [simp]: "in_range c \<Longrightarrow> money (dec c) = Some c"
  by (simp add: money_def)

lemma cents_neg: "cents (- x) = - cents x"
proof -
  have "\<lfloor>1 / 2 :: rat\<rfloor> = 0" by linarith
  then show ?thesis by (cases "x = 0"; cases "0 \<le> x") (auto simp: cents_def add.commute)
qed

lemma fadd_neg: "fadd x (- y) = fsub x y"
  by (simp add: fadd_def fsub_def)

lemma money_neg_dec [simp]: "in_range c \<Longrightarrow> money (- dec c) = Some (- c)"
  by (simp add: money_def cents_neg in_range_def)

lemma money_SomeD: "money x = Some c \<Longrightarrow> c = cents x \<and> in_range c"
  by (auto simp: money_def Let_def split: if_splits)

subsection \<open>Rounding keeps integers below\<close>

lemma round_even_ge: "of_int m \<le> y \<Longrightarrow> m \<le> round_even y"
  using le_floor_iff [of m y] by (simp add: round_even_def Let_def)

lemma fl_ge_multiple:
  assumes "0 < x" and "of_int m * quantum x \<le> x"
  shows "of_int m * quantum x \<le> fl x"
proof -
  have "of_int m \<le> x / quantum x" using assms(2) by (simp add: pos_le_divide_eq)
  then have "m \<le> round_even (x / quantum x)" by (rule round_even_ge)
  then have "of_int m * quantum x \<le> of_int (round_even (x / quantum x)) * quantum x"
    by (intro mult_right_mono) (simp_all add: less_imp_le)
  with assms(1) show ?thesis by (simp add: fl_def)
qed

lemma fl_ge_int:
  assumes "of_int n \<le> x" and "0 \<le> n" and "n \<le> 2 ^ 53"
  shows "of_int n \<le> fl x"
proof (cases "x = 0")
  case True
  with assms show ?thesis by simp
next
  case False
  then have x: "0 < x" using assms(1,2) by (metis dual_order.trans less_le of_int_0_le_iff)
  let ?e = "max (flog2 x) (- 1022) - 52"
  show ?thesis
  proof (cases "?e \<le> 0")
    case True
    have q: "of_int (n * 2 ^ nat (- ?e)) * quantum x = of_int n"
      using True by (simp add: quantum_def pow2_def field_simps)
    have "of_int (n * 2 ^ nat (- ?e)) * quantum x \<le> x" unfolding q by (rule assms(1))
    from fl_ge_multiple [OF x this] show ?thesis unfolding q .
  next
    case False
    then have e: "?e = flog2 x - 52" "53 \<le> flog2 x" by auto
    have p: "of_int (2 ^ 52) * quantum x = pow2 (flog2 x)"
      using pow2_add [of 52 "flog2 x - 52"] e by (simp add: quantum_def pow2_def [of 52])
    have "pow2 (flog2 x) \<le> x" using flog2_lower [of x] x by simp
    with fl_ge_multiple [OF x, of "2 ^ 52"] p have "pow2 (flog2 x) \<le> fl x" by simp
    moreover have "of_int n \<le> (2 ^ 53 :: rat)" using assms(3) by (metis of_int_le_iff of_int_numeral of_int_power)
    moreover have "(2 ^ 53 :: rat) \<le> pow2 (flog2 x)" using pow2_mono [OF e(2)] by (simp add: pow2_def)
    ultimately show ?thesis by linarith
  qed
qed

lemma fl_nonneg: "0 \<le> x \<Longrightarrow> 0 \<le> fl x"
  using fl_ge_int [of 0 x] by simp

text \<open>\<^verbatim>\<open>int(f)\<close> truncates towards zero.\<close>

definition float_to_int :: "float64 \<Rightarrow> int" where
  "float_to_int x = (if 0 \<le> x then \<lfloor>x\<rfloor> else \<lceil>x\<rceil>)"

lemma dec_nonneg: "0 \<le> c \<Longrightarrow> 0 \<le> dec c"
  by (simp add: dec_def fl_nonneg)

lemma fadd_dec_nonneg: "0 \<le> a \<Longrightarrow> 0 \<le> b \<Longrightarrow> \<not> fadd (dec a) (dec b) < 0"
  using dec_nonneg [of a] dec_nonneg [of b] by (simp add: fadd_def not_less fl_nonneg)

end
