(* ===== verification/PaymentDb.thy ===== *)
theory PaymentDb
  imports Session Float64
begin

text \<open>
  The payment service's database (\<^verbatim>\<open>services/payment-service/migrations\<close>). A table is the list
  of its rows; money columns hold cents. The Go code reaches it through a \<open>session\<close> (theory Session).
\<close>

subsection \<open>Rows\<close>

text \<open>
  A row and the Go struct scanned from it have the same fields; the record is shared and its
  money fields are \<open>int\<close> cents in a row, \<open>float64\<close> in the struct.
\<close>

record 'm wallet =
  w_id :: uuid
  w_user :: uuid
  w_available :: 'm
  w_held :: 'm
  w_currency :: string
  w_created :: time
  w_updated :: time

datatype hold_status = HoldActive | HoldReleased | HoldCharged | HoldExpired

record 'm bid_hold =
  h_id :: uuid
  h_auction :: uuid
  h_bidder :: uuid
  h_wallet :: uuid
  h_amount :: 'm
  h_status :: hold_status
  h_expires :: time
  h_created :: time

datatype op_type = OpDeposit | OpHold | OpRelease | OpCharge | OpCredit
datatype ref_type = RefAuction | RefBid | RefManual

record 'm wallet_transaction =
  wt_id :: uuid
  wt_wallet :: uuid
  wt_transaction :: uuid
  wt_key :: string
  wt_op :: op_type
  wt_amount :: 'm
  wt_before :: 'm
  wt_after :: 'm
  wt_ref_type :: "ref_type option"
  wt_ref_id :: "uuid option"
  wt_status :: string
  wt_created :: time

datatype txn_type = TxDeposit | TxWithdraw | TxHold | TxRelease | TxCharge | TxRefund | TxPayout
datatype txn_status = TxPending | TxCompleted | TxFailed | TxReversed

text \<open>The JSON objects the code marshals: flat, with the keys in the order it writes them.\<close>

datatype jval = JStr string | JNum float64

type_synonym json = "(string \<times> jval) list"

record 'm transaction =
  t_id :: uuid
  t_wallet :: uuid
  t_type :: txn_type
  t_amount :: 'm
  t_ref :: "uuid option"
  t_key :: string
  t_status :: txn_status
  t_metadata :: json
  t_created :: time

record outbox_event =
  o_id :: uuid
  o_agg_type :: string
  o_agg_id :: uuid
  o_event :: string
  o_payload :: json
  o_key :: "string option"
  o_created :: time
  o_published :: "time option"
  o_retry :: nat
  o_last_error :: "string option"
  o_processed :: bool

record paydb =
  wallets :: "int wallet list"
  holds :: "int bid_hold list"
  wtxns :: "int wallet_transaction list"
  txns :: "int transaction list"
  outbox :: "outbox_event list"

definition scan_wallet :: "int wallet \<Rightarrow> float64 wallet" where
  "scan_wallet r = \<lparr>w_id = w_id r, w_user = w_user r, w_available = dec (w_available r),
     w_held = dec (w_held r), w_currency = w_currency r, w_created = w_created r,
     w_updated = w_updated r\<rparr>"

definition scan_hold :: "int bid_hold \<Rightarrow> float64 bid_hold" where
  "scan_hold r = \<lparr>h_id = h_id r, h_auction = h_auction r, h_bidder = h_bidder r,
     h_wallet = h_wallet r, h_amount = dec (h_amount r), h_status = h_status r,
     h_expires = h_expires r, h_created = h_created r\<rparr>"

lemma scan_wallet_simps [simp]:
  "w_id (scan_wallet r) = w_id r" "w_user (scan_wallet r) = w_user r"
  "w_available (scan_wallet r) = dec (w_available r)" "w_held (scan_wallet r) = dec (w_held r)"
  by (simp_all add: scan_wallet_def)

lemma scan_hold_simps [simp]:
  "h_id (scan_hold r) = h_id r" "h_auction (scan_hold r) = h_auction r"
  "h_bidder (scan_hold r) = h_bidder r" "h_wallet (scan_hold r) = h_wallet r"
  "h_amount (scan_hold r) = dec (h_amount r)" "h_status (scan_hold r) = h_status r"
  by (simp_all add: scan_hold_def)

text \<open>The payment service's sessions and its operations on them.\<close>

type_synonym sess = "paydb session"
type_synonym ('e, 'a) goop = "(paydb, 'e, 'a) db_op"
type_synonym update = "paydb db_update"

end
