(* ===== verification/WalletRepo.thy ===== *)
theory WalletRepo
  imports PaymentDb
begin

text \<open>
  The wallet repository of the payment service
  (\<^verbatim>\<open>services/payment-service/internal/wallet/pg_repository.go\<close>): its SQL statements on the
  tables, with the casts and the constraints of the schema (\<^verbatim>\<open>NUMERIC(15,2)\<close> and
  \<^verbatim>\<open>DECIMAL(12,2)\<close> overflow, \<^verbatim>\<open>CHECK\<close>, \<^verbatim>\<open>UNIQUE\<close>, \<^verbatim>\<open>REFERENCES\<close>), and the Go functions that
  send them. The well-formedness of the tables is \<open>schema_ok\<close>, what the schema enforces, and
  \<open>books_ok\<close>: the held balance of a wallet is the sum of its active holds.
\<close>

subsection \<open>Statements\<close>

definition num_cast :: "nat \<Rightarrow> float64 \<Rightarrow> int option" where
  "num_cast digits x = (let c = cents x in if \<bar>c\<bar> < 10 ^ digits then Some c else None)"

definition sql_update_balance :: "uuid \<Rightarrow> float64 \<Rightarrow> float64 \<Rightarrow> time \<Rightarrow> update" where
  "sql_update_balance wid av hl now d =
     (if wid \<notin> w_id ` set (wallets d) then Inr (d, 0)
      else (case (num_cast 15 av, num_cast 15 hl) of
          (Some a, Some h) \<Rightarrow>
            (if a < 0 \<or> h < 0 then Inl CheckViolation
             else Inr (d\<lparr>wallets := update_where (\<lambda>r. w_id r = wid)
                          (\<lambda>r. r\<lparr>w_available := a, w_held := h, w_updated := now\<rparr>) (wallets d)\<rparr>, 1))
        | _ \<Rightarrow> Inl NumericOverflow))"

definition sql_insert_wtxn :: "float64 wallet_transaction \<Rightarrow> update" where
  "sql_insert_wtxn t d =
     (case (num_cast 12 (wt_amount t), num_cast 12 (wt_before t), num_cast 12 (wt_after t)) of
        (Some am, Some be, Some af) \<Rightarrow>
          (if wt_key t \<in> wt_key ` set (wtxns d) then Inr (d, 0)
           else if wt_id t \<in> wt_id ` set (wtxns d) then Inl UniqueViolation
           else if wt_wallet t \<notin> w_id ` set (wallets d) then Inl ForeignKeyViolation
           else Inr (d\<lparr>wtxns := wtxns d @
             [\<lparr>wt_id = wt_id t, wt_wallet = wt_wallet t, wt_transaction = wt_transaction t,
               wt_key = wt_key t, wt_op = wt_op t, wt_amount = am, wt_before = be, wt_after = af,
               wt_ref_type = wt_ref_type t, wt_ref_id = wt_ref_id t, wt_status = wt_status t,
               wt_created = wt_created t\<rparr>]\<rparr>, 1))
      | _ \<Rightarrow> Inl NumericOverflow)"

definition sql_insert_hold :: "float64 bid_hold \<Rightarrow> update" where
  "sql_insert_hold h d =
     (case num_cast 15 (h_amount h) of
        None \<Rightarrow> Inl NumericOverflow
      | Some am \<Rightarrow>
          (if am \<le> 0 then Inl CheckViolation
           else if h_id h \<in> h_id ` set (holds d) then Inl UniqueViolation
           else if h_wallet h \<notin> w_id ` set (wallets d) then Inl ForeignKeyViolation
           else Inr (d\<lparr>holds := holds d @
             [\<lparr>h_id = h_id h, h_auction = h_auction h, h_bidder = h_bidder h,
               h_wallet = h_wallet h, h_amount = am, h_status = h_status h,
               h_expires = h_expires h, h_created = h_created h\<rparr>]\<rparr>, 1)))"

definition sql_update_hold_status :: "uuid \<Rightarrow> hold_status \<Rightarrow> update" where
  "sql_update_hold_status hid st d =
     (if hid \<notin> h_id ` set (holds d) then Inr (d, 0)
      else Inr (d\<lparr>holds := update_where (\<lambda>r. h_id r = hid) (\<lambda>r. r\<lparr>h_status := st\<rparr>) (holds d)\<rparr>, 1))"

subsection \<open>The repository functions\<close>

definition get_wallet_for_update :: "uuid \<Rightarrow> (db_error, float64 wallet) goop" where
  "get_wallet_for_update wid =
     query_row (\<lambda>d. map_option scan_wallet (find (\<lambda>r. w_id r = wid) (wallets d)))"

definition get_wallet_by_user_for_update :: "uuid \<Rightarrow> (db_error, float64 wallet) goop" where
  "get_wallet_by_user_for_update u =
     query_row (\<lambda>d. map_option scan_wallet (find (\<lambda>r. w_user r = u) (wallets d)))"

definition update_balance :: "uuid \<Rightarrow> float64 \<Rightarrow> float64 \<Rightarrow> time \<Rightarrow> (db_error, unit) goop" where
  "update_balance wid av hl now =
     andthen (exec (sql_update_balance wid av hl now))
       (\<lambda>n. if n = 0 then fail NoRowsAffected else ret ())"

definition check_idempotency_key :: "string \<Rightarrow> (db_error, bool) goop" where
  "check_idempotency_key key = pool_query (\<lambda>d. Some (key \<in> wt_key ` set (wtxns d)))"

definition create_wallet_transaction :: "float64 wallet_transaction \<Rightarrow> (db_error, unit) goop" where
  "create_wallet_transaction t = andthen (exec (sql_insert_wtxn t)) (\<lambda>_. ret ())"

definition create_hold :: "float64 bid_hold \<Rightarrow> (db_error, unit) goop" where
  "create_hold h = andthen (exec (sql_insert_hold h)) (\<lambda>_. ret ())"

definition get_active_hold_for_update :: "uuid \<Rightarrow> (db_error, float64 bid_hold) goop" where
  "get_active_hold_for_update hid =
     query_row (\<lambda>d. map_option scan_hold
       (find (\<lambda>r. h_id r = hid \<and> h_status r = HoldActive) (holds d)))"

definition update_hold_status :: "uuid \<Rightarrow> hold_status \<Rightarrow> (db_error, unit) goop" where
  "update_hold_status hid st =
     andthen (exec (sql_update_hold_status hid st))
       (\<lambda>n. if n = 0 then fail NoRowsAffected else ret ())"

lemmas repo_defs = get_wallet_for_update_def get_wallet_by_user_for_update_def update_balance_def
  check_idempotency_key_def create_wallet_transaction_def create_hold_def
  get_active_hold_for_update_def update_hold_status_def

subsection \<open>What the schema and the books require\<close>

definition active_holds :: "uuid \<Rightarrow> int bid_hold list \<Rightarrow> int" where
  "active_holds wid hs =
     sum_list (map h_amount (filter (\<lambda>h. h_status h = HoldActive \<and> h_wallet h = wid) hs))"

definition schema_ok :: "paydb \<Rightarrow> bool" where
  "schema_ok d \<longleftrightarrow>
     distinct (map w_id (wallets d)) \<and> distinct (map w_user (wallets d)) \<and>
     distinct (map h_id (holds d)) \<and> distinct (map wt_key (wtxns d)) \<and>
     (\<forall>w \<in> set (wallets d). 0 \<le> w_available w \<and> 0 \<le> w_held w \<and>
        in_range (w_available w) \<and> in_range (w_held w)) \<and>
     (\<forall>h \<in> set (holds d). 0 < h_amount h \<and> in_range (h_amount h) \<and>
        h_wallet h \<in> w_id ` set (wallets d))"

definition books_ok :: "paydb \<Rightarrow> bool" where
  "books_ok d \<longleftrightarrow> (\<forall>w \<in> set (wallets d). w_held w = active_holds (w_id w) (holds d))"

lemma num_cast_SomeD: "num_cast 15 x = Some c \<Longrightarrow> c = cents x \<and> in_range c"
  by (auto simp: num_cast_def in_range_def Let_def split: if_splits)

lemma num_cast_12_SomeD: "num_cast 12 x = Some c \<Longrightarrow> c = cents x \<and> \<bar>c\<bar> < 10 ^ 12"
  by (auto simp: num_cast_def Let_def split: if_splits)

lemma schema_wallet:
  assumes "schema_ok d" and "w \<in> set (wallets d)"
  shows "0 \<le> w_available w" "0 \<le> w_held w" "in_range (w_available w)" "in_range (w_held w)"
  using assms by (auto simp: schema_ok_def)

lemma schema_hold:
  assumes "schema_ok d" and "h \<in> set (holds d)"
  shows "0 < h_amount h" "in_range (h_amount h)" "h_wallet h \<in> w_id ` set (wallets d)"
  using assms by (auto simp: schema_ok_def)

text \<open>Elimination rules: what a statement that succeeded has done.\<close>

lemma update_balance_okE:
  assumes "update_balance wid av hl now s = (Inr u, s')"
  obtains "db s' = (db s)\<lparr>wallets := update_where (\<lambda>r. w_id r = wid)
      (\<lambda>r. r\<lparr>w_available := cents av, w_held := cents hl, w_updated := now\<rparr>) (wallets (db s))\<rparr>"
    and "0 \<le> cents av" and "0 \<le> cents hl" and "in_range (cents av)" and "in_range (cents hl)"
    and "wid \<in> w_id ` set (wallets (db s))"
  using assms unfolding update_balance_def
  by (auto elim!: go_okE simp: sql_update_balance_def fail_def ret_def dest!: num_cast_SomeD
      split: if_splits option.splits)

lemma create_wallet_transaction_okE:
  assumes "create_wallet_transaction t s = (Inr u, s')"
  obtains (inserted) t' where "db s' = (db s)\<lparr>wtxns := wtxns (db s) @ [t']\<rparr>"
      and "wt_key t \<notin> wt_key ` set (wtxns (db s))" and "wt_key t' = wt_key t"
      and "wt_op t' = wt_op t" and "wt_wallet t' = wt_wallet t" and "wt_amount t' = cents (wt_amount t)"
      and "wt_before t' = cents (wt_before t)" and "wt_after t' = cents (wt_after t)"
  | (conflict) "db s' = db s" and "wt_key t \<in> wt_key ` set (wtxns (db s))"
  using assms unfolding create_wallet_transaction_def
  by (fastforce elim!: go_okE simp: sql_insert_wtxn_def dest!: num_cast_12_SomeD
      split: if_splits option.splits)

lemma create_hold_okE:
  assumes "create_hold h s = (Inr u, s')"
  obtains h' where "db s' = (db s)\<lparr>holds := holds (db s) @ [h']\<rparr>"
    and "h' = \<lparr>h_id = h_id h, h_auction = h_auction h, h_bidder = h_bidder h, h_wallet = h_wallet h,
      h_amount = cents (h_amount h), h_status = h_status h, h_expires = h_expires h,
      h_created = h_created h\<rparr>"
    and "h_id h \<notin> h_id ` set (holds (db s))" and "0 < cents (h_amount h)"
    and "in_range (cents (h_amount h))" and "h_wallet h \<in> w_id ` set (wallets (db s))"
  using assms unfolding create_hold_def
  by (fastforce elim!: go_okE simp: sql_insert_hold_def dest!: num_cast_SomeD
      split: if_splits option.splits)

lemma update_hold_status_okE:
  assumes "update_hold_status hid st s = (Inr u, s')"
  obtains "db s' = (db s)\<lparr>holds := update_where (\<lambda>r. h_id r = hid) (\<lambda>r. r\<lparr>h_status := st\<rparr>) (holds (db s))\<rparr>"
  using assms unfolding update_hold_status_def
  by (auto elim!: go_okE simp: sql_update_hold_status_def fail_def split: if_splits)

lemma query_find_okE:
  assumes "query_row (\<lambda>d. map_option f (find P (tab d))) s = (Inr x, s')"
  obtains r where "r \<in> set (tab (db s))" and "P r" and "x = f r" and "db s' = db s"
    and "find P (tab (db s)) = Some r"
proof -
  from assms obtain r where r: "find P (tab (db s)) = Some r" "x = f r" "db s' = db s"
    by (auto elim!: query_row_okE)
  from find_SomeD [OF r(1)] r show ?thesis by (intro that) auto
qed

lemma get_wallet_okE:
  assumes "get_wallet_by_user_for_update u s = (Inr w, s')"
  obtains r where "r \<in> set (wallets (db s))" and "w_user r = u" and "w = scan_wallet r"
    and "db s' = db s"
    and "find (\<lambda>x. w_user x = u) (wallets (db s)) = Some r"
  using assms unfolding get_wallet_by_user_for_update_def
  by (rule query_find_okE) (use that in auto)

lemma get_wallet_by_id_okE:
  assumes "get_wallet_for_update i s = (Inr w, s')"
  obtains r where "r \<in> set (wallets (db s))" and "w_id r = i" and "w = scan_wallet r"
    and "db s' = db s"
    and "find (\<lambda>x. w_id x = i) (wallets (db s)) = Some r"
  using assms unfolding get_wallet_for_update_def
  by (rule query_find_okE) (use that in auto)

lemma get_active_hold_okE:
  assumes "get_active_hold_for_update i s = (Inr h, s')"
  obtains r where "r \<in> set (holds (db s))" and "h_id r = i" and "h_status r = HoldActive"
    and "h = scan_hold r" and "db s' = db s"
    and "find (\<lambda>x. h_id x = i \<and> h_status x = HoldActive) (holds (db s)) = Some r"
  using assms unfolding get_active_hold_for_update_def
  by (rule query_find_okE) (use that in auto)

lemmas repo_okE = update_balance_okE create_wallet_transaction_okE create_hold_okE
  update_hold_status_okE get_wallet_okE get_wallet_by_id_okE get_active_hold_okE

end
