(* ===== verification/WalletSpec.thy ===== *)
theory WalletSpec
  imports Wallet "HOL-Library.Sublist"
begin

text \<open>
  What the wallet service of \<^verbatim>\<open>Wallet\<close> promises. The five operations are the commands of one
  service \<open>wallet_step\<close>; \<open>db_ok\<close> is its invariant (schema and books), the interfaces
  \<open>atomic_service\<close> and \<open>append_only\<close> carry it over every sequence of commands and every
  pattern of faults, and \<open>ledger_of\<close> is the abstraction to a ledger of exact cents that
  each operation refines.
\<close>

datatype wallet_cmd = CmdHold hold_request | CmdRelease hold_ref_request | CmdCharge hold_ref_request
  | CmdCredit credit_request | CmdDeposit deposit_request

primrec wallet_step :: "draw \<times> wallet_cmd \<Rightarrow> (wallet_err, op_result) goop" where
  "wallet_step (dr, c) =
     (case c of CmdHold req \<Rightarrow> hold_funds dr req
      | CmdRelease req \<Rightarrow> release_funds dr req
      | CmdCharge req \<Rightarrow> charge_funds dr req
      | CmdCredit req \<Rightarrow> credit_funds dr req
      | CmdDeposit req \<Rightarrow> deposit_funds dr req)"

primrec cmd_key :: "wallet_cmd \<Rightarrow> string" where
  "cmd_key (CmdHold req) = hr_key req"
| "cmd_key (CmdRelease req) = rr_key req"
| "cmd_key (CmdCharge req) = rr_key req"
| "cmd_key (CmdCredit req) = cr_key req"
| "cmd_key (CmdDeposit req) = dr_key req"

text \<open>Amounts a client can have meant: a whole number of cents in the range of the columns.\<close>

definition whole_cents :: "float64 \<Rightarrow> bool" where
  "whole_cents x \<longleftrightarrow> (in_range (cents x) \<and> x = dec (cents x))"

primrec cmd_ok :: "wallet_cmd \<Rightarrow> bool" where
  "cmd_ok (CmdHold req) = whole_cents (hr_amount req)"
| "cmd_ok (CmdRelease req) = True"
| "cmd_ok (CmdCharge req) = True"
| "cmd_ok (CmdCredit req) = whole_cents (cr_amount req)"
| "cmd_ok (CmdDeposit req) = whole_cents (dr_amount req)"

definition db_ok :: "paydb \<Rightarrow> bool" where
  "db_ok d \<longleftrightarrow> schema_ok d \<and> books_ok d"

subsection \<open>Errors leave no trace\<close>

lemma check_idempotency_key_db: "check_idempotency_key key s = (r, s') \<Longrightarrow> db s' = db s"
  by (auto simp: check_idempotency_key_def pool_query_def split: if_splits)

lemma idempotent_cases:
  obtains (dup) s1 where "idempotent key body s = (Inl ErrDuplicateOperation, s1)" and "db s1 = db s"
  | (go) s1 where "idempotent key body s = body s1" and "db s1 = db s"
proof -
  obtain r s1 where c: "check_idempotency_key key s = (r, s1)" by fastforce
  then have d: "db s1 = db s" by (rule check_idempotency_key_db)
  show ?thesis
  proof (cases "r = Inr True")
    case True
    with c d show ?thesis by (intro dup [of s1]) (simp_all add: idempotent_def)
  next
    case False
    with c d show ?thesis
      by (intro go [of s1]) (auto simp: idempotent_def split: sum.splits bool.splits)
  qed
qed

lemma idempotent_atomic:
  assumes "idempotent key body s = (Inl e, s')"
    and "\<And>s1 e s'. body s1 = (Inl e, s') \<Longrightarrow> db s' = db s1"
  shows "db s' = db s"
proof (cases rule: idempotent_cases [of key body s])
  case (dup s1)
  with assms(1) show ?thesis by simp
next
  case (go s1)
  with assms(1) assms(2) [of s1] show ?thesis by simp
qed

lemma idempotent_okE:
  assumes "idempotent key body s = (Inr r, s')"
  obtains s1 where "body s1 = (Inr r, s')" and "db s1 = db s"
  by (rule idempotent_cases [of key body s]) (use assms that in auto)

lemmas funds_defs = hold_funds_def release_funds_def charge_funds_def credit_funds_def deposit_funds_def
lemmas tx_defs = hold_tx_def release_tx_def charge_tx_def credit_tx_def deposit_tx_def

lemma wallet_step_error: "wallet_step dc s = (Inl e, s') \<Longrightarrow> db s' = db s"
  by (cases dc)
    (auto simp: funds_defs tx_defs elim!: idempotent_atomic with_tx_error split: wallet_cmd.splits)

subsection \<open>The schema and the books\<close>

lemma w_id_set_wallet [simp]: "map w_id (set_wallet i a h t ws) = map w_id ws"
  by (simp add: set_wallet_def map_update_where)

lemma w_user_set_wallet [simp]: "map w_user (set_wallet i a h t ws) = map w_user ws"
  by (simp add: set_wallet_def map_update_where)

lemma w_id_image_set_wallet [simp]: "w_id ` set (set_wallet i a h t ws) = w_id ` set ws"
  by (metis list.set_map w_id_set_wallet)

lemma h_id_status [simp]:
  "map h_id (update_where P (\<lambda>x. x\<lparr>h_status := st\<rparr>) hs) = map h_id hs"
  by (simp add: map_update_where)

lemma audited_distinct:
  "audited key ts ts' \<Longrightarrow> distinct (map wt_key ts) \<Longrightarrow> distinct (map wt_key ts')"
  by (auto simp: audited_def split: if_splits)

lemma active_holds_append:
  "active_holds i (hs @ [h]) =
     active_holds i hs + (if h_status h = HoldActive \<and> h_wallet h = i then h_amount h else 0)"
  by (simp add: active_holds_def)

lemma active_holds_close:
  assumes "distinct (map h_id hs)" and "h \<in> set hs" and "h_status h = HoldActive" and "st \<noteq> HoldActive"
  shows "active_holds i (update_where (\<lambda>x. h_id x = h_id h) (\<lambda>x. x\<lparr>h_status := st\<rparr>) hs) =
           active_holds i hs - (if h_wallet h = i then h_amount h else 0)"
  unfolding active_holds_def
  by (subst sum_list_filter_update [OF assms(1,2)]) (use assms(3,4) in auto)

lemma schema_ok_set_wallet:
  assumes "schema_ok d" and "0 \<le> a" "0 \<le> h" "in_range a" "in_range h"
    and "audited key (wtxns d) ts" and "distinct (map h_id hs)"
    and "\<forall>x \<in> set hs. 0 < h_amount x \<and> in_range (h_amount x) \<and> h_wallet x \<in> w_id ` set (wallets d)"
  shows "schema_ok (d\<lparr>wtxns := ts, holds := hs, wallets := set_wallet i a h t (wallets d)\<rparr>)"
proof -
  have "\<forall>w \<in> set (set_wallet i a h t (wallets d)). 0 \<le> w_available w \<and> 0 \<le> w_held w \<and>
      in_range (w_available w) \<and> in_range (w_held w)"
    using assms(1-5) by (auto simp: set_wallet_def in_set_update_where schema_ok_def)
  with assms audited_distinct [OF assms(6)] show ?thesis
    by (simp add: schema_ok_def)
qed

lemma books_ok_set_wallet:
  assumes "schema_ok d" and "books_ok d" and "w \<in> set (wallets d)"
    and "\<And>i. active_holds i hs = active_holds i (holds d) + (if i = w_id w then h - w_held w else 0)"
  shows "books_ok (d\<lparr>wtxns := ts, holds := hs, wallets := set_wallet (w_id w) a h t (wallets d)\<rparr>)"
  unfolding books_ok_def
proof
  fix x
  assume "x \<in> set (wallets (d\<lparr>wtxns := ts, holds := hs, wallets := set_wallet (w_id w) a h t (wallets d)\<rparr>))"
  then obtain q where q: "q \<in> set (wallets d)"
    and x: "x = (if w_id q = w_id w then q\<lparr>w_available := a, w_held := h, w_updated := t\<rparr> else q)"
    by (auto simp: set_wallet_def in_set_update_where)
  have "w_held q = active_holds (w_id q) (holds d)" using assms(2) q by (simp add: books_ok_def)
  moreover have "w_id q = w_id w \<Longrightarrow> q = w"
    using assms(1,3) q by (auto simp: schema_ok_def dest: distinct_key_unique)
  ultimately show "w_held x = active_holds (w_id x)
      (holds (d\<lparr>wtxns := ts, holds := hs, wallets := set_wallet (w_id w) a h t (wallets d)\<rparr>))"
    using x by (auto simp: assms(4))
qed

lemma db_ok_posting:
  assumes "db_ok d" and "w \<in> set (wallets d)" and "0 \<le> a" "0 \<le> h" "in_range a" "in_range h"
    and "audited key (wtxns d) ts" and "distinct (map h_id hs)"
    and "\<forall>x \<in> set hs. 0 < h_amount x \<and> in_range (h_amount x) \<and> h_wallet x \<in> w_id ` set (wallets d)"
    and "\<And>i. active_holds i hs = active_holds i (holds d) + (if i = w_id w then h - w_held w else 0)"
  shows "db_ok (d\<lparr>wtxns := ts, holds := hs, wallets := set_wallet (w_id w) a h t (wallets d)\<rparr>)"
  using assms unfolding db_ok_def by (blast intro: schema_ok_set_wallet books_ok_set_wallet)

lemma in_range_diff: "in_range a \<Longrightarrow> in_range b \<Longrightarrow> 0 \<le> a \<Longrightarrow> 0 \<le> b \<Longrightarrow> in_range (a - b)"
  by (auto simp: in_range_def)

lemma db_ok_schema: "db_ok d \<Longrightarrow> schema_ok d"
  by (simp add: db_ok_def)

lemma db_ok_holds:
  "db_ok d \<Longrightarrow> distinct (map h_id (holds d))"
  "db_ok d \<Longrightarrow> x \<in> set (holds d) \<Longrightarrow>
     0 < h_amount x \<and> in_range (h_amount x) \<and> h_wallet x \<in> w_id ` set (wallets d)"
  by (auto simp: db_ok_def schema_ok_def)

lemma db_ok_wallet:
  assumes "db_ok d" and "w \<in> set (wallets d)"
  shows "0 \<le> w_available w" "0 \<le> w_held w" "in_range (w_available w)" "in_range (w_held w)"
  using assms by (auto simp: db_ok_def schema_ok_def)

lemma db_ok_close:
  assumes "db_ok d" and "h \<in> set (holds d)" and "h_status h = HoldActive" and "st \<noteq> HoldActive"
    and "w \<in> set (wallets d)" and "w_id w = h_wallet h" and "h_amount h \<le> w_held w"
    and "0 \<le> a" "in_range a" and "audited key (wtxns d) ts" and "hid = h_id h" and "wid = w_id w"
  shows "db_ok (d\<lparr>wtxns := ts,
    holds := update_where (\<lambda>x. h_id x = hid) (\<lambda>x. x\<lparr>h_status := st\<rparr>) (holds d),
    wallets := set_wallet wid a (w_held w - h_amount h) t (wallets d)\<rparr>)"
  unfolding assms(11,12)
proof (rule db_ok_posting [OF assms(1,5) assms(8) _ assms(9) _ assms(10)])
  show "0 \<le> w_held w - h_amount h" using assms(7) by simp
  show "in_range (w_held w - h_amount h)"
    using db_ok_wallet [OF assms(1,5)] db_ok_holds(2) [OF assms(1,2)] by (simp add: in_range_diff)
  show "distinct (map h_id (update_where (\<lambda>x. h_id x = h_id h) (\<lambda>x. x\<lparr>h_status := st\<rparr>) (holds d)))"
    using db_ok_holds(1) [OF assms(1)] by simp
  show "\<forall>x \<in> set (update_where (\<lambda>x. h_id x = h_id h) (\<lambda>x. x\<lparr>h_status := st\<rparr>) (holds d)).
      0 < h_amount x \<and> in_range (h_amount x) \<and> h_wallet x \<in> w_id ` set (wallets d)"
    using db_ok_holds(2) [OF assms(1)] by (auto simp: in_set_update_where)
  show "active_holds i (update_where (\<lambda>x. h_id x = h_id h) (\<lambda>x. x\<lparr>h_status := st\<rparr>) (holds d)) =
      active_holds i (holds d) + (if i = w_id w then w_held w - h_amount h - w_held w else 0)" for i
    using active_holds_close [OF db_ok_holds(1) [OF assms(1)] assms(2-4)] assms(6) by simp
qed

lemma hold_tx_keeps:
  assumes "hold_tx dr req s = (Inr r, s')" and "db_ok (db s)" and "whole_cents (hr_amount req)"
  shows "db_ok (db s')"
proof -
  define c where "c = cents (hr_amount req)"
  have c: "hr_amount req = dec c" "in_range c" using assms(3) by (simp_all add: whole_cents_def c_def)
  obtain w ts where w: "w \<in> set (wallets (db s))" "0 < c" "c \<le> w_available w" "in_range (w_held w + c)"
    and ts: "audited (hr_key req) (wtxns (db s)) ts" and new: "new_hold dr \<notin> h_id ` set (holds (db s))"
    and eq: "db s' = (db s)\<lparr>wtxns := ts, holds := holds (db s) @ [new_hold_row dr req (w_id w) c],
      wallets := set_wallet (w_id w) (w_available w - c) (w_held w + c) (draw_now dr) (wallets (db s))\<rparr>"
    by (rule hold_tx_okE [OF assms(1) db_ok_schema [OF assms(2)] c])
  note ok = db_ok_wallet [OF assms(2) w(1)] db_ok_holds [OF assms(2)]
  show ?thesis unfolding eq
    by (rule db_ok_posting [OF assms(2) w(1) _ _ _ w(4) ts])
      (use ok w c new in \<open>auto simp: new_hold_row_def active_holds_append in_range_diff\<close>)
qed

lemma release_tx_keeps:
  assumes "release_tx dr req s = (Inr r, s')" and "db_ok (db s)"
  shows "db_ok (db s')"
proof (rule release_tx_okE [OF assms(1) db_ok_schema [OF assms(2)]])
  fix w h ts
  assume h: "h \<in> set (holds (db s))" "h_id h = rr_hold req" "h_status h = HoldActive"
    and w: "w \<in> set (wallets (db s))" "w_id w = h_wallet h" "h_amount h \<le> w_held w"
      "in_range (w_available w + h_amount h)"
    and ts: "audited (rr_key req) (wtxns (db s)) ts"
    and eq: "db s' = (db s)\<lparr>wtxns := ts,
      holds := update_where (\<lambda>x. h_id x = rr_hold req) (\<lambda>x. x\<lparr>h_status := HoldReleased\<rparr>) (holds (db s)),
      wallets := set_wallet (w_id w) (w_available w + h_amount h) (w_held w - h_amount h) (draw_now dr)
        (wallets (db s))\<rparr>"
  have "0 \<le> w_available w + h_amount h"
    using db_ok_wallet(1) [OF assms(2) w(1)] db_ok_holds(2) [OF assms(2) h(1)] by simp
  from db_ok_close [OF assms(2) h(1,3) _ w(1-3) this w(4) ts] h(2) show ?thesis
    unfolding eq by simp
qed

lemma charge_tx_keeps:
  assumes "charge_tx dr req s = (Inr r, s')" and "db_ok (db s)"
  shows "db_ok (db s')"
proof (rule charge_tx_okE [OF assms(1) db_ok_schema [OF assms(2)]])
  fix w h ts
  assume h: "h \<in> set (holds (db s))" "h_id h = rr_hold req" "h_status h = HoldActive"
    and w: "w \<in> set (wallets (db s))" "w_id w = h_wallet h" "h_amount h \<le> w_held w"
    and ts: "audited (rr_key req) (wtxns (db s)) ts"
    and eq: "db s' = (db s)\<lparr>wtxns := ts,
      holds := update_where (\<lambda>x. h_id x = rr_hold req) (\<lambda>x. x\<lparr>h_status := HoldCharged\<rparr>) (holds (db s)),
      wallets := set_wallet (w_id w) (w_available w) (w_held w - h_amount h) (draw_now dr)
        (wallets (db s))\<rparr>"
  from db_ok_close [OF assms(2) h(1,3) _ w(1-3) db_ok_wallet(1) [OF assms(2) w(1)]
      db_ok_wallet(3) [OF assms(2) w(1)] ts] h(2) show ?thesis
    unfolding eq by simp
qed

lemma db_ok_add:
  assumes "db_ok d" and "w \<in> set (wallets d)" and "0 \<le> a" "in_range a" and "audited key (wtxns d) ts"
  shows "db_ok (d\<lparr>wtxns := ts, wallets := set_wallet (w_id w) a (w_held w) t (wallets d)\<rparr>)"
  using db_ok_posting [OF assms(1,2,3) _ assms(4) _ assms(5), of "w_held w" "holds d"]
    db_ok_wallet [OF assms(1,2)] db_ok_holds [OF assms(1)] by simp

lemma credit_tx_keeps:
  assumes "credit_tx dr req s = (Inr r, s')" and "db_ok (db s)" and "whole_cents (cr_amount req)"
  shows "db_ok (db s')"
proof -
  have c: "cr_amount req = dec (cents (cr_amount req))" "in_range (cents (cr_amount req))"
    using assms(3) by (simp_all add: whole_cents_def)
  show ?thesis
    by (rule credit_tx_okE [OF assms(1) db_ok_schema [OF assms(2)] c])
      (auto intro!: db_ok_add [OF assms(2)])
qed

lemma deposit_tx_keeps:
  assumes "deposit_tx dr req s = (Inr r, s')" and "db_ok (db s)" and "whole_cents (dr_amount req)"
  shows "db_ok (db s')"
proof -
  have c: "dr_amount req = dec (cents (dr_amount req))" "in_range (cents (dr_amount req))"
    using assms(3) by (simp_all add: whole_cents_def)
  show ?thesis
    by (rule deposit_tx_okE [OF assms(1) db_ok_schema [OF assms(2)] c])
      (auto intro!: db_ok_add [OF assms(2)])
qed

lemma wallet_step_keeps:
  assumes "wallet_step dc s = (Inr r, s')" and "cmd_ok (snd dc)" and "db_ok (db s)"
  shows "db_ok (db s')"
  using assms
  by (cases dc)
    (auto simp: funds_defs elim!: idempotent_okE split: wallet_cmd.splits
      intro: hold_tx_keeps release_tx_keeps charge_tx_keeps credit_tx_keeps deposit_tx_keeps)

subsection \<open>Interfaces: an atomic service, an append-only log\<close>

primrec serve :: "('c \<Rightarrow> ('e, 'r) goop) \<Rightarrow> 'c list \<Rightarrow> sess \<Rightarrow> sess" where
  "serve step [] s = s"
| "serve step (c # cs) s = serve step cs (snd (step c s))"

locale atomic_service =
  fixes step :: "'c \<Rightarrow> ('e, 'r) goop"
    and ok :: "'c \<Rightarrow> bool"
    and inv :: "paydb \<Rightarrow> bool"
  assumes step_error: "step c s = (Inl e, s') \<Longrightarrow> db s' = db s"
    and step_keeps: "step c s = (Inr r, s') \<Longrightarrow> ok c \<Longrightarrow> inv (db s) \<Longrightarrow> inv (db s')"
begin

lemma step_inv: "ok c \<Longrightarrow> inv (db s) \<Longrightarrow> inv (db (snd (step c s)))"
  by (cases "step c s"; cases "fst (step c s)") (auto dest: step_error step_keeps)

lemma serve_inv: "\<forall>c \<in> set cs. ok c \<Longrightarrow> inv (db s) \<Longrightarrow> inv (db (serve step cs s))"
  by (induction cs arbitrary: s) (auto intro: step_inv)

end

locale append_only =
  fixes step :: "'c \<Rightarrow> ('e, 'r) goop"
    and log :: "paydb \<Rightarrow> 'l list"
  assumes step_appends: "prefix (log (db s)) (log (db (snd (step c s))))"
begin

lemma serve_appends: "prefix (log (db s)) (log (db (serve step cs s)))"
  by (induction cs arbitrary: s) (auto intro: prefix_order.trans step_appends)

lemma serve_remembers: "x \<in> set (log (db s)) \<Longrightarrow> x \<in> set (log (db (serve step cs s)))"
  using serve_appends set_mono_prefix by blast

end

lemma audited_prefix: "audited key ts ts' \<Longrightarrow> prefix ts ts'"
  by (auto simp: audited_def split: if_splits)

lemma audited_key: "audited key ts ts' \<Longrightarrow> key \<in> wt_key ` set ts'"
  by (auto simp: audited_def split: if_splits)

lemma tx_audited:
  "hold_tx dr h s = (Inr r, s') \<Longrightarrow> audited (hr_key h) (wtxns (db s)) (wtxns (db s'))"
  "release_tx dr q s = (Inr r, s') \<Longrightarrow> audited (rr_key q) (wtxns (db s)) (wtxns (db s'))"
  "charge_tx dr q s = (Inr r, s') \<Longrightarrow> audited (rr_key q) (wtxns (db s)) (wtxns (db s'))"
  "credit_tx dr c s = (Inr r, s') \<Longrightarrow> audited (cr_key c) (wtxns (db s)) (wtxns (db s'))"
  "deposit_tx dr d s = (Inr r, s') \<Longrightarrow> audited (dr_key d) (wtxns (db s)) (wtxns (db s'))"
  unfolding tx_defs Let_def by (elim tx_okE; simp)+

lemma wallet_step_audited:
  assumes "wallet_step dc s = (Inr r, s')"
  shows "audited (cmd_key (snd dc)) (wtxns (db s)) (wtxns (db s'))"
  using assms
  by (cases dc) (auto simp: funds_defs elim!: idempotent_okE dest: tx_audited split: wallet_cmd.splits)

interpretation wallet_service: atomic_service wallet_step "\<lambda>dc. cmd_ok (snd dc)" db_ok
  by unfold_locales (auto intro: wallet_step_error wallet_step_keeps)

interpretation wallet_log: append_only wallet_step wtxns
proof
  fix s and dc :: "draw \<times> wallet_cmd"
  show "prefix (wtxns (db s)) (wtxns (db (snd (wallet_step dc s))))"
  proof (cases "fst (wallet_step dc s)")
    case (Inl e)
    then show ?thesis using wallet_step_error [of dc s e "snd (wallet_step dc s)"]
      by (simp add: prod_eq_iff)
  next
    case (Inr r)
    then show ?thesis using wallet_step_audited [of dc s r "snd (wallet_step dc s)"]
      by (simp add: prod_eq_iff audited_prefix)
  qed
qed

subsection \<open>The ledger\<close>

type_synonym ledger = "uuid \<Rightarrow> (int \<times> int) option"

definition ledger_of :: "paydb \<Rightarrow> ledger" where
  "ledger_of d u = map_option (\<lambda>w. (w_available w, w_held w)) (find (\<lambda>w. w_user w = u) (wallets d))"

definition led_hold :: "uuid \<Rightarrow> int \<Rightarrow> ledger \<Rightarrow> ledger option" where
  "led_hold u c L = (case L u of None \<Rightarrow> None
     | Some (a, h) \<Rightarrow> if 0 < c \<and> c \<le> a then Some (L(u \<mapsto> (a - c, h + c))) else None)"

definition led_release :: "uuid \<Rightarrow> int \<Rightarrow> ledger \<Rightarrow> ledger option" where
  "led_release u c L = (case L u of None \<Rightarrow> None
     | Some (a, h) \<Rightarrow> if c \<le> h then Some (L(u \<mapsto> (a + c, h - c))) else None)"

definition led_charge :: "uuid \<Rightarrow> int \<Rightarrow> ledger \<Rightarrow> ledger option" where
  "led_charge u c L = (case L u of None \<Rightarrow> None
     | Some (a, h) \<Rightarrow> if c \<le> h then Some (L(u \<mapsto> (a, h - c))) else None)"

definition led_add :: "uuid \<Rightarrow> int \<Rightarrow> ledger \<Rightarrow> ledger option" where
  "led_add u c L = (case L u of None \<Rightarrow> None
     | Some (a, h) \<Rightarrow> if 0 \<le> a + c then Some (L(u \<mapsto> (a + c, h))) else None)"

lemmas led_defs = led_hold_def led_release_def led_charge_def led_add_def

lemma find_update_where_other:
  "(\<And>x. P (f x) = P x) \<Longrightarrow>
   find P (update_where Q f rows) = map_option (\<lambda>x. if Q x then f x else x) (find P rows)"
  by (induction rows) auto

lemma schema_distinct:
  "schema_ok d \<Longrightarrow> distinct (map w_id (wallets d))"
  "schema_ok d \<Longrightarrow> distinct (map w_user (wallets d))"
  "schema_ok d \<Longrightarrow> distinct (map h_id (holds d))"
  by (simp_all add: schema_ok_def)

lemma ledger_of_wallet:
  "schema_ok d \<Longrightarrow> w \<in> set (wallets d) \<Longrightarrow> ledger_of d (w_user w) = Some (w_available w, w_held w)"
  by (simp add: ledger_of_def find_key_eq schema_distinct)

lemma ledger_of_set_wallet:
  assumes "schema_ok d" and "w \<in> set (wallets d)" and "wid = w_id w"
  shows "ledger_of (d\<lparr>wtxns := ts, holds := hs, wallets := set_wallet wid a h t (wallets d)\<rparr>) =
           (ledger_of d)(w_user w \<mapsto> (a, h))"
proof
  fix u
  show "ledger_of (d\<lparr>wtxns := ts, holds := hs, wallets := set_wallet wid a h t (wallets d)\<rparr>) u =
      ((ledger_of d)(w_user w \<mapsto> (a, h))) u"
  proof (cases "find (\<lambda>x. w_user x = u) (wallets d)")
    case None
    with assms(2) have "u \<noteq> w_user w" by (auto simp: find_None_iff)
    with None show ?thesis
      by (simp add: ledger_of_def set_wallet_def find_update_where_other)
  next
    case (Some x)
    then have x: "x \<in> set (wallets d)" "w_user x = u" by (auto dest: find_SomeD)
    have "w_id x = wid \<longleftrightarrow> u = w_user w"
      using x assms schema_distinct(1,2) [OF assms(1)] by (metis distinct_key_unique)
    with Some show ?thesis
      by (simp add: ledger_of_def set_wallet_def find_update_where_other)
  qed
qed

lemma ledger_of_set_wallet' :
  assumes "schema_ok d" and "w \<in> set (wallets d)" and "wid = w_id w"
  shows "ledger_of (d\<lparr>wtxns := ts, wallets := set_wallet wid a h t (wallets d)\<rparr>) =
           (ledger_of d)(w_user w \<mapsto> (a, h))"
  using ledger_of_set_wallet [OF assms, where ts = ts and hs = "holds d"] by simp

lemma hold_tx_refines:
  assumes "hold_tx dr req s = (Inr r, s')" and "schema_ok (db s)"
    and "hr_amount req = dec c" and "in_range c"
  shows "led_hold (hr_user req) c (ledger_of (db s)) = Some (ledger_of (db s'))"
proof (rule hold_tx_okE [OF assms])
  fix w ts
  assume w: "w \<in> set (wallets (db s))" "w_user w = hr_user req" "0 < c" "c \<le> w_available w"
    and eq: "db s' = (db s)\<lparr>wtxns := ts, holds := holds (db s) @ [new_hold_row dr req (w_id w) c],
      wallets := set_wallet (w_id w) (w_available w - c) (w_held w + c) (draw_now dr) (wallets (db s))\<rparr>"
  show ?thesis unfolding eq ledger_of_set_wallet [OF assms(2) w(1) refl]
    using ledger_of_wallet [OF assms(2) w(1)] w by (simp add: led_hold_def)
qed

lemma release_tx_refines:
  assumes "release_tx dr req s = (Inr r, s')" and "schema_ok (db s)"
  shows "\<exists>w h. h \<in> set (holds (db s)) \<and> h_id h = rr_hold req \<and> h_status h = HoldActive \<and>
    w \<in> set (wallets (db s)) \<and> w_id w = h_wallet h \<and> h\<lparr>h_status := HoldReleased\<rparr> \<in> set (holds (db s')) \<and>
    led_release (w_user w) (h_amount h) (ledger_of (db s)) = Some (ledger_of (db s'))"
proof (rule release_tx_okE [OF assms])
  fix w h ts
  assume h: "h \<in> set (holds (db s))" "h_id h = rr_hold req" "h_status h = HoldActive"
    and w: "w \<in> set (wallets (db s))" "w_id w = h_wallet h" "h_amount h \<le> w_held w"
    and eq: "db s' = (db s)\<lparr>wtxns := ts,
      holds := update_where (\<lambda>x. h_id x = rr_hold req) (\<lambda>x. x\<lparr>h_status := HoldReleased\<rparr>) (holds (db s)),
      wallets := set_wallet (w_id w) (w_available w + h_amount h) (w_held w - h_amount h) (draw_now dr)
        (wallets (db s))\<rparr>"
  have "led_release (w_user w) (h_amount h) (ledger_of (db s)) = Some (ledger_of (db s'))"
    unfolding eq ledger_of_set_wallet [OF assms(2) w(1) refl]
    using ledger_of_wallet [OF assms(2) w(1)] w(3) by (simp add: led_release_def)
  moreover have "h\<lparr>h_status := HoldReleased\<rparr> \<in> set (holds (db s'))"
    using h by (auto simp: eq in_set_update_where)
  ultimately show ?thesis using h w by blast
qed

lemma charge_tx_refines:
  assumes "charge_tx dr req s = (Inr r, s')" and "schema_ok (db s)"
  shows "\<exists>w h. h \<in> set (holds (db s)) \<and> h_id h = rr_hold req \<and> h_status h = HoldActive \<and>
    w \<in> set (wallets (db s)) \<and> w_id w = h_wallet h \<and> h\<lparr>h_status := HoldCharged\<rparr> \<in> set (holds (db s')) \<and>
    led_charge (w_user w) (h_amount h) (ledger_of (db s)) = Some (ledger_of (db s'))"
proof (rule charge_tx_okE [OF assms])
  fix w h ts
  assume h: "h \<in> set (holds (db s))" "h_id h = rr_hold req" "h_status h = HoldActive"
    and w: "w \<in> set (wallets (db s))" "w_id w = h_wallet h" "h_amount h \<le> w_held w"
    and eq: "db s' = (db s)\<lparr>wtxns := ts,
      holds := update_where (\<lambda>x. h_id x = rr_hold req) (\<lambda>x. x\<lparr>h_status := HoldCharged\<rparr>) (holds (db s)),
      wallets := set_wallet (w_id w) (w_available w) (w_held w - h_amount h) (draw_now dr)
        (wallets (db s))\<rparr>"
  have "led_charge (w_user w) (h_amount h) (ledger_of (db s)) = Some (ledger_of (db s'))"
    unfolding eq ledger_of_set_wallet [OF assms(2) w(1) refl]
    using ledger_of_wallet [OF assms(2) w(1)] w(3) by (simp add: led_charge_def)
  moreover have "h\<lparr>h_status := HoldCharged\<rparr> \<in> set (holds (db s'))"
    using h by (auto simp: eq in_set_update_where)
  ultimately show ?thesis using h w by blast
qed

lemma credit_tx_refines:
  assumes "credit_tx dr req s = (Inr r, s')" and "schema_ok (db s)"
    and "cr_amount req = dec c" and "in_range c"
  shows "led_add (cr_user req) c (ledger_of (db s)) = Some (ledger_of (db s'))"
proof (rule credit_tx_okE [OF assms])
  fix w ts
  assume w: "w \<in> set (wallets (db s))" "w_user w = cr_user req" "0 \<le> w_available w + c"
    and eq: "db s' = (db s)\<lparr>wtxns := ts,
      wallets := set_wallet (w_id w) (w_available w + c) (w_held w) (draw_now dr) (wallets (db s))\<rparr>"
  show ?thesis unfolding eq ledger_of_set_wallet' [OF assms(2) w(1) refl]
    using ledger_of_wallet [OF assms(2) w(1)] w by (simp add: led_add_def)
qed

lemma deposit_tx_refines:
  assumes "deposit_tx dr req s = (Inr r, s')" and "schema_ok (db s)"
    and "dr_amount req = dec c" and "in_range c"
  shows "led_add (dr_user req) c (ledger_of (db s)) = Some (ledger_of (db s'))"
proof (rule deposit_tx_okE [OF assms])
  fix w ts
  assume w: "w \<in> set (wallets (db s))" "w_user w = dr_user req" "0 \<le> w_available w + c"
    and eq: "db s' = (db s)\<lparr>wtxns := ts,
      wallets := set_wallet (w_id w) (w_available w + c) (w_held w) (draw_now dr) (wallets (db s))\<rparr>"
  show ?thesis unfolding eq ledger_of_set_wallet' [OF assms(2) w(1) refl]
    using ledger_of_wallet [OF assms(2) w(1)] w by (simp add: led_add_def)
qed

subsection \<open>Without faults an admissible operation succeeds\<close>

lemma tick_idle: "faults s = [] \<Longrightarrow> tick s = s"
  by (cases s) (simp add: tick_def)

lemmas quiet_defs = with_tx_def andthen_def on_err_def query_row_def exec_def pool_query_def ret_def fail_def
  tick_idle next_fault_def

lemma num_cast_dec: "in_range c \<Longrightarrow> num_cast 15 (dec c) = Some c"
  by (simp add: num_cast_def in_range_def)

lemma num_cast_range: "in_range (cents x) \<Longrightarrow> num_cast 15 x = Some (cents x)"
  by (simp add: num_cast_def in_range_def Let_def)

lemma num_cast_audit: "\<bar>cents x\<bar> < 10 ^ 12 \<Longrightarrow> num_cast 12 x = Some (cents x)"
  by (simp add: num_cast_def Let_def)

lemma hold_tx_run:
  assumes "faults s = []" and "schema_ok (db s)"
    and w: "find (\<lambda>x. w_user x = hr_user req) (wallets (db s)) = Some w"
    and c: "hr_amount req = dec c" "0 < c" "c \<le> w_available w" "w_available w < 10 ^ 12"
      "w_held w + c < 10 ^ 15"
    and new: "new_hold dr \<notin> h_id ` set (holds (db s))" "new_audit dr \<notin> wt_id ` set (wtxns (db s))"
  shows "fst (hold_tx dr req s) = Inr \<lparr>res_transaction = new_transaction dr, res_hold = Some (new_hold dr),
    res_amount = None, res_before = dec (w_available w), res_after = fsub (dec (w_available w)) (dec c)\<rparr>"
proof -
  from find_SomeD [OF w] have ws: "w \<in> set (wallets (db s))" by simp
  note ok = schema_wallet [OF assms(2) ws]
  have r: "in_range c" "in_range (w_held w + c)" "in_range (w_available w - c)"
    using ok c by (auto simp: in_range_def)
  have i: "w_id w \<in> w_id ` set (wallets (db s))" using ws by blast
  have small: "\<bar>w_available w\<bar> < 10 ^ 12" "\<bar>c\<bar> < 10 ^ 12" "\<bar>w_available w - c\<bar> < 10 ^ 12"
    using ok(1) c by auto
  show ?thesis
    using assms(1) c(2,3) ok r i small new
    by (simp add: hold_tx_def Let_def quiet_defs get_wallet_by_user_for_update_def w c(1)
        create_wallet_transaction_def sql_insert_wtxn_def audit_def create_hold_def sql_insert_hold_def
        update_balance_def sql_update_balance_def dec_less_iff num_cast_range num_cast_audit)
qed

subsection \<open>A sample database\<close>

definition demo_db :: paydb where
  "demo_db = \<lparr>wallets =
      [\<lparr>w_id = ''w1'', w_user = ''alice'', w_available = 10000, w_held = 2500, w_currency = ''USD'',
        w_created = 0, w_updated = 0\<rparr>,
       \<lparr>w_id = ''w2'', w_user = ''bob'', w_available = 500, w_held = 0, w_currency = ''USD'',
        w_created = 0, w_updated = 0\<rparr>],
     holds = [\<lparr>h_id = ''h1'', h_auction = ''a1'', h_bidder = ''alice'', h_wallet = ''w1'',
        h_amount = 2500, h_status = HoldActive, h_expires = 0, h_created = 0\<rparr>],
     wtxns = [], txns = [], outbox = []\<rparr>"

definition demo_sess :: sess where
  "demo_sess = \<lparr>db = demo_db, aborted = False, faults = []\<rparr>"

definition demo_draw :: draw where
  "demo_draw = \<lparr>new_transaction = ''t'', new_hold = ''h2'', new_audit = ''x'', draw_now = 1\<rparr>"

definition demo_hold :: hold_request where
  "demo_hold = \<lparr>hr_user = ''alice'', hr_auction = ''a1'', hr_bid = ''b1'', hr_amount = dec 4000,
     hr_key = ''k1''\<rparr>"

lemma demo_db_ok: "db_ok demo_db"
  by (simp add: demo_db_def db_ok_def schema_ok_def books_ok_def in_range_def active_holds_def)

lemma demo_in_range: "in_range 4000" "in_range 2500"
  by (simp_all add: in_range_def)

subsection \<open>Properties\<close>



text \<open>C1: the books of the wallet service. From tables that satisfy the schema and whose held
  balances are the sums of the active holds, every sequence of hold, release, charge, credit and
  deposit requests with whole-cent amounts, with faults anywhere, ends in such tables: no balance
  is negative and no held cent is unaccounted for.\<close>

theorem wallet_books_kept:
  assumes "\<forall>dc \<in> set cs. cmd_ok (snd dc)" and "db_ok (db s)"
  shows "db_ok (db (serve wallet_step cs s))"
  by (rule wallet_service.serve_inv [OF assms])

theorem wallet_books_kept_witness:
  "db_ok (db (serve wallet_step [(demo_draw, CmdHold demo_hold),
     (demo_draw, CmdRelease \<lparr>rr_hold = ''h1'', rr_key = ''k2''\<rparr>)] demo_sess))"
  by (rule wallet_books_kept)
    (simp_all add: demo_hold_def whole_cents_def demo_in_range demo_db_ok demo_sess_def)

text \<open>C3: a successful hold of c cents, computed in floats and stored in NUMERIC columns, is exactly
  the ledger operation that moves c cents from available to held, defined only when the user has
  them.\<close>

theorem hold_funds_refines:
  assumes "hold_funds dr req s = (Inr r, s')" and "schema_ok (db s)"
    and "hr_amount req = dec c" and "in_range c"
  shows "led_hold (hr_user req) c (ledger_of (db s)) = Some (ledger_of (db s'))"
  using assms(1) unfolding hold_funds_def
  by (rule idempotent_okE) (metis assms(2-4) hold_tx_refines)

theorem hold_funds_refines_witness:
  "led_hold ''alice'' 4000 (ledger_of demo_db) =
     Some (ledger_of (db (snd (hold_funds demo_draw demo_hold demo_sess))))"
proof -
  have "\<not> isl (fst (hold_funds demo_draw demo_hold demo_sess))" by code_simp
  then obtain r where "hold_funds demo_draw demo_hold demo_sess =
      (Inr r, snd (hold_funds demo_draw demo_hold demo_sess))"
    by (metis prod.collapse sum.collapse(2))
  from hold_funds_refines [OF this, of 4000] show ?thesis
    using demo_db_ok demo_in_range by (simp add: demo_sess_def demo_hold_def db_ok_def)
qed

text \<open>Releasing a hold settles an active hold of that id against the wallet it is booked on: the
  ledger moves exactly the hold's cents from held back to available, and the hold is released.\<close>

theorem release_funds_refines:
  assumes "release_funds dr req s = (Inr r, s')" and "schema_ok (db s)"
  shows "\<exists>w h. h \<in> set (holds (db s)) \<and> h_id h = rr_hold req \<and> h_status h = HoldActive \<and>
    w \<in> set (wallets (db s)) \<and> w_id w = h_wallet h \<and> h\<lparr>h_status := HoldReleased\<rparr> \<in> set (holds (db s')) \<and>
    led_release (w_user w) (h_amount h) (ledger_of (db s)) = Some (ledger_of (db s'))"
  using assms(1) unfolding release_funds_def
  by (rule idempotent_okE) (metis assms(2) release_tx_refines)

theorem release_funds_refines_witness:
  "\<exists>w h. h \<in> set (holds demo_db) \<and> h_id h = ''h1'' \<and> w \<in> set (wallets demo_db) \<and>
    led_release (w_user w) (h_amount h) (ledger_of demo_db) =
      Some (ledger_of (db (snd (release_funds demo_draw \<lparr>rr_hold = ''h1'', rr_key = ''k2''\<rparr> demo_sess))))"
proof -
  have "\<not> isl (fst (release_funds demo_draw \<lparr>rr_hold = ''h1'', rr_key = ''k2''\<rparr> demo_sess))" by code_simp
  then obtain r where "release_funds demo_draw \<lparr>rr_hold = ''h1'', rr_key = ''k2''\<rparr> demo_sess =
      (Inr r, snd (release_funds demo_draw \<lparr>rr_hold = ''h1'', rr_key = ''k2''\<rparr> demo_sess))"
    by (metis prod.collapse sum.collapse(2))
  from release_funds_refines [OF this] show ?thesis
    using demo_db_ok by (auto simp: demo_sess_def db_ok_def)
qed

text \<open>Charging a hold settles an active hold of that id against the wallet it is booked on: exactly
  the hold's cents leave the held balance, available is untouched, and the hold is charged.\<close>

theorem charge_funds_refines:
  assumes "charge_funds dr req s = (Inr r, s')" and "schema_ok (db s)"
  shows "\<exists>w h. h \<in> set (holds (db s)) \<and> h_id h = rr_hold req \<and> h_status h = HoldActive \<and>
    w \<in> set (wallets (db s)) \<and> w_id w = h_wallet h \<and> h\<lparr>h_status := HoldCharged\<rparr> \<in> set (holds (db s')) \<and>
    led_charge (w_user w) (h_amount h) (ledger_of (db s)) = Some (ledger_of (db s'))"
  using assms(1) unfolding charge_funds_def
  by (rule idempotent_okE) (metis assms(2) charge_tx_refines)

theorem charge_funds_refines_witness:
  "\<exists>w h. h \<in> set (holds demo_db) \<and> h_id h = ''h1'' \<and> w \<in> set (wallets demo_db) \<and>
    led_charge (w_user w) (h_amount h) (ledger_of demo_db) =
      Some (ledger_of (db (snd (charge_funds demo_draw \<lparr>rr_hold = ''h1'', rr_key = ''k2''\<rparr> demo_sess))))"
proof -
  have "\<not> isl (fst (charge_funds demo_draw \<lparr>rr_hold = ''h1'', rr_key = ''k2''\<rparr> demo_sess))" by code_simp
  then obtain r where "charge_funds demo_draw \<lparr>rr_hold = ''h1'', rr_key = ''k2''\<rparr> demo_sess =
      (Inr r, snd (charge_funds demo_draw \<lparr>rr_hold = ''h1'', rr_key = ''k2''\<rparr> demo_sess))"
    by (metis prod.collapse sum.collapse(2))
  from charge_funds_refines [OF this] show ?thesis
    using demo_db_ok by (auto simp: demo_sess_def db_ok_def)
qed

text \<open>C4: idempotency. Once an operation has succeeded under a key, then after any further requests a
  request of any kind with the same key is refused as a duplicate and changes nothing, as long as
  its check reaches the database.\<close>

theorem replay_refused:
  assumes "wallet_step (dr, c) s = (Inr r, s1)" and "s2 = serve wallet_step cs s1"
    and "\<not> next_fault s2" and "cmd_key c' = cmd_key c"
  shows "\<exists>s3. wallet_step (dr', c') s2 = (Inl ErrDuplicateOperation, s3) \<and> db s3 = db s2"
proof -
  have "cmd_key c \<in> wt_key ` set (wtxns (db s1))"
    using audited_key [OF wallet_step_audited [OF assms(1)]] by simp
  then have "cmd_key c' \<in> wt_key ` set (wtxns (db s2))"
    unfolding assms(2,4) using wallet_log.serve_remembers by blast
  then have "check_idempotency_key (cmd_key c') s2 = (Inr True, tick s2)"
    using assms(3) by (simp add: check_idempotency_key_def pool_query_def)
  then show ?thesis
    by (cases c') (simp_all add: funds_defs idempotent_def)
qed

theorem replay_refused_witness:
  "\<exists>s3. wallet_step (demo_draw, CmdHold demo_hold) (snd (wallet_step (demo_draw, CmdHold demo_hold) demo_sess))
     = (Inl ErrDuplicateOperation, s3) \<and>
   db s3 = db (snd (wallet_step (demo_draw, CmdHold demo_hold) demo_sess))"
proof -
  have "\<not> isl (fst (wallet_step (demo_draw, CmdHold demo_hold) demo_sess))" by code_simp
  then obtain r where r: "wallet_step (demo_draw, CmdHold demo_hold) demo_sess =
      (Inr r, snd (wallet_step (demo_draw, CmdHold demo_hold) demo_sess))"
    by (metis prod.collapse sum.collapse(2))
  have "\<not> next_fault (snd (wallet_step (demo_draw, CmdHold demo_hold) demo_sess))" by code_simp
  with replay_refused [OF r, of _ "[]" "CmdHold demo_hold" demo_draw] show ?thesis by simp
qed

text \<open>The idempotency check is outside the transaction, and the audit insert skips a key it
  already holds. So of two requests with one key that both pass the check before either commits,
  the second commits as well: its transaction succeeds although the key is recorded, holds the
  amount a second time and writes no audit row.\<close>

theorem hold_race_double_holds:
  assumes "faults s = []" and "schema_ok (db s)"
    and "hr_key req \<in> wt_key ` set (wtxns (db s))"
    and "ledger_of (db s) (hr_user req) = Some (a, h)"
    and "hr_amount req = dec c" "0 < c" "c \<le> a" "a < 10 ^ 12" "h + c < 10 ^ 15"
    and "new_hold dr \<notin> h_id ` set (holds (db s))" "new_audit dr \<notin> wt_id ` set (wtxns (db s))"
  shows "\<exists>r s'. hold_tx dr req s = (Inr r, s') \<and> wtxns (db s') = wtxns (db s) \<and>
    ledger_of (db s') (hr_user req) = Some (a - c, h + c)"
proof -
  from assms(4) obtain w where w: "find (\<lambda>x. w_user x = hr_user req) (wallets (db s)) = Some w"
    and ah: "a = w_available w" "h = w_held w" by (auto simp: ledger_of_def)
  from hold_tx_run [OF assms(1,2) w assms(5,6) assms(7,8) [unfolded ah(1)] assms(9) [unfolded ah(2)]
      assms(10,11)]
  obtain r s' where r: "hold_tx dr req s = (Inr r, s')" by (metis prod.collapse)
  have "w_available w \<ge> 0" "in_range c"
    using schema_wallet [OF assms(2)] find_SomeD [OF w] assms(6-9) by (auto simp: in_range_def ah)
  then have "led_hold (hr_user req) c (ledger_of (db s)) = Some (ledger_of (db s'))"
    using hold_tx_refines [OF r assms(2,5)] by simp
  with assms(4,6,7) have "ledger_of (db s') = (ledger_of (db s))(hr_user req \<mapsto> (a - c, h + c))"
    by (simp add: led_hold_def)
  moreover have "wtxns (db s') = wtxns (db s)"
    using tx_audited(1) [OF r] assms(3) by (simp add: audited_def)
  ultimately show ?thesis using r by simp
qed

theorem hold_race_double_holds_witness:
  "\<exists>r s'. hold_tx (demo_draw\<lparr>new_hold := ''h3'', new_audit := ''y''\<rparr>) demo_hold
       (snd (hold_tx demo_draw demo_hold demo_sess)) = (Inr r, s') \<and>
     wtxns (db s') = wtxns (db (snd (hold_tx demo_draw demo_hold demo_sess))) \<and>
     ledger_of (db s') ''alice'' = Some (2000, 10500)"
proof -
  let ?s = "snd (hold_tx demo_draw demo_hold demo_sess)"
  have "\<not> isl (fst (hold_tx demo_draw demo_hold demo_sess))" by code_simp
  then obtain r where r: "hold_tx demo_draw demo_hold demo_sess = (Inr r, ?s)"
    by (metis prod.collapse sum.collapse(2))
  have ok: "schema_ok (db ?s)"
    by (rule db_ok_schema [OF hold_tx_keeps [OF r]])
      (simp_all add: demo_sess_def demo_db_ok demo_hold_def whole_cents_def demo_in_range)
  have f: "faults ?s = []" by code_simp
  have k: "hr_key demo_hold \<in> wt_key ` set (wtxns (db ?s))" by code_simp
  have l: "ledger_of (db ?s) (hr_user demo_hold) = Some (6000, 6500)" by code_simp
  have i: "''h3'' \<notin> h_id ` set (holds (db ?s))" "''y'' \<notin> wt_id ` set (wtxns (db ?s))" by code_simp+
  from hold_race_double_holds [OF f ok k l, of 4000 "demo_draw\<lparr>new_hold := ''h3'', new_audit := ''y''\<rparr>"] i
  show ?thesis by (simp add: demo_hold_def)
qed

text \<open>Progress. With no fault, a fresh key and fresh UUIDs, a hold of c cents by a user with at
  least c cents available succeeds, and the result carries the balances before and after.\<close>

theorem hold_funds_succeeds:
  assumes "faults s = []" and "schema_ok (db s)"
    and "hr_key req \<notin> wt_key ` set (wtxns (db s))"
    and "ledger_of (db s) (hr_user req) = Some (a, h)"
    and "hr_amount req = dec c" "0 < c" "c \<le> a" "a < 10 ^ 12" "h + c < 10 ^ 15"
    and "new_hold dr \<notin> h_id ` set (holds (db s))" "new_audit dr \<notin> wt_id ` set (wtxns (db s))"
  shows "fst (hold_funds dr req s) = Inr \<lparr>res_transaction = new_transaction dr,
    res_hold = Some (new_hold dr), res_amount = None, res_before = dec a, res_after = fsub (dec a) (dec c)\<rparr>"
proof -
  from assms(4) obtain w where w: "find (\<lambda>x. w_user x = hr_user req) (wallets (db s)) = Some w"
    and ah: "a = w_available w" "h = w_held w" by (auto simp: ledger_of_def)
  have "hold_funds dr req s = hold_tx dr req s"
    using assms(1,3) by (simp add: hold_funds_def idempotent_def check_idempotency_key_def quiet_defs)
  with hold_tx_run [OF assms(1,2) w assms(5,6) assms(7,8) [unfolded ah(1)] assms(9) [unfolded ah(2)]
      assms(10,11)] show ?thesis by (simp add: ah)
qed

theorem hold_funds_succeeds_witness:
  "fst (hold_funds demo_draw demo_hold demo_sess) = Inr \<lparr>res_transaction = ''t'',
    res_hold = Some ''h2'', res_amount = None, res_before = dec 10000,
    res_after = fsub (dec 10000) (dec 4000)\<rparr>"
proof -
  have l: "ledger_of (db demo_sess) (hr_user demo_hold) = Some (10000, 2500)" by code_simp
  have k: "hr_key demo_hold \<notin> wt_key ` set (wtxns (db demo_sess))" by code_simp
  from hold_funds_succeeds [OF _ _ k l, of 4000 demo_draw] show ?thesis
    using demo_db_ok by (simp add: demo_sess_def demo_hold_def demo_draw_def demo_db_def db_ok_def)
qed

end
