(* ===== verification/Saga.thy ===== *)
theory Saga
  imports Prelude
begin

text \<open>
  The saga orchestrator of the payment service
  (\<^verbatim>\<open>services/payment-service/internal/saga/saga.go\<close>, \<^verbatim>\<open>orchestrator.go\<close>, \<^verbatim>\<open>store.go\<close>).
  A step acts on an arbitrary world \<open>'w\<close> (the settlement saga instantiates it with a database
  session). How a step's run ends, in time with an error or not, by the deadline of its context
  or by cancellation, is part of what its \<open>st_execute\<close> returns; the world it returns holds
  whatever the step had done by then.

  The store keeps the rows of \<^verbatim>\<open>sagas\<close> and \<^verbatim>\<open>saga_steps\<close>; each of its calls may fail
  (\<open>store_faults\<close>). The clock is read once per run. The data map is closed over by the steps;
  the text of an error message is abstracted to which message it is. A step that has timed out may
  still be running in its goroutine: what it does after the orchestrator stopped waiting is not
  modelled.

  \<open>saga_spec\<close> is the contract without the store: run the steps in order; at the first failure
  undo the completed ones in reverse order. \<open>execute_refines\<close> shows that the orchestrator
  implements it whatever the store does once the records are created.
\<close>

datatype saga_state = StateRunning | StateCompleted | StateCompensating | StateFailed
datatype step_status = StepPending | StepCompleted | StepFailed | StepCompensated

datatype step_err = StepError string | TimedOut string duration | Cancelled

datatype outcome = Returned "string option" | DeadlineExceeded | ContextCancelled

record 'w saga_step =
  st_name :: string
  st_execute :: "'w \<Rightarrow> outcome \<times> 'w"
  st_compensate :: "('w \<Rightarrow> string option \<times> 'w) option"
  st_timeout :: duration

record saga_row =
  sg_id :: uuid
  sg_type :: string
  sg_ref :: uuid
  sg_state :: saga_state
  sg_current :: int
  sg_started :: time
  sg_error :: string
  sg_completed :: "time option"

record step_row =
  sr_id :: uuid
  sr_saga :: uuid
  sr_index :: nat
  sr_name :: string
  sr_status :: step_status
  sr_executed :: "time option"
  sr_failed :: bool

record 'w ostate =
  world :: 'w
  saga_rows :: "saga_row list"
  step_rows :: "step_row list"
  store_faults :: "bool list"

definition default_step_timeout :: duration where "default_step_timeout = 30 * second"
definition compensation_deadline :: duration where "compensation_deadline = 60 * second"

subsection \<open>The store\<close>

definition store_exec :: "('w ostate \<Rightarrow> 'w ostate option) \<Rightarrow> 'w ostate \<Rightarrow> bool \<times> 'w ostate" where
  "store_exec f s =
     (let s' = s\<lparr>store_faults := tl (store_faults s)\<rparr> in
      if store_faults s \<noteq> [] \<and> hd (store_faults s) then (False, s')
      else (case f s' of None \<Rightarrow> (False, s') | Some s'' \<Rightarrow> (True, s'')))"

definition create_saga :: "saga_row \<Rightarrow> 'w ostate \<Rightarrow> bool \<times> 'w ostate" where
  "create_saga r = store_exec (\<lambda>s.
     if sg_id r \<in> sg_id ` set (saga_rows s) then None
     else Some (s\<lparr>saga_rows := saga_rows s @ [r]\<rparr>))"

definition update_saga_state :: "uuid \<Rightarrow> saga_state \<Rightarrow> int \<Rightarrow> string \<Rightarrow> time option \<Rightarrow>
    'w ostate \<Rightarrow> bool \<times> 'w ostate" where
  "update_saga_state sid st cur msg done_at = store_exec (\<lambda>s.
     Some (s\<lparr>saga_rows := update_where (\<lambda>r. sg_id r = sid)
       (\<lambda>r. r\<lparr>sg_state := st, sg_current := cur, sg_error := msg, sg_completed := done_at\<rparr>) (saga_rows s)\<rparr>))"

definition create_step_record :: "step_row \<Rightarrow> 'w ostate \<Rightarrow> bool \<times> 'w ostate" where
  "create_step_record r = store_exec (\<lambda>s.
     if sr_id r \<in> sr_id ` set (step_rows s) \<or> sr_saga r \<notin> sg_id ` set (saga_rows s) then None
     else Some (s\<lparr>step_rows := step_rows s @ [r]\<rparr>))"

definition update_step_status :: "uuid \<Rightarrow> step_status \<Rightarrow> time \<Rightarrow> bool \<Rightarrow> 'w ostate \<Rightarrow> bool \<times> 'w ostate" where
  "update_step_status rid st t failed = store_exec (\<lambda>s.
     Some (s\<lparr>step_rows := update_where (\<lambda>r. sr_id r = rid)
       (\<lambda>r. r\<lparr>sr_status := st, sr_executed := Some t, sr_failed := failed\<rparr>) (step_rows s)\<rparr>))"

lemmas store_defs = create_saga_def update_saga_state_def create_step_record_def update_step_status_def

lemma world_store_exec:
  "(\<And>s s'. f s = Some s' \<Longrightarrow> world s' = world s) \<Longrightarrow> world (snd (store_exec f s)) = world s"
  by (auto simp: store_exec_def Let_def split: option.splits)

lemma world_store [simp]:
  "world (snd (create_saga r s)) = world s"
  "world (snd (update_saga_state sid st cur msg done_at s)) = world s"
  "world (snd (create_step_record q s)) = world s"
  "world (snd (update_step_status rid ss t b s)) = world s"
  unfolding store_defs by (rule world_store_exec, auto split: if_splits)+

subsection \<open>Running and compensating\<close>

definition execute_step_with_timeout :: "'w saga_step \<Rightarrow> 'w ostate \<Rightarrow> step_err option \<times> 'w ostate" where
  "execute_step_with_timeout st s =
     (let timeout = (if st_timeout st = 0 then default_step_timeout else st_timeout st);
          (out, w') = st_execute st (world s);
          s' = s\<lparr>world := w'\<rparr> in
      (case out of
         Returned None \<Rightarrow> (None, s')
       | Returned (Some e) \<Rightarrow> (Some (StepError e), s')
       | DeadlineExceeded \<Rightarrow> (Some (TimedOut (st_name st) timeout), s')
       | ContextCancelled \<Rightarrow> (Some Cancelled, s')))"

fun create_records :: "uuid \<Rightarrow> (nat \<Rightarrow> uuid) \<Rightarrow> nat \<Rightarrow> 'w saga_step list \<Rightarrow> 'w ostate \<Rightarrow>
    nat option \<times> 'w ostate" where
  "create_records sid rid i [] s = (None, s)"
| "create_records sid rid i (st # sts) s =
     (case create_step_record \<lparr>sr_id = rid i, sr_saga = sid, sr_index = i, sr_name = st_name st,
         sr_status = StepPending, sr_executed = None, sr_failed = False\<rparr> s of
        (False, s') \<Rightarrow> (Some i, s')
      | (True, s') \<Rightarrow> create_records sid rid (Suc i) sts s')"

fun run_steps :: "uuid \<Rightarrow> (nat \<Rightarrow> uuid) \<Rightarrow> time \<Rightarrow> nat \<Rightarrow> 'w saga_step list \<Rightarrow> 'w ostate \<Rightarrow>
    (nat \<times> step_err) option \<times> 'w ostate" where
  "run_steps sid rid t i [] s = (None, s)"
| "run_steps sid rid t i (st # sts) s =
     (let s1 = snd (update_saga_state sid StateRunning (int i) '''' None s);
          (r, s2) = execute_step_with_timeout st s1 in
      (case r of
         Some e \<Rightarrow> (Some (i, e), snd (update_step_status (rid i) StepFailed t True s2))
       | None \<Rightarrow> run_steps sid rid t (Suc i) sts (snd (update_step_status (rid i) StepCompleted t False s2))))"

text \<open>
  The compensation loop, from step \<open>n - 1\<close> down to 0: a missing compensation is skipped, a failing
  one is recorded and the loop goes on; the last error seen is the result.
\<close>

fun compensate_loop :: "(nat \<Rightarrow> uuid) \<Rightarrow> time \<Rightarrow> 'w saga_step list \<Rightarrow> nat \<Rightarrow> string option \<Rightarrow>
    'w ostate \<Rightarrow> string option \<times> 'w ostate" where
  "compensate_loop rid t steps 0 last_err s = (last_err, s)"
| "compensate_loop rid t steps (Suc i) last_err s =
     (case st_compensate (steps ! i) of
        None \<Rightarrow> compensate_loop rid t steps i last_err s
      | Some undo \<Rightarrow>
          (case undo (world s) of
             (Some e, w') \<Rightarrow> compensate_loop rid t steps i (Some e)
                (snd (update_step_status (rid i) StepFailed t True (s\<lparr>world := w'\<rparr>)))
           | (None, w') \<Rightarrow> compensate_loop rid t steps i last_err
                (snd (update_step_status (rid i) StepCompensated t False (s\<lparr>world := w'\<rparr>)))))"

definition compensate :: "uuid \<Rightarrow> (nat \<Rightarrow> uuid) \<Rightarrow> time \<Rightarrow> 'w saga_step list \<Rightarrow> nat \<Rightarrow> 'w ostate \<Rightarrow>
    string option \<times> 'w ostate" where
  "compensate sid rid t steps failed s =
     compensate_loop rid t steps failed None
       (snd (update_saga_state sid StateCompensating (int failed) '''' None s))"

datatype saga_err = SagaCreateFailed | CreateStepRecordFailed nat
  | SagaFailed nat step_err | CompensationFailed nat string

definition execute :: "string \<Rightarrow> uuid \<Rightarrow> uuid \<Rightarrow> (nat \<Rightarrow> uuid) \<Rightarrow> time \<Rightarrow> 'w saga_step list \<Rightarrow>
    'w ostate \<Rightarrow> saga_err option \<times> 'w ostate" where
  "execute ty ref sid rid t steps s =
     (case create_saga \<lparr>sg_id = sid, sg_type = ty, sg_ref = ref, sg_state = StateRunning,
         sg_current = 0, sg_started = t, sg_error = '''', sg_completed = None\<rparr> s of
        (False, s1) \<Rightarrow> (Some SagaCreateFailed, s1)
      | (True, s1) \<Rightarrow>
        (case create_records sid rid 0 steps s1 of
           (Some i, s2) \<Rightarrow> (Some (CreateStepRecordFailed i), s2)
         | (None, s2) \<Rightarrow>
           (case run_steps sid rid t 0 steps s2 of
              (None, s3) \<Rightarrow>
                (None, snd (update_saga_state sid StateCompleted (int (length steps) - 1) '''' (Some t) s3))
            | (Some (k, e), s3) \<Rightarrow>
              (case compensate sid rid t steps k s3 of
                 (Some ce, s4) \<Rightarrow> (Some (CompensationFailed k ce),
                    snd (update_saga_state sid StateFailed (int k) ''compensation failed'' (Some t) s4))
               | (None, s4) \<Rightarrow> (Some (SagaFailed k e),
                    snd (update_saga_state sid StateFailed (int k) ''step failed'' (Some t) s4))))))"

subsection \<open>The contract\<close>

text \<open>Forward: run the steps until one fails. Backward: undo a list of completed steps, latest first.\<close>

fun forward :: "nat \<Rightarrow> 'w saga_step list \<Rightarrow> 'w \<Rightarrow> nat option \<times> 'w" where
  "forward i [] w = (None, w)"
| "forward i (st # sts) w =
     (case st_execute st w of
        (Returned None, w') \<Rightarrow> forward (Suc i) sts w'
      | (_, w') \<Rightarrow> (Some i, w'))"

fun backward :: "'w saga_step list \<Rightarrow> 'w \<Rightarrow> 'w" where
  "backward [] w = w"
| "backward (st # sts) w =
     backward sts (case st_compensate st of None \<Rightarrow> w | Some undo \<Rightarrow> snd (undo w))"

definition saga_spec :: "'w saga_step list \<Rightarrow> 'w \<Rightarrow> nat option \<times> 'w" where
  "saga_spec steps w =
     (case forward 0 steps w of
        (None, w') \<Rightarrow> (None, w')
      | (Some k, w') \<Rightarrow> (Some k, backward (rev (take k steps)) w'))"

lemma world_create_records [simp]: "world (snd (create_records sid rid i sts s)) = world s"
proof (induction sid rid i sts s rule: create_records.induct)
  case (2 sid rid i st sts s)
  let ?r = "\<lparr>sr_id = rid i, sr_saga = sid, sr_index = i, sr_name = st_name st,
    sr_status = StepPending, sr_executed = None, sr_failed = False\<rparr>"
  obtain b s' where c: "create_step_record ?r s = (b, s')" by fastforce
  then have "world s' = world s" using world_store(3) [of ?r s] by simp
  with 2 c show ?case by (cases b) simp_all
qed simp

lemma run_steps_forward:
  "map_option fst (fst (run_steps sid rid t i sts s)) = fst (forward i sts (world s)) \<and>
   world (snd (run_steps sid rid t i sts s)) = snd (forward i sts (world s))"
proof (induction sts arbitrary: i s)
  case (Cons st sts)
  obtain out w' where x: "st_execute st (world s) = (out, w')" by fastforce
  show ?case
    by (cases out) (use x Cons.IH in
      \<open>auto simp: execute_step_with_timeout_def Let_def split: option.splits\<close>)
qed simp

lemma compensate_loop_backward:
  "k \<le> length steps \<Longrightarrow>
   world (snd (compensate_loop rid t steps k le s)) = backward (rev (take k steps)) (world s)"
proof (induction k arbitrary: le s)
  case (Suc k)
  then have "rev (take (Suc k) steps) = steps ! k # rev (take k steps)"
    by (simp add: take_Suc_conv_app_nth)
  with Suc show ?case by (auto split: option.splits prod.splits)
qed simp

lemma forward_index: "forward i sts w = (Some k, w') \<Longrightarrow> i \<le> k \<and> k < i + length sts"
  by (induction i sts w rule: forward.induct)
    (fastforce split: prod.splits outcome.splits option.splits)+

definition created :: "saga_err option \<Rightarrow> bool" where
  "created r \<longleftrightarrow> r \<noteq> Some SagaCreateFailed \<and> (\<forall>i. r \<noteq> Some (CreateStepRecordFailed i))"

definition failed_at :: "saga_err option \<Rightarrow> nat option" where
  "failed_at r = (case r of Some (SagaFailed k _) \<Rightarrow> Some k | Some (CompensationFailed k _) \<Rightarrow> Some k | _ \<Rightarrow> None)"

lemma execute_refines:
  assumes "execute ty ref sid rid t steps s = (r, s')" and "created r"
  shows "saga_spec steps (world s) = (failed_at r, world s')"
proof -
  let ?r = "\<lparr>sg_id = sid, sg_type = ty, sg_ref = ref, sg_state = StateRunning,
    sg_current = 0, sg_started = t, sg_error = '''', sg_completed = None\<rparr>"
  obtain b s1 where c: "create_saga ?r s = (b, s1)" by fastforce
  obtain o2 s2 where d: "create_records sid rid 0 steps s1 = (o2, s2)" by fastforce
  obtain o3 s3 where e: "run_steps sid rid t 0 steps s2 = (o3, s3)" by fastforce
  have w: "world s2 = world s"
    using world_store(1) [of ?r s] world_create_records [of sid rid 0 steps s1] c d by simp
  have f: "forward 0 steps (world s) = (map_option fst o3, world s3)"
    using run_steps_forward [of sid rid t 0 steps s2] e w by (simp add: prod_eq_iff)
  have b: "b" "o2 = None"
    using assms c d by (auto simp: execute_def created_def split: bool.splits option.splits)
  show ?thesis
  proof (cases o3)
    case None
    with assms(1) b c d e f show ?thesis
      by (auto simp: execute_def saga_spec_def failed_at_def)
  next
    case (Some ke)
    obtain k er where ke: "ke = (k, er)" by fastforce
    with f Some have "k \<le> length steps" using forward_index by fastforce
    obtain ce s4 where g: "compensate sid rid t steps k s3 = (ce, s4)" by fastforce
    then have "world s4 = backward (rev (take k steps)) (world s3)"
      using compensate_loop_backward [OF \<open>k \<le> length steps\<close>, of rid t None
          "snd (update_saga_state sid StateCompensating (int k) '''' None s3)"]
      by (simp add: compensate_def)
    with assms(1) b c d e f g Some ke show ?thesis
      by (cases ce) (auto simp: execute_def saga_spec_def failed_at_def)
  qed
qed

lemma execute_not_created:
  assumes "execute ty ref sid rid t steps s = (r, s')" and "\<not> created r"
  shows "world s' = world s"
proof -
  let ?r = "\<lparr>sg_id = sid, sg_type = ty, sg_ref = ref, sg_state = StateRunning,
    sg_current = 0, sg_started = t, sg_error = '''', sg_completed = None\<rparr>"
  obtain b s1 where c: "create_saga ?r s = (b, s1)" by fastforce
  obtain o2 s2 where d: "create_records sid rid 0 steps s1 = (o2, s2)" by fastforce
  have "world s1 = world s" "world s2 = world s"
    using world_store(1) [of ?r s] world_create_records [of sid rid 0 steps s1] c d by simp_all
  with assms c d show ?thesis
    by (auto simp: execute_def created_def split: bool.splits option.splits prod.splits)
qed

end
