(* ===== verification/Settlement.thy ===== *)
theory Settlement
  imports WalletRepo Saga
begin

text \<open>
  The auction settlement saga (\<^verbatim>\<open>services/payment-service/internal/saga/settlement.go\<close>): charge the
  winner, credit the seller, release the losers' holds, publish the events through the outbox,
  and the compensations of the first three. Each step is one transaction, except the release of
  the loser holds and its compensation, which run one transaction per hold.

  The steps act on a session of \<^verbatim>\<open>PaymentDb\<close>; \<open>settlement_saga\<close> packs them for the orchestrator
  of \<^verbatim>\<open>Saga\<close>. Error texts are kept as the constructor of \<open>settle_err\<close>.
\<close>

subsection \<open>The data of a settlement\<close>

record settlement_data =
  sd_auction :: string
  sd_winner :: string
  sd_seller :: string
  sd_amount :: float64
  sd_winner_hold :: string
  sd_loser_holds :: "string list"

text \<open>
  The dynamic values of the generic data map. A \<^verbatim>\<open>json.Number\<close> carries the result of its own
  \<^verbatim>\<open>Float64()\<close> (\<open>None\<close>: it does not parse).
\<close>

datatype dyn = DString string | DFloat float64 | DNumber "float64 option" | DStrings "string list"
  | DList "dyn list" | DOther

type_synonym data_map = "string \<Rightarrow> dyn option"

datatype settle_err = MissingField string | InvalidAmount | BeginTx db_error | LockWallet db_error
  | InsufficientHeld | UpdateBalance db_error | UpdateHold db_error | AuditLog db_error
  | GetHold db_error | InsertEvent db_error | CommitTx db_error | ReleaseHoldErr string settle_err

definition to_data_map :: "settlement_data \<Rightarrow> data_map" where
  "to_data_map sd =
     [''auction_id'' \<mapsto> DString (sd_auction sd),
      ''winner_id'' \<mapsto> DString (sd_winner sd),
      ''seller_id'' \<mapsto> DString (sd_seller sd),
      ''winning_amount'' \<mapsto> DFloat (sd_amount sd),
      ''winner_hold_id'' \<mapsto> DString (sd_winner_hold sd),
      ''loser_hold_ids'' \<mapsto> DStrings (sd_loser_holds sd)]"

definition get_string :: "data_map \<Rightarrow> string \<Rightarrow> settle_err + string" where
  "get_string m k = (case m k of Some (DString v) \<Rightarrow> Inr v | _ \<Rightarrow> Inl (MissingField k))"

definition get_amount :: "data_map \<Rightarrow> settle_err + float64" where
  "get_amount m = (case m ''winning_amount'' of
       Some (DFloat v) \<Rightarrow> Inr v
     | Some (DNumber (Some v)) \<Rightarrow> Inr v
     | Some (DNumber None) \<Rightarrow> Inl InvalidAmount
     | _ \<Rightarrow> Inl (MissingField ''winning_amount''))"

definition get_strings :: "data_map \<Rightarrow> string \<Rightarrow> string list" where
  "get_strings m k = (case m k of
       Some (DStrings ids) \<Rightarrow> ids
     | Some (DList vs) \<Rightarrow> List.map_filter (\<lambda>v. case v of DString x \<Rightarrow> Some x | _ \<Rightarrow> None) vs
     | _ \<Rightarrow> [])"

definition parse_settlement_data :: "data_map \<Rightarrow> settle_err + settlement_data" where
  "parse_settlement_data m =
     (case get_string m ''auction_id'' of Inl e \<Rightarrow> Inl e | Inr a \<Rightarrow>
     (case get_string m ''winner_id'' of Inl e \<Rightarrow> Inl e | Inr w \<Rightarrow>
     (case get_string m ''seller_id'' of Inl e \<Rightarrow> Inl e | Inr se \<Rightarrow>
     (case get_amount m of Inl e \<Rightarrow> Inl e | Inr am \<Rightarrow>
     (case get_string m ''winner_hold_id'' of Inl e \<Rightarrow> Inl e | Inr h \<Rightarrow>
      Inr \<lparr>sd_auction = a, sd_winner = w, sd_seller = se, sd_amount = am, sd_winner_hold = h,
           sd_loser_holds = get_strings m ''loser_hold_ids''\<rparr>)))))"

lemma parse_to_data_map: "parse_settlement_data (to_data_map sd) = Inr sd"
  by (simp add: parse_settlement_data_def to_data_map_def get_string_def get_amount_def get_strings_def)

subsection \<open>Statements\<close>

definition sql_update_held :: "uuid \<Rightarrow> float64 \<Rightarrow> time \<Rightarrow> update" where
  "sql_update_held wid x t d =
     (if wid \<notin> w_id ` set (wallets d) then Inr (d, 0)
      else (case num_cast 15 x of
          None \<Rightarrow> Inl NumericOverflow
        | Some c \<Rightarrow> if c < 0 then Inl CheckViolation
            else Inr (d\<lparr>wallets := update_where (\<lambda>r. w_id r = wid)
                         (\<lambda>r. r\<lparr>w_held := c, w_updated := t\<rparr>) (wallets d)\<rparr>, 1)))"

definition sql_update_available :: "uuid \<Rightarrow> float64 \<Rightarrow> time \<Rightarrow> update" where
  "sql_update_available wid x t d =
     (if wid \<notin> w_id ` set (wallets d) then Inr (d, 0)
      else (case num_cast 15 x of
          None \<Rightarrow> Inl NumericOverflow
        | Some c \<Rightarrow> if c < 0 then Inl CheckViolation
            else Inr (d\<lparr>wallets := update_where (\<lambda>r. w_id r = wid)
                         (\<lambda>r. r\<lparr>w_available := c, w_updated := t\<rparr>) (wallets d)\<rparr>, 1)))"

definition sql_insert_outbox_once :: "outbox_event \<Rightarrow> update" where
  "sql_insert_outbox_once ev d =
     (if o_key ev \<noteq> None \<and> o_key ev \<in> o_key ` set (outbox d) then Inr (d, 0)
      else if o_id ev \<in> o_id ` set (outbox d) then Inl UniqueViolation
      else Inr (d\<lparr>outbox := outbox d @ [ev]\<rparr>, 1))"

definition select_wallet_by_user :: "uuid \<Rightarrow> (db_error, float64 wallet) goop" where
  "select_wallet_by_user u =
     query_row (\<lambda>d. map_option scan_wallet (find (\<lambda>r. w_user r = u) (wallets d)))"

definition select_wallet :: "uuid \<Rightarrow> (db_error, float64 wallet) goop" where
  "select_wallet wid =
     query_row (\<lambda>d. map_option scan_wallet (find (\<lambda>r. w_id r = wid) (wallets d)))"

definition select_hold :: "uuid \<Rightarrow> (db_error, float64 bid_hold) goop" where
  "select_hold hid =
     query_row (\<lambda>d. map_option scan_hold (find (\<lambda>r. h_id r = hid) (holds d)))"

subsection \<open>The steps\<close>

text \<open>
  UUIDs, the server's clock and the formatted time of the settled event, drawn per step (and per
  hold in the release step).
\<close>

record settle_draw =
  sx_charge :: "uuid \<times> uuid"
  sx_credit :: "uuid \<times> uuid"
  sx_release :: "uuid \<Rightarrow> uuid \<times> uuid"
  sx_events :: "uuid \<times> uuid"
  sx_stamp :: string
  sx_now :: time

definition saga_key :: "string \<Rightarrow> string \<Rightarrow> string \<Rightarrow> string" where
  "saga_key op a b = ''saga:'' @ op @ '':'' @ a @ '':'' @ b"

definition saga_audit :: "uuid \<times> uuid \<Rightarrow> uuid \<Rightarrow> string \<Rightarrow> op_type \<Rightarrow> float64 \<Rightarrow> float64 \<Rightarrow> float64 \<Rightarrow>
    uuid \<Rightarrow> time \<Rightarrow> float64 wallet_transaction" where
  "saga_audit ids wid key op amount prior after auction t =
     \<lparr>wt_id = fst ids, wt_wallet = wid, wt_transaction = snd ids, wt_key = key, wt_op = op,
      wt_amount = amount, wt_before = prior, wt_after = after, wt_ref_type = Some RefAuction,
      wt_ref_id = Some auction, wt_status = ''completed'', wt_created = t\<rparr>"

definition charge_winner :: "settle_draw \<Rightarrow> settlement_data \<Rightarrow> (settle_err, unit) goop" where
  "charge_winner sx sd =
     with_tx BeginTx CommitTx
       (andthen (on_err LockWallet (select_wallet_by_user (sd_winner sd))) (\<lambda>w.
        let new_held = fsub (w_held w) (sd_amount sd) in
        if new_held < 0 then fail InsufficientHeld
        else andthen (on_err UpdateBalance (exec (sql_update_held (w_id w) new_held (sx_now sx)))) (\<lambda>_.
             andthen (on_err UpdateHold (exec (sql_update_hold_status (sd_winner_hold sd) HoldCharged))) (\<lambda>_.
             andthen (on_err AuditLog (exec (sql_insert_wtxn (saga_audit (sx_charge sx) (w_id w)
                (saga_key ''charge'' (sd_auction sd) (sd_winner sd)) OpCharge (sd_amount sd)
                (w_held w) new_held (sd_auction sd) (sx_now sx))))) (\<lambda>_.
             ret ())))))"

definition reverse_charge :: "settle_draw \<Rightarrow> settlement_data \<Rightarrow> (settle_err, unit) goop" where
  "reverse_charge sx sd =
     with_tx BeginTx CommitTx
       (andthen (on_err LockWallet (select_wallet_by_user (sd_winner sd))) (\<lambda>w.
        let new_held = fadd (w_held w) (sd_amount sd) in
        andthen (on_err UpdateBalance (exec (sql_update_held (w_id w) new_held (sx_now sx)))) (\<lambda>_.
        andthen (on_err UpdateHold (exec (sql_update_hold_status (sd_winner_hold sd) HoldActive))) (\<lambda>_.
        ret ()))))"

definition credit_seller :: "settle_draw \<Rightarrow> settlement_data \<Rightarrow> (settle_err, unit) goop" where
  "credit_seller sx sd =
     with_tx BeginTx CommitTx
       (andthen (on_err LockWallet (select_wallet_by_user (sd_seller sd))) (\<lambda>w.
        let new_available = fadd (w_available w) (sd_amount sd) in
        andthen (on_err UpdateBalance (exec (sql_update_available (w_id w) new_available (sx_now sx)))) (\<lambda>_.
        andthen (on_err AuditLog (exec (sql_insert_wtxn (saga_audit (sx_credit sx) (w_id w)
           (saga_key ''credit'' (sd_auction sd) (sd_seller sd)) OpCredit (sd_amount sd)
           (w_available w) new_available (sd_auction sd) (sx_now sx))))) (\<lambda>_.
        ret ()))))"

definition reverse_credit :: "settle_draw \<Rightarrow> settlement_data \<Rightarrow> (settle_err, unit) goop" where
  "reverse_credit sx sd =
     with_tx BeginTx CommitTx
       (andthen (on_err LockWallet (select_wallet_by_user (sd_seller sd))) (\<lambda>w.
        let x = fsub (w_available w) (sd_amount sd);
            new_available = (if x < 0 then 0 else x) in
        andthen (on_err UpdateBalance (exec (sql_update_available (w_id w) new_available (sx_now sx)))) (\<lambda>_.
        ret ())))"

text \<open>
  A transaction whose body may return early without an error: the deferred rollback then undoes
  it, and no commit is sent.
\<close>

datatype 'a way_out = Commit 'a | Leave 'a

definition with_tx_or_leave :: "(db_error \<Rightarrow> 'e) \<Rightarrow> (db_error \<Rightarrow> 'e) \<Rightarrow> ('e, 'a way_out) goop \<Rightarrow> ('e, 'a) goop" where
  "with_tx_or_leave begin_err commit_err body s =
     (if next_fault s then (Inl (begin_err ConnError), tick s)
      else (case body ((tick s)\<lparr>aborted := False\<rparr>) of
          (Inl e, s2) \<Rightarrow> (Inl e, s2\<lparr>db := db s, aborted := aborted s\<rparr>)
        | (Inr (Leave x), s2) \<Rightarrow> (Inr x, s2\<lparr>db := db s, aborted := aborted s\<rparr>)
        | (Inr (Commit x), s2) \<Rightarrow>
            (if next_fault s2 then (Inl (commit_err ConnError), (tick s2)\<lparr>db := db s, aborted := aborted s\<rparr>)
             else if aborted s2 then (Inl (commit_err TxAborted), (tick s2)\<lparr>db := db s, aborted := aborted s\<rparr>)
             else (Inr x, (tick s2)\<lparr>aborted := aborted s\<rparr>))))"

definition release_one_hold :: "settle_draw \<Rightarrow> string \<Rightarrow> string \<Rightarrow> (settle_err, unit) goop" where
  "release_one_hold sx auction hid =
     with_tx_or_leave BeginTx CommitTx
       (andthen (on_err GetHold (select_hold hid)) (\<lambda>h.
        if h_status h \<noteq> HoldActive then ret (Leave ())
        else andthen (on_err LockWallet (select_wallet (h_wallet h))) (\<lambda>w.
          let new_available = fadd (w_available w) (h_amount h);
              new_held = fsub (w_held w) (h_amount h) in
          andthen (on_err UpdateBalance (exec (sql_update_balance (h_wallet h) new_available new_held (sx_now sx)))) (\<lambda>_.
          andthen (on_err UpdateHold (exec (sql_update_hold_status hid HoldReleased))) (\<lambda>_.
          andthen (on_err AuditLog (exec (sql_insert_wtxn (saga_audit (sx_release sx hid) (h_wallet h)
             (saga_key ''release'' auction hid) OpRelease (h_amount h) (w_held w) new_held
             auction (sx_now sx))))) (\<lambda>_.
          ret (Commit ())))))))"

fun release_holds :: "settle_draw \<Rightarrow> string \<Rightarrow> string list \<Rightarrow> (settle_err, unit) goop" where
  "release_holds sx auction [] = ret ()"
| "release_holds sx auction (hid # hids) =
     (\<lambda>s. case release_one_hold sx auction hid s of
        (Inl e, s') \<Rightarrow> (Inl (ReleaseHoldErr hid e), s')
      | (Inr _, s') \<Rightarrow> release_holds sx auction hids s')"

definition release_losers :: "settle_draw \<Rightarrow> settlement_data \<Rightarrow> (settle_err, unit) goop" where
  "release_losers sx sd = release_holds sx (sd_auction sd) (sd_loser_holds sd)"

definition re_hold_one :: "settle_draw \<Rightarrow> string \<Rightarrow> (settle_err, unit) goop" where
  "re_hold_one sx hid =
     with_tx_or_leave BeginTx CommitTx
       (andthen (on_err GetHold (select_hold hid)) (\<lambda>h.
        if h_status h \<noteq> HoldReleased then ret (Leave ())
        else andthen (on_err LockWallet (select_wallet (h_wallet h))) (\<lambda>w.
          let new_available = fsub (w_available w) (h_amount h);
              new_held = fadd (w_held w) (h_amount h) in
          andthen (on_err UpdateBalance (exec (sql_update_balance (h_wallet h) new_available new_held (sx_now sx)))) (\<lambda>_.
          andthen (on_err UpdateHold (exec (sql_update_hold_status hid HoldActive))) (\<lambda>_.
          ret (Commit ()))))))"

text \<open>The compensation of the release logs a failing hold and goes on with the next.\<close>

fun re_hold_all :: "settle_draw \<Rightarrow> string list \<Rightarrow> (settle_err, unit) goop" where
  "re_hold_all sx [] = ret ()"
| "re_hold_all sx (hid # hids) = (\<lambda>s. re_hold_all sx hids (snd (re_hold_one sx hid s)))"

definition reverse_release :: "settle_draw \<Rightarrow> settlement_data \<Rightarrow> (settle_err, unit) goop" where
  "reverse_release sx sd = re_hold_all sx (sd_loser_holds sd)"

definition settled_event :: "settle_draw \<Rightarrow> settlement_data \<Rightarrow> outbox_event" where
  "settled_event sx sd =
     \<lparr>o_id = fst (sx_events sx), o_agg_type = ''auction'', o_agg_id = sd_auction sd,
      o_event = ''auction.settled'',
      o_payload = [(''auction_id'', JStr (sd_auction sd)), (''winner_id'', JStr (sd_winner sd)),
        (''seller_id'', JStr (sd_seller sd)), (''winning_amount'', JNum (sd_amount sd)),
        (''settled_at'', JStr (sx_stamp sx))],
      o_key = Some (''saga:event:settled:'' @ sd_auction sd), o_created = sx_now sx,
      o_published = None, o_retry = 0, o_last_error = None, o_processed = False\<rparr>"

definition payment_event :: "settle_draw \<Rightarrow> settlement_data \<Rightarrow> outbox_event" where
  "payment_event sx sd =
     \<lparr>o_id = snd (sx_events sx), o_agg_type = ''payment'', o_agg_id = sd_auction sd,
      o_event = ''payment.completed'',
      o_payload = [(''auction_id'', JStr (sd_auction sd)), (''winner_id'', JStr (sd_winner sd)),
        (''seller_id'', JStr (sd_seller sd)), (''amount'', JNum (sd_amount sd))],
      o_key = Some (''saga:event:payment:'' @ sd_auction sd), o_created = sx_now sx,
      o_published = None, o_retry = 0, o_last_error = None, o_processed = False\<rparr>"

definition publish_events :: "settle_draw \<Rightarrow> settlement_data \<Rightarrow> (settle_err, unit) goop" where
  "publish_events sx sd =
     with_tx BeginTx CommitTx
       (andthen (on_err InsertEvent (exec (sql_insert_outbox_once (settled_event sx sd)))) (\<lambda>_.
        andthen (on_err InsertEvent (exec (sql_insert_outbox_once (payment_event sx sd)))) (\<lambda>_.
        ret ())))"

subsection \<open>The saga definition\<close>

text \<open>Every closure first parses the data map; a parse error touches nothing.\<close>

definition parsed :: "data_map \<Rightarrow> (settlement_data \<Rightarrow> (settle_err, unit) goop) \<Rightarrow> (settle_err, unit) goop" where
  "parsed m f s = (case parse_settlement_data m of Inl e \<Rightarrow> (Inl e, s) | Inr sd \<Rightarrow> f sd s)"

definition as_execute :: "(settle_err, unit) goop \<Rightarrow> sess \<Rightarrow> outcome \<times> sess" where
  "as_execute m s = (case m s of (Inl e, s') \<Rightarrow> (Returned (Some ''error''), s') | (Inr _, s') \<Rightarrow> (Returned None, s'))"

definition as_compensate :: "(settle_err, unit) goop \<Rightarrow> sess \<Rightarrow> string option \<times> sess" where
  "as_compensate m s = (case m s of (Inl e, s') \<Rightarrow> (Some ''error'', s') | (Inr _, s') \<Rightarrow> (None, s'))"

definition settlement_saga :: "settle_draw \<Rightarrow> data_map \<Rightarrow> sess saga_step list" where
  "settlement_saga sx m =
     [\<lparr>st_name = ''charge_winner'', st_execute = as_execute (parsed m (charge_winner sx)),
       st_compensate = Some (as_compensate (parsed m (reverse_charge sx))), st_timeout = 30 * second\<rparr>,
      \<lparr>st_name = ''credit_seller'', st_execute = as_execute (parsed m (credit_seller sx)),
       st_compensate = Some (as_compensate (parsed m (reverse_credit sx))), st_timeout = 30 * second\<rparr>,
      \<lparr>st_name = ''release_loser_holds'', st_execute = as_execute (parsed m (release_losers sx)),
       st_compensate = Some (as_compensate (parsed m (reverse_release sx))), st_timeout = 30 * second\<rparr>,
      \<lparr>st_name = ''publish_settlement_events'', st_execute = as_execute (parsed m (publish_events sx)),
       st_compensate = None, st_timeout = 30 * second\<rparr>]"

end
