(* ===== verification/SettlementSteps.thy ===== *)
theory SettlementSteps
  imports WalletSpec Settlement
begin

text \<open>
  What each step and compensation of the settlement saga of \<^verbatim>\<open>Settlement\<close> has done when it
  succeeded, whatever the faults before: first the statements it sent (\<open>..._raw\<close>), then, on tables
  that satisfy the schema, the posting in exact cents (\<open>..._posted\<close>).
\<close>

lemma hold_status_effect:
  "sql_update_hold_status hid st d = Inr (d', n) \<Longrightarrow>
   d' = d\<lparr>holds := update_where (\<lambda>r. h_id r = hid) (\<lambda>r. r\<lparr>h_status := st\<rparr>) (holds d)\<rparr>"
  using update_where_none [of "holds d" "\<lambda>r. h_id r = hid"]
  by (force simp: sql_update_hold_status_def split: if_splits)

lemma insert_wtxn_effect:
  "sql_insert_wtxn t d = Inr (d', n) \<Longrightarrow>
   \<exists>ts. d' = d\<lparr>wtxns := ts\<rparr> \<and> audited (wt_key t) (wtxns d) ts"
  by (fastforce simp: sql_insert_wtxn_def audited_def split: if_splits option.splits intro: exI [of _ "wtxns d"])

lemma update_held_effect:
  "sql_update_held wid x t d = Inr (d', n) \<Longrightarrow> wid \<in> w_id ` set (wallets d) \<Longrightarrow>
   d' = d\<lparr>wallets := update_where (\<lambda>r. w_id r = wid) (\<lambda>r. r\<lparr>w_held := cents x, w_updated := t\<rparr>) (wallets d)\<rparr>
   \<and> 0 \<le> cents x \<and> in_range (cents x)"
  by (auto simp: sql_update_held_def dest!: num_cast_SomeD split: if_splits option.splits)

lemma update_available_effect:
  "sql_update_available wid x t d = Inr (d', n) \<Longrightarrow> wid \<in> w_id ` set (wallets d) \<Longrightarrow>
   d' = d\<lparr>wallets := update_where (\<lambda>r. w_id r = wid) (\<lambda>r. r\<lparr>w_available := cents x, w_updated := t\<rparr>) (wallets d)\<rparr>
   \<and> 0 \<le> cents x \<and> in_range (cents x)"
  by (auto simp: sql_update_available_def dest!: num_cast_SomeD split: if_splits option.splits)

lemma update_balance_effect:
  "sql_update_balance wid a h t d = Inr (d', n) \<Longrightarrow> wid \<in> w_id ` set (wallets d) \<Longrightarrow>
   d' = d\<lparr>wallets := set_wallet wid (cents a) (cents h) t (wallets d)\<rparr>
   \<and> 0 \<le> cents a \<and> 0 \<le> cents h \<and> in_range (cents a) \<and> in_range (cents h)"
  by (auto simp: sql_update_balance_def set_wallet_def dest!: num_cast_SomeD split: if_splits option.splits)

lemma exec_hold_status_okE:
  assumes "exec (sql_update_hold_status hid st) s = (Inr u, s')"
  obtains "db s' = (db s)\<lparr>holds := update_where (\<lambda>r. h_id r = hid) (\<lambda>r. r\<lparr>h_status := st\<rparr>) (holds (db s))\<rparr>"
  using assms by (rule exec_okE) (use that in \<open>auto dest: hold_status_effect\<close>)

lemma exec_insert_wtxn_okE:
  assumes "exec (sql_insert_wtxn t) s = (Inr u, s')"
  obtains ts where "db s' = (db s)\<lparr>wtxns := ts\<rparr>" and "audited (wt_key t) (wtxns (db s)) ts"
  using assms by (rule exec_okE) (use that in \<open>auto dest: insert_wtxn_effect\<close>)

lemma exec_update_held_okE:
  assumes "exec (sql_update_held wid x t) s = (Inr u, s')"
  obtains d where "sql_update_held wid x t (db s) = Inr (d, u)" and "db s' = d"
  using assms by (rule exec_okE) (use that in auto)

lemma exec_update_available_okE:
  assumes "exec (sql_update_available wid x t) s = (Inr u, s')"
  obtains d where "sql_update_available wid x t (db s) = Inr (d, u)" and "db s' = d"
  using assms by (rule exec_okE) (use that in auto)

lemma exec_update_balance_okE:
  assumes "exec (sql_update_balance wid a h t) s = (Inr u, s')"
  obtains d where "sql_update_balance wid a h t (db s) = Inr (d, u)" and "db s' = d"
  using assms by (rule exec_okE) (use that in auto)

lemma select_wallet_by_user_okE:
  assumes "select_wallet_by_user u s = (Inr w, s')"
  obtains r where "find (\<lambda>x. w_user x = u) (wallets (db s)) = Some r" and "w = scan_wallet r" and "db s' = db s"
  using assms unfolding select_wallet_by_user_def by (rule query_find_okE) (use that in auto)

lemma select_wallet_okE:
  assumes "select_wallet i s = (Inr w, s')"
  obtains r where "find (\<lambda>x. w_id x = i) (wallets (db s)) = Some r" and "w = scan_wallet r" and "db s' = db s"
  using assms unfolding select_wallet_def by (rule query_find_okE) (use that in auto)

lemma select_hold_okE:
  assumes "select_hold i s = (Inr h, s')"
  obtains r where "find (\<lambda>x. h_id x = i) (holds (db s)) = Some r" and "h = scan_hold r" and "db s' = db s"
  using assms unfolding select_hold_def by (rule query_find_okE) (use that in auto)

lemma with_tx_or_leave_okE:
  assumes "with_tx_or_leave be ce body s = (Inr x, s')"
  obtains (left) s2 where "body ((tick s)\<lparr>aborted := False\<rparr>) = (Inr (Leave x), s2)" and "db s' = db s"
  | (committed) s2 where "body ((tick s)\<lparr>aborted := False\<rparr>) = (Inr (Commit x), s2)" and "db s' = db s2"
  using assms
  by (auto simp: with_tx_or_leave_def split: if_splits prod.splits sum.splits way_out.splits)

lemma with_tx_or_leave_error: "with_tx_or_leave be ce body s = (Inl e, s') \<Longrightarrow> db s' = db s"
  by (auto simp: with_tx_or_leave_def split: if_splits prod.splits sum.splits way_out.splits)

lemmas step_okE = ret_okE guard_okE with_tx_okE andthen_okE on_err_okE
  exec_hold_status_okE exec_insert_wtxn_okE exec_update_held_okE exec_update_available_okE
  exec_update_balance_okE select_wallet_by_user_okE select_wallet_okE select_hold_okE

lemma only_wallet_held:
  assumes "schema_ok d" and "w \<in> set (wallets d)"
  shows "update_where (\<lambda>r. w_id r = w_id w) (\<lambda>r. r\<lparr>w_held := h, w_updated := t\<rparr>) (wallets d) =
    set_wallet (w_id w) (w_available w) h t (wallets d)"
proof -
  have "\<forall>r \<in> set (wallets d). w_id r = w_id w \<longrightarrow> w_available r = w_available w \<and> w_held r = w_held w"
    using distinct_key_unique [OF schema_distinct(1) [OF assms(1)] _ assms(2)] by blast
  then show ?thesis by (auto simp: update_where_def set_wallet_def intro!: map_cong wallet.equality)
qed

lemma only_wallet_available:
  assumes "schema_ok d" and "w \<in> set (wallets d)"
  shows "update_where (\<lambda>r. w_id r = w_id w) (\<lambda>r. r\<lparr>w_available := a, w_updated := t\<rparr>) (wallets d) =
    set_wallet (w_id w) a (w_held w) t (wallets d)"
proof -
  have "\<forall>r \<in> set (wallets d). w_id r = w_id w \<longrightarrow> w_available r = w_available w \<and> w_held r = w_held w"
    using distinct_key_unique [OF schema_distinct(1) [OF assms(1)] _ assms(2)] by blast
  then show ?thesis by (auto simp: update_where_def set_wallet_def intro!: map_cong wallet.equality)
qed

definition set_status :: "uuid \<Rightarrow> hold_status \<Rightarrow> int bid_hold list \<Rightarrow> int bid_hold list" where
  "set_status hid st hs = update_where (\<lambda>x. h_id x = hid) (\<lambda>x. x\<lparr>h_status := st\<rparr>) hs"

lemma left_okE:
  assumes "(if b then ret (Leave x) else m) s = (Inr y, s')"
  obtains "b" and "y = Leave x" and "s' = s" | "\<not> b" and "m s = (Inr y, s')"
  using assms by (auto split: if_splits)

lemma wt_key_saga_audit [simp]: "wt_key (saga_audit ids wid key op am be af au t) = key"
  by (simp add: saga_audit_def)

lemma charge_winner_raw:
  assumes "charge_winner sx sd s = (Inr u, s')"
  shows "\<exists>w d n ts. find (\<lambda>x. w_user x = sd_winner sd) (wallets (db s)) = Some w
    \<and> \<not> fsub (dec (w_held w)) (sd_amount sd) < 0
    \<and> sql_update_held (w_id w) (fsub (dec (w_held w)) (sd_amount sd)) (sx_now sx) (db s) = Inr (d, n)
    \<and> audited (saga_key ''charge'' (sd_auction sd) (sd_winner sd)) (wtxns d) ts
    \<and> db s' = d\<lparr>holds := set_status (sd_winner_hold sd) HoldCharged (holds d), wtxns := ts\<rparr>"
  using assms unfolding charge_winner_def Let_def set_status_def by (elim step_okE) auto

lemma reverse_charge_raw:
  assumes "reverse_charge sx sd s = (Inr u, s')"
  shows "\<exists>w d n. find (\<lambda>x. w_user x = sd_winner sd) (wallets (db s)) = Some w
    \<and> sql_update_held (w_id w) (fadd (dec (w_held w)) (sd_amount sd)) (sx_now sx) (db s) = Inr (d, n)
    \<and> db s' = d\<lparr>holds := set_status (sd_winner_hold sd) HoldActive (holds d)\<rparr>"
  using assms unfolding reverse_charge_def Let_def set_status_def by (elim step_okE) auto

lemma credit_seller_raw:
  assumes "credit_seller sx sd s = (Inr u, s')"
  shows "\<exists>w d n ts. find (\<lambda>x. w_user x = sd_seller sd) (wallets (db s)) = Some w
    \<and> sql_update_available (w_id w) (fadd (dec (w_available w)) (sd_amount sd)) (sx_now sx) (db s) = Inr (d, n)
    \<and> audited (saga_key ''credit'' (sd_auction sd) (sd_seller sd)) (wtxns d) ts
    \<and> db s' = d\<lparr>wtxns := ts\<rparr>"
  using assms unfolding credit_seller_def Let_def by (elim step_okE) auto

lemma reverse_credit_raw:
  assumes "reverse_credit sx sd s = (Inr u, s')"
  shows "\<exists>w n. find (\<lambda>x. w_user x = sd_seller sd) (wallets (db s)) = Some w
    \<and> sql_update_available (w_id w) (if fsub (dec (w_available w)) (sd_amount sd) < 0 then 0
          else fsub (dec (w_available w)) (sd_amount sd)) (sx_now sx) (db s) = Inr (db s', n)"
  using assms unfolding reverse_credit_def Let_def by (elim step_okE) auto

lemma release_one_hold_raw:
  assumes "release_one_hold sx au hid s = (Inr u, s')"
  shows "\<exists>h. find (\<lambda>x. h_id x = hid) (holds (db s)) = Some h \<and>
    (if h_status h \<noteq> HoldActive then db s' = db s
     else \<exists>w d n ts. find (\<lambda>x. w_id x = h_wallet h) (wallets (db s)) = Some w
    \<and> sql_update_balance (h_wallet h) (fadd (dec (w_available w)) (dec (h_amount h)))
           (fsub (dec (w_held w)) (dec (h_amount h))) (sx_now sx) (db s) = Inr (d, n)
    \<and> audited (saga_key ''release'' au hid) (wtxns d) ts
    \<and> db s' = d\<lparr>holds := set_status hid HoldReleased (holds d), wtxns := ts\<rparr>)"
proof (cases rule: with_tx_or_leave_okE [OF assms [unfolded release_one_hold_def Let_def]])
  case (1 s2)
  from 1(1) show ?thesis by (elim step_okE left_okE) (simp_all add: 1(2))
next
  case (2 s2)
  from 2(1) show ?thesis unfolding 2(2) set_status_def by (elim step_okE left_okE; simp) (rule exI, rule conjI, assumption, rule refl)
qed

lemma re_hold_one_raw:
  assumes "re_hold_one sx hid s = (Inr u, s')"
  shows "\<exists>h. find (\<lambda>x. h_id x = hid) (holds (db s)) = Some h \<and>
    (if h_status h \<noteq> HoldReleased then db s' = db s
     else \<exists>w d n. find (\<lambda>x. w_id x = h_wallet h) (wallets (db s)) = Some w
    \<and> sql_update_balance (h_wallet h) (fsub (dec (w_available w)) (dec (h_amount h)))
           (fadd (dec (w_held w)) (dec (h_amount h))) (sx_now sx) (db s) = Inr (d, n)
    \<and> db s' = d\<lparr>holds := set_status hid HoldActive (holds d)\<rparr>)"
proof (cases rule: with_tx_or_leave_okE [OF assms [unfolded re_hold_one_def Let_def]])
  case (1 s2)
  from 1(1) show ?thesis by (elim step_okE left_okE) (simp_all add: 1(2))
next
  case (2 s2)
  from 2(1) show ?thesis unfolding 2(2) set_status_def by (elim step_okE left_okE) auto
qed

lemma outbox_effect:
  "sql_insert_outbox_once ev d = Inr (d', n) \<Longrightarrow>
   wallets d' = wallets d \<and> holds d' = holds d \<and> wtxns d' = wtxns d"
  by (auto simp: sql_insert_outbox_once_def split: if_splits)

lemma publish_events_raw:
  assumes "publish_events sx sd s = (Inr u, s')"
  shows "wallets (db s') = wallets (db s)" "holds (db s') = holds (db s)" "wtxns (db s') = wtxns (db s)"
  using assms unfolding publish_events_def
  by (elim step_okE exec_okE; auto dest!: outbox_effect)+

subsection \<open>Postings\<close>

text \<open>
  \<open>posted d d' w a h hs\<close>: wallet \<open>w\<close> now has balances \<open>a\<close> and \<open>h\<close>, the holds are \<open>hs\<close>, and
  nothing else changed except the audit log and the outbox.
\<close>

definition posted :: "paydb \<Rightarrow> paydb \<Rightarrow> int wallet \<Rightarrow> int \<Rightarrow> int \<Rightarrow> int bid_hold list \<Rightarrow> bool" where
  "posted d d' w a h hs \<longleftrightarrow> w \<in> set (wallets d) \<and> 0 \<le> a \<and> 0 \<le> h \<and> in_range a \<and> in_range h \<and>
     (wtxns d' = wtxns d \<or> (\<exists>key. audited key (wtxns d) (wtxns d'))) \<and> holds d' = hs \<and>
     (\<exists>t. wallets d' = set_wallet (w_id w) a h t (wallets d)) \<and> outbox d' = outbox d"

lemma cents_zero [simp]: "cents 0 = 0"
  using cents_dec [of 0] by (simp add: dec_def in_range_def)

lemma update_held_posted:
  assumes "schema_ok d" and "w \<in> set (wallets d)"
    and "sql_update_held (w_id w) x t d = Inr (d1, n)"
  shows "d1 = d\<lparr>wallets := set_wallet (w_id w) (w_available w) (cents x) t (wallets d)\<rparr>"
    and "0 \<le> cents x" and "in_range (cents x)"
  using update_held_effect [OF assms(3)] assms(2) only_wallet_held [OF assms(1,2)] by auto

lemma update_available_posted:
  assumes "schema_ok d" and "w \<in> set (wallets d)"
    and "sql_update_available (w_id w) x t d = Inr (d1, n)"
  shows "d1 = d\<lparr>wallets := set_wallet (w_id w) (cents x) (w_held w) t (wallets d)\<rparr>"
    and "0 \<le> cents x" and "in_range (cents x)"
  using update_available_effect [OF assms(3)] assms(2) only_wallet_available [OF assms(1,2)] by auto

lemma charge_winner_posted:
  assumes "charge_winner sx sd s = (Inr u, s')" and "schema_ok (db s)"
    and "sd_amount sd = dec c" and "in_range c"
  obtains w where "w_user w = sd_winner sd" and "c \<le> w_held w"
    and "posted (db s) (db s') w (w_available w) (w_held w - c) (set_status (sd_winner_hold sd) HoldCharged (holds (db s)))"
proof -
  from charge_winner_raw [OF assms(1)] obtain w d n ts
    where f: "find (\<lambda>x. w_user x = sd_winner sd) (wallets (db s)) = Some w"
      and u: "sql_update_held (w_id w) (fsub (dec (w_held w)) (sd_amount sd)) (sx_now sx) (db s) = Inr (d, n)"
      and a: "audited (saga_key ''charge'' (sd_auction sd) (sd_winner sd)) (wtxns d) ts"
      and eq: "db s' = d\<lparr>holds := set_status (sd_winner_hold sd) HoldCharged (holds d), wtxns := ts\<rparr>" by blast
  from find_SomeD [OF f] have w: "w \<in> set (wallets (db s))" "w_user w = sd_winner sd" by auto
  note ok = schema_wallet [OF assms(2) w(1)]
  note p = update_held_posted [OF assms(2) w(1) u]
  have c: "cents (fsub (dec (w_held w)) (sd_amount sd)) = w_held w - c" using ok assms(3,4) by simp
  show ?thesis
    by (rule that [OF w(2)]) (use p c a eq w ok in \<open>auto simp: posted_def\<close>)
qed


lemma reverse_charge_posted:
  assumes "reverse_charge sx sd s = (Inr u, s')" and "schema_ok (db s)"
    and "sd_amount sd = dec c" and "in_range c"
  obtains w where "w_user w = sd_winner sd"
    and "posted (db s) (db s') w (w_available w) (w_held w + c) (set_status (sd_winner_hold sd) HoldActive (holds (db s)))"
proof -
  from reverse_charge_raw [OF assms(1)] obtain w d n
    where f: "find (\<lambda>x. w_user x = sd_winner sd) (wallets (db s)) = Some w"
      and u: "sql_update_held (w_id w) (fadd (dec (w_held w)) (sd_amount sd)) (sx_now sx) (db s) = Inr (d, n)"
      and eq: "db s' = d\<lparr>holds := set_status (sd_winner_hold sd) HoldActive (holds d)\<rparr>" by blast
  from find_SomeD [OF f] have w: "w \<in> set (wallets (db s))" "w_user w = sd_winner sd" by auto
  note ok = schema_wallet [OF assms(2) w(1)]
  note p = update_held_posted [OF assms(2) w(1) u]
  have c: "cents (fadd (dec (w_held w)) (sd_amount sd)) = w_held w + c" using ok assms(3,4) by simp
  show ?thesis
    by (rule that [OF w(2)]) (use p c eq w ok in \<open>auto simp: posted_def\<close>)
qed

lemma credit_seller_posted:
  assumes "credit_seller sx sd s = (Inr u, s')" and "schema_ok (db s)"
    and "sd_amount sd = dec c" and "in_range c"
  obtains w where "w_user w = sd_seller sd"
    and "posted (db s) (db s') w (w_available w + c) (w_held w) (holds (db s))"
proof -
  from credit_seller_raw [OF assms(1)] obtain w d n ts
    where f: "find (\<lambda>x. w_user x = sd_seller sd) (wallets (db s)) = Some w"
      and u: "sql_update_available (w_id w) (fadd (dec (w_available w)) (sd_amount sd)) (sx_now sx) (db s) = Inr (d, n)"
      and a: "audited (saga_key ''credit'' (sd_auction sd) (sd_seller sd)) (wtxns d) ts"
      and eq: "db s' = d\<lparr>wtxns := ts\<rparr>" by blast
  from find_SomeD [OF f] have w: "w \<in> set (wallets (db s))" "w_user w = sd_seller sd" by auto
  note ok = schema_wallet [OF assms(2) w(1)]
  note p = update_available_posted [OF assms(2) w(1) u]
  have c: "cents (fadd (dec (w_available w)) (sd_amount sd)) = w_available w + c" using ok assms(3,4) by simp
  show ?thesis
    by (rule that [OF w(2)]) (use p c a eq w ok in \<open>auto simp: posted_def\<close>)
qed

lemma reverse_credit_posted:
  assumes "reverse_credit sx sd s = (Inr u, s')" and "schema_ok (db s)"
    and "sd_amount sd = dec c" and "in_range c"
  obtains w where "w_user w = sd_seller sd"
    and "posted (db s) (db s') w (max 0 (w_available w - c)) (w_held w) (holds (db s))"
proof -
  from reverse_credit_raw [OF assms(1)] obtain w n
    where f: "find (\<lambda>x. w_user x = sd_seller sd) (wallets (db s)) = Some w"
      and u: "sql_update_available (w_id w) (if fsub (dec (w_available w)) (sd_amount sd) < 0 then 0
          else fsub (dec (w_available w)) (sd_amount sd)) (sx_now sx) (db s) = Inr (db s', n)" by blast
  from find_SomeD [OF f] have w: "w \<in> set (wallets (db s))" "w_user w = sd_seller sd" by auto
  note ok = schema_wallet [OF assms(2) w(1)]
  note p = update_available_posted [OF assms(2) w(1) u]
  have c: "cents (if fsub (dec (w_available w)) (sd_amount sd) < 0 then 0
      else fsub (dec (w_available w)) (sd_amount sd)) = max 0 (w_available w - c)"
    using ok assms(3,4) by (simp add: fsub_neg_iff cents_zero)
  show ?thesis
    by (rule that [OF w(2)]) (use p(2,3) p(1) [unfolded c] c w ok in \<open>simp add: posted_def, blast\<close>)
qed

lemma release_one_hold_posted:
  assumes "release_one_hold sx au hid s = (Inr u, s')" and "schema_ok (db s)"
  obtains (skip) h where "h \<in> set (holds (db s))" and "h_id h = hid" and "h_status h \<noteq> HoldActive" and "db s' = db s"
  | (release) h w where "h \<in> set (holds (db s))" and "h_id h = hid" and "h_status h = HoldActive" and "w_id w = h_wallet h"
    and "posted (db s) (db s') w (w_available w + h_amount h) (w_held w - h_amount h)
          (set_status hid HoldReleased (holds (db s)))"
proof -
  from release_one_hold_raw [OF assms(1)] obtain h where
    f: "find (\<lambda>x. h_id x = hid) (holds (db s)) = Some h"
    and r: "if h_status h \<noteq> HoldActive then db s' = db s
     else \<exists>w d n ts. find (\<lambda>x. w_id x = h_wallet h) (wallets (db s)) = Some w
    \<and> sql_update_balance (h_wallet h) (fadd (dec (w_available w)) (dec (h_amount h)))
           (fsub (dec (w_held w)) (dec (h_amount h))) (sx_now sx) (db s) = Inr (d, n)
    \<and> audited (saga_key ''release'' au hid) (wtxns d) ts
    \<and> db s' = d\<lparr>holds := set_status hid HoldReleased (holds d), wtxns := ts\<rparr>" by blast
  from find_SomeD [OF f] have h: "h \<in> set (holds (db s))" "h_id h = hid" by auto
  show ?thesis
  proof (cases "h_status h = HoldActive")
    case True
    with r obtain w d n ts where g: "find (\<lambda>x. w_id x = h_wallet h) (wallets (db s)) = Some w"
      and u: "sql_update_balance (h_wallet h) (fadd (dec (w_available w)) (dec (h_amount h)))
           (fsub (dec (w_held w)) (dec (h_amount h))) (sx_now sx) (db s) = Inr (d, n)"
      and a: "audited (saga_key ''release'' au hid) (wtxns d) ts"
      and eq: "db s' = d\<lparr>holds := set_status hid HoldReleased (holds d), wtxns := ts\<rparr>" by auto
    from find_SomeD [OF g] have w: "w \<in> set (wallets (db s))" "w_id w = h_wallet h" by auto
    note ok = schema_wallet [OF assms(2) w(1)] schema_hold [OF assms(2) h(1)]
    have "h_wallet h \<in> w_id ` set (wallets (db s))" using w by force
    note p = update_balance_effect [OF u this]
    show ?thesis
      by (rule release [OF h True w(2)]) (use p a eq w ok in \<open>auto simp: posted_def\<close>)
  qed (use r h skip in auto)
qed

lemma re_hold_one_posted:
  assumes "re_hold_one sx hid s = (Inr u, s')" and "schema_ok (db s)"
  obtains (skip) "db s' = db s"
  | (hold) h w where "h \<in> set (holds (db s))" and "h_id h = hid" and "h_status h = HoldReleased" and "w_id w = h_wallet h"
    and "posted (db s) (db s') w (w_available w - h_amount h) (w_held w + h_amount h)
          (set_status hid HoldActive (holds (db s)))"
proof -
  from re_hold_one_raw [OF assms(1)] obtain h where
    f: "find (\<lambda>x. h_id x = hid) (holds (db s)) = Some h"
    and r: "if h_status h \<noteq> HoldReleased then db s' = db s
     else \<exists>w d n. find (\<lambda>x. w_id x = h_wallet h) (wallets (db s)) = Some w
    \<and> sql_update_balance (h_wallet h) (fsub (dec (w_available w)) (dec (h_amount h)))
           (fadd (dec (w_held w)) (dec (h_amount h))) (sx_now sx) (db s) = Inr (d, n)
    \<and> db s' = d\<lparr>holds := set_status hid HoldActive (holds d)\<rparr>" by blast
  from find_SomeD [OF f] have h: "h \<in> set (holds (db s))" "h_id h = hid" by auto
  show ?thesis
  proof (cases "h_status h = HoldReleased")
    case True
    with r obtain w d n where g: "find (\<lambda>x. w_id x = h_wallet h) (wallets (db s)) = Some w"
      and u: "sql_update_balance (h_wallet h) (fsub (dec (w_available w)) (dec (h_amount h)))
           (fadd (dec (w_held w)) (dec (h_amount h))) (sx_now sx) (db s) = Inr (d, n)"
      and eq: "db s' = d\<lparr>holds := set_status hid HoldActive (holds d)\<rparr>" by auto
    from find_SomeD [OF g] have w: "w \<in> set (wallets (db s))" "w_id w = h_wallet h" by auto
    note ok = schema_wallet [OF assms(2) w(1)] schema_hold [OF assms(2) h(1)]
    have "h_wallet h \<in> w_id ` set (wallets (db s))" using w by force
    note p = update_balance_effect [OF u this]
    show ?thesis
      by (rule hold [OF h True w(2)]) (use p eq w ok in \<open>auto simp: posted_def\<close>)
  qed (use r skip in auto)
qed

end
