(* ===== verification/SettlementPhases.thy ===== *)
theory SettlementPhases
  imports SettlementSteps
begin

text \<open>
  The books through a settlement. A saga whose first step opens a phase that every later step and
  compensation keeps, and that only the first step's compensation may close, ends in one of the two
  phases (\<open>saga_phases\<close>); the settlement saga is an instance, with the status of the winner's hold
  as the phase.
\<close>

subsection \<open>Postings keep the schema and move the ledger\<close>

lemma w_key_status [simp]: "map h_id (set_status hid st hs) = map h_id hs"
  by (simp add: set_status_def)

lemma posted_ledger:
  assumes "schema_ok d" and "posted d d' w a h hs"
  shows "ledger_of d' = (ledger_of d)(w_user w \<mapsto> (a, h))"
proof -
  from assms(2) obtain t where w: "w \<in> set (wallets d)" "wallets d' = set_wallet (w_id w) a h t (wallets d)"
    by (auto simp: posted_def)
  have "ledger_of d' = ledger_of (d\<lparr>wtxns := wtxns d, holds := holds d,
      wallets := set_wallet (w_id w) a h t (wallets d)\<rparr>)"
    by (simp add: ledger_of_def w(2) fun_eq_iff)
  also have "\<dots> = (ledger_of d)(w_user w \<mapsto> (a, h))"
    by (rule ledger_of_set_wallet [OF assms(1) w(1) refl])
  finally show ?thesis .
qed

lemma set_status_rows:
  "x \<in> set (set_status hid st hs) \<Longrightarrow> \<exists>y \<in> set hs. h_amount x = h_amount y \<and> h_wallet x = h_wallet y \<and> h_id x = h_id y"
  by (auto simp: set_status_def in_set_update_where)

lemma posted_schema_holds:
  assumes "schema_ok d" and "posted d d' w a h hs" and "distinct (map h_id hs)"
    and "\<forall>x \<in> set hs. 0 < h_amount x \<and> in_range (h_amount x) \<and> h_wallet x \<in> w_id ` set (wallets d)"
  shows "schema_ok d'"
proof -
  from assms(2) obtain t key where p: "w \<in> set (wallets d)" "0 \<le> a" "0 \<le> h" "in_range a" "in_range h"
      "wtxns d' = wtxns d \<or> audited key (wtxns d) (wtxns d')" "holds d' = hs"
      "wallets d' = set_wallet (w_id w) a h t (wallets d)"
    by (auto simp: posted_def)
  have "distinct (map wt_key (wtxns d'))"
    using p(6) assms(1) audited_distinct by (auto simp: schema_ok_def)
  moreover have "\<forall>x \<in> set (wallets d'). 0 \<le> w_available x \<and> 0 \<le> w_held x \<and>
      in_range (w_available x) \<and> in_range (w_held x)"
    using p assms(1) by (auto simp: set_wallet_def in_set_update_where schema_ok_def)
  ultimately show ?thesis
    using assms(1,3,4) p(7,8) by (simp add: schema_ok_def)
qed

lemma posted_schema:
  assumes "schema_ok d" and "posted d d' w a h hs" and "hs = holds d \<or> hs = set_status hid st (holds d)"
  shows "schema_ok d'"
  by (rule posted_schema_holds [OF assms(1,2)])
    (use assms(1,3) in \<open>auto simp: schema_ok_def dest!: set_status_rows\<close>)

text \<open>All the money in the wallets.\<close>

definition total :: "paydb \<Rightarrow> int" where
  "total d = sum_list (map (\<lambda>w. w_available w + w_held w) (wallets d))"

lemma posted_total:
  assumes "schema_ok d" and "posted d d' w a h hs"
  shows "total d' = total d - (w_available w + w_held w) + (a + h)"
proof -
  from assms(2) obtain t where w: "w \<in> set (wallets d)" "wallets d' = set_wallet (w_id w) a h t (wallets d)"
    by (auto simp: posted_def)
  show ?thesis unfolding total_def w(2) set_wallet_def
    by (subst sum_list_update_key [OF schema_distinct(1) [OF assms(1)] w(1)]) simp
qed

lemma posted_books:
  assumes "schema_ok d" and "books_ok d" and "posted d d' w a h hs"
    and "\<And>i. active_holds i hs = active_holds i (holds d) + (if i = w_id w then h - w_held w else 0)"
  shows "books_ok d'"
proof -
  from assms(3) obtain t where w: "w \<in> set (wallets d)" "wallets d' = set_wallet (w_id w) a h t (wallets d)"
      "holds d' = hs"
    by (auto simp: posted_def)
  from books_ok_set_wallet [OF assms(1,2) w(1) assms(4), where t = t and a = a] show ?thesis
    by (simp add: books_ok_def w)
qed

lemma active_holds_open:
  assumes "distinct (map h_id hs)" and "h \<in> set hs" and "h_status h \<noteq> HoldActive"
  shows "active_holds i (set_status (h_id h) HoldActive hs) =
           active_holds i hs + (if h_wallet h = i then h_amount h else 0)"
  unfolding active_holds_def set_status_def
  by (subst sum_list_filter_update [OF assms(1,2)]) (use assms(3) in auto)

lemma posted_db_ok_close:
  assumes "db_ok d" and "posted d d' w a (w_held w - h_amount h) (set_status (h_id h) st (holds d))"
    and "h \<in> set (holds d)" and "h_status h = HoldActive" and "st \<noteq> HoldActive" and "w_id w = h_wallet h"
  shows "db_ok d'"
proof -
  have ok: "schema_ok d" "books_ok d" using assms(1) by (simp_all add: db_ok_def)
  have "books_ok d'"
    by (rule posted_books [OF ok assms(2)])
      (simp add: set_status_def active_holds_close [OF db_ok_holds(1) [OF assms(1)] assms(3-5)] assms(6))
  with posted_schema [OF ok(1) assms(2) disjI2 [OF refl]] show ?thesis by (simp add: db_ok_def)
qed

lemma posted_db_ok_open:
  assumes "db_ok d" and "posted d d' w a (w_held w + h_amount h) (set_status (h_id h) HoldActive (holds d))"
    and "h \<in> set (holds d)" and "h_status h \<noteq> HoldActive" and "w_id w = h_wallet h"
  shows "db_ok d'"
proof -
  have ok: "schema_ok d" "books_ok d" using assms(1) by (simp_all add: db_ok_def)
  have "books_ok d'"
    by (rule posted_books [OF ok assms(2)])
      (simp add: active_holds_open [OF db_ok_holds(1) [OF assms(1)] assms(3,4)] assms(5))
  with posted_schema [OF ok(1) assms(2) disjI2 [OF refl]] show ?thesis by (simp add: db_ok_def)
qed

lemma posted_db_ok_same:
  assumes "db_ok d" and "posted d d' w a (w_held w) (holds d)"
  shows "db_ok d'"
proof -
  have ok: "schema_ok d" "books_ok d" using assms(1) by (simp_all add: db_ok_def)
  have "books_ok d'" by (rule posted_books [OF ok assms(2)]) simp
  with posted_schema [OF ok(1) assms(2) disjI1 [OF refl]] show ?thesis by (simp add: db_ok_def)
qed

lemma posted_db_ok_append:
  assumes "db_ok d" and "posted d d' w a (w_held w + h_amount r) (holds d @ [r])"
    and "h_status r = HoldActive" "h_wallet r = w_id w" "0 < h_amount r" "in_range (h_amount r)"
    and "h_id r \<notin> h_id ` set (holds d)"
  shows "db_ok d'"
proof -
  have ok: "schema_ok d" "books_ok d" using assms(1) by (simp_all add: db_ok_def)
  have "w \<in> set (wallets d)" using assms(2) by (simp add: posted_def)
  then have "schema_ok d'"
    by (intro posted_schema_holds [OF ok(1) assms(2)])
      (use ok(1) assms(4-7) in \<open>auto simp: schema_ok_def\<close>)
  moreover have "books_ok d'"
    by (rule posted_books [OF ok assms(2)]) (simp add: active_holds_append assms(3,4))
  ultimately show ?thesis by (simp add: db_ok_def)
qed

subsection \<open>The winner's hold through a settlement\<close>

text \<open>
  \<open>winner_hold st sd c d\<close>: the hold named as the winner's has this status, is for \<open>c\<close> cents and
  is booked on the winner's wallet.
\<close>

definition winner_hold :: "hold_status \<Rightarrow> settlement_data \<Rightarrow> int \<Rightarrow> paydb \<Rightarrow> bool" where
  "winner_hold st sd c d \<longleftrightarrow> (\<exists>h \<in> set (holds d). h_id h = sd_winner_hold sd \<and> h_amount h = c \<and> h_status h = st \<and>
     (\<exists>w \<in> set (wallets d). w_id w = h_wallet h \<and> w_user w = sd_winner sd))"

lemma posted_wallet_ids:
  assumes "posted d d' w a h hs" and "q \<in> set (wallets d)"
  shows "\<exists>q' \<in> set (wallets d'). w_id q' = w_id q \<and> w_user q' = w_user q"
proof -
  from assms(1) obtain t where "wallets d' = set_wallet (w_id w) a h t (wallets d)" by (auto simp: posted_def)
  with assms(2) show ?thesis
    by (intro bexI [of _ "if w_id q = w_id w then q\<lparr>w_available := a, w_held := h, w_updated := t\<rparr> else q"])
      (auto simp: set_wallet_def in_set_update_where)
qed

lemma winner_hold_posted:
  assumes "winner_hold st sd c d" and "posted d d' w a h hs"
    and "hs = holds d \<or> (\<exists>q st'. hs = set_status (h_id q) st' (holds d) \<and> q \<in> set (holds d) \<and> h_status q \<noteq> st)"
    and "distinct (map h_id (holds d))"
  shows "winner_hold st sd c d'"
proof -
  from assms(1) obtain x y where x: "x \<in> set (holds d)" "h_id x = sd_winner_hold sd" "h_amount x = c" "h_status x = st"
    and y: "y \<in> set (wallets d)" "w_id y = h_wallet x" "w_user y = sd_winner sd"
    by (auto simp: winner_hold_def)
  from posted_wallet_ids [OF assms(2) y(1)] y obtain y' where
    y': "y' \<in> set (wallets d')" "w_id y' = h_wallet x" "w_user y' = sd_winner sd" by auto
  have "x \<in> set (holds d')"
  proof (cases "hs = holds d")
    case True
    with assms(2) x show ?thesis by (simp add: posted_def)
  next
    case False
    with assms(3) obtain q st' where q: "hs = set_status (h_id q) st' (holds d)" "q \<in> set (holds d)" "h_status q \<noteq> st"
      by blast
    then have "h_id x \<noteq> h_id q" using distinct_key_unique [OF assms(4) x(1) q(2)] x(4) by auto
    with x(1) have "x \<in> set hs" unfolding q(1) set_status_def by (force simp: in_set_update_where)
    with assms(2) show ?thesis by (simp add: posted_def)
  qed
  with x y' show ?thesis by (auto simp: winner_hold_def)
qed

lemma winner_hold_changed:
  assumes "winner_hold st sd c d" and "posted d d' w a h (set_status (sd_winner_hold sd) st' (holds d))"
  shows "winner_hold st' sd c d'"
proof -
  from assms(1) obtain x y where x: "x \<in> set (holds d)" "h_id x = sd_winner_hold sd" "h_amount x = c"
    and y: "y \<in> set (wallets d)" "w_id y = h_wallet x" "w_user y = sd_winner sd"
    by (auto simp: winner_hold_def)
  from posted_wallet_ids [OF assms(2) y(1)] y obtain y' where
    y': "y' \<in> set (wallets d')" "w_id y' = h_wallet x" "w_user y' = sd_winner sd" by auto
  have "x\<lparr>h_status := st'\<rparr> \<in> set (holds d')"
    using assms(2) x by (force simp: posted_def set_status_def in_set_update_where)
  with x y' show ?thesis unfolding winner_hold_def by (intro bexI [of _ "x\<lparr>h_status := st'\<rparr>"]) auto
qed

subsection \<open>Every run keeps the books\<close>

text \<open>
  The shape of a saga whose first step opens a phase: before it \<open>before\<close> holds, after it
  \<open>during\<close>, which every rest step and every rest compensation keeps, whatever their outcome.
\<close>

locale saga_phases =
  fixes first :: "'w saga_step" and rest :: "'w saga_step list"
    and before during :: "'w \<Rightarrow> bool"
  assumes open_ok: "before w \<Longrightarrow> st_execute first w = (Returned None, w') \<Longrightarrow> during w'"
    and open_fails: "before w \<Longrightarrow> st_execute first w = (out, w') \<Longrightarrow> out \<noteq> Returned None \<Longrightarrow> before w'"
    and later_keeps: "during w \<Longrightarrow> st \<in> set rest \<Longrightarrow> during (snd (st_execute st w))"
    and undo_keeps: "during w \<Longrightarrow> st \<in> set rest \<Longrightarrow> st_compensate st = Some undo \<Longrightarrow> during (snd (undo w))"
    and undo_open: "during w \<Longrightarrow> st_compensate first = Some undo \<Longrightarrow> before (snd (undo w)) \<or> during (snd (undo w))"
begin

lemma forward_during:
  "set sts \<subseteq> set rest \<Longrightarrow> during w \<Longrightarrow> during (snd (forward i sts w))"
proof (induction i sts w rule: forward.induct)
  case (2 i st sts w)
  obtain out w' where x: "st_execute st w = (out, w')" by fastforce
  have "during w'" using later_keeps [of w st] 2 x by simp
  with 2 x show ?case by (cases out rule: outcome.exhaust) (auto split: option.splits)
qed simp

lemma backward_during:
  "set sts \<subseteq> set rest \<Longrightarrow> during w \<Longrightarrow> during (backward sts w)"
  by (induction sts arbitrary: w) (auto split: option.splits intro: undo_keeps)

lemma backward_append: "backward (xs @ ys) w = backward ys (backward xs w)"
  by (induction xs arbitrary: w) (auto split: option.splits)

lemma saga_phase:
  assumes "before w" and "saga_spec (first # rest) w = (r, w')"
  shows "before w' \<or> during w'"
proof -
  obtain out w1 where x: "st_execute first w = (out, w1)" by fastforce
  show ?thesis
  proof (cases "out = Returned None")
    case False
    with assms x open_fails [OF assms(1) x] show ?thesis
      by (cases out rule: outcome.exhaust) (auto simp: saga_spec_def split: option.splits)
  next
    case True
    with x have d: "during w1" using open_ok [OF assms(1)] by simp
    obtain k w2 where f: "forward (Suc 0) rest w1 = (k, w2)" by fastforce
    have d2: "during w2" using forward_during [OF subset_refl d, of "Suc 0"] f by simp
    show ?thesis
    proof (cases k)
      case None
      with assms(2) x f True d2 show ?thesis by (simp add: saga_spec_def)
    next
      case (Some m)
      with f have "Suc 0 \<le> m" using forward_index by fastforce
      then obtain j where j: "m = Suc j" by (cases m) auto
      have "w' = backward [first] (backward (rev (take j rest)) w2)"
        using assms(2) x f True Some j by (simp add: saga_spec_def backward_append)
      moreover have "during (backward (rev (take j rest)) w2)"
        by (rule backward_during [OF _ d2]) (auto dest: in_set_takeD)
      ultimately show ?thesis using undo_open by (auto split: option.splits)
    qed
  qed
qed

end

lemma as_execute_ok: "as_execute m s = (Returned None, s') \<longleftrightarrow> (\<exists>u. m s = (Inr u, s'))"
  by (auto simp: as_execute_def split: prod.splits sum.splits)

lemma as_execute_fails:
  "as_execute m s = (out, s') \<Longrightarrow> out \<noteq> Returned None \<Longrightarrow> \<exists>e. m s = (Inl e, s')"
  by (auto simp: as_execute_def split: prod.splits sum.splits)

lemma parsed_to_data_map [simp]: "parsed (to_data_map sd) f = f sd"
  by (rule ext) (simp add: parsed_def parse_to_data_map)

lemma snd_as [simp]: "snd (as_execute m s) = snd (m s)" "snd (as_compensate m s) = snd (m s)"
  by (auto simp: as_execute_def as_compensate_def split: prod.splits sum.splits)

lemma step_errors:
  "charge_winner sx sd s = (Inl e, s') \<Longrightarrow> db s' = db s"
  "credit_seller sx sd s = (Inl e, s') \<Longrightarrow> db s' = db s"
  "publish_events sx sd s = (Inl e, s') \<Longrightarrow> db s' = db s"
  "reverse_charge sx sd s = (Inl e, s') \<Longrightarrow> db s' = db s"
  "reverse_credit sx sd s = (Inl e, s') \<Longrightarrow> db s' = db s"
  "release_one_hold sx au hid s = (Inl e, s') \<Longrightarrow> db s' = db s"
  "re_hold_one sx hid s = (Inl e, s') \<Longrightarrow> db s' = db s"
  by (auto simp: charge_winner_def credit_seller_def publish_events_def reverse_charge_def
      reverse_credit_def release_one_hold_def re_hold_one_def
      elim: with_tx_error with_tx_or_leave_error)

definition phase :: "hold_status \<Rightarrow> settlement_data \<Rightarrow> int \<Rightarrow> sess \<Rightarrow> bool" where
  "phase st sd c s \<longleftrightarrow> db_ok (db s) \<and> winner_hold st sd c (db s)"

lemma phase_db: "db s' = db s \<Longrightarrow> phase st sd c s \<Longrightarrow> phase st sd c s'"
  by (simp add: phase_def)

lemma result_cases:
  obtains (err) e s' where "m s = (Inl e, s')" | (ok) u s' where "m s = (Inr u, s')"
  by (metis prod.exhaust sum.exhaust)

lemma phase_charge:
  assumes "charge_winner sx sd s = (Inr u, s')" and "phase HoldActive sd c s"
    and "sd_amount sd = dec c" and "in_range c"
  shows "phase HoldCharged sd c s'"
proof -
  have ok: "db_ok (db s)" and wh: "winner_hold HoldActive sd c (db s)" using assms(2) by (simp_all add: phase_def)
  obtain w where w: "w_user w = sd_winner sd"
    and p: "posted (db s) (db s') w (w_available w) (w_held w - c) (set_status (sd_winner_hold sd) HoldCharged (holds (db s)))"
    by (rule charge_winner_posted [OF assms(1) db_ok_schema [OF ok] assms(3,4)])
  from wh obtain h y where h: "h \<in> set (holds (db s))" "h_id h = sd_winner_hold sd" "h_amount h = c" "h_status h = HoldActive"
    and y: "y \<in> set (wallets (db s))" "w_id y = h_wallet h" "w_user y = sd_winner sd" by (auto simp: winner_hold_def)
  have "w = y" using p w y schema_distinct(2) [OF db_ok_schema [OF ok]]
    by (auto simp: posted_def dest: distinct_key_unique)
  then have "db_ok (db s')"
    using posted_db_ok_close [OF ok, of "db s'" w "w_available w" h HoldCharged] p h y by simp
  with winner_hold_changed [OF wh p] show ?thesis by (simp add: phase_def)
qed

lemma phase_uncharge:
  assumes "reverse_charge sx sd s = (Inr u, s')" and "phase HoldCharged sd c s"
    and "sd_amount sd = dec c" and "in_range c"
  shows "phase HoldActive sd c s'"
proof -
  have ok: "db_ok (db s)" and wh: "winner_hold HoldCharged sd c (db s)" using assms(2) by (simp_all add: phase_def)
  obtain w where w: "w_user w = sd_winner sd"
    and p: "posted (db s) (db s') w (w_available w) (w_held w + c) (set_status (sd_winner_hold sd) HoldActive (holds (db s)))"
    by (rule reverse_charge_posted [OF assms(1) db_ok_schema [OF ok] assms(3,4)])
  from wh obtain h y where h: "h \<in> set (holds (db s))" "h_id h = sd_winner_hold sd" "h_amount h = c" "h_status h = HoldCharged"
    and y: "y \<in> set (wallets (db s))" "w_id y = h_wallet h" "w_user y = sd_winner sd" by (auto simp: winner_hold_def)
  have "w = y" using p w y schema_distinct(2) [OF db_ok_schema [OF ok]]
    by (auto simp: posted_def dest: distinct_key_unique)
  then have "db_ok (db s')"
    using posted_db_ok_open [OF ok, of "db s'" w "w_available w" h] p h y by simp
  with winner_hold_changed [OF wh p] show ?thesis by (simp add: phase_def)
qed

lemma phase_same:
  assumes "posted (db s) (db s') w a (w_held w) (holds (db s))" and "phase st sd c s"
  shows "phase st sd c s'"
  using assms posted_db_ok_same winner_hold_posted [OF _ assms(1)] db_ok_holds(1)
  by (auto simp: phase_def)

lemma phase_credit:
  assumes "phase st sd c s" and "sd_amount sd = dec c" and "in_range c"
  shows "phase st sd c (snd (credit_seller sx sd s))" and "phase st sd c (snd (reverse_credit sx sd s))"
proof -
  have ok: "schema_ok (db s)" using assms(1) by (simp add: phase_def db_ok_def)
  show "phase st sd c (snd (credit_seller sx sd s))"
  proof (cases rule: result_cases [of "credit_seller sx sd" s])
    case (err e s')
    then show ?thesis using assms(1) step_errors(2) phase_db by fastforce
  next
    case (ok u s')
    show ?thesis
      by (rule credit_seller_posted [OF ok \<open>schema_ok (db s)\<close> assms(2,3)])
        (use ok phase_same [OF _ assms(1)] in auto)
  qed
  show "phase st sd c (snd (reverse_credit sx sd s))"
  proof (cases rule: result_cases [of "reverse_credit sx sd" s])
    case (err e s')
    then show ?thesis using assms(1) step_errors(5) phase_db by fastforce
  next
    case (ok u s')
    show ?thesis
      by (rule reverse_credit_posted [OF ok \<open>schema_ok (db s)\<close> assms(2,3)])
        (use ok phase_same [OF _ assms(1)] in auto)
  qed
qed

lemma phase_release_one:
  assumes "phase HoldCharged sd c s"
  shows "phase HoldCharged sd c (snd (release_one_hold sx au hid s))"
proof (cases rule: result_cases [of "release_one_hold sx au hid" s])
  case (err e s')
  then show ?thesis using assms step_errors(6) phase_db by fastforce
next
  case (ok u s')
  have d: "db_ok (db s)" and wh: "winner_hold HoldCharged sd c (db s)" using assms by (simp_all add: phase_def)
  show ?thesis
  proof (cases rule: release_one_hold_posted [OF ok db_ok_schema [OF d]])
    case (1 h)
    then show ?thesis using assms ok phase_db by fastforce
  next
    case (2 h w)
    have "winner_hold HoldCharged sd c (db s')"
      by (rule winner_hold_posted [OF wh 2(5)])
        (use 2 db_ok_holds(1) [OF d] in \<open>auto intro!: exI [of _ h]\<close>)
    with posted_db_ok_close [OF d, of "db s'" w _ h HoldReleased] 2 ok show ?thesis
      by (auto simp: phase_def)
  qed
qed

lemma phase_re_hold_one:
  assumes "phase HoldCharged sd c s"
  shows "phase HoldCharged sd c (snd (re_hold_one sx hid s))"
proof (cases rule: result_cases [of "re_hold_one sx hid" s])
  case (err e s')
  then show ?thesis using assms step_errors(7) phase_db by fastforce
next
  case (ok u s')
  have d: "db_ok (db s)" and wh: "winner_hold HoldCharged sd c (db s)" using assms by (simp_all add: phase_def)
  show ?thesis
  proof (cases rule: re_hold_one_posted [OF ok db_ok_schema [OF d]])
    case 1
    then show ?thesis using assms ok phase_db by fastforce
  next
    case (2 h w)
    have "winner_hold HoldCharged sd c (db s')"
      by (rule winner_hold_posted [OF wh 2(5)])
        (use 2 db_ok_holds(1) [OF d] in \<open>auto intro!: exI [of _ h]\<close>)
    with posted_db_ok_open [OF d, of "db s'" w _ h] 2 ok show ?thesis
      by (auto simp: phase_def)
  qed
qed

lemma phase_release_holds:
  "phase HoldCharged sd c s \<Longrightarrow> phase HoldCharged sd c (snd (release_holds sx au hids s))"
proof (induction hids arbitrary: s)
  case (Cons hid hids)
  have "phase HoldCharged sd c (snd (release_one_hold sx au hid s))"
    by (rule phase_release_one [OF Cons.prems])
  with Cons.IH show ?case by (auto split: prod.splits sum.splits)
qed (simp add: ret_def)

lemma phase_re_hold_all:
  "phase HoldCharged sd c s \<Longrightarrow> phase HoldCharged sd c (snd (re_hold_all sx hids s))"
  by (induction hids arbitrary: s) (auto simp: ret_def intro: phase_re_hold_one)

lemma phase_cong:
  assumes "wallets (db s') = wallets (db s)" "holds (db s') = holds (db s)" "wtxns (db s') = wtxns (db s)"
  shows "phase st sd c s' \<longleftrightarrow> phase st sd c s"
  by (simp only: phase_def db_ok_def schema_ok_def books_ok_def winner_hold_def assms)

lemma phase_publish:
  assumes "phase st sd c s"
  shows "phase st sd c (snd (publish_events sx sd s))"
proof (cases rule: result_cases [of "publish_events sx sd" s])
  case (err e s')
  then show ?thesis using assms step_errors(3) phase_db by fastforce
next
  case (ok u s')
  with phase_cong [OF publish_events_raw [OF ok]] assms show ?thesis by simp
qed

definition settling :: "hold_status \<Rightarrow> settlement_data \<Rightarrow> sess \<Rightarrow> bool" where
  "settling st sd s \<longleftrightarrow> whole_cents (sd_amount sd) \<and> phase st sd (cents (sd_amount sd)) s"

lemma whole_centsD: "whole_cents x \<Longrightarrow> x = dec (cents x) \<and> in_range (cents x)"
  by (simp add: whole_cents_def)

lemmas later_keeps = phase_release_holds phase_re_hold_all phase_publish

interpretation settlement: saga_phases "hd (settlement_saga sx (to_data_map sd))"
  "tl (settlement_saga sx (to_data_map sd))" "settling HoldActive sd" "settling HoldCharged sd" for sx sd
proof
  fix s s' out
  assume b: "settling HoldActive sd s"
  then have c: "sd_amount sd = dec (cents (sd_amount sd))" "in_range (cents (sd_amount sd))"
    using whole_centsD by (auto simp: settling_def)
  show "settling HoldCharged sd s'"
    if "st_execute (hd (settlement_saga sx (to_data_map sd))) s = (Returned None, s')"
    using that b phase_charge [OF _ _ c] by (auto simp: settlement_saga_def as_execute_ok settling_def)
  show "settling HoldActive sd s'"
    if "st_execute (hd (settlement_saga sx (to_data_map sd))) s = (out, s')" "out \<noteq> Returned None"
    using that b step_errors(1) phase_db
    by (fastforce simp: settlement_saga_def settling_def dest!: as_execute_fails)
next
  fix s :: sess and st undo
  assume b: "settling HoldCharged sd s"
  then have c: "sd_amount sd = dec (cents (sd_amount sd))" "in_range (cents (sd_amount sd))"
    using whole_centsD by (auto simp: settling_def)
  show "settling HoldCharged sd (snd (st_execute st s))"
    if "st \<in> set (tl (settlement_saga sx (to_data_map sd)))"
    using that b phase_credit [OF _ c] later_keeps
    by (auto simp: settlement_saga_def settling_def release_losers_def)
  show "settling HoldCharged sd (snd (undo s))"
    if "st \<in> set (tl (settlement_saga sx (to_data_map sd)))" "st_compensate st = Some undo"
    using that b phase_credit [OF _ c] later_keeps
    by (auto simp: settlement_saga_def settling_def reverse_release_def)
  show "settling HoldActive sd (snd (undo s)) \<or> settling HoldCharged sd (snd (undo s))"
    if "st_compensate (hd (settlement_saga sx (to_data_map sd))) = Some undo"
  proof (cases rule: result_cases [of "reverse_charge sx sd" s])
    case (err e s')
    with that b step_errors(4) [OF err] phase_db show ?thesis
      by (fastforce simp: settlement_saga_def settling_def)
  next
    case (ok u s')
    with that b phase_uncharge [OF ok _ c] show ?thesis
      by (auto simp: settlement_saga_def settling_def)
  qed
qed

lemma settlement_saga_split:
  "hd (settlement_saga sx m) # tl (settlement_saga sx m) = settlement_saga sx m"
  by (simp add: settlement_saga_def)

lemma execute_phase:
  assumes "execute ty ref sid rid t (settlement_saga sx (to_data_map sd)) s = (r, s')"
    and "settling HoldActive sd (world s)"
  shows "settling HoldActive sd (world s') \<or> settling HoldCharged sd (world s')"
proof (cases "created r")
  case True
  then have "saga_spec (hd (settlement_saga sx (to_data_map sd)) # tl (settlement_saga sx (to_data_map sd)))
      (world s) = (failed_at r, world s')"
    unfolding settlement_saga_split by (rule execute_refines [OF assms(1)])
  from settlement.saga_phase [OF assms(2) this] show ?thesis .
next
  case False
  from execute_not_created [OF assms(1) this] assms(2) show ?thesis by simp
qed

end
