(* ===== verification/SettlementSpec.thy ===== *)
theory SettlementSpec
  imports SettlementPhases
begin

text \<open>
  The properties of the saga orchestrator and of the settlement. Without connection faults every
  construct of \<^verbatim>\<open>PaymentDb\<close> stays free of faults (\<open>quiet\<close>), so the compensations succeed, and
  each outcome of the saga (\<open>settlement_outcomes\<close>) can be computed on the ledger.
\<close>

subsection \<open>Without faults: steps stay free of faults, compensations succeed\<close>

definition quiet :: "('e, 'a) goop \<Rightarrow> bool" where
  "quiet m \<longleftrightarrow> (\<forall>s. faults s = [] \<longrightarrow> faults (snd (m s)) = [])"

named_theorems quiet_intros \<open>constructs that do not create faults\<close>

lemma quiet_ret [quiet_intros]: "quiet (ret x)"
  by (simp add: quiet_def ret_def)

lemma quiet_fail [quiet_intros]: "quiet (fail e)"
  by (simp add: quiet_def fail_def)

lemma quiet_query [quiet_intros]: "quiet (query_row q)"
  by (auto simp: quiet_def query_row_def split: option.splits)

lemma quiet_exec [quiet_intros]: "quiet (exec f)"
  by (auto simp: quiet_def exec_def split: sum.splits)

lemma quiet_on_err [quiet_intros]: "quiet m \<Longrightarrow> quiet (on_err f m)"
  by (auto simp: quiet_def on_err_def split: prod.splits sum.splits)

lemma quiet_andthen [quiet_intros]: "quiet m \<Longrightarrow> (\<And>x. quiet (k x)) \<Longrightarrow> quiet (andthen m k)"
  by (auto simp: quiet_def andthen_def split: prod.splits sum.splits)

lemma quiet_if [quiet_intros]: "quiet m \<Longrightarrow> quiet n \<Longrightarrow> quiet (if b then m else n)"
  by simp

lemma quiet_with_tx [quiet_intros]:
  assumes "quiet m"
  shows "quiet (with_tx be ce m)"
  unfolding quiet_def
proof (intro allI impI)
  fix s :: sess
  assume f: "faults s = []"
  obtain r s2 where m: "m ((tick s)\<lparr>aborted := False\<rparr>) = (r, s2)" by fastforce
  have "faults s2 = []" using assms [unfolded quiet_def, rule_format, of "(tick s)\<lparr>aborted := False\<rparr>"] f m by simp
  with f m show "faults (snd (with_tx be ce m s)) = []" by (simp add: with_tx_def split: sum.splits)
qed

lemma quiet_with_tx_or_leave [quiet_intros]:
  assumes "quiet m"
  shows "quiet (with_tx_or_leave be ce m)"
  unfolding quiet_def
proof (intro allI impI)
  fix s :: sess
  assume f: "faults s = []"
  obtain r s2 where m: "m ((tick s)\<lparr>aborted := False\<rparr>) = (r, s2)" by fastforce
  have "faults s2 = []" using assms [unfolded quiet_def, rule_format, of "(tick s)\<lparr>aborted := False\<rparr>"] f m by simp
  with f m show "faults (snd (with_tx_or_leave be ce m s)) = []"
    by (simp add: with_tx_or_leave_def split: sum.splits way_out.splits)
qed

lemma quiet_steps:
  "quiet (charge_winner sx sd)" "quiet (credit_seller sx sd)" "quiet (release_one_hold sx au hid)"
  "quiet (publish_events sx sd)" "quiet (reverse_charge sx sd)" "quiet (reverse_credit sx sd)"
  unfolding charge_winner_def credit_seller_def release_one_hold_def publish_events_def
    reverse_charge_def reverse_credit_def Let_def select_wallet_by_user_def select_wallet_def select_hold_def
  by (intro quiet_intros)+

lemma quiet_release_holds: "quiet (release_holds sx au hids)"
proof (induction hids)
  case (Cons hid hids)
  with quiet_steps(3) [of sx au hid] show ?case
    unfolding quiet_def by (auto split: prod.splits sum.splits)
qed (simp add: quiet_ret)

lemma quietD: "quiet m \<Longrightarrow> faults s = [] \<Longrightarrow> m s = (r, s') \<Longrightarrow> faults s' = []"
  unfolding quiet_def by (metis snd_conv)

lemma reverse_charge_run:
  assumes "faults s = []" and "schema_ok (db s)" and "sd_amount sd = dec c" and "in_range c"
    and "ledger_of (db s) (sd_winner sd) = Some (a, h)" and "0 \<le> h + c" and "in_range (h + c)"
  shows "\<exists>s'. reverse_charge sx sd s = (Inr (), s')"
proof -
  from assms(5) obtain w where f: "find (\<lambda>x. w_user x = sd_winner sd) (wallets (db s)) = Some w"
    and h: "h = w_held w" by (auto simp: ledger_of_def)
  from find_SomeD [OF f] have w: "w \<in> set (wallets (db s))" "w_id w \<in> w_id ` set (wallets (db s))" by auto
  note ok = schema_wallet [OF assms(2) w(1)]
  from assms f h ok w show ?thesis
    by (simp add: reverse_charge_def Let_def quiet_defs select_wallet_by_user_def sql_update_held_def
        num_cast_range sql_update_hold_status_def)
qed

lemma reverse_credit_run:
  assumes "faults s = []" and "schema_ok (db s)" and "sd_amount sd = dec c" and "in_range c" and "0 \<le> c"
    and "ledger_of (db s) (sd_seller sd) = Some (a, h)"
  shows "\<exists>s'. reverse_credit sx sd s = (Inr (), s')"
proof -
  from assms(6) obtain w where f: "find (\<lambda>x. w_user x = sd_seller sd) (wallets (db s)) = Some w"
    by (auto simp: ledger_of_def)
  from find_SomeD [OF f] have w: "w \<in> set (wallets (db s))" "w_id w \<in> w_id ` set (wallets (db s))" by auto
  note ok = schema_wallet [OF assms(2) w(1)]
  show ?thesis
  proof (cases "w_available w < c")
    case True
    have "num_cast 15 0 = Some 0" by (simp add: num_cast_def)
    with True assms f ok w show ?thesis
      by (simp add: reverse_credit_def Let_def quiet_defs select_wallet_by_user_def sql_update_available_def
          fsub_neg_iff)
  next
    case False
    then have "in_range (w_available w - c)" using ok assms(5) by (simp add: in_range_def)
    with False assms f ok w show ?thesis
      by (simp add: reverse_credit_def Let_def quiet_defs select_wallet_by_user_def sql_update_available_def
          fsub_neg_iff num_cast_range)
  qed
qed

lemma w_id_rows:
  "w_id ` set (update_where P (\<lambda>r. r\<lparr>w_held := h, w_updated := t\<rparr>) ws) = w_id ` set ws"
proof -
  have "map w_id (update_where P (\<lambda>r. r\<lparr>w_held := h, w_updated := t\<rparr>) ws) = map w_id ws"
    by (rule map_update_where) simp
  then show ?thesis by (metis list.set_map)
qed

lemma charge_winner_run:
  assumes "faults s = []" and "schema_ok (db s)" and "sd_amount sd = dec c" and "in_range c"
    and "ledger_of (db s) (sd_winner sd) = Some (a, h)" and "0 \<le> c" "c \<le> h" "h < 10 ^ 12"
    and "fst (sx_charge sx) \<notin> wt_id ` set (wtxns (db s))"
  shows "\<exists>s'. charge_winner sx sd s = (Inr (), s')"
proof -
  from assms(5) obtain w where f: "find (\<lambda>x. w_user x = sd_winner sd) (wallets (db s)) = Some w"
    and h: "h = w_held w" by (auto simp: ledger_of_def)
  from find_SomeD [OF f] have w: "w \<in> set (wallets (db s))" "w_id w \<in> w_id ` set (wallets (db s))" by auto
  note ok = schema_wallet [OF assms(2) w(1)]
  have r: "in_range (w_held w - c)" using ok assms(4,6,7) h by (simp add: in_range_def)
  have n: "num_cast 12 (dec c) = Some c" "num_cast 12 (dec (w_held w)) = Some (w_held w)"
      "num_cast 12 (fsub (dec (w_held w)) (dec c)) = Some (w_held w - c)"
    using ok assms(4,6-8) h by (simp_all add: num_cast_audit)
  from assms f h ok w r n show ?thesis
    by (simp add: charge_winner_def Let_def quiet_defs select_wallet_by_user_def sql_update_held_def
        num_cast_range sql_update_hold_status_def fsub_neg_iff sql_insert_wtxn_def saga_audit_def
        w_id_rows)
qed


subsection \<open>Releases only free money\<close>

text \<open>
  \<open>freed d d'\<close>: every user has at least as much available and at most as much held as before, the
  total is the same and the schema holds.
\<close>

definition freed :: "paydb \<Rightarrow> paydb \<Rightarrow> bool" where
  "freed d d' \<longleftrightarrow> schema_ok d' \<and> total d' = total d \<and> outbox d' = outbox d \<and>
     (\<forall>u a h. ledger_of d u = Some (a, h) \<longrightarrow> (\<exists>a' h'. ledger_of d' u = Some (a', h') \<and> a \<le> a' \<and> h' \<le> h))"

lemma freedD:
  assumes "freed d d'" and "ledger_of d u = Some (a, h)"
  shows "schema_ok d' \<and> total d' = total d \<and> (\<exists>a' h'. ledger_of d' u = Some (a', h') \<and> a \<le> a' \<and> h' \<le> h)"
  using assms unfolding freed_def by blast

lemma freed_refl: "schema_ok d \<Longrightarrow> freed d d"
  by (auto simp: freed_def)

lemma freed_trans:
  assumes "freed d d1" and "freed d1 d2"
  shows "freed d d2"
proof -
  have "\<exists>a2 h2. ledger_of d2 u = Some (a2, h2) \<and> a \<le> a2 \<and> h2 \<le> h" if u: "ledger_of d u = Some (a, h)" for u a h
  proof -
    from assms(1) u obtain a1 h1 where 1: "ledger_of d1 u = Some (a1, h1)" "a \<le> a1" "h1 \<le> h"
      unfolding freed_def by blast
    from assms(2) 1(1) obtain a2 h2 where "ledger_of d2 u = Some (a2, h2)" "a1 \<le> a2" "h2 \<le> h1"
      unfolding freed_def by blast
    with 1 show ?thesis by auto
  qed
  with assms show ?thesis by (simp add: freed_def)
qed

lemma freed_release_one:
  assumes "release_one_hold sx au hid s = (r, s')" and "schema_ok (db s)"
  shows "freed (db s) (db s')"
proof (cases r)
  case (Inl e)
  with assms show ?thesis using step_errors(6) freed_refl by metis
next
  case (Inr u)
  show ?thesis
  proof (cases rule: release_one_hold_posted [OF assms(1) [unfolded Inr] assms(2)])
    case (1 h)
    with assms(2) show ?thesis by (simp add: freed_refl)
  next
    case (2 h w)
    have w: "w \<in> set (wallets (db s))" using 2(5) by (simp add: posted_def)
    have "0 < h_amount h" using schema_hold [OF assms(2) 2(1)] by simp
    with posted_ledger [OF assms(2) 2(5)] ledger_of_wallet [OF assms(2) w] posted_total [OF assms(2) 2(5)]
      posted_schema [OF assms(2) 2(5) disjI2 [OF refl]] 2(5)
    show ?thesis by (auto simp: freed_def posted_def)
  qed
qed

lemma freed_release_holds:
  "release_holds sx au hids s = (r, s') \<Longrightarrow> schema_ok (db s) \<Longrightarrow> freed (db s) (db s')"
proof (induction hids arbitrary: s)
  case (Cons hid hids)
  obtain r1 s1 where x: "release_one_hold sx au hid s = (r1, s1)" by fastforce
  have f: "freed (db s) (db s1)" by (rule freed_release_one [OF x Cons.prems(2)])
  then have "schema_ok (db s1)" by (simp add: freed_def)
  with Cons f x show ?case by (cases r1) (auto intro: freed_trans)
qed (auto simp: ret_def freed_refl)

subsection \<open>The outcomes of a settlement\<close>

lemma settlement_outcomes:
  assumes "saga_spec (settlement_saga sx (to_data_map sd)) s = (k, s')"
  obtains (completed) s1 s2 s3 where "k = None" "charge_winner sx sd s = (Inr (), s1)"
      "credit_seller sx sd s1 = (Inr (), s2)" "release_losers sx sd s2 = (Inr (), s3)"
      "publish_events sx sd s3 = (Inr (), s')"
  | (no_charge) e where "k = Some 0" "charge_winner sx sd s = (Inl e, s')"
  | (no_credit) s1 s2 e where "k = Some 1" "charge_winner sx sd s = (Inr (), s1)"
      "credit_seller sx sd s1 = (Inl e, s2)" "s' = snd (reverse_charge sx sd s2)"
  | (no_release) s1 s2 s3 e where "k = Some 2" "charge_winner sx sd s = (Inr (), s1)"
      "credit_seller sx sd s1 = (Inr (), s2)" "release_losers sx sd s2 = (Inl e, s3)"
      "s' = snd (reverse_charge sx sd (snd (reverse_credit sx sd s3)))"
  | (no_publish) s1 s2 s3 s4 e where "k = Some 3" "charge_winner sx sd s = (Inr (), s1)"
      "credit_seller sx sd s1 = (Inr (), s2)" "release_losers sx sd s2 = (Inr (), s3)"
      "publish_events sx sd s3 = (Inl e, s4)"
proof -
  obtain r1 s1 where 1: "charge_winner sx sd s = (r1, s1)" by fastforce
  obtain r2 s2 where 2: "credit_seller sx sd s1 = (r2, s2)" by fastforce
  obtain r3 s3 where 3: "release_losers sx sd s2 = (r3, s3)" by fastforce
  obtain r4 s4 where 4: "publish_events sx sd s3 = (r4, s4)" by fastforce
  note defs = saga_spec_def settlement_saga_def as_execute_def eval_nat_numeral
  consider (a) e where "r1 = Inl e" | (b) u e where "r1 = Inr u" "r2 = Inl e"
    | (c) u v e where "r1 = Inr u" "r2 = Inr v" "r3 = Inl e"
    | (d) u v x e where "r1 = Inr u" "r2 = Inr v" "r3 = Inr x" "r4 = Inl e"
    | (f) u v x y where "r1 = Inr u" "r2 = Inr v" "r3 = Inr x" "r4 = Inr y"
    by (cases r1; cases r2; cases r3; cases r4) auto
  then show ?thesis
  proof cases
    case a
    with assms 1 show ?thesis by (intro no_charge) (simp_all add: defs)
  next
    case b
    with assms 1 2 show ?thesis by (intro no_credit [of s1 e s2]) (simp_all add: defs)
  next
    case c
    with assms 1 2 3 show ?thesis by (intro no_release [of s1 s2 e s3]) (simp_all add: defs)
  next
    case d
    with assms 1 2 3 4 show ?thesis by (intro no_publish [of s1 s2 s3 e s4]) (simp_all add: defs)
  next
    case f
    with assms 1 2 3 4 show ?thesis by (intro completed [of s1 s2 s3]) (simp_all add: defs)
  qed
qed


lemma charge_books:
  assumes "charge_winner sx sd s = (Inr u, s1)" and "faults s = []" "schema_ok (db s)"
    and "sd_amount sd = dec c" "in_range c"
  obtains a h where "ledger_of (db s) (sd_winner sd) = Some (a, h)" "c \<le> h" "in_range h"
    and "ledger_of (db s1) = (ledger_of (db s))(sd_winner sd \<mapsto> (a, h - c))"
    and "total (db s1) = total (db s) - c" "schema_ok (db s1)" "faults s1 = []" "outbox (db s1) = outbox (db s)"
proof (rule charge_winner_posted [OF assms(1,3-5)])
  fix w
  assume w: "w_user w = sd_winner sd" "c \<le> w_held w"
    and p: "posted (db s) (db s1) w (w_available w) (w_held w - c)
      (set_status (sd_winner_hold sd) HoldCharged (holds (db s)))"
  have ws: "w \<in> set (wallets (db s))" "outbox (db s1) = outbox (db s)" using p by (simp_all add: posted_def)
  with w posted_ledger [OF assms(3) p] posted_total [OF assms(3) p] quietD [OF quiet_steps(1) assms(2,1)]
    posted_schema [OF assms(3) p disjI2 [OF refl]] ledger_of_wallet [OF assms(3), of w]
    schema_wallet [OF assms(3), of w]
  show ?thesis by (intro that) auto
qed

lemma credit_books:
  assumes "credit_seller sx sd s = (Inr u, s1)" and "faults s = []" "schema_ok (db s)"
    and "sd_amount sd = dec c" "in_range c"
  obtains a h where "ledger_of (db s) (sd_seller sd) = Some (a, h)" "0 \<le> a"
    and "ledger_of (db s1) = (ledger_of (db s))(sd_seller sd \<mapsto> (a + c, h))"
    and "total (db s1) = total (db s) + c" "schema_ok (db s1)" "faults s1 = []" "outbox (db s1) = outbox (db s)"
proof (rule credit_seller_posted [OF assms(1,3-5)])
  fix w
  assume w: "w_user w = sd_seller sd"
    and p: "posted (db s) (db s1) w (w_available w + c) (w_held w) (holds (db s))"
  have ws: "w \<in> set (wallets (db s))" "outbox (db s1) = outbox (db s)" using p by (simp_all add: posted_def)
  with w posted_ledger [OF assms(3) p] posted_total [OF assms(3) p] quietD [OF quiet_steps(2) assms(2,1)]
    posted_schema [OF assms(3) p disjI1 [OF refl]] ledger_of_wallet [OF assms(3), of w]
    schema_wallet [OF assms(3), of w]
  show ?thesis by (intro that) auto
qed

lemma uncharge_books:
  assumes "faults s = []" "schema_ok (db s)" and "sd_amount sd = dec c" "in_range c"
    and "ledger_of (db s) (sd_winner sd) = Some (a, h)" "0 \<le> h + c" "in_range (h + c)"
    and "s1 = snd (reverse_charge sx sd s)"
  shows "total (db s1) = total (db s) + c \<and> ledger_of (db s1) = (ledger_of (db s))(sd_winner sd \<mapsto> (a, h + c))
    \<and> holds (db s1) = set_status (sd_winner_hold sd) HoldActive (holds (db s))"
proof -
  obtain s' where "reverse_charge sx sd s = (Inr (), s')"
    using reverse_charge_run [OF assms(1-7)] by blast
  with assms(8) have x: "reverse_charge sx sd s = (Inr (), s1)" by simp
  show ?thesis
  proof (rule reverse_charge_posted [OF x assms(2-4)])
    fix w
    assume w: "w_user w = sd_winner sd"
      and p: "posted (db s) (db s1) w (w_available w) (w_held w + c)
        (set_status (sd_winner_hold sd) HoldActive (holds (db s)))"
    have "w \<in> set (wallets (db s))"
      "holds (db s1) = set_status (sd_winner_hold sd) HoldActive (holds (db s))" using p by (simp_all add: posted_def)
    with w posted_ledger [OF assms(2) p] posted_total [OF assms(2) p] ledger_of_wallet [OF assms(2), of w] assms(5)
    show ?thesis by auto
  qed
qed

lemma uncredit_books:
  assumes "faults s = []" "schema_ok (db s)" and "sd_amount sd = dec c" "in_range c" "0 \<le> c"
    and "ledger_of (db s) (sd_seller sd) = Some (a, h)" "c \<le> a"
    and "s1 = snd (reverse_credit sx sd s)"
  shows "total (db s1) = total (db s) - c" "ledger_of (db s1) = (ledger_of (db s))(sd_seller sd \<mapsto> (a - c, h))"
    and "schema_ok (db s1)" "faults s1 = []"
proof -
  obtain s' where "reverse_credit sx sd s = (Inr (), s')"
    using reverse_credit_run [OF assms(1-6)] by blast
  with assms(8) have x: "reverse_credit sx sd s = (Inr (), s1)" by simp
  have "total (db s1) = total (db s) - c \<and> schema_ok (db s1) \<and> faults s1 = [] \<and>
      ledger_of (db s1) = (ledger_of (db s))(sd_seller sd \<mapsto> (a - c, h))"
  proof (rule reverse_credit_posted [OF x assms(2-4)])
    fix w
    assume w: "w_user w = sd_seller sd"
      and p: "posted (db s) (db s1) w (max 0 (w_available w - c)) (w_held w) (holds (db s))"
    have ws: "w \<in> set (wallets (db s))" using p by (simp add: posted_def)
    with w posted_ledger [OF assms(2) p] posted_total [OF assms(2) p] ledger_of_wallet [OF assms(2), of w] assms(6,7)
      posted_schema [OF assms(2) p disjI1 [OF refl]] quietD [OF quiet_steps(6) assms(1) x]
    show ?thesis by (auto simp: max_def)
  qed
  then show "total (db s1) = total (db s) - c" "schema_ok (db s1)" "faults s1 = []"
    "ledger_of (db s1) = (ledger_of (db s))(sd_seller sd \<mapsto> (a - c, h))" by simp_all
qed

lemma undone_no_credit:
  assumes "charge_winner sx sd s = (Inr u, s1)" "credit_seller sx sd s1 = (Inl e, s2)"
    and "s' = snd (reverse_charge sx sd s2)"
    and "faults s = []" "schema_ok (db s)" and "sd_amount sd = dec c" "in_range c"
  shows "total (db s') = total (db s)" "ledger_of (db s') = ledger_of (db s)"
    and "holds (db s') = set_status (sd_winner_hold sd) HoldActive (holds (db s1))"
proof -
  obtain a h where 1: "ledger_of (db s) (sd_winner sd) = Some (a, h)" "c \<le> h" "in_range h"
      "ledger_of (db s1) = (ledger_of (db s))(sd_winner sd \<mapsto> (a, h - c))"
      "total (db s1) = total (db s) - c" "schema_ok (db s1)" "faults s1 = []"
    by (rule charge_books [OF assms(1,4-7)])
  have 2: "db s2 = db s1" "faults s2 = []"
    using step_errors(2) [OF assms(2)] quietD [OF quiet_steps(2) 1(7) assms(2)] by auto
  obtain w where "w \<in> set (wallets (db s))" "w_held w = h"
    using 1(1) by (auto simp: ledger_of_def dest: find_SomeD)
  then have "0 \<le> h" using schema_wallet [OF assms(5)] by auto
  with uncharge_books [of s2 sd c a "h - c", OF 2(2) _ assms(6,7) _ _ _ assms(3)] 1 2
  show "total (db s') = total (db s)" "ledger_of (db s') = ledger_of (db s)"
    "holds (db s') = set_status (sd_winner_hold sd) HoldActive (holds (db s1))" by auto
qed

lemma ledger_held_nonneg: "schema_ok d \<Longrightarrow> ledger_of d u = Some (a, h) \<Longrightarrow> 0 \<le> h"
  by (auto simp: ledger_of_def dest!: find_SomeD dest: schema_wallet)

lemma undone_no_release:
  assumes "charge_winner sx sd s = (Inr u, s1)" "credit_seller sx sd s1 = (Inr v, s2)"
    and "release_losers sx sd s2 = (Inl e, s3)"
    and "s' = snd (reverse_charge sx sd (snd (reverse_credit sx sd s3)))"
    and "faults s = []" "schema_ok (db s)" and "sd_amount sd = dec c" "in_range c" "0 \<le> c"
  shows "total (db s') = total (db s)"
proof -
  let ?s4 = "snd (reverse_credit sx sd s3)"
  obtain a h where 1: "ledger_of (db s) (sd_winner sd) = Some (a, h)" "c \<le> h" "in_range h"
      "ledger_of (db s1) = (ledger_of (db s))(sd_winner sd \<mapsto> (a, h - c))"
      "total (db s1) = total (db s) - c" "schema_ok (db s1)" "faults s1 = []"
    by (rule charge_books [OF assms(1,5-8)])
  obtain b g where 2: "ledger_of (db s1) (sd_seller sd) = Some (b, g)" "0 \<le> b"
      "ledger_of (db s2) = (ledger_of (db s1))(sd_seller sd \<mapsto> (b + c, g))"
      "total (db s2) = total (db s1) + c" "schema_ok (db s2)" "faults s2 = []"
    by (rule credit_books [OF assms(2) 1(7,6) assms(7,8)])
  note f = freed_release_holds [OF assms(3) [unfolded release_losers_def] 2(5)]
  have q: "faults s3 = []" by (rule quietD [OF quiet_release_holds 2(6) assms(3) [unfolded release_losers_def]])
  have "ledger_of (db s2) (sd_seller sd) = Some (b + c, g)" using 2(3) by simp
  from freedD [OF f this] obtain b' g' where 3: "ledger_of (db s3) (sd_seller sd) = Some (b', g')" "b + c \<le> b'"
    "schema_ok (db s3)" "total (db s3) = total (db s2)" by blast
  obtain a2 h2 where "ledger_of (db s2) (sd_winner sd) = Some (a2, h2)" "h2 \<le> h - c"
    using 1(4) 2(1,3) by (cases "sd_winner sd = sd_seller sd") auto
  then obtain a' h' where 4: "ledger_of (db s3) (sd_winner sd) = Some (a', h')" "h' \<le> h - c"
    using freedD [OF f] by fastforce
  have "c \<le> b'" using 2(2) 3(2) by simp
  note 5 = uncredit_books [OF q 3(3) assms(7-9) 3(1) this refl, of sx]
  obtain a4 where 6: "ledger_of (db ?s4) (sd_winner sd) = Some (a4, h')"
    using 3(1) 4(1) 5(2) by (cases "sd_winner sd = sd_seller sd") auto
  have "0 \<le> h'" by (rule ledger_held_nonneg [OF 5(3) 6])
  with 4(2) 1(3) assms(9) have "in_range (h' + c)" "0 \<le> h' + c" by (auto simp: in_range_def)
  with uncharge_books [OF 5(4,3) assms(7,8) 6 _ _ assms(4)] 1(5) 2(4) 3(4) 5(1) show ?thesis by auto
qed

lemma publish_events_run:
  assumes "faults s = []" and "fst (sx_events sx) \<noteq> snd (sx_events sx)"
    and "fst (sx_events sx) \<notin> o_id ` set (outbox (db s))" "snd (sx_events sx) \<notin> o_id ` set (outbox (db s))"
  shows "publish_events sx sd s \<noteq> (Inl e, s')"
  using assms
  by (auto simp: publish_events_def quiet_defs sql_insert_outbox_once_def settled_event_def payment_event_def
      split: if_splits)

lemma settlement_total:
  assumes "saga_spec (settlement_saga sx (to_data_map sd)) s = (k, s')" and "faults s = []" "schema_ok (db s)"
    and "sd_amount sd = dec c" "in_range c" "0 \<le> c"
    and "fst (sx_events sx) \<noteq> snd (sx_events sx)"
    and "fst (sx_events sx) \<notin> o_id ` set (outbox (db s))" "snd (sx_events sx) \<notin> o_id ` set (outbox (db s))"
  shows "total (db s') = total (db s)"
  using assms(1)
proof (cases rule: settlement_outcomes)
  case (completed s1 s2 s3)
  have 1: "total (db s1) = total (db s) - c" "schema_ok (db s1)" "faults s1 = []"
    by (rule charge_books [OF completed(2) assms(2-5)], simp)+
  have 2: "total (db s2) = total (db s1) + c" "schema_ok (db s2)"
    by (rule credit_books [OF completed(3) 1(3,2) assms(4,5)], simp)+
  have "total (db s3) = total (db s2)"
    using freed_release_holds [OF completed(4) [unfolded release_losers_def] 2(2)] by (simp add: freed_def)
  with 1 2 publish_events_raw(1) [OF completed(5)] show ?thesis by (simp add: total_def)
next
  case (no_publish s1 s2 s3 s4 e)
  have 1: "outbox (db s1) = outbox (db s)" "schema_ok (db s1)" "faults s1 = []"
    by (rule charge_books [OF no_publish(2) assms(2-5)], simp)+
  have 2: "outbox (db s2) = outbox (db s1)" "schema_ok (db s2)" "faults s2 = []"
    by (rule credit_books [OF no_publish(3) 1(3,2) assms(4,5)], simp)+
  have "faults s3 = []" "outbox (db s3) = outbox (db s)"
    using quietD [OF quiet_release_holds 2(3) no_publish(4) [unfolded release_losers_def]]
      freed_release_holds [OF no_publish(4) [unfolded release_losers_def] 2(2)] 1(1) 2(1) by (auto simp: freed_def)
  with publish_events_run [of s3 sx sd e s4] assms(7-9) no_publish(5) show ?thesis by simp
qed (use step_errors(1) undone_no_credit(1) [OF _ _ _ assms(2-5)] undone_no_release [OF _ _ _ _ assms(2-6)] in auto)


subsection \<open>Statuses and events of a completed settlement\<close>

definition status_of :: "paydb \<Rightarrow> uuid \<Rightarrow> hold_status option" where
  "status_of d hid = map_option h_status (find (\<lambda>h. h_id h = hid) (holds d))"

lemma status_of_posted:
  "posted d d' w a h hs \<Longrightarrow> status_of d' x = map_option h_status (find (\<lambda>h. h_id h = x) hs)"
  by (simp add: posted_def status_of_def)

lemma status_of_set_status:
  "map_option h_status (find (\<lambda>h. h_id h = x) (set_status hid st hs)) =
     (if x = hid then map_option (\<lambda>_. st) (find (\<lambda>h. h_id h = x) hs)
      else map_option h_status (find (\<lambda>h. h_id h = x) hs))"
  by (cases "find (\<lambda>h. h_id h = x) hs"; cases "x = hid") (simp_all add: set_status_def find_update_where_key)

lemma released_one:
  assumes "release_one_hold sx au hid s = (Inr u, s')" and "schema_ok (db s)"
  shows "schema_ok (db s')" "status_of (db s') hid \<noteq> Some HoldActive"
    "status_of (db s) x \<noteq> Some HoldActive \<Longrightarrow> status_of (db s') x \<noteq> Some HoldActive"
proof -
  have "schema_ok (db s') \<and> status_of (db s') hid \<noteq> Some HoldActive \<and>
    (status_of (db s) x \<noteq> Some HoldActive \<longrightarrow> status_of (db s') x \<noteq> Some HoldActive)"
  proof (cases rule: release_one_hold_posted [OF assms])
    case (1 h)
    have "find (\<lambda>y. h_id y = hid) (holds (db s)) = Some h"
      using find_key_eq [OF schema_distinct(3) [OF assms(2)] 1(1)] 1(2) by simp
    with 1 assms(2) show ?thesis by (simp add: status_of_def)
  next
    case (2 h w)
    have "status_of (db s') y = (if y = hid then map_option (\<lambda>_. HoldReleased) (find (\<lambda>h. h_id h = y) (holds (db s)))
        else status_of (db s) y)" for y
      by (simp add: status_of_posted [OF 2(5)] status_of_set_status) (simp add: status_of_def)
    then show ?thesis
      using posted_schema [OF assms(2) 2(5) disjI2 [OF refl]] by auto
  qed
  then show "schema_ok (db s')" "status_of (db s') hid \<noteq> Some HoldActive"
    "status_of (db s) x \<noteq> Some HoldActive \<Longrightarrow> status_of (db s') x \<noteq> Some HoldActive" by simp_all
qed

lemma released_all:
  assumes "release_holds sx au hids s = (Inr u, s')" and "schema_ok (db s)"
    and "x \<in> set hids \<or> status_of (db s) x \<noteq> Some HoldActive"
  shows "status_of (db s') x \<noteq> Some HoldActive"
  using assms
proof (induction hids arbitrary: s)
  case (Cons hid hids)
  then obtain v s1 where r: "release_one_hold sx au hid s = (Inr v, s1)" "release_holds sx au hids s1 = (Inr u, s')"
    by (auto split: prod.splits sum.splits)
  note one = released_one [OF r(1) Cons.prems(2)]
  show ?case
    by (rule Cons.IH [OF r(2) one(1)]) (use Cons.prems(3) one(2) one(3) [of x] in auto)
qed (auto simp: ret_def)

lemma published:
  assumes "publish_events sx sd s = (Inr u, s')"
  shows "{Some (''saga:event:settled:'' @ sd_auction sd), Some (''saga:event:payment:'' @ sd_auction sd)}
    \<subseteq> o_key ` set (outbox (db s'))"
proof -
  have ins: "o_key ev \<noteq> None \<Longrightarrow> sql_insert_outbox_once ev d = Inr (d', n) \<Longrightarrow>
      o_key ` set (outbox d) \<union> {o_key ev} \<subseteq> o_key ` set (outbox d')" for ev d d' n
    by (auto simp: sql_insert_outbox_once_def split: if_splits)
  from assms obtain d1 n1 n2 where
    "sql_insert_outbox_once (settled_event sx sd) (db s) = Inr (d1, n1)"
    "sql_insert_outbox_once (payment_event sx sd) d1 = Inr (db s', n2)"
    unfolding publish_events_def by (elim step_okE exec_okE) auto
  with ins [of "settled_event sx sd"] ins [of "payment_event sx sd"] show ?thesis
    by (fastforce simp: settled_event_def payment_event_def)
qed

lemma set_status_undo:
  assumes "distinct (map h_id hs)" and "h \<in> set hs" and "h_id h = hid" and "h_status h = st"
  shows "set_status hid st (set_status hid st' hs) = hs"
proof -
  have "set_status hid st (set_status hid st' hs) = set_status hid st hs"
    by (auto simp: set_status_def update_where_def)
  also have "\<dots> = hs" unfolding set_status_def
    by (rule update_where_idle) (use assms distinct_key_unique [OF assms(1)] in fastforce)
  finally show ?thesis .
qed

subsection \<open>A sample settlement\<close>

definition demo_settlement :: settlement_data where
  "demo_settlement = \<lparr>sd_auction = ''a1'', sd_winner = ''alice'', sd_seller = ''bob'', sd_amount = dec 2500,
     sd_winner_hold = ''h1'', sd_loser_holds = [''h2'', ''h3'']\<rparr>"

definition demo_settle_draw :: settle_draw where
  "demo_settle_draw = \<lparr>sx_charge = (''x1'', ''y1''), sx_credit = (''x2'', ''y2''),
     sx_release = (\<lambda>h. (''x3'' @ h, ''y3'' @ h)), sx_events = (''e1'', ''e2''), sx_stamp = ''now'', sx_now = 5\<rparr>"

text \<open>As \<open>demo_db\<close>, with a third user who has a hold on the auction.\<close>

definition demo_auction_db :: paydb where
  "demo_auction_db = demo_db\<lparr>
     wallets := wallets demo_db @ [\<lparr>w_id = ''w3'', w_user = ''carol'', w_available = 100, w_held = 2000,
       w_currency = ''USD'', w_created = 0, w_updated = 0\<rparr>],
     holds := holds demo_db @ [\<lparr>h_id = ''h2'', h_auction = ''a1'', h_bidder = ''carol'', h_wallet = ''w3'',
       h_amount = 2000, h_status = HoldActive, h_expires = 0, h_created = 0\<rparr>]\<rparr>"

definition demo_start :: "sess ostate" where
  "demo_start = \<lparr>world = demo_sess\<lparr>db := demo_auction_db\<rparr>, saga_rows = [], step_rows = [], store_faults = []\<rparr>"

text \<open>The orchestrator on a settlement: \<open>sid\<close> and \<open>rid\<close> are the UUIDs of the saga and of its step records.\<close>

definition settle :: "settle_draw \<Rightarrow> uuid \<Rightarrow> (nat \<Rightarrow> uuid) \<Rightarrow> settlement_data \<Rightarrow> sess ostate \<Rightarrow>
    saga_err option \<times> sess ostate" where
  "settle sx sid rid sd = execute ''auction_settlement'' (sd_auction sd) sid rid (sx_now sx)
     (settlement_saga sx (to_data_map sd))"

definition demo_rid :: "nat \<Rightarrow> uuid" where "demo_rid i = replicate (Suc i) CHR ''s''"

lemma settle_spec:
  assumes "settle sx sid rid sd s = (r, s')" and "created r"
  shows "saga_spec (settlement_saga sx (to_data_map sd)) (world s) = (failed_at r, world s')"
  using assms unfolding settle_def by (rule execute_refines)

lemma demo_auction_ok:
  "db_ok demo_auction_db" "schema_ok demo_auction_db" "whole_cents (dec 2500)"
proof -
  show "db_ok demo_auction_db"
    by (simp add: demo_auction_db_def demo_db_def db_ok_def schema_ok_def books_ok_def in_range_def active_holds_def)
  then show "schema_ok demo_auction_db" by (rule db_ok_schema)
  show "whole_cents (dec 2500)" by (simp add: whole_cents_def demo_in_range)
qed

lemma demo_winner: "winner_hold HoldActive demo_settlement 2500 demo_auction_db"
  by (simp add: winner_hold_def demo_settlement_def demo_auction_db_def demo_db_def)

subsection \<open>Properties\<close>

text \<open>C7: the contract of the saga orchestrator, whatever its store does. If the records of the saga
  could not be created, no step has run. Otherwise the steps ran in order; on success none failed,
  and on a failure exactly the completed steps were compensated, the latest first.\<close>

theorem saga_contract:
  "case execute ty ref sid rid t steps s of (r, s') \<Rightarrow>
     (if created r then saga_spec steps (world s) = (failed_at r, world s') \<and> (r = None \<longleftrightarrow> failed_at r = None)
      else world s' = world s)"
proof -
  obtain r s' where x: "execute ty ref sid rid t steps s = (r, s')" by fastforce
  have "created r \<Longrightarrow> (r = None) = (failed_at r = None)"
    by (cases r rule: option.exhaust; cases "the r") (auto simp: created_def failed_at_def)
  with execute_refines [OF x] execute_not_created [OF x] x show ?thesis by simp
qed





text \<open>Compensation restores the accounts. When the seller cannot be credited, and no connection
  fault occurs, the settlement leaves the balances of every user and every hold as they were, the
  winner's hold included.\<close>

theorem settlement_undone:
  assumes "settle sx sid rid sd s = (r, s')" and "failed_at r = Some 1"
    and "faults (world s) = []" and "schema_ok (db (world s))" and "sd_amount sd = dec c" "in_range c"
    and "winner_hold HoldActive sd c (db (world s))"
  shows "ledger_of (db (world s')) = ledger_of (db (world s)) \<and> holds (db (world s')) = holds (db (world s))"
proof -
  have "created r" using assms(2) by (auto simp: failed_at_def created_def)
  from settle_spec [OF assms(1) this] assms(2)
  have "saga_spec (settlement_saga sx (to_data_map sd)) (world s) = (Some 1, world s')" by simp
  then show ?thesis
  proof (cases rule: settlement_outcomes)
    case (no_credit s1 s2 e)
    have "holds (db s1) = set_status (sd_winner_hold sd) HoldCharged (holds (db (world s)))"
      by (rule charge_winner_posted [OF no_credit(2) assms(4-6)]) (simp add: posted_def)
    moreover obtain h where "h \<in> set (holds (db (world s)))" "h_id h = sd_winner_hold sd" "h_status h = HoldActive"
      using assms(7) by (auto simp: winner_hold_def)
    ultimately show ?thesis
      using undone_no_credit [OF no_credit(2-4) assms(3-6)] set_status_undo [OF schema_distinct(3) [OF assms(4)]]
      by simp
  qed auto
qed

theorem settlement_undone_witness:
  "ledger_of (db (world (snd (settle demo_settle_draw ''g'' demo_rid (demo_settlement\<lparr>sd_seller := ''nobody''\<rparr>) demo_start))))
     = ledger_of demo_auction_db"
proof -
  let ?sd = "demo_settlement\<lparr>sd_seller := ''nobody''\<rparr>"
  have f: "failed_at (fst (settle demo_settle_draw ''g'' demo_rid ?sd demo_start)) = Some 1" by code_simp
  have w: "winner_hold HoldActive ?sd 2500 demo_auction_db"
    using demo_winner by (simp add: winner_hold_def)
  show ?thesis
    using settlement_undone [OF prod.collapse [symmetric] f, of 2500] demo_auction_ok w
    by (simp add: demo_start_def demo_sess_def demo_settlement_def demo_in_range)
qed

text \<open>C8: what a completed settlement has done, under any faults it survived: it conserved the money,
  the winner's hold is charged, no loser's hold is active, and both events are in the outbox.\<close>

theorem settlement_completed:
  assumes "settle sx sid rid sd s = (None, s')"
    and "db_ok (db (world s))" and "whole_cents (sd_amount sd)"
    and "winner_hold HoldActive sd (cents (sd_amount sd)) (db (world s))"
  shows "winner_hold HoldCharged sd (cents (sd_amount sd)) (db (world s'))
    \<and> (\<forall>x \<in> set (sd_loser_holds sd). status_of (db (world s')) x \<noteq> Some HoldActive)
    \<and> {Some (''saga:event:settled:'' @ sd_auction sd), Some (''saga:event:payment:'' @ sd_auction sd)}
        \<subseteq> o_key ` set (outbox (db (world s')))"
proof -
  note c = whole_centsD [OF assms(3)]
  have "saga_spec (settlement_saga sx (to_data_map sd)) (world s) = (None, world s')"
    using settle_spec [OF assms(1)] by (simp add: created_def failed_at_def)
  then show ?thesis
  proof (cases rule: settlement_outcomes)
    case (completed s1 s2 s3)
    have "phase HoldCharged sd (cents (sd_amount sd)) s1"
      using phase_charge [OF completed(2) _ c [THEN conjunct1] c [THEN conjunct2]] assms by (simp add: phase_def)
    from phase_credit(1) [OF this c [THEN conjunct1] c [THEN conjunct2], of sx] completed(3)
    have 2: "phase HoldCharged sd (cents (sd_amount sd)) s2" by simp
    from phase_release_holds [OF this, of sx "sd_auction sd" "sd_loser_holds sd"] completed(4)
    have "phase HoldCharged sd (cents (sd_amount sd)) s3" by (simp add: release_losers_def)
    from phase_publish [OF this, of sx] completed(5)
    have "phase HoldCharged sd (cents (sd_amount sd)) (world s')" by simp
    moreover have "\<forall>x \<in> set (sd_loser_holds sd). status_of (db (world s')) x \<noteq> Some HoldActive"
      using released_all [OF completed(4) [unfolded release_losers_def]] 2 publish_events_raw(2) [OF completed(5)]
      by (auto simp: phase_def db_ok_def status_of_def)
    ultimately show ?thesis using published [OF completed(5)] by (simp add: phase_def)
  qed auto
qed

theorem settlement_completed_witness:
  "status_of (db (world (snd (settle demo_settle_draw ''g'' demo_rid (demo_settlement\<lparr>sd_loser_holds := [''h2'']\<rparr>) demo_start))))
     ''h2'' \<noteq> Some HoldActive"
proof -
  let ?sd = "demo_settlement\<lparr>sd_loser_holds := [''h2'']\<rparr>"
  have n: "fst (settle demo_settle_draw ''g'' demo_rid ?sd demo_start) = None" by code_simp
  have w: "winner_hold HoldActive ?sd 2500 demo_auction_db"
    using demo_winner by (simp add: winner_hold_def)
  have "settle demo_settle_draw ''g'' demo_rid ?sd demo_start =
      (None, snd (settle demo_settle_draw ''g'' demo_rid ?sd demo_start))" using n by (simp add: prod_eq_iff)
  from settlement_completed [OF this] demo_auction_ok w show ?thesis
    by (simp add: demo_start_def demo_sess_def demo_settlement_def demo_in_range)
qed

text \<open>The charge step is not idempotent. It does not look at the status of the winner's hold, and
  its audit insert skips a key that is already there: run again on a hold that is already charged,
  it takes the amount a second time out of whatever else the winner has on hold.\<close>

theorem charge_winner_repeats:
  assumes "faults s = []" and "schema_ok (db s)" and "sd_amount sd = dec c" "in_range c" "0 \<le> c"
    and "winner_hold HoldCharged sd c (db s)"
    and "ledger_of (db s) (sd_winner sd) = Some (a, h)" "c \<le> h" "h < 10 ^ 12"
    and "fst (sx_charge sx) \<notin> wt_id ` set (wtxns (db s))"
  shows "\<exists>s'. charge_winner sx sd s = (Inr (), s') \<and> ledger_of (db s') (sd_winner sd) = Some (a, h - c)
    \<and> winner_hold HoldCharged sd c (db s')"
proof -
  obtain s' where x: "charge_winner sx sd s = (Inr (), s')"
    using charge_winner_run [OF assms(1-4) assms(7,5,8-10)] by blast
  have "ledger_of (db s') (sd_winner sd) = Some (a, h - c)"
    by (rule charge_books [OF x assms(1-4)]) (use assms(7) in auto)
  moreover have "winner_hold HoldCharged sd c (db s')"
    by (rule charge_winner_posted [OF x assms(2-4)]) (use assms(6) in \<open>auto intro: winner_hold_changed\<close>)
  ultimately show ?thesis using x by blast
qed

definition demo_charged_db :: paydb where
  "demo_charged_db = demo_auction_db\<lparr>wallets := [\<lparr>w_id = ''w1'', w_user = ''alice'', w_available = 10000,
     w_held = 4000, w_currency = ''USD'', w_created = 0, w_updated = 0\<rparr>],
     holds := [\<lparr>h_id = ''h1'', h_auction = ''a1'', h_bidder = ''alice'', h_wallet = ''w1'',
        h_amount = 2500, h_status = HoldCharged, h_expires = 0, h_created = 0\<rparr>,
      \<lparr>h_id = ''h9'', h_auction = ''a9'', h_bidder = ''alice'', h_wallet = ''w1'',
        h_amount = 4000, h_status = HoldActive, h_expires = 0, h_created = 0\<rparr>]\<rparr>"

theorem charge_winner_repeats_witness:
  "\<exists>s'. charge_winner demo_settle_draw demo_settlement (demo_sess\<lparr>db := demo_charged_db\<rparr>) = (Inr (), s') \<and>
     ledger_of (db s') ''alice'' = Some (10000, 1500)"
proof -
  let ?s = "demo_sess\<lparr>db := demo_charged_db\<rparr>"
  have "schema_ok (db ?s)"
    by (simp add: demo_charged_db_def demo_auction_db_def demo_db_def schema_ok_def in_range_def)
  moreover have "winner_hold HoldCharged demo_settlement 2500 (db ?s)"
    by (simp add: winner_hold_def demo_settlement_def demo_charged_db_def)
  moreover have "ledger_of (db ?s) (sd_winner demo_settlement) = Some (10000, 4000)" by code_simp
  moreover have "faults ?s = []" "sd_amount demo_settlement = dec 2500" "sd_winner demo_settlement = ''alice''"
      "fst (sx_charge demo_settle_draw) \<notin> wt_id ` set (wtxns (db ?s))"
    by (simp_all add: demo_sess_def demo_settlement_def demo_charged_db_def demo_auction_db_def demo_db_def)
  ultimately have "\<exists>s'. charge_winner demo_settle_draw demo_settlement ?s = (Inr (), s') \<and>
      ledger_of (db s') (sd_winner demo_settlement) = Some (10000, 4000 - 2500) \<and>
      winner_hold HoldCharged demo_settlement 2500 (db s')"
    by (intro charge_winner_repeats) (use demo_in_range in simp_all)
  then show ?thesis by (auto simp: demo_settlement_def)
qed

text \<open>A release that fails half way is not undone. The losers' holds are released one transaction
  each; when a later one fails, the compensation starts at the step before, so the holds already
  released stay released although the winner's charge and the seller's credit are taken back.\<close>

theorem partial_release_stays:
  "case settle demo_settle_draw ''g'' demo_rid demo_settlement demo_start of (r, s') \<Rightarrow>
     failed_at r = Some 2 \<and> status_of (db (world s')) ''h1'' = Some HoldActive \<and>
     status_of (db (world s')) ''h2'' = Some HoldReleased \<and>
     ledger_of (db (world s')) ''alice'' = Some (10000, 2500) \<and>
     ledger_of (db (world s')) ''bob'' = Some (500, 0) \<and>
     ledger_of (db (world s')) ''carol'' = Some (2100, 0)"
  by code_simp

end
