(* ===== verification/LegacyWallet.thy ===== *)
theory LegacyWallet
  imports SettlementPhases
begin

text \<open>
  The first wallet service of the payment service, still wired to its HTTP handlers
  (\<^verbatim>\<open>internal/service/wallet_service.go\<close> over \<^verbatim>\<open>internal/repository/*.go\<close>): deposit, hold,
  release, and the settlement of an auction. It records operations in \<^verbatim>\<open>transactions\<close> and writes
  its events to the outbox in the same transaction. The errors of some statements are dropped; in
  PostgreSQL such an error aborts the transaction, so the commit fails.

  Names that \<^verbatim>\<open>WalletRepo\<close> also has carry the suffix \<open>_r\<close>.
\<close>

subsection \<open>The repository\<close>

record txn_draw =
  td_txn :: uuid
  td_hold :: uuid
  td_event :: uuid
  td_now :: time

definition scan_txn :: "int transaction \<Rightarrow> float64 transaction" where
  "scan_txn t = \<lparr>t_id = t_id t, t_wallet = t_wallet t, t_type = t_type t, t_amount = dec (t_amount t),
     t_ref = t_ref t, t_key = t_key t, t_status = t_status t, t_metadata = t_metadata t, t_created = t_created t\<rparr>"

definition get_by_idempotency_key :: "string \<Rightarrow> (db_error, float64 transaction) goop" where
  "get_by_idempotency_key key = pool_query (\<lambda>d. map_option scan_txn (find (\<lambda>t. t_key t = key) (txns d)))"

definition get_wallet_for_update_r :: "uuid \<Rightarrow> (db_error, float64 wallet) goop" where
  "get_wallet_for_update_r u = query_row (\<lambda>d. map_option scan_wallet (find (\<lambda>r. w_user r = u) (wallets d)))"

definition update_balance_r :: "uuid \<Rightarrow> float64 \<Rightarrow> float64 \<Rightarrow> time \<Rightarrow> (db_error, nat) goop" where
  "update_balance_r wid av hl t = exec (sql_update_balance wid av hl t)"

text \<open>\<^verbatim>\<open>available_balance + $1\<close> is computed in \<^verbatim>\<open>NUMERIC\<close>, exactly, and rounded when stored.\<close>

definition sql_deposit :: "uuid \<Rightarrow> float64 \<Rightarrow> time \<Rightarrow> update" where
  "sql_deposit wid x t d =
     (case find (\<lambda>r. w_id r = wid) (wallets d) of
        None \<Rightarrow> Inr (d, 0)
      | Some w \<Rightarrow>
         (case num_cast 15 (of_int (w_available w) / 100 + x) of
            None \<Rightarrow> Inl NumericOverflow
          | Some c \<Rightarrow> if c < 0 then Inl CheckViolation
              else Inr (d\<lparr>wallets := update_where (\<lambda>r. w_id r = wid)
                           (\<lambda>r. r\<lparr>w_available := c, w_updated := t\<rparr>) (wallets d)\<rparr>, 1)))"

definition deposit_r :: "uuid \<Rightarrow> float64 \<Rightarrow> time \<Rightarrow> (db_error, nat) goop" where
  "deposit_r wid x t = exec (sql_deposit wid x t)"

definition create_hold_r :: "float64 bid_hold \<Rightarrow> (db_error, nat) goop" where
  "create_hold_r h = exec (sql_insert_hold h)"

definition update_hold_status_r :: "uuid \<Rightarrow> hold_status \<Rightarrow> (db_error, nat) goop" where
  "update_hold_status_r hid st = exec (sql_update_hold_status hid st)"

definition get_active_hold_r :: "uuid \<Rightarrow> uuid \<Rightarrow> (db_error, float64 bid_hold) goop" where
  "get_active_hold_r au bidder = pool_query (\<lambda>d. map_option scan_hold
     (find (\<lambda>h. h_auction h = au \<and> h_bidder h = bidder \<and> h_status h = HoldActive) (holds d)))"

definition get_active_holds_by_auction :: "uuid \<Rightarrow> (db_error, float64 bid_hold list) goop" where
  "get_active_holds_by_auction au = pool_query (\<lambda>d. Some (map scan_hold
     (filter (\<lambda>h. h_auction h = au \<and> h_status h = HoldActive) (holds d))))"

definition sql_insert_txn :: "float64 transaction \<Rightarrow> update" where
  "sql_insert_txn t d =
     (case num_cast 15 (t_amount t) of
        None \<Rightarrow> Inl NumericOverflow
      | Some am \<Rightarrow>
          (if am \<le> 0 then Inl CheckViolation
           else if t_key t \<in> t_key ` set (txns d) then Inr (d, 0)
           else if t_id t \<in> t_id ` set (txns d) then Inl UniqueViolation
           else if t_wallet t \<notin> w_id ` set (wallets d) then Inl ForeignKeyViolation
           else Inr (d\<lparr>txns := txns d @ [\<lparr>t_id = t_id t, t_wallet = t_wallet t, t_type = t_type t, t_amount = am,
             t_ref = t_ref t, t_key = t_key t, t_status = t_status t, t_metadata = t_metadata t,
             t_created = t_created t\<rparr>]\<rparr>, 1)))"

definition create_transaction_r :: "float64 transaction \<Rightarrow> (db_error, nat) goop" where
  "create_transaction_r t = exec (sql_insert_txn t)"

definition sql_insert_outbox :: "outbox_event \<Rightarrow> update" where
  "sql_insert_outbox ev d =
     (if o_id ev \<in> o_id ` set (outbox d) \<or> (o_key ev \<noteq> None \<and> o_key ev \<in> o_key ` set (outbox d))
      then Inl UniqueViolation
      else Inr (d\<lparr>outbox := outbox d @ [ev\<lparr>o_processed := o_published ev \<noteq> None\<rparr>]\<rparr>, 1))"

definition insert_outbox_event :: "outbox_event \<Rightarrow> (db_error, nat) goop" where
  "insert_outbox_event ev = exec (sql_insert_outbox ev)"

subsection \<open>The service\<close>

datatype pay_err = PErrInsufficientBalance | PErrWalletNotFound | PErrHoldNotFound
  | PErrBegin db_error | PErrStatement db_error | PErrCommit db_error | PErrGetHolds db_error

definition completed_txn :: "txn_draw \<Rightarrow> uuid \<Rightarrow> txn_type \<Rightarrow> float64 \<Rightarrow> uuid option \<Rightarrow> string \<Rightarrow> json \<Rightarrow> float64 transaction" where
  "completed_txn dr wid ty amount ref key meta =
     \<lparr>t_id = td_txn dr, t_wallet = wid, t_type = ty, t_amount = amount, t_ref = ref, t_key = key,
      t_status = TxCompleted, t_metadata = meta, t_created = td_now dr\<rparr>"

definition new_event :: "txn_draw \<Rightarrow> string \<Rightarrow> uuid \<Rightarrow> string \<Rightarrow> json \<Rightarrow> outbox_event" where
  "new_event dr agg aid ty payload =
     \<lparr>o_id = td_event dr, o_agg_type = agg, o_agg_id = aid, o_event = ty, o_payload = payload, o_key = None,
      o_created = td_now dr, o_published = None, o_retry = 0, o_last_error = None, o_processed = False\<rparr>"

definition deposit :: "txn_draw \<Rightarrow> uuid \<Rightarrow> float64 \<Rightarrow> string \<Rightarrow> (pay_err, float64 transaction) goop" where
  "deposit dr user amount key s =
     (case get_by_idempotency_key key s of
        (Inr t, s') \<Rightarrow> (Inr t, s')
      | (Inl _, s') \<Rightarrow>
          with_tx PErrBegin PErrCommit
            (andthen (on_err (\<lambda>_. PErrWalletNotFound) (get_wallet_for_update_r user)) (\<lambda>w.
             let txn = completed_txn dr (w_id w) TxDeposit amount None key [(''user_id'', JStr user)] in
             andthen (on_err PErrStatement (deposit_r (w_id w) amount (td_now dr))) (\<lambda>_.
             andthen (on_err PErrStatement (create_transaction_r txn)) (\<lambda>_.
             andthen (on_err PErrStatement (insert_outbox_event (new_event dr ''wallet'' (w_id w) ''wallet.deposited''
               [(''wallet_id'', JStr (w_id w)), (''amount'', JNum amount), (''user_id'', JStr user)]))) (\<lambda>_.
             ret txn))))) s')"

definition hold_balance :: "txn_draw \<Rightarrow> uuid \<Rightarrow> uuid \<Rightarrow> float64 \<Rightarrow> string \<Rightarrow> (pay_err, unit) goop" where
  "hold_balance dr user au amount key s =
     (case get_by_idempotency_key key s of
        (Inr _, s') \<Rightarrow> (Inr (), s')
      | (Inl _, s') \<Rightarrow>
          with_tx PErrBegin PErrCommit
            (andthen (on_err (\<lambda>_. PErrWalletNotFound) (get_wallet_for_update_r user)) (\<lambda>w.
             if w_available w < amount then fail PErrInsufficientBalance
             else andthen (on_err PErrStatement (update_balance_r (w_id w) (fsub (w_available w) amount)
                 (fadd (w_held w) amount) (td_now dr))) (\<lambda>_.
               andthen (on_err PErrStatement (create_hold_r
                 \<lparr>h_id = td_hold dr, h_auction = au, h_bidder = user, h_wallet = w_id w, h_amount = amount,
                  h_status = HoldActive, h_expires = td_now dr + 48 * hour, h_created = td_now dr\<rparr>)) (\<lambda>_.
               andthen (on_err PErrStatement (create_transaction_r (completed_txn dr (w_id w) TxHold amount
                 (Some (td_hold dr)) key [(''auction_id'', JStr au), (''hold_id'', JStr (td_hold dr))]))) (\<lambda>_.
               ignoring (insert_outbox_event (new_event dr ''hold'' (td_hold dr) ''balance.held''
                 [(''hold_id'', JStr (td_hold dr)), (''auction_id'', JStr au), (''bidder_id'', JStr user),
                  (''amount'', JNum amount)]))))))) s')"

definition release_hold :: "txn_draw \<Rightarrow> uuid \<Rightarrow> string \<Rightarrow> (pay_err, unit) goop" where
  "release_hold dr hid key s =
     (case get_by_idempotency_key key s of
        (Inr _, s') \<Rightarrow> (Inr (), s')
      | (Inl _, s') \<Rightarrow>
          with_tx PErrBegin PErrCommit
            (andthen (ignoring (get_active_hold_r '''' '''')) (\<lambda>_.
             andthen (on_err (\<lambda>_. PErrHoldNotFound) (get_active_hold_for_update hid)) (\<lambda>h.
             andthen (on_err PErrStatement (get_wallet_for_update_r (h_bidder h))) (\<lambda>w.
             andthen (on_err PErrStatement (update_balance_r (w_id w) (fadd (w_available w) (h_amount h))
                 (fsub (w_held w) (h_amount h)) (td_now dr))) (\<lambda>_.
             andthen (on_err PErrStatement (update_hold_status_r hid HoldReleased)) (\<lambda>_.
             andthen (ignoring (create_transaction_r (completed_txn dr (w_id w) TxRelease (h_amount h)
                 (Some hid) key [(''hold_id'', JStr hid), (''auction_id'', JStr (h_auction h))]))) (\<lambda>_.
             ignoring (insert_outbox_event (new_event dr ''hold'' hid ''balance.refunded''
                 [(''hold_id'', JStr hid), (''bidder_id'', JStr (h_bidder h)), (''amount'', JNum (h_amount h))]))))))))) s')"

definition charge_hold :: "txn_draw \<Rightarrow> float64 bid_hold \<Rightarrow> (pay_err, unit) goop" where
  "charge_hold dr h =
     with_tx PErrBegin PErrCommit
       (andthen (on_err PErrStatement (get_wallet_for_update_r (h_bidder h))) (\<lambda>w.
        andthen (on_err PErrStatement (update_balance_r (w_id w) (w_available w)
            (fsub (w_held w) (h_amount h)) (td_now dr))) (\<lambda>_.
        andthen (on_err PErrStatement (update_hold_status_r (h_id h) HoldCharged)) (\<lambda>_.
        andthen (ignoring (create_transaction_r (completed_txn dr (w_id w) TxCharge (h_amount h) (Some (h_id h))
            (''charge:'' @ h_auction h @ '':'' @ h_bidder h)
            [(''auction_id'', JStr (h_auction h)), (''hold_id'', JStr (h_id h))]))) (\<lambda>_.
        ignoring (insert_outbox_event (new_event dr ''payment'' (h_id h) ''payment.settled''
            [(''auction_id'', JStr (h_auction h)), (''winner_id'', JStr (h_bidder h)), (''amount'', JNum (h_amount h))])))))))"

fun settle_holds :: "(uuid \<Rightarrow> txn_draw) \<Rightarrow> uuid \<Rightarrow> uuid \<Rightarrow> float64 bid_hold list \<Rightarrow> (pay_err, unit) goop" where
  "settle_holds dr au winner [] = ret ()"
| "settle_holds dr au winner (h # hs) =
     (if h_bidder h = winner
      then andthen (charge_hold (dr (h_id h)) h) (\<lambda>_. settle_holds dr au winner hs)
      else (\<lambda>s. settle_holds dr au winner hs
             (snd (release_hold (dr (h_id h)) (h_id h) (''refund:'' @ au @ '':'' @ h_bidder h) s))))"

definition settle_auction :: "(uuid \<Rightarrow> txn_draw) \<Rightarrow> uuid \<Rightarrow> uuid \<Rightarrow> (pay_err, unit) goop" where
  "settle_auction dr au winner =
     andthen (on_err PErrGetHolds (get_active_holds_by_auction au)) (settle_holds dr au winner)"


subsection \<open>Effects\<close>

lemma ignoring_exec_okE:
  assumes "ignoring (exec f) s = (Inr u, s')"
  obtains (aborts) "aborted s'" | (executed) d n where "f (db s) = Inr (d, n)" "db s' = d" "\<not> aborted s"
  using assms
  by (cases "f (db s)") (auto simp: ignoring_def exec_def split: if_splits prod.splits)

lemma ignoring_pool_query_okE:
  assumes "ignoring (pool_query q) s = (Inr u, s')"
  obtains "db s' = db s" "aborted s' = aborted s"
  using assms by (auto simp: ignoring_def pool_query_def split: if_splits option.splits)

lemma insert_txn_effect:
  "sql_insert_txn t d = Inr (d', n) \<Longrightarrow> \<exists>ts. d' = d\<lparr>txns := ts\<rparr>"
  by (auto simp: sql_insert_txn_def split: if_splits option.splits intro: exI [of _ "txns d"])

lemma insert_outbox_effect:
  "sql_insert_outbox ev d = Inr (d', n) \<Longrightarrow> \<exists>es. d' = d\<lparr>outbox := es\<rparr>"
  by (auto simp: sql_insert_outbox_def split: if_splits)

text \<open>\<open>books_eq d d'\<close>: the tables that carry the money are the same.\<close>

definition books_eq :: "paydb \<Rightarrow> paydb \<Rightarrow> bool" where
  "books_eq d d' \<longleftrightarrow> wallets d' = wallets d \<and> holds d' = holds d \<and> wtxns d' = wtxns d"

lemma books_eq_inserts:
  "sql_insert_txn t d = Inr (d', n) \<Longrightarrow> books_eq d d'"
  "sql_insert_outbox ev d = Inr (d', n) \<Longrightarrow> books_eq d d'"
  by (auto dest!: insert_txn_effect insert_outbox_effect simp: books_eq_def)

lemma exec_txn_okE:
  assumes "create_transaction_r t s = (Inr u, s')"
  obtains "books_eq (db s) (db s')"
  using assms unfolding create_transaction_r_def by (rule exec_okE) (use that books_eq_inserts(1) in auto)

lemma exec_outbox_okE:
  assumes "insert_outbox_event ev s = (Inr u, s')"
  obtains "books_eq (db s) (db s')"
  using assms unfolding insert_outbox_event_def by (rule exec_okE) (use that books_eq_inserts(2) in auto)

lemma ignoring_txn_okE:
  assumes "ignoring (create_transaction_r t) s = (Inr u, s')"
  obtains (aborts) "aborted s'" | (executed) "books_eq (db s) (db s')" "\<not> aborted s"
  using assms unfolding create_transaction_r_def
  by (rule ignoring_exec_okE) (use that books_eq_inserts(1) in auto)

lemma ignoring_outbox_okE:
  assumes "ignoring (insert_outbox_event ev) s = (Inr u, s')"
  obtains (aborts) "aborted s'" | (executed) "books_eq (db s) (db s')" "\<not> aborted s"
  using assms unfolding insert_outbox_event_def
  by (rule ignoring_exec_okE) (use that books_eq_inserts(2) in auto)

lemma ignoring_hold_okE:
  assumes "ignoring (get_active_hold_r a b) s = (Inr u, s')"
  obtains "db s' = db s" "aborted s' = aborted s"
  using assms unfolding get_active_hold_r_def by (rule ignoring_pool_query_okE) (rule that)

lemma get_wallet_r_okE:
  assumes "get_wallet_for_update_r u s = (Inr w, s')"
  obtains r where "find (\<lambda>x. w_user x = u) (wallets (db s)) = Some r" and "w = scan_wallet r" and "db s' = db s"
  using assms unfolding get_wallet_for_update_r_def by (rule query_find_okE) (use that in auto)

lemma update_balance_r_okE:
  assumes "update_balance_r wid a h t s = (Inr u, s')"
  obtains d where "sql_update_balance wid a h t (db s) = Inr (d, u)" and "db s' = d"
  using assms unfolding update_balance_r_def by (rule exec_update_balance_okE)

lemma deposit_r_okE:
  assumes "deposit_r wid x t s = (Inr u, s')"
  obtains d where "sql_deposit wid x t (db s) = Inr (d, u)" and "db s' = d"
  using assms unfolding deposit_r_def by (rule exec_okE) (use that in auto)

lemma create_hold_r_okE:
  assumes "create_hold_r h s = (Inr u, s')"
  obtains d where "sql_insert_hold h (db s) = Inr (d, u)" and "db s' = d"
  using assms unfolding create_hold_r_def by (rule exec_okE) (use that in auto)

lemma update_hold_status_r_okE:
  assumes "update_hold_status_r hid st s = (Inr u, s')"
  obtains "db s' = (db s)\<lparr>holds := set_status hid st (holds (db s))\<rparr>"
  using assms unfolding update_hold_status_r_def set_status_def by (rule exec_hold_status_okE)

lemmas legacy_okE = ret_okE guard_okE with_tx_okE andthen_okE on_err_okE exec_txn_okE exec_outbox_okE
  ignoring_txn_okE ignoring_outbox_okE ignoring_hold_okE get_wallet_r_okE update_balance_r_okE deposit_r_okE
  create_hold_r_okE update_hold_status_r_okE get_active_hold_okE

lemma books_eq_trans: "books_eq d d1 \<Longrightarrow> books_eq d1 d2 \<Longrightarrow> books_eq d d2"
  by (simp add: books_eq_def)

lemma charge_hold_raw:
  assumes "charge_hold dr h s = (Inr u, s')"
  shows "\<exists>w d n. find (\<lambda>x. w_user x = h_bidder h) (wallets (db s)) = Some w
    \<and> sql_update_balance (w_id w) (dec (w_available w)) (fsub (dec (w_held w)) (h_amount h)) (td_now dr) (db s) = Inr (d, n)
    \<and> books_eq (d\<lparr>holds := set_status (h_id h) HoldCharged (holds d)\<rparr>) (db s')"
  using assms unfolding charge_hold_def
  by (elim legacy_okE) (auto intro: books_eq_trans)


lemma key_cases:
  obtains (known) t s1 where "get_by_idempotency_key key s = (Inr t, s1)" "db s1 = db s"
    | (fresh) e s1 where "get_by_idempotency_key key s = (Inl e, s1)" "db s1 = db s"
  by (cases "next_fault s"; cases "find (\<lambda>t. t_key t = key) (txns (db s))")
    (auto simp: get_by_idempotency_key_def pool_query_def)

lemma release_hold_raw:
  assumes "release_hold dr hid key s = (Inr u, s')"
  shows "db s' = db s \<or> (\<exists>h w d n. find (\<lambda>x. h_id x = hid \<and> h_status x = HoldActive) (holds (db s)) = Some h
    \<and> find (\<lambda>x. w_user x = h_bidder h) (wallets (db s)) = Some w
    \<and> sql_update_balance (w_id w) (fadd (dec (w_available w)) (dec (h_amount h)))
        (fsub (dec (w_held w)) (dec (h_amount h))) (td_now dr) (db s) = Inr (d, n)
    \<and> books_eq (d\<lparr>holds := set_status hid HoldReleased (holds d)\<rparr>) (db s'))"
proof (cases rule: key_cases [of key s])
  case (known t s1)
  with assms show ?thesis by (simp add: release_hold_def)
next
  case (fresh e s1)
  from assms show ?thesis unfolding release_hold_def fresh(1) prod.case sum.case
    by (elim legacy_okE) (auto simp: fresh(2) intro: books_eq_trans)
qed

lemma hold_balance_raw:
  assumes "hold_balance dr user au amount key s = (Inr u, s')"
  shows "db s' = db s \<or> (\<exists>w d n d2 m. find (\<lambda>x. w_user x = user) (wallets (db s)) = Some w
    \<and> \<not> dec (w_available w) < amount
    \<and> sql_update_balance (w_id w) (fsub (dec (w_available w)) amount) (fadd (dec (w_held w)) amount) (td_now dr) (db s) = Inr (d, n)
    \<and> sql_insert_hold \<lparr>h_id = td_hold dr, h_auction = au, h_bidder = user, h_wallet = w_id w, h_amount = amount,
        h_status = HoldActive, h_expires = td_now dr + 48 * hour, h_created = td_now dr\<rparr> d = Inr (d2, m)
    \<and> books_eq d2 (db s'))"
proof (cases rule: key_cases [of key s])
  case (known t s1)
  with assms show ?thesis by (simp add: hold_balance_def)
next
  case (fresh e s1)
  from assms show ?thesis unfolding hold_balance_def fresh(1) prod.case sum.case
    by (elim legacy_okE) (auto simp: fresh(2) intro: books_eq_trans)
qed

lemma deposit_raw:
  assumes "deposit dr user amount key s = (Inr u, s')"
  shows "db s' = db s \<or> (\<exists>w d n. find (\<lambda>x. w_user x = user) (wallets (db s)) = Some w
    \<and> sql_deposit (w_id w) amount (td_now dr) (db s) = Inr (d, n) \<and> books_eq d (db s'))"
proof (cases rule: key_cases [of key s])
  case (known t s1)
  with assms show ?thesis by (simp add: deposit_def)
next
  case (fresh e s1)
  from assms show ?thesis unfolding deposit_def Let_def fresh(1) prod.case sum.case
    by (elim legacy_okE) (auto simp: fresh(2) intro: books_eq_trans)
qed

lemma legacy_errors:
  "deposit dr user amount key s = (Inl e, s') \<Longrightarrow> db s' = db s"
  "hold_balance dr user au amount key s = (Inl e, s') \<Longrightarrow> db s' = db s"
  "release_hold dr hid key s = (Inl e, s') \<Longrightarrow> db s' = db s"
  "charge_hold dr h s = (Inl e, s') \<Longrightarrow> db s' = db s"
  by (cases rule: key_cases [of key s];
      force simp: deposit_def hold_balance_def release_hold_def charge_hold_def dest: with_tx_error)+

subsection \<open>The invariant\<close>

text \<open>Besides schema and books: a hold is booked on the wallet of its bidder.\<close>

definition owned :: "paydb \<Rightarrow> bool" where
  "owned d \<longleftrightarrow> (\<forall>h \<in> set (holds d). \<exists>w \<in> set (wallets d). w_id w = h_wallet h \<and> w_user w = h_bidder h)"

definition pay_ok :: "paydb \<Rightarrow> bool" where
  "pay_ok d \<longleftrightarrow> db_ok d \<and> owned d"

lemma books_eq_cong:
  assumes "books_eq d d'"
  shows "pay_ok d' \<longleftrightarrow> pay_ok d" "schema_ok d' \<longleftrightarrow> schema_ok d" "total d' = total d" "ledger_of d' = ledger_of d"
  using assms
  by (simp_all only: pay_ok_def db_ok_def schema_ok_def books_ok_def owned_def total_def ledger_of_def books_eq_def)
    (simp add: ledger_of_def fun_eq_iff)


lemma posted_owned:
  assumes "owned d" and "posted d d' w a h hs"
    and "\<And>x. x \<in> set hs \<Longrightarrow> (\<exists>y \<in> set (holds d). h_wallet x = h_wallet y \<and> h_bidder x = h_bidder y) \<or>
      h_wallet x = w_id w \<and> h_bidder x = w_user w"
  shows "owned d'"
  unfolding owned_def
proof
  fix x
  assume "x \<in> set (holds d')"
  then have "x \<in> set hs" using assms(2) by (simp add: posted_def)
  from assms(3) [OF this] obtain q where "q \<in> set (wallets d)" "w_id q = h_wallet x" "w_user q = h_bidder x"
  proof
    assume "h_wallet x = w_id w \<and> h_bidder x = w_user w"
    then show thesis using that [of w] assms(2) by (simp add: posted_def)
  qed (use assms(1) that in \<open>force simp: owned_def\<close>)
  with posted_wallet_ids [OF assms(2)] show "\<exists>w \<in> set (wallets d'). w_id w = h_wallet x \<and> w_user w = h_bidder x"
    by fastforce
qed

lemma set_status_bidder:
  "x \<in> set (set_status hid st hs) \<Longrightarrow> \<exists>y \<in> set hs. h_wallet x = h_wallet y \<and> h_bidder x = h_bidder y"
  by (auto simp: set_status_def in_set_update_where)

text \<open>Closing an active hold against its bidder's wallet: the effect of a release and of a charge.\<close>

lemma pay_close:
  assumes "pay_ok d" and "h \<in> set (holds d)" "h_status h = HoldActive" "st \<noteq> HoldActive"
    and f: "find (\<lambda>x. w_user x = h_bidder h) (wallets d) = Some w"
    and u: "sql_update_balance (w_id w) x y t d = Inr (d1, n)"
    and "cents x = a" and "cents y = w_held w - h_amount h"
  shows "posted d (d1\<lparr>holds := set_status (h_id h) st (holds d1)\<rparr>) w a (w_held w - h_amount h) (set_status (h_id h) st (holds d))"
    and "pay_ok (d1\<lparr>holds := set_status (h_id h) st (holds d1)\<rparr>)"
proof -
  have ok: "db_ok d" "owned d" "schema_ok d" using assms(1) by (simp_all add: pay_ok_def db_ok_def)
  from find_SomeD [OF f] have w: "w \<in> set (wallets d)" "w_user w = h_bidder h" by auto
  then have wid: "w_id w \<in> w_id ` set (wallets d)" by simp
  from ok(2) assms(2) obtain q where "q \<in> set (wallets d)" "w_id q = h_wallet h" "w_user q = h_bidder h"
    unfolding owned_def by blast
  then have own: "w_id w = h_wallet h" using distinct_key_unique [OF schema_distinct(2) [OF ok(3)] w(1)] w(2) by metis
  show p: "posted d (d1\<lparr>holds := set_status (h_id h) st (holds d1)\<rparr>) w a (w_held w - h_amount h) (set_status (h_id h) st (holds d))"
    using update_balance_effect [OF u wid] assms(7,8) w by (auto simp: posted_def)
  from posted_db_ok_close [OF ok(1) p assms(2-4) own] posted_owned [OF ok(2) p] set_status_bidder
  show "pay_ok (d1\<lparr>holds := set_status (h_id h) st (holds d1)\<rparr>)" unfolding pay_ok_def by blast
qed

lemma release_hold_posted:
  assumes "release_hold dr hid key s = (Inr u, s')" and "pay_ok (db s)"
  obtains (replay) "db s' = db s"
  | (released) h w d where "h \<in> set (holds (db s))" "h_id h = hid" "h_status h = HoldActive"
      "posted (db s) d w (w_available w + h_amount h) (w_held w - h_amount h) (set_status hid HoldReleased (holds (db s)))"
      "w_user w = h_bidder h" "books_eq d (db s')" "pay_ok d"
proof -
  from release_hold_raw [OF assms(1)] show ?thesis
  proof (elim disjE exE conjE)
    fix h w d n
    assume h: "find (\<lambda>x. h_id x = hid \<and> h_status x = HoldActive) (holds (db s)) = Some h"
      and w: "find (\<lambda>x. w_user x = h_bidder h) (wallets (db s)) = Some w"
      and u: "sql_update_balance (w_id w) (fadd (dec (w_available w)) (dec (h_amount h)))
        (fsub (dec (w_held w)) (dec (h_amount h))) (td_now dr) (db s) = Inr (d, n)"
      and eq: "books_eq (d\<lparr>holds := set_status hid HoldReleased (holds d)\<rparr>) (db s')"
    from find_SomeD [OF h] find_SomeD [OF w] have hw: "h \<in> set (holds (db s))" "h_id h = hid" "h_status h = HoldActive"
      "w \<in> set (wallets (db s))" "w_user w = h_bidder h" by auto
    have sc: "schema_ok (db s)" using assms(2) by (simp add: pay_ok_def db_ok_def)
    have c: "cents (fadd (dec (w_available w)) (dec (h_amount h))) = w_available w + h_amount h"
      "cents (fsub (dec (w_held w)) (dec (h_amount h))) = w_held w - h_amount h"
      using schema_wallet [OF sc hw(4)] schema_hold [OF sc hw(1)] by simp_all
    note close = pay_close [OF assms(2) hw(1,3) _ w u c, of HoldReleased, unfolded hw(2)]
    show thesis by (rule released [OF hw(1-3) close(1) hw(5) eq close(2)]) simp_all
  qed (rule replay)
qed

lemma charge_hold_posted:
  assumes "charge_hold dr (scan_hold h) s = (Inr u, s')" and "pay_ok (db s)"
    and "h \<in> set (holds (db s))" "h_status h = HoldActive"
  obtains w d where "posted (db s) d w (w_available w) (w_held w - h_amount h) (set_status (h_id h) HoldCharged (holds (db s)))"
      "w_user w = h_bidder h" "books_eq d (db s')" "pay_ok d"
proof -
  from charge_hold_raw [OF assms(1)] obtain w d n where
    w: "find (\<lambda>x. w_user x = h_bidder h) (wallets (db s)) = Some w"
    and u: "sql_update_balance (w_id w) (dec (w_available w)) (fsub (dec (w_held w)) (dec (h_amount h))) (td_now dr) (db s) = Inr (d, n)"
    and eq: "books_eq (d\<lparr>holds := set_status (h_id h) HoldCharged (holds d)\<rparr>) (db s')" by auto
  from find_SomeD [OF w] have ws: "w \<in> set (wallets (db s))" "w_user w = h_bidder h" by auto
  have sc: "schema_ok (db s)" using assms(2) by (simp add: pay_ok_def db_ok_def)
  have c: "cents (dec (w_available w)) = w_available w"
    "cents (fsub (dec (w_held w)) (dec (h_amount h))) = w_held w - h_amount h"
    using schema_wallet [OF sc ws(1)] schema_hold [OF sc assms(3)] by simp_all
  note close = pay_close [OF assms(2,3,4) _ w u c, of HoldCharged]
  show thesis by (rule that [OF close(1) ws(2) eq close(2)]) simp_all
qed

lemma release_hold_keeps:
  assumes "pay_ok (db s)"
  shows "pay_ok (db (snd (release_hold dr hid key s)))"
proof (cases rule: result_cases [of "release_hold dr hid key" s])
  case (err e s')
  with legacy_errors(3) [OF err] assms show ?thesis by simp
next
  case (ok u s')
  show ?thesis
    by (rule release_hold_posted [OF ok assms]) (use ok assms books_eq_cong(1) in auto)
qed

lemma hold_balance_keeps:
  assumes "pay_ok (db s)" and "whole_cents amount"
  shows "pay_ok (db (snd (hold_balance dr user au amount key s)))"
proof (cases rule: result_cases [of "hold_balance dr user au amount key" s])
  case (err e s')
  with legacy_errors(2) [OF err] assms show ?thesis by simp
next
  case (ok u s')
  have sc: "db_ok (db s)" "schema_ok (db s)" "owned (db s)" using assms(1) by (simp_all add: pay_ok_def db_ok_def)
  note c = whole_centsD [OF assms(2)]
  from hold_balance_raw [OF ok] have "pay_ok (db s')"
  proof (elim disjE exE conjE)
    fix w :: "int wallet" and d n d2 m
    let ?row = "\<lparr>h_id = td_hold dr, h_auction = au, h_bidder = user, h_wallet = w_id w, h_amount = cents amount,
      h_status = HoldActive, h_expires = td_now dr + 48 * hour, h_created = td_now dr\<rparr>"
    assume w: "find (\<lambda>x. w_user x = user) (wallets (db s)) = Some w" and "\<not> dec (w_available w) < amount"
      and u: "sql_update_balance (w_id w) (fsub (dec (w_available w)) amount) (fadd (dec (w_held w)) amount) (td_now dr) (db s) = Inr (d, n)"
      and i: "sql_insert_hold \<lparr>h_id = td_hold dr, h_auction = au, h_bidder = user, h_wallet = w_id w, h_amount = amount,
        h_status = HoldActive, h_expires = td_now dr + 48 * hour, h_created = td_now dr\<rparr> d = Inr (d2, m)"
      and eq: "books_eq d2 (db s')"
    from find_SomeD [OF w] have ws: "w \<in> set (wallets (db s))" "w_user w = user" by auto
    note wk = schema_wallet [OF sc(2) ws(1)]
    have cc: "cents (fsub (dec (w_available w)) amount) = w_available w - cents amount"
      "cents (fadd (dec (w_held w)) amount) = w_held w + cents amount"
      using wk c by (metis cents_fsub, metis cents_fadd)
    have d: "d = (db s)\<lparr>wallets := set_wallet (w_id w) (w_available w - cents amount) (w_held w + cents amount) (td_now dr) (wallets (db s))\<rparr>"
      "0 \<le> w_available w - cents amount" "0 \<le> w_held w + cents amount"
      "in_range (w_available w - cents amount)" "in_range (w_held w + cents amount)"
      using update_balance_effect [OF u] ws(1) cc by auto
    have d2: "d2 = d\<lparr>holds := holds d @ [?row]\<rparr>" "0 < cents amount" "td_hold dr \<notin> h_id ` set (holds d)"
      using i by (auto simp: sql_insert_hold_def dest!: num_cast_SomeD split: if_splits option.splits)
    have p: "posted (db s) d2 w (w_available w - cents amount) (w_held w + cents amount) (holds (db s) @ [?row])"
      using ws d d2(1) by (auto simp: posted_def)
    have "owned d2" by (rule posted_owned [OF sc(3) p]) (use ws in auto)
    moreover have "db_ok d2"
      by (rule posted_db_ok_append [where r = ?row]) (use sc(1) p d d2 c in auto)
    ultimately show ?thesis using eq books_eq_cong(1) by (simp add: pay_ok_def)
  qed (use assms in simp)
  with ok show ?thesis by simp
qed


lemma deposit_keeps:
  assumes "pay_ok (db s)"
  shows "pay_ok (db (snd (deposit dr user amount key s)))"
proof (cases rule: result_cases [of "deposit dr user amount key" s])
  case (err e s')
  with legacy_errors(1) [OF err] assms show ?thesis by simp
next
  case (ok u s')
  have sc: "db_ok (db s)" "schema_ok (db s)" "owned (db s)" using assms(1) by (simp_all add: pay_ok_def db_ok_def)
  from deposit_raw [OF ok] have "pay_ok (db s')"
  proof (elim disjE exE conjE)
    fix w d n
    assume w: "find (\<lambda>x. w_user x = user) (wallets (db s)) = Some w"
      and u: "sql_deposit (w_id w) amount (td_now dr) (db s) = Inr (d, n)" and eq: "books_eq d (db s')"
    from find_SomeD [OF w] have ws: "w \<in> set (wallets (db s))" by auto
    have "find (\<lambda>r. w_id r = w_id w) (wallets (db s)) = Some w"
      by (rule find_key_eq [OF schema_distinct(1) [OF sc(2)] ws])
    with u only_wallet_available [OF sc(2) ws] schema_wallet [OF sc(2) ws] ws
    have p: "posted (db s) d w (cents (of_int (w_available w) / 100 + amount)) (w_held w) (holds (db s))"
      by (auto simp: sql_deposit_def posted_def dest!: num_cast_SomeD split: if_splits option.splits)
    have "owned d" by (rule posted_owned [OF sc(3) p]) auto
    with posted_db_ok_same [OF sc(1) p] eq books_eq_cong(1) show ?thesis by (simp add: pay_ok_def)
  qed (use assms in simp)
  with ok show ?thesis by simp
qed

lemma set_status_other: "x \<in> set hs \<Longrightarrow> h_id x \<noteq> hid \<Longrightarrow> x \<in> set (set_status hid st hs)"
  by (force simp: set_status_def in_set_update_where)

lemma set_status_this: "x \<in> set hs \<Longrightarrow> x\<lparr>h_status := st\<rparr> \<in> set (set_status (h_id x) st hs)"
  by (force simp: set_status_def in_set_update_where)

lemma posted_rows: "posted d d1 w a h hs \<Longrightarrow> books_eq d1 d' \<Longrightarrow> holds d' = hs"
  by (simp add: posted_def books_eq_def)

text \<open>One turn of the settlement loop.\<close>

lemma charge_turn:
  assumes "charge_hold dr (scan_hold h) s = (Inr u, s')" and "pay_ok (db s)"
    and "h \<in> set (holds (db s))" "h_status h = HoldActive"
  shows "pay_ok (db s')" "total (db s') = total (db s) - h_amount h" "h\<lparr>h_status := HoldCharged\<rparr> \<in> set (holds (db s'))"
    and "x \<in> set (holds (db s)) \<Longrightarrow> h_id x \<noteq> h_id h \<Longrightarrow> x \<in> set (holds (db s'))"
proof -
  have sc: "schema_ok (db s)" using assms(2) by (simp add: pay_ok_def db_ok_def)
  obtain w d where p: "posted (db s) d w (w_available w) (w_held w - h_amount h) (set_status (h_id h) HoldCharged (holds (db s)))"
    "books_eq d (db s')" "pay_ok d"
    by (rule charge_hold_posted [OF assms])
  show "pay_ok (db s')" "total (db s') = total (db s) - h_amount h"
    using books_eq_cong [OF p(2)] p(3) posted_total [OF sc p(1)] by simp_all
  show "h\<lparr>h_status := HoldCharged\<rparr> \<in> set (holds (db s'))"
    "x \<in> set (holds (db s)) \<Longrightarrow> h_id x \<noteq> h_id h \<Longrightarrow> x \<in> set (holds (db s'))"
    using posted_rows [OF p(1,2)] set_status_this [OF assms(3)] set_status_other by simp_all
qed

lemma release_turn:
  assumes "pay_ok (db s)" and "s' = snd (release_hold dr hid key s)"
  shows "pay_ok (db s')" "total (db s') = total (db s)"
    and "x \<in> set (holds (db s)) \<Longrightarrow> h_id x \<noteq> hid \<Longrightarrow> x \<in> set (holds (db s'))"
proof -
  have sc: "schema_ok (db s)" using assms(1) by (simp add: pay_ok_def db_ok_def)
  have "pay_ok (db s') \<and> total (db s') = total (db s) \<and>
    (x \<in> set (holds (db s)) \<longrightarrow> h_id x \<noteq> hid \<longrightarrow> x \<in> set (holds (db s')))"
  proof (cases rule: result_cases [of "release_hold dr hid key" s])
    case (err e s1)
    with legacy_errors(3) [OF err] assms show ?thesis by simp
  next
    case (ok u s1)
    show ?thesis
    proof (cases rule: release_hold_posted [OF ok assms(1)])
      case 1
      with ok assms show ?thesis by simp
    next
      case (2 h w d)
      with ok assms(2) books_eq_cong [OF 2(6)] posted_total [OF sc 2(4)] posted_rows [OF 2(4,6)] set_status_other
      show ?thesis by simp
    qed
  qed
  then show "pay_ok (db s')" "total (db s') = total (db s)"
    "x \<in> set (holds (db s)) \<Longrightarrow> h_id x \<noteq> hid \<Longrightarrow> x \<in> set (holds (db s'))" by simp_all
qed

definition winner_rows :: "uuid \<Rightarrow> int bid_hold list \<Rightarrow> int bid_hold list" where
  "winner_rows winner rows = filter (\<lambda>h. h_bidder h = winner) rows"

lemma settle_holds_books:
  assumes "settle_holds dr au winner (map scan_hold rows) s = (r, s')" and "pay_ok (db s)"
    and "distinct (map h_id rows)" and "\<forall>h \<in> set rows. h \<in> set (holds (db s)) \<and> h_status h = HoldActive"
  shows "pay_ok (db s') \<and> (\<forall>x \<in> set (holds (db s)). h_id x \<notin> h_id ` set rows \<longrightarrow> x \<in> set (holds (db s'))) \<and>
    (\<not> isl r \<longrightarrow> total (db s') = total (db s) - sum_list (map h_amount (winner_rows winner rows)) \<and>
      (\<forall>h \<in> set (winner_rows winner rows). h\<lparr>h_status := HoldCharged\<rparr> \<in> set (holds (db s'))))"
  using assms
proof (induction rows arbitrary: s)
  case Nil
  then show ?case by (auto simp: ret_def winner_rows_def)
next
  case (Cons h rows)
  have h: "h \<in> set (holds (db s))" "h_status h = HoldActive" "h_id h \<notin> h_id ` set rows" "distinct (map h_id rows)"
    using Cons.prems by auto
  show ?case
  proof (cases "h_bidder h = winner")
    case True
    show ?thesis
    proof (cases rule: result_cases [of "charge_hold (dr (h_id h)) (scan_hold h)" s])
      case (err e s1)
      with True Cons.prems legacy_errors(4) [OF err] show ?thesis by (auto simp: andthen_def)
    next
      case (ok u s1)
      note turn = charge_turn [OF ok Cons.prems(2) h(1,2)]
      have rest: "settle_holds dr au winner (map scan_hold rows) s1 = (r, s')"
        using Cons.prems(1) True ok by (simp add: andthen_def)
      have "\<forall>g \<in> set rows. g \<in> set (holds (db s1)) \<and> h_status g = HoldActive"
        using Cons.prems(4) h(3) turn(4) by (auto simp: image_iff)
      note ih = Cons.IH [OF rest turn(1) h(4) this]
      have "h_id (h\<lparr>h_status := HoldCharged\<rparr>) \<notin> h_id ` set rows" using h(3) by simp
      with ih turn(3) have "h\<lparr>h_status := HoldCharged\<rparr> \<in> set (holds (db s'))" by blast
      with ih turn True show ?thesis by (auto simp: winner_rows_def)
    qed
  next
    case False
    let ?s1 = "snd (release_hold (dr (h_id h)) (h_id h) (''refund:'' @ au @ '':'' @ h_bidder h) s)"
    note turn = release_turn [OF Cons.prems(2) refl, where dr = "dr (h_id h)" and hid = "h_id h"
      and key = "''refund:'' @ au @ '':'' @ h_bidder h"]
    have rest: "settle_holds dr au winner (map scan_hold rows) ?s1 = (r, s')"
      using Cons.prems(1) False by simp
    have "\<forall>g \<in> set rows. g \<in> set (holds (db ?s1)) \<and> h_status g = HoldActive"
      using Cons.prems(4) h(3) turn(3) by (auto simp: image_iff)
    from Cons.IH [OF rest turn(1) h(4) this] turn False show ?thesis by (auto simp: winner_rows_def)
  qed
qed

lemma active_rows:
  assumes "get_active_holds_by_auction au s = (Inr hs, s')"
  shows "hs = map scan_hold (filter (\<lambda>h. h_auction h = au \<and> h_status h = HoldActive) (holds (db s)))" "db s' = db s"
  using assms by (auto simp: get_active_holds_by_auction_def pool_query_def split: if_splits)

lemma settle_auction_books:
  assumes "settle_auction dr au winner s = (r, s')" and "pay_ok (db s)"
  shows "pay_ok (db s')"
    and "\<not> isl r \<Longrightarrow> total (db s') = total (db s) - sum_list (map h_amount
      (filter (\<lambda>h. h_auction h = au \<and> h_status h = HoldActive \<and> h_bidder h = winner) (holds (db s))))"
    and "\<not> isl r \<Longrightarrow> h \<in> set (holds (db s)) \<Longrightarrow> h_auction h = au \<Longrightarrow> h_status h = HoldActive \<Longrightarrow> h_bidder h = winner \<Longrightarrow>
      h\<lparr>h_status := HoldCharged\<rparr> \<in> set (holds (db s'))"
proof -
  let ?rows = "filter (\<lambda>h. h_auction h = au \<and> h_status h = HoldActive) (holds (db s))"
  have d: "distinct (map h_id ?rows)"
    using assms(2) by (auto simp: pay_ok_def db_ok_def schema_ok_def distinct_map intro: inj_on_subset)
  have w: "winner_rows winner ?rows = filter (\<lambda>h. h_auction h = au \<and> h_status h = HoldActive \<and> h_bidder h = winner) (holds (db s))"
    by (simp add: winner_rows_def conj_commute conj_left_commute)
  obtain q s1 where q: "get_active_holds_by_auction au s = (q, s1)" by fastforce
  have *: "pay_ok (db s') \<and> (\<not> isl r \<longrightarrow> total (db s') = total (db s) - sum_list (map h_amount (winner_rows winner ?rows)) \<and>
      (\<forall>h \<in> set (winner_rows winner ?rows). h\<lparr>h_status := HoldCharged\<rparr> \<in> set (holds (db s'))))"
  proof (cases q)
    case (Inl e)
    have "db s1 = db s" using q by (auto simp: get_active_holds_by_auction_def pool_query_def split: if_splits)
    with Inl q assms show ?thesis by (auto simp: settle_auction_def andthen_def on_err_def)
  next
    case (Inr hs)
    with q active_rows have r: "hs = map scan_hold ?rows" "db s1 = db s" by metis+
    have "settle_holds dr au winner (map scan_hold ?rows) s1 = (r, s')"
      using assms(1) q Inr r by (simp add: settle_auction_def andthen_def on_err_def)
    from settle_holds_books [OF this _ d] assms(2) r(2) show ?thesis by auto
  qed
  then show "pay_ok (db s')" by simp
  show "\<not> isl r \<Longrightarrow> total (db s') = total (db s) - sum_list (map h_amount
      (filter (\<lambda>h. h_auction h = au \<and> h_status h = HoldActive \<and> h_bidder h = winner) (holds (db s))))"
    using * w by simp
  show "\<not> isl r \<Longrightarrow> h \<in> set (holds (db s)) \<Longrightarrow> h_auction h = au \<Longrightarrow> h_status h = HoldActive \<Longrightarrow> h_bidder h = winner \<Longrightarrow>
      h\<lparr>h_status := HoldCharged\<rparr> \<in> set (holds (db s'))"
    using * w by auto
qed


subsection \<open>Commands\<close>

datatype pay_cmd = PayDeposit txn_draw uuid float64 string | PayHold txn_draw uuid uuid float64 string
  | PayRelease txn_draw uuid string | PaySettle "uuid \<Rightarrow> txn_draw" uuid uuid

primrec pay_step :: "pay_cmd \<Rightarrow> sess \<Rightarrow> sess" where
  "pay_step (PayDeposit dr user amount key) s = snd (deposit dr user amount key s)"
| "pay_step (PayHold dr user au amount key) s = snd (hold_balance dr user au amount key s)"
| "pay_step (PayRelease dr hid key) s = snd (release_hold dr hid key s)"
| "pay_step (PaySettle dr au winner) s = snd (settle_auction dr au winner s)"

primrec pay_cmd_ok :: "pay_cmd \<Rightarrow> bool" where
  "pay_cmd_ok (PayDeposit dr user amount key) = True"
| "pay_cmd_ok (PayHold dr user au amount key) = whole_cents amount"
| "pay_cmd_ok (PayRelease dr hid key) = True"
| "pay_cmd_ok (PaySettle dr au winner) = True"

interpretation payments: invariant_system pay_step pay_cmd_ok "\<lambda>s. pay_ok (db s)"
proof
  fix c and s :: sess
  assume "pay_cmd_ok c" and "pay_ok (db s)"
  then show "pay_ok (db (pay_step c s))"
    by (cases c) (auto intro: deposit_keeps hold_balance_keeps release_hold_keeps
        settle_auction_books(1) [OF prod.collapse [symmetric]])
qed

definition demo_pay_draw :: "uuid \<Rightarrow> txn_draw" where
  "demo_pay_draw i = \<lparr>td_txn = ''t'' @ i, td_hold = ''h-'' @ i, td_event = ''e'' @ i, td_now = 3\<rparr>"

lemma demo_pay_ok: "pay_ok demo_db"
  using demo_db_ok by (simp add: pay_ok_def owned_def demo_db_def)

subsection \<open>Properties\<close>



text \<open>What a settlement that reports success has done: every active hold of the winner on the
  auction is charged, and exactly the sum of these holds has left the wallets. (The seller is not
  paid here, and the amounts are those of all the winner's holds, not the winning amount.)\<close>

theorem settle_auction_charges:
  assumes "settle_auction dr au winner s = (Inr u, s')" and "pay_ok (db s)"
  shows "total (db s') = total (db s) - sum_list (map h_amount
      (filter (\<lambda>h. h_auction h = au \<and> h_status h = HoldActive \<and> h_bidder h = winner) (holds (db s)))) \<and>
    (\<forall>h \<in> set (holds (db s)). h_auction h = au \<and> h_status h = HoldActive \<and> h_bidder h = winner \<longrightarrow>
      h\<lparr>h_status := HoldCharged\<rparr> \<in> set (holds (db s')))"
  using settle_auction_books(2,3) [OF assms] by simp

theorem settle_auction_charges_witness:
  "total (db (snd (settle_auction demo_pay_draw ''a1'' ''alice'' demo_sess))) = 10500"
proof -
  have "\<not> isl (fst (settle_auction demo_pay_draw ''a1'' ''alice'' demo_sess))" by code_simp
  then obtain u where "settle_auction demo_pay_draw ''a1'' ''alice'' demo_sess =
      (Inr u, snd (settle_auction demo_pay_draw ''a1'' ''alice'' demo_sess))"
    by (metis prod.collapse sum.collapse(2))
  from settle_auction_charges [OF this] demo_pay_ok show ?thesis
    by (simp add: demo_sess_def demo_db_def total_def)
qed

text \<open>A hold under a known key reports success and holds nothing, whatever its amount. The handler
  derives the key from the auction and the user when the client sends none, so a second, higher bid
  of the same user is answered with "balance held" while only the first amount is on hold.\<close>

theorem hold_key_hides_amount:
  assumes "key \<in> t_key ` set (txns (db s))" and "\<not> next_fault s"
  shows "\<exists>s'. hold_balance dr user au amount key s = (Inr (), s') \<and> db s' = db s"
proof -
  have "find (\<lambda>t. t_key t = key) (txns (db s)) \<noteq> None" using assms(1) by (auto simp: find_None_iff)
  then show ?thesis using assms(2)
    by (auto simp: hold_balance_def get_by_idempotency_key_def pool_query_def)
qed

theorem hold_key_hides_amount_witness:
  "\<exists>s'. hold_balance (demo_pay_draw ''2'') ''alice'' ''a1'' (dec 9000) ''hold:a1:alice''
      (snd (hold_balance (demo_pay_draw ''1'') ''alice'' ''a1'' (dec 100) ''hold:a1:alice'' demo_sess)) = (Inr (), s')"
proof -
  let ?s = "snd (hold_balance (demo_pay_draw ''1'') ''alice'' ''a1'' (dec 100) ''hold:a1:alice'' demo_sess)"
  have "''hold:a1:alice'' \<in> t_key ` set (txns (db ?s))" "\<not> next_fault ?s" by code_simp+
  from hold_key_hides_amount [OF this, of "demo_pay_draw ''2''" "''alice''" "''a1''" "dec 9000"] show ?thesis by blast
qed

definition demo_two_holds :: sess where
  "demo_two_holds = demo_sess\<lparr>db := demo_db\<lparr>
     wallets := [\<lparr>w_id = ''w1'', w_user = ''alice'', w_available = 10000, w_held = 5500, w_currency = ''USD'',
        w_created = 0, w_updated = 0\<rparr>],
     holds := holds demo_db @ [\<lparr>h_id = ''h2'', h_auction = ''a1'', h_bidder = ''alice'', h_wallet = ''w1'',
        h_amount = 3000, h_status = HoldActive, h_expires = 0, h_created = 0\<rparr>]\<rparr>\<rparr>"

text \<open>A loser with two active holds on the auction gets only one back. Both refunds use the key
  made of auction and bidder, so the second is taken for a replay of the first: the settlement
  reports success and the second hold stays active, its amount still held.\<close>

theorem settle_strands_second_hold:
  "case settle_auction demo_pay_draw ''a1'' ''nobody'' demo_two_holds of (r, s') \<Rightarrow>
     r = Inr () \<and> map h_status (holds (db s')) = [HoldReleased, HoldActive] \<and>
     ledger_of (db s') ''alice'' = Some (12500, 3000)"
  by code_simp

end
