(* ===== verification/Outbox.thy ===== *)
theory Outbox
  imports PaymentDb "HOL-Library.Sublist"
begin

text \<open>
  The transactional outbox of the payment service: the polling publisher
  (\<^verbatim>\<open>internal/outbox/publisher.go\<close>, \<^verbatim>\<open>repository.go\<close>, \<^verbatim>\<open>kafka_adapter.go\<close>) and the older
  worker that does the same (\<^verbatim>\<open>internal/service/outbox_worker.go\<close>,
  \<^verbatim>\<open>internal/repository/outbox_repository.go\<close>).

  The state is the table of events, the messages the broker has taken, the clock, and what is
  still to come: per statement whether it fails, per write whether the broker takes the message,
  drops it, or takes it and reports an error all the same, and per check whether the context has
  been cancelled. The log output is not modelled.
\<close>

datatype write_outcome = Taken | Dropped | TakenWithError

record kafka_msg =
  km_topic :: string
  km_key :: string
  km_value :: json
  km_headers :: "string \<Rightarrow> string option"
  km_time :: time

record obx =
  ob_events :: "outbox_event list"
  ob_taken :: "kafka_msg list"
  ob_now :: time
  ob_stmt_fails :: "bool list"
  ob_writes :: "write_outcome list"
  ob_cancelled :: "bool list"

definition max_outbox_retries :: nat where "max_outbox_retries = 10"

record publisher_config =
  pc_poll :: duration
  pc_batch :: nat
  pc_topic :: string

definition default_publisher_config :: publisher_config where
  "default_publisher_config = \<lparr>pc_poll = 2 * second, pc_batch = 50, pc_topic = ''payment-events''\<rparr>"

subsection \<open>The repository\<close>

definition next_fails :: "obx \<Rightarrow> bool" where
  "next_fails s = (case ob_stmt_fails s of [] \<Rightarrow> False | b # _ \<Rightarrow> b)"

definition after_stmt :: "obx \<Rightarrow> obx" where
  "after_stmt s = s\<lparr>ob_stmt_fails := tl (ob_stmt_fails s)\<rparr>"

definition pending :: "outbox_event \<Rightarrow> bool" where
  "pending e \<longleftrightarrow> o_published e = None \<and> o_retry e < max_outbox_retries"

text \<open>\<^verbatim>\<open>ORDER BY created_at ASC LIMIT n\<close>; rows of equal age come in table order.\<close>

definition get_unpublished_events :: "nat \<Rightarrow> obx \<Rightarrow> outbox_event list option \<times> obx" where
  "get_unpublished_events limit s =
     (if next_fails s then (None, after_stmt s)
      else (Some (take limit (sort_key o_created (filter pending (ob_events s)))), after_stmt s))"

definition mark_published :: "uuid \<Rightarrow> time \<Rightarrow> obx \<Rightarrow> bool \<times> obx" where
  "mark_published eid t s =
     (if next_fails s then (False, after_stmt s)
      else (True, (after_stmt s)\<lparr>ob_events := update_where (\<lambda>e. o_id e = eid)
        (\<lambda>e. e\<lparr>o_published := Some t, o_processed := True\<rparr>) (ob_events s)\<rparr>))"

definition record_failure :: "uuid \<Rightarrow> string \<Rightarrow> obx \<Rightarrow> bool \<times> obx" where
  "record_failure eid msg s =
     (if next_fails s then (False, after_stmt s)
      else (True, (after_stmt s)\<lparr>ob_events := update_where (\<lambda>e. o_id e = eid)
        (\<lambda>e. e\<lparr>o_retry := o_retry e + 1, o_last_error := Some msg\<rparr>) (ob_events s)\<rparr>))"

subsection \<open>The broker\<close>

definition write_message :: "kafka_msg \<Rightarrow> obx \<Rightarrow> string option \<times> obx" where
  "write_message m s =
     (let s' = s\<lparr>ob_writes := tl (ob_writes s)\<rparr>;
          took = s'\<lparr>ob_taken := ob_taken s @ [m]\<rparr> in
      (case ob_writes s of
         [] \<Rightarrow> (None, took)
       | Taken # _ \<Rightarrow> (None, took)
       | Dropped # _ \<Rightarrow> (Some ''write failed'', s')
       | TakenWithError # _ \<Rightarrow> (Some ''write failed'', took)))"

text \<open>The adapter's \<^verbatim>\<open>PublishMessage\<close>, and the message the worker builds itself.\<close>

definition event_headers :: "outbox_event \<Rightarrow> string \<Rightarrow> string option" where
  "event_headers e = map_of [(''aggregate_type'', o_agg_type e), (''aggregate_id'', o_agg_id e),
     (''event_type'', o_event e), (''outbox_id'', o_id e)]"

definition publish_message :: "string \<Rightarrow> string \<Rightarrow> json \<Rightarrow> (string \<Rightarrow> string option) \<Rightarrow> obx \<Rightarrow> string option \<times> obx" where
  "publish_message topic key payload headers s =
     write_message \<lparr>km_topic = topic, km_key = key, km_value = payload, km_headers = headers, km_time = ob_now s\<rparr> s"

definition topic_for_event :: "publisher_config \<Rightarrow> outbox_event \<Rightarrow> string" where
  "topic_for_event c e = pc_topic c"

definition publish_event :: "publisher_config \<Rightarrow> outbox_event \<Rightarrow> obx \<Rightarrow> string option \<times> obx" where
  "publish_event c e s = publish_message (topic_for_event c e) (o_agg_id e) (o_payload e) (event_headers e) s"

definition worker_write :: "string \<Rightarrow> outbox_event \<Rightarrow> obx \<Rightarrow> string option \<times> obx" where
  "worker_write topic e s =
     write_message \<lparr>km_topic = topic, km_key = o_agg_id e, km_value = o_payload e,
       km_headers = event_headers e, km_time = o_created e\<rparr> s"

subsection \<open>Polling\<close>

definition context_done :: "obx \<Rightarrow> bool \<times> obx" where
  "context_done s = (ob_cancelled s \<noteq> [] \<and> hd (ob_cancelled s), s\<lparr>ob_cancelled := tl (ob_cancelled s)\<rparr>)"

text \<open>
  The loop over a batch, which the two pollers share: stop when the context is cancelled; send the
  event; on success mark it published, on an error count the retry. A failing update is only logged.
\<close>

fun send_batch :: "(outbox_event \<Rightarrow> obx \<Rightarrow> string option \<times> obx) \<Rightarrow> outbox_event list \<Rightarrow> obx \<Rightarrow> obx" where
  "send_batch send [] s = s"
| "send_batch send (e # es) s =
     (case context_done s of
        (True, s1) \<Rightarrow> s1
      | (False, s1) \<Rightarrow>
          (case send e s1 of
             (Some err, s2) \<Rightarrow> send_batch send es (snd (record_failure (o_id e) err s2))
           | (None, s2) \<Rightarrow> send_batch send es (snd (mark_published (o_id e) (ob_now s2) s2))))"

definition poll_and_publish :: "publisher_config \<Rightarrow> obx \<Rightarrow> obx" where
  "poll_and_publish c s =
     (case get_unpublished_events (pc_batch c) s of
        (None, s1) \<Rightarrow> s1
      | (Some events, s1) \<Rightarrow> send_batch (publish_event c) events s1)"

definition process_outbox :: "string \<Rightarrow> obx \<Rightarrow> obx" where
  "process_outbox topic s =
     (case get_unpublished_events 50 s of
        (None, s1) \<Rightarrow> s1
      | (Some events, s1) \<Rightarrow> send_batch (worker_write topic) events s1)"

subsection \<open>Delivery\<close>

text \<open>The broker has taken a message for the event with this id.\<close>

definition delivered :: "obx \<Rightarrow> uuid \<Rightarrow> bool" where
  "delivered s eid \<longleftrightarrow> (\<exists>m \<in> set (ob_taken s). km_headers m ''outbox_id'' = Some eid)"

text \<open>\<open>honest s\<close>: an event is marked published only if its message has been delivered.\<close>

definition honest :: "obx \<Rightarrow> bool" where
  "honest s \<longleftrightarrow> (\<forall>e \<in> set (ob_events s). o_published e \<noteq> None \<longrightarrow> delivered s (o_id e))"

definition retries_ok :: "obx \<Rightarrow> bool" where
  "retries_ok s \<longleftrightarrow> (\<forall>e \<in> set (ob_events s). o_retry e \<le> max_outbox_retries)"

text \<open>The messages taken for one event.\<close>

definition sent_for :: "uuid \<Rightarrow> obx \<Rightarrow> kafka_msg list" where
  "sent_for eid s = filter (\<lambda>m. km_headers m ''outbox_id'' = Some eid) (ob_taken s)"

text \<open>
  A poller: what it has the broker take is appended to the messages, events keep their identity and
  payload, it touches only pending events, and marks an event published only after its delivery.
\<close>

definition same_events :: "obx \<Rightarrow> obx \<Rightarrow> bool" where
  "same_events s s' \<longleftrightarrow> map (\<lambda>e. (o_id e, o_payload e)) (ob_events s') = map (\<lambda>e. (o_id e, o_payload e)) (ob_events s)"

locale poller =
  fixes poll :: "obx \<Rightarrow> obx"
  assumes poll_same: "same_events s (poll s)"
    and poll_taken: "prefix (ob_taken s) (ob_taken (poll s))"
    and poll_honest: "honest s \<Longrightarrow> honest (poll s)"
    and poll_retries: "distinct (map o_id (ob_events s)) \<Longrightarrow> retries_ok s \<Longrightarrow> retries_ok (poll s)"
    and poll_idle: "distinct (map o_id (ob_events s)) \<Longrightarrow> e \<in> set (ob_events s) \<Longrightarrow> \<not> pending e \<Longrightarrow>
      e \<in> set (ob_events (poll s)) \<and> sent_for (o_id e) (poll s) = sent_for (o_id e) s"
begin

lemma ids_kept: "map o_id (ob_events (poll s)) = map o_id (ob_events s)"
proof -
  have "map fst (map (\<lambda>e. (o_id e, o_payload e)) (ob_events (poll s))) =
      map fst (map (\<lambda>e. (o_id e, o_payload e)) (ob_events s))"
    using poll_same [of s] by (simp only: same_events_def)
  then show ?thesis by (simp add: comp_def)
qed

lemma polls_honest: "honest s \<Longrightarrow> honest ((poll ^^ n) s)"
  by (induction n) (auto intro: poll_honest)

lemma polls_ids: "map o_id (ob_events ((poll ^^ n) s)) = map o_id (ob_events s)"
  by (induction n) (simp_all add: ids_kept)

lemma polls_retries:
  "distinct (map o_id (ob_events s)) \<Longrightarrow> retries_ok s \<Longrightarrow> retries_ok ((poll ^^ n) s)"
  by (induction n) (auto intro: poll_retries simp: polls_ids)

lemma polls_idle:
  "distinct (map o_id (ob_events s)) \<Longrightarrow> e \<in> set (ob_events s) \<Longrightarrow> \<not> pending e \<Longrightarrow>
   e \<in> set (ob_events ((poll ^^ n) s)) \<and> sent_for (o_id e) ((poll ^^ n) s) = sent_for (o_id e) s"
proof (induction n)
  case (Suc n)
  then show ?case using poll_idle [of "(poll ^^ n) s" e] by (simp add: polls_ids)
qed simp

end

text \<open>Both pollers send an event in a way that appends at most its message.\<close>

definition sender :: "(outbox_event \<Rightarrow> obx \<Rightarrow> string option \<times> obx) \<Rightarrow> bool" where
  "sender send \<longleftrightarrow> (\<forall>e s. \<exists>m. km_headers m ''outbox_id'' = Some (o_id e) \<and> ob_events (snd (send e s)) = ob_events s \<and>
     (ob_taken (snd (send e s)) = ob_taken s @ [m] \<or>
      fst (send e s) \<noteq> None \<and> ob_taken (snd (send e s)) = ob_taken s))"

lemma sender_worker: "sender (worker_write topic)"
  unfolding sender_def
proof (intro allI)
  fix e s
  show "\<exists>m. km_headers m ''outbox_id'' = Some (o_id e) \<and> ob_events (snd (worker_write topic e s)) = ob_events s \<and>
     (ob_taken (snd (worker_write topic e s)) = ob_taken s @ [m] \<or>
      fst (worker_write topic e s) \<noteq> None \<and> ob_taken (snd (worker_write topic e s)) = ob_taken s)"
    by (rule exI [of _ "\<lparr>km_topic = topic, km_key = o_agg_id e, km_value = o_payload e,
       km_headers = event_headers e, km_time = o_created e\<rparr>"])
      (auto simp: worker_write_def write_message_def Let_def event_headers_def split: list.splits write_outcome.splits)
qed

lemma sender_publisher: "sender (publish_event c)"
  unfolding sender_def
proof (intro allI)
  fix e s
  show "\<exists>m. km_headers m ''outbox_id'' = Some (o_id e) \<and> ob_events (snd (publish_event c e s)) = ob_events s \<and>
     (ob_taken (snd (publish_event c e s)) = ob_taken s @ [m] \<or>
      fst (publish_event c e s) \<noteq> None \<and> ob_taken (snd (publish_event c e s)) = ob_taken s)"
    by (rule exI [of _ "\<lparr>km_topic = topic_for_event c e, km_key = o_agg_id e, km_value = o_payload e,
       km_headers = event_headers e, km_time = ob_now s\<rparr>"])
      (auto simp: publish_event_def publish_message_def write_message_def Let_def event_headers_def
        split: list.splits write_outcome.splits)
qed

text \<open>What one turn of the loop does to the state.\<close>

definition set_published :: "time \<Rightarrow> outbox_event \<Rightarrow> outbox_event" where
  "set_published t e = e\<lparr>o_published := Some t, o_processed := True\<rparr>"

definition set_failed :: "string \<Rightarrow> outbox_event \<Rightarrow> outbox_event" where
  "set_failed msg e = e\<lparr>o_retry := o_retry e + 1, o_last_error := Some msg\<rparr>"

definition touched :: "uuid \<Rightarrow> (outbox_event \<Rightarrow> outbox_event) \<Rightarrow> obx \<Rightarrow> obx \<Rightarrow> bool" where
  "touched eid f s s' \<longleftrightarrow> ob_events s' = update_where (\<lambda>x. o_id x = eid) f (ob_events s)"

lemma turn_cases:
  assumes "sender send"
  obtains (stop) s1 where "send_batch send (e # es) s = s1" "ob_events s1 = ob_events s" "ob_taken s1 = ob_taken s"
  | (sent) s1 f m t where "send_batch send (e # es) s = send_batch send es s1"
      "km_headers m ''outbox_id'' = Some (o_id e)" "ob_taken s1 = ob_taken s @ [m]"
      "touched (o_id e) f s s1" "f = set_published t \<or> f = id"
  | (failed) s1 f ms msg where "send_batch send (e # es) s = send_batch send es s1"
      "ob_taken s1 = ob_taken s @ ms"
      "touched (o_id e) f s s1" "f = set_failed msg \<or> f = id"
      "\<forall>m \<in> set ms. km_headers m ''outbox_id'' = Some (o_id e)"
proof -
  obtain b s0 where c: "context_done s = (b, s0)" by fastforce
  then have s0: "ob_events s0 = ob_events s" "ob_taken s0 = ob_taken s" by (auto simp: context_done_def)
  have idu: "update_where P id xs = xs" for P :: "outbox_event \<Rightarrow> bool" and xs by (rule update_where_idle) simp
  show ?thesis
  proof (cases b)
    case True
    with c s0 stop show ?thesis by simp
  next
    case False
    obtain r s2 where r: "send e s0 = (r, s2)" by fastforce
    from assms [unfolded sender_def, rule_format, of e s0] r obtain m where
      m: "km_headers m ''outbox_id'' = Some (o_id e)" "ob_events s2 = ob_events s"
        "ob_taken s2 = ob_taken s @ [m] \<or> r \<noteq> None \<and> ob_taken s2 = ob_taken s" by (auto simp: s0)
    show ?thesis
    proof (cases r)
      case None
      let ?s1 = "snd (mark_published (o_id e) (ob_now s2) s2)"
      have "touched (o_id e) (if next_fails s2 then id else set_published (ob_now s2)) s ?s1"
        using m(2) idu by (simp add: touched_def mark_published_def after_stmt_def set_published_def [abs_def])
      moreover have "ob_taken ?s1 = ob_taken s @ [m]"
        using m(3) None by (simp add: mark_published_def after_stmt_def)
      ultimately show ?thesis
        using c r False None m(1) by (intro sent [of ?s1 m]) auto
    next
      case (Some msg)
      let ?s1 = "snd (record_failure (o_id e) msg s2)"
      have "touched (o_id e) (if next_fails s2 then id else set_failed msg) s ?s1"
        using m(2) idu by (simp add: touched_def record_failure_def after_stmt_def set_failed_def [abs_def])
      moreover have "ob_taken ?s1 = ob_taken s @ (if ob_taken s2 = ob_taken s then [] else [m])"
        using m(3) by (auto simp: record_failure_def after_stmt_def)
      ultimately show ?thesis
        using c r False Some m(1) by (intro failed [of ?s1]) (auto split: if_splits)
    qed
  qed
qed

lemma touched_id [simp]: "touched eid id s s' \<longleftrightarrow> ob_events s' = ob_events s"
  unfolding touched_def by (subst update_where_idle) simp_all

lemma set_event_simps [simp]:
  "o_id (set_published t e) = o_id e" "o_id (set_failed msg e) = o_id e"
  "o_payload (set_published t e) = o_payload e" "o_payload (set_failed msg e) = o_payload e"
  "o_retry (set_published t e) = o_retry e" "o_retry (set_failed msg e) = Suc (o_retry e)"
  "o_published (set_failed msg e) = o_published e"
  by (simp_all add: set_published_def set_failed_def)

lemma touched_same:
  "touched eid f s s' \<Longrightarrow> f = set_published t \<or> f = set_failed msg \<or> f = id \<Longrightarrow> same_events s s'"
  unfolding touched_def same_events_def by (auto intro!: map_update_where)

lemma same_events_trans: "same_events s s1 \<Longrightarrow> same_events s1 s2 \<Longrightarrow> same_events s s2"
  by (simp add: same_events_def)

lemma send_batch_same: "sender send \<Longrightarrow> same_events s (send_batch send es s)"
proof (induction es arbitrary: s)
  case (Cons e es)
  show ?case
  proof (cases rule: turn_cases [OF Cons.prems, of e es s])
    case (1 s1)
    then show ?thesis by (simp add: same_events_def)
  next
    case (2 s1 f m t)
    with Cons.IH [OF Cons.prems, of s1] touched_same [OF 2(4)] show ?thesis
      by (auto intro: same_events_trans)
  next
    case (3 s1 f ms msg)
    with Cons.IH [OF Cons.prems, of s1] touched_same [OF 3(3)] show ?thesis
      by (auto intro: same_events_trans)
  qed
qed (simp add: same_events_def)

lemma send_batch_taken: "sender send \<Longrightarrow> prefix (ob_taken s) (ob_taken (send_batch send es s))"
proof (induction es arbitrary: s)
  case (Cons e es)
  show ?case
  proof (cases rule: turn_cases [OF Cons.prems, of e es s])
    case (1 s1)
    then show ?thesis by simp
  next
    case (2 s1 f m t)
    then have "prefix (ob_taken s) (ob_taken s1)" by simp
    with Cons.IH [OF Cons.prems, of s1] 2(1) show ?thesis by (simp add: prefix_order.order_trans)
  next
    case (3 s1 f ms msg)
    then have "prefix (ob_taken s) (ob_taken s1)" by simp
    with Cons.IH [OF Cons.prems, of s1] 3(1) show ?thesis by (simp add: prefix_order.order_trans)
  qed
qed simp

lemma delivered_more: "ob_taken s1 = ob_taken s @ ms \<Longrightarrow> delivered s eid \<Longrightarrow> delivered s1 eid"
  by (auto simp: delivered_def)

lemma honest_touched:
  assumes "honest s" and "touched eid f s s1" and "ob_taken s1 = ob_taken s @ ms"
    and "f = set_failed msg \<or> f = id \<or> f = set_published t \<and> delivered s1 eid"
  shows "honest s1"
  unfolding honest_def
proof (intro ballI impI)
  fix x
  assume x: "x \<in> set (ob_events s1)" "o_published x \<noteq> None"
  then obtain q where q: "q \<in> set (ob_events s)" "x = (if o_id q = eid then f q else q)"
    using assms(2) by (auto simp: touched_def in_set_update_where)
  show "delivered s1 (o_id x)"
  proof (cases "o_id q = eid \<and> f = set_published t \<and> delivered s1 eid")
    case False
    with q x(2) assms(4) have "o_published q \<noteq> None" "o_id x = o_id q" by (auto split: if_splits)
    with assms(1) q(1) have "delivered s (o_id x)" by (simp add: honest_def)
    with delivered_more [OF assms(3)] show ?thesis by simp
  qed (use q in auto)
qed

lemma send_batch_honest: "sender send \<Longrightarrow> honest s \<Longrightarrow> honest (send_batch send es s)"
proof (induction es arbitrary: s)
  case (Cons e es)
  show ?case
  proof (cases rule: turn_cases [OF Cons.prems(1), of e es s])
    case (1 s1)
    with Cons.prems(2) show ?thesis by (simp add: honest_def delivered_def)
  next
    case (2 s1 f m t)
    have "honest s1"
      by (rule honest_touched [OF Cons.prems(2) 2(4,3)]) (use 2(2,3,5) in \<open>auto simp: delivered_def\<close>)
    with Cons.IH [OF Cons.prems(1)] 2(1) show ?thesis by simp
  next
    case (3 s1 f ms msg)
    have "honest s1"
      by (rule honest_touched [OF Cons.prems(2) 3(3,2)]) (use 3(4) in auto)
    with Cons.IH [OF Cons.prems(1)] 3(1) show ?thesis by simp
  qed
qed simp

text \<open>A row that is not in the rest of the batch stays as it is.\<close>

lemma touched_other:
  "touched eid f s s1 \<Longrightarrow> x \<in> set (ob_events s) \<Longrightarrow> o_id x \<noteq> eid \<Longrightarrow> x \<in> set (ob_events s1)"
  by (force simp: touched_def in_set_update_where)

lemma send_batch_other:
  "sender send \<Longrightarrow> x \<in> set (ob_events s) \<Longrightarrow> o_id x \<notin> o_id ` set es \<Longrightarrow> x \<in> set (ob_events (send_batch send es s))"
proof (induction es arbitrary: s)
  case (Cons e es)
  show ?case
  proof (cases rule: turn_cases [OF Cons.prems(1), of e es s])
    case (1 s1)
    with Cons.prems show ?thesis by simp
  next
    case (2 s1 f m t)
    with Cons.IH [OF Cons.prems(1), of s1] touched_other [OF 2(4) Cons.prems(2)] Cons.prems(3) show ?thesis by simp
  next
    case (3 s1 f ms msg)
    with Cons.IH [OF Cons.prems(1), of s1] touched_other [OF 3(3) Cons.prems(2)] Cons.prems(3) show ?thesis by simp
  qed
qed simp

lemma send_batch_sent_for:
  "sender send \<Longrightarrow> eid \<notin> o_id ` set es \<Longrightarrow> sent_for eid (send_batch send es s) = sent_for eid s"
proof (induction es arbitrary: s)
  case (Cons e es)
  show ?case
  proof (cases rule: turn_cases [OF Cons.prems(1), of e es s])
    case (1 s1)
    then show ?thesis by (simp add: sent_for_def)
  next
    case (2 s1 f m t)
    then have "send_batch send (e # es) s = send_batch send es s1" "sent_for eid s1 = sent_for eid s"
      using Cons.prems(2) by (auto simp: sent_for_def simp del: send_batch.simps)
    with Cons.IH [OF Cons.prems(1), of s1] Cons.prems(2) show ?thesis by (simp del: send_batch.simps)
  next
    case (3 s1 f ms msg)
    have "filter (\<lambda>m. km_headers m ''outbox_id'' = Some eid) ms = []"
      using 3(5) Cons.prems(2) by (auto simp: filter_empty_conv)
    then have "send_batch send (e # es) s = send_batch send es s1" "sent_for eid s1 = sent_for eid s"
      using 3(1,2) by (simp_all add: sent_for_def del: send_batch.simps)
    with Cons.IH [OF Cons.prems(1), of s1] Cons.prems(2) show ?thesis by (simp del: send_batch.simps)
  qed
qed simp

lemma send_batch_retries:
  assumes "sender send" and "retries_ok s" and "distinct (map o_id es)" and "distinct (map o_id (ob_events s))"
    and "set es \<subseteq> set (ob_events s)" and "\<forall>e \<in> set es. o_retry e < max_outbox_retries"
  shows "retries_ok (send_batch send es s)"
  using assms
proof (induction es arbitrary: s)
  case (Cons e es)
  have one: "retries_ok s1 \<and> distinct (map o_id (ob_events s1)) \<and> set es \<subseteq> set (ob_events s1)"
    if t: "touched (o_id e) f s s1" and f: "f = set_published t \<or> f = set_failed msg \<or> f = id" for f s1 t msg
  proof (intro conjI)
    have "map o_id (ob_events s1) = map o_id (ob_events s)"
      using t f unfolding touched_def by (auto intro!: map_update_where)
    with Cons.prems(4) show "distinct (map o_id (ob_events s1))" by simp
    show "set es \<subseteq> set (ob_events s1)"
    proof
      fix x
      assume "x \<in> set es"
      with Cons.prems(3,5) have "x \<in> set (ob_events s)" "o_id x \<noteq> o_id e" by (auto simp: image_iff)
      then show "x \<in> set (ob_events s1)" by (rule touched_other [OF t])
    qed
    show "retries_ok s1"
      unfolding retries_ok_def
    proof
      fix x
      assume "x \<in> set (ob_events s1)"
      then obtain q where q: "q \<in> set (ob_events s)" "x = (if o_id q = o_id e then f q else q)"
        using t by (auto simp: touched_def in_set_update_where)
      have "o_id q = o_id e \<Longrightarrow> q = e"
        using Cons.prems(4,5) q by (auto dest: distinct_key_unique)
      with q f Cons.prems(2,6) show "o_retry x \<le> max_outbox_retries"
        by (auto simp: retries_ok_def)
    qed
  qed
  show ?case
  proof (cases rule: turn_cases [OF Cons.prems(1), of e es s])
    case (1 s1)
    with Cons.prems show ?thesis by (simp add: retries_ok_def)
  next
    case (2 s1 f m t)
    from one [OF 2(4)] 2(5) have "retries_ok s1 \<and> distinct (map o_id (ob_events s1)) \<and> set es \<subseteq> set (ob_events s1)" by blast
    with Cons.IH [OF Cons.prems(1), of s1] 2(1) Cons.prems show ?thesis by simp
  next
    case (3 s1 f ms msg)
    from one [OF 3(3)] 3(4) have "retries_ok s1 \<and> distinct (map o_id (ob_events s1)) \<and> set es \<subseteq> set (ob_events s1)" by blast
    with Cons.IH [OF Cons.prems(1), of s1] 3(1) Cons.prems show ?thesis by simp
  qed
qed simp

text \<open>One poll with any sender and any batch size.\<close>

definition poll_with :: "(outbox_event \<Rightarrow> obx \<Rightarrow> string option \<times> obx) \<Rightarrow> nat \<Rightarrow> obx \<Rightarrow> obx" where
  "poll_with send n s = (case get_unpublished_events n s of (None, s1) \<Rightarrow> s1 | (Some es, s1) \<Rightarrow> send_batch send es s1)"

lemma pollers: "poll_and_publish c = poll_with (publish_event c) (pc_batch c)"
  "process_outbox topic = poll_with (worker_write topic) 50"
  by (simp_all add: fun_eq_iff poll_and_publish_def process_outbox_def poll_with_def)

lemma poll_cases:
  obtains (failed) s1 where "poll_with send n s = s1" "ob_events s1 = ob_events s" "ob_taken s1 = ob_taken s"
  | (batch) s1 where "poll_with send n s = send_batch send (take n (sort_key o_created (filter pending (ob_events s)))) s1"
      "ob_events s1 = ob_events s" "ob_taken s1 = ob_taken s" "\<not> next_fails s" "s1 = after_stmt s"
  by (cases "next_fails s")
    (auto simp: poll_with_def get_unpublished_events_def after_stmt_def)

lemma batch_rows:
  assumes "distinct (map o_id evs)"
  shows "distinct (map o_id (take n (sort_key o_created (filter pending evs))))"
    and "set (take n (sort_key o_created (filter pending evs))) \<subseteq> {e \<in> set evs. pending e}"
proof -
  have "distinct (map o_id (sort_key o_created (filter pending evs)))"
    using assms by (auto simp: distinct_map intro: inj_on_subset)
  then show "distinct (map o_id (take n (sort_key o_created (filter pending evs))))"
    by (simp add: take_map [symmetric] distinct_take)
  show "set (take n (sort_key o_created (filter pending evs))) \<subseteq> {e \<in> set evs. pending e}"
    by (auto dest!: in_set_takeD)
qed

lemma poller_poll_with:
  assumes "sender send"
  shows "poller (poll_with send n)"
proof
  fix s
  show "same_events s (poll_with send n s)"
    by (cases rule: poll_cases [of send n s])
      (use send_batch_same [OF assms] in \<open>fastforce simp: same_events_def\<close>)+
  show "prefix (ob_taken s) (ob_taken (poll_with send n s))"
    by (cases rule: poll_cases [of send n s]) (use send_batch_taken [OF assms] in \<open>metis prefix_order.refl\<close>)+
  show "honest (poll_with send n s)" if "honest s"
    using that by (cases rule: poll_cases [of send n s])
      (use send_batch_honest [OF assms] in \<open>auto simp: honest_def delivered_def\<close>)
  assume d: "distinct (map o_id (ob_events s))"
  note rows = batch_rows [OF d, of n]
  show "retries_ok (poll_with send n s)" if "retries_ok s"
  proof (cases rule: poll_cases [of send n s])
    case (batch s1)
    show ?thesis unfolding batch(1)
      by (rule send_batch_retries [OF assms]) (use that rows batch d in \<open>auto simp: retries_ok_def pending_def\<close>)
  qed (use that in \<open>simp add: retries_ok_def\<close>)
  show "e \<in> set (ob_events (poll_with send n s)) \<and> sent_for (o_id e) (poll_with send n s) = sent_for (o_id e) s" if "e \<in> set (ob_events s)" "\<not> pending e" for e
  proof (cases rule: poll_cases [of send n s])
    case (batch s1)
    have "o_id e \<notin> o_id ` set (take n (sort_key o_created (filter pending (ob_events s))))"
      using rows(2) that d by (force dest: distinct_key_unique)
    then show ?thesis unfolding batch(1)
      using send_batch_other [OF assms, of e s1] send_batch_sent_for [OF assms, of "o_id e"] that(1) batch(2,3)
      by (simp add: sent_for_def)
  qed (use that in \<open>simp add: sent_for_def\<close>)
qed


interpretation publisher: poller "poll_and_publish c" for c
  unfolding pollers by (rule poller_poll_with [OF sender_publisher])

interpretation worker: poller "process_outbox topic" for topic
  unfolding pollers by (rule poller_poll_with [OF sender_worker])

subsection \<open>Progress when nothing fails\<close>

definition calm :: "obx \<Rightarrow> bool" where
  "calm s \<longleftrightarrow> ob_stmt_fails s = [] \<and> ob_writes s = [] \<and> ob_cancelled s = []"

definition backlog :: "obx \<Rightarrow> nat" where
  "backlog s = length (filter pending (ob_events s))"

lemma publish_event_calm:
  "calm s \<Longrightarrow> \<exists>s'. publish_event c e s = (None, s') \<and> calm s' \<and> ob_events s' = ob_events s \<and> ob_now s' = ob_now s"
  by (auto simp: publish_event_def publish_message_def write_message_def Let_def calm_def)

lemma send_batch_calm:
  "calm s \<Longrightarrow> calm (send_batch (publish_event c) es s) \<and>
   ob_events (send_batch (publish_event c) es s) =
     update_where (\<lambda>x. o_id x \<in> o_id ` set es) (set_published (ob_now s)) (ob_events s)"
proof (induction es arbitrary: s)
  case Nil
  then show ?case by (simp add: update_where_none)
next
  case (Cons e es)
  let ?s0 = "s\<lparr>ob_cancelled := []\<rparr>"
  have c: "context_done s = (False, ?s0)" "calm ?s0" using Cons.prems by (simp_all add: context_done_def calm_def)
  from publish_event_calm [OF c(2), of c e] obtain s1 where s1: "publish_event c e ?s0 = (None, s1)" "calm s1"
    "ob_events s1 = ob_events s" "ob_now s1 = ob_now s" by auto
  let ?s2 = "snd (mark_published (o_id e) (ob_now s1) s1)"
  have s2: "calm ?s2" "ob_now ?s2 = ob_now s"
    "ob_events ?s2 = update_where (\<lambda>x. o_id x = o_id e) (set_published (ob_now s)) (ob_events s)"
    using s1 by (simp_all add: mark_published_def next_fails_def after_stmt_def calm_def set_published_def [abs_def])
  have "update_where (\<lambda>x. o_id x \<in> o_id ` set es) (set_published t) (update_where (\<lambda>x. o_id x = i) (set_published t) evs) =
      update_where (\<lambda>x. o_id x = i \<or> o_id x \<in> o_id ` set es) (set_published t) evs" for t i evs
    by (induction evs) (simp_all add: set_published_def)
  with Cons.IH [OF s2(1)] s2 c s1 show ?case by simp
qed

lemma length_filter_distinct_diff:
  assumes "distinct xs" and "distinct ys" and "set ys \<subseteq> {x \<in> set xs. P x}"
  shows "length (filter (\<lambda>x. P x \<and> x \<notin> set ys) xs) = length (filter P xs) - length ys"
proof -
  have "length (filter (\<lambda>x. P x \<and> x \<notin> set ys) xs) = card ({x \<in> set xs. P x} - set ys)"
    using assms(1) by (subst distinct_card [symmetric]) (auto intro!: arg_cong [where f = card])
  also have "\<dots> = card {x \<in> set xs. P x} - card (set ys)"
    by (rule card_Diff_subset [OF _ assms(3)]) simp
  also have "card {x \<in> set xs. P x} = length (filter P xs)"
    using assms(1) by (subst distinct_card [symmetric]) (auto intro!: arg_cong [where f = card])
  finally show ?thesis using distinct_card [OF assms(2)] by simp
qed

lemma poll_calm:
  assumes "calm s" and "distinct (map o_id (ob_events s))"
  shows "calm (poll_and_publish c s)" "backlog (poll_and_publish c s) = backlog s - pc_batch c"
proof -
  let ?es = "take (pc_batch c) (sort_key o_created (filter pending (ob_events s)))"
  have p: "poll_and_publish c s = send_batch (publish_event c) ?es (after_stmt s)" "calm (after_stmt s)"
    "ob_events (after_stmt s) = ob_events s" "ob_now (after_stmt s) = ob_now s"
    using assms(1) by (simp_all add: poll_and_publish_def get_unpublished_events_def next_fails_def calm_def after_stmt_def)
  note b = send_batch_calm [OF p(2), of c ?es]
  show "calm (poll_and_publish c s)" using b p(1) by simp
  have "filter pending (ob_events (poll_and_publish c s)) =
      filter (\<lambda>x. pending x \<and> o_id x \<notin> o_id ` set ?es) (ob_events s)"
  proof -
    have "filter pending (update_where Q (set_published t) evs) = filter (\<lambda>x. pending x \<and> \<not> Q x) evs" for Q t evs
      by (induction evs) (simp_all add: pending_def set_published_def)
    with b p show ?thesis by simp
  qed
  also have "\<dots> = filter (\<lambda>x. pending x \<and> x \<notin> set ?es) (ob_events s)"
    using batch_rows(2) [OF assms(2), of "pc_batch c"] assms(2)
    by (intro filter_cong refl) (force dest: distinct_key_unique)
  finally have "backlog (poll_and_publish c s) = length (filter (\<lambda>x. pending x \<and> x \<notin> set ?es) (ob_events s))"
    by (simp add: backlog_def)
  also have "\<dots> = backlog s - length ?es"
    using assms(2) batch_rows [OF assms(2), of "pc_batch c"] unfolding backlog_def
    by (intro length_filter_distinct_diff) (auto simp: distinct_map)
  also have "\<dots> = backlog s - pc_batch c" by (simp add: backlog_def)
  finally show "backlog (poll_and_publish c s) = backlog s - pc_batch c" .
qed

lemma polls_calm:
  assumes "calm s" and "distinct (map o_id (ob_events s))"
  shows "calm ((poll_and_publish c ^^ k) s)" "backlog ((poll_and_publish c ^^ k) s) = backlog s - k * pc_batch c"
proof (induction k)
  case (Suc k)
  {
    case 1
    show ?case using poll_calm(1) [OF Suc.IH(1)] assms(2) publisher.polls_ids [where c = c and n = k and s = s] by simp
  next
    case 2
    show ?case using poll_calm(2) [OF Suc.IH(1)] Suc.IH(2) assms(2) publisher.polls_ids [where c = c and n = k and s = s]
      by (simp add: diff_diff_left add.commute)
  }
qed (use assms in simp_all)

lemma poll_calm_retries:
  assumes "calm s"
  shows "map (\<lambda>e. (o_id e, o_retry e)) (ob_events (poll_and_publish c s)) = map (\<lambda>e. (o_id e, o_retry e)) (ob_events s)"
proof -
  have "calm (after_stmt s)" using assms by (simp add: calm_def after_stmt_def)
  from send_batch_calm [OF this, of c "take (pc_batch c) (sort_key o_created (filter pending (ob_events s)))"] assms
  show ?thesis
    by (simp add: poll_and_publish_def get_unpublished_events_def next_fails_def calm_def after_stmt_def map_update_where)
qed

lemma polls_calm_retries:
  assumes "calm s" and "distinct (map o_id (ob_events s))"
  shows "map (\<lambda>e. (o_id e, o_retry e)) (ob_events ((poll_and_publish c ^^ k) s)) = map (\<lambda>e. (o_id e, o_retry e)) (ob_events s)"
  by (induction k) (simp_all add: poll_calm_retries polls_calm(1) [OF assms])

lemma kept_row:
  assumes "map (\<lambda>e. (o_id e, o_retry e)) evs' = map (\<lambda>e. (o_id e, o_retry e)) evs" and "e \<in> set evs"
  shows "\<exists>e' \<in> set evs'. o_id e' = o_id e \<and> o_retry e' = o_retry e"
proof -
  have "(\<lambda>e. (o_id e, o_retry e)) ` set evs' = (\<lambda>e. (o_id e, o_retry e)) ` set evs"
    using arg_cong [OF assms(1), of set] by simp
  with assms(2) have "(o_id e, o_retry e) \<in> (\<lambda>e. (o_id e, o_retry e)) ` set evs'" by simp
  then show ?thesis by auto
qed

subsection \<open>Properties\<close>

text \<open>C15: an event is published only if it was delivered. However statements, writes and the context
  fail, after any number of polls of the publisher, and then of the worker, every event marked as
  published has a message with its id that the broker has taken.\<close>

theorem outbox_published_delivered:
  assumes "honest s" and "e \<in> set (ob_events ((process_outbox topic ^^ m) ((poll_and_publish c ^^ n) s)))"
    and "o_published e \<noteq> None"
  shows "delivered ((process_outbox topic ^^ m) ((poll_and_publish c ^^ n) s)) (o_id e)"
  using worker.polls_honest [OF publisher.polls_honest [OF assms(1)]] assms(2,3)
  unfolding honest_def by blast

definition demo_event :: "uuid \<Rightarrow> nat \<Rightarrow> outbox_event" where
  "demo_event i r = \<lparr>o_id = i, o_agg_type = ''wallet'', o_agg_id = ''w1'', o_event = ''wallet.deposited'',
     o_payload = [], o_key = None, o_created = 0, o_published = None, o_retry = r, o_last_error = None,
     o_processed = False\<rparr>"

definition demo_obx :: obx where
  "demo_obx = \<lparr>ob_events = [demo_event ''e1'' 0, demo_event ''e2'' 9, demo_event ''e3'' 10], ob_taken = [], ob_now = 5,
     ob_stmt_fails = [], ob_writes = [], ob_cancelled = []\<rparr>"

theorem outbox_published_delivered_witness:
  "delivered (poll_and_publish default_publisher_config (demo_obx\<lparr>ob_writes := [Taken, Dropped]\<rparr>)) ''e1''"
proof -
  let ?s = "demo_obx\<lparr>ob_writes := [Taken, Dropped]\<rparr>"
  have h: "honest ?s" by (simp add: honest_def demo_obx_def demo_event_def)
  have e: "(demo_event ''e1'' 0)\<lparr>o_published := Some 5, o_processed := True\<rparr>
      \<in> set (ob_events (poll_and_publish default_publisher_config ?s))" by code_simp
  have d: "delivered ((process_outbox ''t'' ^^ 0) ((poll_and_publish default_publisher_config ^^ 1) ?s))
      (o_id ((demo_event ''e1'' 0)\<lparr>o_published := Some 5, o_processed := True\<rparr>))"
    by (rule outbox_published_delivered [OF h]) (use e in simp_all)
  then show ?thesis by (simp add: demo_event_def)
qed

text \<open>No poll takes the retry count of an event beyond its bound, and polling neither loses nor
  invents events.\<close>

theorem outbox_retry_bound:
  assumes "distinct (map o_id (ob_events s))" and "retries_ok s"
  shows "retries_ok ((poll_and_publish c ^^ n) s) \<and>
    map o_id (ob_events ((poll_and_publish c ^^ n) s)) = map o_id (ob_events s)"
  using publisher.polls_retries [OF assms] publisher.polls_ids by auto

theorem outbox_retry_bound_witness:
  "retries_ok ((poll_and_publish default_publisher_config ^^ 3) (demo_obx\<lparr>ob_writes := replicate 9 Dropped\<rparr>))"
  using outbox_retry_bound [where s = "demo_obx\<lparr>ob_writes := replicate 9 Dropped\<rparr>"
    and c = default_publisher_config and n = 3]
  by (simp add: demo_obx_def demo_event_def retries_ok_def max_outbox_retries_def)

text \<open>C16: progress. When nothing fails, enough polls for the batch size empty the backlog: every event
  that was still within its retries is published and has been delivered.\<close>

theorem outbox_drains:
  assumes "calm s" and "honest s" and "distinct (map o_id (ob_events s))" and "backlog s \<le> k * pc_batch c"
    and "e \<in> set (ob_events s)" and "o_retry e < max_outbox_retries"
  shows "\<exists>e' \<in> set (ob_events ((poll_and_publish c ^^ k) s)). o_id e' = o_id e \<and> o_published e' \<noteq> None \<and>
    delivered ((poll_and_publish c ^^ k) s) (o_id e)"
proof -
  let ?s = "(poll_and_publish c ^^ k) s"
  from kept_row [OF polls_calm_retries [OF assms(1,3)] assms(5)] obtain e' where
    e': "e' \<in> set (ob_events ?s)" "o_id e' = o_id e" "o_retry e' = o_retry e" by blast
  have "backlog ?s = 0" using polls_calm(2) [OF assms(1,3), of k c] assms(4) by simp
  then have "\<not> pending e'" using e'(1) by (simp add: backlog_def filter_empty_conv)
  with e'(3) assms(6) have "o_published e' \<noteq> None" by (simp add: pending_def)
  with publisher.polls_honest [OF assms(2)] e' show ?thesis unfolding honest_def by metis
qed

theorem outbox_drains_witness:
  "delivered ((poll_and_publish (default_publisher_config\<lparr>pc_batch := 1\<rparr>) ^^ 2) demo_obx) ''e2''"
proof -
  have "\<exists>e' \<in> set (ob_events ((poll_and_publish (default_publisher_config\<lparr>pc_batch := 1\<rparr>) ^^ 2) demo_obx)).
      o_id e' = o_id (demo_event ''e2'' 9) \<and> o_published e' \<noteq> None \<and>
      delivered ((poll_and_publish (default_publisher_config\<lparr>pc_batch := 1\<rparr>) ^^ 2) demo_obx) (o_id (demo_event ''e2'' 9))"
    by (rule outbox_drains)
      (simp_all add: demo_obx_def demo_event_def calm_def honest_def backlog_def pending_def max_outbox_retries_def)
  then show ?thesis by (auto simp: demo_event_def)
qed

text \<open>The bound on the retries ends the at-least-once guarantee. An unpublished event whose write
  has failed ten times is never sent again, however many polls follow and however well the broker
  and the database then work.\<close>

theorem outbox_gives_up:
  assumes "distinct (map o_id (ob_events s))" and "e \<in> set (ob_events s)"
    and "o_retry e = max_outbox_retries" "o_published e = None"
  shows "e \<in> set (ob_events ((poll_and_publish c ^^ n) s)) \<and>
    sent_for (o_id e) ((poll_and_publish c ^^ n) s) = sent_for (o_id e) s"
  using publisher.polls_idle [OF assms(1,2)] assms(3) by (simp add: pending_def)

theorem outbox_gives_up_witness:
  "sent_for ''e3'' ((poll_and_publish default_publisher_config ^^ 100) demo_obx) = []"
proof -
  have "demo_event ''e3'' 10 \<in> set (ob_events ((poll_and_publish default_publisher_config ^^ 100) demo_obx)) \<and>
      sent_for (o_id (demo_event ''e3'' 10)) ((poll_and_publish default_publisher_config ^^ 100) demo_obx) =
        sent_for (o_id (demo_event ''e3'' 10)) demo_obx"
    by (rule outbox_gives_up) (simp_all add: demo_obx_def demo_event_def max_outbox_retries_def)
  then show ?thesis by (simp add: demo_event_def sent_for_def demo_obx_def)
qed

end
