(* ===== verification/CircuitBreaker.thy ===== *)
theory CircuitBreaker
  imports Prelude
begin

text \<open>
  The circuit breaker of \<^verbatim>\<open>pkg/circuitbreaker/circuitbreaker.go\<close>. A call of \<^verbatim>\<open>Execute\<close> has two
  critical sections, before and after the protected function runs without the lock: \<open>admit\<close> and
  \<open>settle_closed\<close> or \<open>settle_probe\<close>. \<open>execute\<close> is a call that nothing interleaves with; the step
  relation \<open>cb_step\<close> lets any number of calls interleave section by section.

  The clock is read once per critical section. Logging and the gauge of the seconds since the last
  failure are not modelled; counters are unbounded integers.
\<close>

datatype cb_state = StateClosed | StateOpen | StateHalfOpen

record cb_config =
  failure_threshold :: int
  reset_timeout :: duration
  success_threshold :: int
  cache_ttl :: duration
  service_name :: string

definition default_config :: "string \<Rightarrow> cb_config" where
  "default_config name = \<lparr>failure_threshold = 5, reset_timeout = 30 * second, success_threshold = 1,
     cache_ttl = 60 * second, service_name = name\<rparr>"

datatype config_err = NameRequired | BadFailureThreshold int | BadResetTimeout duration | BadSuccessThreshold int

definition validate :: "cb_config \<Rightarrow> config_err + cb_config" where
  "validate c =
     (if service_name c = '''' then Inl NameRequired
      else if failure_threshold c < 1 \<or> failure_threshold c > 100 then Inl (BadFailureThreshold (failure_threshold c))
      else if reset_timeout c < second \<or> reset_timeout c > 300 * second then Inl (BadResetTimeout (reset_timeout c))
      else if success_threshold c < 1 \<or> success_threshold c > 10 then Inl (BadSuccessThreshold (success_threshold c))
      else Inr (if cache_ttl c \<le> 0 then c\<lparr>cache_ttl := 60 * second\<rparr> else c))"

text \<open>
  What \<^verbatim>\<open>isFailure\<close> asks of an error: the status of an HTTP error in its chain, whether a network
  error in it is a timeout, whether it holds a \<^verbatim>\<open>net.OpError\<close>, whether it is the deadline error.
\<close>

record go_err =
  ge_http :: "int option"
  ge_net_timeout :: "bool option"
  ge_op :: bool
  ge_deadline :: bool

definition is_failure :: "go_err option \<Rightarrow> bool" where
  "is_failure err = (case err of None \<Rightarrow> False
     | Some e \<Rightarrow> (case ge_http e of Some code \<Rightarrow> 500 \<le> code
         | None \<Rightarrow> ge_net_timeout e = Some True \<or> ge_op e \<or> ge_deadline e))"

record 'v breaker =
  cb_state :: cb_state
  cb_fails :: int
  cb_succ :: int
  cb_last_failure :: "time option"
  cb_last_change :: time
  cb_requests :: int
  cb_failures :: int
  cb_probe :: bool
  cb_cache :: "('v \<times> time) option"
  gauge_state :: cb_state
  gauge_fails :: int

definition new_breaker :: "cb_config \<Rightarrow> time \<Rightarrow> config_err + 'v breaker" where
  "new_breaker cfg t = (case validate cfg of Inl e \<Rightarrow> Inl e
     | Inr _ \<Rightarrow> Inr \<lparr>cb_state = StateClosed, cb_fails = 0, cb_succ = 0, cb_last_failure = None, cb_last_change = t,
         cb_requests = 0, cb_failures = 0, cb_probe = False, cb_cache = None, gauge_state = StateClosed, gauge_fails = 0\<rparr>)"

definition transition :: "cb_state \<Rightarrow> time \<Rightarrow> 'v breaker \<Rightarrow> 'v breaker" where
  "transition st t b =
     (if cb_state b = st then b
      else let b1 = b\<lparr>cb_state := st, cb_last_change := t\<rparr>;
               b2 = (if st = StateOpen then b1\<lparr>cb_probe := False, cb_succ := 0\<rparr> else b1)
           in b2\<lparr>gauge_state := st\<rparr>)"

definition get_cached_response :: "cb_config \<Rightarrow> time \<Rightarrow> 'v breaker \<Rightarrow> 'v option" where
  "get_cached_response cfg t b = (case cb_cache b of None \<Rightarrow> None
     | Some (v, ts) \<Rightarrow> if t - ts > cache_ttl cfg then None else Some v)"

text \<open>What a call answers: a value (or nil), or the degradation response, and an error.\<close>

datatype 'v answer = Value "'v option" | Degraded
datatype cb_err = ErrCircuitOpen | ErrCircuitReject | FnError go_err

datatype 'v admission = RunClosed | RunProbe | Reply "'v answer" "cb_err option"

definition fallback :: "cb_config \<Rightarrow> time \<Rightarrow> cb_err \<Rightarrow> 'v breaker \<Rightarrow> 'v admission" where
  "fallback cfg t e b = (case get_cached_response cfg t b of
       Some v \<Rightarrow> Reply (Value (Some v)) None | None \<Rightarrow> Reply Degraded (Some e))"

definition admit :: "cb_config \<Rightarrow> time \<Rightarrow> 'v breaker \<Rightarrow> 'v admission \<times> 'v breaker" where
  "admit cfg t b0 =
     (let b = b0\<lparr>cb_requests := cb_requests b0 + 1\<rparr> in
      case cb_state b of
        StateClosed \<Rightarrow> (RunClosed, b)
      | StateOpen \<Rightarrow>
          (if t - cb_last_change b \<ge> reset_timeout cfg
           then (RunProbe, (transition StateHalfOpen t b)\<lparr>cb_probe := True\<rparr>)
           else (fallback cfg t ErrCircuitOpen b, b))
      | StateHalfOpen \<Rightarrow>
          (if cb_probe b then (fallback cfg t ErrCircuitReject b, b)
           else (RunProbe, b\<lparr>cb_probe := True\<rparr>)))"

definition settle_closed :: "cb_config \<Rightarrow> time \<Rightarrow> 'v option \<Rightarrow> go_err option \<Rightarrow> 'v breaker \<Rightarrow>
    ('v answer \<times> cb_err option) \<times> 'v breaker" where
  "settle_closed cfg t result err b =
     (if is_failure err then
        let b1 = b\<lparr>cb_fails := cb_fails b + 1, cb_failures := cb_failures b + 1, cb_last_failure := Some t,
              gauge_fails := cb_fails b + 1\<rparr>
        in ((Value result, map_option FnError err),
            if cb_fails b1 \<ge> failure_threshold cfg then transition StateOpen t b1 else b1)
      else
        let b1 = b\<lparr>cb_fails := 0, gauge_fails := 0\<rparr>
        in ((Value result, None), case result of None \<Rightarrow> b1 | Some v \<Rightarrow> b1\<lparr>cb_cache := Some (v, t)\<rparr>))"

definition settle_probe :: "cb_config \<Rightarrow> time \<Rightarrow> 'v option \<Rightarrow> go_err option \<Rightarrow> 'v breaker \<Rightarrow>
    ('v answer \<times> cb_err option) \<times> 'v breaker" where
  "settle_probe cfg t result err b0 =
     (let b = b0\<lparr>cb_probe := False\<rparr> in
      if is_failure err then
        let b1 = b\<lparr>cb_fails := cb_fails b + 1, cb_failures := cb_failures b + 1, cb_succ := 0,
              cb_last_failure := Some t, gauge_fails := cb_fails b + 1\<rparr>
        in ((Value result, map_option FnError err), transition StateOpen t b1)
      else
        let b1 = b\<lparr>cb_succ := cb_succ b + 1\<rparr>;
            b2 = (if cb_succ b1 \<ge> success_threshold cfg
                  then transition StateClosed t (b1\<lparr>cb_fails := 0, cb_succ := 0, gauge_fails := 0\<rparr>) else b1)
        in ((Value result, None), case result of None \<Rightarrow> b2 | Some v \<Rightarrow> b2\<lparr>cb_cache := Some (v, t)\<rparr>))"

text \<open>A whole call: admitted at \<open>t\<close>, settled at \<open>t'\<close>; \<open>None\<close> in the third place: the function did not run.\<close>

definition execute :: "cb_config \<Rightarrow> time \<Rightarrow> time \<Rightarrow> 'v option \<Rightarrow> go_err option \<Rightarrow> 'v breaker \<Rightarrow>
    ('v answer \<times> cb_err option) \<times> bool \<times> 'v breaker" where
  "execute cfg t t' result err b =
     (case admit cfg t b of
        (Reply a e, b1) \<Rightarrow> ((a, e), False, b1)
      | (RunClosed, b1) \<Rightarrow> (let (r, b2) = settle_closed cfg t' result err b1 in (r, True, b2))
      | (RunProbe, b1) \<Rightarrow> (let (r, b2) = settle_probe cfg t' result err b1 in (r, True, b2)))"

definition get_state :: "cb_config \<Rightarrow> time \<Rightarrow> 'v breaker \<Rightarrow> cb_state \<times> 'v breaker" where
  "get_state cfg t b =
     (let b1 = (if cb_state b = StateOpen \<and> t - cb_last_change b \<ge> reset_timeout cfg
                then transition StateHalfOpen t b else b)
      in (cb_state b1, b1))"

subsection \<open>Interleaved calls\<close>

text \<open>The breaker and the calls whose function is running: closed-state calls and probes.\<close>

record 'v cb_sys =
  sys_cb :: "'v breaker"
  sys_closed :: nat
  sys_probes :: nat

inductive cb_step :: "cb_config \<Rightarrow> 'v cb_sys \<Rightarrow> 'v cb_sys \<Rightarrow> bool" for cfg where
  reply: "admit cfg t (sys_cb s) = (Reply a e, b) \<Longrightarrow> cb_step cfg s (s\<lparr>sys_cb := b\<rparr>)"
| begin_closed: "admit cfg t (sys_cb s) = (RunClosed, b) \<Longrightarrow>
    cb_step cfg s (s\<lparr>sys_cb := b, sys_closed := sys_closed s + 1\<rparr>)"
| begin_probe: "admit cfg t (sys_cb s) = (RunProbe, b) \<Longrightarrow>
    cb_step cfg s (s\<lparr>sys_cb := b, sys_probes := sys_probes s + 1\<rparr>)"
| end_closed: "0 < sys_closed s \<Longrightarrow>
    cb_step cfg s (s\<lparr>sys_cb := snd (settle_closed cfg t v err (sys_cb s)), sys_closed := sys_closed s - 1\<rparr>)"
| end_probe: "0 < sys_probes s \<Longrightarrow>
    cb_step cfg s (s\<lparr>sys_cb := snd (settle_probe cfg t v err (sys_cb s)), sys_probes := sys_probes s - 1\<rparr>)"
| query: "cb_step cfg s (s\<lparr>sys_cb := snd (get_state cfg t (sys_cb s))\<rparr>)"

inductive_cases cb_stepE: "cb_step cfg s s'"

definition sound :: "cb_config \<Rightarrow> 'v cb_sys \<Rightarrow> bool" where
  "sound cfg s \<longleftrightarrow> (let b = sys_cb s in
     0 \<le> cb_fails b \<and> 0 \<le> cb_succ b \<and> cb_succ b < success_threshold cfg \<and>
     (cb_state b = StateClosed \<longrightarrow> cb_fails b < failure_threshold cfg) \<and>
     (cb_probe b \<longrightarrow> cb_state b = StateHalfOpen \<and> 0 < sys_probes s) \<and>
     gauge_state b = cb_state b \<and> gauge_fails b = cb_fails b \<and>
     0 \<le> cb_failures b \<and> cb_failures b + int (sys_closed s) + int (sys_probes s) \<le> cb_requests b)"

lemmas section_defs = admit_def settle_closed_def settle_probe_def get_state_def transition_def fallback_def Let_def


lemma sound_admit:
  assumes "admit cfg t (sys_cb s) = (r, b)" and "sound cfg s"
  shows "r = Reply a e \<Longrightarrow> sound cfg (s\<lparr>sys_cb := b\<rparr>)"
    and "r = RunClosed \<Longrightarrow> sound cfg (s\<lparr>sys_cb := b, sys_closed := sys_closed s + 1\<rparr>)"
    and "r = RunProbe \<Longrightarrow> sound cfg (s\<lparr>sys_cb := b, sys_probes := sys_probes s + 1\<rparr>)"
  using assms by (cases "cb_state (sys_cb s)"; auto simp: sound_def section_defs split: if_splits option.splits prod.splits)+

lemma sound_closed:
  assumes "sound cfg s" and "0 < sys_closed s" and "1 \<le> failure_threshold cfg"
  shows "sound cfg (s\<lparr>sys_cb := snd (settle_closed cfg t v err (sys_cb s)), sys_closed := sys_closed s - 1\<rparr>)"
  using assms by (cases v) (auto simp: sound_def section_defs)

lemma sound_probe:
  assumes "sound cfg s" and "0 < sys_probes s" and "1 \<le> failure_threshold cfg" and "1 \<le> success_threshold cfg"
  shows "sound cfg (s\<lparr>sys_cb := snd (settle_probe cfg t v err (sys_cb s)), sys_probes := sys_probes s - 1\<rparr>)"
  using assms by (cases v) (auto simp: sound_def section_defs)

lemma sound_query: "sound cfg s \<Longrightarrow> sound cfg (s\<lparr>sys_cb := snd (get_state cfg t (sys_cb s))\<rparr>)"
  by (auto simp: sound_def section_defs)

lemma validate_bounds:
  "validate c = Inr c' \<Longrightarrow> 1 \<le> failure_threshold c \<and> 1 \<le> success_threshold c \<and> second \<le> reset_timeout c"
  by (auto simp: validate_def split: if_splits)

lemma sound_step:
  assumes "cb_step cfg s s'" and "sound cfg s" and "1 \<le> failure_threshold cfg" and "1 \<le> success_threshold cfg"
  shows "sound cfg s'"
  using assms(1)
proof cases
  case (reply t a e b)
  with sound_admit(1) [OF reply(2) assms(2) refl] show ?thesis by simp
next
  case (begin_closed t b)
  with sound_admit(2) [OF begin_closed(2) assms(2) refl] show ?thesis by simp
next
  case (begin_probe t b)
  with sound_admit(3) [OF begin_probe(2) assms(2) refl] show ?thesis by simp
qed (use sound_closed sound_probe sound_query assms in auto)

text \<open>Sequences of calls that do not overlap.\<close>

type_synonym 'v call = "time \<times> time \<times> 'v option \<times> go_err option"

definition run_call :: "cb_config \<Rightarrow> 'v call \<Rightarrow> 'v breaker \<Rightarrow> 'v breaker" where
  "run_call cfg c b = (case c of (t, t', v, err) \<Rightarrow> snd (snd (execute cfg t t' v err b)))"

definition failing :: "'v call \<Rightarrow> bool" where
  "failing c = (case c of (t, t', v, err) \<Rightarrow> is_failure err)"

lemma run_call_closed:
  assumes "cb_state b = StateClosed" and "failing c"
  shows "cb_fails (run_call cfg c b) = cb_fails b + 1"
    and "cb_state (run_call cfg c b) = (if cb_fails b + 1 \<ge> failure_threshold cfg then StateOpen else StateClosed)"
  using assms by (auto simp: run_call_def execute_def failing_def section_defs split: prod.splits)

lemma failing_run:
  assumes "\<forall>c \<in> set cs. failing c" and "cb_state b = StateClosed" and "cb_fails b + int (length cs) \<le> failure_threshold cfg"
    and "cb_fails b < failure_threshold cfg"
  shows "cb_state (fold (run_call cfg) cs b) =
      (if cb_fails b + int (length cs) = failure_threshold cfg then StateOpen else StateClosed)"
  using assms
proof (induction cs arbitrary: b)
  case (Cons c cs)
  note one = run_call_closed [OF Cons.prems(2), of c cfg]
  show ?case
  proof (cases "cs = []")
    case True
    with one Cons.prems show ?thesis by auto
  next
    case False
    then have "1 \<le> int (length cs)" by (cases cs) simp_all
    with one Cons.prems have "cb_state (run_call cfg c b) = StateClosed" "cb_fails (run_call cfg c b) = cb_fails b + 1"
      "cb_fails (run_call cfg c b) < failure_threshold cfg" by auto
    with Cons.IH [of "run_call cfg c b"] Cons.prems show ?thesis by (simp add: algebra_simps)
  qed
qed simp

text \<open>A successful call while half-open, or open with the reset timeout over.\<close>

definition probing :: "cb_config \<Rightarrow> 'v breaker \<Rightarrow> 'v call \<Rightarrow> bool" where
  "probing cfg b c \<longleftrightarrow> \<not> failing c \<and> (cb_state b = StateHalfOpen \<and> \<not> cb_probe b \<or>
     cb_state b = StateOpen \<and> fst c - cb_last_change b \<ge> reset_timeout cfg)"

lemma run_call_probe:
  assumes "probing cfg b c"
  shows "cb_state (run_call cfg c b) = (if cb_succ b + 1 \<ge> success_threshold cfg then StateClosed else StateHalfOpen)"
    and "\<not> cb_probe (run_call cfg c b)"
    and "cb_succ (run_call cfg c b) = (if cb_succ b + 1 \<ge> success_threshold cfg then 0 else cb_succ b + 1)"
proof -
  obtain t t' v err where c: "c = (t, t', v, err)" by (cases c) auto
  have "cb_state (run_call cfg c b) = (if cb_succ b + 1 \<ge> success_threshold cfg then StateClosed else StateHalfOpen) \<and>
    \<not> cb_probe (run_call cfg c b) \<and>
    cb_succ (run_call cfg c b) = (if cb_succ b + 1 \<ge> success_threshold cfg then 0 else cb_succ b + 1)"
    using assms unfolding c
    by (cases v; cases "cb_state b"; cases "cb_succ b + 1 \<ge> success_threshold cfg")
      (simp_all add: run_call_def execute_def failing_def probing_def section_defs)
  then show "cb_state (run_call cfg c b) = (if cb_succ b + 1 \<ge> success_threshold cfg then StateClosed else StateHalfOpen)"
    "\<not> cb_probe (run_call cfg c b)"
    "cb_succ (run_call cfg c b) = (if cb_succ b + 1 \<ge> success_threshold cfg then 0 else cb_succ b + 1)" by simp_all
qed

lemma probing_run:
  assumes "probing cfg b c" and "\<forall>c \<in> set cs. \<not> failing c" and "cb_succ b + int (length (c # cs)) \<le> success_threshold cfg"
  shows "cb_state (fold (run_call cfg) (c # cs) b) =
      (if cb_succ b + int (length (c # cs)) = success_threshold cfg then StateClosed else StateHalfOpen)"
  using assms
proof (induction cs arbitrary: b c)
  case Nil
  with run_call_probe [OF Nil.prems(1)] show ?case by auto
next
  case (Cons c' cs)
  note one = run_call_probe [OF Cons.prems(1)]
  have "\<not> cb_succ b + 1 \<ge> success_threshold cfg" using Cons.prems(3) by simp
  then have "probing cfg (run_call cfg c b) c'" "cb_succ (run_call cfg c b) = cb_succ b + 1"
    using one Cons.prems(2) by (auto simp: probing_def)
  with Cons.IH [of "run_call cfg c b" c'] Cons.prems show ?case by (simp add: algebra_simps)
qed

subsection \<open>Properties\<close>


definition demo_cfg :: cb_config where
  "demo_cfg = (default_config ''bids'')\<lparr>failure_threshold := 2\<rparr>"

definition demo_breaker :: "nat breaker" where
  "demo_breaker = \<lparr>cb_state = StateClosed, cb_fails = 0, cb_succ = 0, cb_last_failure = None, cb_last_change = 0,
     cb_requests = 0, cb_failures = 0, cb_probe = False, cb_cache = None, gauge_state = StateClosed, gauge_fails = 0\<rparr>"

definition demo_err :: go_err where
  "demo_err = \<lparr>ge_http = Some 503, ge_net_timeout = None, ge_op = False, ge_deadline = False\<rparr>"

lemma demo_new: "new_breaker demo_cfg 0 = Inr demo_breaker"
  by (simp add: new_breaker_def validate_def demo_cfg_def default_config_def demo_breaker_def second_def)


text \<open>Consecutive failures open the circuit exactly at the threshold: from a closed breaker without
  failures, any run of failing calls leaves it closed while shorter than the threshold and open when
  as long.\<close>

theorem breaker_opens_at_threshold:
  assumes "\<forall>c \<in> set cs. failing c" and "cb_state b = StateClosed" "cb_fails b = 0" "1 \<le> failure_threshold cfg"
    and "int (length cs) \<le> failure_threshold cfg"
  shows "cb_state (fold (run_call cfg) cs b) = (if int (length cs) = failure_threshold cfg then StateOpen else StateClosed)"
  using failing_run [OF assms(1,2), of cfg] assms(3-5) by simp

theorem breaker_opens_at_threshold_witness:
  "cb_state (fold (run_call demo_cfg) [(1, 2, None, Some demo_err), (3, 4, Some 7, Some demo_err)] demo_breaker) = StateOpen"
  using breaker_opens_at_threshold [of "[(1, 2, None, Some demo_err), (3, 4, Some 7, Some demo_err)]" demo_breaker demo_cfg]
  by (simp add: failing_def is_failure_def demo_err_def demo_breaker_def demo_cfg_def default_config_def)

text \<open>An open circuit shields the service: until the reset timeout is over the function does not
  run, the answer is the cached value if it is fresh and otherwise the degradation response with the
  error for an open circuit, and only the request counter changes.\<close>

theorem open_breaker_shields:
  assumes "cb_state b = StateOpen" and "t - cb_last_change b < reset_timeout cfg"
  shows "execute cfg t t' v err b =
    ((case get_cached_response cfg t b of Some r \<Rightarrow> (Value (Some r), None) | None \<Rightarrow> (Degraded, Some ErrCircuitOpen)),
     False, b\<lparr>cb_requests := cb_requests b + 1\<rparr>)"
  using assms by (auto simp: execute_def admit_def fallback_def get_cached_response_def split: option.splits prod.splits)

theorem open_breaker_shields_witness:
  "execute demo_cfg 5 6 (Some 1) None (demo_breaker\<lparr>cb_state := StateOpen, cb_cache := Some (9, 4)\<rparr>) =
     ((Value (Some 9), None), False, demo_breaker\<lparr>cb_state := StateOpen, cb_cache := Some (9, 4), cb_requests := 1\<rparr>)"
  using open_breaker_shields [of "demo_breaker\<lparr>cb_state := StateOpen, cb_cache := Some (9, 4)\<rparr>" 5 demo_cfg 6 "Some 1" None]
  by (simp add: demo_breaker_def demo_cfg_def default_config_def get_cached_response_def second_def)

text \<open>Recovery. When the reset timeout of an open circuit is over, as many successful calls in a row
  as the success threshold close it, and fewer leave it half-open.\<close>

theorem breaker_recovers:
  assumes "cb_state b = StateOpen" "cb_succ b = 0" "fst c - cb_last_change b \<ge> reset_timeout cfg"
    and "\<forall>c' \<in> set (c # cs). \<not> failing c'" and "int (length (c # cs)) \<le> success_threshold cfg"
  shows "cb_state (fold (run_call cfg) (c # cs) b) =
    (if int (length (c # cs)) = success_threshold cfg then StateClosed else StateHalfOpen)"
proof -
  have "probing cfg b c" using assms(1,3,4) by (simp add: probing_def)
  with probing_run [of cfg b c cs] assms(2,4,5) show ?thesis by simp
qed

theorem breaker_recovers_witness:
  "cb_state (fold (run_call (demo_cfg\<lparr>success_threshold := 2\<rparr>))
     [(30 * second, 30 * second, Some 1, None), (31 * second, 31 * second, None, None)]
     (demo_breaker\<lparr>cb_state := StateOpen\<rparr>)) = StateClosed"
  using breaker_recovers [where b = "demo_breaker\<lparr>cb_state := StateOpen\<rparr>" and c = "(30 * second, 30 * second, Some 1, None)"
      and cfg = "demo_cfg\<lparr>success_threshold := 2\<rparr>" and cs = "[(31 * second, 31 * second, None, None)]"]
  by (simp add: failing_def is_failure_def demo_breaker_def demo_cfg_def default_config_def)

text \<open>The promise of one probe at a time does not hold. A call admitted while the circuit was closed
  can fail after the circuit has become half-open; it opens the circuit again and clears the probe
  flag, so that a second probe is admitted while the first is still running.\<close>

theorem two_probes_at_once:
  "\<exists>s. (cb_step demo_cfg)\<^sup>*\<^sup>* \<lparr>sys_cb = demo_breaker, sys_closed = 0, sys_probes = 0\<rparr> s \<and> sys_probes s = 2"
proof -
  let ?f = "\<lambda>b t. snd (settle_closed demo_cfg t None (Some demo_err) b)"
  let ?a = "\<lambda>b t. snd (admit demo_cfg t b)"
  let ?S = "\<lambda>b n m. \<lparr>sys_cb = b, sys_closed = n, sys_probes = m\<rparr> :: nat cb_sys"
  define b1 where "b1 = ?a (?a (?a demo_breaker 1) 2) 3"
  define b2 where "b2 = ?f (?f b1 4) 5"
  define b3 where "b3 = ?a b2 (40 * second)"
  define b4 where "b4 = ?f b3 (41 * second)"
  define b5 where "b5 = ?a b4 (80 * second)"
  have begins: "fst (admit demo_cfg t b) = RunClosed \<Longrightarrow> cb_step demo_cfg (?S b n m) (?S (?a b t) (n + 1) m)"
    "fst (admit demo_cfg t b) = RunProbe \<Longrightarrow> cb_step demo_cfg (?S b n m) (?S (?a b t) n (m + 1))" for t b n m
    using begin_closed [of demo_cfg t "?S b n m" "?a b t"] begin_probe [of demo_cfg t "?S b n m" "?a b t"]
    by (simp_all add: prod_eq_iff)
  have ends: "cb_step demo_cfg (?S b (Suc n) m) (?S (?f b t) n m)" for t b n m
    using end_closed [of "?S b (Suc n) m" demo_cfg t None "Some demo_err"] by simp
  have r: "fst (admit demo_cfg 1 demo_breaker) = RunClosed" "fst (admit demo_cfg 2 (?a demo_breaker 1)) = RunClosed"
    "fst (admit demo_cfg 3 (?a (?a demo_breaker 1) 2)) = RunClosed"
    "fst (admit demo_cfg (40 * second) b2) = RunProbe" "fst (admit demo_cfg (80 * second) b4) = RunProbe"
    unfolding b4_def b3_def b2_def b1_def by code_simp+
  have "(cb_step demo_cfg)\<^sup>*\<^sup>* (?S demo_breaker 0 0) (?S b1 3 0)"
    using begins(1) [OF r(1), of 0 0] begins(1) [OF r(2), of 1 0] begins(1) [OF r(3), of 2 0]
    by (auto simp: b1_def numeral_2_eq_2 numeral_3_eq_3 intro: converse_rtranclp_into_rtranclp)
  moreover have "(cb_step demo_cfg)\<^sup>*\<^sup>* (?S b1 3 0) (?S b2 1 0)"
    using ends [of b1 2 0 4] ends [of "?f b1 4" 1 0 5]
    by (auto simp: b2_def numeral_2_eq_2 numeral_3_eq_3 intro: converse_rtranclp_into_rtranclp)
  moreover have "(cb_step demo_cfg)\<^sup>*\<^sup>* (?S b2 1 0) (?S b5 0 2)"
    using begins(2) [OF r(4), of 1 0] ends [of b3 0 1 "41 * second"] begins(2) [OF r(5), of 0 1]
    by (auto simp: b3_def b4_def b5_def numeral_2_eq_2 intro: converse_rtranclp_into_rtranclp)
  ultimately have "(cb_step demo_cfg)\<^sup>*\<^sup>* (?S demo_breaker 0 0) (?S b5 0 2)" by (meson rtranclp_trans)
  then show ?thesis by (intro exI [of _ "?S b5 0 2"]) simp
qed

text \<open>An error that does not count as a failure (an HTTP status below 500, or an error of another
  kind) is not returned to the caller: the call answers without an error, and a result that came with
  the error is cached.\<close>

theorem other_errors_swallowed:
  assumes "cb_state b = StateClosed" and "\<not> is_failure err"
  shows "fst (execute cfg t t' (Some v) err b) = (Value (Some v), None) \<and>
    cb_cache (snd (snd (execute cfg t t' (Some v) err b))) = Some (v, t')"
  using assms by (simp add: execute_def admit_def settle_closed_def)

theorem other_errors_swallowed_witness:
  "fst (execute demo_cfg 1 2 (Some 3) (Some (demo_err\<lparr>ge_http := Some 404\<rparr>)) demo_breaker) = (Value (Some 3), None)"
  using other_errors_swallowed [of demo_breaker "Some (demo_err\<lparr>ge_http := Some 404\<rparr>)" demo_cfg 1 2 3]
  by (simp add: demo_breaker_def is_failure_def demo_err_def)

end
