(* ===== verification/RateLimit.thy ===== *)
theory RateLimit
  imports Prelude Float64
begin

text \<open>
  The sliding-window rate limiter of \<^verbatim>\<open>pkg/ratelimit\<close>: the configuration and the effective limit
  (\<^verbatim>\<open>ratelimit.go\<close>) and the in-memory limiter (\<^verbatim>\<open>memory.go\<close>), which also is the fallback of the
  Redis limiter. The mutex makes each operation atomic; each reads the clock once, except the
  comprehensive check, which goes through three operations with the time of each.

  A time is the nanoseconds since Go's zero time, so that \<^verbatim>\<open>Truncate\<close> is rounding down to a
  multiple. The weighted count is computed in binary64 floats as the code does.
\<close>

record endpoint_limit =
  el_path :: string
  el_limit :: int

record rate_config =
  rc_authenticated :: int
  rc_anonymous :: int
  rc_window :: duration
  rc_block_threshold :: int
  rc_block_duration :: duration
  rc_violation_window :: duration
  rc_endpoints :: "endpoint_limit list"

definition default_rate_config :: rate_config where
  "default_rate_config = \<lparr>rc_authenticated = 200, rc_anonymous = 30, rc_window = minute, rc_block_threshold = 10,
     rc_block_duration = 15 * minute, rc_violation_window = hour,
     rc_endpoints = [\<lparr>el_path = ''/login'', el_limit = 5\<rparr>, \<lparr>el_path = ''/register'', el_limit = 3\<rparr>,
       \<lparr>el_path = ''/bids'', el_limit = 30\<rparr>]\<rparr>"

definition effective_limit :: "rate_config \<Rightarrow> bool \<Rightarrow> string \<Rightarrow> int" where
  "effective_limit cfg authenticated endpoint =
     (let global = (if authenticated then rc_authenticated cfg else rc_anonymous cfg) in
      case find (\<lambda>e. el_path e = endpoint) (rc_endpoints cfg) of
        None \<Rightarrow> global
      | Some e \<Rightarrow> if el_limit e < global then el_limit e else global)"

record rate_result =
  rr_allowed :: bool
  rr_remaining :: int
  rr_retry_after :: duration
  rr_blocked :: bool
  rr_block_remaining :: duration

subsection \<open>The in-memory limiter\<close>

record window_entry =
  we_count :: int
  we_start :: time

record violation_record =
  vr_count :: int
  vr_first :: time

record limiter =
  windows :: "string \<Rightarrow> window_entry option"
  prev_windows :: "string \<Rightarrow> window_entry option"
  violations :: "string \<Rightarrow> violation_record option"
  blocks :: "string \<Rightarrow> time option"

definition new_limiter :: limiter where
  "new_limiter = \<lparr>windows = Map.empty, prev_windows = Map.empty, violations = Map.empty, blocks = Map.empty\<rparr>"

definition truncate_time :: "time \<Rightarrow> duration \<Rightarrow> time" where
  "truncate_time t d = (if d \<le> 0 then t else t - t mod d)"

definition rotate_windows :: "string \<Rightarrow> time \<Rightarrow> limiter \<Rightarrow> limiter" where
  "rotate_windows key cur m =
     (case windows m key of
        None \<Rightarrow> m
      | Some e \<Rightarrow> if we_start e = cur then m
          else m\<lparr>prev_windows := (prev_windows m)(key \<mapsto> e),
                 windows := (windows m)(key \<mapsto> \<lparr>we_count = 0, we_start = cur\<rparr>)\<rparr>)"

definition current_count :: "string \<Rightarrow> time \<Rightarrow> limiter \<Rightarrow> int" where
  "current_count key cur m = (case windows m key of
     Some e \<Rightarrow> if we_start e = cur then we_count e else 0 | None \<Rightarrow> 0)"

definition previous_count :: "string \<Rightarrow> limiter \<Rightarrow> int" where
  "previous_count key m = (case prev_windows m key of Some e \<Rightarrow> we_count e | None \<Rightarrow> 0)"

definition weighted_count :: "int \<Rightarrow> int \<Rightarrow> duration \<Rightarrow> duration \<Rightarrow> int" where
  "weighted_count cur prev elapsed window =
     float_to_int (fadd (fl (of_int cur))
       (fl (fl (of_int prev) * fl (fl (of_int (window - elapsed)) / fl (of_int window)))))"

definition allow :: "rate_config \<Rightarrow> time \<Rightarrow> string \<Rightarrow> int \<Rightarrow> limiter \<Rightarrow> (bool \<times> int \<times> duration) \<times> limiter" where
  "allow cfg t key limit m0 =
     (let window = rc_window cfg;
          cur = truncate_time t window;
          m = rotate_windows key cur m0;
          effective = weighted_count (current_count key cur m) (previous_count key m) (t - cur) window in
      if effective \<ge> limit then ((False, 0, cur + window - t), m)
      else
        let m' = m\<lparr>windows := (windows m)(key \<mapsto>
              \<lparr>we_count = current_count key cur m + 1, we_start = cur\<rparr>)\<rparr>
        in ((True, max 0 (limit - effective - 1), 0), m'))"

definition is_blocked :: "time \<Rightarrow> string \<Rightarrow> limiter \<Rightarrow> bool \<times> duration" where
  "is_blocked t ip m = (case blocks m ip of
     None \<Rightarrow> (False, 0)
   | Some until \<Rightarrow> if t > until then (False, 0) else (True, until - t))"

definition record_violation :: "rate_config \<Rightarrow> time \<Rightarrow> string \<Rightarrow> limiter \<Rightarrow> limiter" where
  "record_violation cfg t ip m =
     (case violations m ip of
        None \<Rightarrow> m\<lparr>violations := (violations m)(ip \<mapsto> \<lparr>vr_count = 1, vr_first = t\<rparr>)\<rparr>
      | Some r \<Rightarrow>
          if t - vr_first r > rc_violation_window cfg
          then m\<lparr>violations := (violations m)(ip \<mapsto> \<lparr>vr_count = 1, vr_first = t\<rparr>)\<rparr>
          else let m1 = m\<lparr>violations := (violations m)(ip \<mapsto> r\<lparr>vr_count := vr_count r + 1\<rparr>)\<rparr> in
               if vr_count r + 1 \<ge> rc_block_threshold cfg
               then m1\<lparr>blocks := (blocks m1)(ip \<mapsto> t + rc_block_duration cfg)\<rparr> else m1)"

definition build_key :: "string \<Rightarrow> bool \<Rightarrow> string \<Rightarrow> string" where
  "build_key ip authenticated endpoint =
     (let scope = (if authenticated then ''auth'' else ''anon'') in
      if endpoint \<noteq> '''' then scope @ '':'' @ endpoint @ '':'' @ ip else scope @ '':'' @ ip)"

text \<open>\<open>t1\<close>, \<open>t2\<close>, \<open>t3\<close>: the clock in the block check, the window check and the recording.\<close>

definition check :: "rate_config \<Rightarrow> time \<Rightarrow> time \<Rightarrow> time \<Rightarrow> string \<Rightarrow> bool \<Rightarrow> string \<Rightarrow> limiter \<Rightarrow> rate_result \<times> limiter" where
  "check cfg t1 t2 t3 ip authenticated endpoint m =
     (case is_blocked t1 ip m of
        (True, rest) \<Rightarrow> (\<lparr>rr_allowed = False, rr_remaining = 0, rr_retry_after = 0, rr_blocked = True,
            rr_block_remaining = rest\<rparr>, m)
      | (False, _) \<Rightarrow>
          (case allow cfg t2 (build_key ip authenticated endpoint) (effective_limit cfg authenticated endpoint) m of
             ((True, remaining, _), m') \<Rightarrow>
               (\<lparr>rr_allowed = True, rr_remaining = remaining, rr_retry_after = 0, rr_blocked = False,
                 rr_block_remaining = 0\<rparr>, m')
           | ((False, remaining, retry), m') \<Rightarrow>
               (\<lparr>rr_allowed = False, rr_remaining = remaining, rr_retry_after = retry, rr_blocked = False,
                 rr_block_remaining = 0\<rparr>, record_violation cfg t3 ip m')))"

text \<open>One tick of the cleanup goroutine.\<close>

definition keep_if :: "('v \<Rightarrow> bool) \<Rightarrow> (string \<Rightarrow> 'v option) \<Rightarrow> string \<Rightarrow> 'v option" where
  "keep_if P f k = (case f k of None \<Rightarrow> None | Some v \<Rightarrow> if P v then Some v else None)"

definition cleanup :: "rate_config \<Rightarrow> time \<Rightarrow> limiter \<Rightarrow> limiter" where
  "cleanup cfg t m = m\<lparr>
     blocks := keep_if (\<lambda>until. \<not> t > until) (blocks m),
     violations := keep_if (\<lambda>r. \<not> t - vr_first r > rc_violation_window cfg) (violations m),
     windows := keep_if (\<lambda>e. \<not> t - we_start e > 2 * rc_window cfg) (windows m),
     prev_windows := keep_if (\<lambda>e. \<not> t - we_start e > 2 * rc_window cfg) (prev_windows m)\<rparr>"

subsection \<open>Floats never lose a whole request\<close>

lemma weighted_count_ge:
  assumes "limit \<le> cur" and "0 \<le> limit" "limit \<le> 2 ^ 53" and "0 \<le> prev" and "elapsed \<le> window" "0 < window"
  shows "limit \<le> weighted_count cur prev elapsed window"
proof -
  let ?y = "fl (fl (of_int prev) * fl (fl (of_int (window - elapsed)) / fl (of_int window)))"
  have "0 \<le> fl (of_int prev)" "0 \<le> fl (of_int (window - elapsed))" "0 \<le> fl (of_int window)"
    using assms by (auto intro!: fl_nonneg)
  then have "0 \<le> ?y" by (metis fl_nonneg mult_nonneg_nonneg divide_nonneg_nonneg)
  moreover have "of_int limit \<le> fl (of_int cur)" using assms(1-3) by (intro fl_ge_int) simp_all
  ultimately have "of_int limit \<le> fl (of_int cur) + ?y" by linarith
  then have "of_int limit \<le> fadd (fl (of_int cur)) ?y" unfolding fadd_def by (rule fl_ge_int [OF _ assms(2,3)])
  then show ?thesis
    using assms(2) by (simp add: weighted_count_def float_to_int_def le_floor_iff)
qed


subsection \<open>The window bound\<close>

text \<open>A sequence of requests with their times and keys, each key with its limit, and what was allowed.\<close>

fun run_allow :: "rate_config \<Rightarrow> (string \<Rightarrow> int) \<Rightarrow> (time \<times> string) list \<Rightarrow> limiter \<Rightarrow> (time \<times> string \<times> bool) list" where
  "run_allow cfg L [] m = []"
| "run_allow cfg L ((t, k) # reqs) m =
     (let (r, m') = allow cfg t k (L k) m in (t, k, fst r) # run_allow cfg L reqs m')"

definition granted :: "rate_config \<Rightarrow> string \<Rightarrow> time \<Rightarrow> (time \<times> string \<times> bool) list \<Rightarrow> nat" where
  "granted cfg key w rs = length (filter (\<lambda>(t, k, ok). ok \<and> k = key \<and> truncate_time t (rc_window cfg) = w) rs)"

definition counts_ok :: "(string \<Rightarrow> int) \<Rightarrow> limiter \<Rightarrow> bool" where
  "counts_ok L m \<longleftrightarrow> (\<forall>k e. windows m k = Some e \<longrightarrow> 0 \<le> we_count e \<and> we_count e \<le> L k) \<and>
     (\<forall>k e. prev_windows m k = Some e \<longrightarrow> 0 \<le> we_count e)"

lemma truncate_bounds:
  assumes "0 < d"
  shows "truncate_time t d \<le> t" and "t - truncate_time t d < d"
  using assms by (simp_all add: truncate_time_def)

lemma truncate_mono: "t \<le> t' \<Longrightarrow> truncate_time t d \<le> truncate_time t' d"
proof (cases "d \<le> 0")
  case False
  assume "t \<le> t'"
  then have "t div d * d \<le> t' div d * d" using False by (intro mult_right_mono zdiv_mono1) auto
  moreover have "truncate_time x d = x div d * d" for x using False by (simp add: truncate_time_def minus_mod_eq_div_mult)
  ultimately show ?thesis by simp
qed (simp add: truncate_time_def)

lemma rotate_counts:
  assumes "counts_ok L m" and "\<forall>k. 0 \<le> L k"
  shows "counts_ok L (rotate_windows key cur m)"
    and "current_count key cur (rotate_windows key cur m) = current_count key cur m"
    and "k \<noteq> key \<Longrightarrow> windows (rotate_windows key cur m) k = windows m k"
  using assms by (auto simp: rotate_windows_def counts_ok_def current_count_def split: option.splits)

lemma previous_nonneg: "counts_ok L m \<Longrightarrow> 0 \<le> previous_count key m"
  by (auto simp: counts_ok_def previous_count_def split: option.splits)

lemma allow_effect:
  assumes "allow cfg t key (L key) m = ((ok, rem, retry), m')" and "counts_ok L m"
    and "\<forall>k. 0 \<le> L k \<and> L k \<le> 2 ^ 53" and "0 < rc_window cfg"
  shows "counts_ok L m'" and "k \<noteq> key \<Longrightarrow> windows m' k = windows m k"
    and "current_count key (truncate_time t (rc_window cfg)) m' =
      current_count key (truncate_time t (rc_window cfg)) m + (if ok then 1 else 0)"
    and "windows m' key = None \<or> (\<exists>e. windows m' key = Some e \<and> we_start e = truncate_time t (rc_window cfg))"
proof -
  let ?cur = "truncate_time t (rc_window cfg)" and ?m = "rotate_windows key (truncate_time t (rc_window cfg)) m"
  have L: "\<forall>k. 0 \<le> L k" using assms(3) by simp
  note rot = rotate_counts [OF assms(2) L, where key = key and cur = ?cur]
  have "0 \<le> current_count key ?cur ?m" using rot(1) by (auto simp: counts_ok_def current_count_def split: option.splits)
  moreover have "ok \<Longrightarrow> current_count key ?cur ?m < L key"
    using assms(1) weighted_count_ge [of "L key" "current_count key ?cur ?m" "previous_count key ?m" "t - ?cur" "rc_window cfg"]
      previous_nonneg [OF rot(1)] truncate_bounds [OF assms(4), of t] assms(3,4)
    by (force simp: allow_def Let_def split: if_splits)
  ultimately show "counts_ok L m'"
    using assms(1) rot(1) by (auto simp: allow_def Let_def counts_ok_def split: if_splits)
  show "k \<noteq> key \<Longrightarrow> windows m' k = windows m k"
    using assms(1) rot(3) by (auto simp: allow_def Let_def split: if_splits)
  show "current_count key ?cur m' = current_count key ?cur m + (if ok then 1 else 0)"
    using assms(1) rot(2) by (auto simp: allow_def Let_def current_count_def split: if_splits)
  have "windows ?m key = None \<or> (\<exists>e. windows ?m key = Some e \<and> we_start e = ?cur)"
    by (auto simp: rotate_windows_def split: option.splits)
  then show "windows m' key = None \<or> (\<exists>e. windows m' key = Some e \<and> we_start e = ?cur)"
    using assms(1) by (auto simp: allow_def Let_def split: if_splits)
qed

lemma granted_later:
  assumes "\<forall>r \<in> set reqs. w < truncate_time (fst r) (rc_window cfg)"
  shows "granted cfg key w (run_allow cfg L reqs m) = 0"
  using assms by (induction cfg L reqs m rule: run_allow.induct)
    (auto simp: granted_def Let_def split: prod.splits)

lemma granted_bound:
  assumes "counts_ok L m" and "\<forall>k. 0 \<le> L k \<and> L k \<le> 2 ^ 53" and "0 < rc_window cfg"
    and "sorted (map fst reqs)"
    and "\<forall>r \<in> set reqs. \<forall>e. windows m key = Some e \<longrightarrow> we_start e \<le> truncate_time (fst r) (rc_window cfg)"
  shows "int (granted cfg key w (run_allow cfg L reqs m)) \<le> L key - current_count key w m"
  using assms
proof (induction reqs arbitrary: m)
  case Nil
  then have "current_count key w m \<le> L key" by (auto simp: counts_ok_def current_count_def split: option.splits)
  then show ?case by (simp add: granted_def)
next
  case (Cons r reqs)
  obtain t k where r: "r = (t, k)" by fastforce
  obtain ok rem retry m' where a: "allow cfg t k (L k) m = ((ok, rem, retry), m')" by (metis prod.exhaust)
  note eff = allow_effect [where L = L, OF a Cons.prems(1-3)]
  let ?cur = "truncate_time t (rc_window cfg)"
  have later: "\<forall>x \<in> set reqs. ?cur \<le> truncate_time (fst x) (rc_window cfg)"
    using Cons.prems(4) r by (auto intro: truncate_mono)
  have step: "granted cfg key w (run_allow cfg L (r # reqs) m) =
      (if ok \<and> k = key \<and> ?cur = w then 1 else 0) + granted cfg key w (run_allow cfg L reqs m')"
    by (simp add: r a granted_def)
  have starts: "\<forall>x \<in> set reqs. \<forall>e. windows m' key = Some e \<longrightarrow> we_start e \<le> truncate_time (fst x) (rc_window cfg)"
  proof (cases "k = key")
    case True
    with eff(4) later show ?thesis by auto
  next
    case False
    with eff(2) [of key] Cons.prems(5) show ?thesis by auto
  qed
  have ih: "int (granted cfg key w (run_allow cfg L reqs m')) \<le> L key - current_count key w m'"
    by (rule Cons.IH [OF eff(1) Cons.prems(2,3) _ starts]) (use Cons.prems(4) in simp)
  show ?case
  proof (cases "k = key")
    case False
    with eff(2) [of key] ih step show ?thesis by (simp add: current_count_def)
  next
    case True
    consider "?cur = w" | "w < ?cur" | "?cur < w" by linarith
    then show ?thesis
    proof cases
      case 1
      with eff(3) ih step True show ?thesis by (cases ok) simp_all
    next
      case 2
      have "granted cfg key w (run_allow cfg L reqs m') = 0" by (rule granted_later) (use later 2 in fastforce)
      moreover have "current_count key w m \<le> L key"
        using Cons.prems(1,2) by (auto simp: counts_ok_def current_count_def split: option.splits)
      ultimately show ?thesis using step 2 by simp
    next
      case 3
      have "current_count key w m = 0"
        using Cons.prems(5) r 3 by (fastforce simp: current_count_def split: option.splits)
      moreover have "current_count key w m' = 0"
        using eff(4) True 3 by (auto simp: current_count_def split: option.splits)
      ultimately show ?thesis using ih step 3 by simp
    qed
  qed
qed

subsection \<open>Blocking\<close>

lemma record_violation_count:
  assumes "violations m ip = Some r" and "t - vr_first r \<le> rc_violation_window cfg"
  shows "violations (record_violation cfg t ip m) ip = Some (r\<lparr>vr_count := vr_count r + 1\<rparr>)"
    and "vr_count r + 1 \<ge> rc_block_threshold cfg \<Longrightarrow>
      blocks (record_violation cfg t ip m) ip = Some (t + rc_block_duration cfg)"
  using assms by (simp_all add: record_violation_def Let_def)

lemma violations_count:
  assumes "violations m ip = Some r" and "\<forall>t \<in> set ts. t - vr_first r \<le> rc_violation_window cfg"
  shows "violations (fold (\<lambda>t. record_violation cfg t ip) ts m) ip = Some (r\<lparr>vr_count := vr_count r + int (length ts)\<rparr>)"
  using assms
proof (induction ts arbitrary: m r)
  case (Cons t ts)
  then have "violations (record_violation cfg t ip m) ip = Some (r\<lparr>vr_count := vr_count r + 1\<rparr>)"
    by (intro record_violation_count(1)) auto
  from Cons.IH [OF this] Cons.prems(2) show ?case by (simp add: algebra_simps)
qed simp

subsection \<open>Properties\<close>

text \<open>The window bound. For requests in the order of their times, under any mix of keys, no key is
  granted more requests in one window than its limit, whatever rounding the weighted count suffers.\<close>

theorem window_bound:
  assumes "sorted (map fst reqs)" and "\<forall>k. 0 \<le> L k \<and> L k \<le> 2 ^ 53" and "0 < rc_window cfg"
  shows "int (granted cfg key w (run_allow cfg L reqs new_limiter)) \<le> L key"
  using granted_bound [where m = new_limiter and L = L and reqs = reqs and key = key and w = w, OF _ assms(2,3,1)]
  by (simp add: counts_ok_def new_limiter_def current_count_def)

theorem window_bound_witness:
  "granted default_rate_config ''a'' 0 (run_allow default_rate_config (\<lambda>k. 2) [(1, ''a''), (2, ''b''), (3, ''a''), (4, ''a'')] new_limiter) \<le> 2"
  using window_bound [of "[(1, ''a''), (2, ''b''), (3, ''a''), (4, ''a'')]" "\<lambda>k. 2" default_rate_config "''a''" 0]
  by (simp add: default_rate_config_def minute_def second_def)

text \<open>Blocking. An IP without a record that commits as many violations as the threshold, at least
  two and all within the violation window of the first, is blocked for the block duration: until
  then every check of it is refused as blocked and changes nothing.\<close>

theorem violations_block:
  assumes "violations m ip = None" and "\<forall>t \<in> set ts. t - t0 \<le> rc_violation_window cfg"
    and "\<forall>t \<in> set ts. t0 \<le> t" and "rc_block_threshold cfg \<le> int (length ts) + 1" and "ts \<noteq> []"
    and "t \<le> last ts + rc_block_duration cfg"
    and "m' = fold (\<lambda>t. record_violation cfg t ip) (t0 # ts) m"
  shows "check cfg t t2 t3 ip authenticated endpoint m' =
    (\<lparr>rr_allowed = False, rr_remaining = 0, rr_retry_after = 0, rr_blocked = True,
      rr_block_remaining = last ts + rc_block_duration cfg - t\<rparr>, m')"
proof -
  let ?m1 = "record_violation cfg t0 ip m"
  obtain us u where us: "ts = us @ [u]" using assms(5) by (metis rev_exhaust)
  have "violations ?m1 ip = Some \<lparr>vr_count = 1, vr_first = t0\<rparr>" using assms(1) by (simp add: record_violation_def)
  from violations_count [OF this, of us cfg] assms(2) us
  have v: "violations (fold (\<lambda>t. record_violation cfg t ip) us ?m1) ip = Some \<lparr>vr_count = 1 + int (length us), vr_first = t0\<rparr>"
    by simp
  have "blocks m' ip = Some (u + rc_block_duration cfg)"
    using record_violation_count(2) [OF v, of u cfg] assms(2,4,7) us by simp
  with assms(6) us show ?thesis by (simp add: check_def is_blocked_def)
qed

theorem violations_block_witness:
  "rr_blocked (fst (check default_rate_config 100 101 102 ''1.2.3.4'' True ''/bids''
     (fold (\<lambda>t. record_violation default_rate_config t ''1.2.3.4'') [1, 2, 3, 4, 5, 6, 7, 8, 9, 10] new_limiter)))"
  using violations_block [where m = new_limiter and ip = "''1.2.3.4''" and ts = "[2, 3, 4, 5, 6, 7, 8, 9, 10]" and ?t0.0 = 1
      and cfg = default_rate_config and t = 100 and m' = "fold (\<lambda>t. record_violation default_rate_config t ''1.2.3.4'') [1, 2, 3, 4, 5, 6, 7, 8, 9, 10] new_limiter"
      and ?t2.0 = 101 and ?t3.0 = 102 and authenticated = True and endpoint = "''/bids''"]
  by (simp add: new_limiter_def default_rate_config_def hour_def minute_def second_def)

text \<open>The previous window may be an old one. The in-memory limiter rotates a key only when it is used
  again and never compares the age of the rotated entry, so after three idle windows the thirty
  requests of the first still count in full against a limit of thirty.\<close>

theorem stale_window_counts:
  "fst (fst (allow default_rate_config (3 * minute) ''k'' 30
     (new_limiter\<lparr>windows := [''k'' \<mapsto> \<lparr>we_count = 30, we_start = 0\<rparr>]\<rparr>))) = False"
  by code_simp

end
