(* ===== verification/AuctionDb.thy ===== *)
theory AuctionDb
  imports Session Float64
begin

text \<open>
  The database the auction service and the bid service share: auctions, bids and the categories an
  auction refers to, with the constraints of \<^verbatim>\<open>services/auction-service/migrations/001_init.sql\<close>, and the
  statements of \<^verbatim>\<open>internal/repository/auction_repository.go\<close>. Money columns hold cents; a row and the
  Go struct scanned from it share a record (\<open>float64\<close> in the struct). Every statement runs on the
  pool, as a transaction of its own; in particular the row locks of the two scheduler queries end
  with the query.
\<close>

datatype auction_state = StateDraft | StateScheduled | StateActive | StateEnding | StateEnded | StateArchived

primrec state_name :: "auction_state \<Rightarrow> string" where
  "state_name StateDraft = ''draft''"
| "state_name StateScheduled = ''scheduled''"
| "state_name StateActive = ''active''"
| "state_name StateEnding = ''ending''"
| "state_name StateEnded = ''ended''"
| "state_name StateArchived = ''archived''"

definition valid_transitions :: "(auction_state \<times> auction_state list) list" where
  "valid_transitions =
     [(StateDraft, [StateScheduled, StateActive]),
      (StateScheduled, [StateActive, StateDraft]),
      (StateActive, [StateEnding, StateEnded]),
      (StateEnding, [StateEnded]),
      (StateEnded, [StateArchived])]"

definition can_transition :: "auction_state \<Rightarrow> auction_state \<Rightarrow> bool" where
  "can_transition st st' = (case map_of valid_transitions st of None \<Rightarrow> False | Some allowed \<Rightarrow> st' \<in> set allowed)"

record 'm auction =
  a_id :: uuid
  a_seller :: uuid
  a_title :: string
  a_description :: string
  a_category :: "uuid option"
  a_starting :: 'm
  a_reserve :: 'm
  a_current :: 'm
  a_state :: auction_state
  a_start :: time
  a_end :: time
  a_winner :: "uuid option"
  a_total_bids :: int
  a_created :: time
  a_updated :: time
  a_deleted :: "time option"

record 'm bid =
  b_id :: uuid
  b_auction :: uuid
  b_user :: uuid
  b_amount :: 'm
  b_created :: time

record aucdb =
  auctions :: "int auction list"
  bids :: "int bid list"
  categories :: "uuid list"

definition scan_auction :: "int auction \<Rightarrow> float64 auction" where
  "scan_auction a = \<lparr>a_id = a_id a, a_seller = a_seller a, a_title = a_title a, a_description = a_description a,
     a_category = a_category a, a_starting = dec (a_starting a), a_reserve = dec (a_reserve a),
     a_current = dec (a_current a), a_state = a_state a, a_start = a_start a, a_end = a_end a,
     a_winner = a_winner a, a_total_bids = a_total_bids a, a_created = a_created a,
     a_updated = a_updated a, a_deleted = a_deleted a\<rparr>"

definition scan_bid :: "int bid \<Rightarrow> float64 bid" where
  "scan_bid b = \<lparr>b_id = b_id b, b_auction = b_auction b, b_user = b_user b, b_amount = dec (b_amount b),
     b_created = b_created b\<rparr>"

lemma scan_auction_simps [simp]:
  "a_id (scan_auction a) = a_id a" "a_seller (scan_auction a) = a_seller a" "a_state (scan_auction a) = a_state a"
  "a_title (scan_auction a) = a_title a" "a_description (scan_auction a) = a_description a"
  "a_reserve (scan_auction a) = dec (a_reserve a)" "a_current (scan_auction a) = dec (a_current a)"
  "a_deleted (scan_auction a) = a_deleted a" "a_winner (scan_auction a) = a_winner a"
  by (simp_all add: scan_auction_def)

subsection \<open>Statements\<close>

definition sql_insert_auction :: "float64 auction \<Rightarrow> aucdb db_update" where
  "sql_insert_auction a d =
     (case (money (a_starting a), money (a_reserve a), money (a_current a)) of
        (Some st, Some re, Some cu) \<Rightarrow>
          (if 255 < length (a_title a) then Inl ValueTooLong
           else if st < 0 then Inl CheckViolation
           else if a_id a \<in> a_id ` set (auctions d) then Inl UniqueViolation
           else if (case a_category a of None \<Rightarrow> False | Some c \<Rightarrow> c \<notin> set (categories d)) then Inl ForeignKeyViolation
           else Inr (d\<lparr>auctions := auctions d @ [\<lparr>a_id = a_id a, a_seller = a_seller a, a_title = a_title a,
             a_description = a_description a, a_category = a_category a, a_starting = st, a_reserve = re,
             a_current = cu, a_state = a_state a, a_start = a_start a, a_end = a_end a, a_winner = None,
             a_total_bids = 0, a_created = a_created a, a_updated = a_updated a, a_deleted = None\<rparr>]\<rparr>, 1))
      | _ \<Rightarrow> Inl NumericOverflow)"

definition matching :: "(int auction \<Rightarrow> bool) \<Rightarrow> aucdb \<Rightarrow> nat" where
  "matching P d = length (filter P (auctions d))"

definition change_auctions :: "(int auction \<Rightarrow> bool) \<Rightarrow> (int auction \<Rightarrow> int auction) \<Rightarrow> aucdb db_update" where
  "change_auctions P f d = Inr (d\<lparr>auctions := update_where P f (auctions d)\<rparr>, matching P d)"

definition sql_update_auction :: "float64 auction \<Rightarrow> time \<Rightarrow> aucdb db_update" where
  "sql_update_auction a t d =
     (let P = (\<lambda>r. a_id r = a_id a \<and> a_deleted r = None) in
      if matching P d = 0 then Inr (d, 0)
      else if 255 < length (a_title a) then Inl ValueTooLong
      else (case money (a_reserve a) of None \<Rightarrow> Inl NumericOverflow
        | Some re \<Rightarrow> change_auctions P
            (\<lambda>r. r\<lparr>a_title := a_title a, a_description := a_description a, a_reserve := re, a_updated := t\<rparr>) d))"

definition sql_update_state :: "uuid \<Rightarrow> auction_state \<Rightarrow> time \<Rightarrow> aucdb db_update" where
  "sql_update_state aid st t = change_auctions (\<lambda>r. a_id r = aid) (\<lambda>r. r\<lparr>a_state := st, a_updated := t\<rparr>)"

definition sql_set_winner :: "uuid \<Rightarrow> uuid \<Rightarrow> float64 \<Rightarrow> time \<Rightarrow> aucdb db_update" where
  "sql_set_winner aid w amount t d =
     (if matching (\<lambda>r. a_id r = aid) d = 0 then Inr (d, 0)
      else (case money amount of None \<Rightarrow> Inl NumericOverflow
        | Some c \<Rightarrow> change_auctions (\<lambda>r. a_id r = aid)
            (\<lambda>r. r\<lparr>a_winner := Some w, a_current := c, a_state := StateEnded, a_updated := t\<rparr>) d))"

definition sql_soft_delete :: "uuid \<Rightarrow> time \<Rightarrow> aucdb db_update" where
  "sql_soft_delete aid t = change_auctions (\<lambda>r. a_id r = aid) (\<lambda>r. r\<lparr>a_deleted := Some t\<rparr>)"

definition sql_incr_bid_count :: "uuid \<Rightarrow> float64 \<Rightarrow> time \<Rightarrow> aucdb db_update" where
  "sql_incr_bid_count aid price t d =
     (if matching (\<lambda>r. a_id r = aid) d = 0 then Inr (d, 0)
      else (case money price of None \<Rightarrow> Inl NumericOverflow
        | Some c \<Rightarrow> change_auctions (\<lambda>r. a_id r = aid)
            (\<lambda>r. r\<lparr>a_total_bids := a_total_bids r + 1, a_current := c, a_updated := t\<rparr>) d))"

text \<open>
  The bids of an auction from the highest down, as \<^verbatim>\<open>ORDER BY amount DESC\<close> gives them; SQL leaves the
  order of equal amounts open, here it is the table's.
\<close>

definition bids_desc :: "uuid \<Rightarrow> aucdb \<Rightarrow> int bid list" where
  "bids_desc aid d = sort_key (\<lambda>b. - b_amount b) (filter (\<lambda>b. b_auction b = aid) (bids d))"

definition top_bid :: "uuid \<Rightarrow> aucdb \<Rightarrow> int bid option" where
  "top_bid aid d = (case bids_desc aid d of [] \<Rightarrow> None | b # _ \<Rightarrow> Some b)"

lemma set_bids_desc [simp]: "set (bids_desc aid d) = {b \<in> set (bids d). b_auction b = aid}"
  by (auto simp: bids_desc_def)

lemma top_bidD:
  assumes "top_bid aid d = Some b"
  shows "b \<in> set (bids d)" and "b_auction b = aid"
    and "\<forall>b' \<in> set (bids d). b_auction b' = aid \<longrightarrow> b_amount b' \<le> b_amount b"
proof -
  obtain bs where bs: "bids_desc aid d = b # bs" using assms by (auto simp: top_bid_def split: list.splits)
  have "b \<in> set (bids_desc aid d)" using bs by simp
  then show "b \<in> set (bids d)" "b_auction b = aid" by auto
  have "sorted (map (\<lambda>b. - b_amount b) (bids_desc aid d))" by (simp add: bids_desc_def)
  with bs have "\<forall>b' \<in> set (bids_desc aid d). b_amount b' \<le> b_amount b" by auto
  then show "\<forall>b' \<in> set (bids d). b_auction b' = aid \<longrightarrow> b_amount b' \<le> b_amount b" by simp
qed

lemma top_bid_none: "top_bid aid d = None \<longleftrightarrow> (\<forall>b \<in> set (bids d). b_auction b \<noteq> aid)"
proof -
  have "top_bid aid d = None \<longleftrightarrow> bids_desc aid d = []" by (simp add: top_bid_def split: list.splits)
  also have "\<dots> \<longleftrightarrow> set (bids_desc aid d) = {}" by (simp only: set_empty)
  finally show ?thesis by auto
qed

subsection \<open>Repository\<close>

type_synonym 'a auc_op = "(aucdb, db_error, 'a) db_op"

definition live_auction :: "uuid \<Rightarrow> aucdb \<Rightarrow> int auction option" where
  "live_auction aid d = find (\<lambda>a. a_id a = aid \<and> a_deleted a = None) (auctions d)"

definition create_auction :: "float64 auction \<Rightarrow> nat auc_op" where
  "create_auction a = pool_exec (sql_insert_auction a)"

definition get_by_id :: "uuid \<Rightarrow> float64 auction auc_op" where
  "get_by_id aid = pool_query (\<lambda>d. map_option scan_auction (live_auction aid d))"

definition update_auction :: "float64 auction \<Rightarrow> time \<Rightarrow> nat auc_op" where
  "update_auction a t = pool_exec (sql_update_auction a t)"

definition update_state :: "uuid \<Rightarrow> auction_state \<Rightarrow> time \<Rightarrow> nat auc_op" where
  "update_state aid st t = pool_exec (sql_update_state aid st t)"

definition set_winner :: "uuid \<Rightarrow> uuid \<Rightarrow> float64 \<Rightarrow> time \<Rightarrow> nat auc_op" where
  "set_winner aid w amount t = pool_exec (sql_set_winner aid w amount t)"

definition soft_delete :: "uuid \<Rightarrow> time \<Rightarrow> nat auc_op" where
  "soft_delete aid t = pool_exec (sql_soft_delete aid t)"

definition incr_bid_count :: "uuid \<Rightarrow> float64 \<Rightarrow> time \<Rightarrow> nat auc_op" where
  "incr_bid_count aid price t = pool_exec (sql_incr_bid_count aid price t)"

definition query_auctions :: "(aucdb \<Rightarrow> int auction list) \<Rightarrow> float64 auction list auc_op" where
  "query_auctions q = pool_query (\<lambda>d. Some (map scan_auction (q d)))"

definition due_to_start :: "time \<Rightarrow> int auction \<Rightarrow> bool" where
  "due_to_start t a \<longleftrightarrow> a_state a = StateScheduled \<and> a_start a \<le> t \<and> a_deleted a = None"

definition due_to_end :: "time \<Rightarrow> int auction \<Rightarrow> bool" where
  "due_to_end t a \<longleftrightarrow> a_state a = StateActive \<and> a_end a \<le> t \<and> a_deleted a = None"

definition get_scheduled_to_activate :: "time \<Rightarrow> float64 auction list auc_op" where
  "get_scheduled_to_activate t = query_auctions (\<lambda>d. filter (due_to_start t) (auctions d))"

definition get_expired_active :: "time \<Rightarrow> float64 auction list auc_op" where
  "get_expired_active t = query_auctions (\<lambda>d. filter (due_to_end t) (auctions d))"

text \<open>No row is not an error here but the empty bidder.\<close>

definition get_highest_bid :: "uuid \<Rightarrow> (string \<times> float64) auc_op" where
  "get_highest_bid aid = pool_query (\<lambda>d. Some (case top_bid aid d of
     None \<Rightarrow> ([], 0) | Some b \<Rightarrow> (b_user b, dec (b_amount b))))"

text \<open>Newest first, then the page; a negative offset is refused by the server.\<close>

definition listing :: "(int auction \<Rightarrow> bool) \<Rightarrow> aucdb \<Rightarrow> int auction list" where
  "listing P d = sort_key (\<lambda>a. - a_created a) (filter (\<lambda>a. a_deleted a = None \<and> P a) (auctions d))"

definition query_page :: "(int auction \<Rightarrow> bool) \<Rightarrow> int \<Rightarrow> int \<Rightarrow> float64 auction list auc_op" where
  "query_page P limit offset s =
     (if next_fault s then (Inl ConnError, Session.tick s)
      else if offset < 0 \<or> limit < 0 then (Inl NegativeOffset, Session.tick s)
      else (Inr (map scan_auction (take (nat limit) (drop (nat offset) (listing P (db s))))), Session.tick s))"

text \<open>The count's error is dropped: the total is then zero.\<close>

definition list_auctions :: "string \<Rightarrow> int \<Rightarrow> int \<Rightarrow> (float64 auction list \<times> int) auc_op" where
  "list_auctions st limit offset s =
     (let P = (\<lambda>a. st = [] \<or> state_name (a_state a) = st);
          (c, s') = pool_query (\<lambda>d. Some (int (length (listing P d)))) s;
          total = (case c of Inr n \<Rightarrow> n | Inl (_ :: db_error) \<Rightarrow> 0) in
      andthen (query_page P limit offset) (\<lambda>as. ret (as, total)) s')"

definition get_by_seller :: "uuid \<Rightarrow> float64 auction list auc_op" where
  "get_by_seller seller = query_auctions (listing (\<lambda>a. a_seller a = seller))"

end
