(* ===== verification/Redis.thy ===== *)
theory Redis
  imports Prelude
begin

text \<open>
  What the services use of Redis (through \<^verbatim>\<open>go-redis\<close>): \<^verbatim>\<open>SET\<close> and \<^verbatim>\<open>SETNX\<close> with an expiry, \<^verbatim>\<open>GET\<close>,
  \<^verbatim>\<open>DEL\<close>, \<^verbatim>\<open>PEXPIRE\<close>. A key may have an expiry; when it has come the key is absent. Every command first consumes one entry of a fault
  script (\<open>True\<close>: the command fails and is not applied).

  The locale \<open>lease\<close> is the interface of the locks the services build on \<^verbatim>\<open>SETNX\<close> with an expiry, and
  what such a lock promises as long as nobody releases it.
\<close>

record 'v redis =
  rd_keys :: "string \<Rightarrow> ('v \<times> time option) option"
  rd_faults :: "bool list"

definition redis_fails :: "'v redis \<Rightarrow> bool" where
  "redis_fails r = (case rd_faults r of [] \<Rightarrow> False | b # _ \<Rightarrow> b)"

definition after_command :: "'v redis \<Rightarrow> 'v redis" where
  "after_command r = r\<lparr>rd_faults := tl (rd_faults r)\<rparr>"

definition alive :: "time \<Rightarrow> time option \<Rightarrow> bool" where
  "alive t e = (case e of None \<Rightarrow> True | Some x \<Rightarrow> t < x)"

definition live :: "string \<Rightarrow> time \<Rightarrow> 'v redis \<Rightarrow> ('v \<times> time option) option" where
  "live k t r = (case rd_keys r k of Some (v, e) \<Rightarrow> if alive t e then Some (v, e) else None | None \<Rightarrow> None)"

definition redis_set :: "string \<Rightarrow> 'v \<Rightarrow> duration \<Rightarrow> time \<Rightarrow> 'v redis \<Rightarrow> bool \<times> 'v redis" where
  "redis_set k v ttl t r =
     (if redis_fails r then (False, after_command r)
      else (True, (after_command r)\<lparr>rd_keys := (rd_keys r)(k \<mapsto> (v, Some (t + ttl)))\<rparr>))"

text \<open>\<open>None\<close> is the error; otherwise whether the key was set.\<close>

definition redis_setnx :: "string \<Rightarrow> 'v \<Rightarrow> duration \<Rightarrow> time \<Rightarrow> 'v redis \<Rightarrow> bool option \<times> 'v redis" where
  "redis_setnx k v ttl t r =
     (if redis_fails r then (None, after_command r)
      else if live k t r = None then (Some True, (after_command r)\<lparr>rd_keys := (rd_keys r)(k \<mapsto> (v, Some (t + ttl)))\<rparr>)
      else (Some False, after_command r))"

definition redis_get :: "string \<Rightarrow> time \<Rightarrow> 'v redis \<Rightarrow> 'v option option \<times> 'v redis" where
  "redis_get k t r = (if redis_fails r then (None, after_command r)
     else (Some (map_option fst (live k t r)), after_command r))"

definition redis_del :: "string \<Rightarrow> 'v redis \<Rightarrow> bool \<times> 'v redis" where
  "redis_del k r = (if redis_fails r then (False, after_command r)
     else (True, (after_command r)\<lparr>rd_keys := (rd_keys r)(k := None)\<rparr>))"

definition redis_pexpire :: "string \<Rightarrow> duration \<Rightarrow> time \<Rightarrow> 'v redis \<Rightarrow> 'v redis" where
  "redis_pexpire k ttl t r = (case live k t r of None \<Rightarrow> r
     | Some (v, _) \<Rightarrow> r\<lparr>rd_keys := (rd_keys r)(k \<mapsto> (v, Some (t + ttl)))\<rparr>)"

lemma after_command_keys [simp]: "rd_keys (after_command r) = rd_keys r"
  "rd_faults (after_command r) = tl (rd_faults r)"
  by (simp_all add: after_command_def)

lemma redis_fails_none [simp]: "rd_faults r = [] \<Longrightarrow> \<not> redis_fails r"
  by (simp add: redis_fails_def)

subsection \<open>Locks with an expiry\<close>

locale lease =
  fixes acquire :: "time \<Rightarrow> 's \<Rightarrow> bool \<times> 's"
    and until :: "time \<Rightarrow> 's \<Rightarrow> time option option"
    and ttl :: duration
  assumes acquire_free: "fst (acquire t s) \<Longrightarrow> until t s = None"
    and acquire_sets: "fst (acquire t s) \<Longrightarrow> t' < t + ttl \<Longrightarrow> until t' (snd (acquire t s)) = Some (Some (t + ttl))"
    and acquire_keeps: "\<not> fst (acquire t s) \<Longrightarrow> until t' (snd (acquire t s)) = until t' s"
begin

text \<open>The attempts of several clients, in any order of their clocks.\<close>

fun attempts :: "time list \<Rightarrow> 's \<Rightarrow> bool list \<times> 's" where
  "attempts [] s = ([], s)"
| "attempts (t # ts) s = (let (b, s') = acquire t s; (bs, s'') = attempts ts s' in (b # bs, s''))"

lemma held_refuses:
  assumes "\<forall>t' \<in> set ts. until t' s \<noteq> None"
  shows "\<forall>b \<in> set (fst (attempts ts s)). \<not> b"
  using assms
proof (induction ts arbitrary: s)
  case (Cons t ts)
  then have no: "\<not> fst (acquire t s)" using acquire_free by fastforce
  then have "\<forall>t' \<in> set ts. until t' (snd (acquire t s)) \<noteq> None" using Cons.prems acquire_keeps by simp
  with Cons.IH no show ?case by (auto simp: split_beta Let_def)
qed simp

lemma exclusive:
  assumes "fst (acquire t s)" and "\<forall>t' \<in> set ts. t' < t + ttl"
  shows "\<forall>b \<in> set (fst (attempts ts (snd (acquire t s)))). \<not> b"
  by (rule held_refuses) (use assms acquire_sets in auto)

end

definition setnx_lock :: "string \<Rightarrow> 'v \<Rightarrow> duration \<Rightarrow> time \<Rightarrow> 'v redis \<Rightarrow> bool \<times> 'v redis" where
  "setnx_lock k v ttl t r = (case redis_setnx k v ttl t r of (Some b, r') \<Rightarrow> (b, r') | (None, r') \<Rightarrow> (False, r'))"

interpretation setnx: lease "setnx_lock k v ttl" "\<lambda>t r. map_option snd (live k t r)" ttl for k v ttl
  by unfold_locales (auto simp: setnx_lock_def redis_setnx_def live_def alive_def split: if_splits option.splits)

end
