(* ===== verification/Auction.thy ===== *)
theory Auction
  imports AuctionDb Redis
begin

text \<open>
  The auction service: its operations (\<^verbatim>\<open>services/auction-service/internal/service/auction_service.go\<close>
  with the error mapping and the handlers of \<^verbatim>\<open>internal/handler/auction_handler.go\<close>), its Redis cache and
  scheduler lock (\<^verbatim>\<open>internal/redis/cache.go\<close>), its events (\<^verbatim>\<open>internal/kafka/producer.go\<close>), and the
  scheduler that starts and ends auctions (\<^verbatim>\<open>internal/scheduler/scheduler.go\<close>).

  The state is the database session, Redis, the events the broker has taken and the outcomes still to come
  of its writes (\<open>True\<close>: taken). An operation reads the clock once, the argument \<open>t\<close>; the two phases of a
  scheduler tick read it each. The times of a create request are the results of \<^verbatim>\<open>time.Parse\<close>, of which
  the code drops the error. Logs and metrics are left out.
\<close>

datatype auc_value = Locked | Cached "float64 auction"

record auction_event =
  ev_type :: string
  ev_auction :: uuid
  ev_seller :: uuid
  ev_title :: string
  ev_category :: string
  ev_winner :: string
  ev_amount :: float64
  ev_time :: time

record auc_sys =
  au_sess :: "aucdb session"
  au_redis :: "auc_value redis"
  au_events :: "auction_event list"
  au_broker :: "bool list"

definition on_db :: "'a auc_op \<Rightarrow> auc_sys \<Rightarrow> (db_error + 'a) \<times> auc_sys" where
  "on_db m s = (let (r, ss) = m (au_sess s) in (r, s\<lparr>au_sess := ss\<rparr>))"

subsection \<open>Events, cache and lock\<close>

definition publish_event :: "auction_event \<Rightarrow> auc_sys \<Rightarrow> auc_sys" where
  "publish_event e s =
     (let s' = s\<lparr>au_broker := tl (au_broker s)\<rparr> in
      if au_broker s \<noteq> [] \<and> \<not> hd (au_broker s) then s' else s'\<lparr>au_events := au_events s @ [e]\<rparr>)"

definition event_of :: "string \<Rightarrow> uuid \<Rightarrow> uuid \<Rightarrow> string \<Rightarrow> string \<Rightarrow> float64 \<Rightarrow> time \<Rightarrow> auction_event" where
  "event_of ty aid seller title winner amount t = \<lparr>ev_type = ty, ev_auction = aid, ev_seller = seller,
     ev_title = title, ev_category = [], ev_winner = winner, ev_amount = amount, ev_time = t\<rparr>"

definition on_redis :: "(auc_value redis \<Rightarrow> 'a \<times> auc_value redis) \<Rightarrow> auc_sys \<Rightarrow> 'a \<times> auc_sys" where
  "on_redis m s = (let (x, r) = m (au_redis s) in (x, s\<lparr>au_redis := r\<rparr>))"

definition cache_auction :: "float64 auction \<Rightarrow> time \<Rightarrow> auc_sys \<Rightarrow> auc_sys" where
  "cache_auction a t s = snd (on_redis (redis_set (''auction:'' @ a_id a) (Cached a) (10 * minute) t) s)"

definition invalidate_auction :: "uuid \<Rightarrow> auc_sys \<Rightarrow> auc_sys" where
  "invalidate_auction aid s = snd (on_redis (redis_del (''auction:'' @ aid)) s)"

definition acquire_scheduler_lock :: "duration \<Rightarrow> time \<Rightarrow> auc_sys \<Rightarrow> bool \<times> auc_sys" where
  "acquire_scheduler_lock ttl t = on_redis (setnx_lock ''lock:auction_scheduler'' Locked ttl t)"

definition release_scheduler_lock :: "auc_sys \<Rightarrow> auc_sys" where
  "release_scheduler_lock s = snd (on_redis (redis_del ''lock:auction_scheduler'') s)"

subsection \<open>The service\<close>

datatype auc_err = ErrNotFound | ErrForbidden | ErrInvalidState | ErrInvalidTime | ErrAlreadyStarted
  | OtherErr db_error

record create_request =
  cr_title :: string
  cr_description :: string
  cr_category :: string
  cr_starting :: float64
  cr_reserve :: float64
  cr_start :: "time option"
  cr_end :: "time option"

record update_request =
  ur_title :: string
  ur_description :: string
  ur_reserve :: float64

text \<open>Go's zero \<^verbatim>\<open>time.Time\<close>, the first day of year one, as nanoseconds of the Unix epoch.\<close>

definition zero_time :: time where "zero_time = - 62135596800 * second"

definition parsed :: "time option \<Rightarrow> time" where
  "parsed p = (case p of None \<Rightarrow> zero_time | Some x \<Rightarrow> x)"

definition new_auction :: "uuid \<Rightarrow> time \<Rightarrow> uuid \<Rightarrow> create_request \<Rightarrow> float64 auction" where
  "new_auction aid t seller req = \<lparr>a_id = aid, a_seller = seller, a_title = cr_title req,
     a_description = cr_description req,
     a_category = (if cr_category req = [] then None else Some (cr_category req)),
     a_starting = cr_starting req, a_reserve = cr_reserve req, a_current = cr_starting req,
     a_state = (if parsed (cr_start req) < t then StateActive else StateScheduled),
     a_start = parsed (cr_start req), a_end = parsed (cr_end req), a_winner = None, a_total_bids = 0,
     a_created = t, a_updated = t, a_deleted = None\<rparr>"

definition create :: "uuid \<Rightarrow> time \<Rightarrow> uuid \<Rightarrow> create_request \<Rightarrow> auc_sys \<Rightarrow> (auc_err + float64 auction) \<times> auc_sys" where
  "create aid t seller req s =
     (if parsed (cr_end req) < parsed (cr_start req) \<or> parsed (cr_end req) < t then (Inl ErrInvalidTime, s)
      else let a = new_auction aid t seller req in
        case on_db (create_auction a) s of
          (Inl e, s1) \<Rightarrow> (Inl (OtherErr e), s1)
        | (Inr _, s1) \<Rightarrow>
            (let s2 = publish_event (event_of ''auction.created'' aid seller (a_title a) [] 0 t) s1 in
             (Inr a, cache_auction a t s2)))"

definition get_auction :: "uuid \<Rightarrow> auc_sys \<Rightarrow> (auc_err + float64 auction) \<times> auc_sys" where
  "get_auction aid s = (case on_db (get_by_id aid) s of
     (Inl e, s1) \<Rightarrow> (Inl ErrNotFound, s1) | (Inr a, s1) \<Rightarrow> (Inr a, s1))"

definition edited :: "update_request \<Rightarrow> float64 auction \<Rightarrow> float64 auction" where
  "edited req a = a\<lparr>a_title := (if ur_title req \<noteq> [] then ur_title req else a_title a),
     a_description := (if ur_description req \<noteq> [] then ur_description req else a_description a),
     a_reserve := (if 0 < ur_reserve req then ur_reserve req else a_reserve a)\<rparr>"

definition update :: "time \<Rightarrow> uuid \<Rightarrow> uuid \<Rightarrow> update_request \<Rightarrow> auc_sys \<Rightarrow> (auc_err + float64 auction) \<times> auc_sys" where
  "update t aid user req s = (case on_db (get_by_id aid) s of
     (Inl e, s1) \<Rightarrow> (Inl ErrNotFound, s1)
   | (Inr a, s1) \<Rightarrow>
       (if a_seller a \<noteq> user then (Inl ErrForbidden, s1)
        else if a_state a \<noteq> StateDraft \<and> a_state a \<noteq> StateScheduled then (Inl ErrAlreadyStarted, s1)
        else (case on_db (update_auction (edited req a) t) s1 of
            (Inl e, s2) \<Rightarrow> (Inl (OtherErr e), s2)
          | (Inr _, s2) \<Rightarrow> (Inr (edited req a), invalidate_auction aid s2))))"

definition delete :: "time \<Rightarrow> uuid \<Rightarrow> uuid \<Rightarrow> string \<Rightarrow> auc_sys \<Rightarrow> (auc_err + unit) \<times> auc_sys" where
  "delete t aid user role s = (case on_db (get_by_id aid) s of
     (Inl e, s1) \<Rightarrow> (Inl ErrNotFound, s1)
   | (Inr a, s1) \<Rightarrow>
       (if a_seller a \<noteq> user \<and> role \<noteq> ''admin'' then (Inl ErrForbidden, s1)
        else (case on_db (soft_delete aid t) s1 of
            (Inl e, s2) \<Rightarrow> (Inl (OtherErr e), s2)
          | (Inr _, s2) \<Rightarrow>
              (Inr (), publish_event (event_of ''auction.deleted'' aid [] [] [] 0 t) (invalidate_auction aid s2)))))"

record auction_page =
  pg_auctions :: "float64 auction list"
  pg_total :: int
  pg_page :: int
  pg_size :: int

definition list_page :: "string \<Rightarrow> int \<Rightarrow> int \<Rightarrow> auc_sys \<Rightarrow> (auc_err + auction_page) \<times> auc_sys" where
  "list_page st page0 size0 s =
     (let page = (if page0 \<le> 0 then 1 else page0);
          size = (if size0 \<le> 0 \<or> 100 < size0 then 20 else size0);
          offset = wrap64 ((page - 1) * size) in
      case on_db (list_auctions st size offset) s of
        (Inl e, s1) \<Rightarrow> (Inl (OtherErr e), s1)
      | (Inr (as, tot), s1) \<Rightarrow>
          (Inr \<lparr>pg_auctions = as, pg_total = tot, pg_page = page, pg_size = size\<rparr>, s1))"

definition list_by_seller :: "uuid \<Rightarrow> auc_sys \<Rightarrow> (auc_err + float64 auction list) \<times> auc_sys" where
  "list_by_seller seller s = (case on_db (get_by_seller seller) s of
     (Inl e, s1) \<Rightarrow> (Inl (OtherErr e), s1) | (Inr as, s1) \<Rightarrow> (Inr as, s1))"

subsection \<open>Handlers\<close>

primrec error_status :: "auc_err \<Rightarrow> nat" where
  "error_status ErrNotFound = 404"
| "error_status ErrForbidden = 403"
| "error_status ErrInvalidState = 400"
| "error_status ErrInvalidTime = 400"
| "error_status ErrAlreadyStarted = 409"
| "error_status (OtherErr e) = 500"

definition publish_handler :: "uuid \<Rightarrow> uuid \<Rightarrow> auc_sys \<Rightarrow> nat \<times> auc_sys" where
  "publish_handler aid user s = (case get_auction aid s of
     (Inl e, s1) \<Rightarrow> (404, s1)
   | (Inr a, s1) \<Rightarrow> (if a_seller a \<noteq> user then (403, s1) else (200, s1)))"

definition cancel_handler :: "time \<Rightarrow> uuid \<Rightarrow> uuid \<Rightarrow> string \<Rightarrow> auc_sys \<Rightarrow> nat \<times> auc_sys" where
  "cancel_handler t aid user role s = (case delete t aid user role s of
     (Inl e, s1) \<Rightarrow> (error_status e, s1) | (Inr _, s1) \<Rightarrow> (200, s1))"

subsection \<open>The scheduler\<close>

definition activate :: "time \<Rightarrow> float64 auction \<Rightarrow> auc_sys \<Rightarrow> auc_sys" where
  "activate t a s = (case on_db (update_state (a_id a) StateActive t) s of
     (Inl e, s1) \<Rightarrow> s1
   | (Inr _, s1) \<Rightarrow> invalidate_auction (a_id a)
       (publish_event (event_of ''auction.started'' (a_id a) (a_seller a) (a_title a) [] 0 t) s1))"

definition activate_scheduled :: "time \<Rightarrow> auc_sys \<Rightarrow> auc_sys" where
  "activate_scheduled t s = (case on_db (get_scheduled_to_activate t) s of
     (Inl e, s1) \<Rightarrow> s1 | (Inr as, s1) \<Rightarrow> fold (activate t) as s1)"

text \<open>A failed lookup of the highest bid is logged and the auction ended as if nobody had bid.\<close>

definition end_auction :: "time \<Rightarrow> float64 auction \<Rightarrow> auc_sys \<Rightarrow> auc_sys" where
  "end_auction t a s =
     (let (r, s1) = on_db (get_highest_bid (a_id a)) s;
          (winner, highest) = (case r of Inl e \<Rightarrow> ([], 0) | Inr wa \<Rightarrow> wa);
          ended = event_of ''auction.ended'' (a_id a) (a_seller a) (a_title a) in
      if winner \<noteq> [] \<and> a_reserve a \<le> highest
      then (case on_db (set_winner (a_id a) winner highest t) s1 of
          (Inl e, s2) \<Rightarrow> s2
        | (Inr _, s2) \<Rightarrow> invalidate_auction (a_id a) (publish_event (ended winner highest t) s2))
      else invalidate_auction (a_id a) (publish_event (ended [] 0 t)
          (snd (on_db (update_state (a_id a) StateEnded t) s1))))"

definition end_expired :: "time \<Rightarrow> auc_sys \<Rightarrow> auc_sys" where
  "end_expired t s = (case on_db (get_expired_active t) s of
     (Inl e, s1) \<Rightarrow> s1 | (Inr as, s1) \<Rightarrow> fold (end_auction t) as s1)"

definition tick :: "duration \<Rightarrow> time \<Rightarrow> time \<Rightarrow> auc_sys \<Rightarrow> auc_sys" where
  "tick ttl t1 t2 s = (let (acquired, s1) = acquire_scheduler_lock ttl t1 s in
     if \<not> acquired then s1
     else release_scheduler_lock (end_expired t2 (activate_scheduled t1 s1)))"

end
