(* ===== verification/AuctionSpec.thy ===== *)
theory AuctionSpec
  imports Auction
begin

text \<open>
  What the auction service guarantees. The abstract machine of one auction is the step relation
  \<open>auction_step\<close>; every operation of the service and every tick of the scheduler, under any pattern of
  failures of database, Redis and broker, moves each row along it (\<open>follows\<close>). Without failures a tick is a
  map over the rows (\<open>due_start\<close>, \<open>due_finish\<close>).
\<close>

subsection \<open>The life of an auction\<close>

inductive auction_step :: "int bid set \<Rightarrow> int auction \<Rightarrow> int auction \<Rightarrow> bool" for bs where
  started: "\<lbrakk>a_deleted r = None; a_state r = StateScheduled; a_start r \<le> t\<rbrakk> \<Longrightarrow>
    auction_step bs r (r\<lparr>a_state := StateActive, a_updated := t\<rparr>)"
| won: "\<lbrakk>a_deleted r = None; a_state r = StateActive; a_end r \<le> t; b \<in> bs; b_auction b = a_id r;
      \<forall>b' \<in> bs. b_auction b' = a_id r \<longrightarrow> b_amount b' \<le> b_amount b; a_reserve r \<le> b_amount b\<rbrakk> \<Longrightarrow>
    auction_step bs r (r\<lparr>a_winner := Some (b_user b), a_current := b_amount b, a_state := StateEnded, a_updated := t\<rparr>)"
| unsold: "\<lbrakk>a_deleted r = None; a_state r = StateActive; a_end r \<le> t\<rbrakk> \<Longrightarrow>
    auction_step bs r (r\<lparr>a_state := StateEnded, a_updated := t\<rparr>)"
| edited: "\<lbrakk>a_deleted r = None; a_state r = StateDraft \<or> a_state r = StateScheduled; in_range c\<rbrakk> \<Longrightarrow>
    auction_step bs r (r\<lparr>a_title := ti, a_description := de, a_reserve := c, a_updated := t\<rparr>)"
| removed: "a_deleted r = None \<Longrightarrow> auction_step bs r (r\<lparr>a_deleted := Some t\<rparr>)"

inductive_cases auction_stepE: "auction_step bs r r'"

definition row_ok :: "int auction \<Rightarrow> bool" where
  "row_ok r \<longleftrightarrow> in_range (a_starting r) \<and> in_range (a_reserve r) \<and> in_range (a_current r)"

definition auc_ok :: "aucdb \<Rightarrow> bool" where
  "auc_ok d \<longleftrightarrow> distinct (map a_id (auctions d)) \<and> (\<forall>r \<in> set (auctions d). row_ok r) \<and>
     (\<forall>b \<in> set (bids d). in_range (b_amount b) \<and> 0 < b_amount b \<and> b_user b \<noteq> [])"

definition follows :: "aucdb \<Rightarrow> aucdb \<Rightarrow> bool" where
  "follows d d' \<longleftrightarrow> bids d' = bids d \<and> categories d' = categories d \<and>
     (\<exists>f more. auctions d' = map f (auctions d) @ more \<and>
        (\<forall>r \<in> set (auctions d). (auction_step (set (bids d)))\<^sup>*\<^sup>* r (f r)))"

lemma step_keeps_id: "auction_step bs r r' \<Longrightarrow> a_id r' = a_id r"
  by (erule auction_stepE) auto

lemma steps_keep_id: "(auction_step bs)\<^sup>*\<^sup>* r r' \<Longrightarrow> a_id r' = a_id r"
  by (induction rule: rtranclp_induct) (auto dest: step_keeps_id)

lemma follows_refl [simp, intro]: "follows d d"
  unfolding follows_def by (auto intro!: exI [of _ "\<lambda>r. r"])

lemma follows_trans:
  assumes "follows d d'" and "follows d' d''"
  shows "follows d d''"
proof -
  obtain f more where f: "auctions d' = map f (auctions d) @ more"
      "\<forall>r \<in> set (auctions d). (auction_step (set (bids d)))\<^sup>*\<^sup>* r (f r)" "bids d' = bids d" "categories d' = categories d"
    using assms(1) unfolding follows_def by auto
  obtain g more' where g: "auctions d'' = map g (auctions d') @ more'"
      "\<forall>r \<in> set (auctions d'). (auction_step (set (bids d')))\<^sup>*\<^sup>* r (g r)" "bids d'' = bids d'" "categories d'' = categories d'"
    using assms(2) unfolding follows_def by auto
  have "auctions d'' = map (g \<circ> f) (auctions d) @ (map g more @ more')" using f(1) g(1) by simp
  moreover have "(auction_step (set (bids d)))\<^sup>*\<^sup>* r ((g \<circ> f) r)" if "r \<in> set (auctions d)" for r
    using f g(2) that by (auto intro: rtranclp_trans)
  ultimately show ?thesis unfolding follows_def using f(3,4) g(3,4) by auto
qed

lemma follows_change:
  assumes "\<And>r. r \<in> set (auctions d) \<Longrightarrow> P r \<Longrightarrow> auction_step (set (bids d)) r (g r)"
  shows "follows d (d\<lparr>auctions := update_where P g (auctions d)\<rparr>)"
proof -
  have "(auction_step (set (bids d)))\<^sup>*\<^sup>* r (if P r then g r else r)" if "r \<in> set (auctions d)" for r
    using assms that by auto
  then show ?thesis unfolding follows_def update_where_def
    by (auto intro!: exI [of _ "\<lambda>r. if P r then g r else r"])
qed

lemma step_row_ok:
  assumes "auction_step bs r r'" and "row_ok r" and "\<forall>b \<in> bs. in_range (b_amount b)"
  shows "row_ok r'"
  using assms by (cases rule: auction_step.cases) (auto simp: row_ok_def)

lemma change_ok:
  assumes "auc_ok d" and "\<And>r. r \<in> set (auctions d) \<Longrightarrow> P r \<Longrightarrow> auction_step (set (bids d)) r (g r)"
  shows "auc_ok (d\<lparr>auctions := update_where P g (auctions d)\<rparr>)"
proof -
  have "map a_id (update_where P g (auctions d)) = map a_id (auctions d)"
    unfolding update_where_def using assms(2) step_keeps_id by fastforce
  moreover have "row_ok r" if "r \<in> set (update_where P g (auctions d))" for r
    using that assms step_row_ok unfolding auc_ok_def in_set_update_where by fastforce
  ultimately show ?thesis using assms(1) by (simp add: auc_ok_def)
qed

subsection \<open>What one statement does\<close>

abbreviation adb :: "auc_sys \<Rightarrow> aucdb" where "adb s \<equiv> db (au_sess s)"

lemma adb_frame [simp]:
  "adb (publish_event e s) = adb s" "adb (invalidate_auction aid s) = adb s" "adb (cache_auction a t s) = adb s"
  "adb (release_scheduler_lock s) = adb s" "adb (snd (acquire_scheduler_lock ttl t s)) = adb s"
  by (simp_all add: publish_event_def Let_def invalidate_auction_def cache_auction_def release_scheduler_lock_def
      acquire_scheduler_lock_def on_redis_def split_beta)

lemma sess_frame [simp]:
  "au_sess (publish_event e s) = au_sess s" "au_sess (invalidate_auction aid s) = au_sess s"
  "au_sess (cache_auction a t s) = au_sess s" "au_sess (release_scheduler_lock s) = au_sess s"
  "au_sess (snd (acquire_scheduler_lock ttl t s)) = au_sess s"
  by (simp_all add: publish_event_def Let_def invalidate_auction_def cache_auction_def release_scheduler_lock_def
      acquire_scheduler_lock_def on_redis_def split_beta)

lemma on_db_query:
  assumes "on_db (pool_query q) s = (r, s')"
  shows "adb s' = adb s" and "r = Inr x \<Longrightarrow> q (adb s) = Some x"
  using assms by (auto simp: on_db_def pool_query_def split: if_splits option.splits prod.splits)

lemma on_db_exec:
  assumes "on_db (pool_exec u) s = (r, s')"
  shows "adb s' = adb s \<or> (\<exists>n. u (adb s) = Inr (adb s', n))" and "r = Inr n \<Longrightarrow> u (adb s) = Inr (adb s', n)"
  using assms by (auto simp: on_db_def pool_exec_def split: if_splits sum.splits prod.splits)


subsection \<open>The scheduler\<close>

lemma fold_follows:
  assumes step: "\<And>a s. a \<in> set as \<Longrightarrow> auc_ok (adb s) \<Longrightarrow> pre a (adb s) \<Longrightarrow>
      follows (adb s) (adb (g a s)) \<and> auc_ok (adb (g a s)) \<and> (\<forall>b. a_id b \<noteq> a_id a \<longrightarrow> pre b (adb s) \<longrightarrow> pre b (adb (g a s)))"
    and "distinct (map a_id as)" and "auc_ok (adb s)" and "\<forall>a \<in> set as. pre a (adb s)"
  shows "follows (adb s) (adb (fold g as s)) \<and> auc_ok (adb (fold g as s))"
  using assms
proof (induction as arbitrary: s)
  case (Cons a as)
  from Cons.prems(1) [of a s] Cons.prems have a: "follows (adb s) (adb (g a s))" "auc_ok (adb (g a s))"
    and keep: "\<forall>b. a_id b \<noteq> a_id a \<longrightarrow> pre b (adb s) \<longrightarrow> pre b (adb (g a s))" by auto
  have "\<forall>b \<in> set as. pre b (adb (g a s))" using Cons.prems(2,4) keep
    by (metis distinct.simps(2) image_eqI list.set_intros(2) list.set_map list.simps(9))
  with Cons.IH [of "g a s"] Cons.prems(1,2) a
  have "follows (adb (g a s)) (adb (fold g as (g a s))) \<and> auc_ok (adb (fold g as (g a s)))" by simp
  with a(1) show ?case using follows_trans by auto
qed auto

text \<open>A row the scheduler read: the row with its id is still due and has the price it read.\<close>

definition still :: "(int auction \<Rightarrow> bool) \<Rightarrow> float64 auction \<Rightarrow> aucdb \<Rightarrow> bool" where
  "still due a d \<longleftrightarrow> (\<forall>r \<in> set (auctions d). a_id r = a_id a \<longrightarrow> due r \<and> a = scan_auction r)"

lemma still_read:
  assumes "auc_ok d" and "a \<in> set (map scan_auction (filter due (auctions d)))"
  shows "still due a d"
  using assms unfolding still_def auc_ok_def by (auto dest: distinct_key_unique [rotated -1])

lemma read_distinct: "auc_ok d \<Longrightarrow> distinct (map a_id (map scan_auction (filter due (auctions d))))"
  unfolding auc_ok_def by (auto simp: comp_def distinct_map_filter)

lemma change_still:
  assumes "still due b d" and "a_id b \<noteq> aid" and "\<And>r. a_id (g r) = a_id r"
  shows "still due b (d\<lparr>auctions := update_where (\<lambda>r. a_id r = aid) g (auctions d)\<rparr>)"
  using assms unfolding still_def by (auto simp: in_set_update_where)

lemma activate_follows:
  assumes "auc_ok (adb s)" and "still (due_to_start t) a (adb s)"
  shows "follows (adb s) (adb (activate t a s)) \<and> auc_ok (adb (activate t a s)) \<and>
    (\<forall>b. a_id b \<noteq> a_id a \<longrightarrow> still due b (adb s) \<longrightarrow> still due b (adb (activate t a s)))"
proof -
  obtain r s1 where r: "on_db (update_state (a_id a) StateActive t) s = (r, s1)" by fastforce
  have "adb (activate t a s) = adb s1" using r by (auto simp: activate_def split: sum.splits)
  moreover from on_db_exec(1) [OF r [unfolded update_state_def]]
  have "adb s1 = adb s \<or> adb s1 = (adb s)\<lparr>auctions := update_where (\<lambda>r. a_id r = a_id a)
      (\<lambda>r. r\<lparr>a_state := StateActive, a_updated := t\<rparr>) (auctions (adb s))\<rparr>"
    by (auto simp: sql_update_state_def change_auctions_def)
  moreover have "auction_step (set (bids (adb s))) x (x\<lparr>a_state := StateActive, a_updated := t\<rparr>)"
    if "x \<in> set (auctions (adb s))" "a_id x = a_id a" for x
    using assms(2) that by (auto simp: still_def due_to_start_def intro!: auction_step.started)
  ultimately show ?thesis using assms(1) by (auto intro!: follows_change change_ok change_still)
qed

lemma highest_bid_read:
  assumes "on_db (get_highest_bid aid) s = (Inr (w, h), s1)" and "w \<noteq> []"
  obtains b where "b \<in> set (bids (adb s))" and "b_auction b = aid" and "w = b_user b" and "h = dec (b_amount b)"
    and "\<forall>b' \<in> set (bids (adb s)). b_auction b' = aid \<longrightarrow> b_amount b' \<le> b_amount b" and "adb s1 = adb s"
proof -
  note q = on_db_query [OF assms(1) [unfolded get_highest_bid_def]]
  from q(2) [OF refl] assms(2) obtain b where "top_bid aid (adb s) = Some b" "w = b_user b" "h = dec (b_amount b)"
    by (auto split: option.splits)
  with top_bidD that q(1) show thesis by blast
qed

lemma end_auction_follows:
  assumes ok: "auc_ok (adb s)" and due: "still (due_to_end t) a (adb s)"
  shows "follows (adb s) (adb (end_auction t a s)) \<and> auc_ok (adb (end_auction t a s)) \<and>
    (\<forall>b. a_id b \<noteq> a_id a \<longrightarrow> still due' b (adb s) \<longrightarrow> still due' b (adb (end_auction t a s)))"
proof -
  let ?change = "\<lambda>g. (adb s)\<lparr>auctions := update_where (\<lambda>r. a_id r = a_id a) g (auctions (adb s))\<rparr>"
  let ?win = "\<lambda>(b :: int bid) r. r\<lparr>a_winner := Some (b_user b), a_current := b_amount b, a_state := StateEnded, a_updated := t\<rparr>"
  obtain r s1 where r: "on_db (get_highest_bid (a_id a)) s = (r, s1)" by fastforce
  obtain w h where wh: "(w, h) = (case r of Inl e \<Rightarrow> ([], 0) | Inr wa \<Rightarrow> wa)" by (metis surj_pair)
  have same: "adb s1 = adb s" using on_db_query(1) r unfolding get_highest_bid_def by metis
  have steps: "auction_step (set (bids (adb s))) x (x\<lparr>a_state := StateEnded, a_updated := t\<rparr>)"
    if "x \<in> set (auctions (adb s))" "a_id x = a_id a" for x
    using due that by (auto simp: still_def due_to_end_def intro!: auction_step.unsold)
  have "adb (end_auction t a s) = adb s \<or> adb (end_auction t a s) = ?change (\<lambda>r. r\<lparr>a_state := StateEnded, a_updated := t\<rparr>)
    \<or> (\<exists>b. adb (end_auction t a s) = ?change (?win b) \<and>
        (\<forall>x \<in> set (auctions (adb s)). a_id x = a_id a \<longrightarrow> auction_step (set (bids (adb s))) x (?win b x)))"
  proof (cases "w \<noteq> [] \<and> a_reserve a \<le> h")
    case True
    then have "r = Inr (w, h)" using wh by (auto split: sum.splits)
    with r True obtain b where b: "b \<in> set (bids (adb s))" "b_auction b = a_id a" "w = b_user b" "h = dec (b_amount b)"
        "\<forall>b' \<in> set (bids (adb s)). b_auction b' = a_id a \<longrightarrow> b_amount b' \<le> b_amount b"
      by (metis highest_bid_read)
    have inr: "in_range (b_amount b)" using ok b(1) by (auto simp: auc_ok_def)
    obtain r2 s2 where r2: "on_db (set_winner (a_id a) w h t) s1 = (r2, s2)" by fastforce
    have fin: "adb (end_auction t a s) = adb s2" using r r2 wh True
      by (auto simp: end_auction_def Let_def split: sum.splits prod.splits)
    from on_db_exec(1) [OF r2 [unfolded set_winner_def]] b(3,4) inr same
    have upd: "adb s2 = adb s \<or> adb s2 = ?change (?win b)"
      by (auto simp: sql_set_winner_def change_auctions_def split: if_splits)
    have "auction_step (set (bids (adb s))) x (?win b x)"
      if "x \<in> set (auctions (adb s))" "a_id x = a_id a" for x
    proof -
      have "due_to_end t x" "a = scan_auction x" using due that by (auto simp: still_def)
      moreover have "in_range (a_reserve x)" using ok that by (auto simp: auc_ok_def row_ok_def)
      ultimately have "a_reserve x \<le> b_amount b" using True b(4) inr by (simp add: dec_le_iff)
      with \<open>due_to_end t x\<close> b that show ?thesis by (auto simp: due_to_end_def intro!: auction_step.won)
    qed
    then have all: "\<forall>x \<in> set (auctions (adb s)). a_id x = a_id a \<longrightarrow> auction_step (set (bids (adb s))) x (?win b x)"
      by blast
    from upd show ?thesis
    proof
      assume "adb s2 = ?change (?win b)"
      with all show ?thesis unfolding fin by - (rule disjI2, rule disjI2, rule exI [of _ b], rule conjI, assumption+)
    qed (simp add: fin)
  next
    case False
    obtain r2 s2 where r2: "on_db (update_state (a_id a) StateEnded t) s1 = (r2, s2)" by fastforce
    have fin: "adb (end_auction t a s) = adb s2" using r r2 wh False
      by (auto simp: end_auction_def Let_def split: sum.splits prod.splits)
    from on_db_exec(1) [OF r2 [unfolded update_state_def]] same
    have "adb s2 = adb s \<or> adb s2 = ?change (\<lambda>r. r\<lparr>a_state := StateEnded, a_updated := t\<rparr>)"
      by (auto simp: sql_update_state_def change_auctions_def)
    then show ?thesis unfolding fin by (elim disjE) simp_all
  qed
  with ok steps show ?thesis by (auto intro!: follows_change change_ok change_still)
qed

lemma tick_follows:
  assumes "auc_ok (adb s)"
  shows "follows (adb s) (adb (tick ttl t1 t2 s)) \<and> auc_ok (adb (tick ttl t1 t2 s))"
proof -
  have act: "follows (adb s) (adb (activate_scheduled t s)) \<and> auc_ok (adb (activate_scheduled t s))"
    if ok: "auc_ok (adb s)" for s t
  proof -
    obtain r s1 where r: "on_db (get_scheduled_to_activate t) s = (r, s1)" by fastforce
    note q = on_db_query [OF r [unfolded get_scheduled_to_activate_def query_auctions_def]]
    show ?thesis
    proof (cases r)
      case (Inr as)
      with q have as: "as = map scan_auction (filter (due_to_start t) (auctions (adb s)))" by simp
      have "follows (adb s1) (adb (fold (activate t) as s1)) \<and> auc_ok (adb (fold (activate t) as s1))"
        by (rule fold_follows [where pre = "still (due_to_start t)"])
          (use ok q(1) as still_read read_distinct activate_follows in auto)
      with r Inr q(1) show ?thesis by (simp add: activate_scheduled_def)
    qed (use r q(1) ok in \<open>simp add: activate_scheduled_def\<close>)
  qed
  have fin: "follows (adb s) (adb (end_expired t s)) \<and> auc_ok (adb (end_expired t s))"
    if ok: "auc_ok (adb s)" for s t
  proof -
    obtain r s1 where r: "on_db (get_expired_active t) s = (r, s1)" by fastforce
    note q = on_db_query [OF r [unfolded get_expired_active_def query_auctions_def]]
    show ?thesis
    proof (cases r)
      case (Inr as)
      with q have as: "as = map scan_auction (filter (due_to_end t) (auctions (adb s)))" by simp
      have "follows (adb s1) (adb (fold (end_auction t) as s1)) \<and> auc_ok (adb (fold (end_auction t) as s1))"
        by (rule fold_follows [where pre = "still (due_to_end t)"])
          (use ok q(1) as still_read read_distinct end_auction_follows in auto)
      with r Inr q(1) show ?thesis by (simp add: end_expired_def)
    qed (use r q(1) ok in \<open>simp add: end_expired_def\<close>)
  qed
  let ?s = "snd (acquire_scheduler_lock ttl t1 s)"
  have "follows (adb ?s) (adb (end_expired t2 (activate_scheduled t1 ?s))) \<and>
      auc_ok (adb (end_expired t2 (activate_scheduled t1 ?s)))"
    using act [of ?s t1] fin [of "activate_scheduled t1 ?s" t2] assms follows_trans by auto
  with assms show ?thesis by (simp add: tick_def split_beta Let_def)
qed


subsection \<open>The service's operations\<close>

lemma live_auctionD: "live_auction aid d = Some r \<Longrightarrow> r \<in> set (auctions d) \<and> a_id r = aid \<and> a_deleted r = None"
  unfolding live_auction_def by (drule find_SomeD) auto

lemma get_by_id_read:
  assumes "on_db (get_by_id aid) s = (Inr a, s1)"
  obtains r where "live_auction aid (adb s) = Some r" and "a = scan_auction r" and "adb s1 = adb s"
  using on_db_query [OF assms [unfolded get_by_id_def]] that by auto

lemma insert_auction_effect:
  assumes "sql_insert_auction a d = Inr (d', n)"
  shows "\<exists>x. d' = d\<lparr>auctions := auctions d @ [x]\<rparr> \<and> a_id x \<notin> a_id ` set (auctions d) \<and> row_ok x \<and>
    a_id x = a_id a \<and> a_state x = a_state a"
  using assms by (auto simp: sql_insert_auction_def money_def row_ok_def Let_def split: if_splits option.splits)

lemma create_follows:
  assumes "auc_ok (adb s)"
  shows "follows (adb s) (adb (snd (create aid t seller req s))) \<and> auc_ok (adb (snd (create aid t seller req s)))"
proof (cases "parsed (cr_end req) < parsed (cr_start req) \<or> parsed (cr_end req) < t")
  case False
  obtain r s1 where r: "on_db (create_auction (new_auction aid t seller req)) s = (r, s1)" by fastforce
  have "adb (snd (create aid t seller req s)) = adb s1"
    using r False by (auto simp: create_def Let_def split: sum.splits)
  moreover have "adb s1 = adb s \<or> (\<exists>x. adb s1 = (adb s)\<lparr>auctions := auctions (adb s) @ [x]\<rparr> \<and>
      a_id x \<notin> a_id ` set (auctions (adb s)) \<and> row_ok x)"
    using on_db_exec(1) [OF r [unfolded create_auction_def]] insert_auction_effect by blast
  moreover have "follows d (d\<lparr>auctions := auctions d @ [x]\<rparr>)" for d x
    unfolding follows_def by (auto intro!: exI [of _ "\<lambda>r. r"])
  ultimately show ?thesis using assms by (auto simp: auc_ok_def)
qed (use assms in \<open>simp add: create_def\<close>)

lemma update_effect:
  assumes "update t aid user req s = (r, s')"
  shows "adb s' = adb s \<or> (\<exists>x c. live_auction aid (adb s) = Some x \<and> a_seller x = user \<and>
     (a_state x = StateDraft \<or> a_state x = StateScheduled) \<and> money (a_reserve (edited req (scan_auction x))) = Some c \<and>
     adb s' = (adb s)\<lparr>auctions := update_where (\<lambda>r. a_id r = aid \<and> a_deleted r = None)
       (\<lambda>r. r\<lparr>a_title := a_title (edited req (scan_auction x)), a_description := a_description (edited req (scan_auction x)),
          a_reserve := c, a_updated := t\<rparr>) (auctions (adb s))\<rparr>)"
proof -
  obtain q s1 where q: "on_db (get_by_id aid) s = (q, s1)" by fastforce
  have s1: "adb s1 = adb s" using on_db_query(1) q unfolding get_by_id_def by metis
  show ?thesis
  proof (cases "\<exists>a. q = Inr a \<and> a_seller a = user \<and> (a_state a = StateDraft \<or> a_state a = StateScheduled)")
    case True
    then obtain a where a: "q = Inr a" "a_seller a = user" "a_state a = StateDraft \<or> a_state a = StateScheduled" by auto
    obtain x where x: "live_auction aid (adb s) = Some x" "a = scan_auction x"
      using q unfolding a(1) by (rule get_by_id_read)
    obtain u s2 where u: "on_db (update_auction (edited req a) t) s1 = (u, s2)" by fastforce
    have "adb s' = adb s2" using assms q a u by (auto simp: update_def split: sum.splits)
    moreover have "a_id (edited req a) = aid" using live_auctionD [OF x(1)] x(2) by (simp add: edited_def)
    ultimately show ?thesis using on_db_exec(1) [OF u [unfolded update_auction_def]] s1 x a
      by (auto simp: sql_update_auction_def change_auctions_def Let_def split: if_splits option.splits)
  next
    case False
    then have "s' = s1" using assms q by (auto simp: update_def split: sum.splits if_splits)
    with s1 show ?thesis by simp
  qed
qed

lemma update_follows:
  assumes "auc_ok (adb s)" and "update t aid user req s = (r, s')"
  shows "follows (adb s) (adb s') \<and> auc_ok (adb s')"
  using update_effect [OF assms(2)]
proof
  assume "\<exists>x c. live_auction aid (adb s) = Some x \<and> a_seller x = user \<and>
     (a_state x = StateDraft \<or> a_state x = StateScheduled) \<and> money (a_reserve (edited req (scan_auction x))) = Some c \<and>
     adb s' = (adb s)\<lparr>auctions := update_where (\<lambda>r. a_id r = aid \<and> a_deleted r = None)
       (\<lambda>r. r\<lparr>a_title := a_title (edited req (scan_auction x)), a_description := a_description (edited req (scan_auction x)),
          a_reserve := c, a_updated := t\<rparr>) (auctions (adb s))\<rparr>"
  then obtain x c where x: "live_auction aid (adb s) = Some x" "a_state x = StateDraft \<or> a_state x = StateScheduled"
      "money (a_reserve (edited req (scan_auction x))) = Some c"
      "adb s' = (adb s)\<lparr>auctions := update_where (\<lambda>r. a_id r = aid \<and> a_deleted r = None)
       (\<lambda>r. r\<lparr>a_title := a_title (edited req (scan_auction x)), a_description := a_description (edited req (scan_auction x)),
          a_reserve := c, a_updated := t\<rparr>) (auctions (adb s))\<rparr>" by blast
  have "a_state r = StateDraft \<or> a_state r = StateScheduled" if "r \<in> set (auctions (adb s))" "a_id r = aid" for r
    using that live_auctionD [OF x(1)] x(2) assms(1) by (metis auc_ok_def distinct_key_unique)
  moreover have "in_range c" using x(3) by (auto simp: money_def Let_def split: if_splits)
  ultimately show ?thesis unfolding x(4) using assms(1)
    by (auto intro!: follows_change change_ok auction_step.edited)
qed (use assms in simp)

lemma delete_follows:
  assumes "auc_ok (adb s)" and "delete t aid user role s = (r, s')"
  shows "follows (adb s) (adb s') \<and> auc_ok (adb s')"
proof -
  obtain q s1 where q: "on_db (get_by_id aid) s = (q, s1)" by fastforce
  have s1: "adb s1 = adb s" using on_db_query(1) q unfolding get_by_id_def by metis
  show ?thesis
  proof (cases "\<exists>a. q = Inr a \<and> \<not> (a_seller a \<noteq> user \<and> role \<noteq> ''admin'')")
    case True
    then obtain a where a: "q = Inr a" "\<not> (a_seller a \<noteq> user \<and> role \<noteq> ''admin'')" by auto
    obtain x where x: "live_auction aid (adb s) = Some x" using q unfolding a(1) by (rule get_by_id_read)
    obtain u s2 where u: "on_db (soft_delete aid t) s1 = (u, s2)" by fastforce
    have "adb s' = adb s2" using assms q a u by (auto simp: delete_def split: sum.splits)
    with on_db_exec(1) [OF u [unfolded soft_delete_def]] s1
    have "adb s' = adb s \<or> adb s' = (adb s)\<lparr>auctions := update_where (\<lambda>r. a_id r = aid)
        (\<lambda>r. r\<lparr>a_deleted := Some t\<rparr>) (auctions (adb s))\<rparr>"
      by (auto simp: sql_soft_delete_def change_auctions_def)
    moreover have "a_deleted r = None" if "r \<in> set (auctions (adb s))" "a_id r = aid" for r
      using that live_auctionD [OF x] assms(1) by (metis auc_ok_def distinct_key_unique)
    ultimately show ?thesis using assms(1)
      by (auto intro!: follows_change change_ok auction_step.removed)
  next
    case False
    then have "s' = s1" using assms q by (auto simp: delete_def split: sum.splits if_splits)
    with s1 assms show ?thesis by simp
  qed
qed


subsection \<open>Sequences of commands\<close>

datatype auc_cmd =
    Create uuid time uuid create_request
  | Update time uuid uuid update_request
  | Delete time uuid uuid string
  | Get uuid
  | Page string int int
  | Tick duration time time

primrec auc_do :: "auc_cmd \<Rightarrow> auc_sys \<Rightarrow> auc_sys" where
  "auc_do (Create aid t seller req) s = snd (create aid t seller req s)"
| "auc_do (Update t aid user req) s = snd (update t aid user req s)"
| "auc_do (Delete t aid user role) s = snd (delete t aid user role s)"
| "auc_do (Get aid) s = snd (get_auction aid s)"
| "auc_do (Page st p n) s = snd (list_page st p n s)"
| "auc_do (Tick ttl t1 t2) s = tick ttl t1 t2 s"

lemma query_page_frame: "db (snd (query_page P l n s)) = db s"
  by (simp add: query_page_def)

lemma list_auctions_frame: "db (snd (list_auctions st l n s)) = db s"
proof -
  have p: "db (snd (pool_query q s)) = db s" for q :: "aucdb \<Rightarrow> int option"
    by (simp add: pool_query_def split: option.splits)
  have "db (snd (andthen (query_page P l n) (\<lambda>as. ret (as, tot)) s')) = db s'" for P s' and tot :: int
    using query_page_frame [of P l n s'] by (auto simp: andthen_def ret_def split: sum.splits prod.splits)
  with p show ?thesis unfolding list_auctions_def Let_def by (simp add: split_beta)
qed

lemma read_frame: "adb (snd (get_auction aid s)) = adb s" "adb (snd (list_page st p n s)) = adb s"
proof -
  have "db (snd (get_by_id aid (au_sess s))) = adb s"
    by (simp add: get_by_id_def pool_query_def split: option.splits)
  then show "adb (snd (get_auction aid s)) = adb s"
    by (auto simp: get_auction_def on_db_def split: sum.splits prod.splits)
  show "adb (snd (list_page st p n s)) = adb s"
    using list_auctions_frame [of st _ _ "au_sess s"]
    by (simp add: list_page_def on_db_def Let_def split_beta split: sum.splits prod.splits)
qed

lemma auc_do_follows: "auc_ok (adb s) \<Longrightarrow> follows (adb s) (adb (auc_do c s)) \<and> auc_ok (adb (auc_do c s))"
  using create_follows update_follows [OF _ prod.collapse [symmetric]] delete_follows [OF _ prod.collapse [symmetric]]
    tick_follows
  by (cases c) (simp_all add: read_frame)

interpretation service: invariant_system auc_do "\<lambda>_. True" "\<lambda>s. auc_ok (adb s) \<and> follows d (adb s)" for d
  using auc_do_follows follows_trans by unfold_locales blast

lemma commands_follow: "auc_ok (adb s) \<Longrightarrow> follows (adb s) (adb (fold auc_do cs s))"
  using service.run_keeps [of cs s "adb s"] by simp

lemma step_transition:
  assumes "auction_step bs r r'" 
  shows "can_transition (a_state r) (a_state r') \<or> a_state r' = a_state r"
  using assms by (cases rule: auction_step.cases) (auto simp: can_transition_def valid_transitions_def)


lemma sold_steps:
  assumes "(auction_step bs)\<^sup>*\<^sup>* r r'" and "a_winner r = None" and "a_winner r' = Some w"
  shows "a_state r' = StateEnded \<and> (\<exists>b \<in> bs. b_auction b = a_id r \<and> b_user b = w \<and> b_amount b = a_current r' \<and>
     (\<forall>b' \<in> bs. b_auction b' = a_id r \<longrightarrow> b_amount b' \<le> b_amount b) \<and> a_reserve r' \<le> b_amount b)"
  using assms
proof (induction arbitrary: w rule: rtranclp_induct)
  case (step q r')
  note id = steps_keep_id [OF step.hyps(1)]
  show ?case
  proof (cases "a_winner q")
    case None
    with step.hyps(2) step.prems id show ?thesis by (cases rule: auction_step.cases) auto
  next
    case (Some v)
    with step.IH step.prems(1) have "a_state q = StateEnded" by simp
    with step.hyps(2) have "a_state r' = StateEnded \<and> a_winner r' = a_winner q \<and> a_current r' = a_current q \<and> a_reserve r' = a_reserve q"
      by (cases rule: auction_step.cases) auto
    with step.IH [OF step.prems(1) Some] Some step.prems(2) show ?thesis by simp
  qed
qed simp

lemma settled_steps:
  assumes "(auction_step bs)\<^sup>*\<^sup>* r r'" and "a_state r = StateEnded \<or> a_state r = StateArchived"
  shows "\<exists>del. r' = r\<lparr>a_deleted := del\<rparr>"
  using assms
proof (induction rule: rtranclp_induct)
  case base
  show ?case by (intro exI [of _ "a_deleted r"]) simp
next
  case (step q r')
  then obtain del where q: "q = r\<lparr>a_deleted := del\<rparr>" by auto
  with step.hyps(2) step.prems show ?case by (cases rule: auction_step.cases) auto
qed


subsection \<open>A tick without failures\<close>

definition start_row :: "time \<Rightarrow> int auction \<Rightarrow> int auction" where
  "start_row t r = (if due_to_start t r then r\<lparr>a_state := StateActive, a_updated := t\<rparr> else r)"

definition finish :: "time \<Rightarrow> aucdb \<Rightarrow> int auction \<Rightarrow> int auction" where
  "finish t d r = (case top_bid (a_id r) d of
     None \<Rightarrow> r\<lparr>a_state := StateEnded, a_updated := t\<rparr>
   | Some b \<Rightarrow> if a_reserve r \<le> b_amount b
       then r\<lparr>a_winner := Some (b_user b), a_current := b_amount b, a_state := StateEnded, a_updated := t\<rparr>
       else r\<lparr>a_state := StateEnded, a_updated := t\<rparr>)"

definition finish_row :: "time \<Rightarrow> aucdb \<Rightarrow> int auction \<Rightarrow> int auction" where
  "finish_row t d r = (if due_to_end t r then finish t d r else r)"

definition calm :: "auc_sys \<Rightarrow> bool" where
  "calm s \<longleftrightarrow> faults (au_sess s) = []"

lemma calm_exec:
  assumes "calm s" and "u (adb s) = Inr (d, n)"
  shows "on_db (pool_exec u) s = (Inr n, s\<lparr>au_sess := (au_sess s)\<lparr>db := d\<rparr>\<rparr>)"
proof -
  obtain x where x: "au_sess s = x" by simp
  have "faults x = []" "u (db x) = Inr (d, n)" using assms x by (auto simp: calm_def)
  then have "pool_exec u x = (Inr n, x\<lparr>db := d\<rparr>)"
    by (cases x) (simp add: pool_exec_def next_fault_def Session.tick_def)
  with x show ?thesis by (simp add: on_db_def)
qed

lemma calm_query:
  assumes "calm s" and "q (adb s) = Some x"
  shows "on_db (pool_query q) s = (Inr x, s)"
proof -
  have "pool_query q (au_sess s) = (Inr x, au_sess s)"
    using assms by (simp add: pool_query_run calm_def)
  then show ?thesis by (simp add: on_db_def)
qed

lemma calm_frame [simp]: "calm (publish_event e s) = calm s" "calm (invalidate_auction aid s) = calm s"
  "calm (s\<lparr>au_sess := (au_sess s)\<lparr>db := d\<rparr>\<rparr>) = calm s" "calm (snd (acquire_scheduler_lock ttl t s)) = calm s"
  by (simp_all add: calm_def)

lemma activate_calm:
  assumes "calm s"
  shows "calm (activate t a s) \<and> adb (activate t a s) = (adb s)\<lparr>auctions := update_where (\<lambda>r. a_id r = a_id a)
    (\<lambda>r. r\<lparr>a_state := StateActive, a_updated := t\<rparr>) (auctions (adb s))\<rparr>"
  using assms by (simp add: activate_def update_state_def calm_exec [OF assms sql_update_state_def [THEN fun_cong, unfolded change_auctions_def]])

text \<open>A loop over rows that changes each by its id is a map over the table.\<close>

lemma fold_updates:
  assumes step: "\<And>r s. r \<in> set rs \<Longrightarrow> calm s \<Longrightarrow> ok (adb s) \<Longrightarrow> r \<in> set (auctions (adb s)) \<Longrightarrow> calm (g (scan_auction r) s) \<and>
      adb (g (scan_auction r) s) = (adb s)\<lparr>auctions := update_where (\<lambda>x. a_id x = a_id r) h (auctions (adb s))\<rparr> \<and> ok (adb (g (scan_auction r) s))"
    and "distinct (map a_id rs)" and "calm s" and "ok (adb s)" and "set rs \<subseteq> set (auctions (adb s))"
    and id: "\<And>x. a_id (h x) = a_id x"
  shows "calm (fold g (map scan_auction rs) s) \<and> adb (fold g (map scan_auction rs) s) =
    (adb s)\<lparr>auctions := update_where (\<lambda>x. a_id x \<in> a_id ` set rs) h (auctions (adb s))\<rparr>"
  using assms(1-5)
proof (induction rs arbitrary: s)
  case Nil
  then show ?case by (simp add: update_where_none)
next
  case (Cons r rs)
  let ?s = "g (scan_auction r) s"
  have "r \<in> set (auctions (adb s))" "r \<in> set (r # rs)" using Cons.prems(5) by simp_all
  from Cons.prems(1) [OF this(2) Cons.prems(3,4) this(1)]
  have r: "calm ?s" "adb ?s = (adb s)\<lparr>auctions := update_where (\<lambda>x. a_id x = a_id r) h (auctions (adb s))\<rparr>" "ok (adb ?s)"
    by blast+
  have "set rs \<subseteq> set (auctions (adb ?s))"
  proof
    fix q assume "q \<in> set rs"
    with Cons.prems(2,5) have "q \<in> set (auctions (adb s))" "a_id q \<noteq> a_id r"
      by (auto simp: rev_image_eqI)
    then show "q \<in> set (auctions (adb ?s))" unfolding r(2) by (auto simp: in_set_update_where)
  qed
  moreover have "calm (fold g (map scan_auction rs) ?s) \<and> adb (fold g (map scan_auction rs) ?s) =
    (adb ?s)\<lparr>auctions := update_where (\<lambda>x. a_id x \<in> a_id ` set rs) h (auctions (adb ?s))\<rparr>"
  proof (rule Cons.IH)
    fix q and s' :: auc_sys
    assume "q \<in> set rs" "calm s'" "ok (adb s')" "q \<in> set (auctions (adb s'))"
    then show "calm (g (scan_auction q) s') \<and> adb (g (scan_auction q) s') =
      (adb s')\<lparr>auctions := update_where (\<lambda>x. a_id x = a_id q) h (auctions (adb s'))\<rparr> \<and> ok (adb (g (scan_auction q) s'))"
      by (intro Cons.prems(1)) simp_all
  qed (use r(1,3) Cons.prems(2) calculation in simp_all)
  moreover have "update_where (\<lambda>x. a_id x \<in> a_id ` set rs) h (update_where (\<lambda>x. a_id x = a_id r) h xs) =
      update_where (\<lambda>x. a_id x \<in> a_id ` set (r # rs)) h xs" for xs
    using Cons.prems(2) by (auto simp: update_where_def id)
  ultimately show ?case using r(2) by simp
qed

lemma end_auction_calm:
  assumes "calm s" and "auc_ok (adb s)" and r: "r \<in> set (auctions (adb s))"
  shows "calm (end_auction t (scan_auction r) s) \<and> adb (end_auction t (scan_auction r) s) =
    (adb s)\<lparr>auctions := update_where (\<lambda>x. a_id x = a_id r) (finish t (adb s)) (auctions (adb s))\<rparr>"
proof -
  let ?top = "top_bid (a_id r) (adb s)"
  have same: "x = r" if "x \<in> set (auctions (adb s))" "a_id x = a_id r" for x
    using that r assms(2) by (metis auc_ok_def distinct_key_unique)
  have cong: "update_where (\<lambda>x. a_id x = a_id r) f (auctions (adb s)) = update_where (\<lambda>x. a_id x = a_id r) g (auctions (adb s))"
    if "f r = g r" for f g
    unfolding update_where_def by (rule map_cong [OF refl]) (use that same in auto)
  have read: "on_db (get_highest_bid (a_id r)) s = (Inr (case ?top of None \<Rightarrow> ([], 0) | Some b \<Rightarrow> (b_user b, dec (b_amount b))), s)"
    unfolding get_highest_bid_def by (rule calm_query [OF assms(1)]) simp
  have lose: "calm s' \<and> adb s' = (adb s)\<lparr>auctions := update_where (\<lambda>x. a_id x = a_id r) (\<lambda>r. r\<lparr>a_state := StateEnded, a_updated := t\<rparr>) (auctions (adb s))\<rparr>"
    if "s' = snd (on_db (update_state (a_id r) StateEnded t) s)" for s'
    unfolding that update_state_def
    using calm_exec [OF assms(1) sql_update_state_def [THEN fun_cong, unfolded change_auctions_def]] assms(1) by simp
  show ?thesis
  proof (cases "\<exists>b. ?top = Some b \<and> a_reserve r \<le> b_amount b")
    case True
    then obtain b where b: "?top = Some b" "a_reserve r \<le> b_amount b" by auto
    have inr: "in_range (b_amount b)" "in_range (a_reserve r)" "b_user b \<noteq> []"
      using assms(2) r top_bidD(1) [OF b(1)] by (auto simp: auc_ok_def row_ok_def)
    let ?win = "\<lambda>r. r\<lparr>a_winner := Some (b_user b), a_current := b_amount b, a_state := StateEnded, a_updated := t\<rparr>"
    have "filter (\<lambda>x. a_id x = a_id r) (auctions (adb s)) \<noteq> []" using r by (auto simp: filter_empty_conv)
    then have "sql_set_winner (a_id r) (b_user b) (dec (b_amount b)) t (adb s) =
        Inr ((adb s)\<lparr>auctions := update_where (\<lambda>x. a_id x = a_id r) ?win (auctions (adb s))\<rparr>, matching (\<lambda>x. a_id x = a_id r) (adb s))"
      using inr by (simp add: sql_set_winner_def change_auctions_def matching_def)
    note w = calm_exec [where u = "sql_set_winner (a_id r) (b_user b) (dec (b_amount b)) t", OF assms(1) this]
    have "finish t (adb s) r = ?win r" using b by (simp add: finish_def)
    from cong [where f = "finish t (adb s)" and g = ?win, OF this] show ?thesis
      using w read b inr assms(1) by (simp add: end_auction_def set_winner_def Let_def dec_le_iff)
  next
    case False
    have "finish t (adb s) r = r\<lparr>a_state := StateEnded, a_updated := t\<rparr>" using False by (auto simp: finish_def split: option.splits)
    note f = cong [where f = "finish t (adb s)" and g = "\<lambda>r. r\<lparr>a_state := StateEnded, a_updated := t\<rparr>", OF this]
    have "in_range (a_reserve r)" and "\<And>b. ?top = Some b \<Longrightarrow> in_range (b_amount b)"
      using assms(2) r top_bidD(1) by (auto simp: auc_ok_def row_ok_def)
    with False read lose [OF refl] f show ?thesis
      by (auto simp: end_auction_def Let_def dec_le_iff split: option.splits)
  qed
qed


lemma finish_cong: "bids d' = bids d \<Longrightarrow> finish t d' = finish t d"
  by (rule ext) (simp add: finish_def top_bid_def bids_desc_def)

lemma finish_id [simp]: "a_id (finish t d r) = a_id r"
  by (simp add: finish_def split: option.splits)

lemma update_where_rows:
  assumes "distinct (map a_id rows)"
  shows "update_where (\<lambda>x. a_id x \<in> a_id ` {r \<in> set rows. P r}) h rows = map (\<lambda>r. if P r then h r else r) rows"
  unfolding update_where_def
  by (rule map_cong [OF refl]) (use assms in \<open>auto dest: distinct_key_unique\<close>)

lemma calm_activate_all:
  assumes "calm s" and "auc_ok (adb s)"
  shows "calm (activate_scheduled t s) \<and> adb (activate_scheduled t s) = (adb s)\<lparr>auctions := map (start_row t) (auctions (adb s))\<rparr>"
proof -
  let ?rs = "filter (due_to_start t) (auctions (adb s))"
  have "activate_scheduled t s = fold (activate t) (map scan_auction ?rs) s"
    unfolding activate_scheduled_def get_scheduled_to_activate_def query_auctions_def
    by (subst calm_query [OF assms(1) refl]) simp
  moreover have "calm (fold (activate t) (map scan_auction ?rs) s) \<and> adb (fold (activate t) (map scan_auction ?rs) s) =
    (adb s)\<lparr>auctions := update_where (\<lambda>x. a_id x \<in> a_id ` set ?rs) (\<lambda>r. r\<lparr>a_state := StateActive, a_updated := t\<rparr>) (auctions (adb s))\<rparr>"
    by (rule fold_updates [where ok = "\<lambda>_. True"])
      (use assms activate_calm in \<open>auto simp: auc_ok_def distinct_map_filter\<close>)
  ultimately show ?thesis using assms(2) by (simp add: update_where_rows auc_ok_def start_row_def [abs_def])
qed

lemma calm_end_all:
  assumes "calm s" and "auc_ok (adb s)"
  shows "calm (end_expired t s) \<and> adb (end_expired t s) = (adb s)\<lparr>auctions := map (finish_row t (adb s)) (auctions (adb s))\<rparr>"
proof -
  let ?rs = "filter (due_to_end t) (auctions (adb s))"
  have "end_expired t s = fold (end_auction t) (map scan_auction ?rs) s"
    unfolding end_expired_def get_expired_active_def query_auctions_def
    by (subst calm_query [OF assms(1) refl]) simp
  moreover have "calm (fold (end_auction t) (map scan_auction ?rs) s) \<and> adb (fold (end_auction t) (map scan_auction ?rs) s) =
    (adb s)\<lparr>auctions := update_where (\<lambda>x. a_id x \<in> a_id ` set ?rs) (finish t (adb s)) (auctions (adb s))\<rparr>"
  proof (rule fold_updates [where ok = "\<lambda>d. bids d = bids (adb s) \<and> auc_ok d"], goal_cases)
    case (1 r s')
    then have f: "finish t (adb s') = finish t (adb s)" by (intro finish_cong) simp
    let ?d = "(adb s')\<lparr>auctions := update_where (\<lambda>x. a_id x = a_id r) (finish t (adb s)) (auctions (adb s'))\<rparr>"
    have "map a_id (auctions ?d) = map a_id (auctions (adb s'))" by (simp add: map_update_where)
    moreover have "row_ok x" if "x \<in> set (auctions ?d)" for x
      using that 1 top_bidD(1) [of _ "adb s"] by (auto simp: in_set_update_where auc_ok_def row_ok_def finish_def split: option.splits if_splits)
    ultimately have "auc_ok ?d" using 1 unfolding auc_ok_def by simp
    with end_auction_calm [of s' r t] 1 f show ?case by simp
  qed (use assms in \<open>auto simp: auc_ok_def distinct_map_filter\<close>)
  ultimately show ?thesis using assms(2) by (simp add: update_where_rows auc_ok_def finish_row_def [abs_def])
qed

definition demo_auction :: "int auction" where
  "demo_auction = \<lparr>a_id = ''a1'', a_seller = ''s1'', a_title = ''Old clock'', a_description = ''An old wall clock'',
     a_category = None, a_starting = 1000, a_reserve = 5000, a_current = 1000, a_state = StateActive,
     a_start = 10, a_end = 100, a_winner = None, a_total_bids = 0, a_created = 5, a_updated = 10, a_deleted = None\<rparr>"

definition demo_bid :: "uuid \<Rightarrow> uuid \<Rightarrow> int \<Rightarrow> int bid" where
  "demo_bid i u c = \<lparr>b_id = i, b_auction = ''a1'', b_user = u, b_amount = c, b_created = 50\<rparr>"

definition demo_auctions :: "bool list \<Rightarrow> auc_sys" where
  "demo_auctions fs = \<lparr>au_sess = \<lparr>db = \<lparr>auctions = [demo_auction, demo_auction\<lparr>a_id := ''a2'', a_state := StateScheduled\<rparr>],
       bids = [demo_bid ''b1'' ''u1'' 4000, demo_bid ''b2'' ''u2'' 6000], categories = []\<rparr>, aborted = False, faults = fs\<rparr>,
     au_redis = \<lparr>rd_keys = (\<lambda>_. None), rd_faults = []\<rparr>, au_events = [], au_broker = []\<rparr>"

lemma demo_auctions_ok: "auc_ok (adb (demo_auctions fs))"
  by (simp add: demo_auctions_def auc_ok_def demo_auction_def demo_bid_def row_ok_def in_range_def)

subsection \<open>Properties\<close>

text \<open>C21: the life of an auction. Under any sequence of service calls and scheduler ticks, and any failures of
  database, Redis and broker, every auction moves along \<open>auction_step\<close>: it starts when due, ends once, is
  edited only before it starts. So its state follows the transitions the model allows.\<close>

theorem auction_lifecycle:
  assumes "auc_ok (adb s)" and "r \<in> set (auctions (adb s))"
  shows "\<exists>r' \<in> set (auctions (adb (fold auc_do cs s))). (auction_step (set (bids (adb s))))\<^sup>*\<^sup>* r r' \<and>
    can_transition\<^sup>*\<^sup>* (a_state r) (a_state r')"
proof -
  obtain r' where r': "r' \<in> set (auctions (adb (fold auc_do cs s)))" "(auction_step (set (bids (adb s))))\<^sup>*\<^sup>* r r'"
    using commands_follow [OF assms(1), of cs] assms(2) unfolding follows_def by fastforce
  from r'(2) have "can_transition\<^sup>*\<^sup>* (a_state r) (a_state r')"
  proof (induction rule: rtranclp_induct)
    case (step y z)
    from step_transition [OF step.hyps(2)] step.IH show ?case by (metis rtranclp.rtrancl_into_rtrancl)
  qed simp
  with r' show ?thesis by blast
qed

text \<open>C22: the winner is right. Whenever the service has given an auction a winner, under any failures, the
  auction is ended, the winner placed a highest bid on it, that bid is the price, and it meets the reserve.\<close>

theorem winner_is_highest:
  assumes "auc_ok (adb s)" and "r \<in> set (auctions (adb s))" and "a_winner r = None"
    and "s' = fold auc_do cs s" and "r' \<in> set (auctions (adb s'))" and "a_id r' = a_id r" and "a_winner r' = Some w"
  shows "a_state r' = StateEnded \<and> (\<exists>b \<in> set (bids (adb s)). b_auction b = a_id r \<and> b_user b = w \<and>
    b_amount b = a_current r' \<and> a_reserve r' \<le> b_amount b \<and>
    (\<forall>b' \<in> set (bids (adb s)). b_auction b' = a_id r \<longrightarrow> b_amount b' \<le> b_amount b))"
proof -
  have "auc_ok (adb s')" using service.run_keeps [of cs s "adb s"] assms(1,4) by simp
  moreover obtain q where q: "q \<in> set (auctions (adb s'))" "(auction_step (set (bids (adb s))))\<^sup>*\<^sup>* r q"
    using commands_follow [OF assms(1), of cs] assms(2,4) unfolding follows_def by fastforce
  ultimately have "q = r'" using assms(5,6) steps_keep_id by (metis auc_ok_def distinct_key_unique)
  with sold_steps [OF q(2) assms(3)] assms(7) show ?thesis by blast
qed



theorem auction_lifecycle_witness:
  "\<exists>r' \<in> set (auctions (adb (fold auc_do [Tick 30 200 200, Delete 210 ''a1'' ''s1'' ''seller''] (demo_auctions [False, True])))).
     can_transition\<^sup>*\<^sup>* StateActive (a_state r')"
  using auction_lifecycle [OF demo_auctions_ok, of demo_auction "[False, True]" "[Tick 30 200 200, Delete 210 ''a1'' ''s1'' ''seller'']"]
  by (auto simp: demo_auctions_def demo_auction_def)

lemma demo_sold:
  "\<exists>r' \<in> set (auctions (adb (fold auc_do [Tick 30 200 200] (demo_auctions [])))). a_id r' = ''a1'' \<and> a_winner r' = Some ''u2''"
  by code_simp

theorem winner_is_highest_witness:
  "\<exists>r' \<in> set (auctions (adb (fold auc_do [Tick 30 200 200] (demo_auctions [])))). a_winner r' = Some ''u2'' \<and> a_current r' = 6000"
proof -
  obtain r' where r': "r' \<in> set (auctions (adb (fold auc_do [Tick 30 200 200] (demo_auctions []))))" "a_id r' = ''a1''" "a_winner r' = Some ''u2''"
    using demo_sold by blast
  have d: "demo_auction \<in> set (auctions (adb (demo_auctions [])))" "a_winner demo_auction = None" "a_id r' = a_id demo_auction"
    using r'(2) by (simp_all add: demo_auctions_def demo_auction_def)
  from winner_is_highest [OF demo_auctions_ok d(1,2) refl r'(1) d(3) r'(3)] r' show ?thesis
    by (auto simp: demo_auctions_def demo_bid_def)
qed


text \<open>A failed lookup loses the winner. When only the lookup of the highest bid fails, the auction is ended
  without a winner whatever was bid, the event says that nobody won, and no later command gives it one.\<close>

theorem lost_lookup_loses_winner:
  assumes "auc_ok (adb s)" and "r \<in> set (auctions (adb s))" and "a_winner r = None"
    and "faults (au_sess s) = [True]" and "au_broker s = []"
  shows "\<exists>s'. s' = end_auction t (scan_auction r) s \<and> last (au_events s') = event_of ''auction.ended'' (a_id r) (a_seller r) (a_title r) [] 0 t \<and>
    (\<forall>cs. \<exists>r' \<in> set (auctions (adb (fold auc_do cs s'))). a_id r' = a_id r \<and> a_state r' = StateEnded \<and> a_winner r' = None)"
proof -
  let ?s1 = "s\<lparr>au_sess := (au_sess s)\<lparr>faults := []\<rparr>\<rparr>"
  let ?upd = "update_where (\<lambda>x. a_id x = a_id r) (\<lambda>x. x\<lparr>a_state := StateEnded, a_updated := t\<rparr>) (auctions (adb s))"
  let ?s2 = "?s1\<lparr>au_sess := (au_sess ?s1)\<lparr>db := (adb s)\<lparr>auctions := ?upd\<rparr>\<rparr>\<rparr>"
  let ?ev = "event_of ''auction.ended'' (a_id r) (a_seller r) (a_title r) [] 0 t"
  have "on_db (get_highest_bid (a_id r)) s = (Inl ConnError, ?s1)"
    using assms(4) by (simp add: on_db_def get_highest_bid_def pool_query_def next_fault_def Session.tick_def)
  moreover have "snd (on_db (update_state (a_id r) StateEnded t) ?s1) = ?s2"
    by (simp add: update_state_def on_db_def pool_exec_def next_fault_def Session.tick_def sql_update_state_def change_auctions_def)
  ultimately have e: "end_auction t (scan_auction r) s = invalidate_auction (a_id r) (publish_event ?ev ?s2)"
    by (simp add: end_auction_def Let_def)
  have "\<exists>q \<in> set ?upd. a_id q = a_id r \<and> a_state q = StateEnded \<and> a_winner q = None"
    using assms(2,3) by (intro bexI [of _ "r\<lparr>a_state := StateEnded, a_updated := t\<rparr>"]) (auto simp: in_set_update_where)
  then obtain q where q: "q \<in> set ?upd" "a_id q = a_id r" "a_state q = StateEnded" "a_winner q = None" by blast
  have ok: "auc_ok (adb (end_auction t (scan_auction r) s))"
    using assms(1) unfolding e auc_ok_def by (auto simp: in_set_update_where row_ok_def map_update_where)
  have "\<exists>r' \<in> set (auctions (adb (fold auc_do cs (end_auction t (scan_auction r) s)))). a_id r' = a_id r \<and> a_state r' = StateEnded \<and> a_winner r' = None" for cs
  proof -
    obtain r' where r': "r' \<in> set (auctions (adb (fold auc_do cs (end_auction t (scan_auction r) s))))"
        "(auction_step (set (bids (adb (end_auction t (scan_auction r) s)))))\<^sup>*\<^sup>* q r'"
      using commands_follow [OF ok, of cs] q(1) unfolding follows_def e by fastforce
    from settled_steps [OF r'(2)] q obtain del where "r' = q\<lparr>a_deleted := del\<rparr>" by auto
    then have "a_id r' = a_id r \<and> a_state r' = StateEnded \<and> a_winner r' = None" using q by simp
    with r'(1) show ?thesis by blast
  qed
  moreover have "last (au_events (end_auction t (scan_auction r) s)) = ?ev"
    using assms(5) by (simp add: e publish_event_def invalidate_auction_def on_redis_def split_beta)
  ultimately show ?thesis by blast
qed

theorem lost_lookup_loses_winner_witness:
  "a_winner (hd (auctions (adb (end_auction 200 (scan_auction demo_auction) (demo_auctions [True]))))) = None"
proof -
  have d: "demo_auction \<in> set (auctions (adb (demo_auctions [True])))" "a_winner demo_auction = None"
    "faults (au_sess (demo_auctions [True])) = [True]" "au_broker (demo_auctions [True]) = []"
    by (simp_all add: demo_auctions_def demo_auction_def)
  from lost_lookup_loses_winner [OF demo_auctions_ok d, of 200] obtain s' where s': "s' = end_auction 200 (scan_auction demo_auction) (demo_auctions [True])"
    and all: "\<forall>cs. \<exists>r' \<in> set (auctions (adb (fold auc_do cs s'))). a_id r' = a_id demo_auction \<and> a_state r' = StateEnded \<and> a_winner r' = None"
    by blast
  have "map a_id (auctions (adb s')) = [''a1'', ''a2'']" unfolding s' by code_simp
  with all [THEN spec, of "[]"] show ?thesis unfolding s' [symmetric] by (auto simp: demo_auction_def)
qed

text \<open>An auction is edited only by its seller and only before it starts. An update that changes the tables
  found the live auction in draft or scheduled state and owned by the caller, and changes only its title,
  description and reserve.\<close>

theorem update_guarded:
  assumes "auc_ok (adb s)" and "update t aid user req s = (r, s')" and "adb s' \<noteq> adb s"
  shows "\<exists>x x'. x \<in> set (auctions (adb s)) \<and> a_id x = aid \<and> a_seller x = user \<and> a_deleted x = None \<and>
    a_state x \<in> {StateDraft, StateScheduled} \<and>
    x' = x\<lparr>a_title := a_title x', a_description := a_description x', a_reserve := a_reserve x', a_updated := t\<rparr> \<and>
    adb s' = (adb s)\<lparr>auctions := map (\<lambda>y. if a_id y = aid then x' else y) (auctions (adb s))\<rparr>"
proof -
  obtain x c where x: "live_auction aid (adb s) = Some x" "a_seller x = user" "a_state x = StateDraft \<or> a_state x = StateScheduled"
    and s': "adb s' = (adb s)\<lparr>auctions := update_where (\<lambda>r. a_id r = aid \<and> a_deleted r = None)
       (\<lambda>r. r\<lparr>a_title := a_title (edited req (scan_auction x)), a_description := a_description (edited req (scan_auction x)),
          a_reserve := c, a_updated := t\<rparr>) (auctions (adb s))\<rparr>"
    using update_effect [OF assms(2)] assms(3) by blast
  define x' where "x' = x\<lparr>a_title := a_title (edited req (scan_auction x)), a_description := a_description (edited req (scan_auction x)),
          a_reserve := c, a_updated := t\<rparr>"
  note live = live_auctionD [OF x(1)]
  have same: "y = x" if "y \<in> set (auctions (adb s))" "a_id y = aid" for y
    using that live assms(1) by (metis auc_ok_def distinct_key_unique)
  have del: "a_deleted y = None" if "y \<in> set (auctions (adb s))" "a_id y = aid" for y
    using same [OF that] live by simp
  have "adb s' = (adb s)\<lparr>auctions := map (\<lambda>y. if a_id y = aid then x' else y) (auctions (adb s))\<rparr>"
    unfolding s' update_where_def by (rule arg_cong [where f = "\<lambda>l. (adb s)\<lparr>auctions := l\<rparr>"], rule map_cong [OF refl])
      (auto simp: x'_def del dest: same)
  moreover have "x' = x\<lparr>a_title := a_title x', a_description := a_description x', a_reserve := a_reserve x', a_updated := t\<rparr>"
    by (simp add: x'_def)
  ultimately show ?thesis using x(2,3) live by blast
qed

theorem update_guarded_witness:
  "\<exists>x'. auctions (adb (snd (update 7 ''a2'' ''s1'' \<lparr>ur_title = ''New clock'', ur_description = [], ur_reserve = 0\<rparr> (demo_auctions [])))) =
     [demo_auction, x'] \<and> a_state x' = StateScheduled"
proof -
  let ?u = "update 7 ''a2'' ''s1'' \<lparr>ur_title = ''New clock'', ur_description = [], ur_reserve = 0\<rparr> (demo_auctions [])"
  have "map a_title (auctions (adb (snd ?u))) \<noteq> map a_title (auctions (adb (demo_auctions [])))" by code_simp
  then have "adb (snd ?u) \<noteq> adb (demo_auctions [])" by metis
  from update_guarded [OF demo_auctions_ok prod.collapse [symmetric] this]
  obtain x x' where x: "x \<in> set (auctions (adb (demo_auctions [])))" "a_id x = ''a2''"
      "x' = x\<lparr>a_title := a_title x', a_description := a_description x', a_reserve := a_reserve x', a_updated := 7\<rparr>"
      "adb (snd ?u) = (adb (demo_auctions []))\<lparr>auctions := map (\<lambda>y. if a_id y = ''a2'' then x' else y) (auctions (adb (demo_auctions [])))\<rparr>"
    by blast
  from x(1,2) have "a_state x = StateScheduled" by (auto simp: demo_auctions_def demo_auction_def)
  then have "a_state x' = StateScheduled" using arg_cong [OF x(3), of a_state] by simp
  with x(4) show ?thesis by (simp add: demo_auctions_def demo_auction_def)
qed

text \<open>Starting an auction does not look at its state. The statement of the scheduler's second phase, sent for
  an auction read as scheduled, makes it active again even when another scheduler has meanwhile ended it.\<close>

theorem stale_tick_reopens:
  "let s = tick 30 200 200 (demo_auctions []); a = scan_auction (demo_auction\<lparr>a_id := ''a2'', a_state := StateScheduled\<rparr>) in
    map a_state (auctions (adb s)) = [StateEnded, StateEnded] \<and>
    map a_state (auctions (adb (activate 201 a s))) = [StateEnded, StateActive]"
  by code_simp

end
