(* ===== verification/UserWallet.thy ===== *)
theory UserWallet
  imports Session Float64
begin

text \<open>
  The wallets of the user service, against which the bid service holds and releases money
  (\<^verbatim>\<open>services/user-service/internal/service/wallet_service.go\<close>,
  \<^verbatim>\<open>internal/repository/wallet_repository.go\<close>), the handlers of the internal API
  (\<^verbatim>\<open>internal/handler/wallet_handler.go\<close>) and the Kafka consumer that settles an ended auction
  (\<^verbatim>\<open>internal/consumer/auction_consumer.go\<close>), over the tables of \<^verbatim>\<open>migrations/001_initial.sql\<close>.

  A held amount is simply taken from the balance; nothing remembers the hold. The time and the fresh ids of a
  call are arguments (\<open>user_draw\<close>). The audit log is a table the code writes and never reads; a failure to write
  it is ignored. Metrics and logs are left out.
\<close>

subsection \<open>Tables\<close>

record 'm uwallet =
  uw_id :: uuid
  uw_user :: uuid
  uw_balance :: 'm
  uw_currency :: string
  uw_created :: time
  uw_updated :: time

datatype utxn_type = UDeposit | UWithdraw | UHold | URelease | USettle | UCredit

record 'm uwallet_txn =
  ut_id :: uuid
  ut_wallet :: uuid
  ut_type :: utxn_type
  ut_amount :: 'm
  ut_before :: 'm
  ut_after :: 'm
  ut_desc :: string
  ut_created :: time

record audit_row =
  al_id :: uuid
  al_user :: "uuid option"
  al_action :: string
  al_amount :: float64
  al_created :: time

record userdb =
  users :: "uuid list"
  uwallets :: "int uwallet list"
  utxns :: "int uwallet_txn list"
  audit_logs :: "audit_row list"

type_synonym ('e, 'a) user_op = "(userdb, 'e, 'a) db_op"

definition scan_uwallet :: "int uwallet \<Rightarrow> float64 uwallet" where
  "scan_uwallet w = \<lparr>uw_id = uw_id w, uw_user = uw_user w, uw_balance = dec (uw_balance w),
     uw_currency = uw_currency w, uw_created = uw_created w, uw_updated = uw_updated w\<rparr>"

definition scan_utxn :: "int uwallet_txn \<Rightarrow> float64 uwallet_txn" where
  "scan_utxn r = \<lparr>ut_id = ut_id r, ut_wallet = ut_wallet r, ut_type = ut_type r, ut_amount = dec (ut_amount r),
     ut_before = dec (ut_before r), ut_after = dec (ut_after r), ut_desc = ut_desc r, ut_created = ut_created r\<rparr>"

lemma scan_uwallet_simps [simp]:
  "uw_id (scan_uwallet w) = uw_id w" "uw_user (scan_uwallet w) = uw_user w"
  "uw_balance (scan_uwallet w) = dec (uw_balance w)"
  by (simp_all add: scan_uwallet_def)

subsection \<open>Statements\<close>

definition sql_insert_uwallet :: "float64 uwallet \<Rightarrow> userdb db_update" where
  "sql_insert_uwallet w d =
     (case money (uw_balance w) of None \<Rightarrow> Inl NumericOverflow
      | Some b \<Rightarrow>
        (if b < 0 then Inl CheckViolation
         else if uw_id w \<in> uw_id ` set (uwallets d) \<or> uw_user w \<in> uw_user ` set (uwallets d) then Inl UniqueViolation
         else if uw_user w \<notin> set (users d) then Inl ForeignKeyViolation
         else Inr (d\<lparr>uwallets := uwallets d @ [\<lparr>uw_id = uw_id w, uw_user = uw_user w, uw_balance = b,
           uw_currency = uw_currency w, uw_created = uw_created w, uw_updated = uw_updated w\<rparr>]\<rparr>, 1)))"

definition sql_set_balance :: "uuid \<Rightarrow> float64 \<Rightarrow> time \<Rightarrow> userdb db_update" where
  "sql_set_balance wid x t d =
     (if wid \<notin> uw_id ` set (uwallets d) then Inr (d, 0)
      else (case money x of None \<Rightarrow> Inl NumericOverflow
        | Some b \<Rightarrow> if b < 0 then Inl CheckViolation
            else Inr (d\<lparr>uwallets := update_where (\<lambda>w. uw_id w = wid)
              (\<lambda>w. w\<lparr>uw_balance := b, uw_updated := t\<rparr>) (uwallets d)\<rparr>, 1)))"

definition sql_insert_utxn :: "float64 uwallet_txn \<Rightarrow> userdb db_update" where
  "sql_insert_utxn r d =
     (case (money (ut_amount r), money (ut_before r), money (ut_after r)) of
        (Some am, Some be, Some af) \<Rightarrow>
          (if ut_id r \<in> ut_id ` set (utxns d) then Inl UniqueViolation
           else if ut_wallet r \<notin> uw_id ` set (uwallets d) then Inl ForeignKeyViolation
           else Inr (d\<lparr>utxns := utxns d @ [\<lparr>ut_id = ut_id r, ut_wallet = ut_wallet r, ut_type = ut_type r,
             ut_amount = am, ut_before = be, ut_after = af, ut_desc = ut_desc r, ut_created = ut_created r\<rparr>]\<rparr>, 1))
      | _ \<Rightarrow> Inl NumericOverflow)"

definition sql_insert_audit :: "audit_row \<Rightarrow> userdb db_update" where
  "sql_insert_audit r d =
     (if al_id r \<in> al_id ` set (audit_logs d) then Inl UniqueViolation
      else if (case al_user r of None \<Rightarrow> False | Some u \<Rightarrow> u \<notin> set (users d)) then Inl ForeignKeyViolation
      else Inr (d\<lparr>audit_logs := audit_logs d @ [r]\<rparr>, 1))"

subsection \<open>The repository\<close>

datatype user_err = UWalletNotFound | UInsufficient | UDb db_error

record user_draw =
  ud_txn :: uuid
  ud_audit :: uuid
  ud_now :: time

definition no_rows :: "db_error \<Rightarrow> user_err" where
  "no_rows e = (if e = NoRows then UWalletNotFound else UDb e)"

definition create_uwallet :: "uuid \<Rightarrow> time \<Rightarrow> uuid \<Rightarrow> (user_err, float64 uwallet) user_op" where
  "create_uwallet wid t user =
     (let w = \<lparr>uw_id = wid, uw_user = user, uw_balance = 0, uw_currency = ''USD'', uw_created = t, uw_updated = t\<rparr> in
      andthen (on_err UDb (exec (sql_insert_uwallet w))) (\<lambda>_. ret w))"

definition find_by_user_id :: "uuid \<Rightarrow> (user_err, float64 uwallet) user_op" where
  "find_by_user_id user = on_err no_rows
     (pool_query (\<lambda>d. map_option scan_uwallet (find (\<lambda>w. uw_user w = user) (uwallets d))))"

definition lock_uwallet :: "uuid \<Rightarrow> (user_err, float64 uwallet) user_op" where
  "lock_uwallet wid = on_err no_rows
     (query_row (\<lambda>d. map_option scan_uwallet (find (\<lambda>w. uw_id w = wid) (uwallets d))))"

definition utxn :: "user_draw \<Rightarrow> uuid \<Rightarrow> utxn_type \<Rightarrow> float64 \<Rightarrow> float64 \<Rightarrow> float64 \<Rightarrow> string \<Rightarrow> float64 uwallet_txn" where
  "utxn dr wid ty amount prior after desc = \<lparr>ut_id = ud_txn dr, ut_wallet = wid, ut_type = ty, ut_amount = amount,
     ut_before = prior, ut_after = after, ut_desc = desc, ut_created = ud_now dr\<rparr>"

definition repo_deposit :: "user_draw \<Rightarrow> uuid \<Rightarrow> float64 \<Rightarrow> string \<Rightarrow> (user_err, unit) user_op" where
  "repo_deposit dr wid amount desc =
     andthen (lock_uwallet wid) (\<lambda>w.
       let prior = uw_balance w; after = fadd prior amount in
       andthen (on_err UDb (exec (sql_set_balance wid after (ud_now dr)))) (\<lambda>_.
       andthen (on_err UDb (exec (sql_insert_utxn (utxn dr wid UDeposit amount prior after desc)))) (\<lambda>_. ret ())))"

definition adjust_balance :: "user_draw \<Rightarrow> uuid \<Rightarrow> float64 \<Rightarrow> utxn_type \<Rightarrow> string \<Rightarrow> (user_err, unit) user_op" where
  "adjust_balance dr wid delta ty desc =
     andthen (lock_uwallet wid) (\<lambda>w.
       let after = fadd (uw_balance w) delta in
       if after < 0 then fail UInsufficient
       else andthen (on_err UDb (exec (sql_set_balance wid after (ud_now dr)))) (\<lambda>_.
            andthen (on_err UDb (exec (sql_insert_utxn (utxn dr wid ty delta (uw_balance w) after desc)))) (\<lambda>_. ret ())))"

text \<open>The page of a wallet's transactions, newest first, with their number.\<close>

definition list_transactions :: "uuid \<Rightarrow> int \<Rightarrow> int \<Rightarrow> (user_err, float64 uwallet_txn list \<times> int) user_op" where
  "list_transactions wid limit offset =
     (let rows = (\<lambda>d. sort_key (\<lambda>r. - ut_created r) (filter (\<lambda>r. ut_wallet r = wid) (utxns d))) in
      andthen (on_err UDb (pool_query (\<lambda>d. Some (int (length (rows d)))))) (\<lambda>n.
        if offset < 0 then fail (UDb NegativeOffset)
        else andthen (on_err UDb (pool_query (\<lambda>d. Some (map scan_utxn (take (nat limit) (drop (nat offset) (rows d)))))))
          (\<lambda>rs. ret (rs, n))))"

subsection \<open>The service\<close>

definition get_uwallet :: "uuid \<Rightarrow> (user_err, float64 uwallet) user_op" where
  "get_uwallet user = find_by_user_id user"

definition deposit :: "user_draw \<Rightarrow> uuid \<Rightarrow> float64 \<Rightarrow> (user_err, float64 uwallet) user_op" where
  "deposit dr user amount =
     andthen (find_by_user_id user) (\<lambda>w.
     andthen (with_tx UDb UDb (repo_deposit dr (uw_id w) amount ''manual deposit'')) (\<lambda>_.
     andthen (ignoring (pool_exec (sql_insert_audit \<lparr>al_id = ud_audit dr,
        al_user = (if user = [] then None else Some user), al_action = ''WALLET_DEPOSIT'',
        al_amount = amount, al_created = ud_now dr\<rparr>))) (\<lambda>_.
     find_by_user_id user)))"

definition history :: "uuid \<Rightarrow> int \<Rightarrow> int \<Rightarrow> (user_err, float64 uwallet_txn list \<times> int) user_op" where
  "history user limit0 offset =
     (let limit = (if limit0 \<le> 0 \<or> 100 < limit0 then 20 else limit0) in
      andthen (find_by_user_id user) (\<lambda>w. list_transactions (uw_id w) limit offset))"

definition hold :: "user_draw \<Rightarrow> uuid \<Rightarrow> float64 \<Rightarrow> string \<Rightarrow> (user_err, unit) user_op" where
  "hold dr user amount ref =
     andthen (find_by_user_id user) (\<lambda>w.
       if uw_balance w < amount then fail UInsufficient
       else with_tx UDb UDb (adjust_balance dr (uw_id w) (- amount) UHold (''hold:'' @ ref)))"

definition release_hold :: "user_draw \<Rightarrow> uuid \<Rightarrow> float64 \<Rightarrow> string \<Rightarrow> (user_err, unit) user_op" where
  "release_hold dr user amount ref =
     andthen (find_by_user_id user) (\<lambda>w.
       with_tx UDb UDb (adjust_balance dr (uw_id w) amount URelease (''release:'' @ ref)))"

definition settle :: "user_draw \<Rightarrow> uuid \<Rightarrow> float64 \<Rightarrow> uuid \<Rightarrow> (user_err, unit) user_op" where
  "settle dr user amount auction =
     andthen (find_by_user_id user) (\<lambda>w.
       with_tx UDb UDb (adjust_balance dr (uw_id w) 0 USettle (''settle:auction:'' @ auction)))"

definition credit :: "user_draw \<Rightarrow> uuid \<Rightarrow> float64 \<Rightarrow> uuid \<Rightarrow> (user_err, unit) user_op" where
  "credit dr user amount auction =
     andthen (find_by_user_id user) (\<lambda>w.
       with_tx UDb UDb (adjust_balance dr (uw_id w) amount UCredit (''credit:auction:'' @ auction)))"

subsection \<open>The internal API\<close>

text \<open>The status codes of the handlers; \<^verbatim>\<open>binding\<close> refuses a missing field and an amount that is not positive.\<close>

definition api_hold :: "user_draw \<Rightarrow> uuid \<Rightarrow> float64 \<Rightarrow> string \<Rightarrow> userdb session \<Rightarrow> nat \<times> userdb session" where
  "api_hold dr user amount ref s =
     (if user = [] \<or> amount \<le> 0 \<or> ref = [] then (400, s)
      else (case hold dr user amount ref s of
          (Inl UInsufficient, s') \<Rightarrow> (400, s') | (Inl _, s') \<Rightarrow> (500, s') | (Inr _, s') \<Rightarrow> (200, s')))"

definition api_release :: "user_draw \<Rightarrow> uuid \<Rightarrow> float64 \<Rightarrow> string \<Rightarrow> userdb session \<Rightarrow> nat \<times> userdb session" where
  "api_release dr user amount ref s =
     (if user = [] \<or> amount \<le> 0 \<or> ref = [] then (400, s)
      else (case release_hold dr user amount ref s of (Inl _, s') \<Rightarrow> (500, s') | (Inr _, s') \<Rightarrow> (200, s')))"

definition api_settle :: "user_draw \<Rightarrow> uuid \<Rightarrow> float64 \<Rightarrow> uuid \<Rightarrow> userdb session \<Rightarrow> nat \<times> userdb session" where
  "api_settle dr user amount auction s =
     (if user = [] \<or> amount \<le> 0 \<or> auction = [] then (400, s)
      else (case settle dr user amount auction s of (Inl _, s') \<Rightarrow> (500, s') | (Inr _, s') \<Rightarrow> (200, s')))"

definition api_credit :: "user_draw \<Rightarrow> uuid \<Rightarrow> float64 \<Rightarrow> uuid \<Rightarrow> userdb session \<Rightarrow> nat \<times> userdb session" where
  "api_credit dr user amount auction s =
     (if user = [] \<or> amount \<le> 0 \<or> auction = [] then (400, s)
      else (case credit dr user amount auction s of (Inl _, s') \<Rightarrow> (500, s') | (Inr _, s') \<Rightarrow> (200, s')))"

subsection \<open>The consumer of ended auctions\<close>

record ended_event =
  ee_auction :: uuid
  ee_seller :: uuid
  ee_winner :: string
  ee_amount :: float64

text \<open>A failed settlement of the winner is logged and the seller credited all the same.\<close>

definition handle_auction_ended :: "user_draw \<Rightarrow> user_draw \<Rightarrow> ended_event \<Rightarrow> (user_err, unit) user_op" where
  "handle_auction_ended dr1 dr2 e =
     (if ee_winner e = [] then ret ()
      else andthen (ignoring (settle dr1 (ee_winner e) (ee_amount e) (ee_auction e))) (\<lambda>_.
        credit dr2 (ee_seller e) (ee_amount e) (ee_auction e)))"

text \<open>A message: its key, and the event its value decodes to, if it does. Its error is only logged.\<close>

definition consume :: "user_draw \<Rightarrow> user_draw \<Rightarrow> string \<times> ended_event option \<Rightarrow> userdb session \<Rightarrow> userdb session" where
  "consume dr1 dr2 m s =
     (if fst m = ''auction.ended'' then (case snd m of None \<Rightarrow> s | Some e \<Rightarrow> snd (handle_auction_ended dr1 dr2 e s)) else s)"

end
