(* ===== verification/Bid.thy ===== *)
theory Bid
  imports AuctionDb Redis UserWallet
begin

text \<open>
  The bid service: placing a bid (\<^verbatim>\<open>services/bid-service/internal/service/bid_service.go\<close>) with its
  repositories (\<^verbatim>\<open>internal/repository\<close>), the Redis cache of the highest bid (\<^verbatim>\<open>internal/redis/redis.go\<close>), the
  lock of an auction (\<^verbatim>\<open>internal/lock/distributed_lock.go\<close>), the HTTP client of the user service's wallets
  (\<^verbatim>\<open>internal/wallet/client.go\<close>) and the handlers (\<^verbatim>\<open>internal/handler/bid_handler.go\<close>).

  The state is the database it shares with the auction service, Redis, the user service's database behind the
  network, the events the broker has taken and the messages broadcast to web sockets. What is still to come is a
  script: per HTTP call whether it is answered, never sent, or applied with its reply lost; per event whether the
  broker takes it. A call reads the clock once (\<open>bd_now\<close>). Tracing, metrics and logs are left out.
\<close>

datatype bid_value = AuctionLocked | Highest float64

datatype net = Answered | NotSent | ReplyLost

record bid_event =
  be_type :: string
  be_bid :: uuid
  be_auction :: uuid
  be_user :: uuid
  be_amount :: float64
  be_time :: time

record bid_sys =
  bs_sess :: "aucdb session"
  bs_redis :: "bid_value redis"
  bs_users :: "userdb session"
  bs_net :: "net list"
  bs_events :: "bid_event list"
  bs_broker :: "bool list"
  bs_cast :: "bid_event list"

definition on_bids :: "'a auc_op \<Rightarrow> bid_sys \<Rightarrow> (db_error + 'a) \<times> bid_sys" where
  "on_bids m s = (let (r, ss) = m (bs_sess s) in (r, s\<lparr>bs_sess := ss\<rparr>))"

definition on_cache :: "(bid_value redis \<Rightarrow> 'a \<times> bid_value redis) \<Rightarrow> bid_sys \<Rightarrow> 'a \<times> bid_sys" where
  "on_cache m s = (let (x, r) = m (bs_redis s) in (x, s\<lparr>bs_redis := r\<rparr>))"

subsection \<open>Repositories\<close>

definition sql_insert_bid :: "float64 bid \<Rightarrow> aucdb db_update" where
  "sql_insert_bid b d =
     (case money (b_amount b) of None \<Rightarrow> Inl NumericOverflow
      | Some c \<Rightarrow>
        (if c \<le> 0 then Inl CheckViolation
         else if b_id b \<in> b_id ` set (bids d) then Inl UniqueViolation
         else if b_auction b \<notin> a_id ` set (auctions d) then Inl ForeignKeyViolation
         else Inr (d\<lparr>bids := bids d @ [\<lparr>b_id = b_id b, b_auction = b_auction b, b_user = b_user b, b_amount = c,
           b_created = b_created b\<rparr>]\<rparr>, 1)))"

definition create_bid :: "float64 bid \<Rightarrow> nat auc_op" where
  "create_bid b = pool_exec (sql_insert_bid b)"

definition get_auction_by_id :: "uuid \<Rightarrow> float64 auction auc_op" where
  "get_auction_by_id aid = pool_query (\<lambda>d. map_option scan_auction (live_auction aid d))"

definition update_current_price :: "uuid \<Rightarrow> float64 \<Rightarrow> nat auc_op" where
  "update_current_price aid amount = pool_exec (\<lambda>d.
     if matching (\<lambda>r. a_id r = aid) d = 0 then Inr (d, 0)
     else (case money amount of None \<Rightarrow> Inl NumericOverflow
       | Some c \<Rightarrow> change_auctions (\<lambda>r. a_id r = aid) (\<lambda>r. r\<lparr>a_current := c\<rparr>) d))"

text \<open>\<^verbatim>\<open>COALESCE(MAX(amount), 0)\<close>.\<close>

definition max_bid :: "uuid \<Rightarrow> aucdb \<Rightarrow> int" where
  "max_bid aid d = (case top_bid aid d of None \<Rightarrow> 0 | Some b \<Rightarrow> b_amount b)"

definition highest_amount :: "uuid \<Rightarrow> float64 auc_op" where
  "highest_amount aid = pool_query (\<lambda>d. Some (dec (max_bid aid d)))"

definition bids_by_auction :: "uuid \<Rightarrow> float64 bid list auc_op" where
  "bids_by_auction aid = pool_query (\<lambda>d. Some (map scan_bid (bids_desc aid d)))"

definition bids_by_user :: "uuid \<Rightarrow> float64 bid list auc_op" where
  "bids_by_user user = pool_query (\<lambda>d. Some (map scan_bid
     (sort_key (\<lambda>b. - b_created b) (filter (\<lambda>b. b_user b = user) (bids d)))))"

definition user_already_bid :: "uuid \<Rightarrow> uuid \<Rightarrow> bool auc_op" where
  "user_already_bid aid user = pool_query (\<lambda>d.
     Some (filter (\<lambda>b. b_auction b = aid \<and> b_user b = user) (bids d) \<noteq> []))"

definition bid_by_id :: "uuid \<Rightarrow> float64 bid auc_op" where
  "bid_by_id i = pool_query (\<lambda>d. map_option scan_bid (find (\<lambda>b. b_id b = i) (bids d)))"

text \<open>\<^verbatim>\<open>MAX\<close> of no rows is \<^verbatim>\<open>NULL\<close>, which does not scan into a \<^verbatim>\<open>time.Time\<close>; the error is the caller's.\<close>

definition latest_bid_time :: "uuid \<Rightarrow> time auc_op" where
  "latest_bid_time aid = pool_query (\<lambda>d. case filter (\<lambda>b. b_auction b = aid) (bids d) of
     [] \<Rightarrow> None | bs \<Rightarrow> Some (Max (b_created ` set bs)))"

definition highest_bidder :: "uuid \<Rightarrow> uuid \<Rightarrow> uuid auc_op" where
  "highest_bidder aid excluded = pool_query (\<lambda>d.
     map_option b_user (find (\<lambda>b. b_id b \<noteq> excluded) (bids_desc aid d)))"

subsection \<open>Cache, lock, events and wallet client\<close>

definition highest_key :: "uuid \<Rightarrow> string" where
  "highest_key aid = ''auction:highest_bid:'' @ aid"

definition set_highest_bid :: "uuid \<Rightarrow> float64 \<Rightarrow> duration \<Rightarrow> time \<Rightarrow> bid_sys \<Rightarrow> bid_sys" where
  "set_highest_bid aid amount ttl t s = snd (on_cache (redis_set (highest_key aid) (Highest amount) ttl t) s)"

text \<open>\<open>None\<close> is an error: of the command, or of reading a float from the value. A missing key is zero.\<close>

definition cached_highest_bid :: "uuid \<Rightarrow> time \<Rightarrow> bid_sys \<Rightarrow> float64 option \<times> bid_sys" where
  "cached_highest_bid aid t s = (case on_cache (redis_get (highest_key aid) t) s of
     (None, s') \<Rightarrow> (None, s')
   | (Some None, s') \<Rightarrow> (Some 0, s')
   | (Some (Some AuctionLocked), s') \<Rightarrow> (None, s')
   | (Some (Some (Highest x)), s') \<Rightarrow> (Some x, s'))"

definition lock_key :: "uuid \<Rightarrow> string" where
  "lock_key aid = ''auction_lock:'' @ aid"

definition acquire_auction_lock :: "uuid \<Rightarrow> duration \<Rightarrow> time \<Rightarrow> bid_sys \<Rightarrow> bool option \<times> bid_sys" where
  "acquire_auction_lock aid ttl t =
     on_cache (redis_setnx (lock_key aid) AuctionLocked (if ttl = 0 then 5 * second else ttl) t)"

definition release_auction_lock :: "uuid \<Rightarrow> bid_sys \<Rightarrow> bid_sys" where
  "release_auction_lock aid s = snd (on_cache (redis_del (lock_key aid)) s)"

definition publish_bid :: "bid_event \<Rightarrow> bid_sys \<Rightarrow> bid_sys" where
  "publish_bid e s =
     (let s' = s\<lparr>bs_broker := tl (bs_broker s)\<rparr> in
      if bs_broker s \<noteq> [] \<and> \<not> hd (bs_broker s) then s' else s'\<lparr>bs_events := bs_events s @ [e]\<rparr>)"

definition call_wallet_api :: "bool \<Rightarrow> (userdb session \<Rightarrow> nat \<times> userdb session) \<Rightarrow> bid_sys \<Rightarrow> bool \<times> bid_sys" where
  "call_wallet_api enabled f s =
     (if \<not> enabled then (True, s)
      else let s' = s\<lparr>bs_net := tl (bs_net s)\<rparr>; (status, u) = f (bs_users s) in
        (case bs_net s of
           NotSent # _ \<Rightarrow> (False, s')
         | ReplyLost # _ \<Rightarrow> (False, s'\<lparr>bs_users := u\<rparr>)
         | _ \<Rightarrow> (status < 400, s'\<lparr>bs_users := u\<rparr>)))"

definition wallet_hold :: "bool \<Rightarrow> user_draw \<Rightarrow> uuid \<Rightarrow> float64 \<Rightarrow> string \<Rightarrow> bid_sys \<Rightarrow> bool \<times> bid_sys" where
  "wallet_hold enabled dr user amount ref = call_wallet_api enabled (api_hold dr user amount ref)"

definition wallet_release :: "bool \<Rightarrow> user_draw \<Rightarrow> uuid \<Rightarrow> float64 \<Rightarrow> string \<Rightarrow> bid_sys \<Rightarrow> bool \<times> bid_sys" where
  "wallet_release enabled dr user amount ref = call_wallet_api enabled (api_release dr user amount ref)"

definition wallet_settle :: "bool \<Rightarrow> user_draw \<Rightarrow> uuid \<Rightarrow> float64 \<Rightarrow> uuid \<Rightarrow> bid_sys \<Rightarrow> bool \<times> bid_sys" where
  "wallet_settle enabled dr user amount auction = call_wallet_api enabled (api_settle dr user amount auction)"

definition wallet_credit :: "bool \<Rightarrow> user_draw \<Rightarrow> uuid \<Rightarrow> float64 \<Rightarrow> uuid \<Rightarrow> bid_sys \<Rightarrow> bool \<times> bid_sys" where
  "wallet_credit enabled dr user amount auction = call_wallet_api enabled (api_credit dr user amount auction)"

subsection \<open>Placing a bid\<close>

datatype bid_err = ErrAuctionNotFound | ErrAuctionNotActive | ErrBidTooLow float64 | ErrAuctionLocked
  | ErrSellerCannotBid | LockError | HighestBidFailed db_error | SaveFailed db_error

record bid_draw =
  bd_bid :: uuid
  bd_hold :: user_draw
  bd_release :: user_draw
  bd_now :: time

text \<open>The highest bid: from the cache, or from the database when the cache has none or fails.\<close>

definition current_highest :: "uuid \<Rightarrow> time \<Rightarrow> bid_sys \<Rightarrow> (bid_err + float64) \<times> bid_sys" where
  "current_highest aid t s = (case cached_highest_bid aid t s of
     (c, s1) \<Rightarrow>
       (if c = None \<or> c = Some 0
        then (case on_bids (highest_amount aid) s1 of
            (Inl e, s2) \<Rightarrow> (Inl (HighestBidFailed e), s2) | (Inr x, s2) \<Rightarrow> (Inr x, s2))
        else (Inr (the c), s1)))"

definition bid_ref :: "uuid \<Rightarrow> string" where
  "bid_ref aid = ''auction:'' @ aid @ '':bid''"

definition release_previous :: "bool \<Rightarrow> bid_draw \<Rightarrow> uuid \<Rightarrow> float64 \<Rightarrow> bid_sys \<Rightarrow> bid_sys" where
  "release_previous enabled dr aid highest s =
     (if highest \<le> 0 then s
      else (case on_bids (highest_bidder aid (bd_bid dr)) s of
          (Inl e, s1) \<Rightarrow> s1
        | (Inr prev, s1) \<Rightarrow>
            (if prev = [] then s1 else snd (wallet_release enabled (bd_release dr) prev highest (bid_ref aid) s1))))"

text \<open>After the bid is saved: cache, price, event, broadcast and the previous bidder's money; every error is dropped.\<close>

definition after_saving :: "bool \<Rightarrow> bid_draw \<Rightarrow> float64 bid \<Rightarrow> float64 \<Rightarrow> bid_sys \<Rightarrow> bid_sys" where
  "after_saving enabled dr b highest s =
     (let ev = \<lparr>be_type = ''bid.placed'', be_bid = b_id b, be_auction = b_auction b, be_user = b_user b,
            be_amount = b_amount b, be_time = b_created b\<rparr>;
          s1 = set_highest_bid (b_auction b) (b_amount b) (2 * hour) (bd_now dr) s;
          s2 = snd (on_bids (update_current_price (b_auction b) (b_amount b)) s1);
          s3 = publish_bid ev s2;
          s4 = s3\<lparr>bs_cast := bs_cast s3 @ [ev\<lparr>be_type := ''new_bid'', be_time := bd_now dr\<rparr>]\<rparr> in
      release_previous enabled dr (b_auction b) highest s4)"

definition new_bid :: "bid_draw \<Rightarrow> uuid \<Rightarrow> uuid \<Rightarrow> float64 \<Rightarrow> float64 bid" where
  "new_bid dr user aid amount = \<lparr>b_id = bd_bid dr, b_auction = aid, b_user = user, b_amount = amount,
     b_created = bd_now dr\<rparr>"

definition locked_bid :: "bool \<Rightarrow> bid_draw \<Rightarrow> uuid \<Rightarrow> uuid \<Rightarrow> float64 \<Rightarrow> bid_sys \<Rightarrow> (bid_err + float64 bid) \<times> bid_sys" where
  "locked_bid enabled dr user aid amount s = (case on_bids (get_auction_by_id aid) s of
     (Inl e, s1) \<Rightarrow> (Inl ErrAuctionNotFound, s1)
   | (Inr a, s1) \<Rightarrow>
      (if a_state a \<noteq> StateActive then (Inl ErrAuctionNotActive, s1)
       else if a_seller a = user then (Inl ErrSellerCannotBid, s1)
       else (case current_highest aid (bd_now dr) s1 of
          (Inl e, s2) \<Rightarrow> (Inl e, s2)
        | (Inr highest, s2) \<Rightarrow>
           (let floor_price = (if a_current a < highest then highest else a_current a) in
            if amount \<le> floor_price then (Inl (ErrBidTooLow floor_price), s2)
            else let s3 = snd (wallet_hold enabled (bd_hold dr) user amount (bid_ref aid) s2);
                     b = new_bid dr user aid amount in
              (case on_bids (create_bid b) s3 of
                 (Inl e, s4) \<Rightarrow> (Inl (SaveFailed e), s4)
               | (Inr _, s4) \<Rightarrow> (Inr b, after_saving enabled dr b highest s4))))))"

definition place_bid :: "bool \<Rightarrow> bid_draw \<Rightarrow> uuid \<Rightarrow> uuid \<Rightarrow> float64 \<Rightarrow> bid_sys \<Rightarrow> (bid_err + float64 bid) \<times> bid_sys" where
  "place_bid enabled dr user aid amount s = (case acquire_auction_lock aid (5 * second) (bd_now dr) s of
     (None, s1) \<Rightarrow> (Inl LockError, s1)
   | (Some False, s1) \<Rightarrow> (Inl ErrAuctionLocked, s1)
   | (Some True, s1) \<Rightarrow>
       (let (r, s2) = locked_bid enabled dr user aid amount s1 in (r, release_auction_lock aid s2)))"

subsection \<open>Handlers\<close>

primrec bid_status :: "bid_err \<Rightarrow> nat" where
  "bid_status ErrAuctionNotFound = 404"
| "bid_status ErrAuctionNotActive = 400"
| "bid_status (ErrBidTooLow x) = 400"
| "bid_status ErrAuctionLocked = 429"
| "bid_status ErrSellerCannotBid = 400"
| "bid_status LockError = 500"
| "bid_status (HighestBidFailed e) = 500"
| "bid_status (SaveFailed e) = 500"

text \<open>\<^verbatim>\<open>binding\<close> wants a UUID and a positive amount; the form of the UUID is left to it.\<close>

definition place_bid_handler :: "bool \<Rightarrow> bid_draw \<Rightarrow> uuid \<Rightarrow> uuid \<Rightarrow> float64 \<Rightarrow> bid_sys \<Rightarrow> nat \<times> bid_sys" where
  "place_bid_handler enabled dr user aid amount s =
     (if aid = [] \<or> amount \<le> 0 then (400, s)
      else if user = [] then (401, s)
      else (case place_bid enabled dr user aid amount s of
          (Inl e, s') \<Rightarrow> (bid_status e, s') | (Inr _, s') \<Rightarrow> (201, s')))"

definition min_bid_handler :: "uuid \<Rightarrow> time \<Rightarrow> bid_sys \<Rightarrow> (float64 \<times> float64) \<times> bid_sys" where
  "min_bid_handler aid t s =
     (let (c, s1) = cached_highest_bid aid t s;
          h0 = (case c of None \<Rightarrow> 0 | Some x \<Rightarrow> x);
          (highest, s2) = (if h0 = 0 then (case on_bids (highest_amount aid) s1 of
              (Inl e, s2) \<Rightarrow> (0, s2) | (Inr x, s2) \<Rightarrow> (x, s2)) else (h0, s1)) in
      ((highest, if highest = 0 then 1 else fadd highest 1), s2))"

end
