(* ===== verification/UserWalletSpec.thy ===== *)
theory UserWalletSpec
  imports UserWallet
begin

text \<open>
  What the user service's wallets guarantee. \<open>ledger_ok\<close> is the invariant of the tables: the constraints of the
  schema, and the balance of every wallet is the sum of its transactions. Every operation keeps it under any
  failures. \<open>entered\<close> is what a successful balance adjustment does.
\<close>

subsection \<open>The ledger\<close>

definition ledger :: "uuid \<Rightarrow> userdb \<Rightarrow> int" where
  "ledger wid d = sum_list (map ut_amount (filter (\<lambda>r. ut_wallet r = wid) (utxns d)))"

definition uwallet_ok :: "int uwallet \<Rightarrow> bool" where
  "uwallet_ok w \<longleftrightarrow> 0 \<le> uw_balance w \<and> in_range (uw_balance w)"

definition ledger_ok :: "userdb \<Rightarrow> bool" where
  "ledger_ok d \<longleftrightarrow> distinct (map uw_id (uwallets d)) \<and> distinct (map uw_user (uwallets d)) \<and>
     (\<forall>w \<in> set (uwallets d). uwallet_ok w \<and> uw_balance w = ledger (uw_id w) d) \<and>
     (\<forall>r \<in> set (utxns d). ut_wallet r \<in> uw_id ` set (uwallets d) \<and> ut_after r = ut_before r + ut_amount r)"

definition entered :: "userdb \<Rightarrow> userdb \<Rightarrow> int uwallet \<Rightarrow> int \<Rightarrow> utxn_type \<Rightarrow> string \<Rightarrow> user_draw \<Rightarrow> bool" where
  "entered d d' w c ty desc dr \<longleftrightarrow> w \<in> set (uwallets d) \<and> 0 \<le> uw_balance w + c \<and> in_range (uw_balance w + c) \<and>
     d' = d\<lparr>uwallets := update_where (\<lambda>x. uw_id x = uw_id w) (\<lambda>x. x\<lparr>uw_balance := uw_balance w + c, uw_updated := ud_now dr\<rparr>) (uwallets d),
       utxns := utxns d @ [\<lparr>ut_id = ud_txn dr, ut_wallet = uw_id w, ut_type = ty, ut_amount = c, ut_before = uw_balance w,
         ut_after = uw_balance w + c, ut_desc = desc, ut_created = ud_now dr\<rparr>]\<rparr>"

lemma entered_ok:
  assumes "ledger_ok d" and "entered d d' w c ty desc dr"
  shows "ledger_ok d'"
proof -
  have w: "w \<in> set (uwallets d)" "0 \<le> uw_balance w + c" "in_range (uw_balance w + c)" using assms(2) by (auto simp: entered_def)
  have d': "uwallets d' = update_where (\<lambda>x. uw_id x = uw_id w) (\<lambda>x. x\<lparr>uw_balance := uw_balance w + c, uw_updated := ud_now dr\<rparr>) (uwallets d)"
    "\<exists>r. utxns d' = utxns d @ [r] \<and> ut_wallet r = uw_id w \<and> ut_amount r = c \<and> ut_after r = ut_before r + c"
    using assms(2) by (auto simp: entered_def)
  have ids: "map uw_id (uwallets d') = map uw_id (uwallets d)" "map uw_user (uwallets d') = map uw_user (uwallets d)"
    unfolding d'(1) by (simp_all add: map_update_where)
  have led: "ledger i d' = ledger i d + (if i = uw_id w then c else 0)" for i
    using d'(2) by (auto simp: ledger_def)
  have "uwallet_ok x \<and> uw_balance x = ledger (uw_id x) d'" if "x \<in> set (uwallets d')" for x
  proof -
    from that obtain y where y: "y \<in> set (uwallets d)"
        "x = (if uw_id y = uw_id w then y\<lparr>uw_balance := uw_balance w + c, uw_updated := ud_now dr\<rparr> else y)"
      unfolding d'(1) in_set_update_where by blast
    have "uw_id y = uw_id w \<Longrightarrow> y = w" using y(1) w(1) assms(1) by (metis ledger_ok_def distinct_key_unique)
    then show ?thesis using y w assms(1) led by (auto simp: ledger_ok_def uwallet_ok_def)
  qed
  moreover have "ut_wallet r \<in> uw_id ` set (uwallets d') \<and> ut_after r = ut_before r + ut_amount r" if "r \<in> set (utxns d')" for r
  proof -
    have "uw_id ` set (uwallets d') = uw_id ` set (uwallets d)" using ids(1) by (metis set_map)
    with that d'(2) w(1) assms(1) show ?thesis unfolding ledger_ok_def by auto
  qed
  ultimately show ?thesis using assms(1) ids unfolding ledger_ok_def by auto
qed

subsection \<open>Effects of the operations\<close>

lemma find_by_user_okE:
  assumes "find_by_user_id user s = (Inr w, s')"
  obtains x where "find (\<lambda>w. uw_user w = user) (uwallets (db s)) = Some x" and "w = scan_uwallet x" and "s' = Session.tick s"
  using assms by (auto simp: find_by_user_id_def on_err_def pool_query_def split: prod.splits sum.splits if_splits option.splits)

lemma find_by_user_db: "db (snd (find_by_user_id user s)) = db s"
  by (auto simp: find_by_user_id_def on_err_def pool_query_def split: prod.splits sum.splits if_splits option.splits)

lemma lock_uwallet_okE:
  assumes "lock_uwallet wid s = (Inr w, s')"
  obtains x where "find (\<lambda>w. uw_id w = wid) (uwallets (db s)) = Some x" and "w = scan_uwallet x" and "db s' = db s"
  using assms unfolding lock_uwallet_def by (elim go_okE) auto

definition whole :: "float64 \<Rightarrow> int \<Rightarrow> bool" where
  "whole x c \<longleftrightarrow> in_range c \<and> money x = Some c \<and> (\<forall>b. in_range b \<longrightarrow> cents (fadd (dec b) x) = b + c)"

lemma whole_dec [simp]: "in_range c \<Longrightarrow> whole (dec c) c"
  by (simp add: whole_def)

lemma whole_neg [simp]: "in_range c \<Longrightarrow> whole (- dec c) (- c)"
  by (simp add: whole_def fadd_neg) (simp add: in_range_def)

lemma whole_zero [simp]: "whole 0 0"
  using whole_dec [of 0] by (simp add: dec_def in_range_def)

lemma post_entered:
  assumes "ledger_ok (db s)" and "find (\<lambda>w. uw_id w = wid) (uwallets (db s)) = Some x" and "whole delta c"
    and "exec (sql_set_balance wid (fadd (dec (uw_balance x)) delta) (ud_now dr)) s = (Inr n, s1)"
    and "exec (sql_insert_utxn (utxn dr wid ty delta (dec (uw_balance x)) (fadd (dec (uw_balance x)) delta) desc)) s1 = (Inr m, s2)"
  shows "entered (db s) (db s2) x c ty desc dr"
proof -
  have x: "x \<in> set (uwallets (db s))" "uw_id x = wid" using find_SomeD [OF assms(2)] by auto
  then have r: "in_range (uw_balance x)" using assms(1) by (auto simp: ledger_ok_def uwallet_ok_def)
  then have c: "cents (fadd (dec (uw_balance x)) delta) = uw_balance x + c" using assms(3) by (simp add: whole_def)
  from assms(4) x c have s1: "0 \<le> uw_balance x + c" "in_range (uw_balance x + c)"
    "db s1 = (db s)\<lparr>uwallets := update_where (\<lambda>w. uw_id w = wid) (\<lambda>w. w\<lparr>uw_balance := uw_balance x + c, uw_updated := ud_now dr\<rparr>) (uwallets (db s))\<rparr>"
    by (auto elim!: exec_okE simp: sql_set_balance_def money_def Let_def split: if_splits)
  from assms(5) s1 c r assms(3) x show ?thesis
    by (auto elim!: exec_okE simp: sql_insert_utxn_def utxn_def money_def whole_def Let_def entered_def split: if_splits)
qed

lemma adjust_entered:
  assumes "ledger_ok (db s)" and "adjust_balance dr wid delta ty desc s = (Inr u, s')" and "whole delta c"
  shows "\<exists>x. uw_id x = wid \<and> entered (db s) (db s') x c ty desc dr"
proof -
  from assms(2) obtain w s0 where w: "lock_uwallet wid s = (Inr w, s0)"
    and rest: "(let after = fadd (uw_balance w) delta in if after < 0 then fail UInsufficient
       else andthen (on_err UDb (exec (sql_set_balance wid after (ud_now dr)))) (\<lambda>_.
            andthen (on_err UDb (exec (sql_insert_utxn (utxn dr wid ty delta (uw_balance w) after desc)))) (\<lambda>_. ret ()))) s0 = (Inr u, s')"
    unfolding adjust_balance_def by (elim andthen_okE) blast
  from w obtain x where x: "find (\<lambda>w. uw_id w = wid) (uwallets (db s)) = Some x" "w = scan_uwallet x" "db s0 = db s"
    by (rule lock_uwallet_okE)
  from rest obtain n s1 m where e: "exec (sql_set_balance wid (fadd (dec (uw_balance x)) delta) (ud_now dr)) s0 = (Inr n, s1)"
      "exec (sql_insert_utxn (utxn dr wid ty delta (dec (uw_balance x)) (fadd (dec (uw_balance x)) delta) desc)) s1 = (Inr m, s')"
    unfolding Let_def x(2) by (auto elim!: guard_okE andthen_okE on_err_okE)
  have "entered (db s0) (db s') x c ty desc dr"
    by (rule post_entered [OF _ _ assms(3) e]) (use assms(1) x in simp_all)
  with x find_SomeD [OF x(1)] show ?thesis by auto
qed

text \<open>An adjustment in a transaction either changes nothing or is entered.\<close>

lemma tx_adjust:
  assumes "ledger_ok (db s)" and "whole delta c"
  shows "db (snd (with_tx UDb UDb (adjust_balance dr wid delta ty desc) s)) = db s \<or>
    (\<exists>x. uw_id x = wid \<and> entered (db s) (db (snd (with_tx UDb UDb (adjust_balance dr wid delta ty desc) s))) x c ty desc dr)"
proof -
  obtain r s' where r: "with_tx UDb UDb (adjust_balance dr wid delta ty desc) s = (r, s')" by fastforce
  show ?thesis
  proof (cases r)
    case (Inl e)
    with r with_tx_error show ?thesis by force
  next
    case (Inr u)
    with r obtain s2 where "adjust_balance dr wid delta ty desc ((Session.tick s)\<lparr>aborted := False\<rparr>) = (Inr u, s2)" "db s' = db s2"
      by (blast elim: with_tx_okE)
    from adjust_entered [OF _ this(1) assms(2)] assms(1) this(2) r show ?thesis by auto
  qed
qed

lemma on_wallet_keeps:
  assumes "ledger_ok (db s)" and "\<And>w s. ledger_ok (db s) \<Longrightarrow> ledger_ok (db (snd (body w s)))"
  shows "ledger_ok (db (snd (andthen (find_by_user_id user) body s)))"
proof -
  obtain r s1 where r: "find_by_user_id user s = (r, s1)" by fastforce
  then have "db s1 = db s" using find_by_user_db by (metis snd_conv)
  with r assms show ?thesis by (auto simp: andthen_def split: sum.splits)
qed

lemma tx_adjust_keeps:
  "ledger_ok (db s) \<Longrightarrow> whole delta c \<Longrightarrow> ledger_ok (db (snd (with_tx UDb UDb (adjust_balance dr wid delta ty desc) s)))"
  using tx_adjust entered_ok by metis

lemma fail_db [simp]: "db (snd (fail e s)) = db s"
  by (simp add: fail_def)

lemma hold_keeps: "ledger_ok (db s) \<Longrightarrow> in_range c \<Longrightarrow> ledger_ok (db (snd (hold dr user (dec c) ref s)))"
  unfolding hold_def by (rule on_wallet_keeps) (auto intro: tx_adjust_keeps [OF _ whole_neg])

lemma release_keeps: "ledger_ok (db s) \<Longrightarrow> in_range c \<Longrightarrow> ledger_ok (db (snd (release_hold dr user (dec c) ref s)))"
  unfolding release_hold_def by (rule on_wallet_keeps) (auto intro: tx_adjust_keeps [OF _ whole_dec])

lemma settle_keeps: "ledger_ok (db s) \<Longrightarrow> ledger_ok (db (snd (settle dr user amount auction s)))"
  unfolding settle_def by (rule on_wallet_keeps) (auto intro: tx_adjust_keeps [OF _ whole_zero])

lemma credit_keeps: "ledger_ok (db s) \<Longrightarrow> in_range c \<Longrightarrow> ledger_ok (db (snd (credit dr user (dec c) auction s)))"
  unfolding credit_def by (rule on_wallet_keeps) (auto intro: tx_adjust_keeps [OF _ whole_dec])


lemma repo_deposit_entered:
  assumes "ledger_ok (db s)" and "repo_deposit dr wid (dec c) desc s = (Inr u, s')" and "in_range c"
  shows "\<exists>x. uw_id x = wid \<and> entered (db s) (db s') x c UDeposit desc dr"
proof -
  from assms(2) obtain w s0 n s1 m where w: "lock_uwallet wid s = (Inr w, s0)"
    and e: "exec (sql_set_balance wid (fadd (uw_balance w) (dec c)) (ud_now dr)) s0 = (Inr n, s1)"
      "exec (sql_insert_utxn (utxn dr wid UDeposit (dec c) (uw_balance w) (fadd (uw_balance w) (dec c)) desc)) s1 = (Inr m, s')"
    unfolding repo_deposit_def Let_def by (auto elim!: andthen_okE on_err_okE)
  from w obtain x where x: "find (\<lambda>w. uw_id w = wid) (uwallets (db s)) = Some x" "w = scan_uwallet x" "db s0 = db s"
    by (rule lock_uwallet_okE)
  have "entered (db s0) (db s') x c UDeposit desc dr"
    by (rule post_entered [OF _ _ whole_dec [OF assms(3)]]) (use assms(1) x e in simp_all)
  with x find_SomeD [OF x(1)] show ?thesis by auto
qed

lemma audit_keeps: "ledger_ok (db s) \<Longrightarrow> ledger_ok (db (snd (pool_exec (sql_insert_audit r) s)))"
  by (auto simp: pool_exec_def sql_insert_audit_def ledger_ok_def ledger_def split: sum.splits if_splits option.splits)

lemma account_deposit_keeps:
  assumes "ledger_ok (db s)" and "in_range c"
  shows "ledger_ok (db (snd (deposit dr user (dec c) s)))"
  unfolding deposit_def
proof (rule on_wallet_keeps [OF assms(1)])
  fix w and s :: "userdb session"
  assume ok: "ledger_ok (db s)"
  let ?tx = "with_tx UDb UDb (repo_deposit dr (uw_id w) (dec c) ''manual deposit'')"
  let ?row = "\<lparr>al_id = ud_audit dr, al_user = (if user = [] then None else Some user), al_action = ''WALLET_DEPOSIT'',
        al_amount = dec c, al_created = ud_now dr\<rparr>"
  obtain r s1 where r: "?tx s = (r, s1)" by fastforce
  have "ledger_ok (db s1)"
  proof (cases r)
    case (Inl e)
    with r ok with_tx_error show ?thesis by force
  next
    case (Inr u)
    with r obtain s2 where "repo_deposit dr (uw_id w) (dec c) ''manual deposit'' ((Session.tick s)\<lparr>aborted := False\<rparr>) = (Inr u, s2)" "db s1 = db s2"
      by (blast elim: with_tx_okE)
    with repo_deposit_entered [OF _ this(1) assms(2)] ok entered_ok show ?thesis by fastforce
  qed
  then have "ledger_ok (db (snd (pool_exec (sql_insert_audit ?row) s1)))" by (rule audit_keeps)
  with \<open>ledger_ok (db s1)\<close> r find_by_user_db
  show "ledger_ok (db (snd (andthen ?tx (\<lambda>_. andthen (ignoring (pool_exec (sql_insert_audit ?row))) (\<lambda>_. find_by_user_id user)) s)))"
    by (auto simp: andthen_def ignoring_def split: sum.splits prod.splits)
qed

lemma register_keeps:
  assumes "ledger_ok (db s)"
  shows "ledger_ok (db (snd (with_tx UDb UDb (create_uwallet wid t user) s)))"
proof -
  obtain r s1 where r: "with_tx UDb UDb (create_uwallet wid t user) s = (r, s1)" by fastforce
  show ?thesis
  proof (cases r)
    case (Inl e)
    with r assms with_tx_error show ?thesis by force
  next
    case (Inr u)
    with r obtain s2 where s2: "create_uwallet wid t user ((Session.tick s)\<lparr>aborted := False\<rparr>) = (Inr u, s2)" "db s1 = db s2"
      by (blast elim: with_tx_okE)
    have "money 0 = Some 0" using money_dec [of 0] by (simp add: dec_def in_range_def)
    with s2(1) have "\<exists>w. db s2 = (db s)\<lparr>uwallets := uwallets (db s) @ [w]\<rparr> \<and> uw_id w = wid \<and> uw_balance w = 0 \<and>
        wid \<notin> uw_id ` set (uwallets (db s)) \<and> uw_user w \<notin> uw_user ` set (uwallets (db s))"
      unfolding create_uwallet_def Let_def
      by (elim andthen_okE on_err_okE exec_okE) (auto simp: sql_insert_uwallet_def split: if_splits)
    then obtain w where w: "db s2 = (db s)\<lparr>uwallets := uwallets (db s) @ [w]\<rparr>" "uw_id w = wid" "uw_balance w = 0"
      "wid \<notin> uw_id ` set (uwallets (db s))" "uw_user w \<notin> uw_user ` set (uwallets (db s))" by blast
    have "filter (\<lambda>r. ut_wallet r = wid) (utxns (db s)) = []"
      using assms w(4) by (auto simp: filter_empty_conv ledger_ok_def)
    with w assms have "ledger_ok (db s2)"
      unfolding ledger_ok_def by (auto simp: ledger_def uwallet_ok_def in_range_def)
    with s2(2) r show ?thesis by simp
  qed
qed

lemma read_only_keeps: "db (snd (history user limit offset s)) = db s"
proof -
  have l: "db (snd (list_transactions wid l off s)) = db s" for wid l off s
    by (auto simp: list_transactions_def andthen_def on_err_def pool_query_def ret_def fail_def split: sum.splits prod.splits if_splits)
  obtain r s1 where "find_by_user_id user s = (r, s1)" by fastforce
  with l find_by_user_db [of user s] show ?thesis by (auto simp: history_def andthen_def Let_def split: sum.splits)
qed

lemma ended_keeps:
  assumes "ledger_ok (db s)" and "ee_amount e = dec c" and "in_range c"
  shows "ledger_ok (db (snd (handle_auction_ended dr1 dr2 e s)))"
proof -
  have "ledger_ok (db (snd (settle dr1 (ee_winner e) (dec c) (ee_auction e) s)))" using assms(1) by (rule settle_keeps)
  with credit_keeps assms show ?thesis by (auto simp: handle_auction_ended_def andthen_def ignoring_def ret_def)
qed


subsection \<open>Sequences of requests\<close>

datatype user_cmd =
    RegisterCmd uuid time uuid
  | DepositCmd user_draw uuid int
  | HoldCmd user_draw uuid int string
  | ReleaseCmd user_draw uuid int string
  | SettleCmd user_draw uuid int uuid
  | CreditCmd user_draw uuid int uuid
  | HistoryCmd uuid int int
  | MessageCmd user_draw user_draw string "(uuid \<times> uuid \<times> string \<times> int) option"

fun user_do :: "user_cmd \<Rightarrow> userdb session \<Rightarrow> userdb session" where
  "user_do (RegisterCmd wid t user) s = snd (with_tx UDb UDb (create_uwallet wid t user) s)"
| "user_do (DepositCmd dr user c) s = snd (deposit dr user (dec c) s)"
| "user_do (HoldCmd dr user c ref) s = snd (api_hold dr user (dec c) ref s)"
| "user_do (ReleaseCmd dr user c ref) s = snd (api_release dr user (dec c) ref s)"
| "user_do (SettleCmd dr user c auction) s = snd (api_settle dr user (dec c) auction s)"
| "user_do (CreditCmd dr user c auction) s = snd (api_credit dr user (dec c) auction s)"
| "user_do (HistoryCmd user l off) s = snd (history user l off s)"
| "user_do (MessageCmd dr1 dr2 key None) s = consume dr1 dr2 (key, None) s"
| "user_do (MessageCmd dr1 dr2 key (Some (auction, seller, winner, c))) s = consume dr1 dr2
     (key, Some \<lparr>ee_auction = auction, ee_seller = seller, ee_winner = winner, ee_amount = dec c\<rparr>) s"

primrec cents_in_range :: "user_cmd \<Rightarrow> bool" where
  "cents_in_range (RegisterCmd wid t user) = True"
| "cents_in_range (DepositCmd dr user c) = in_range c"
| "cents_in_range (HoldCmd dr user c ref) = in_range c"
| "cents_in_range (ReleaseCmd dr user c ref) = in_range c"
| "cents_in_range (SettleCmd dr user c auction) = True"
| "cents_in_range (CreditCmd dr user c auction) = in_range c"
| "cents_in_range (HistoryCmd user l off) = True"
| "cents_in_range (MessageCmd dr1 dr2 key m) = (case m of None \<Rightarrow> True | Some (a, s, w, c) \<Rightarrow> in_range c)"

lemma api_frame:
  "snd (api_hold dr user x ref s) \<in> {s, snd (hold dr user x ref s)}"
  "snd (api_release dr user x ref s) \<in> {s, snd (release_hold dr user x ref s)}"
  "snd (api_settle dr user x ref s) \<in> {s, snd (settle dr user x ref s)}"
  "snd (api_credit dr user x ref s) \<in> {s, snd (credit dr user x ref s)}"
  by (auto simp: api_hold_def api_release_def api_settle_def api_credit_def split: prod.splits sum.splits user_err.splits)

lemma user_do_keeps:
  assumes "cents_in_range c" and "ledger_ok (db s)"
  shows "ledger_ok (db (user_do c s))"
proof (cases "(c, s)" rule: user_do.cases)
  case (3 dr user m ref)
  then show ?thesis using api_frame(1) [of dr user "dec m" ref s] hold_keeps assms by fastforce
next
  case (4 dr user m ref)
  then show ?thesis using api_frame(2) [of dr user "dec m" ref s] release_keeps assms by fastforce
next
  case (5 dr user m ref)
  then show ?thesis using api_frame(3) [of dr user "dec m" ref s] settle_keeps assms by fastforce
next
  case (6 dr user m ref)
  then show ?thesis using api_frame(4) [of dr user "dec m" ref s] credit_keeps assms by fastforce
qed (use assms register_keeps account_deposit_keeps ended_keeps in \<open>auto simp: consume_def read_only_keeps\<close>)

interpretation accounts: invariant_system user_do cents_in_range "\<lambda>s. ledger_ok (db s)"
  using user_do_keeps by unfold_locales

subsection \<open>Without failures\<close>

definition quiet :: "userdb session \<Rightarrow> bool" where
  "quiet s \<longleftrightarrow> faults s = [] \<and> \<not> aborted s"

lemma quiet_run_exec: "quiet s \<Longrightarrow> f (db s) = Inr (d, n) \<Longrightarrow> exec f s = (Inr n, s\<lparr>db := d\<rparr>) \<and> quiet (s\<lparr>db := d\<rparr>)"
  by (simp add: exec_run quiet_def)

lemma quiet_find:
  assumes "quiet s"
  shows "find_by_user_id user s = (case find (\<lambda>w. uw_user w = user) (uwallets (db s)) of
    None \<Rightarrow> (Inl UWalletNotFound, s) | Some x \<Rightarrow> (Inr (scan_uwallet x), s))"
  using assms by (auto simp: find_by_user_id_def on_err_def pool_query_run quiet_def no_rows_def split: option.splits)

lemma quiet_adjust:
  assumes "quiet s" and "ledger_ok (db s)" and "x \<in> set (uwallets (db s))" and "whole delta c"
    and "0 \<le> uw_balance x + c" and "in_range (uw_balance x + c)" and "ud_txn dr \<notin> ut_id ` set (utxns (db s))"
    and nn: "\<not> fadd (dec (uw_balance x)) delta < 0"
  shows "\<exists>s'. with_tx UDb UDb (adjust_balance dr (uw_id x) delta ty desc) s = (Inr (), s') \<and> quiet s' \<and>
    entered (db s) (db s') x c ty desc dr"
proof -
  let ?b = "uw_balance x"
  let ?d1 = "(db s)\<lparr>uwallets := update_where (\<lambda>w. uw_id w = uw_id x) (\<lambda>w. w\<lparr>uw_balance := ?b + c, uw_updated := ud_now dr\<rparr>) (uwallets (db s))\<rparr>"
  let ?r = "\<lparr>ut_id = ud_txn dr, ut_wallet = uw_id x, ut_type = ty, ut_amount = c, ut_before = ?b,
         ut_after = ?b + c, ut_desc = desc, ut_created = ud_now dr\<rparr>"
  let ?d2 = "?d1\<lparr>utxns := utxns (db s) @ [?r]\<rparr>"
  have f: "find (\<lambda>w. uw_id w = uw_id x) (uwallets (db s)) = Some x"
    using assms(2,3) by (auto simp: ledger_ok_def intro: find_key_eq)
  have r: "in_range ?b" using assms(2,3) by (auto simp: ledger_ok_def uwallet_ok_def)
  then have c: "cents (fadd (dec ?b) delta) = ?b + c" using assms(4) by (simp add: whole_def)
  have e1: "sql_set_balance (uw_id x) (fadd (dec ?b) delta) (ud_now dr) (db s) = Inr (?d1, 1)"
    using assms(3,5,6) c by (simp add: sql_set_balance_def money_def)
  have "uw_id x \<in> uw_id ` set (uwallets ?d1)"  using assms(3) by (simp add: keys_update_where)
  then have e2: "sql_insert_utxn (utxn dr (uw_id x) ty delta (dec ?b) (fadd (dec ?b) delta) desc) ?d1 = Inr (?d2, 1)"
    using assms(4,6,7) c r by (simp add: sql_insert_utxn_def utxn_def whole_def money_def)
  have a: "adjust_balance dr (uw_id x) delta ty desc s = (Inr (), s\<lparr>db := ?d2\<rparr>)"
    using assms(1) f nn e1 e2
    by (simp add: adjust_balance_def lock_uwallet_def andthen_def on_err_def query_row_run exec_run quiet_def ret_def Let_def)
  have s: "s\<lparr>aborted := False\<rparr> = s" using assms(1) by (cases s) (simp add: quiet_def)
  have "with_tx UDb UDb (adjust_balance dr (uw_id x) delta ty desc) s = (Inr (), s\<lparr>db := ?d2\<rparr>)"
    using with_tx_run [of s "adjust_balance dr (uw_id x) delta ty desc" "Inr ()" "s\<lparr>db := ?d2\<rparr>" UDb UDb] a assms(1)
    unfolding s by (simp add: quiet_def)
  moreover have "entered (db s) ?d2 x c ty desc dr" using assms(3,5,6) by (simp add: entered_def)
  ultimately show ?thesis using assms(1) by (auto simp: quiet_def)
qed


lemma quiet_credit:
  assumes "quiet s" and "ledger_ok (db s)" and "x \<in> set (uwallets (db s))"
    and "0 \<le> c" and "in_range c" and "in_range (uw_balance x + c)" and "ud_txn dr \<notin> ut_id ` set (utxns (db s))"
  shows "\<exists>s'. credit dr (uw_user x) (dec c) auction s = (Inr (), s') \<and> quiet s' \<and>
    entered (db s) (db s') x c UCredit (''credit:auction:'' @ auction) dr"
proof -
  have b: "0 \<le> uw_balance x" using assms(2,3) by (auto simp: ledger_ok_def uwallet_ok_def)
  have "find (\<lambda>w. uw_user w = uw_user x) (uwallets (db s)) = Some x"
    using assms(2,3) by (auto simp: ledger_ok_def intro: find_key_eq)
  with quiet_adjust [OF assms(1-3) whole_dec [OF assms(5)] _ assms(6,7) fadd_dec_nonneg [OF b assms(4)], of UCredit "''credit:auction:'' @ auction"]
    quiet_find [OF assms(1), of "uw_user x"] b assms(4)
  show ?thesis by (simp add: credit_def andthen_def)
qed

lemma quiet_settle:
  assumes "quiet s" and "ledger_ok (db s)" and "ud_txn dr \<notin> ut_id ` set (utxns (db s))"
  shows "quiet (snd (settle dr user amount auction s)) \<and>
    (db (snd (settle dr user amount auction s)) = db s \<or>
     (\<exists>x. entered (db s) (db (snd (settle dr user amount auction s))) x 0 USettle (''settle:auction:'' @ auction) dr))"
proof (cases "find (\<lambda>w. uw_user w = user) (uwallets (db s))")
  case None
  with quiet_find [OF assms(1), of user] assms(1) show ?thesis by (simp add: settle_def andthen_def)
next
  case (Some x)
  then have x: "x \<in> set (uwallets (db s))" "uw_user x = user" by (auto dest: find_SomeD)
  have b: "0 \<le> uw_balance x" "in_range (uw_balance x)" using assms(2) x by (auto simp: ledger_ok_def uwallet_ok_def)
  have "\<not> fadd (dec (uw_balance x)) 0 < 0" using fadd_dec_nonneg [OF b(1), of 0] by (simp add: dec_def)
  with quiet_adjust [OF assms(1,2) x(1) whole_zero _ _ assms(3), of USettle "''settle:auction:'' @ auction"] b Some
    quiet_find [OF assms(1), of user]
  show ?thesis by (auto simp: settle_def andthen_def)
qed

text \<open>The balance of a user.\<close>

definition balance_of :: "uuid \<Rightarrow> userdb \<Rightarrow> int option" where
  "balance_of user d = map_option uw_balance (find (\<lambda>w. uw_user w = user) (uwallets d))"

lemma entered_balance:
  assumes "ledger_ok d" and "entered d d' x c ty desc dr"
  shows "balance_of user d' = map_option (\<lambda>b. if user = uw_user x then b + c else b) (balance_of user d)"
proof -
  have x: "x \<in> set (uwallets d)" using assms(2) by (simp add: entered_def)
  let ?f = "\<lambda>y. y\<lparr>uw_balance := uw_balance x + c, uw_updated := ud_now dr\<rparr>"
  have rows: "find (\<lambda>w. uw_user w = user) (update_where (\<lambda>y. uw_id y = uw_id x) ?f ws) =
      map_option (\<lambda>w. if uw_id w = uw_id x then ?f w else w) (find (\<lambda>w. uw_user w = user) ws)" for ws :: "int uwallet list"
    by (induction ws) auto
  have d': "balance_of user d' = map_option (\<lambda>w. uw_balance (if uw_id w = uw_id x then ?f w else w)) (find (\<lambda>w. uw_user w = user) (uwallets d))"
    using assms(2) rows by (simp add: entered_def balance_of_def option.map_comp comp_def)
  show ?thesis
  proof (cases "find (\<lambda>w. uw_user w = user) (uwallets d)")
    case (Some w)
    then have w: "w \<in> set (uwallets d)" "uw_user w = user" by (auto dest: find_SomeD)
    then have "uw_id w = uw_id x \<longleftrightarrow> user = uw_user x" "uw_id w = uw_id x \<Longrightarrow> w = x"
      using x assms(1) unfolding ledger_ok_def by (metis distinct_key_unique)+
    with Some show ?thesis unfolding d' by (auto simp: balance_of_def)
  next
    case None
    then show ?thesis unfolding d' by (simp add: balance_of_def)
  qed
qed

lemma entered_ids: "entered d d' x c ty desc dr \<Longrightarrow> ut_id ` set (utxns d') = insert (ud_txn dr) (ut_id ` set (utxns d))"
  by (auto simp: entered_def)

lemma quiet_ended:
  assumes "quiet s" and "ledger_ok (db s)" and "balance_of (ee_seller e) (db s) = Some b" and "ee_winner e \<noteq> []"
    and "ee_amount e = dec c" and "0 \<le> c" and "in_range c" and "in_range (b + c)"
    and "ud_txn dr1 \<notin> ut_id ` set (utxns (db s))" and "ud_txn dr2 \<notin> ut_id ` set (utxns (db s))" and "ud_txn dr1 \<noteq> ud_txn dr2"
  shows "\<exists>s'. snd (handle_auction_ended dr1 dr2 e s) = s' \<and> quiet s' \<and> ledger_ok (db s') \<and>
    balance_of (ee_seller e) (db s') = Some (b + c) \<and>
    ut_id ` set (utxns (db s')) \<subseteq> {ud_txn dr1, ud_txn dr2} \<union> ut_id ` set (utxns (db s))"
proof -
  obtain s1 where s1: "s1 = snd (settle dr1 (ee_winner e) (ee_amount e) (ee_auction e) s)" by simp
  have q: "quiet s1" and alt: "db s1 = db s \<or> (\<exists>x. entered (db s) (db s1) x 0 USettle (''settle:auction:'' @ ee_auction e) dr1)"
    using quiet_settle [OF assms(1,2,9)] unfolding s1 by blast+
  have ok: "ledger_ok (db s1)" unfolding s1 using assms(2) by (rule settle_keeps)
  have bal: "balance_of (ee_seller e) (db s1) = Some b"
    using alt entered_balance [OF assms(2)] assms(3) by fastforce
  have ids: "ut_id ` set (utxns (db s1)) \<subseteq> insert (ud_txn dr1) (ut_id ` set (utxns (db s)))"
    using alt
  proof
    assume "\<exists>x. entered (db s) (db s1) x 0 USettle (''settle:auction:'' @ ee_auction e) dr1"
    then show ?thesis using entered_ids by blast
  qed auto
  obtain x where x: "x \<in> set (uwallets (db s1))" "uw_user x = ee_seller e" "uw_balance x = b"
    using bal by (auto simp: balance_of_def dest: find_SomeD)
  have fresh: "ud_txn dr2 \<notin> ut_id ` set (utxns (db s1))" using ids assms(10,11) by auto
  obtain s2 where s2: "credit dr2 (ee_seller e) (dec c) (ee_auction e) s1 = (Inr (), s2)" "quiet s2"
      "entered (db s1) (db s2) x c UCredit (''credit:auction:'' @ ee_auction e) dr2"
    using quiet_credit [OF q ok x(1) assms(6,7) _ fresh, of "ee_auction e"] x(2,3) assms(8) by auto
  have "snd (handle_auction_ended dr1 dr2 e s) = s2"
    using s2(1) assms(4,5) s1 by (simp add: handle_auction_ended_def andthen_def ignoring_def)
  moreover have "balance_of (ee_seller e) (db s2) = Some (b + c)" using entered_balance [OF ok s2(3)] bal x by simp
  moreover have "ut_id ` set (utxns (db s2)) \<subseteq> {ud_txn dr1, ud_txn dr2} \<union> ut_id ` set (utxns (db s))"
    using entered_ids [OF s2(3)] ids by auto
  ultimately show ?thesis using s2(2) entered_ok [OF ok s2(3)] by blast
qed


text \<open>Deliveries of one message, each with its own fresh ids.\<close>

primrec deliver :: "nat \<Rightarrow> (nat \<Rightarrow> user_draw \<times> user_draw) \<Rightarrow> string \<times> ended_event option \<Rightarrow> userdb session \<Rightarrow> userdb session" where
  "deliver 0 dr m s = s"
| "deliver (Suc n) dr m s = consume (fst (dr n)) (snd (dr n)) m (deliver n dr m s)"

definition fresh_draws :: "nat \<Rightarrow> (nat \<Rightarrow> user_draw \<times> user_draw) \<Rightarrow> uuid set \<Rightarrow> bool" where
  "fresh_draws n dr used \<longleftrightarrow> distinct (concat (map (\<lambda>i. [ud_txn (fst (dr i)), ud_txn (snd (dr i))]) [0..<n])) \<and>
     (\<forall>i < n. ud_txn (fst (dr i)) \<notin> used \<and> ud_txn (snd (dr i)) \<notin> used)"

lemma fresh_draws_Suc:
  "fresh_draws (Suc n) dr used \<longleftrightarrow> fresh_draws n dr used \<and> ud_txn (fst (dr n)) \<noteq> ud_txn (snd (dr n)) \<and>
     ud_txn (fst (dr n)) \<notin> used \<union> (\<Union>i < n. {ud_txn (fst (dr i)), ud_txn (snd (dr i))}) \<and>
     ud_txn (snd (dr n)) \<notin> used \<union> (\<Union>i < n. {ud_txn (fst (dr i)), ud_txn (snd (dr i))})"
  unfolding fresh_draws_def by (auto simp: less_Suc_eq)

lemma deliver_credits:
  assumes "quiet s" and "ledger_ok (db s)" and "balance_of (ee_seller e) (db s) = Some b" and "ee_winner e \<noteq> []"
    and "ee_amount e = dec c" and "0 \<le> c" and "0 \<le> b" and "in_range (b + int n * c)"
    and "fresh_draws n dr (ut_id ` set (utxns (db s)))"
  shows "\<exists>s'. deliver n dr (''auction.ended'', Some e) s = s' \<and> quiet s' \<and> ledger_ok (db s') \<and>
    balance_of (ee_seller e) (db s') = Some (b + int n * c) \<and>
    ut_id ` set (utxns (db s')) \<subseteq> ut_id ` set (utxns (db s)) \<union> (\<Union>i < n. {ud_txn (fst (dr i)), ud_txn (snd (dr i))})"
  using assms(8,9)
proof (induction n)
  case (Suc n)
  have "0 \<le> int n * c" using assms(6) by simp
  then have r: "in_range (b + int n * c)" "in_range c" "in_range (b + int n * c + c)"
    using Suc.prems(1) assms(6,7) \<open>0 \<le> int n * c\<close> unfolding in_range_def of_nat_Suc distrib_right by linarith+
  have f: "fresh_draws n dr (ut_id ` set (utxns (db s)))" using Suc.prems(2) unfolding fresh_draws_Suc by (rule conjunct1)
  from Suc.IH [OF r(1) f] obtain s1 where s1: "deliver n dr (''auction.ended'', Some e) s = s1" "quiet s1" "ledger_ok (db s1)"
    "balance_of (ee_seller e) (db s1) = Some (b + int n * c)"
    "ut_id ` set (utxns (db s1)) \<subseteq> ut_id ` set (utxns (db s)) \<union> (\<Union>i < n. {ud_txn (fst (dr i)), ud_txn (snd (dr i))})"
    by (elim exE conjE) (rule that)
  have "ud_txn (fst (dr n)) \<notin> ut_id ` set (utxns (db s1))" "ud_txn (snd (dr n)) \<notin> ut_id ` set (utxns (db s1))"
    "ud_txn (fst (dr n)) \<noteq> ud_txn (snd (dr n))"
    using Suc.prems(2) [unfolded fresh_draws_Suc, THEN conjunct2] s1(5) by (auto dest: subsetD)
  from quiet_ended [OF s1(2-4) assms(4,5,6) r(2,3) this] obtain s2 where s2: "snd (handle_auction_ended (fst (dr n)) (snd (dr n)) e s1) = s2"
    "quiet s2" "ledger_ok (db s2)" "balance_of (ee_seller e) (db s2) = Some (b + int n * c + c)"
    "ut_id ` set (utxns (db s2)) \<subseteq> {ud_txn (fst (dr n)), ud_txn (snd (dr n))} \<union> ut_id ` set (utxns (db s1))" by blast
  have "ut_id ` set (utxns (db s2)) \<subseteq> ut_id ` set (utxns (db s)) \<union> (\<Union>i < Suc n. {ud_txn (fst (dr i)), ud_txn (snd (dr i))})"
    using s2(5) s1(5) by (auto simp: lessThan_Suc)
  with s1(1) s2 show ?case by (simp add: consume_def algebra_simps)
qed (use assms in auto)

definition demo_users :: "userdb session" where
  "demo_users = \<lparr>db = \<lparr>users = [''s1'', ''u1'', ''u2'', ''u3''],
     uwallets = [\<lparr>uw_id = ''w1'', uw_user = ''u1'', uw_balance = 10000, uw_currency = ''USD'', uw_created = 0, uw_updated = 0\<rparr>,
       \<lparr>uw_id = ''w2'', uw_user = ''s1'', uw_balance = 0, uw_currency = ''USD'', uw_created = 0, uw_updated = 0\<rparr>,
       \<lparr>uw_id = ''w3'', uw_user = ''u2'', uw_balance = 0, uw_currency = ''USD'', uw_created = 0, uw_updated = 0\<rparr>],
     utxns = [\<lparr>ut_id = ''t0'', ut_wallet = ''w1'', ut_type = UDeposit, ut_amount = 10000, ut_before = 0, ut_after = 10000,
       ut_desc = ''manual deposit'', ut_created = 0\<rparr>], audit_logs = []\<rparr>, aborted = False, faults = []\<rparr>"

definition demo_udraw :: "string \<Rightarrow> user_draw" where
  "demo_udraw i = \<lparr>ud_txn = i, ud_audit = ''l'' @ i, ud_now = 1\<rparr>"

lemma demo_users_ok: "ledger_ok (db demo_users)" "quiet demo_users"
  by (simp_all add: demo_users_def ledger_ok_def uwallet_ok_def ledger_def in_range_def quiet_def)

subsection \<open>Properties\<close>



text \<open>The message of an ended auction is not idempotent: delivered n times (as Kafka may after a crash before the
  commit), it credits the seller n times the price, whether or not the winner was charged.\<close>

theorem redelivery_credits_each_time:
  assumes "faults s = []" and "\<not> aborted s" and "ledger_ok (db s)" and "balance_of (ee_seller e) (db s) = Some b"
    and "ee_winner e \<noteq> []" and "ee_amount e = dec c" and "0 \<le> c" and "in_range (b + int n * c)"
    and "fresh_draws n dr (ut_id ` set (utxns (db s)))"
  shows "balance_of (ee_seller e) (db (deliver n dr (''auction.ended'', Some e) s)) = Some (b + int n * c)"
proof -
  have "0 \<le> b" using assms(3,4) by (auto simp: balance_of_def ledger_ok_def uwallet_ok_def dest!: find_SomeD)
  with deliver_credits [OF _ assms(3-7) _ assms(8,9)] assms(1,2) show ?thesis by (auto simp: quiet_def)
qed

theorem redelivery_credits_each_time_witness:
  "balance_of ''s1'' (db (deliver 2 (\<lambda>i. (demo_udraw (''p'' @ replicate i CHR ''x''), demo_udraw (''q'' @ replicate i CHR ''x'')))
     (''auction.ended'', Some \<lparr>ee_auction = ''a1'', ee_seller = ''s1'', ee_winner = ''u9'', ee_amount = dec 6000\<rparr>) demo_users)) = Some 12000"
  using redelivery_credits_each_time [of demo_users "\<lparr>ee_auction = ''a1'', ee_seller = ''s1'', ee_winner = ''u9'', ee_amount = dec 6000\<rparr>"
      0 6000 2 "\<lambda>i. (demo_udraw (''p'' @ replicate i CHR ''x''), demo_udraw (''q'' @ replicate i CHR ''x''))"] demo_users_ok
  by (simp add: demo_users_def balance_of_def in_range_def fresh_draws_def demo_udraw_def quiet_def numeral_2_eq_2)

end
