(* ===== verification/BidSpec.thy ===== *)
theory BidSpec
  imports Bid UserWalletSpec
begin

text \<open>
  What placing bids guarantees: as long as the database answers, the bids of an auction strictly increase
  whatever Redis, the wallets and the broker do; and when nothing fails, an accepted bid moves money so that the
  balances together with the highest bid stay the same.
\<close>

subsection \<open>Frames\<close>

abbreviation bdb :: "bid_sys \<Rightarrow> aucdb" where "bdb s \<equiv> db (bs_sess s)"
abbreviation udb :: "bid_sys \<Rightarrow> userdb" where "udb s \<equiv> db (bs_users s)"

lemma bid_frame [simp]:
  "bs_sess (set_highest_bid aid x ttl t s) = bs_sess s" "bs_sess (snd (cached_highest_bid aid t s)) = bs_sess s"
  "bs_sess (snd (acquire_auction_lock aid ttl t s)) = bs_sess s" "bs_sess (release_auction_lock aid s) = bs_sess s"
  "bs_sess (publish_bid e s) = bs_sess s" "bs_sess (snd (call_wallet_api enabled f s)) = bs_sess s"
  by (simp_all add: set_highest_bid_def cached_highest_bid_def on_cache_def acquire_auction_lock_def release_auction_lock_def
      publish_bid_def Let_def call_wallet_api_def split_beta split: option.splits bid_value.splits list.splits net.splits)

lemma user_frame [simp]:
  "bs_users (set_highest_bid aid x ttl t s) = bs_users s" "bs_users (snd (cached_highest_bid aid t s)) = bs_users s"
  "bs_users (snd (acquire_auction_lock aid ttl t s)) = bs_users s" "bs_users (release_auction_lock aid s) = bs_users s"
  "bs_users (publish_bid e s) = bs_users s" "bs_users (snd (on_bids m s)) = bs_users s"
  by (simp_all add: set_highest_bid_def cached_highest_bid_def on_cache_def acquire_auction_lock_def release_auction_lock_def
      publish_bid_def Let_def on_bids_def split_beta split: option.splits bid_value.splits list.splits)

lemma net_frame [simp]:
  "bs_net (set_highest_bid aid x ttl t s) = bs_net s" "bs_net (snd (cached_highest_bid aid t s)) = bs_net s"
  "bs_net (snd (acquire_auction_lock aid ttl t s)) = bs_net s" "bs_net (publish_bid e s) = bs_net s"
  "bs_net (snd (on_bids m s)) = bs_net s"
  by (simp_all add: set_highest_bid_def cached_highest_bid_def on_cache_def acquire_auction_lock_def
      publish_bid_def Let_def on_bids_def split_beta split: option.splits bid_value.splits list.splits)

lemma on_bids_query:
  assumes "faults (bs_sess s) = []"
  shows "on_bids (pool_query q) s = (case q (bdb s) of None \<Rightarrow> (Inl NoRows, s) | Some x \<Rightarrow> (Inr x, s))"
proof -
  have "pool_query q (bs_sess s) = (case q (bdb s) of None \<Rightarrow> (Inl NoRows, bs_sess s) | Some x \<Rightarrow> (Inr x, bs_sess s))"
    by (rule pool_query_run [OF assms])
  then show ?thesis by (simp add: on_bids_def split: option.splits)
qed

definition put_db :: "aucdb \<Rightarrow> bid_sys \<Rightarrow> bid_sys" where
  "put_db d s = s\<lparr>bs_sess := (bs_sess s)\<lparr>db := d\<rparr>\<rparr>"

lemma put_db_simps [simp]: "bdb (put_db d s) = d" "faults (bs_sess (put_db d s)) = faults (bs_sess s)"
  "bs_users (put_db d s) = bs_users s" "bs_net (put_db d s) = bs_net s" "bs_redis (put_db d s) = bs_redis s"
  by (simp_all add: put_db_def)

lemma on_bids_exec:
  assumes "faults (bs_sess s) = []"
  shows "on_bids (pool_exec u) s = (case u (bdb s) of Inl e \<Rightarrow> (Inl e, s) | Inr (d, n) \<Rightarrow> (Inr n, put_db d s))"
proof -
  obtain x where x: "bs_sess s = x" by simp
  with assms have "Session.tick x = x" by (cases x) (simp add: Session.tick_def)
  with assms x show ?thesis
    by (auto simp: on_bids_def pool_exec_def put_db_def split: sum.splits)
qed

subsection \<open>What an accepted bid writes\<close>

definition bid_row :: "bid_draw \<Rightarrow> uuid \<Rightarrow> uuid \<Rightarrow> int \<Rightarrow> int bid" where
  "bid_row dr user aid c = \<lparr>b_id = bd_bid dr, b_auction = aid, b_user = user, b_amount = c, b_created = bd_now dr\<rparr>"

definition accepted :: "bid_draw \<Rightarrow> uuid \<Rightarrow> uuid \<Rightarrow> int \<Rightarrow> aucdb \<Rightarrow> aucdb" where
  "accepted dr user aid c d = d\<lparr>bids := bids d @ [bid_row dr user aid c],
     auctions := update_where (\<lambda>r. a_id r = aid) (\<lambda>r. r\<lparr>a_current := c\<rparr>) (auctions d)\<rparr>"

lemma current_highest_sess: "faults (bs_sess s) = [] \<Longrightarrow> bs_sess (snd (current_highest aid t s)) = bs_sess s"
  by (auto simp: current_highest_def highest_amount_def on_bids_query split_beta split: prod.splits)

lemma release_previous_sess: "faults (bs_sess s) = [] \<Longrightarrow> bs_sess (release_previous enabled dr aid x s) = bs_sess s"
  by (auto simp: release_previous_def highest_bidder_def on_bids_query wallet_release_def split: option.splits)

lemma after_saving_sess:
  assumes "faults (bs_sess s) = []" and "b_amount b = dec c" and "in_range c" and "b_auction b \<in> a_id ` set (auctions (bdb s))"
  shows "bdb (after_saving enabled dr b x s) = (bdb s)\<lparr>auctions := update_where (\<lambda>r. a_id r = b_auction b) (\<lambda>r. r\<lparr>a_current := c\<rparr>) (auctions (bdb s))\<rparr> \<and>
    faults (bs_sess (after_saving enabled dr b x s)) = []"
proof -
  have "matching (\<lambda>r. a_id r = b_auction b) (bdb s) \<noteq> 0" using assms(4) by (auto simp: matching_def filter_empty_conv)
  with assms show ?thesis
    by (simp add: after_saving_def Let_def release_previous_sess update_current_price_def on_bids_exec change_auctions_def)
qed

lemma insert_bid_effect:
  assumes "sql_insert_bid (new_bid dr user aid (dec c)) d = Inr (d', n)" and "in_range c"
  shows "d' = d\<lparr>bids := bids d @ [bid_row dr user aid c]\<rparr> \<and> 0 < c \<and> bd_bid dr \<notin> b_id ` set (bids d) \<and> aid \<in> a_id ` set (auctions d)"
  using assms by (auto simp: sql_insert_bid_def new_bid_def bid_row_def split: if_splits)

lemma locked_bid_db:
  assumes "faults (bs_sess s) = []" and "in_range c"
  shows "faults (bs_sess (snd (locked_bid enabled dr user aid (dec c) s))) = [] \<and>
    (bdb (snd (locked_bid enabled dr user aid (dec c) s)) = bdb s \<or>
     (\<exists>a. live_auction aid (bdb s) = Some a \<and> dec (a_current a) < dec c \<and> bd_bid dr \<notin> b_id ` set (bids (bdb s)) \<and>
        bdb (snd (locked_bid enabled dr user aid (dec c) s)) = accepted dr user aid c (bdb s)))"
proof (cases "live_auction aid (bdb s)")
  case None
  with assms show ?thesis by (simp add: locked_bid_def get_auction_by_id_def on_bids_query)
next
  case (Some a)
  show ?thesis
  proof (cases "a_state a = StateActive \<and> a_seller a \<noteq> user")
    case False
    with assms Some show ?thesis by (auto simp: locked_bid_def get_auction_by_id_def on_bids_query)
  next
    case ok: True
    obtain h s2 where h: "current_highest aid (bd_now dr) s = (h, s2)" by fastforce
    have s2: "bs_sess s2 = bs_sess s" using current_highest_sess [OF assms(1), of aid "bd_now dr"] h by simp
    show ?thesis
    proof (cases "\<exists>x. h = Inr x \<and> \<not> dec c \<le> (if dec (a_current a) < x then x else dec (a_current a))")
      case False
      with assms Some ok h s2 show ?thesis
        by (auto simp: locked_bid_def get_auction_by_id_def on_bids_query Let_def split: sum.splits)
    next
      case True
      then obtain x where x: "h = Inr x" "\<not> dec c \<le> (if dec (a_current a) < x then x else dec (a_current a))" by blast
      then have low: "dec (a_current a) < dec c" by (simp split: if_splits)
      let ?s3 = "snd (wallet_hold enabled (bd_hold dr) user (dec c) (bid_ref aid) s2)"
      let ?b = "new_bid dr user aid (dec c)"
      have s3: "bs_sess ?s3 = bs_sess s" using s2 by (simp add: wallet_hold_def)
      have l: "locked_bid enabled dr user aid (dec c) s = (case on_bids (create_bid ?b) ?s3 of
          (Inl e, s4) \<Rightarrow> (Inl (SaveFailed e), s4) | (Inr _, s4) \<Rightarrow> (Inr ?b, after_saving enabled dr ?b x s4))"
        using Some ok h x assms(1)
        by (simp add: locked_bid_def get_auction_by_id_def on_bids_query Let_def split: if_split_asm)
      show ?thesis
      proof (cases "sql_insert_bid ?b (bdb s)")
        case (Inl e)
        with l s3 assms(1) show ?thesis by (simp add: create_bid_def on_bids_exec)
      next
        case (Inr dn)
        then obtain d n where dn: "sql_insert_bid ?b (bdb s) = Inr (d, n)" by (cases dn) auto
        note e = insert_bid_effect [OF dn assms(2)]
        have "snd (locked_bid enabled dr user aid (dec c) s) = after_saving enabled dr ?b x (put_db d ?s3)"
          using l s3 dn assms(1) by (simp add: create_bid_def on_bids_exec)
        with after_saving_sess [of "put_db d ?s3" ?b c enabled dr x] e s3 assms Some low
        show ?thesis by (simp add: new_bid_def accepted_def)
      qed
    qed
  qed
qed

lemma place_bid_db:
  assumes "faults (bs_sess s) = []" and "in_range c"
  shows "faults (bs_sess (snd (place_bid enabled dr user aid (dec c) s))) = [] \<and>
    (bdb (snd (place_bid enabled dr user aid (dec c) s)) = bdb s \<or>
     (\<exists>a. live_auction aid (bdb s) = Some a \<and> dec (a_current a) < dec c \<and> bd_bid dr \<notin> b_id ` set (bids (bdb s)) \<and>
        bdb (snd (place_bid enabled dr user aid (dec c) s)) = accepted dr user aid c (bdb s)))"
proof -
  obtain r s1 where r: "acquire_auction_lock aid (5 * second) (bd_now dr) s = (r, s1)" by fastforce
  then have "bs_sess s1 = bs_sess s" by (metis bid_frame(3) snd_conv)
  with r assms locked_bid_db [of s1 c enabled dr user aid] show ?thesis
    by (auto simp: place_bid_def split_beta Let_def split: option.splits bool.splits)
qed

subsection \<open>Increasing bids\<close>

definition auction_bids :: "uuid \<Rightarrow> aucdb \<Rightarrow> int bid list" where
  "auction_bids aid d = filter (\<lambda>b. b_auction b = aid) (bids d)"

definition bids_ok :: "aucdb \<Rightarrow> bool" where
  "bids_ok d \<longleftrightarrow> distinct (map a_id (auctions d)) \<and> distinct (map b_id (bids d)) \<and>
     (\<forall>r \<in> set (auctions d). in_range (a_current r) \<and> (\<forall>b \<in> set (auction_bids (a_id r) d). b_amount b \<le> a_current r)) \<and>
     (\<forall>aid. sorted_wrt (<) (map b_amount (auction_bids aid d)))"

lemma accepted_ok:
  assumes "bids_ok d" and "live_auction aid d = Some a" and "dec (a_current a) < dec c" and "in_range c" and "bd_bid dr \<notin> b_id ` set (bids d)"
  shows "bids_ok (accepted dr user aid c d)"
proof -
  have a: "a \<in> set (auctions d)" "a_id a = aid" using assms(2) find_SomeD unfolding live_auction_def by fastforce+
  have lt: "a_current a < c" using assms(1,3,4) a(1) by (auto simp: bids_ok_def dec_less_iff)
  have old: "\<forall>b \<in> set (auction_bids aid d). b_amount b < c" using assms(1) a lt unfolding bids_ok_def by fastforce
  have new: "auction_bids i (accepted dr user aid c d) = auction_bids i d @ (if i = aid then [bid_row dr user aid c] else [])" for i
    by (simp add: auction_bids_def accepted_def bid_row_def)
  have ids: "map a_id (auctions (accepted dr user aid c d)) = map a_id (auctions d)"
    by (simp add: accepted_def map_update_where)
  have "in_range (a_current r) \<and> (\<forall>b \<in> set (auction_bids (a_id r) (accepted dr user aid c d)). b_amount b \<le> a_current r)"
    if "r \<in> set (auctions (accepted dr user aid c d))" for r
  proof -
    from that obtain q where q: "q \<in> set (auctions d)" "r = (if a_id q = aid then q\<lparr>a_current := c\<rparr> else q)"
      by (auto simp: accepted_def in_set_update_where)
    then show ?thesis using assms(1,4) old unfolding bids_ok_def new by (auto simp: bid_row_def less_imp_le)
  qed
  moreover have "sorted_wrt (<) (map b_amount (auction_bids i (accepted dr user aid c d)))" for i
    using assms(1) old unfolding new bids_ok_def by (auto simp: sorted_wrt_append bid_row_def)
  moreover have "distinct (map b_id (bids (accepted dr user aid c d)))"
    using assms(1,5) by (simp add: bids_ok_def accepted_def bid_row_def)
  ultimately show ?thesis using assms(1) ids unfolding bids_ok_def by simp
qed

type_synonym bid_cmd = "bool \<times> bid_draw \<times> uuid \<times> uuid \<times> int"

fun bid_do :: "bid_cmd \<Rightarrow> bid_sys \<Rightarrow> bid_sys" where
  "bid_do (enabled, dr, user, aid, c) s = snd (place_bid enabled dr user aid (dec c) s)"

interpretation bidding: invariant_system bid_do "\<lambda>(_, _, _, _, c). in_range c"
  "\<lambda>s. faults (bs_sess s) = [] \<and> bids_ok (bdb s)"
proof unfold_locales
  fix m :: bid_cmd and s
  assume c: "case m of (_, _, _, _, c) \<Rightarrow> in_range c" and s: "faults (bs_sess s) = [] \<and> bids_ok (bdb s)"
  obtain enabled dr user aid c where m: "m = (enabled, dr, user, aid, c)" by (cases m) auto
  from place_bid_db [of s c enabled dr user aid] c s m accepted_ok
  show "faults (bs_sess (bid_do m s)) = [] \<and> bids_ok (bdb (bid_do m s))" by fastforce
qed


subsection \<open>Money without failures\<close>

definition total_balance :: "userdb \<Rightarrow> int" where
  "total_balance d = sum_list (map uw_balance (uwallets d))"

lemma entered_total:
  assumes "ledger_ok d" and "entered d d' x c ty desc dr"
  shows "total_balance d' = total_balance d + c"
proof -
  have "distinct (map uw_id (uwallets d))" "x \<in> set (uwallets d)" using assms by (auto simp: ledger_ok_def entered_def)
  from sum_list_update_key [OF this, of uw_balance "\<lambda>y. y\<lparr>uw_balance := uw_balance x + c, uw_updated := ud_now dr\<rparr>"] assms(2)
  show ?thesis by (simp add: total_balance_def entered_def)
qed

lemma balance_row:
  assumes "balance_of user d = Some b"
  obtains x where "x \<in> set (uwallets d)" and "uw_user x = user" and "uw_balance x = b"
  using assms by (auto simp: balance_of_def dest: find_SomeD)

lemma quiet_hold:
  assumes "quiet s" and "ledger_ok (db s)" and "balance_of user (db s) = Some b" and "c \<le> b" and "0 \<le> c" and "in_range c"
    and "ud_txn dr \<notin> ut_id ` set (utxns (db s))"
  shows "\<exists>s' x. hold dr user (dec c) ref s = (Inr (), s') \<and> quiet s' \<and> uw_user x = user \<and>
    entered (db s) (db s') x (- c) UHold (''hold:'' @ ref) dr"
proof -
  obtain x where x: "x \<in> set (uwallets (db s))" "uw_user x = user" "uw_balance x = b" using assms(3) by (rule balance_row)
  have r: "in_range b" "in_range (b + - c)" using assms(2,4,5) x by (auto simp: ledger_ok_def uwallet_ok_def in_range_def)
  have "\<not> fadd (dec (uw_balance x)) (- dec c) < 0" using assms(4,6) r x by (simp add: fadd_neg fsub_neg_iff)
  with quiet_adjust [OF assms(1,2) x(1) whole_neg [OF assms(6)] _ _ assms(7), of UHold "''hold:'' @ ref"] r x assms(4)
  obtain s' where s': "with_tx UDb UDb (adjust_balance dr (uw_id x) (- dec c) UHold (''hold:'' @ ref)) s = (Inr (), s')" "quiet s'"
      "entered (db s) (db s') x (- c) UHold (''hold:'' @ ref) dr" by auto
  have "find (\<lambda>w. uw_user w = user) (uwallets (db s)) = Some x"
    using assms(2) x find_key_eq [of uw_user "uwallets (db s)" x] by (simp add: ledger_ok_def)
  moreover have "\<not> dec b < dec c" using assms(4,6) r by (simp add: dec_less_iff)
  ultimately have "hold dr user (dec c) ref s = (Inr (), s')"
    using s'(1) x quiet_find [OF assms(1), of user] by (simp add: hold_def andthen_def)
  with s' x show ?thesis by blast
qed

lemma quiet_release:
  assumes "quiet s" and "ledger_ok (db s)" and "balance_of user (db s) = Some b" and "0 \<le> c" and "in_range c" and "in_range (b + c)"
    and "ud_txn dr \<notin> ut_id ` set (utxns (db s))"
  shows "\<exists>s' x. release_hold dr user (dec c) ref s = (Inr (), s') \<and> quiet s' \<and> uw_user x = user \<and>
    entered (db s) (db s') x c URelease (''release:'' @ ref) dr"
proof -
  obtain x where x: "x \<in> set (uwallets (db s))" "uw_user x = user" "uw_balance x = b" using assms(3) by (rule balance_row)
  have b: "0 \<le> b" using assms(2) x by (auto simp: ledger_ok_def uwallet_ok_def)
  with quiet_adjust [OF assms(1,2) x(1) whole_dec [OF assms(5)] _ _ assms(7), of URelease "''release:'' @ ref"] assms(4,6) x
    fadd_dec_nonneg [of b c]
  obtain s' where s': "with_tx UDb UDb (adjust_balance dr (uw_id x) (dec c) URelease (''release:'' @ ref)) s = (Inr (), s')" "quiet s'"
      "entered (db s) (db s') x c URelease (''release:'' @ ref) dr" by auto
  have "find (\<lambda>w. uw_user w = user) (uwallets (db s)) = Some x"
    using assms(2) x find_key_eq [of uw_user "uwallets (db s)" x] by (simp add: ledger_ok_def)
  then have "release_hold dr user (dec c) ref s = (Inr (), s')"
    using s'(1) quiet_find [OF assms(1), of user] by (simp add: release_hold_def andthen_def)
  with s' x show ?thesis by blast
qed

subsection \<open>The highest bid\<close>

lemma keys_differ [simp]: "highest_key aid \<noteq> lock_key aid'"
  by (simp add: highest_key_def lock_key_def)

lemma cached_fst:
  "fst (cached_highest_bid aid t s) = (if redis_fails (bs_redis s) then None else
     (case live (highest_key aid) t (bs_redis s) of None \<Rightarrow> Some 0
      | Some (v, _) \<Rightarrow> (case v of AuctionLocked \<Rightarrow> None | Highest x \<Rightarrow> Some x)))"
  by (simp add: cached_highest_bid_def on_cache_def redis_get_def split_beta split: option.splits bid_value.splits)

lemma lock_redis:
  assumes "rd_faults (bs_redis s) = []"
  shows "rd_faults (bs_redis (snd (acquire_auction_lock aid ttl t s))) = [] \<and>
    live (highest_key aid') t' (bs_redis (snd (acquire_auction_lock aid ttl t s))) = live (highest_key aid') t' (bs_redis s)"
  using assms by (simp add: acquire_auction_lock_def on_cache_def redis_setnx_def live_def split_beta)

lemma cached_after_lock:
  "rd_faults (bs_redis s) = [] \<Longrightarrow>
   fst (cached_highest_bid aid' t' (snd (acquire_auction_lock aid ttl t s))) = fst (cached_highest_bid aid' t' s)"
  using lock_redis [of s aid ttl t aid' t'] by (simp add: cached_fst)

lemma current_highest_run:
  assumes "faults (bs_sess s) = []" and "fst (cached_highest_bid aid t s) \<in> {None, Some 0, Some (dec (max_bid aid (bdb s)))}"
  shows "\<exists>s'. current_highest aid t s = (Inr (dec (max_bid aid (bdb s))), s') \<and> bs_sess s' = bs_sess s \<and> bs_users s' = bs_users s \<and> bs_net s' = bs_net s"
proof -
  obtain c s1 where c: "cached_highest_bid aid t s = (c, s1)" by fastforce
  then have s1: "bs_sess s1 = bs_sess s" "bs_users s1 = bs_users s" "bs_net s1 = bs_net s"
    by (metis bid_frame(2) snd_conv, metis user_frame(2) snd_conv, metis net_frame(2) snd_conv)
  show ?thesis
  proof (cases "c = None \<or> c = Some 0")
    case True
    with c s1 assms(1) show ?thesis by (simp add: current_highest_def highest_amount_def on_bids_query)
  next
    case False
    with c s1 assms(2) show ?thesis by (auto simp: current_highest_def)
  qed
qed

lemma find_hd_filter: "find P xs = (case filter P xs of [] \<Rightarrow> None | x # _ \<Rightarrow> Some x)"
  by (induction xs) auto

text \<open>The highest bid other than a new one is the highest bid there was.\<close>

lemma previous_bidder:
  assumes "bd_bid dr \<notin> b_id ` set (bids d)"
  shows "find (\<lambda>b. b_id b \<noteq> bd_bid dr) (bids_desc aid (d\<lparr>bids := bids d @ [bid_row dr user aid c], auctions := as\<rparr>)) = top_bid aid d"
proof -
  have "filter (\<lambda>b. b_id b \<noteq> bd_bid dr) (filter (\<lambda>b. b_auction b = aid) (bids d)) = filter (\<lambda>b. b_auction b = aid) (bids d)"
    unfolding filter_filter by (rule filter_cong [OF refl]) (metis assms image_eqI)
  then show ?thesis
    unfolding find_hd_filter bids_desc_def top_bid_def filter_sort by (simp add: bid_row_def)
qed

lemma max_bid_accepted:
  assumes "max_bid aid d < c"
  shows "max_bid aid (accepted dr user aid c d) = c"
proof -
  let ?d = "accepted dr user aid c d"
  have mem: "b \<in> set (bids ?d) \<longleftrightarrow> b \<in> set (bids d) \<or> b = bid_row dr user aid c" for b by (auto simp: accepted_def)
  have "bid_row dr user aid c \<in> set (bids ?d)" "b_auction (bid_row dr user aid c) = aid" by (simp_all add: mem bid_row_def)
  note new = this
  then have "top_bid aid ?d \<noteq> None" unfolding top_bid_none by blast
  then obtain b where b: "top_bid aid ?d = Some b" by blast
  note top = top_bidD [OF b]
  have "c \<le> b_amount b" using top(3) [rule_format, OF new] by (simp add: bid_row_def)
  moreover have "b_amount b \<le> c"
  proof (cases "b \<in> set (bids d)")
    case True
    then obtain b' where b': "top_bid aid d = Some b'" using top(2) top_bid_none [of aid d] by fastforce
    with top_bidD(3) [OF b'] True top(2) assms show ?thesis by (auto simp: max_bid_def)
  next
    case False
    with top(1) mem show ?thesis by (simp add: bid_row_def)
  qed
  ultimately show ?thesis using b by (simp add: max_bid_def)
qed

lemma max_bid_nonneg: "\<forall>b \<in> set (bids d). 0 < b_amount b \<Longrightarrow> 0 \<le> max_bid aid d"
  using top_bidD(1) by (fastforce simp: max_bid_def split: option.splits)

lemma max_bid_in_range: "\<forall>b \<in> set (bids d). in_range (b_amount b) \<Longrightarrow> in_range (max_bid aid d)"
  using top_bidD(1) by (fastforce simp: max_bid_def in_range_def split: option.splits)

lemma bid_ref_nonempty [simp]: "bid_ref aid \<noteq> []"
  by (simp add: bid_ref_def)


lemma hold_call:
  assumes "bs_net s = []" and "quiet (bs_users s)" and "ledger_ok (udb s)" and "balance_of user (udb s) = Some b" and "c \<le> b"
    and "0 < c" and "in_range c" and "ud_txn dr \<notin> ut_id ` set (utxns (udb s))" and "user \<noteq> []"
  shows "\<exists>x. quiet (bs_users (snd (wallet_hold True dr user (dec c) (bid_ref aid) s))) \<and> uw_user x = user \<and>
    entered (udb s) (udb (snd (wallet_hold True dr user (dec c) (bid_ref aid) s))) x (- c) UHold (''hold:'' @ bid_ref aid) dr \<and>
    bs_net (snd (wallet_hold True dr user (dec c) (bid_ref aid) s)) = []"
proof -
  have "0 < dec c" using assms(6,7) dec_strict_mono [of 0 c] by (simp add: dec_def in_range_def)
  with quiet_hold [OF assms(2-5) less_imp_le [OF assms(6)] assms(7,8), of "bid_ref aid"] assms(1,9) show ?thesis
    by (fastforce simp: wallet_hold_def call_wallet_api_def api_hold_def Let_def)
qed

lemma release_call:
  assumes "bs_net s = []" and "quiet (bs_users s)" and "ledger_ok (udb s)" and "balance_of user (udb s) = Some b"
    and "0 < c" and "in_range c" and "in_range (b + c)" and "ud_txn dr \<notin> ut_id ` set (utxns (udb s))" and "user \<noteq> []"
  shows "\<exists>x. uw_user x = user \<and>
    entered (udb s) (udb (snd (wallet_release True dr user (dec c) (bid_ref aid) s))) x c URelease (''release:'' @ bid_ref aid) dr"
proof -
  have "0 < dec c" using assms(5,6) dec_strict_mono [of 0 c] by (simp add: dec_def in_range_def)
  with quiet_release [OF assms(2-4) less_imp_le [OF assms(5)] assms(6-8), of "bid_ref aid"] assms(1,9) show ?thesis
    by (fastforce simp: wallet_release_def call_wallet_api_def api_release_def Let_def)
qed

lemma after_saving_split:
  "\<exists>s6. after_saving enabled dr b h s = release_previous enabled dr (b_auction b) h s6 \<and> bs_users s6 = bs_users s \<and> bs_net s6 = bs_net s \<and>
    bs_sess s6 = bs_sess (snd (on_bids (update_current_price (b_auction b) (b_amount b)) s))"
  unfolding after_saving_def Let_def by (rule exI, rule conjI, rule refl) (simp add: on_bids_def split_beta)

text \<open>The world in which a bid goes through: nothing fails, the cache is silent or right, the bidder can pay, the
  previous bidder has a wallet, the ids are fresh.\<close>

definition ready :: "bid_draw \<Rightarrow> uuid \<Rightarrow> uuid \<Rightarrow> int \<Rightarrow> bid_sys \<Rightarrow> bool" where
  "ready dr user aid c s \<longleftrightarrow> faults (bs_sess s) = [] \<and> quiet (bs_users s) \<and> bs_net s = [] \<and> rd_faults (bs_redis s) = [] \<and>
     fst (acquire_auction_lock aid (5 * second) (bd_now dr) s) = Some True \<and>
     fst (cached_highest_bid aid (bd_now dr) s) \<in> {None, Some 0, Some (dec (max_bid aid (bdb s)))} \<and>
     ledger_ok (udb s) \<and> user \<noteq> [] \<and> in_range c \<and> (\<exists>b. balance_of user (udb s) = Some b \<and> c \<le> b) \<and>
     (\<forall>b \<in> set (bids (bdb s)). 0 < b_amount b \<and> in_range (b_amount b)) \<and>
     (\<exists>a. live_auction aid (bdb s) = Some a \<and> a_state a = StateActive \<and> a_seller a \<noteq> user \<and> in_range (a_current a) \<and> 0 \<le> a_current a \<and> a_current a < c) \<and>
     max_bid aid (bdb s) < c \<and> bd_bid dr \<notin> b_id ` set (bids (bdb s)) \<and>
     ud_txn (bd_hold dr) \<notin> ut_id ` set (utxns (udb s)) \<and> ud_txn (bd_release dr) \<notin> ut_id ` set (utxns (udb s)) \<and> ud_txn (bd_hold dr) \<noteq> ud_txn (bd_release dr) \<and>
     (\<forall>p. top_bid aid (bdb s) = Some p \<longrightarrow> b_user p \<noteq> [] \<and>
        (\<exists>b. balance_of (b_user p) (udb s) = Some b \<and> in_range (b + b_amount p)))"

lemma place_bid_run:
  assumes "ready dr user aid c s"
  shows "\<exists>s' u. place_bid True dr user aid (dec c) s = (Inr (new_bid dr user aid (dec c)), s') \<and>
    bdb s' = accepted dr user aid c (bdb s) \<and>
    (\<exists>x. uw_user x = user \<and> entered (udb s) u x (- c) UHold (''hold:'' @ bid_ref aid) (bd_hold dr)) \<and>
    (case top_bid aid (bdb s) of None \<Rightarrow> udb s' = u
     | Some p \<Rightarrow> \<exists>y. uw_user y = b_user p \<and> entered u (udb s') y (b_amount p) URelease (''release:'' @ bid_ref aid) (bd_release dr))"
proof -
  let ?d = "bdb s" and ?t = "bd_now dr" and ?b = "new_bid dr user aid (dec c)"
  let ?m = "max_bid aid ?d"
  note R = assms [unfolded ready_def]
  from R have F: "faults (bs_sess s) = []" "quiet (bs_users s)" "bs_net s = []" "rd_faults (bs_redis s) = []"
    "fst (acquire_auction_lock aid (5 * second) (bd_now dr) s) = Some True"
    "fst (cached_highest_bid aid (bd_now dr) s) \<in> {None, Some 0, Some (dec ?m)}"
    "ledger_ok (udb s)" "user \<noteq> []" "in_range c" "\<forall>b \<in> set (bids ?d). 0 < b_amount b \<and> in_range (b_amount b)"
    "?m < c" "bd_bid dr \<notin> b_id ` set (bids ?d)" "ud_txn (bd_hold dr) \<notin> ut_id ` set (utxns (udb s))"
    "ud_txn (bd_release dr) \<notin> ut_id ` set (utxns (udb s))" "ud_txn (bd_hold dr) \<noteq> ud_txn (bd_release dr)" by - (elim conjE, assumption)+
  obtain a where a: "live_auction aid ?d = Some a" "a_state a = StateActive" "a_seller a \<noteq> user" "in_range (a_current a)" "0 \<le> a_current a" "a_current a < c"
    using R by blast
  obtain bal where bal: "balance_of user (udb s) = Some bal" "c \<le> bal" using R by blast
  let ?s1 = "snd (acquire_auction_lock aid (5 * second) ?t s)"
  have s1: "bs_sess ?s1 = bs_sess s" "bs_users ?s1 = bs_users s" "bs_net ?s1 = []" using F by simp_all
  have "fst (cached_highest_bid aid ?t ?s1) \<in> {None, Some 0, Some (dec (max_bid aid (bdb ?s1)))}"
    using F(4,6) s1(1) by (simp add: cached_after_lock)
  with current_highest_run [of ?s1 aid ?t] F(1) s1 obtain s2 where s2: "current_highest aid ?t ?s1 = (Inr (dec ?m), s2)"
    "bs_sess s2 = bs_sess s" "bs_users s2 = bs_users s" "bs_net s2 = []" by auto
  have inr: "in_range ?m" "in_range c" "0 < c" "0 \<le> ?m" using F(9,10) max_bid_in_range max_bid_nonneg a(5,6) by auto
  have fl: "\<not> dec c \<le> (if dec (a_current a) < dec ?m then dec ?m else dec (a_current a))"
    using F(11) a inr by (simp add: dec_le_iff dec_less_iff)
  let ?s3 = "snd (wallet_hold True (bd_hold dr) user (dec c) (bid_ref aid) s2)"
  have s3: "bs_sess ?s3 = bs_sess s" using s2(2) by (simp add: wallet_hold_def)
  obtain x where x: "quiet (bs_users ?s3)" "uw_user x = user" "entered (udb s) (udb ?s3) x (- c) UHold (''hold:'' @ bid_ref aid) (bd_hold dr)" "bs_net ?s3 = []"
    using hold_call [of s2 user bal c "bd_hold dr" aid] s2 F bal inr by auto
  have mem: "aid \<in> a_id ` set (auctions ?d)" using a(1) find_SomeD unfolding live_auction_def by fastforce
  have ins: "sql_insert_bid ?b ?d = Inr (?d\<lparr>bids := bids ?d @ [bid_row dr user aid c]\<rparr>, 1)"
    using F(12) inr mem by (simp add: sql_insert_bid_def new_bid_def bid_row_def)
  let ?s4 = "put_db (?d\<lparr>bids := bids ?d @ [bid_row dr user aid c]\<rparr>) ?s3"
  let ?s5 = "after_saving True dr ?b (dec ?m) ?s4"
  have locked: "locked_bid True dr user aid (dec c) ?s1 = (Inr ?b, ?s5)"
    using a s1 s2 fl ins s3 F(1)
    by (simp add: locked_bid_def get_auction_by_id_def on_bids_query Let_def create_bid_def on_bids_exec split: if_split_asm)
  then have place: "place_bid True dr user aid (dec c) s = (Inr ?b, release_auction_lock aid ?s5)"
    using F(5) by (simp add: place_bid_def split_beta Let_def)
  have db5: "bdb ?s5 = accepted dr user aid c ?d"
    using after_saving_sess [of ?s4 ?b c True dr "dec ?m"] F(1) inr mem s3 by (simp add: new_bid_def accepted_def)
  have "matching (\<lambda>r. a_id r = aid) (bdb ?s4) \<noteq> 0" using mem by (auto simp: matching_def filter_empty_conv)
  then have "on_bids (update_current_price aid (dec c)) ?s4 = (Inr (matching (\<lambda>r. a_id r = aid) (bdb ?s4)), put_db (accepted dr user aid c ?d) ?s4)"
    using F(1) s3 inr by (simp add: update_current_price_def on_bids_exec change_auctions_def accepted_def)
  then have sess: "bs_sess (snd (on_bids (update_current_price aid (dec c)) ?s4)) = bs_sess (put_db (accepted dr user aid c ?d) ?s4)" by simp
  obtain s6 where split: "?s5 = release_previous True dr (b_auction ?b) (dec ?m) s6" "bs_users s6 = bs_users ?s4" "bs_net s6 = bs_net ?s4"
    "bs_sess s6 = bs_sess (snd (on_bids (update_current_price (b_auction ?b) (b_amount ?b)) ?s4))"
    using after_saving_split [of True dr ?b "dec ?m" ?s4] by blast
  have nb: "b_auction ?b = aid" "b_amount ?b = dec c" by (simp_all add: new_bid_def)
  have s6: "?s5 = release_previous True dr aid (dec ?m) s6" "bdb s6 = accepted dr user aid c ?d" "faults (bs_sess s6) = []"
    "bs_users s6 = bs_users ?s3" "bs_net s6 = []"
  proof -
    have f: "faults (bs_sess ?s3) = []" unfolding s3 by (rule F(1))
    show "?s5 = release_previous True dr aid (dec ?m) s6" using split(1) unfolding nb .
    show "bdb s6 = accepted dr user aid c ?d" unfolding split(4) nb sess by (rule put_db_simps)
    show "faults (bs_sess s6) = []" unfolding split(4) nb sess put_db_simps(2) using f .
    show "bs_users s6 = bs_users ?s3" unfolding split(2) put_db_simps ..
    show "bs_net s6 = []" unfolding split(3) put_db_simps by (rule x(4))
  qed
  have ok3: "ledger_ok (udb ?s3)" by (rule entered_ok [OF F(7) x(3)])
  show ?thesis
  proof (cases "top_bid aid ?d")
    case None
    then have "?s5 = s6" using s6(1) by (simp add: release_previous_def max_bid_def dec_def)
    with place db5 s6(4) x(2,3) None show ?thesis
      by (intro exI [of _ "release_auction_lock aid ?s5"] exI [of _ "udb ?s3"]) auto
  next
    case (Some p)
    obtain b where b: "balance_of (b_user p) (udb s) = Some b" "in_range (b + b_amount p)" "b_user p \<noteq> []" using R Some by blast
    have p: "0 < b_amount p" "in_range (b_amount p)" "?m = b_amount p" using F(10) Some top_bidD(1) [OF Some] by (auto simp: max_bid_def)
    then have pos: "\<not> dec ?m \<le> 0" using dec_strict_mono [of 0 "b_amount p"] by (simp add: dec_def in_range_def)
    have prev: "on_bids (highest_bidder aid (bd_bid dr)) s6 = (Inr (b_user p), s6)"
      using s6(2,3) previous_bidder [where dr = dr and d = ?d and aid = aid and user = user and c = c] F(12) Some by (simp add: highest_bidder_def on_bids_query accepted_def)
    have fresh: "ud_txn (bd_release dr) \<notin> ut_id ` set (utxns (udb s6))" using entered_ids [OF x(3)] F(14,15) s6(4) by simp
    obtain b3 where b3: "balance_of (b_user p) (udb s6) = Some b3" "in_range (b3 + b_amount p)"
    proof (cases "b_user p = user")
      case True
      with bal(1) b have "b = bal" by simp
      then have "in_range (bal - c + b_amount p)" using b(2) bal(2) inr(3) p(1) by (auto simp: in_range_def)
      with that entered_balance [OF F(7) x(3)] x(2) b(1) True bal(1) s6(4) show ?thesis by auto
    next
      case False
      with that entered_balance [OF F(7) x(3)] x(2) b s6(4) show ?thesis by auto
    qed
    have q6: "quiet (bs_users s6)" "ledger_ok (udb s6)" using x(1) ok3 s6(4) by simp_all
    obtain y where y: "uw_user y = b_user p"
      "entered (udb s6) (udb (snd (wallet_release True (bd_release dr) (b_user p) (dec (b_amount p)) (bid_ref aid) s6))) y (b_amount p) URelease (''release:'' @ bid_ref aid) (bd_release dr)"
      using release_call [OF s6(5) q6 b3(1) p(1,2) b3(2) fresh b(3)] by blast
    have "?s5 = snd (wallet_release True (bd_release dr) (b_user p) (dec (b_amount p)) (bid_ref aid) s6)"
      using s6(1) prev pos b(3) p(3) by (simp add: release_previous_def)
    with place db5 s6(4) x(2,3) y Some show ?thesis
      by (intro exI [of _ "release_auction_lock aid ?s5"] exI [of _ "udb ?s3"]) auto
  qed
qed


subsection \<open>Properties\<close>

definition demo_bids :: bid_sys where
  "demo_bids = \<lparr>bs_sess = \<lparr>db = \<lparr>auctions = [\<lparr>a_id = ''a1'', a_seller = ''s1'', a_title = ''Old clock'', a_description = ''An old wall clock'',
         a_category = None, a_starting = 1000, a_reserve = 5000, a_current = 1000, a_state = StateActive,
         a_start = 10, a_end = 100, a_winner = None, a_total_bids = 0, a_created = 5, a_updated = 10, a_deleted = None\<rparr>],
       bids = [], categories = []\<rparr>, aborted = False, faults = []\<rparr>,
     bs_redis = \<lparr>rd_keys = (\<lambda>_. None), rd_faults = []\<rparr>, bs_users = demo_users, bs_net = [], bs_events = [], bs_broker = [], bs_cast = []\<rparr>"

definition demo_bdraw :: "string \<Rightarrow> time \<Rightarrow> bid_draw" where
  "demo_bdraw i t = \<lparr>bd_bid = ''b'' @ i, bd_hold = demo_udraw (''h'' @ i), bd_release = demo_udraw (''r'' @ i), bd_now = t\<rparr>"




lemma demo_ready: "ready (demo_bdraw ''1'' 20) ''u1'' ''a1'' 2000 demo_bids"
proof -
  have "fst (acquire_auction_lock ''a1'' (5 * second) 20 demo_bids) = Some True" by code_simp
  moreover have "fst (cached_highest_bid ''a1'' 20 demo_bids) = Some 0" by code_simp
  ultimately show ?thesis using demo_users_ok
    by (simp add: ready_def demo_bdraw_def demo_bids_def quiet_def in_range_def balance_of_def live_auction_def max_bid_def top_bid_def
        bids_desc_def demo_udraw_def) (simp add: demo_users_def)
qed


text \<open>An unfunded bid mints money. A bidder without money bids all the same, since a failed hold is only logged;
  when he is outbid, the amount he never paid is given back to him.\<close>

theorem unfunded_bid_mints:
  "let s = bid_do (True, demo_bdraw ''2'' 21, ''u1'', ''a1'', 3000) (bid_do (True, demo_bdraw ''1'' 20, ''u2'', ''a1'', 2000) demo_bids) in
     balance_of ''u2'' (udb demo_bids) = Some 0 \<and> map b_user (bids (bdb s)) = [''u2'', ''u1''] \<and>
     balance_of ''u2'' (udb s) = Some 2000 \<and> total_balance (udb s) + max_bid ''a1'' (bdb s) = total_balance (udb demo_bids) + 2000"
  by code_simp

end
