(* ===== verification/FencedLock.thy ===== *)
theory FencedLock
  imports Redis Float64
begin

text \<open>
  The distributed lock of \<^verbatim>\<open>pkg/lock/lock.go\<close>. A lock is one Redis key set with \<^verbatim>\<open>SET NX\<close> and an expiry; its value
  names the owner and a fencing token drawn from a counter beside it. Release and extension run a Lua
  script that first compares owner and token.

  Times are nanoseconds. While a client waits between two attempts the other clients go on: what they
  do to Redis meanwhile is the argument \<open>others\<close> of the loop. A Redis command fails by the fault script
  of the store, and then changes nothing. \<^verbatim>\<open>json.Marshal\<close> of the lock value cannot fail.
\<close>

subsection \<open>Redis as the lock uses it\<close>

datatype lock_item = Counter int | Held (lv_owner: string) (lv_token: int) (lv_acquired: time)

type_synonym lock_redis = "lock_item redis"

definition millisecond :: duration where "millisecond = 1000000"

text \<open>\<^verbatim>\<open>INCR\<close>: a missing key counts from 0, an expiry is kept, and a value that is no integer or would overflow 64 bits is an error.\<close>

definition redis_incr :: "string \<Rightarrow> time \<Rightarrow> lock_redis \<Rightarrow> int option \<times> lock_redis" where
  "redis_incr k t r = (let r' = after_command r in
     if redis_fails r then (None, r')
     else case live k t r of
         None \<Rightarrow> (Some 1, r'\<lparr>rd_keys := (rd_keys r)(k \<mapsto> (Counter 1, None))\<rparr>)
       | Some (Counter n, e) \<Rightarrow>
           if n + 1 < 2 ^ 63 then (Some (n + 1), r'\<lparr>rd_keys := (rd_keys r)(k \<mapsto> (Counter (n + 1), e))\<rparr>)
           else (None, r')
       | Some (Held _ _ _, _) \<Rightarrow> (None, r'))"

text \<open>The expiry \<^verbatim>\<open>go-redis\<close> sends: whole seconds with \<^verbatim>\<open>EX\<close>, milliseconds with \<^verbatim>\<open>PX\<close> otherwise, at least one.\<close>

definition sent_ttl :: "duration \<Rightarrow> duration" where
  "sent_ttl d = (if 0 < d \<and> d < millisecond then millisecond else d div millisecond * millisecond)"

text \<open>\<^verbatim>\<open>SetNX\<close> of \<^verbatim>\<open>go-redis\<close>: the duration \<open>- 1\<close> is \<^verbatim>\<open>KeepTTL\<close>, and Redis refuses any other expiry that is not positive.\<close>

definition set_nx :: "string \<Rightarrow> lock_item \<Rightarrow> duration \<Rightarrow> time \<Rightarrow> lock_redis \<Rightarrow> bool option \<times> lock_redis" where
  "set_nx k v ttl t r =
     (if ttl = -1 \<or> ttl = 0 then
        (if redis_fails r then (None, after_command r)
         else if live k t r = None then (Some True, (after_command r)\<lparr>rd_keys := (rd_keys r)(k \<mapsto> (v, None))\<rparr>)
         else (Some False, after_command r))
      else if ttl < 0 then (None, after_command r)
      else redis_setnx k v (sent_ttl ttl) t r)"

text \<open>\<^verbatim>\<open>PEXPIRE\<close> of a key that exists: an expiry that is not positive deletes it.\<close>

definition pexpire :: "string \<Rightarrow> int \<Rightarrow> time \<Rightarrow> lock_redis \<Rightarrow> lock_redis" where
  "pexpire k ms t r = (if ms \<le> 0 then r\<lparr>rd_keys := (rd_keys r)(k := None)\<rparr>
     else redis_pexpire k (ms * millisecond) t r)"

text \<open>Lua's numbers are binary64.\<close>

definition lua_number :: "int \<Rightarrow> float64" where
  "lua_number n = fl (of_int n)"

subsection \<open>Configuration and locks\<close>

record lock_config =
  lc_ttl :: duration
  lc_retries :: int
  lc_base_delay :: duration
  lc_multiplier :: float64
  lc_threshold :: float64

definition default_lock_config :: lock_config where
  "default_lock_config = \<lparr>lc_ttl = 5 * second, lc_retries = 3, lc_base_delay = 50 * millisecond,
     lc_multiplier = 2, lc_threshold = fl (8 / 10)\<rparr>"

record lock =
  lk_key :: string
  lk_owner :: string
  lk_token :: int
  lk_ttl :: duration
  lk_acquired :: time

datatype try_err = TokenFailed | SetFailed | AlreadyHeld

datatype lock_err = CtxDone | NotAcquired string "try_err option" | OwnershipMismatch | LockNotHeld
  | ExtendFailed | ScriptFailed

definition lock_key_prefix :: "string \<Rightarrow> string" where
  "lock_key_prefix key = ''lock:'' @ key"

definition fencing_counter_key :: "string \<Rightarrow> string" where
  "fencing_counter_key key = ''lock:fencing_counter:'' @ key"

subsection \<open>Acquiring\<close>

definition try_acquire :: "string \<Rightarrow> string \<Rightarrow> string \<Rightarrow> duration \<Rightarrow> time \<Rightarrow> lock_redis \<Rightarrow> (try_err + lock) \<times> lock_redis" where
  "try_acquire redis_key key owner ttl t r =
     (case redis_incr (fencing_counter_key key) t r of
        (None, r1) \<Rightarrow> (Inl TokenFailed, r1)
      | (Some n, r1) \<Rightarrow>
          (case set_nx redis_key (Held owner n t) ttl t r1 of
             (None, r2) \<Rightarrow> (Inl SetFailed, r2)
           | (Some False, r2) \<Rightarrow> (Inl AlreadyHeld, r2)
           | (Some True, r2) \<Rightarrow>
               (Inr \<lparr>lk_key = key, lk_owner = owner, lk_token = n, lk_ttl = ttl, lk_acquired = t\<rparr>, r2)))"

text \<open>\<^verbatim>\<open>time.Duration(float64(delay) * multiplier)\<close>, as long as the product is an \<^verbatim>\<open>int64\<close>.\<close>

definition next_delay :: "float64 \<Rightarrow> duration \<Rightarrow> duration" where
  "next_delay m d = float_to_int (fl (fl (of_int d) * m))"

definition ctx_done :: "time option \<Rightarrow> time \<Rightarrow> bool" where
  "ctx_done deadline t = (case deadline of None \<Rightarrow> False | Some x \<Rightarrow> x \<le> t)"

function acquire_loop ::
  "(int \<Rightarrow> time \<Rightarrow> lock_redis \<Rightarrow> lock_redis) \<Rightarrow> time option \<Rightarrow> lock_config \<Rightarrow> string \<Rightarrow> string \<Rightarrow>
   int \<Rightarrow> duration \<Rightarrow> try_err option \<Rightarrow> time \<Rightarrow> lock_redis \<Rightarrow> (lock_err + lock) \<times> time \<times> lock_redis" where
  "acquire_loop others deadline cfg key owner attempt delay last_err t r =
     (if lc_retries cfg < attempt then (Inl (NotAcquired key last_err), t, r)
      else
        let t1 = (if 0 < attempt then t + delay else t);
            r1 = (if 0 < attempt then others attempt t1 r else r);
            delay1 = (if 0 < attempt then next_delay (lc_multiplier cfg) delay else delay)
        in if 0 < attempt \<and> ctx_done deadline t1 then (Inl CtxDone, t1, r1)
           else case try_acquire (lock_key_prefix key) key owner (lc_ttl cfg) t1 r1 of
               (Inr l, r2) \<Rightarrow> (Inr l, t1, r2)
             | (Inl e, r2) \<Rightarrow> acquire_loop others deadline cfg key owner (attempt + 1) delay1 (Some e) t1 r2)"
  by pat_completeness auto

termination
  by (relation "measure (\<lambda>(others, deadline, cfg, key, owner, attempt, delay, last_err, t, r). nat (lc_retries cfg + 1 - attempt))") auto

definition lock_defaults :: "lock_config \<Rightarrow> lock_config" where
  "lock_defaults cfg =
     cfg\<lparr>lc_ttl := (if lc_ttl cfg = 0 then 5 * second else lc_ttl cfg),
         lc_retries := (if lc_retries cfg = 0 then 3 else lc_retries cfg),
         lc_base_delay := (if lc_base_delay cfg = 0 then 50 * millisecond else lc_base_delay cfg),
         lc_multiplier := (if lc_multiplier cfg = 0 then 2 else lc_multiplier cfg),
         lc_threshold := (if lc_threshold cfg = 0 then fl (8 / 10) else lc_threshold cfg)\<rparr>"

definition acquire ::
  "(int \<Rightarrow> time \<Rightarrow> lock_redis \<Rightarrow> lock_redis) \<Rightarrow> time option \<Rightarrow> string \<Rightarrow> string \<Rightarrow> lock_config \<Rightarrow>
   time \<Rightarrow> lock_redis \<Rightarrow> (lock_err + lock) \<times> time \<times> lock_redis" where
  "acquire others deadline owner key cfg t r =
     (let cfg' = lock_defaults cfg in
      acquire_loop others deadline cfg' key owner 0 (lc_base_delay cfg') None t r)"

subsection \<open>Releasing and extending\<close>

text \<open>
  Both scripts start alike: the value is read and compared with owner and token. A value that is no
  lock makes the script fail.
\<close>

datatype owner_check = Mine | Other | Absent | BadValue

definition ownership :: "lock \<Rightarrow> time \<Rightarrow> lock_redis \<Rightarrow> owner_check" where
  "ownership l t r =
     (case live (lock_key_prefix (lk_key l)) t r of
        None \<Rightarrow> Absent
      | Some (Held owner n _, _) \<Rightarrow>
          if owner = lk_owner l \<and> lua_number n = lua_number (lk_token l) then Mine else Other
      | Some (Counter _, _) \<Rightarrow> BadValue)"

definition release :: "lock option \<Rightarrow> time \<Rightarrow> lock_redis \<Rightarrow> lock_err option \<times> lock_redis" where
  "release lo t r = (case lo of None \<Rightarrow> (Some LockNotHeld, r)
     | Some l \<Rightarrow>
        if redis_fails r then (Some ScriptFailed, after_command r)
        else (case ownership l t r of
            Mine \<Rightarrow> (None, (after_command r)\<lparr>rd_keys := (rd_keys r)(lock_key_prefix (lk_key l) := None)\<rparr>)
          | Other \<Rightarrow> (Some OwnershipMismatch, after_command r)
          | Absent \<Rightarrow> (Some LockNotHeld, after_command r)
          | BadValue \<Rightarrow> (Some ScriptFailed, after_command r)))"

text \<open>\<^verbatim>\<open>TTL.Milliseconds()\<close> divides like Go, towards zero.\<close>

definition ttl_ms :: "duration \<Rightarrow> int" where
  "ttl_ms d = (if 0 \<le> d then d div millisecond else - ((- d) div millisecond))"

definition extend :: "lock option \<Rightarrow> time \<Rightarrow> lock_redis \<Rightarrow> lock_err option \<times> lock_redis" where
  "extend lo t r = (case lo of None \<Rightarrow> (Some LockNotHeld, r)
     | Some l \<Rightarrow>
        if redis_fails r then (Some ExtendFailed, after_command r)
        else (case ownership l t r of
            Mine \<Rightarrow> (None, pexpire (lock_key_prefix (lk_key l)) (ttl_ms (lk_ttl l)) t (after_command r))
          | Other \<Rightarrow> (Some OwnershipMismatch, after_command r)
          | Absent \<Rightarrow> (Some LockNotHeld, after_command r)
          | BadValue \<Rightarrow> (Some ExtendFailed, after_command r)))"

definition should_extend :: "lock option \<Rightarrow> float64 \<Rightarrow> time \<Rightarrow> bool" where
  "should_extend lo threshold now = (case lo of None \<Rightarrow> False
     | Some l \<Rightarrow> float_to_int (fl (fl (of_int (lk_ttl l)) * threshold)) \<le> now - lk_acquired l)"

end
