(* ===== verification/FencedLockSpec.thy ===== *)
theory FencedLockSpec
  imports FencedLock
begin

text \<open>
  What the distributed lock promises: fencing tokens of a key strictly increase over any interleaving of
  attempts, releases and extensions of any clients; while an acquired lock lives nobody else gets it or
  takes it away; an acquisition ends within the sum of its backoff delays; and a release undoes it.
\<close>

subsection \<open>Keys\<close>

text \<open>
  A logical key that starts with \<^verbatim>\<open>fencing_counter:\<close> would put its lock on the counter of another key.
\<close>

definition plain_key :: "string \<Rightarrow> bool" where
  "plain_key k \<longleftrightarrow> take 16 k \<noteq> ''fencing_counter:''"

lemma plain_apart [simp]:
  assumes "plain_key k"
  shows "lock_key_prefix k \<noteq> fencing_counter_key k'" "fencing_counter_key k' \<noteq> lock_key_prefix k"
  using assms by (auto simp: plain_key_def lock_key_prefix_def fencing_counter_key_def)

lemma keys_inj [simp]:
  "lock_key_prefix k = lock_key_prefix k' \<longleftrightarrow> k = k'"
  "fencing_counter_key k = fencing_counter_key k' \<longleftrightarrow> k = k'"
  by (simp_all add: lock_key_prefix_def fencing_counter_key_def)

subsection \<open>Effects of the operations\<close>

definition counter :: "string \<Rightarrow> lock_redis \<Rightarrow> int" where
  "counter k r = (case rd_keys r (fencing_counter_key k) of Some (Counter n, None) \<Rightarrow> n | _ \<Rightarrow> 0)"

definition counting :: "lock_redis \<Rightarrow> bool" where
  "counting r \<longleftrightarrow> (\<forall>k. rd_keys r (fencing_counter_key k) = None \<or>
     (\<exists>n. rd_keys r (fencing_counter_key k) = Some (Counter n, None) \<and> 0 \<le> n))"

text \<open>The holder of a key at a time, as its value names it.\<close>

definition holder :: "string \<Rightarrow> time \<Rightarrow> lock_redis \<Rightarrow> (string \<times> int) option" where
  "holder k t r = (case live (lock_key_prefix k) t r of
     Some (Held owner n _, _) \<Rightarrow> Some (owner, n) | _ \<Rightarrow> None)"

lemma live_cong: "rd_keys r' k = rd_keys r k \<Longrightarrow> live k t r' = live k t r"
  by (simp add: live_def)

lemma counter_cong: "rd_keys r' (fencing_counter_key k) = rd_keys r (fencing_counter_key k) \<Longrightarrow> counter k r' = counter k r"
  by (simp add: counter_def)

lemma countingD:
  "counting r \<Longrightarrow> rd_keys r (fencing_counter_key k) = None \<and> counter k r = 0 \<or>
     rd_keys r (fencing_counter_key k) = Some (Counter (counter k r), None) \<and> 0 \<le> counter k r"
  unfolding counting_def counter_def by (drule spec [where x = k]) auto

lemma counting_same: "counting r \<Longrightarrow> rd_keys r' = rd_keys r \<Longrightarrow> counting r'"
  by (simp add: counting_def)

lemma counting_lock_key:
  "counting r \<Longrightarrow> plain_key k \<Longrightarrow> rd_keys r' = (rd_keys r)(lock_key_prefix k := v) \<Longrightarrow> counting r'"
  by (simp add: counting_def)

lemma counting_bump:
  "counting r \<Longrightarrow> 0 \<le> n \<Longrightarrow> rd_keys r' = (rd_keys r)(fencing_counter_key k \<mapsto> (Counter n, None)) \<Longrightarrow> counting r'"
  by (simp add: counting_def)

lemma counter_lock_key:
  "plain_key k \<Longrightarrow> rd_keys r' = (rd_keys r)(lock_key_prefix k := v) \<Longrightarrow> counter k' r' = counter k' r"
  by (rule counter_cong) simp

lemma counter_bump:
  "rd_keys r' = (rd_keys r)(fencing_counter_key k \<mapsto> (Counter n, None)) \<Longrightarrow>
     counter k' r' = (if k' = k then n else counter k' r)"
  by (simp add: counter_def)

lemma redis_incr_cases:
  assumes "counting r" and "redis_incr (fencing_counter_key k) t r = (x, r')"
  obtains (failed) "x = None" and "rd_keys r' = rd_keys r"
  | (counted) "x = Some (counter k r + 1)" and "0 \<le> counter k r"
      and "rd_keys r' = (rd_keys r)(fencing_counter_key k \<mapsto> (Counter (counter k r + 1), None))"
proof (cases "redis_fails r")
  case True
  with assms(2) show ?thesis by (intro failed) (auto simp: redis_incr_def Let_def)
next
  case False
  from countingD [OF assms(1), of k] show ?thesis
  proof
    assume "rd_keys r (fencing_counter_key k) = None \<and> counter k r = 0"
    with False assms(2) show ?thesis by (intro counted) (auto simp: redis_incr_def Let_def live_def)
  next
    assume c: "rd_keys r (fencing_counter_key k) = Some (Counter (counter k r), None) \<and> 0 \<le> counter k r"
    show ?thesis
    proof (cases "counter k r + 1 < 2 ^ 63")
      case True
      with c False assms(2) show ?thesis by (intro counted) (auto simp: redis_incr_def Let_def live_def alive_def)
    next
      case no: False
      with c False assms(2) show ?thesis by (intro failed) (auto simp: redis_incr_def Let_def live_def alive_def)
    qed
  qed
qed

text \<open>The expiry that \<^verbatim>\<open>SetNX\<close> stores.\<close>

definition lease_end :: "duration \<Rightarrow> time \<Rightarrow> time option" where
  "lease_end ttl t = (if ttl = -1 \<or> ttl = 0 then None else Some (t + sent_ttl ttl))"

lemma set_nx_cases:
  assumes "set_nx k v ttl t r = (x, r')"
  obtains (unset) "x \<noteq> Some True" and "rd_keys r' = rd_keys r"
  | (set) "x = Some True" and "live k t r = None" and "rd_keys r' = (rd_keys r)(k \<mapsto> (v, lease_end ttl t))"
  using assms by (auto simp: set_nx_def redis_setnx_def lease_end_def split: if_splits)

text \<open>An attempt takes a token or not, and with it the lock or not.\<close>

lemma try_acquire_cases:
  assumes "counting r" and "plain_key k" and "try_acquire (lock_key_prefix k) k owner ttl t r = (x, r')"
  obtains (no_token) "x = Inl TokenFailed" and "rd_keys r' = rd_keys r"
  | (no_lock) e where "x = Inl e" and "0 \<le> counter k r"
      and "rd_keys r' = (rd_keys r)(fencing_counter_key k \<mapsto> (Counter (counter k r + 1), None))"
  | (locked) "x = Inr \<lparr>lk_key = k, lk_owner = owner, lk_token = counter k r + 1, lk_ttl = ttl, lk_acquired = t\<rparr>"
      and "0 \<le> counter k r" and "live (lock_key_prefix k) t r = None"
      and "rd_keys r' = (rd_keys r)(fencing_counter_key k \<mapsto> (Counter (counter k r + 1), None),
        lock_key_prefix k \<mapsto> (Held owner (counter k r + 1) t, lease_end ttl t))"
proof -
  obtain y r1 where i: "redis_incr (fencing_counter_key k) t r = (y, r1)" by fastforce
  from assms(1) i show ?thesis
  proof (cases rule: redis_incr_cases)
    case failed
    with i assms(3) show ?thesis by (intro no_token) (auto simp: try_acquire_def)
  next
    case counted
    obtain z r2 where s: "set_nx (lock_key_prefix k) (Held owner (counter k r + 1) t) ttl t r1 = (z, r2)" by fastforce
    have r': "r' = r2" using assms(3) i s counted by (auto simp: try_acquire_def split: option.splits bool.splits)
    from s show ?thesis
    proof (cases rule: set_nx_cases)
      case unset
      have "\<exists>e. x = Inl e"
        using unset(1) assms(3) i s counted by (auto simp: try_acquire_def split: option.splits bool.splits)
      then obtain e where "x = Inl e" ..
      then show ?thesis by (rule no_lock) (use counted unset r' in simp_all)
    next
      case set
      show ?thesis
      proof (rule locked)
        show "x = Inr \<lparr>lk_key = k, lk_owner = owner, lk_token = counter k r + 1, lk_ttl = ttl, lk_acquired = t\<rparr>"
          using set(1) assms(3) i s counted by (simp add: try_acquire_def)
        have "live (lock_key_prefix k) t r1 = live (lock_key_prefix k) t r"
          by (rule live_cong) (use counted assms(2) in simp)
        with set(2) show "live (lock_key_prefix k) t r = None" by simp
      qed (use counted set r' in simp_all)
    qed
  qed
qed

text \<open>Release and extension touch one key at most, and only for its owner.\<close>

lemma release_effect:
  assumes "release (Some l) t r = (e, r')"
  shows "rd_keys r' = rd_keys r \<or>
    (rd_keys r' = (rd_keys r)(lock_key_prefix (lk_key l) := None) \<and> e = None \<and> ownership l t r = Mine)"
  using assms by (auto simp: release_def split: if_splits owner_check.splits)

lemma extend_effect:
  assumes "extend (Some l) t r = (e, r')"
  shows "rd_keys r' = rd_keys r \<or>
    ((\<exists>x. rd_keys r' = (rd_keys r)(lock_key_prefix (lk_key l) := x)) \<and> e = None \<and> ownership l t r = Mine)"
  using assms by (auto simp: extend_def pexpire_def redis_pexpire_def split: if_splits owner_check.splits option.splits)

lemma ownership_mine: "ownership l t r = Mine \<Longrightarrow> \<exists>n. holder (lk_key l) t r = Some (lk_owner l, n)"
  by (auto simp: ownership_def holder_def split: option.splits lock_item.splits if_splits)

subsection \<open>Many clients\<close>

text \<open>
  The clients' operations in any order; an acquisition is a sequence of attempts. The state is Redis
  and the locks handed out so far, the latest first.
\<close>

datatype lock_op = Try string string duration | Release lock | Extend lock

fun lock_op_key :: "lock_op \<Rightarrow> string" where
  "lock_op_key (Try k _ _) = k"
| "lock_op_key (Release l) = lk_key l"
| "lock_op_key (Extend l) = lk_key l"

fun lock_op_owner :: "lock_op \<Rightarrow> string" where
  "lock_op_owner (Try _ w _) = w"
| "lock_op_owner (Release l) = lk_owner l"
| "lock_op_owner (Extend l) = lk_owner l"

fun lock_do :: "time \<times> lock_op \<Rightarrow> lock_redis \<times> lock list \<Rightarrow> lock_redis \<times> lock list" where
  "lock_do (t, Try k w ttl) (r, ls) = (case try_acquire (lock_key_prefix k) k w ttl t r of
     (Inr l, r') \<Rightarrow> (r', l # ls) | (Inl _, r') \<Rightarrow> (r', ls))"
| "lock_do (t, Release l) (r, ls) = (snd (release (Some l) t r), ls)"
| "lock_do (t, Extend l) (r, ls) = (snd (extend (Some l) t r), ls)"

definition tokens :: "string \<Rightarrow> lock list \<Rightarrow> int list" where
  "tokens k ls = map lk_token (filter (\<lambda>l. lk_key l = k) ls)"

definition tokens_ok :: "lock_redis \<times> lock list \<Rightarrow> bool" where
  "tokens_ok s \<longleftrightarrow> counting (fst s) \<and>
     (\<forall>k. sorted_wrt (>) (tokens k (snd s)) \<and> (\<forall>n \<in> set (tokens k (snd s)). n \<le> counter k (fst s)))"

lemma tokens_Cons [simp]: "tokens k (l # ls) = (if lk_key l = k then lk_token l # tokens k ls else tokens k ls)"
  by (simp add: tokens_def)

lemma tokens_okD:
  assumes "tokens_ok (r, ls)"
  shows "counting r" and "sorted_wrt (>) (tokens k ls)" and "n \<in> set (tokens k ls) \<Longrightarrow> n \<le> counter k r"
  using assms by (auto simp: tokens_ok_def)

lemma tokens_ok_same:
  assumes "tokens_ok (r, ls)" and "counting r'" and "\<And>k. counter k r \<le> counter k r'"
  shows "tokens_ok (r', ls)"
proof -
  have "n \<le> counter k r'" if "n \<in> set (tokens k ls)" for k n
    using tokens_okD(3) [OF assms(1) that] assms(3) [of k] by linarith
  then show ?thesis using tokens_okD(2) [OF assms(1)] assms(2) by (simp add: tokens_ok_def)
qed

lemma tokens_ok_grant:
  assumes "tokens_ok (r, ls)" and "counting r'" and "\<And>k. counter k r \<le> counter k r'"
    and "counter (lk_key l) r < lk_token l" and "lk_token l \<le> counter (lk_key l) r'"
  shows "tokens_ok (r', l # ls)"
proof -
  have old: "tokens_ok (r', ls)" by (rule tokens_ok_same [OF assms(1-3)])
  have "n < lk_token l" if "n \<in> set (tokens (lk_key l) ls)" for n
    using tokens_okD(3) [OF assms(1) that] assms(4) by linarith
  then show ?thesis using tokens_okD(2,3) [OF old] assms(2,5) by (simp add: tokens_ok_def)
qed

lemma mine_keeps:
  assumes "counting r" and "plain_key (lk_key l)"
    and "rd_keys r' = rd_keys r \<or> (\<exists>x. rd_keys r' = (rd_keys r)(lock_key_prefix (lk_key l) := x))"
  shows "counting r' \<and> counter k r' = counter k r"
  using assms by (metis counter_cong counter_lock_key counting_lock_key counting_same)

lemma lock_do_tokens:
  assumes "plain_key (lock_op_key c)" and "tokens_ok s"
  shows "tokens_ok (lock_do (t, c) s)"
proof -
  obtain r ls where s: "s = (r, ls)" by fastforce
  have cnt: "counting r" using assms(2) s by (simp add: tokens_ok_def)
  show ?thesis
  proof (cases c)
    case (Try k w ttl)
    obtain x r' where a: "try_acquire (lock_key_prefix k) k w ttl t r = (x, r')" by fastforce
    have k: "plain_key k" using assms(1) Try by simp
    from cnt k a show ?thesis
    proof (cases rule: try_acquire_cases)
      case no_token
      have "tokens_ok (r', ls)"
        using assms(2) s no_token(2) counting_same [OF cnt no_token(2)] by (auto intro: tokens_ok_same simp: counter_def)
      then show ?thesis using a Try s no_token(1) by simp
    next
      case (no_lock e)
      have "tokens_ok (r', ls)"
        by (rule tokens_ok_same [where r = r, OF _ counting_bump [OF cnt _ no_lock(3)]])
          (use assms(2) s no_lock(2) counter_bump [OF no_lock(3)] in simp_all)
      then show ?thesis using a Try s no_lock(1) by simp
    next
      case locked
      let ?r1 = "r\<lparr>rd_keys := (rd_keys r)(fencing_counter_key k \<mapsto> (Counter (counter k r + 1), None))\<rparr>"
      have "counting ?r1" by (rule counting_bump [OF cnt, of "counter k r + 1" _ k]) (use locked(2) in simp_all)
      then have "counting r'" by (rule counting_lock_key [OF _ k]) (use locked(4) in simp)
      moreover have "counter j r' = (if j = k then counter k r + 1 else counter j r)" for j
        using counter_lock_key [OF k, of r' ?r1] counter_bump [of ?r1 r k] locked(4) by simp
      ultimately have "tokens_ok (r', \<lparr>lk_key = k, lk_owner = w, lk_token = counter k r + 1, lk_ttl = ttl, lk_acquired = t\<rparr> # ls)"
        using assms(2) s by (intro tokens_ok_grant [where r = r]) simp_all
      then show ?thesis using a Try s locked(1) by simp
    qed
  next
    case (Release l)
    obtain e r' where a: "release (Some l) t r = (e, r')" by fastforce
    have "counting r' \<and> counter k r' = counter k r" for k
      by (rule mine_keeps [OF cnt]) (use assms(1) Release release_effect [OF a] in auto)
    then show ?thesis using assms(2) s a Release by (auto intro: tokens_ok_same)
  next
    case (Extend l)
    obtain e r' where a: "extend (Some l) t r = (e, r')" by fastforce
    have "counting r' \<and> counter k r' = counter k r" for k
      by (rule mine_keeps [OF cnt]) (use assms(1) Extend extend_effect [OF a] in auto)
    then show ?thesis using assms(2) s a Extend by (auto intro: tokens_ok_same)
  qed
qed

interpretation fencing: invariant_system lock_do "\<lambda>(t, c). plain_key (lock_op_key c)" tokens_ok
  by unfold_locales (auto intro: lock_do_tokens)

subsection \<open>Exclusion\<close>

text \<open>Whoever is not the owner leaves a live lock alone.\<close>

definition leased :: "string \<Rightarrow> string \<Rightarrow> int \<Rightarrow> time \<Rightarrow> lock_redis \<Rightarrow> bool" where
  "leased k w n e r \<longleftrightarrow> (\<exists>a. rd_keys r (lock_key_prefix k) = Some (Held w n a, Some e))"

lemma leased_holder: "leased k w n e r \<Longrightarrow> t < e \<Longrightarrow> holder k t r = Some (w, n)"
  by (auto simp: leased_def holder_def live_def alive_def)

lemma leased_live: "leased k w n e r \<Longrightarrow> t < e \<Longrightarrow> live (lock_key_prefix k) t r \<noteq> None"
  by (auto simp: leased_def live_def alive_def)

definition bystander :: "string \<Rightarrow> time \<Rightarrow> time \<times> lock_op \<Rightarrow> bool" where
  "bystander w e = (\<lambda>(t, c). t < e \<and> plain_key (lock_op_key c) \<and> lock_op_owner c \<noteq> w)"

lemma not_mine:
  assumes "leased k w n e r" and "t < e" and "lk_owner l \<noteq> w" and "lk_key l = k"
  shows "ownership l t r \<noteq> Mine"
  using ownership_mine [of l t r] leased_holder [OF assms(1,2)] assms(3,4) by auto

lemma bystander_step:
  assumes "counting r" and "leased k w n e r" and "plain_key k" and "bystander w e (t, c)"
    and "lock_do (t, c) (r, ls) = (r', ls')"
  shows "leased k w n e r'" and "filter (\<lambda>l. lk_key l = k) ls' = filter (\<lambda>l. lk_key l = k) ls"
proof -
  have t: "t < e" and pk: "plain_key (lock_op_key c)" and w: "lock_op_owner c \<noteq> w"
    using assms(4) by (auto simp: bystander_def)
  have "leased k w n e r' \<and> filter (\<lambda>l. lk_key l = k) ls' = filter (\<lambda>l. lk_key l = k) ls"
  proof (cases c)
    case (Try j v ttl)
    obtain x r1 where a: "try_acquire (lock_key_prefix j) j v ttl t r = (x, r1)" by fastforce
    have j: "plain_key j" using pk Try by simp
    from assms(1) j a show ?thesis
    proof (cases rule: try_acquire_cases)
      case locked
      with leased_live [OF assms(2) t] have "j \<noteq> k" by auto
      then show ?thesis using locked a Try assms(2,3,5) by (auto simp: leased_def)
    qed (use a Try assms(2,3,5) in \<open>auto simp: leased_def\<close>)
  next
    case (Release l)
    obtain x r1 where a: "release (Some l) t r = (x, r1)" by fastforce
    show ?thesis
      using release_effect [OF a] not_mine [OF assms(2) t] Release w a assms(2,5) by (cases "lk_key l = k") (auto simp: leased_def)
  next
    case (Extend l)
    obtain x r1 where a: "extend (Some l) t r = (x, r1)" by fastforce
    show ?thesis
      using extend_effect [OF a] not_mine [OF assms(2) t] Extend w a assms(2,5) by (cases "lk_key l = k") (auto simp: leased_def)
  qed
  then show "leased k w n e r'" "filter (\<lambda>l. lk_key l = k) ls' = filter (\<lambda>l. lk_key l = k) ls" by auto
qed

lemma bystanders_keep:
  assumes "\<forall>c \<in> set cs. bystander w e c" and "tokens_ok (r, ls)" and "leased k w n e r" and "plain_key k"
    and "fold lock_do cs (r, ls) = (r', ls')"
  shows "leased k w n e r' \<and> filter (\<lambda>l. lk_key l = k) ls' = filter (\<lambda>l. lk_key l = k) ls"
  using assms
proof (induction cs arbitrary: r ls)
  case (Cons c cs)
  obtain t op where c: "c = (t, op)" by fastforce
  obtain r1 ls1 where d: "lock_do (t, op) (r, ls) = (r1, ls1)" by fastforce
  have b: "bystander w e (t, op)" using Cons.prems(1) c by simp
  have "tokens_ok (lock_do (t, op) (r, ls))"
    by (rule lock_do_tokens [OF _ Cons.prems(2)]) (use b in \<open>simp add: bystander_def\<close>)
  moreover have "counting r" using Cons.prems(2) by (simp add: tokens_ok_def)
  ultimately show ?case
    using Cons.IH [of r1 ls1] bystander_step [OF _ Cons.prems(3,4) b d] Cons.prems(1,4,5) c d by simp
qed simp


subsection \<open>Waiting\<close>

text \<open>The sum of the first delays of the backoff.\<close>

fun waits :: "float64 \<Rightarrow> duration \<Rightarrow> nat \<Rightarrow> duration" where
  "waits m d 0 = 0"
| "waits m d (Suc n) = d + waits m (next_delay m d) n"

lemma next_delay_nonneg: "0 \<le> m \<Longrightarrow> 0 \<le> d \<Longrightarrow> 0 \<le> next_delay m d"
  by (simp add: next_delay_def float_to_int_def fl_nonneg)

lemma waits_nonneg: "0 \<le> m \<Longrightarrow> 0 \<le> d \<Longrightarrow> 0 \<le> waits m d n"
  by (induction n arbitrary: d) (simp_all add: next_delay_nonneg)

declare acquire_loop.simps [simp del]

lemma acquire_loop_time:
  assumes "acquire_loop others deadline cfg key owner (int i) d x t r = (res, t', r')"
    and "0 < i" and "0 \<le> lc_multiplier cfg" and "0 \<le> d"
  shows "t \<le> t' \<and> t' \<le> t + waits (lc_multiplier cfg) d (nat (lc_retries cfg + 1 - int i))"
  using assms
proof (induction "nat (lc_retries cfg + 1 - int i)" arbitrary: i d x t r)
  case 0
  then show ?case by (subst (asm) acquire_loop.simps) simp
next
  case (Suc n)
  let ?m = "lc_multiplier cfg"
  have more: "\<not> lc_retries cfg < int i" "nat (lc_retries cfg + 1 - int i) = Suc n"
    "nat (lc_retries cfg + 1 - int (Suc i)) = n" using Suc.hyps(2) by auto
  have rest: "0 \<le> waits ?m (next_delay ?m d) n"
    by (intro waits_nonneg next_delay_nonneg) (use Suc.prems in simp_all)
  obtain y r2 where a: "try_acquire (lock_key_prefix key) key owner (lc_ttl cfg) (t + d) (others (int i) (t + d) r) = (y, r2)"
    by fastforce
  note run = Suc.prems(1) [unfolded acquire_loop.simps [of others deadline cfg key owner "int i"]]
  show ?case
  proof (cases "ctx_done deadline (t + d) \<or> (\<exists>l. y = Inr l)")
    case True
    then have "t' = t + d" using run more(1) Suc.prems(2) a by (auto simp: Let_def split: if_splits)
    with rest Suc.prems(4) more show ?thesis by simp
  next
    case False
    then obtain e where "y = Inl e" by (cases y) auto
    then have "acquire_loop others deadline cfg key owner (int (Suc i)) (next_delay ?m d) (Some e) (t + d) r2 = (res, t', r')"
      using run more(1) Suc.prems(2) a False by (simp add: Let_def add.commute)
    then have "t + d \<le> t' \<and> t' \<le> t + d + waits ?m (next_delay ?m d) (nat (lc_retries cfg + 1 - int (Suc i)))"
      by (intro Suc.hyps(1)) (use more Suc.prems in \<open>simp_all add: next_delay_nonneg\<close>)
    with more Suc.prems(4) show ?thesis by simp
  qed
qed

text \<open>While somebody else holds the key every attempt costs a token and fails.\<close>

definition held_past :: "string \<Rightarrow> time \<Rightarrow> lock_redis \<Rightarrow> bool" where
  "held_past k e r \<longleftrightarrow> counting r \<and> plain_key k \<and> rd_faults r = [] \<and> (\<forall>t \<le> e. live (lock_key_prefix k) t r \<noteq> None)"

definition burned :: "string \<Rightarrow> nat \<Rightarrow> lock_redis \<Rightarrow> lock_redis" where
  "burned k n r = r\<lparr>rd_keys := (rd_keys r)(fencing_counter_key k \<mapsto> (Counter (counter k r + int n), None))\<rparr>"

lemma burned_held: "held_past k e r \<Longrightarrow> held_past k e (burned k n r)"
  using countingD [of r k] live_cong [of "burned k n r" "lock_key_prefix k" r]
  by (auto simp: held_past_def burned_def intro!: counting_bump [of r "counter k r + int n"])

lemma burned_burned: "burned k n (burned k m r) = burned k (m + n) r"
  by (simp add: burned_def counter_def add.assoc)

lemma try_held:
  assumes "held_past k e r" and "t \<le> e" and "counter k r + 1 < 2 ^ 63" and "0 < ttl"
  shows "try_acquire (lock_key_prefix k) k owner ttl t r = (Inl AlreadyHeld, burned k 1 r)"
proof -
  have ok: "counting r" "plain_key k" "rd_faults r = []" "live (lock_key_prefix k) t r \<noteq> None"
    using assms(1,2) by (auto simp: held_past_def)
  have same: "after_command (burned k 1 r) = burned k 1 r" "after_command r = r"
    using ok(3) by (simp_all add: after_command_def burned_def)
  have "redis_incr (fencing_counter_key k) t r = (Some (counter k r + 1), burned k 1 r)"
    using countingD [OF ok(1), of k] ok(3) assms(3) same(2)
    by (auto simp: redis_incr_def Let_def live_def alive_def burned_def)
  moreover have "live (lock_key_prefix k) t (burned k 1 r) \<noteq> None"
    using live_cong [of "burned k 1 r" "lock_key_prefix k" r t] ok(2,4) by (simp add: burned_def)
  ultimately show ?thesis using assms(4) ok(3) same
    by (auto simp: try_acquire_def set_nx_def redis_setnx_def burned_def)
qed

lemma acquire_loop_held:
  assumes "held_past key (t + waits (lc_multiplier cfg) d (nat (lc_retries cfg + 1 - int i))) r" and "0 < i"
    and "0 \<le> lc_multiplier cfg" and "0 \<le> d" and "0 < lc_ttl cfg"
    and "n = nat (lc_retries cfg + 1 - int i)" and "counter key r + int n < 2 ^ 63" and "0 < n"
  shows "acquire_loop (\<lambda>_ _ r. r) None cfg key owner (int i) d x t r =
    (Inl (NotAcquired key (Some AlreadyHeld)), t + waits (lc_multiplier cfg) d n, burned key n r)"
  using assms
proof (induction n arbitrary: i d x t r)
  case (Suc n)
  let ?m = "lc_multiplier cfg"
  let ?d' = "next_delay ?m d"
  have more: "\<not> lc_retries cfg < int i" "nat (lc_retries cfg + 1 - int i) = Suc n"
    "n = nat (lc_retries cfg + 1 - int (Suc i))" using Suc.prems(6) by auto
  have d': "0 \<le> ?d'" and rest: "0 \<le> waits ?m ?d' n"
    using Suc.prems(3,4) by (simp_all add: next_delay_nonneg waits_nonneg)
  have try_it: "try_acquire (lock_key_prefix key) key owner (lc_ttl cfg) (t + d) r = (Inl AlreadyHeld, burned key 1 r)"
    by (rule try_held [OF Suc.prems(1)]) (use more rest Suc.prems in simp_all)
  have step: "acquire_loop (\<lambda>_ _ r. r) None cfg key owner (int i) d x t r =
      acquire_loop (\<lambda>_ _ r. r) None cfg key owner (int (Suc i)) ?d' (Some AlreadyHeld) (t + d) (burned key 1 r)"
    using more(1) Suc.prems(2) try_it
    by (subst acquire_loop.simps) (simp add: Let_def ctx_done_def add.commute)
  show ?case
  proof (cases n)
    case 0
    then show ?thesis using step more(3) by (subst (asm) acquire_loop.simps [of _ _ _ _ _ "int (Suc i)"]) simp
  next
    case n: (Suc j)
    have "acquire_loop (\<lambda>_ _ r. r) None cfg key owner (int (Suc i)) ?d' (Some AlreadyHeld) (t + d) (burned key 1 r) =
      (Inl (NotAcquired key (Some AlreadyHeld)), t + d + waits ?m ?d' n, burned key n (burned key 1 r))"
    proof (rule Suc.IH)
      show "held_past key (t + d + waits ?m ?d' (nat (lc_retries cfg + 1 - int (Suc i)))) (burned key 1 r)"
        using burned_held [OF Suc.prems(1), of 1] more by (simp add: add.assoc)
      show "counter key (burned key 1 r) + int n < 2 ^ 63" using Suc.prems(7) by (simp add: burned_def counter_def)
    qed (use Suc.prems more n d' in simp_all)
    then show ?thesis using step by (simp add: burned_burned add.assoc)
  qed
qed simp


lemma lock_defaults_simps:
  "lc_ttl (lock_defaults cfg) \<noteq> 0"
  "0 \<le> lc_multiplier cfg \<Longrightarrow> 0 \<le> lc_multiplier (lock_defaults cfg)"
  "0 \<le> lc_base_delay cfg \<Longrightarrow> 0 \<le> lc_base_delay (lock_defaults cfg)"
  by (simp_all add: lock_defaults_def second_def millisecond_def)

lemma acquire_loop_first:
  assumes "0 \<le> lc_retries cfg" and "try_acquire (lock_key_prefix key) key owner (lc_ttl cfg) t r = (y, r2)"
  shows "acquire_loop others deadline cfg key owner 0 d x t r = (case y of Inr l \<Rightarrow> (Inr l, t, r2)
    | Inl e \<Rightarrow> acquire_loop others deadline cfg key owner (int 1) d (Some e) t r2)"
  using assms by (subst acquire_loop.simps) (simp add: Let_def split: sum.splits)

subsection \<open>Properties\<close>


definition idle_lock_redis :: lock_redis where
  "idle_lock_redis = \<lparr>rd_keys = (\<lambda>_. None), rd_faults = []\<rparr>"

lemma idle_counting: "counting idle_lock_redis"
  by (simp add: counting_def idle_lock_redis_def)


text \<open>C32: exclusion. From the moment a client has acquired a key until the expiry that was set, nothing the
  other clients do hands the key to anybody or ends the lock: the holder stays the owner with its token.\<close>

theorem lock_exclusive:
  assumes "tokens_ok (r, ls)" and "plain_key k" and "0 < ttl"
    and "lock_do (t, Try k w ttl) (r, ls) = (r1, l # ls)"
    and "\<forall>c \<in> set cs. bystander w (t + sent_ttl ttl) c"
    and "fold lock_do cs (r1, l # ls) = (r2, ls2)"
  shows "filter (\<lambda>g. lk_key g = k) ls2 = l # filter (\<lambda>g. lk_key g = k) ls \<and>
    (t' < t + sent_ttl ttl \<longrightarrow> holder k t' r2 = Some (w, lk_token l))"
proof -
  obtain x r' where a: "try_acquire (lock_key_prefix k) k w ttl t r = (x, r')" by fastforce
  have x: "x = Inr l" "r' = r1" using assms(4) a by (auto split: sum.splits)
  have "counting r" using assms(1) by (rule tokens_okD(1))
  from this assms(2) a have "lk_key l = k" and "leased k w (lk_token l) (t + sent_ttl ttl) r1"
    by (cases rule: try_acquire_cases; use x assms(3) in \<open>auto simp: leased_def lease_end_def\<close>)+
  moreover have "tokens_ok (r1, l # ls)"
    using lock_do_tokens [OF _ assms(1), of "Try k w ttl" t] assms(2,4) by simp
  ultimately have "leased k w (lk_token l) (t + sent_ttl ttl) r2 \<and>
      filter (\<lambda>g. lk_key g = k) ls2 = l # filter (\<lambda>g. lk_key g = k) ls"
    using bystanders_keep [OF assms(5) _ _ assms(2,6)] by auto
  then show ?thesis using leased_holder by blast
qed

theorem lock_exclusive_witness:
  "\<exists>l r2 ls2. fold lock_do [(1, Try ''a'' ''v'' second), (2, Release \<lparr>lk_key = ''a'', lk_owner = ''v'', lk_token = 7, lk_ttl = second, lk_acquired = 0\<rparr>)]
       (lock_do (0, Try ''a'' ''w'' second) (idle_lock_redis, [])) = (r2, ls2) \<and>
     filter (\<lambda>g. lk_key g = ''a'') ls2 = [l] \<and> holder ''a'' 3 r2 = Some (''w'', lk_token l)"
proof -
  let ?l = "\<lparr>lk_key = ''a'', lk_owner = ''w'', lk_token = 1, lk_ttl = second, lk_acquired = 0\<rparr>"
  let ?cs = "[(1, Try ''a'' ''v'' second), (2, Release \<lparr>lk_key = ''a'', lk_owner = ''v'', lk_token = 7, lk_ttl = second, lk_acquired = 0\<rparr>)]"
  obtain r1 where r1: "lock_do (0, Try ''a'' ''w'' second) (idle_lock_redis, []) = (r1, ?l # [])"
    by (simp add: idle_lock_redis_def try_acquire_def redis_incr_def set_nx_def redis_setnx_def live_def second_def
        lock_key_prefix_def fencing_counter_key_def)
  obtain r2 ls2 where run: "fold lock_do ?cs (r1, ?l # []) = (r2, ls2)" by fastforce
  have ok: "tokens_ok (idle_lock_redis, [])" by (simp add: tokens_ok_def tokens_def idle_counting)
  have pk: "plain_key ''a''" and pos: "0 < second" by (simp_all add: plain_key_def)
  have by_all: "\<forall>c \<in> set ?cs. bystander ''w'' (0 + sent_ttl second) c"
    by (simp add: bystander_def plain_key_def sent_ttl_def second_def millisecond_def)
  show ?thesis
    using lock_exclusive [where t' = 3, OF ok pk pos r1 by_all run] run r1 by (simp add: sent_ttl_def second_def millisecond_def)
qed

text \<open>An acquisition ends. Whatever the others do and whichever commands fail, it returns no later than
  the sum of the configured backoff delays after it started.\<close>

theorem acquire_ends:
  assumes "acquire others deadline owner key cfg t r = (res, t', r')"
    and "0 \<le> lc_multiplier cfg" and "0 \<le> lc_base_delay cfg" and "0 \<le> lc_retries cfg"
  shows "t \<le> t' \<and> t' \<le> t + waits (lc_multiplier (lock_defaults cfg)) (lc_base_delay (lock_defaults cfg))
    (nat (lc_retries (lock_defaults cfg)))"
proof -
  let ?cfg = "lock_defaults cfg"
  obtain y r2 where a: "try_acquire (lock_key_prefix key) key owner (lc_ttl ?cfg) t r = (y, r2)" by fastforce
  have r0: "0 \<le> lc_retries ?cfg" using assms(4) by (simp add: lock_defaults_def)
  note nonneg = lock_defaults_simps(2) [OF assms(2)] lock_defaults_simps(3) [OF assms(3)]
  show ?thesis
  proof (cases y)
    case (Inr l)
    then show ?thesis using acquire_loop_first [OF r0 a] assms(1) waits_nonneg [OF nonneg] by (simp add: acquire_def Let_def)
  next
    case (Inl e)
    then have "acquire_loop others deadline ?cfg key owner (int 1) (lc_base_delay ?cfg) (Some e) t r2 = (res, t', r')"
      using acquire_loop_first [OF r0 a] assms(1) by (simp add: acquire_def Let_def)
    from acquire_loop_time [OF this _ nonneg] show ?thesis by simp
  qed
qed

theorem acquire_ends_witness:
  "fst (snd (acquire (\<lambda>_ _ r. r) None ''w'' ''a'' default_lock_config 0 idle_lock_redis)) \<le> 350 * millisecond"
proof -
  obtain res t' r' where a: "acquire (\<lambda>_ _ r. r) None ''w'' ''a'' default_lock_config 0 idle_lock_redis = (res, t', r')"
    by (metis prod.exhaust)
  have "lock_defaults default_lock_config = default_lock_config"
    by (simp add: lock_defaults_def default_lock_config_def second_def millisecond_def)
  moreover have "waits 2 (50 * millisecond) 3 = 350 * millisecond" by code_simp
  ultimately show ?thesis using acquire_ends [OF a] a by (simp add: default_lock_config_def millisecond_def)
qed

text \<open>A key somebody else holds throughout. The client makes one attempt at once and one after each
  backoff delay, retries and no more, and then reports that the key is held; each attempt has used up one
  fencing token and nothing else has changed.\<close>

theorem acquire_held:
  assumes "held_past key (t + waits (lc_multiplier cfg) (lc_base_delay cfg) (nat (lc_retries cfg))) r"
    and "lock_defaults cfg = cfg" and "0 \<le> lc_multiplier cfg" and "0 \<le> lc_base_delay cfg" and "0 < lc_ttl cfg"
    and "0 < lc_retries cfg" and "counter key r + lc_retries cfg + 1 < 2 ^ 63"
  shows "acquire (\<lambda>_ _ r. r) None owner key cfg t r =
    (Inl (NotAcquired key (Some AlreadyHeld)),
     t + waits (lc_multiplier cfg) (lc_base_delay cfg) (nat (lc_retries cfg)), burned key (nat (lc_retries cfg) + 1) r)"
proof -
  let ?n = "nat (lc_retries cfg)"
  have "try_acquire (lock_key_prefix key) key owner (lc_ttl cfg) t r = (Inl AlreadyHeld, burned key 1 r)"
    by (rule try_held [OF assms(1)]) (use assms waits_nonneg [OF assms(3,4)] in simp_all)
  then have "acquire (\<lambda>_ _ r. r) None owner key cfg t r =
      acquire_loop (\<lambda>_ _ r. r) None cfg key owner (int 1) (lc_base_delay cfg) (Some AlreadyHeld) t (burned key 1 r)"
    using acquire_loop_first [of cfg key owner t r] assms(2,6) by (simp add: acquire_def)
  also have "\<dots> = (Inl (NotAcquired key (Some AlreadyHeld)), t + waits (lc_multiplier cfg) (lc_base_delay cfg) ?n,
      burned key ?n (burned key 1 r))"
    by (rule acquire_loop_held [OF _ _ assms(3-5)])
      (use burned_held [OF assms(1), of 1] assms(6,7) in \<open>auto simp: burned_def counter_def\<close>)
  finally show ?thesis by (simp add: burned_burned)
qed

definition busy_redis :: lock_redis where
  "busy_redis = \<lparr>rd_keys = [''lock:a'' \<mapsto> (Held ''v'' 1 0, Some (5 * second)), ''lock:fencing_counter:a'' \<mapsto> (Counter 1, None)], rd_faults = []\<rparr>"

theorem acquire_held_witness:
  "fst (acquire (\<lambda>_ _ r. r) None ''w'' ''a'' default_lock_config 0 busy_redis) = Inl (NotAcquired ''a'' (Some AlreadyHeld))"
proof -
  have def_cfg: "lock_defaults default_lock_config = default_lock_config"
    by (simp add: lock_defaults_def default_lock_config_def second_def millisecond_def)
  have w: "waits 2 (50 * millisecond) 3 = 350 * millisecond" by code_simp
  have "held_past ''a'' (0 + 350 * millisecond) busy_redis"
    by (auto simp: held_past_def counting_def plain_key_def busy_redis_def live_def alive_def lock_key_prefix_def
        fencing_counter_key_def second_def millisecond_def)
  then show ?thesis
    using acquire_held [OF _ def_cfg, of "''a''" 0 busy_redis "''w''"] w
    by (simp add: default_lock_config_def second_def millisecond_def counter_def busy_redis_def fencing_counter_key_def)
qed

text \<open>Acquire and release. A client that finds the key free gets it with its first attempt, holds it
  until the expiry, and its release in that time succeeds and leaves the Redis as it was but for the
  token it used.\<close>

theorem lock_roundtrip:
  assumes "counting r" and "plain_key key" and "rd_faults r = []" and "rd_keys r (lock_key_prefix key) = None"
    and "counter key r + 1 < 2 ^ 63" and "0 < lc_ttl cfg" and "0 \<le> lc_retries cfg"
    and "t2 < t + sent_ttl (lc_ttl cfg)"
    and "acquire others deadline owner key cfg t r = (res, t', r1)"
  shows "\<exists>l. res = Inr l \<and> lk_token l = counter key r + 1 \<and> t' = t \<and> holder key t2 r1 = Some (owner, lk_token l) \<and>
    release (Some l) t2 r1 = (None, burned key 1 r)"
proof -
  let ?ttl = "lc_ttl cfg"
  let ?l = "\<lparr>lk_key = key, lk_owner = owner, lk_token = counter key r + 1, lk_ttl = ?ttl, lk_acquired = t\<rparr>"
  let ?v = "(Held owner (counter key r + 1) t, Some (t + sent_ttl ?ttl))"
  let ?r1 = "(burned key 1 r)\<lparr>rd_keys := (rd_keys (burned key 1 r))(lock_key_prefix key \<mapsto> ?v)\<rparr>"
  have cfg: "lc_ttl (lock_defaults cfg) = ?ttl" "0 \<le> lc_retries (lock_defaults cfg)"
    using assms(6,7) by (simp_all add: lock_defaults_def)
  have "redis_incr (fencing_counter_key key) t r = (Some (counter key r + 1), burned key 1 r)"
    using countingD [OF assms(1), of key] assms(3,5)
    by (auto simp: redis_incr_def Let_def live_def alive_def burned_def after_command_def)
  then have "try_acquire (lock_key_prefix key) key owner ?ttl t r = (Inr ?l, ?r1)"
    using assms(2,3,4,6)
    by (auto simp: try_acquire_def set_nx_def redis_setnx_def live_def burned_def after_command_def)
  then have "acquire others deadline owner key cfg t r = (Inr ?l, t, ?r1)"
    using acquire_loop_first [OF cfg(2), of key owner t r] cfg(1) by (simp add: acquire_def Let_def)
  then have res: "res = Inr ?l" "t' = t" "r1 = ?r1" using assms(9) by simp_all
  moreover have "live (lock_key_prefix key) t2 ?r1 = Some ?v" using assms(8) by (simp add: live_def alive_def)
  moreover have "(rd_keys (burned key 1 r))(lock_key_prefix key := None) = rd_keys (burned key 1 r)"
    using assms(2,4) by (auto simp: burned_def)
  ultimately show ?thesis using assms(3)
    by (simp add: holder_def release_def ownership_def after_command_def) (simp add: burned_def)
qed

theorem lock_roundtrip_witness:
  "\<exists>l. fst (acquire (\<lambda>_ _ r. r) None ''w'' ''a'' default_lock_config 0 idle_lock_redis) = Inr l \<and> lk_token l = 1"
proof -
  obtain res t' r' where a: "acquire (\<lambda>_ _ r. r) None ''w'' ''a'' default_lock_config 0 idle_lock_redis = (res, t', r')"
    by (metis prod.exhaust)
  show ?thesis
    using lock_roundtrip [OF idle_counting _ _ _ _ _ _ _ a, of second] a
    by (auto simp: plain_key_def idle_lock_redis_def counter_def default_lock_config_def sent_ttl_def second_def millisecond_def)
qed

end
