(* ===== verification/GoFmt.thy ===== *)
theory GoFmt
  imports Float64 Prelude
begin

text \<open>
  The standard library's text forms the code uses: \<^verbatim>\<open>strconv.Itoa\<close>, \<^verbatim>\<open>%.2f\<close> of \<^verbatim>\<open>fmt\<close>, and decoded JSON
  objects. A string is the list of its bytes.
\<close>

fun digits :: "nat \<Rightarrow> string" where
  "digits n = (if n < 10 then [char_of (48 + n)] else digits (n div 10) @ [char_of (48 + n mod 10)])"

definition itoa :: "int \<Rightarrow> string" where
  "itoa i = (if i < 0 then CHR ''-'' # digits (nat (- i)) else digits (nat i))"

text \<open>\<^verbatim>\<open>strings.Split\<close> at a byte, and \<^verbatim>\<open>strings.Join\<close>.\<close>

fun split_on :: "char \<Rightarrow> string \<Rightarrow> string list" where
  "split_on c [] = [[]]"
| "split_on c (x # xs) = (if x = c then [] # split_on c xs else
     (case split_on c xs of [] \<Rightarrow> [[x]] | y # ys \<Rightarrow> (x # y) # ys))"

fun join_with :: "char \<Rightarrow> string list \<Rightarrow> string" where
  "join_with c [] = []"
| "join_with c [s] = s"
| "join_with c (s # ss) = s @ c # join_with c ss"

text \<open>\<^verbatim>\<open>%.2f\<close>: the exact value rounded to hundredths, halves to even.\<close>

definition fmt_cents :: "float64 \<Rightarrow> string" where
  "fmt_cents x = (let c = round_even (100 * \<bar>x\<bar>); n = nat c in
     (if x < 0 then ''-'' else '''') @ digits (n div 100) @ ''.'' @ [char_of (48 + n div 10 mod 10), char_of (48 + n mod 10)])"

text \<open>
  A JSON value as far as a flat struct is decoded from it. Decoding into a field leaves it zero when the
  key is missing or null and fails on a value of another type. Keys are matched exactly.
\<close>

datatype json = JNull | JString string | JNumber float64 | JBool bool | JOther

type_synonym json_object = "(string \<times> json) list"

text \<open>The last value of a repeated key counts.\<close>

definition json_field :: "string \<Rightarrow> json_object \<Rightarrow> json" where
  "json_field k obj = (case map_of (rev obj) k of None \<Rightarrow> JNull | Some v \<Rightarrow> v)"

definition field_string :: "string \<Rightarrow> json_object \<Rightarrow> string option" where
  "field_string k obj = (case json_field k obj of JNull \<Rightarrow> Some '''' | JString s \<Rightarrow> Some s | _ \<Rightarrow> None)"

definition field_number :: "string \<Rightarrow> json_object \<Rightarrow> float64 option" where
  "field_number k obj = (case json_field k obj of JNull \<Rightarrow> Some 0 | JNumber x \<Rightarrow> Some x | _ \<Rightarrow> None)"

text \<open>A \<^verbatim>\<open>time.Time\<close> is a string in RFC 3339 form; the zero time is \<open>None\<close>.\<close>

definition field_time :: "(string \<Rightarrow> time option) \<Rightarrow> string \<Rightarrow> json_object \<Rightarrow> time option option" where
  "field_time rfc3339 k obj = (case json_field k obj of JNull \<Rightarrow> Some None
     | JString s \<Rightarrow> map_option Some (rfc3339 s) | _ \<Rightarrow> None)"

end
