(* ===== verification/KafkaBus.thy ===== *)
theory KafkaBus
  imports Redis GoFmt
begin

text \<open>
  The Kafka producer and the idempotent consumer of \<^verbatim>\<open>pkg/kafka\<close>: message and headers (\<^verbatim>\<open>message.go\<close>),
  publishing (\<^verbatim>\<open>producer.go\<close>), the store of processed events (\<^verbatim>\<open>dedup.go\<close>) and the handling of one message
  with its retries, dead letter queue and acknowledgement (\<^verbatim>\<open>consumer.go\<close>).

  \<^verbatim>\<open>sarama\<close> is not modelled beyond what is relied on: a synchronous send succeeds or fails by a fault
  script and appends to the topic when it succeeds, and marking a message records its offset. A Go map is ranged over
  in an unspecified order, so the order is an argument. The message handler is an argument too: it
  takes the time at which it is called and the state it works on, and returns its error, the time at
  which it returns and the new state. Log lines and metrics are left out.
\<close>

subsection \<open>Messages\<close>

text \<open>The zero \<^verbatim>\<open>time.Time\<close> is \<open>None\<close>.\<close>

record kmessage =
  km_event_id :: string
  km_correlation_id :: string
  km_topic :: string
  km_key :: string
  km_payload :: string
  km_headers :: "string \<Rightarrow> string option"
  km_timestamp :: "time option"

definition header_event_id :: string where "header_event_id = ''X-Event-ID''"
definition header_correlation_id :: string where "header_correlation_id = ''X-Correlation-ID''"

record produced =
  pm_topic :: string
  pm_key :: string
  pm_value :: string
  pm_headers :: "(string \<times> string) list"
  pm_timestamp :: "time option"

text \<open>What \<^verbatim>\<open>sarama\<close> hands to a consumer; a header pointer may be nil.\<close>

record consumed =
  cm_topic :: string
  cm_key :: string
  cm_value :: string
  cm_headers :: "(string \<times> string) option list"
  cm_timestamp :: "time option"
  cm_partition :: int
  cm_offset :: int

subsection \<open>Publishing\<close>

record broker =
  br_log :: "produced list"
  br_faults :: "bool list"

definition send_message :: "produced \<Rightarrow> broker \<Rightarrow> bool \<times> broker" where
  "send_message p b = (case br_faults b of
     True # fs \<Rightarrow> (False, b\<lparr>br_faults := fs\<rparr>)
   | fs \<Rightarrow> (True, b\<lparr>br_faults := tl fs, br_log := br_log b @ [p]\<rparr>))"

definition build_headers :: "(string \<times> string) list \<Rightarrow> kmessage \<Rightarrow> (string \<times> string) list" where
  "build_headers ranged m =
     (header_event_id, km_event_id m) #
     (if km_correlation_id m \<noteq> '''' then [(header_correlation_id, km_correlation_id m)] else []) @ ranged"

text \<open>The message is a pointer: its event id and timestamp stay set. The result says whether the send succeeded.\<close>

definition publish ::
  "string \<Rightarrow> uuid \<Rightarrow> time \<Rightarrow> (string \<times> string) list \<Rightarrow> kmessage \<Rightarrow> broker \<Rightarrow> bool \<times> kmessage \<times> broker" where
  "publish default_topic fresh now ranged m b =
     (let m1 = (if km_event_id m = '''' then m\<lparr>km_event_id := fresh\<rparr> else m);
          m2 = (if km_timestamp m1 = None then m1\<lparr>km_timestamp := Some now\<rparr> else m1);
          topic = (if km_topic m2 = '''' then default_topic else km_topic m2);
          p = \<lparr>pm_topic = topic, pm_key = km_key m2, pm_value = km_payload m2,
                pm_headers = build_headers ranged m2, pm_timestamp = km_timestamp m2\<rparr>;
          (ok, b') = send_message p b
      in (ok, m2, b'))"

subsection \<open>The store of processed events\<close>

type_synonym dedup_redis = "string redis"

record dedup_store =
  dd_group :: string
  dd_ttl :: duration

definition new_dedup_store :: "string \<Rightarrow> duration \<Rightarrow> dedup_store" where
  "new_dedup_store grp ttl = \<lparr>dd_group = grp, dd_ttl = (if ttl = 0 then 7 * 24 * hour else ttl)\<rparr>"

definition dedup_key :: "dedup_store \<Rightarrow> string \<Rightarrow> string" where
  "dedup_key d e = ''processed:'' @ dd_group d @ '':'' @ e"

text \<open>\<^verbatim>\<open>EXISTS\<close>; an error of the store counts as not seen.\<close>

definition is_duplicate :: "dedup_store \<Rightarrow> time \<Rightarrow> string \<Rightarrow> dedup_redis \<Rightarrow> bool \<times> dedup_redis" where
  "is_duplicate d t e r = (if redis_fails r then (False, after_command r)
     else (live (dedup_key d e) t r \<noteq> None, after_command r))"

definition mark_processed :: "dedup_store \<Rightarrow> time \<Rightarrow> string \<Rightarrow> dedup_redis \<Rightarrow> dedup_redis" where
  "mark_processed d t e r = snd (redis_set (dedup_key d e) ''1'' (dd_ttl d) t r)"

subsection \<open>The consumer\<close>

record consumer_config =
  cc_retries :: int
  cc_backoff :: "duration list"
  cc_dlq_topic :: string
  cc_ttl :: duration

definition consumer_defaults :: "consumer_config \<Rightarrow> consumer_config" where
  "consumer_defaults cfg =
     cfg\<lparr>cc_retries := (if cc_retries cfg = 0 then 3 else cc_retries cfg),
         cc_backoff := (if cc_backoff cfg = [] then [1 * second, 2 * second, 4 * second] else cc_backoff cfg),
         cc_ttl := (if cc_ttl cfg = 0 then 7 * 24 * hour else cc_ttl cfg)\<rparr>"

text \<open>The state a consumer works on: the store of processed events, the dead letter topic, the offsets it has acknowledged and the handler's own state.\<close>

record 'w bus =
  bus_redis :: dedup_redis
  bus_dlq :: broker
  bus_marked :: "(int \<times> int) list"
  bus_world :: 'w

type_synonym 'w handler = "time \<Rightarrow> kmessage \<Rightarrow> 'w \<Rightarrow> string option \<times> time \<times> 'w"

fun parse_headers :: "(string \<times> string) option list \<Rightarrow> kmessage \<Rightarrow> kmessage" where
  "parse_headers [] m = m"
| "parse_headers (None # hs) m = parse_headers hs m"
| "parse_headers (Some (k, v) # hs) m = parse_headers hs
     (if k = header_event_id then m\<lparr>km_event_id := v\<rparr>
      else if k = header_correlation_id then m\<lparr>km_correlation_id := v\<rparr>
      else m\<lparr>km_headers := (km_headers m)(k \<mapsto> v)\<rparr>)"

definition parse_message :: "consumed \<Rightarrow> kmessage" where
  "parse_message c = parse_headers (cm_headers c)
     \<lparr>km_event_id = '''', km_correlation_id = '''', km_topic = cm_topic c, km_key = cm_key c,
      km_payload = cm_value c, km_headers = (\<lambda>_. None), km_timestamp = cm_timestamp c\<rparr>"

text \<open>The delay before an attempt: the last entry of the table serves the attempts beyond it. \<open>NewConsumer\<close> never leaves the table empty.\<close>

definition backoff_delay :: "consumer_config \<Rightarrow> int \<Rightarrow> duration" where
  "backoff_delay cfg attempt = (let i = attempt - 1; n = int (length (cc_backoff cfg)) in
     cc_backoff cfg ! nat (if n \<le> i then n - 1 else i))"

definition cancelled :: "time option \<Rightarrow> time \<Rightarrow> bool" where
  "cancelled deadline t = (case deadline of None \<Rightarrow> False | Some d \<Rightarrow> d \<le> t)"

text \<open>
  The retry loop. It ends without a result when the session is cancelled during a wait; otherwise with
  the last error of the handler, \<open>None\<close> for success. The session's deadline wins a tie with the timer.
\<close>

function attempts ::
  "consumer_config \<Rightarrow> 'w handler \<Rightarrow> time option \<Rightarrow> kmessage \<Rightarrow> int \<Rightarrow> string option \<Rightarrow> time \<Rightarrow> 'w \<Rightarrow>
   string option option \<times> time \<times> 'w" where
  "attempts cfg h deadline m attempt last_err t w =
     (if cc_retries cfg < attempt then (Some last_err, t, w)
      else let t1 = (if 0 < attempt then t + backoff_delay cfg attempt else t) in
        if 0 < attempt \<and> cancelled deadline t1 then (None, t1, w)
        else case h t1 m w of
            (None, t2, w2) \<Rightarrow> (Some None, t2, w2)
          | (Some e, t2, w2) \<Rightarrow> attempts cfg h deadline m (attempt + 1) (Some e) t2 w2)"
  by pat_completeness auto

termination
  by (relation "measure (\<lambda>(cfg, h, deadline, m, attempt, last_err, t, w). nat (cc_retries cfg + 1 - attempt))") auto

text \<open>The dead letter topic has a producer exactly when it is configured. The result is the broker after the send, successful or not.\<close>

definition dlq_message :: "consumer_config \<Rightarrow> consumed \<Rightarrow> string \<Rightarrow> produced" where
  "dlq_message cfg c err =
     \<lparr>pm_topic = cc_dlq_topic cfg, pm_key = cm_key c, pm_value = cm_value c,
      pm_headers = [(''X-Original-Topic'', cm_topic c), (''X-Original-Partition'', itoa (cm_partition c)),
        (''X-Original-Offset'', itoa (cm_offset c)), (''X-Error-Message'', err), (''X-Retry-Count'', itoa (cc_retries cfg))]
        @ concat (map (\<lambda>h. case h of None \<Rightarrow> [] | Some kv \<Rightarrow> [kv]) (cm_headers c)),
      pm_timestamp = None\<rparr>"

definition send_to_dlq :: "consumer_config \<Rightarrow> consumed \<Rightarrow> string \<Rightarrow> broker \<Rightarrow> broker" where
  "send_to_dlq cfg c err b =
     (if cc_dlq_topic cfg = '''' then b else snd (send_message (dlq_message cfg c err) b))"

definition mark_message :: "consumed \<Rightarrow> 'w bus \<Rightarrow> 'w bus" where
  "mark_message c s = s\<lparr>bus_marked := bus_marked s @ [(cm_partition c, cm_offset c)]\<rparr>"

text \<open>\<open>None\<close> for the store is a consumer without one.\<close>

definition seen :: "dedup_store option \<Rightarrow> time \<Rightarrow> kmessage \<Rightarrow> 'w bus \<Rightarrow> bool \<times> 'w bus" where
  "seen dedup t m s = (case dedup of
     Some d \<Rightarrow> if km_event_id m \<noteq> ''''
       then let (dup, r) = is_duplicate d t (km_event_id m) (bus_redis s) in (dup, s\<lparr>bus_redis := r\<rparr>)
       else (False, s)
   | None \<Rightarrow> (False, s))"

definition settle_message ::
  "consumer_config \<Rightarrow> dedup_store option \<Rightarrow> consumed \<Rightarrow> kmessage \<Rightarrow> string option \<Rightarrow> time \<Rightarrow> 'w bus \<Rightarrow> 'w bus" where
  "settle_message cfg dedup c m last_err t s = (case last_err of
     Some e \<Rightarrow> s\<lparr>bus_dlq := send_to_dlq cfg c e (bus_dlq s)\<rparr>
   | None \<Rightarrow> (case dedup of
        Some d \<Rightarrow> if km_event_id m \<noteq> ''''
          then s\<lparr>bus_redis := mark_processed d t (km_event_id m) (bus_redis s)\<rparr> else s
      | None \<Rightarrow> s))"

definition process_message ::
  "consumer_config \<Rightarrow> dedup_store option \<Rightarrow> 'w handler \<Rightarrow> time option \<Rightarrow> time \<Rightarrow> consumed \<Rightarrow> 'w bus \<Rightarrow> time \<times> 'w bus" where
  "process_message cfg dedup h deadline t c s =
     (let m = parse_message c; (dup, s1) = seen dedup t m s in
      if dup then (t, mark_message c s1)
      else case attempts cfg h deadline m 0 None t (bus_world s1) of
          (None, t', w) \<Rightarrow> (t', s1\<lparr>bus_world := w\<rparr>)
        | (Some last_err, t', w) \<Rightarrow>
            (t', mark_message c (settle_message cfg dedup c m last_err t' (s1\<lparr>bus_world := w\<rparr>))))"

text \<open>\<^verbatim>\<open>ConsumeClaim\<close>: the messages one after the other, each with the time that passes before it arrives.\<close>

fun consume_claim ::
  "consumer_config \<Rightarrow> dedup_store option \<Rightarrow> 'w handler \<Rightarrow> time option \<Rightarrow> (duration \<times> consumed) list \<Rightarrow>
   time \<times> 'w bus \<Rightarrow> time \<times> 'w bus" where
  "consume_claim cfg dedup h deadline [] ts = ts"
| "consume_claim cfg dedup h deadline ((gap, c) # cs) (t, s) =
     consume_claim cfg dedup h deadline cs (process_message cfg dedup h deadline (t + gap) c s)"

subsection \<open>Properties\<close>

lemma parse_headers_append: "parse_headers (xs @ ys) m = parse_headers ys (parse_headers xs m)"
  by (induction xs m rule: parse_headers.induct) simp_all

lemma parse_custom:
  assumes "\<forall>(k, v) \<in> set hs. k \<noteq> header_event_id \<and> k \<noteq> header_correlation_id" and "distinct (map fst hs)"
  shows "parse_headers (map Some hs) m = m\<lparr>km_headers := km_headers m ++ map_of hs\<rparr>"
  using assms
proof (induction hs arbitrary: m)
  case (Cons h hs)
  obtain k v where h: "h = (k, v)" by fastforce
  have "map_of hs k = None" using Cons.prems(2) h by (simp add: map_of_eq_None_iff)
  then have B: "(km_headers m)(k \<mapsto> v) ++ map_of hs = km_headers m ++ map_of (h # hs)"
    using h by (auto simp: map_add_def fun_eq_iff split: option.splits)
  have A: "parse_headers (map Some (h # hs)) m = m\<lparr>km_headers := (km_headers m)(k \<mapsto> v) ++ map_of hs\<rparr>"
    using Cons.IH [of "m\<lparr>km_headers := (km_headers m)(k \<mapsto> v)\<rparr>"] Cons.prems h by (simp add: fun_upd_def)
  show ?case unfolding A B ..
qed simp



end
