(* ===== verification/KafkaSpec.thy ===== *)
theory KafkaSpec
  imports KafkaBus
begin

text \<open>
  What the consumer promises for one message (how often the handler runs, when the message is
  acknowledged, when it goes to the dead letter topic) and for a partition: as long as the store of processed
  events answers, the handler succeeds at most once per event id, however often the event is delivered.
\<close>

subsection \<open>Watching the handler\<close>

text \<open>A handler whose runs are logged, with the event id and whether the run succeeded.\<close>

definition logged :: "'w handler \<Rightarrow> ('w \<times> (string \<times> bool) list) handler" where
  "logged h t m ws = (case ws of (w, lg) \<Rightarrow> case h t m w of
     (e, t', w') \<Rightarrow> (e, t', w', lg @ [(km_event_id m, e = None)]))"

definition log_of :: "('w \<times> (string \<times> bool) list) bus \<Rightarrow> (string \<times> bool) list" where
  "log_of s = snd (bus_world s)"

declare attempts.simps [simp del]

text \<open>The runs of one message: failures, then at most one success.\<close>

lemma attempts_runs:
  assumes "attempts cfg (logged h) deadline m a le t (w, lg) = (res, t', w', lg')"
    and "n = nat (cc_retries cfg + 1 - a)"
  shows "\<exists>k. k \<le> n \<and> (case res of
      Some None \<Rightarrow> if n = 0 then le = None \<and> lg' = lg
        else k < n \<and> lg' = lg @ map (Pair (km_event_id m)) (replicate k False @ [True])
    | Some (Some e) \<Rightarrow> k = n \<and> lg' = lg @ map (Pair (km_event_id m)) (replicate n False) \<and> (n = 0 \<longrightarrow> le = Some e)
    | None \<Rightarrow> deadline \<noteq> None \<and> lg' = lg @ map (Pair (km_event_id m)) (replicate k False))"
  using assms
proof (induction n arbitrary: a le t w lg)
  case 0
  then have "res = Some le" "lg' = lg"
    by (auto simp: attempts.simps [of cfg "logged h" deadline m a])
  then show ?case by (auto split: option.splits)
next
  case (Suc n)
  have more: "\<not> cc_retries cfg < a" "n = nat (cc_retries cfg + 1 - (a + 1))" using Suc.prems(2) by auto
  let ?t1 = "if 0 < a then t + backoff_delay cfg a else t"
  show ?case
  proof (cases "0 < a \<and> cancelled deadline ?t1")
    case True
    then have "res = None" "lg' = lg" "deadline \<noteq> None"
      using Suc.prems(1) more by (auto simp: attempts.simps [of cfg "logged h" deadline m a] Let_def cancelled_def split: if_splits option.splits)
    then show ?thesis by (auto intro!: exI [of _ 0])
  next
    case False
    obtain e t2 w2 where h: "h ?t1 m w = (e, t2, w2)" by (metis prod.exhaust)
    note run = Suc.prems(1) [unfolded attempts.simps [of cfg "logged h" deadline m a] Let_def]
    show ?thesis
    proof (cases e)
      case None
      then have "res = Some None" "lg' = lg @ [(km_event_id m, True)]"
        using run more h False by (auto simp: logged_def)
      then show ?thesis by (auto intro!: exI [of _ 0])
    next
      case (Some x)
      then have "attempts cfg (logged h) deadline m (a + 1) (Some x) t2 (w2, lg @ [(km_event_id m, False)]) = (res, t', w', lg')"
        using run more h False by (auto simp: logged_def)
      from Suc.IH [OF this more(2)] obtain k where k: "k \<le> n" "case res of
          Some None \<Rightarrow> if n = 0 then Some x = None \<and> lg' = lg @ [(km_event_id m, False)]
            else k < n \<and> lg' = (lg @ [(km_event_id m, False)]) @ map (Pair (km_event_id m)) (replicate k False @ [True])
        | Some (Some e) \<Rightarrow> k = n \<and> lg' = (lg @ [(km_event_id m, False)]) @ map (Pair (km_event_id m)) (replicate n False) \<and> (n = 0 \<longrightarrow> Some x = Some e)
        | None \<Rightarrow> deadline \<noteq> None \<and> lg' = (lg @ [(km_event_id m, False)]) @ map (Pair (km_event_id m)) (replicate k False)" by auto
      then show ?thesis by (intro exI [of _ "Suc k"]) (auto split: option.splits if_splits)
    qed
  qed
qed

lemma attempts_result:
  assumes "attempts cfg (logged h) deadline m 0 None t (w, lg) = (res, t', w', lg')" and "0 \<le> cc_retries cfg"
  obtains (succeeded) k where "res = Some None" and "k \<le> nat (cc_retries cfg)"
      and "lg' = lg @ map (Pair (km_event_id m)) (replicate k False @ [True])"
  | (exhausted) e where "res = Some (Some e)" and "lg' = lg @ map (Pair (km_event_id m)) (replicate (nat (cc_retries cfg) + 1) False)"
  | (stopped) k where "res = None" and "deadline \<noteq> None" and "k \<le> nat (cc_retries cfg) + 1"
      and "lg' = lg @ map (Pair (km_event_id m)) (replicate k False)"
proof -
  have n: "nat (cc_retries cfg + 1 - 0) = nat (cc_retries cfg) + 1" using assms(2) by simp
  note runs = attempts_runs [OF assms(1) refl, unfolded n]
  show ?thesis
  proof (cases res)
    case None
    with runs show ?thesis by (auto intro: stopped)
  next
    case (Some x)
    show ?thesis
    proof (cases x)
      case None
      with Some runs show ?thesis by (auto simp: less_Suc_eq_le intro: succeeded)
    next
      case (Some e)
      with \<open>res = Some x\<close> runs show ?thesis by (intro exhausted) auto
    qed
  qed
qed

subsection \<open>One message\<close>

lemma settle_frame [simp]:
  "bus_world (settle_message cfg dedup c m e t s) = bus_world s"
  "bus_marked (settle_message cfg dedup c m e t s) = bus_marked s"
  "bus_dlq (settle_message cfg dedup c m e t s) = (case e of None \<Rightarrow> bus_dlq s | Some x \<Rightarrow> send_to_dlq cfg c x (bus_dlq s))"
  by (auto simp: settle_message_def split: option.splits)

lemma mark_frame [simp]:
  "bus_world (mark_message c s) = bus_world s" "bus_redis (mark_message c s) = bus_redis s" "bus_dlq (mark_message c s) = bus_dlq s"
  "bus_marked (mark_message c s) = bus_marked s @ [(cm_partition c, cm_offset c)]"
  by (simp_all add: mark_message_def)

lemma seen_frame:
  assumes "seen dedup t m s = (dup, s1)"
  shows "bus_world s1 = bus_world s \<and> bus_marked s1 = bus_marked s \<and> bus_dlq s1 = bus_dlq s"
  using assms by (auto simp: seen_def Let_def split: option.splits prod.splits if_splits)

text \<open>One message. The handler runs at most once more than the configured retries, and not at all for an
  event already seen; only its last run can succeed. The message is acknowledged unless the session was cancelled
  before a run succeeded. If it is acknowledged although every run failed, all runs have been used and
  it was sent to the dead letter topic.\<close>

theorem message_outcome:
  assumes "process_message cfg dedup (logged h) deadline t c s = (t', s')" and "0 \<le> cc_retries cfg"
  shows "\<exists>runs. log_of s' = log_of s @ map (Pair (km_event_id (parse_message c))) runs \<and>
    length runs \<le> nat (cc_retries cfg) + 1 \<and> True \<notin> set (butlast runs) \<and>
    (if fst (seen dedup t (parse_message c) s)
     then runs = [] \<and> bus_marked s' = bus_marked s @ [(cm_partition c, cm_offset c)] \<and> bus_dlq s' = bus_dlq s
     else if True \<in> set runs
     then bus_marked s' = bus_marked s @ [(cm_partition c, cm_offset c)] \<and> bus_dlq s' = bus_dlq s
     else (deadline \<noteq> None \<and> bus_marked s' = bus_marked s \<and> bus_dlq s' = bus_dlq s) \<or>
       (length runs = nat (cc_retries cfg) + 1 \<and> bus_marked s' = bus_marked s @ [(cm_partition c, cm_offset c)] \<and>
        (\<exists>e. bus_dlq s' = send_to_dlq cfg c e (bus_dlq s))))"
proof -
  let ?m = "parse_message c"
  obtain dup s1 where sn: "seen dedup t ?m s = (dup, s1)" by fastforce
  note fr = seen_frame [OF sn]
  show ?thesis
  proof (cases dup)
    case True
    with assms(1) sn fr show ?thesis by (auto simp: process_message_def log_of_def)
  next
    case False
    obtain w lg where w: "bus_world s = (w, lg)" by fastforce
    obtain res t2 w2 lg2 where a: "attempts cfg (logged h) deadline ?m 0 None t (w, lg) = (res, t2, w2, lg2)"
      by (metis prod.exhaust)
    have run: "(t', s') = (case res of None \<Rightarrow> (t2, s1\<lparr>bus_world := (w2, lg2)\<rparr>)
      | Some le \<Rightarrow> (t2, mark_message c (settle_message cfg dedup c ?m le t2 (s1\<lparr>bus_world := (w2, lg2)\<rparr>))))"
      using assms(1) sn fr False w a by (cases res) (auto simp: process_message_def)
    from a assms(2) show ?thesis
    proof (cases rule: attempts_result)
      case (succeeded k)
      then show ?thesis using run sn fr False w
        by (intro exI [of _ "replicate k False @ [True]"]) (simp add: log_of_def butlast_append)
    next
      case (exhausted e)
      then show ?thesis using run sn fr False w
        by (intro exI [of _ "replicate (nat (cc_retries cfg) + 1) False"])
          (auto simp: log_of_def dest: in_set_butlastD)
    next
      case (stopped k)
      then show ?thesis using run sn fr False w
        by (intro exI [of _ "replicate k False"]) (auto simp: log_of_def dest: in_set_butlastD)
    qed
  qed
qed

definition demo_consumer :: consumer_config where
  "demo_consumer = \<lparr>cc_retries = 3, cc_backoff = [second, 2 * second, 4 * second], cc_dlq_topic = ''dlq'', cc_ttl = 0\<rparr>"

definition demo_message :: "string \<Rightarrow> int \<Rightarrow> consumed" where
  "demo_message e off = \<lparr>cm_topic = ''bids'', cm_key = ''k'', cm_value = ''v'', cm_headers = [Some (''X-Event-ID'', e)],
     cm_timestamp = None, cm_partition = 0, cm_offset = off\<rparr>"

definition demo_dedup :: dedup_store where
  "demo_dedup = new_dedup_store ''g'' 0"

text \<open>A handler that fails its first \<open>n\<close> runs.\<close>

definition flaky :: "nat handler" where
  "flaky t m w = (case w of 0 \<Rightarrow> (None, t, 0) | Suc n \<Rightarrow> (Some ''boom'', t, n))"

definition demo_bus :: "nat \<Rightarrow> (nat \<times> (string \<times> bool) list) bus" where
  "demo_bus n = \<lparr>bus_redis = \<lparr>rd_keys = (\<lambda>_. None), rd_faults = []\<rparr>, bus_dlq = \<lparr>br_log = [], br_faults = []\<rparr>,
     bus_marked = [], bus_world = (n, [])\<rparr>"

theorem message_outcome_witness:
  "\<exists>runs. log_of (snd (process_message demo_consumer (Some demo_dedup) (logged flaky) None 0 (demo_message ''e1'' 5) (demo_bus 2)))
     = map (Pair ''e1'') runs \<and> length runs \<le> 4"
proof -
  have id: "km_event_id (parse_message (demo_message ''e1'' 5)) = ''e1''"
    by (simp add: parse_message_def demo_message_def header_event_id_def)
  obtain t' s' where p: "process_message demo_consumer (Some demo_dedup) (logged flaky) None 0 (demo_message ''e1'' 5) (demo_bus 2) = (t', s')"
    by fastforce
  show ?thesis using message_outcome [OF p] p id by (auto simp: demo_consumer_def demo_bus_def log_of_def)
qed

subsection \<open>Redeliveries\<close>

definition successes :: "string \<Rightarrow> (string \<times> bool) list \<Rightarrow> nat" where
  "successes e lg = length (filter (\<lambda>x. x = (e, True)) lg)"

lemma successes_simps [simp]:
  "successes e [] = 0" "successes e (xs @ ys) = successes e xs + successes e ys"
  "successes e (replicate k (i, False)) = 0"
  "successes e (x # xs) = (if x = (e, True) then 1 else 0) + successes e xs"
  by (simp_all add: successes_def)

text \<open>Every event whose handling succeeded is in the store and stays there until the horizon.\<close>

definition remembered :: "dedup_store \<Rightarrow> time \<Rightarrow> ('w \<times> (string \<times> bool) list) bus \<Rightarrow> bool" where
  "remembered d horizon s \<longleftrightarrow> rd_faults (bus_redis s) = [] \<and> (\<forall>e. e \<noteq> '''' \<longrightarrow> successes e (log_of s) \<le> 1 \<and>
     (successes e (log_of s) = 1 \<longrightarrow> (\<exists>v x. rd_keys (bus_redis s) (dedup_key d e) = Some (v, Some x) \<and> horizon \<le> x)))"

lemma dedup_key_inj [simp]: "dedup_key d e = dedup_key d e' \<longleftrightarrow> e = e'"
  by (simp add: dedup_key_def)

lemma remembered_seen:
  assumes "remembered d horizon s" and "t < horizon" and "km_event_id m = e" and "e \<noteq> ''''"
    and "seen (Some d) t m s = (dup, s1)"
  shows "bus_redis s1 = bus_redis s" and "successes e (log_of s) = 1 \<Longrightarrow> dup"
proof -
  have nf: "rd_faults (bus_redis s) = []" using assms(1) by (simp add: remembered_def)
  then have after: "after_command (bus_redis s) = bus_redis s" by (simp add: after_command_def)
  with nf assms(3-5) show "bus_redis s1 = bus_redis s" by (auto simp: seen_def is_duplicate_def Let_def)
  assume "successes e (log_of s) = 1"
  then obtain v x where "rd_keys (bus_redis s) (dedup_key d e) = Some (v, Some x)" "horizon \<le> x"
    using assms(1,4) by (auto simp: remembered_def)
  then have "live (dedup_key d e) t (bus_redis s) \<noteq> None" using assms(2) by (simp add: live_def alive_def)
  with nf assms(3-5) show dup by (auto simp: seen_def is_duplicate_def Let_def)
qed

lemma process_remembers:
  assumes "remembered d horizon s" and "process_message cfg (Some d) (logged h) deadline t c s = (t', s')"
    and "0 \<le> cc_retries cfg" and "t < horizon" and "horizon \<le> t' + dd_ttl d"
  shows "remembered d horizon s'"
proof -
  let ?m = "parse_message c"
  let ?e = "km_event_id ?m"
  obtain dup s1 where sn: "seen (Some d) t ?m s = (dup, s1)" by fastforce
  note fr = seen_frame [OF sn]
  have nf: "rd_faults (bus_redis s) = []" using assms(1) by (simp add: remembered_def)
  have red: "bus_redis s1 = bus_redis s"
    using sn nf by (auto simp: seen_def is_duplicate_def Let_def after_command_def split: if_splits)
  show ?thesis
  proof (cases dup)
    case True
    with assms(2) sn have "s' = mark_message c s1" by (auto simp: process_message_def)
    with assms(1) red fr show ?thesis by (simp add: remembered_def log_of_def)
  next
    case False
    obtain w lg where w: "bus_world s = (w, lg)" by fastforce
    obtain res t2 w2 lg2 where a: "attempts cfg (logged h) deadline ?m 0 None t (w, lg) = (res, t2, w2, lg2)"
      by (metis prod.exhaust)
    have run: "(t', s') = (case res of None \<Rightarrow> (t2, s1\<lparr>bus_world := (w2, lg2)\<rparr>)
      | Some le \<Rightarrow> (t2, mark_message c (settle_message cfg (Some d) c ?m le t2 (s1\<lparr>bus_world := (w2, lg2)\<rparr>))))"
      using assms(2) sn fr False w a by (cases res) (auto simp: process_message_def)
    from a assms(3) show ?thesis
    proof (cases rule: attempts_result)
      case (succeeded k)
      have s': "log_of s' = lg2" "t2 = t'" using run succeeded by (simp_all add: log_of_def)
      have keys: "bus_redis s' = (if ?e = '''' then bus_redis s
          else (bus_redis s)\<lparr>rd_keys := (rd_keys (bus_redis s))(dedup_key d ?e \<mapsto> (''1'', Some (t' + dd_ttl d)))\<rparr>)"
        using run succeeded red nf by (simp add: settle_message_def mark_processed_def redis_set_def after_command_def)
      have fresh: "?e \<noteq> '''' \<Longrightarrow> successes ?e lg = 0"
        using remembered_seen(2) [OF assms(1,4) refl _ sn] assms(1) False w
        by (fastforce simp: remembered_def log_of_def le_Suc_eq)
      show ?thesis
        using assms(1,5) fresh w unfolding remembered_def s' keys succeeded
        by (auto simp: log_of_def)
    next
      case (exhausted e)
      then have "log_of s' = lg2" "bus_redis s' = bus_redis s"
        using run red by (simp_all add: log_of_def settle_message_def)
      then show ?thesis using assms(1) exhausted w by (simp add: remembered_def log_of_def del: replicate.simps)
    next
      case (stopped k)
      then have "log_of s' = lg2" "bus_redis s' = bus_redis s" using run red by (simp_all add: log_of_def)
      then show ?thesis using assms(1) stopped w by (simp add: remembered_def log_of_def)
    qed
  qed
qed

lemma backoff_nonneg:
  assumes "cc_backoff cfg \<noteq> []" and "\<forall>d \<in> set (cc_backoff cfg). 0 \<le> d" and "0 < a"
  shows "0 \<le> backoff_delay cfg a"
proof -
  have "nat (if int (length (cc_backoff cfg)) \<le> a - 1 then int (length (cc_backoff cfg)) - 1 else a - 1) < length (cc_backoff cfg)"
    using assms(1,3) by (cases "cc_backoff cfg") auto
  with assms(2) show ?thesis by (simp add: backoff_delay_def Let_def)
qed

lemma attempts_time:
  assumes "attempts cfg h deadline m a le t w = (res, t', w')" and "\<And>t m w. t \<le> fst (snd (h t m w))"
    and "cc_backoff cfg \<noteq> []" and "\<forall>d \<in> set (cc_backoff cfg). 0 \<le> d"
  shows "t \<le> t'"
  using assms(1)
proof (induction "nat (cc_retries cfg + 1 - a)" arbitrary: a le t w)
  case 0
  then show ?case by (simp add: attempts.simps [of cfg h deadline m a])
next
  case (Suc n)
  let ?t1 = "if 0 < a then t + backoff_delay cfg a else t"
  have t1: "t \<le> ?t1" using backoff_nonneg [OF assms(3,4)] by simp
  obtain e t2 w2 where h: "h ?t1 m w = (e, t2, w2)" by (metis prod.exhaust)
  have t2: "?t1 \<le> t2" using assms(2) [of ?t1 m w] unfolding h by simp
  have more: "\<not> cc_retries cfg < a" "n = nat (cc_retries cfg + 1 - (a + 1))" using Suc.hyps(2) by auto
  note run = Suc.prems [unfolded attempts.simps [of cfg h deadline m a] Let_def]
  show ?case
  proof (cases "(0 < a \<and> cancelled deadline ?t1) \<or> e = None")
    case True
    with run more(1) h t1 t2 show ?thesis by (auto split: if_splits)
  next
    case False
    then obtain x where "e = Some x" by blast
    then have "attempts cfg h deadline m (a + 1) (Some x) t2 w2 = (res, t', w')" using run more(1) h False by (auto split: if_splits)
    from Suc.hyps(1) [OF more(2) this] t1 t2 show ?thesis by simp
  qed
qed

lemma process_time:
  assumes "process_message cfg dedup h deadline t c s = (t', s')" and "\<And>t m w. t \<le> fst (snd (h t m w))"
    and "cc_backoff cfg \<noteq> []" and "\<forall>d \<in> set (cc_backoff cfg). 0 \<le> d"
  shows "t \<le> t'"
  using assms(1) attempts_time [where a = 0 and t = t, OF _ assms(2-4)]
  by (fastforce simp: process_message_def Let_def split: prod.splits if_splits option.splits)

lemma consume_time:
  assumes "consume_claim cfg dedup h deadline msgs (t, s) = (T, s')" and "\<And>t m w. t \<le> fst (snd (h t m w))"
    and "cc_backoff cfg \<noteq> []" and "\<forall>d \<in> set (cc_backoff cfg). 0 \<le> d" and "\<forall>(gap, c) \<in> set msgs. 0 \<le> gap"
  shows "t \<le> T"
  using assms(1,5)
proof (induction msgs arbitrary: t s)
  case (Cons gc msgs)
  obtain gap c where gc: "gc = (gap, c)" by fastforce
  obtain t1 s1 where p: "process_message cfg dedup h deadline (t + gap) c s = (t1, s1)" by fastforce
  have "t1 \<le> T" by (rule Cons.IH [of t1 s1]) (use Cons.prems gc p in auto)
  with process_time [OF p assms(2-4)] Cons.prems(2) gc show ?case by auto
qed simp

lemma consume_remembers:
  assumes "consume_claim cfg (Some d) (logged h) deadline msgs (t, s) = (T, s')" and "remembered d horizon s"
    and "0 \<le> cc_retries cfg" and "cc_backoff cfg \<noteq> []" and "\<forall>x \<in> set (cc_backoff cfg). 0 \<le> x"
    and "\<And>t m w. t \<le> fst (snd (h t m w))" and "\<forall>(gap, c) \<in> set msgs. 0 \<le> gap"
    and "T < horizon" and "horizon \<le> t + dd_ttl d"
  shows "remembered d horizon s'"
  using assms(1,2,7,9)
proof (induction msgs arbitrary: t s)
  case (Cons gc msgs)
  obtain gap c where gc: "gc = (gap, c)" by fastforce
  obtain t1 s1 where p: "process_message cfg (Some d) (logged h) deadline (t + gap) c s = (t1, s1)" by fastforce
  have forward: "t \<le> fst (snd (logged h t m w))" for t m w
    using assms(6) [of t m "fst w"] by (auto simp: logged_def split: prod.splits)
  have rest: "consume_claim cfg (Some d) (logged h) deadline msgs (t1, s1) = (T, s')" and gaps: "\<forall>(gap, c) \<in> set msgs. 0 \<le> gap" "0 \<le> gap"
    using Cons.prems gc p by auto
  have t1: "t + gap \<le> t1" by (rule process_time [OF p forward assms(4,5)])
  have T: "t1 \<le> T" by (rule consume_time [OF rest forward assms(4,5) gaps(1)])
  have "remembered d horizon s1"
    by (rule process_remembers [OF Cons.prems(2) p assms(3)]) (use Cons.prems(4) t1 T gaps(2) assms(8) in auto)
  then show ?case by (rule Cons.IH [OF rest _ gaps(1)]) (use Cons.prems(4) t1 gaps(2) in simp)
qed simp



text \<open>A message may be acknowledged and lost. When its runs are used up and the send to the dead letter topic
  fails, the message is marked as consumed and is neither processed nor in the dead letter topic.\<close>

theorem dlq_failure_loses:
  "\<exists>s'. process_message demo_consumer (Some demo_dedup) (logged flaky) None 0 (demo_message ''e1'' 5)
       ((demo_bus 9)\<lparr>bus_dlq := \<lparr>br_log = [], br_faults = [True]\<rparr>\<rparr>) = (7 * second, s') \<and>
     bus_marked s' = [(0, 5)] \<and> br_log (bus_dlq s') = [] \<and> successes ''e1'' (log_of s') = 0"
proof -
  have "(let (t, s') = process_message demo_consumer (Some demo_dedup) (logged flaky) None 0 (demo_message ''e1'' 5)
       ((demo_bus 9)\<lparr>bus_dlq := \<lparr>br_log = [], br_faults = [True]\<rparr>\<rparr>) in
     t = 7 * second \<and> bus_marked s' = [(0, 5)] \<and> br_log (bus_dlq s') = [] \<and> successes ''e1'' (log_of s') = 0)"
    by code_simp
  then show ?thesis by (auto simp: Let_def split: prod.splits)
qed

text \<open>A negative number of retries is not defaulted. The loop then makes no run at all, and the message is
  acknowledged and its event remembered as processed although the handler never saw it.\<close>

theorem negative_retries_skip:
  assumes "cc_retries cfg < 0" and "rd_faults (bus_redis s) = []" and "e = km_event_id (parse_message c)" and "e \<noteq> ''''"
    and "live (dedup_key d e) t (bus_redis s) = None" and "0 < dd_ttl d"
    and "process_message (consumer_defaults cfg) (Some d) (logged h) deadline t c s = (t', s')"
  shows "log_of s' = log_of s \<and> live (dedup_key d e) t (bus_redis s') \<noteq> None \<and>
    bus_marked s' = bus_marked s @ [(cm_partition c, cm_offset c)]"
proof -
  have neg: "cc_retries (consumer_defaults cfg) < 0" using assms(1) by (simp add: consumer_defaults_def)
  have "attempts (consumer_defaults cfg) (logged h) deadline m 0 None t w = (Some None, t, w)" for m w
    using neg by (simp add: attempts.simps [of _ _ _ _ 0])
  with assms show ?thesis
    by (auto simp: process_message_def seen_def is_duplicate_def Let_def settle_message_def mark_processed_def redis_set_def
        after_command_def live_def alive_def log_of_def)
qed

theorem negative_retries_skip_witness:
  "log_of (snd (process_message (consumer_defaults (demo_consumer\<lparr>cc_retries := -1\<rparr>)) (Some demo_dedup) (logged flaky) None 0
     (demo_message ''e1'' 5) (demo_bus 0))) = []"
proof -
  obtain t' s' where run: "process_message (consumer_defaults (demo_consumer\<lparr>cc_retries := -1\<rparr>)) (Some demo_dedup) (logged flaky) None 0
     (demo_message ''e1'' 5) (demo_bus 0) = (t', s')" by fastforce
  show ?thesis
    using negative_retries_skip [OF _ _ refl _ _ _ run] run
    by (simp add: demo_bus_def log_of_def demo_dedup_def new_dedup_store_def live_def parse_message_def demo_message_def header_event_id_def)
qed

end

