(* ===== verification/Notification.thy ===== *)
theory Notification
  imports Session Redis GoFmt
begin

text \<open>
  The notification service: its tables and repository (\<^verbatim>\<open>internal/repository\<close>, with the constraints of
  \<^verbatim>\<open>migrations/001_init.sql\<close>), the idempotency keys in Redis (\<^verbatim>\<open>internal/redis\<close>), the handlers of the four events
  (\<^verbatim>\<open>internal/service\<close>), the retried mail (\<^verbatim>\<open>internal/email/retry.go\<close>) and the Kafka consumer with its dead letter
  queue (\<^verbatim>\<open>internal/consumer\<close>, \<^verbatim>\<open>internal/kafka\<close>).

  What a handler hands to the WebSocket hub and to the mail goroutines is collected in lists; the hub has
  a theory of its own. Identifiers are taken to be well-formed UUIDs. A handler that panics (an index out of range)
  ends the process: its result is then \<open>None\<close>.
\<close>

subsection \<open>Rows\<close>

datatype notif_type = TypeBidPlaced | TypeOutbid | TypeAuctionStarted | TypeAuctionEnded | TypeAuctionWon | TypePaymentSuccess

datatype channel = ChannelWebSocket | ChannelEmail | ChannelPush

datatype delivery_status = DeliveryPending | DeliverySent | DeliveryFailed | DeliveryRetrying | DeliveryDeadLetter

record notif =
  nf_id :: uuid
  nf_user :: uuid
  nf_type :: notif_type
  nf_title :: string
  nf_message :: string
  nf_read :: bool
  nf_metadata :: json_object
  nf_event :: string
  nf_created :: time

record delivery =
  dl_id :: uuid
  dl_notification :: uuid
  dl_channel :: channel
  dl_status :: delivery_status
  dl_retries :: int
  dl_max_retries :: int
  dl_last_attempt :: "time option"
  dl_next_retry :: "time option"
  dl_error :: "string option"
  dl_created :: time

record notif_db =
  notifs :: "notif list"
  deliveries :: "delivery list"

subsection \<open>The repository\<close>

text \<open>\<^verbatim>\<open>ON CONFLICT (event_id) DO NOTHING\<close>; the column holds 255 characters. \<^verbatim>\<open>is_read\<close> takes its default.\<close>

definition sql_insert_notif :: "notif \<Rightarrow> notif_db db_update" where
  "sql_insert_notif n d =
     (if 255 < length (nf_event n) then Inl ValueTooLong
      else if nf_event n \<in> nf_event ` set (notifs d) then Inr (d, 0)
      else if nf_id n \<in> nf_id ` set (notifs d) then Inl UniqueViolation
      else Inr (d\<lparr>notifs := notifs d @ [n\<lparr>nf_read := False\<rparr>]\<rparr>, 1))"

definition create_notif :: "notif \<Rightarrow> notif_db session \<Rightarrow> db_error option \<times> notif_db session" where
  "create_notif n s = (case pool_exec (sql_insert_notif n) s of (Inl e, s') \<Rightarrow> (Some e, s') | (Inr _, s') \<Rightarrow> (None, s'))"

definition sql_insert_delivery :: "delivery \<Rightarrow> notif_db db_update" where
  "sql_insert_delivery r d =
     (if dl_id r \<in> dl_id ` set (deliveries d) then Inl UniqueViolation
      else if dl_notification r \<notin> nf_id ` set (notifs d) then Inl ForeignKeyViolation
      else Inr (d\<lparr>deliveries := deliveries d @ [r\<lparr>dl_retries := 0, dl_last_attempt := None, dl_next_retry := None, dl_error := None\<rparr>]\<rparr>, 1))"

definition create_delivery :: "delivery \<Rightarrow> (notif_db, db_error, nat) db_op" where
  "create_delivery r = pool_exec (sql_insert_delivery r)"

definition update_delivery_status :: "uuid \<Rightarrow> delivery_status \<Rightarrow> string \<Rightarrow> time \<Rightarrow> (notif_db, db_error, nat) db_op" where
  "update_delivery_status i st err now = pool_exec (\<lambda>d.
     Inr (d\<lparr>deliveries := update_where (\<lambda>r. dl_id r = i)
       (\<lambda>r. r\<lparr>dl_status := st, dl_last_attempt := Some now, dl_error := Some err, dl_retries := dl_retries r + 1\<rparr>) (deliveries d)\<rparr>,
       length (filter (\<lambda>r. dl_id r = i) (deliveries d))))"

text \<open>A page, newest first; rows created at the same time come in the order of the table.\<close>

definition get_by_user :: "uuid \<Rightarrow> int \<Rightarrow> int \<Rightarrow> (notif_db, db_error, notif list) db_op" where
  "get_by_user u limit offset = pool_query (\<lambda>d.
     Some (take (nat limit) (drop (nat offset) (sort_key (\<lambda>n. - nf_created n) (filter (\<lambda>n. nf_user n = u) (notifs d))))))"

definition mark_as_read :: "uuid \<Rightarrow> uuid \<Rightarrow> (notif_db, db_error, nat) db_op" where
  "mark_as_read i u = pool_exec (\<lambda>d.
     Inr (d\<lparr>notifs := update_where (\<lambda>n. nf_id n = i \<and> nf_user n = u) (\<lambda>n. n\<lparr>nf_read := True\<rparr>) (notifs d)\<rparr>,
       length (filter (\<lambda>n. nf_id n = i \<and> nf_user n = u) (notifs d))))"

definition mark_all_read :: "uuid \<Rightarrow> (notif_db, db_error, nat) db_op" where
  "mark_all_read u = pool_exec (\<lambda>d.
     Inr (d\<lparr>notifs := update_where (\<lambda>n. nf_user n = u \<and> \<not> nf_read n) (\<lambda>n. n\<lparr>nf_read := True\<rparr>) (notifs d)\<rparr>,
       length (filter (\<lambda>n. nf_user n = u \<and> \<not> nf_read n) (notifs d))))"

definition unread_count :: "uuid \<Rightarrow> (notif_db, db_error, nat) db_op" where
  "unread_count u = pool_query (\<lambda>d. Some (length (filter (\<lambda>n. nf_user n = u \<and> \<not> nf_read n) (notifs d))))"

text \<open>A NULL error message does not scan into a Go string.\<close>

definition get_pending_retries :: "time \<Rightarrow> int \<Rightarrow> (notif_db, db_error, delivery list) db_op" where
  "get_pending_retries now limit = andthen (pool_query (\<lambda>d.
     Some (take (nat limit) (sort_key dl_created (filter (\<lambda>r. dl_status r \<in> {DeliveryFailed, DeliveryRetrying} \<and>
       dl_retries r < dl_max_retries r \<and> (case dl_next_retry r of None \<Rightarrow> True | Some t \<Rightarrow> t \<le> now)) (deliveries d))))))
     (\<lambda>rows. if \<exists>r \<in> set rows. dl_error r = None then fail ScanError else ret rows)"

definition event_exists :: "string \<Rightarrow> (notif_db, db_error, bool) db_op" where
  "event_exists e = pool_query (\<lambda>d. Some (0 < length (filter (\<lambda>n. nf_event n = e) (notifs d))))"

subsection \<open>The service\<close>

record ws_notification =
  ws_type :: notif_type
  ws_title :: string
  ws_message :: string
  ws_auction :: string
  ws_amount :: float64
  ws_time :: "time option"

text \<open>Mails by their template.\<close>

datatype mail = OutbidMail string string float64 | AuctionWonMail string string float64

record notif_sys =
  ns_sess :: "notif_db session"
  ns_redis :: "string redis"
  ns_hub :: bool
  ns_mailer :: bool
  ns_pushed :: "(uuid \<times> ws_notification) list"
  ns_mails :: "mail list"

definition notify_user :: "uuid \<Rightarrow> ws_notification \<Rightarrow> notif_sys \<Rightarrow> notif_sys" where
  "notify_user u n s = (if ns_hub s then s\<lparr>ns_pushed := ns_pushed s @ [(u, n)]\<rparr> else s)"

definition persist :: "notif \<Rightarrow> notif_sys \<Rightarrow> notif_sys" where
  "persist n s = s\<lparr>ns_sess := snd (create_notif n (ns_sess s))\<rparr>"

definition processed_ttl :: duration where "processed_ttl = 24 * hour"

definition processed_key :: "string \<Rightarrow> string" where
  "processed_key e = ''notif:processed:'' @ e"

definition mark_event :: "string \<Rightarrow> time \<Rightarrow> notif_sys \<Rightarrow> notif_sys" where
  "mark_event e t s = s\<lparr>ns_redis := snd (redis_set (processed_key e) ''1'' processed_ttl t (ns_redis s))\<rparr>"

text \<open>An error of Redis counts as not processed.\<close>

definition is_processed :: "string \<Rightarrow> time \<Rightarrow> notif_sys \<Rightarrow> bool \<times> notif_sys" where
  "is_processed e t s = (let r = ns_redis s; s' = s\<lparr>ns_redis := after_command r\<rparr> in
     if redis_fails r then (False, s') else (live (processed_key e) t r \<noteq> None, s'))"

definition send_mail :: "mail \<Rightarrow> string \<Rightarrow> notif_sys \<Rightarrow> notif_sys" where
  "send_mail m to s = (if ns_mailer s \<and> to \<noteq> '''' then s\<lparr>ns_mails := ns_mails s @ [m]\<rparr> else s)"

text \<open>What a call draws: the row ids and the time.\<close>

record notif_draw =
  nd_id :: uuid
  nd_id2 :: uuid
  nd_now :: time

record bid_placed_event =
  bp_bid :: string
  bp_auction :: string
  bp_user :: string
  bp_amount :: float64
  bp_time :: "time option"

definition bid_placed_id :: "bid_placed_event \<Rightarrow> string" where
  "bid_placed_id ev = ''bid_placed:'' @ bp_bid ev"

definition handle_bid_placed :: "notif_draw \<Rightarrow> bid_placed_event \<Rightarrow> notif_sys \<Rightarrow> notif_sys" where
  "handle_bid_placed dr ev s =
     (let eid = bid_placed_id ev; (seen, s1) = is_processed eid (nd_now dr) s in
      if seen then s1
      else
        let title = ''Bid Placed Successfully'';
            msg = ''Your bid of $'' @ fmt_cents (bp_amount ev) @ '' has been placed on auction '' @ bp_auction ev;
            s2 = persist \<lparr>nf_id = nd_id dr, nf_user = bp_user ev, nf_type = TypeBidPlaced, nf_title = title,
              nf_message = msg, nf_read = False,
              nf_metadata = [(''amount'', JNumber (bp_amount ev)), (''auction_id'', JString (bp_auction ev)), (''bid_id'', JString (bp_bid ev))],
              nf_event = eid, nf_created = nd_now dr\<rparr> s1;
            s3 = notify_user (bp_user ev) \<lparr>ws_type = TypeBidPlaced, ws_title = title, ws_message = msg,
              ws_auction = bp_auction ev, ws_amount = bp_amount ev, ws_time = bp_time ev\<rparr> s2
        in mark_event eid (nd_now dr) s3)"

record outbid_event =
  ob_auction :: string
  ob_user :: string
  ob_email :: string
  ob_amount :: float64
  ob_bidder :: string

definition outbid_id :: "outbid_event \<Rightarrow> string" where
  "outbid_id ev = ''outbid:'' @ ob_auction ev @ '':'' @ ob_user ev"

definition handle_outbid :: "notif_draw \<Rightarrow> outbid_event \<Rightarrow> notif_sys \<Rightarrow> notif_sys" where
  "handle_outbid dr ev s =
     (let eid = outbid_id ev; (seen, s1) = is_processed eid (nd_now dr) s in
      if seen then s1
      else
        let title = ''You've Been Outbid!'';
            msg = ''Someone placed a higher bid of $'' @ fmt_cents (ob_amount ev) @ ''. Place a new bid to stay in the running!'';
            s2 = persist \<lparr>nf_id = nd_id dr, nf_user = ob_user ev, nf_type = TypeOutbid, nf_title = title,
              nf_message = msg, nf_read = False,
              nf_metadata = [(''auction_id'', JString (ob_auction ev)), (''new_amount'', JNumber (ob_amount ev))],
              nf_event = eid, nf_created = nd_now dr\<rparr> s1;
            s3 = notify_user (ob_user ev) \<lparr>ws_type = TypeOutbid, ws_title = title, ws_message = msg,
              ws_auction = ob_auction ev, ws_amount = ob_amount ev, ws_time = Some (nd_now dr)\<rparr> s2;
            s4 = send_mail (OutbidMail (ob_email ev) ''Auction'' (ob_amount ev)) (ob_email ev) s3
        in mark_event eid (nd_now dr) s4)"

record won_event =
  wn_auction :: string
  wn_winner :: string
  wn_email :: string
  wn_amount :: float64
  wn_time :: "time option"

text \<open>The bytes of the pictograms in the titles.\<close>

definition party_popper :: string where "party_popper = map char_of [240, 159, 142, 137 :: nat]"
definition chequered_flag :: string where "chequered_flag = map char_of [240, 159, 143, 129 :: nat]"
definition trophy :: string where "trophy = map char_of [240, 159, 143, 134 :: nat]"

definition won_id :: "won_event \<Rightarrow> string" where
  "won_id ev = ''auction_won:'' @ wn_auction ev @ '':'' @ wn_winner ev"

definition handle_auction_won :: "notif_draw \<Rightarrow> won_event \<Rightarrow> notif_sys \<Rightarrow> notif_sys" where
  "handle_auction_won dr ev s =
     (let eid = won_id ev; (seen, s1) = is_processed eid (nd_now dr) s in
      if seen then s1
      else
        let title = party_popper @ '' You Won the Auction!'';
            msg = ''Congratulations! You won with a bid of $'' @ fmt_cents (wn_amount ev);
            s2 = persist \<lparr>nf_id = nd_id dr, nf_user = wn_winner ev, nf_type = TypeAuctionWon, nf_title = title,
              nf_message = msg, nf_read = False,
              nf_metadata = [(''amount'', JNumber (wn_amount ev)), (''auction_id'', JString (wn_auction ev))],
              nf_event = eid, nf_created = nd_now dr\<rparr> s1;
            s3 = notify_user (wn_winner ev) \<lparr>ws_type = TypeAuctionWon, ws_title = title, ws_message = msg,
              ws_auction = wn_auction ev, ws_amount = wn_amount ev, ws_time = wn_time ev\<rparr> s2;
            s4 = send_mail (AuctionWonMail (wn_email ev) ''Auction Item'' (wn_amount ev)) (wn_email ev) s3
        in mark_event eid (nd_now dr) s4)"

record ended_event =
  ne_auction :: string
  ne_seller :: string
  ne_title :: string
  ne_winner :: string
  ne_amount :: float64
  ne_time :: "time option"

definition ended_id :: "ended_event \<Rightarrow> string" where
  "ended_id ev = ''auction_ended:'' @ ne_auction ev"

text \<open>\<^verbatim>\<open>WinnerID[:8]\<close> panics on a shorter string.\<close>

definition seller_texts :: "ended_event \<Rightarrow> (string \<times> string) option" where
  "seller_texts ev =
     (if ne_winner ev \<noteq> '''' then
        if length (ne_winner ev) < 8 then None
        else Some (party_popper @ '' Your Auction Sold!'', ''Your auction \"'' @ ne_title ev @ ''\" ended! Winner: '' @
          take 8 (ne_winner ev) @ '', Final Price: $'' @ fmt_cents (ne_amount ev))
      else Some (chequered_flag @ '' Auction Ended'', ''Your auction \"'' @ ne_title ev @ ''\" ended without a winning bid.''))"

definition notify_seller :: "notif_draw \<Rightarrow> ended_event \<Rightarrow> notif_sys \<Rightarrow> notif_sys option" where
  "notify_seller dr ev s =
     (if ne_seller ev = '''' then Some s
      else case seller_texts ev of None \<Rightarrow> None
        | Some (title, msg) \<Rightarrow>
            let s1 = persist \<lparr>nf_id = nd_id dr, nf_user = ne_seller ev, nf_type = TypeAuctionEnded, nf_title = title,
                  nf_message = msg, nf_read = False,
                  nf_metadata = [(''amount'', JNumber (ne_amount ev)), (''auction_id'', JString (ne_auction ev)), (''winner_id'', JString (ne_winner ev))],
                  nf_event = ''auction_ended_seller:'' @ ne_auction ev, nf_created = nd_now dr\<rparr> s
            in Some (notify_user (ne_seller ev) \<lparr>ws_type = TypeAuctionEnded, ws_title = title, ws_message = msg,
                  ws_auction = ne_auction ev, ws_amount = ne_amount ev, ws_time = ne_time ev\<rparr> s1))"

definition notify_winner :: "notif_draw \<Rightarrow> ended_event \<Rightarrow> notif_sys \<Rightarrow> notif_sys" where
  "notify_winner dr ev s =
     (if ne_winner ev = '''' then s
      else
        let title = trophy @ '' You Won the Auction!'';
            msg = ''Congratulations! You won \"'' @ ne_title ev @ ''\" with a bid of $'' @ fmt_cents (ne_amount ev);
            s1 = persist \<lparr>nf_id = nd_id2 dr, nf_user = ne_winner ev, nf_type = TypeAuctionWon, nf_title = title,
              nf_message = msg, nf_read = False,
              nf_metadata = [(''amount'', JNumber (ne_amount ev)), (''auction_id'', JString (ne_auction ev))],
              nf_event = ''auction_ended_winner:'' @ ne_auction ev, nf_created = nd_now dr\<rparr> s
        in notify_user (ne_winner ev) \<lparr>ws_type = TypeAuctionWon, ws_title = title, ws_message = msg,
              ws_auction = ne_auction ev, ws_amount = ne_amount ev, ws_time = ne_time ev\<rparr> s1)"

definition handle_auction_ended :: "notif_draw \<Rightarrow> ended_event \<Rightarrow> notif_sys \<Rightarrow> notif_sys option" where
  "handle_auction_ended dr ev s =
     (let eid = ended_id ev; (seen, s1) = is_processed eid (nd_now dr) s in
      if seen then Some s1
      else case notify_seller dr ev s1 of None \<Rightarrow> None
        | Some s2 \<Rightarrow> Some (mark_event eid (nd_now dr) (notify_winner dr ev s2)))"

subsection \<open>Retried mail\<close>

text \<open>
  \<^verbatim>\<open>SendWithRetry\<close>: three attempts, and a sleep after each failure. The outcome of the attempts, \<open>True\<close> for
  success, is the argument; the result has the number of sends and the time slept.
\<close>

fun send_with_retry :: "(nat \<Rightarrow> bool) \<Rightarrow> nat \<Rightarrow> nat \<Rightarrow> bool \<times> nat \<times> duration" where
  "send_with_retry outcome attempt 0 = (False, 0, 0)"
| "send_with_retry outcome attempt (Suc left) =
     (if outcome attempt then (True, 1, 0)
      else case send_with_retry outcome (attempt + 1) left of
        (ok, n, slept) \<Rightarrow> (ok, n + 1, 2 ^ attempt * second + slept))"

definition mail_with_retry :: "(nat \<Rightarrow> bool) \<Rightarrow> bool \<times> nat \<times> duration" where
  "mail_with_retry outcome = send_with_retry outcome 0 3"

subsection \<open>The consumer\<close>

text \<open>A Kafka message of the reader: its key names the event, its value decodes to a JSON object or not.\<close>

record nmessage =
  nm_key :: string
  nm_value :: "json_object option"
  nm_offset :: int

text \<open>The topic of the reader: the first of the configured ones.\<close>

definition reader_topic :: "string list \<Rightarrow> string" where
  "reader_topic topics = (case topics of t # _ \<Rightarrow> if t \<noteq> '''' then t else ''bid-events'' | [] \<Rightarrow> ''bid-events'')"

definition decode_bid_placed :: "(string \<Rightarrow> time option) \<Rightarrow> json_object \<Rightarrow> bid_placed_event option" where
  "decode_bid_placed rfc3339 js =
     (case (field_string ''bid_id'' js, field_string ''auction_id'' js, field_string ''user_id'' js, field_number ''amount'' js,
        field_time rfc3339 ''timestamp'' js, field_string ''event_type'' js) of
        (Some b, Some a, Some u, Some x, Some t, Some _) \<Rightarrow>
          Some \<lparr>bp_bid = b, bp_auction = a, bp_user = u, bp_amount = x, bp_time = t\<rparr>
      | _ \<Rightarrow> None)"

definition decode_outbid :: "json_object \<Rightarrow> outbid_event option" where
  "decode_outbid js =
     (case (field_string ''auction_id'' js, field_string ''outbid_user_id'' js, field_string ''outbid_user_email'' js,
        field_number ''new_amount'' js, field_string ''new_bidder_id'' js, field_string ''event_type'' js) of
        (Some a, Some u, Some e, Some x, Some b, Some _) \<Rightarrow>
          Some \<lparr>ob_auction = a, ob_user = u, ob_email = e, ob_amount = x, ob_bidder = b\<rparr>
      | _ \<Rightarrow> None)"

definition decode_won :: "(string \<Rightarrow> time option) \<Rightarrow> json_object \<Rightarrow> won_event option" where
  "decode_won rfc3339 js =
     (case (field_string ''auction_id'' js, field_string ''winner_id'' js, field_string ''winner_email'' js,
        field_number ''amount'' js, field_time rfc3339 ''timestamp'' js, field_string ''event_type'' js) of
        (Some a, Some w, Some e, Some x, Some t, Some _) \<Rightarrow>
          Some \<lparr>wn_auction = a, wn_winner = w, wn_email = e, wn_amount = x, wn_time = t\<rparr>
      | _ \<Rightarrow> None)"

definition decode_ended :: "(string \<Rightarrow> time option) \<Rightarrow> json_object \<Rightarrow> ended_event option" where
  "decode_ended rfc3339 js =
     (case (field_string ''auction_id'' js, field_string ''seller_id'' js, field_string ''title'' js, field_string ''winner_id'' js,
        field_number ''amount'' js, field_time rfc3339 ''timestamp'' js, field_string ''event_type'' js) of
        (Some a, Some sl, Some ti, Some w, Some x, Some t, Some _) \<Rightarrow>
          Some \<lparr>ne_auction = a, ne_seller = sl, ne_title = ti, ne_winner = w, ne_amount = x, ne_time = t\<rparr>
      | _ \<Rightarrow> None)"

text \<open>
  \<^verbatim>\<open>dispatch\<close>: the result says whether the message was handled (\<open>True\<close>) or could not be decoded; an unknown key is
  skipped. The handlers of the service never return an error.
\<close>

definition dispatch ::
  "(string \<Rightarrow> time option) \<Rightarrow> notif_draw \<Rightarrow> nmessage \<Rightarrow> notif_sys \<Rightarrow> (bool \<times> notif_sys) option" where
  "dispatch rfc3339 dr m s =
     (if nm_key m = ''bid.placed'' then
        (case Option.bind (nm_value m) (decode_bid_placed rfc3339) of None \<Rightarrow> Some (False, s) | Some ev \<Rightarrow> Some (True, handle_bid_placed dr ev s))
      else if nm_key m = ''bid.outbid'' then
        (case Option.bind (nm_value m) decode_outbid of None \<Rightarrow> Some (False, s) | Some ev \<Rightarrow> Some (True, handle_outbid dr ev s))
      else if nm_key m = ''auction.won'' then
        (case Option.bind (nm_value m) (decode_won rfc3339) of None \<Rightarrow> Some (False, s) | Some ev \<Rightarrow> Some (True, handle_auction_won dr ev s))
      else if nm_key m = ''auction.ended'' then
        (case Option.bind (nm_value m) (decode_ended rfc3339) of None \<Rightarrow> Some (False, s) | Some ev \<Rightarrow> map_option (Pair True) (handle_auction_ended dr ev s))
      else Some (True, s))"

text \<open>The reader's side: dead letters that were written, the fault scripts of the dead letter writer and of the commits, and the committed offsets.\<close>

record reader =
  nr_sys :: notif_sys
  nr_dlq :: "nmessage list"
  nr_dlq_faults :: "bool list"
  nr_commit_faults :: "bool list"
  nr_committed :: "int list"

definition dlq_send :: "nmessage \<Rightarrow> reader \<Rightarrow> reader" where
  "dlq_send m r = (case nr_dlq_faults r of
     True # fs \<Rightarrow> r\<lparr>nr_dlq_faults := fs\<rparr> | fs \<Rightarrow> r\<lparr>nr_dlq_faults := tl fs, nr_dlq := nr_dlq r @ [m]\<rparr>)"

definition commit_message :: "nmessage \<Rightarrow> reader \<Rightarrow> reader" where
  "commit_message m r = (case nr_commit_faults r of
     True # fs \<Rightarrow> r\<lparr>nr_commit_faults := fs\<rparr> | fs \<Rightarrow> r\<lparr>nr_commit_faults := tl fs, nr_committed := nr_committed r @ [nm_offset m]\<rparr>)"

text \<open>The body of \<^verbatim>\<open>Run\<close>'s loop for one fetched message; \<open>has_dlq\<close> says whether a dead letter queue is set. \<open>None\<close> is the end of the process.\<close>

definition consume_one :: "(string \<Rightarrow> time option) \<Rightarrow> bool \<Rightarrow> notif_draw \<Rightarrow> nmessage \<Rightarrow> reader \<Rightarrow> reader option" where
  "consume_one rfc3339 has_dlq dr m r = (case dispatch rfc3339 dr m (nr_sys r) of
     None \<Rightarrow> None
   | Some (ok, s) \<Rightarrow>
       let r1 = r\<lparr>nr_sys := s\<rparr>; r2 = (if \<not> ok \<and> has_dlq then dlq_send m r1 else r1)
       in Some (commit_message m r2))"

fun run_consumer :: "(string \<Rightarrow> time option) \<Rightarrow> bool \<Rightarrow> (notif_draw \<times> nmessage) list \<Rightarrow> reader \<Rightarrow> reader option" where
  "run_consumer rfc3339 has_dlq [] r = Some r"
| "run_consumer rfc3339 has_dlq ((dr, m) # ms) r =
     Option.bind (consume_one rfc3339 has_dlq dr m r) (run_consumer rfc3339 has_dlq ms)"

end
