(* ===== verification/NotificationSpec.thy ===== *)
theory NotificationSpec
  imports Notification
begin

text \<open>
  What the notification service promises: the table only grows, with one row per event id, over any
  deliveries and failures; a redelivered event changes nothing while its key lives in Redis; what
  cannot be decoded goes to the dead letter queue. And where it falls short: a short winner id stops
  the consumer, a bidder outbid twice hears of it once, and a failed insert is never made up for.
\<close>

subsection \<open>Frames\<close>

lemma notif_frame [simp]:
  "ns_sess (notify_user u w s) = ns_sess s" "ns_redis (notify_user u w s) = ns_redis s"
  "ns_sess (send_mail m to s) = ns_sess s" "ns_redis (send_mail m to s) = ns_redis s"
  "ns_sess (mark_event e t s) = ns_sess s" "ns_redis (persist n s) = ns_redis s"
  "ns_sess (persist n s) = snd (create_notif n (ns_sess s))"
  by (simp_all add: notify_user_def send_mail_def mark_event_def persist_def)

lemma is_processed_frame [simp]: "ns_sess (snd (is_processed e t s)) = ns_sess s"
  by (simp add: is_processed_def Let_def)

subsection \<open>Rows\<close>

text \<open>The table has grown by rows with event ids of their own.\<close>

definition notifs_grow :: "notif_db \<Rightarrow> notif_db \<Rightarrow> bool" where
  "notifs_grow d d' \<longleftrightarrow> (\<exists>new. notifs d' = notifs d @ new) \<and> deliveries d' = deliveries d \<and>
     (distinct (map nf_event (notifs d)) \<longrightarrow> distinct (map nf_event (notifs d'))) \<and>
     (distinct (map nf_id (notifs d)) \<longrightarrow> distinct (map nf_id (notifs d')))"

lemma notifs_grow_refl [simp]: "notifs_grow d d"
  by (simp add: notifs_grow_def)

lemma notifs_grow_trans: "notifs_grow d d1 \<Longrightarrow> notifs_grow d1 d2 \<Longrightarrow> notifs_grow d d2"
  by (auto simp: notifs_grow_def)

lemma insert_notif_grows: "sql_insert_notif n d = Inr (d', k) \<Longrightarrow> notifs_grow d d'"
  by (auto simp: sql_insert_notif_def notifs_grow_def split: if_splits)

lemma create_notif_grows: "notifs_grow (db s) (db (snd (create_notif n s)))"
  by (auto simp: create_notif_def pool_exec_def split: sum.splits prod.splits dest: insert_notif_grows)

definition ns_db :: "notif_sys \<Rightarrow> notif_db" where
  "ns_db s = db (ns_sess s)"

lemma persist_grows: "notifs_grow (ns_db s) (ns_db (persist n s))"
  by (simp add: ns_db_def create_notif_grows)

text \<open>Three of the handlers have one shape: skip a processed event, or persist, push, mail and mark it.\<close>

definition notified ::
  "string \<Rightarrow> time \<Rightarrow> notif \<Rightarrow> uuid \<Rightarrow> ws_notification \<Rightarrow> mail \<Rightarrow> string \<Rightarrow> notif_sys \<Rightarrow> notif_sys" where
  "notified e t n u w m to s = (case is_processed e t s of (seen, s1) \<Rightarrow>
     if seen then s1 else mark_event e t (send_mail m to (notify_user u w (persist n s1))))"

lemma send_mail_none [simp]: "send_mail m '''' s = s"
  by (simp add: send_mail_def)

lemma handler_shapes:
  "\<exists>n u w m to. handle_bid_placed dr e1 s = notified (bid_placed_id e1) (nd_now dr) n u w m to s"
  "\<exists>n u w m to. handle_outbid dr e2 s = notified (outbid_id e2) (nd_now dr) n u w m to s"
  "\<exists>n u w m to. handle_auction_won dr e3 s = notified (won_id e3) (nd_now dr) n u w m to s"
  subgoal unfolding handle_bid_placed_def Let_def notified_def
    by (rule exI, rule exI, rule exI, rule exI [of _ "OutbidMail '''' '''' 0"], rule exI [of _ "''''"])
      (simp only: send_mail_none)
  subgoal unfolding handle_outbid_def Let_def notified_def by blast
  subgoal unfolding handle_auction_won_def Let_def notified_def by blast
  done

lemma notified_grows: "notifs_grow (ns_db s) (ns_db (notified e t n u w m to s))"
proof -
  obtain b s1 where p: "is_processed e t s = (b, s1)" by fastforce
  then have "ns_sess s1 = ns_sess s" using is_processed_frame [of e t s] by simp
  with p create_notif_grows [of "ns_sess s" n] show ?thesis by (simp add: notified_def ns_db_def)
qed

lemma simple_handlers_grow:
  "notifs_grow (ns_db s) (ns_db (handle_bid_placed dr e1 s))"
  "notifs_grow (ns_db s) (ns_db (handle_outbid dr e2 s))"
  "notifs_grow (ns_db s) (ns_db (handle_auction_won dr e3 s))"
  by (metis handler_shapes notified_grows)+

lemma seller_effect:
  assumes "notify_seller dr ev s = Some s'"
  shows "notifs_grow (ns_db s) (ns_db s')" and "ns_redis s' = ns_redis s"
proof -
  have "s' = s \<or> (\<exists>n u w. s' = notify_user u w (persist n s))"
    using assms by (auto simp: notify_seller_def Let_def split: if_splits option.splits)
  then show "notifs_grow (ns_db s) (ns_db s')" "ns_redis s' = ns_redis s"
    using create_notif_grows by (auto simp: ns_db_def)
qed

lemma winner_effect: "notifs_grow (ns_db s) (ns_db (notify_winner dr ev s))" "ns_redis (notify_winner dr ev s) = ns_redis s"
proof -
  have "notify_winner dr ev s = s \<or> (\<exists>n u w. notify_winner dr ev s = notify_user u w (persist n s))"
    unfolding notify_winner_def Let_def by metis
  then show "notifs_grow (ns_db s) (ns_db (notify_winner dr ev s))" "ns_redis (notify_winner dr ev s) = ns_redis s"
    using create_notif_grows by (auto simp: ns_db_def)
qed

lemma ended_cases:
  assumes "handle_auction_ended dr ev s = Some s'" and "is_processed (ended_id ev) (nd_now dr) s = (b, s1)"
  obtains (skipped) b and "s' = s1"
  | (told) s2 where "\<not> b" and "notify_seller dr ev s1 = Some s2" and "s' = mark_event (ended_id ev) (nd_now dr) (notify_winner dr ev s2)"
  using assms by (auto simp: handle_auction_ended_def split: if_splits option.splits)

lemma ended_grows:
  assumes "handle_auction_ended dr ev s = Some s'"
  shows "notifs_grow (ns_db s) (ns_db s')"
proof -
  obtain b s1 where p: "is_processed (ended_id ev) (nd_now dr) s = (b, s1)" by fastforce
  have s1: "ns_db s1 = ns_db s" using is_processed_frame [of "ended_id ev" "nd_now dr" s] p by (simp add: ns_db_def)
  from assms p show ?thesis
  proof (cases rule: ended_cases)
    case skipped
    with s1 show ?thesis by simp
  next
    case (told s2)
    have "ns_db s' = ns_db (notify_winner dr ev s2)" by (simp add: told ns_db_def)
    then show ?thesis using seller_effect(1) [OF told(2)] winner_effect(1) [of s2] s1 notifs_grow_trans by metis
  qed
qed

lemma dispatch_grows:
  assumes "dispatch rfc dr m s = Some (ok, s')"
  shows "notifs_grow (ns_db s) (ns_db s')"
  using assms simple_handlers_grow ended_grows
  by (auto simp: dispatch_def split: if_splits option.splits)

lemma reader_frame [simp]:
  "nr_sys (dlq_send m r) = nr_sys r" "nr_sys (commit_message m r) = nr_sys r"
  by (simp_all add: dlq_send_def commit_message_def split: list.splits bool.splits)

lemma consume_grows:
  assumes "consume_one rfc has_dlq dr m r = Some r'"
  shows "notifs_grow (ns_db (nr_sys r)) (ns_db (nr_sys r'))"
  using assms dispatch_grows by (fastforce simp: consume_one_def Let_def split: option.splits)

lemma run_grows:
  "run_consumer rfc has_dlq ms r = Some r' \<Longrightarrow> notifs_grow (ns_db (nr_sys r)) (ns_db (nr_sys r'))"
proof (induction ms arbitrary: r)
  case (Cons x ms)
  obtain dr m where x: "x = (dr, m)" by fastforce
  from Cons.prems x obtain r1 where r1: "consume_one rfc has_dlq dr m r = Some r1" and "run_consumer rfc has_dlq ms r1 = Some r'"
    by (auto simp: bind_eq_Some_conv)
  with Cons.IH consume_grows [OF r1] notifs_grow_trans show ?case by blast
qed simp

subsection \<open>Redelivery\<close>

definition redis_up :: "notif_sys \<Rightarrow> bool" where
  "redis_up s \<longleftrightarrow> rd_faults (ns_redis s) = []"

lemma is_processed_up: "redis_up s \<Longrightarrow> is_processed e t s = (live (processed_key e) t (ns_redis s) \<noteq> None, s)"
  by (simp add: is_processed_def redis_up_def Let_def after_command_def)

lemma mark_event_live:
  assumes "redis_up s" and "t' < t + processed_ttl"
  shows "live (processed_key e) t' (ns_redis (mark_event e t s)) \<noteq> None"
  using assms by (simp add: mark_event_def redis_set_def redis_up_def live_def alive_def)

lemma redis_up_frame [simp]:
  "redis_up (notify_user u w s) = redis_up s" "redis_up (persist n s) = redis_up s" "redis_up (send_mail m to s) = redis_up s"
  "redis_up s \<Longrightarrow> redis_up (mark_event e t s)"
  by (simp_all add: redis_up_def mark_event_def redis_set_def)

definition handled :: "string \<Rightarrow> time \<Rightarrow> notif_sys \<Rightarrow> bool" where
  "handled e t s \<longleftrightarrow> redis_up s \<and> live (processed_key e) t (ns_redis s) \<noteq> None"

lemma handled_marked: "redis_up s \<Longrightarrow> t' < t + processed_ttl \<Longrightarrow> handled e t' (mark_event e t s)"
  by (simp add: handled_def mark_event_live)

lemma handled_stays: "handled e t s \<Longrightarrow> t' \<le> t \<Longrightarrow> handled e t' s"
  by (auto simp: handled_def live_def alive_def split: option.splits if_splits)

lemma handlers_idle:
  "handled (bid_placed_id e1) (nd_now dr) s \<Longrightarrow> handle_bid_placed dr e1 s = s"
  "handled (outbid_id e2) (nd_now dr) s \<Longrightarrow> handle_outbid dr e2 s = s"
  "handled (won_id e3) (nd_now dr) s \<Longrightarrow> handle_auction_won dr e3 s = s"
  "handled (ended_id e4) (nd_now dr) s \<Longrightarrow> handle_auction_ended dr e4 s = Some s"
  by (simp_all add: handled_def is_processed_up handle_bid_placed_def handle_outbid_def handle_auction_won_def handle_auction_ended_def)

text \<open>A handler leaves its event handled, whether it ran or was skipped, unless the key was about to expire.\<close>

definition key_fresh :: "string \<Rightarrow> time \<Rightarrow> time \<Rightarrow> notif_sys \<Rightarrow> bool" where
  "key_fresh e t t' s \<longleftrightarrow> live (processed_key e) t (ns_redis s) = None \<or> live (processed_key e) t' (ns_redis s) \<noteq> None"

lemma notified_handles:
  assumes "redis_up s" and "t' < t + processed_ttl" and "key_fresh e t t' s"
  shows "handled e t' (notified e t n u w m to s)"
proof (cases "live (processed_key e) t (ns_redis s) = None")
  case True
  have "redis_up (send_mail m to (notify_user u w (persist n s)))" using assms(1) by simp
  from handled_marked [OF this assms(2), of e] True assms(1) show ?thesis by (simp add: notified_def is_processed_up)
next
  case False
  with assms(1,3) show ?thesis by (auto simp: notified_def is_processed_up key_fresh_def handled_def)
qed

lemma ended_handles:
  assumes "redis_up s" and "t' < nd_now dr + processed_ttl" and "key_fresh (ended_id ev) (nd_now dr) t' s"
    and "handle_auction_ended dr ev s = Some s'"
  shows "handled (ended_id ev) t' s'"
  using assms(4) is_processed_up [OF assms(1)]
proof (cases rule: ended_cases)
  case skipped
  with assms(1,3) show ?thesis by (auto simp: key_fresh_def handled_def)
next
  case (told s2)
  have "redis_up (notify_winner dr ev s2)"
    using assms(1) seller_effect(2) [OF told(2)] winner_effect(2) [of dr ev s2] by (simp add: redis_up_def)
  with told(3) assms(2) show ?thesis by (simp add: handled_marked)
qed

lemma handlers_handle:
  assumes "redis_up s" and "t' < nd_now dr + processed_ttl"
  shows "key_fresh (bid_placed_id e1) (nd_now dr) t' s \<Longrightarrow> handled (bid_placed_id e1) t' (handle_bid_placed dr e1 s)"
    and "key_fresh (outbid_id e2) (nd_now dr) t' s \<Longrightarrow> handled (outbid_id e2) t' (handle_outbid dr e2 s)"
    and "key_fresh (won_id e3) (nd_now dr) t' s \<Longrightarrow> handled (won_id e3) t' (handle_auction_won dr e3 s)"
  using assms by (metis handler_shapes notified_handles)+

subsection \<open>Properties\<close>

text \<open>One notification per event. However often events are delivered and whatever fails, the consumer only
  adds rows, never changes or drops one, and no two rows carry the same event id.\<close>

theorem notifications_once:
  assumes "run_consumer rfc has_dlq ms r = Some r'" and "distinct (map nf_event (notifs (ns_db (nr_sys r))))"
  shows "(\<exists>new. notifs (ns_db (nr_sys r')) = notifs (ns_db (nr_sys r)) @ new) \<and>
    distinct (map nf_event (notifs (ns_db (nr_sys r'))))"
  using run_grows [OF assms(1)] assms(2) by (simp add: notifs_grow_def)

definition idle_notif_sys :: notif_sys where
  "idle_notif_sys = \<lparr>ns_sess = \<lparr>db = \<lparr>notifs = [], deliveries = []\<rparr>, aborted = False, faults = []\<rparr>,
     ns_redis = \<lparr>rd_keys = (\<lambda>_. None), rd_faults = []\<rparr>, ns_hub = True, ns_mailer = True, ns_pushed = [], ns_mails = []\<rparr>"

definition idle_reader :: reader where
  "idle_reader = \<lparr>nr_sys = idle_notif_sys, nr_dlq = [], nr_dlq_faults = [], nr_commit_faults = [], nr_committed = []\<rparr>"

definition demo_draw :: "uuid \<Rightarrow> time \<Rightarrow> notif_draw" where
  "demo_draw i t = \<lparr>nd_id = i, nd_id2 = i @ ''b'', nd_now = t\<rparr>"

definition demo_bid_message :: nmessage where
  "demo_bid_message = \<lparr>nm_key = ''bid.placed'', nm_value = Some [(''bid_id'', JString ''b1''), (''auction_id'', JString ''a1''),
     (''user_id'', JString ''u1''), (''amount'', JNumber 10)], nm_offset = 3\<rparr>"

theorem notifications_once_witness:
  "\<exists>r'. run_consumer (\<lambda>_. None) True [(demo_draw ''n1'' 0, demo_bid_message), (demo_draw ''n2'' 1, demo_bid_message)] idle_reader = Some r' \<and>
     distinct (map nf_event (notifs (ns_db (nr_sys r'))))"
proof -
  have "run_consumer (\<lambda>_. None) True [(demo_draw ''n1'' 0, demo_bid_message), (demo_draw ''n2'' 1, demo_bid_message)] idle_reader \<noteq> None"
    by (simp add: consume_one_def Let_def demo_bid_message_def dispatch_def decode_bid_placed_def field_string_def field_number_def
        field_time_def json_field_def)
  then obtain r' where run: "run_consumer (\<lambda>_. None) True [(demo_draw ''n1'' 0, demo_bid_message), (demo_draw ''n2'' 1, demo_bid_message)] idle_reader = Some r'"
    by blast
  show ?thesis using notifications_once [OF run] run by (simp add: idle_reader_def idle_notif_sys_def ns_db_def)
qed

text \<open>The event a message stands for.\<close>

definition message_event :: "(string \<Rightarrow> time option) \<Rightarrow> nmessage \<Rightarrow> string option" where
  "message_event rfc m =
     (if nm_key m = ''bid.placed'' then map_option bid_placed_id (Option.bind (nm_value m) (decode_bid_placed rfc))
      else if nm_key m = ''bid.outbid'' then map_option outbid_id (Option.bind (nm_value m) decode_outbid)
      else if nm_key m = ''auction.won'' then map_option won_id (Option.bind (nm_value m) (decode_won rfc))
      else if nm_key m = ''auction.ended'' then map_option ended_id (Option.bind (nm_value m) (decode_ended rfc))
      else None)"

text \<open>Redelivery. With Redis up, handling a message again within a day of its first handling is the same
  as not handling it: no row, no push, no mail, no key changes.\<close>

theorem redelivery_idle:
  assumes "redis_up s" and "dispatch rfc dr m s = Some (True, s1)" and "nd_now dr2 < nd_now dr + processed_ttl"
    and "\<forall>e. message_event rfc m = Some e \<longrightarrow> key_fresh e (nd_now dr) (nd_now dr2) s"
  shows "dispatch rfc dr2 m s1 = Some (True, s1)"
proof -
  consider (placed) ev where "nm_key m = ''bid.placed''" "Option.bind (nm_value m) (decode_bid_placed rfc) = Some ev" "s1 = handle_bid_placed dr ev s"
    | (outbid) ev where "nm_key m = ''bid.outbid''" "Option.bind (nm_value m) decode_outbid = Some ev" "s1 = handle_outbid dr ev s"
    | (won) ev where "nm_key m = ''auction.won''" "Option.bind (nm_value m) (decode_won rfc) = Some ev" "s1 = handle_auction_won dr ev s"
    | (ended) ev where "nm_key m = ''auction.ended''" "Option.bind (nm_value m) (decode_ended rfc) = Some ev" "handle_auction_ended dr ev s = Some s1"
    | (unknown) "nm_key m \<notin> {''bid.placed'', ''bid.outbid'', ''auction.won'', ''auction.ended''}"
    using assms(2) unfolding dispatch_def by (auto split: if_splits option.splits simp del: bind_eq_Some_conv)
  then show ?thesis
  proof cases
    case placed
    then have "handled (bid_placed_id ev) (nd_now dr2) s1"
      using handlers_handle(1) [OF assms(1,3)] assms(4) by (simp add: message_event_def)
    with placed show ?thesis by (simp add: dispatch_def handlers_idle)
  next
    case outbid
    then have "handled (outbid_id ev) (nd_now dr2) s1"
      using handlers_handle(2) [OF assms(1,3)] assms(4) by (simp add: message_event_def)
    with outbid show ?thesis by (simp add: dispatch_def handlers_idle)
  next
    case won
    then have "handled (won_id ev) (nd_now dr2) s1"
      using handlers_handle(3) [OF assms(1,3)] assms(4) by (simp add: message_event_def)
    with won show ?thesis by (simp add: dispatch_def handlers_idle)
  next
    case ended
    then have "handled (ended_id ev) (nd_now dr2) s1"
      using ended_handles [OF assms(1,3) _ ended(3)] assms(4) by (simp add: message_event_def)
    with ended show ?thesis by (simp add: dispatch_def handlers_idle)
  qed (simp add: dispatch_def)
qed

theorem redelivery_idle_witness:
  "\<exists>s1. dispatch (\<lambda>_. None) (demo_draw ''n1'' 0) demo_bid_message idle_notif_sys = Some (True, s1) \<and>
     dispatch (\<lambda>_. None) (demo_draw ''n2'' hour) demo_bid_message s1 = Some (True, s1)"
proof -
  obtain s1 where s1: "dispatch (\<lambda>_. None) (demo_draw ''n1'' 0) demo_bid_message idle_notif_sys = Some (True, s1)"
    by (simp add: demo_bid_message_def dispatch_def decode_bid_placed_def field_string_def field_number_def field_time_def json_field_def)
  have up: "redis_up idle_notif_sys" by (simp add: redis_up_def idle_notif_sys_def)
  have "key_fresh e 0 hour idle_notif_sys" for e by (simp add: key_fresh_def idle_notif_sys_def live_def)
  then have "dispatch (\<lambda>_. None) (demo_draw ''n2'' hour) demo_bid_message s1 = Some (True, s1)"
    by (intro redelivery_idle [OF up s1]) (simp_all add: demo_draw_def processed_ttl_def hour_def minute_def second_def)
  with s1 show ?thesis by blast
qed

text \<open>A winner id of fewer than eight characters stops the consumer. The handler panics on such an event, its
  message is never committed, and so every restart meets it again.\<close>

theorem short_winner_halts:
  assumes "nm_key m = ''auction.ended''" and "Option.bind (nm_value m) (decode_ended rfc) = Some ev"
    and "ne_winner ev \<noteq> ''''" and "length (ne_winner ev) < 8" and "ne_seller ev \<noteq> ''''"
    and "\<not> fst (is_processed (ended_id ev) (nd_now dr) (nr_sys r))"
  shows "run_consumer rfc has_dlq ((dr, m) # ms) r = None"
proof -
  obtain s1 where p: "is_processed (ended_id ev) (nd_now dr) (nr_sys r) = (False, s1)" using assms(6) by (cases "is_processed (ended_id ev) (nd_now dr) (nr_sys r)") auto
  have "handle_auction_ended dr ev (nr_sys r) = None"
    using p assms(3-5) by (simp add: handle_auction_ended_def notify_seller_def seller_texts_def)
  with assms(1,2) show ?thesis by (simp add: consume_one_def dispatch_def)
qed

definition short_winner_message :: nmessage where
  "short_winner_message = \<lparr>nm_key = ''auction.ended'', nm_value = Some [(''auction_id'', JString ''a1''),
     (''seller_id'', JString ''seller''), (''winner_id'', JString ''bob'')], nm_offset = 3\<rparr>"

theorem short_winner_halts_witness:
  "run_consumer (\<lambda>_. None) True [(demo_draw ''n1'' 0, short_winner_message)] idle_reader = None"
  by (rule short_winner_halts [where ev = "\<lparr>ne_auction = ''a1'', ne_seller = ''seller'', ne_title = '''', ne_winner = ''bob'', ne_amount = 0, ne_time = None\<rparr>"])
    (simp_all add: short_winner_message_def decode_ended_def field_string_def field_number_def field_time_def json_field_def
      idle_reader_def idle_notif_sys_def is_processed_def live_def redis_fails_def Let_def)

text \<open>Outbid twice, told once. The key of an outbid event names the auction and the bidder but not the
  bid, so a bidder who bids again and is outbid again within a day is not told.\<close>

theorem second_outbid_silent:
  assumes "redis_up s" and "ob_auction ev2 = ob_auction ev" and "ob_user ev2 = ob_user ev"
    and "key_fresh (outbid_id ev) (nd_now dr) (nd_now dr2) s" and "nd_now dr2 < nd_now dr + processed_ttl"
  shows "handle_outbid dr2 ev2 (handle_outbid dr ev s) = handle_outbid dr ev s"
proof -
  have "outbid_id ev2 = outbid_id ev" using assms(2,3) by (simp add: outbid_id_def)
  with handlers_handle(2) [OF assms(1,5,4)] show ?thesis by (simp add: handlers_idle)
qed

theorem second_outbid_silent_witness:
  "handle_outbid (demo_draw ''n2'' hour) \<lparr>ob_auction = ''a1'', ob_user = ''u1'', ob_email = '''', ob_amount = 30, ob_bidder = ''u3''\<rparr>
     (handle_outbid (demo_draw ''n1'' 0) \<lparr>ob_auction = ''a1'', ob_user = ''u1'', ob_email = '''', ob_amount = 20, ob_bidder = ''u2''\<rparr> idle_notif_sys) =
   handle_outbid (demo_draw ''n1'' 0) \<lparr>ob_auction = ''a1'', ob_user = ''u1'', ob_email = '''', ob_amount = 20, ob_bidder = ''u2''\<rparr> idle_notif_sys"
  by (rule second_outbid_silent)
    (simp_all add: redis_up_def idle_notif_sys_def key_fresh_def live_def demo_draw_def processed_ttl_def hour_def minute_def second_def)

text \<open>A failed insert is final. When the database does not answer, the notification is not stored, but the event
  is marked as processed all the same, and a redelivery with the database back stores nothing.\<close>

theorem failed_insert_lost:
  assumes "redis_up s" and "next_fault (ns_sess s)" and "live (processed_key (bid_placed_id ev)) (nd_now dr) (ns_redis s) = None"
    and "nd_now dr2 < nd_now dr + processed_ttl"
  shows "ns_db (handle_bid_placed dr2 ev (handle_bid_placed dr ev s)) = ns_db s"
proof -
  have "handled (bid_placed_id ev) (nd_now dr2) (handle_bid_placed dr ev s)"
    by (rule handlers_handle(1) [OF assms(1,4)]) (use assms(3) in \<open>simp add: key_fresh_def\<close>)
  then have "handle_bid_placed dr2 ev (handle_bid_placed dr ev s) = handle_bid_placed dr ev s" by (simp add: handlers_idle)
  moreover have "db (snd (create_notif n (ns_sess s))) = db (ns_sess s)" for n
    using assms(2) by (simp add: create_notif_def pool_exec_def)
  ultimately show ?thesis
    using assms(1,3) handler_shapes(1) [of dr ev s] by (auto simp: notified_def is_processed_up ns_db_def)
qed

theorem failed_insert_lost_witness:
  "ns_db (handle_bid_placed (demo_draw ''n2'' hour) \<lparr>bp_bid = ''b'', bp_auction = ''a'', bp_user = ''u'', bp_amount = 10, bp_time = None\<rparr>
     (handle_bid_placed (demo_draw ''n1'' 0) \<lparr>bp_bid = ''b'', bp_auction = ''a'', bp_user = ''u'', bp_amount = 10, bp_time = None\<rparr>
       (idle_notif_sys\<lparr>ns_sess := \<lparr>db = \<lparr>notifs = [], deliveries = []\<rparr>, aborted = False, faults = [True]\<rparr>\<rparr>)))
   = \<lparr>notifs = [], deliveries = []\<rparr>"
  by (subst failed_insert_lost)
    (simp_all add: redis_up_def idle_notif_sys_def live_def demo_draw_def processed_ttl_def hour_def minute_def second_def next_fault_def ns_db_def)

text \<open>Reading. After a user has marked all as read the count of unread notifications is zero for that user
  and unchanged for every other.\<close>

theorem read_all_counts:
  assumes "faults s = []" and "mark_all_read u s = (res, s1)"
  shows "unread_count v s1 = (if v = u then (Inr 0, s1) else (fst (unread_count v s), s1))"
proof -
  have s1: "s1 = s\<lparr>db := (db s)\<lparr>notifs := update_where (\<lambda>n. nf_user n = u \<and> \<not> nf_read n) (\<lambda>n. n\<lparr>nf_read := True\<rparr>) (notifs (db s))\<rparr>\<rparr>"
    using assms by (cases s) (auto simp: mark_all_read_def pool_exec_def next_fault_def Session.tick_def)
  have "length (filter (\<lambda>n. nf_user n = v \<and> \<not> nf_read n) (update_where (\<lambda>n. nf_user n = u \<and> \<not> nf_read n) (\<lambda>n. n\<lparr>nf_read := True\<rparr>) ns)) =
      (if v = u then 0 else length (filter (\<lambda>n. nf_user n = v \<and> \<not> nf_read n) ns))" for ns :: "notif list"
    by (induction ns) auto
  with assms(1) show ?thesis by (simp add: s1 unread_count_def pool_query_run)
qed

theorem read_all_counts_witness:
  "fst (unread_count ''u'' (snd (mark_all_read ''u'' (ns_sess idle_notif_sys)))) = Inr 0"
proof -
  obtain res s1 where m: "mark_all_read ''u'' (ns_sess idle_notif_sys) = (res, s1)" by fastforce
  show ?thesis using read_all_counts [OF _ m, of "''u''"] m by (simp add: idle_notif_sys_def)
qed

end
