(* ===== verification/Hubs.thy ===== *)
theory Hubs
  imports Prelude
begin

text \<open>
  The WebSocket hubs: rooms of connected clients in the bid service (\<^verbatim>\<open>internal/websocket/hub.go\<close>) and clients by
  user in the notification service (its \<^verbatim>\<open>internal/websocket/hub.go\<close>).

  A client is a number, given out in the order of the connections, as every connection makes a new
  \<^verbatim>\<open>Client\<close>. Its \<^verbatim>\<open>send\<close> channel is the queue of its messages and whether it has been closed. Closing a closed channel and
  sending on a closed channel panic: an operation that panics has the result \<open>None\<close>. The clients of a room are a
  list; a Go map is ranged over in another order, but every client is served by itself.
\<close>

record 'm chan =
  ch_queue :: "'m list"
  ch_closed :: bool

definition chan_cap :: nat where "chan_cap = 256"

definition chan_close :: "'m chan \<Rightarrow> 'm chan option" where
  "chan_close c = (if ch_closed c then None else Some (c\<lparr>ch_closed := True\<rparr>))"

text \<open>A non-blocking send: whether the message was taken.\<close>

definition chan_send :: "'m \<Rightarrow> 'm chan \<Rightarrow> (bool \<times> 'm chan) option" where
  "chan_send m c = (if ch_closed c then None
     else if length (ch_queue c) < chan_cap then Some (True, c\<lparr>ch_queue := ch_queue c @ [m]\<rparr>)
     else Some (False, c))"

record 'm hub =
  hb_rooms :: "string \<Rightarrow> nat list option"
  hb_chans :: "nat \<Rightarrow> 'm chan"
  hb_room_of :: "nat \<Rightarrow> string"
  hb_next :: nat
  hb_gauge :: int
  hb_online :: "string set"

definition new_hub :: "'m hub" where
  "new_hub = \<lparr>hb_rooms = (\<lambda>_. None), hb_chans = (\<lambda>_. \<lparr>ch_queue = [], ch_closed = False\<rparr>), hb_room_of = (\<lambda>_. ''''),
     hb_next = 0, hb_gauge = 0, hb_online = {}\<rparr>"

subsection \<open>The loop of the bid service's hub\<close>

text \<open>A new client and its registration.\<close>

definition hub_register :: "string \<Rightarrow> 'm hub \<Rightarrow> 'm hub" where
  "hub_register a h = (let c = hb_next h; room = (case hb_rooms h a of None \<Rightarrow> [] | Some cs \<Rightarrow> cs) in
     h\<lparr>hb_next := c + 1, hb_room_of := (hb_room_of h)(c := a),
       hb_chans := (hb_chans h)(c := \<lparr>ch_queue = [], ch_closed = False\<rparr>),
       hb_rooms := (hb_rooms h)(a \<mapsto> room @ [c]), hb_gauge := hb_gauge h + 1\<rparr>)"

definition hub_unregister :: "nat \<Rightarrow> 'm hub \<Rightarrow> 'm hub option" where
  "hub_unregister c h = (let a = hb_room_of h c in case hb_rooms h a of
     None \<Rightarrow> Some h
   | Some room \<Rightarrow>
       if c \<in> set room then
         (case chan_close (hb_chans h c) of None \<Rightarrow> None
          | Some ch \<Rightarrow>
              let room' = removeAll c room in
              Some (h\<lparr>hb_chans := (hb_chans h)(c := ch),
                      hb_rooms := (hb_rooms h)(a := (if room' = [] then None else Some room')),
                      hb_gauge := hb_gauge h - 1\<rparr>))
       else Some h)"

text \<open>One client of a broadcast: a full buffer gets it removed.\<close>

definition hub_serve :: "string \<Rightarrow> 'm \<Rightarrow> nat \<Rightarrow> 'm hub \<Rightarrow> 'm hub option" where
  "hub_serve a m c h = (case chan_send m (hb_chans h c) of
     None \<Rightarrow> None
   | Some (True, ch) \<Rightarrow> Some (h\<lparr>hb_chans := (hb_chans h)(c := ch)\<rparr>)
   | Some (False, ch) \<Rightarrow>
       (case chan_close ch of None \<Rightarrow> None
        | Some ch' \<Rightarrow> Some (h\<lparr>hb_rooms := (hb_rooms h)(a := map_option (removeAll c) (hb_rooms h a)),
                              hb_chans := (hb_chans h)(c := ch')\<rparr>)))"

fun hub_serve_all :: "string \<Rightarrow> 'm \<Rightarrow> nat list \<Rightarrow> 'm hub \<Rightarrow> 'm hub option" where
  "hub_serve_all a m [] h = Some h"
| "hub_serve_all a m (c # cs) h = Option.bind (hub_serve a m c h) (hub_serve_all a m cs)"

definition hub_broadcast :: "string \<Rightarrow> 'm \<Rightarrow> 'm hub \<Rightarrow> 'm hub option" where
  "hub_broadcast a m h = (case hb_rooms h a of None \<Rightarrow> Some h | Some room \<Rightarrow> hub_serve_all a m room h)"

text \<open>The write pump of a client takes what is queued.\<close>

definition hub_drain :: "nat \<Rightarrow> nat \<Rightarrow> 'm hub \<Rightarrow> 'm hub" where
  "hub_drain c n h = h\<lparr>hb_chans := (hb_chans h)(c := (hb_chans h c)\<lparr>ch_queue := drop n (ch_queue (hb_chans h c))\<rparr>)\<rparr>"

datatype 'm hub_event = Register string | Unregister nat | Broadcast string 'm | Drain nat nat

fun hub_do :: "'m hub_event \<Rightarrow> 'm hub \<Rightarrow> 'm hub option" where
  "hub_do (Register a) h = Some (hub_register a h)"
| "hub_do (Unregister c) h = hub_unregister c h"
| "hub_do (Broadcast a m) h = hub_broadcast a m h"
| "hub_do (Drain c n) h = Some (hub_drain c n h)"

fun hub_run :: "'m hub_event list \<Rightarrow> 'm hub \<Rightarrow> 'm hub option" where
  "hub_run [] h = Some h"
| "hub_run (e # es) h = Option.bind (hub_do e h) (hub_run es)"

subsection \<open>The hub of the notification service\<close>

text \<open>Its loop has the same rooms, by user, keeps the presence of users in Redis instead of a gauge, and delivers through another goroutine.\<close>

definition user_register :: "string \<Rightarrow> 'm hub \<Rightarrow> 'm hub" where
  "user_register u h = (hub_register u h)\<lparr>hb_gauge := hb_gauge h, hb_online := insert u (hb_online h)\<rparr>"

definition user_unregister :: "nat \<Rightarrow> 'm hub \<Rightarrow> 'm hub option" where
  "user_unregister c h = (case hub_unregister c h of None \<Rightarrow> None
     | Some h' \<Rightarrow> Some (h'\<lparr>hb_gauge := hb_gauge h,
         hb_online := (if hb_rooms h (hb_room_of h c) \<noteq> None \<and> hb_rooms h' (hb_room_of h c) = None
           then hb_online h - {hb_room_of h c} else hb_online h)\<rparr>))"

definition deliver_local :: "string \<Rightarrow> 'm \<Rightarrow> 'm hub \<Rightarrow> 'm hub option" where
  "deliver_local = hub_broadcast"

text \<open>\<^verbatim>\<open>SendToUser\<close>: through Redis every pod delivers it; without Redis only this one.\<close>

definition send_to_user :: "bool \<Rightarrow> nat \<Rightarrow> string \<Rightarrow> 'm \<Rightarrow> 'm hub list \<Rightarrow> 'm hub list option" where
  "send_to_user published here u m pods =
     (if published then those (map (deliver_local u m) pods)
      else map_option (\<lambda>h. pods[here := h]) (deliver_local u m (pods ! here)))"

definition online_count :: "string list \<Rightarrow> 'm hub \<Rightarrow> nat" where
  "online_count users h = length (filter (\<lambda>u. hb_rooms h u \<noteq> None) users)"

subsection \<open>The bid service's hub never panics\<close>

definition client_ok :: "'m hub \<Rightarrow> string \<Rightarrow> nat \<Rightarrow> bool" where
  "client_ok h a c \<longleftrightarrow> c < hb_next h \<and> hb_room_of h c = a \<and> \<not> ch_closed (hb_chans h c) \<and> length (ch_queue (hb_chans h c)) \<le> chan_cap"

definition hub_ok :: "'m hub \<Rightarrow> bool" where
  "hub_ok h \<longleftrightarrow> (\<forall>a room. hb_rooms h a = Some room \<longrightarrow> distinct room \<and> (\<forall>c \<in> set room. client_ok h a c))"

lemma hub_okI:
  assumes "\<And>a room. hb_rooms h a = Some room \<Longrightarrow> distinct room"
    and "\<And>a room c. hb_rooms h a = Some room \<Longrightarrow> c \<in> set room \<Longrightarrow> client_ok h a c"
  shows "hub_ok h"
  using assms by (simp add: hub_ok_def)

lemma hub_ok_distinct: "hub_ok h \<Longrightarrow> hb_rooms h a = Some room \<Longrightarrow> distinct room"
  by (simp add: hub_ok_def)

lemma hub_okD: "hub_ok h \<Longrightarrow> hb_rooms h a = Some room \<Longrightarrow> c \<in> set room \<Longrightarrow> client_ok h a c"
  by (simp add: hub_ok_def)

lemma client_room: "client_ok h a c \<Longrightarrow> hb_room_of h c = a"
  by (simp add: client_ok_def)

text \<open>Clients other than the one whose channel changes stay as they are.\<close>

lemma client_ok_other:
  "client_ok h a c' \<Longrightarrow> c' \<noteq> c \<Longrightarrow> hb_next h \<le> hb_next h' \<Longrightarrow> hb_room_of h' c' = hb_room_of h c' \<Longrightarrow>
     hb_chans h' c' = hb_chans h c' \<Longrightarrow> client_ok h' a c'"
  by (simp add: client_ok_def)

text \<open>Taking a client out of its room, whatever becomes of its channel.\<close>

lemma hub_ok_leave:
  assumes "hub_ok h" and "hb_rooms h a = Some room" and "c \<in> set room"
    and "hb_rooms h' = (hb_rooms h)(a := r)" and "r = None \<or> r = Some (removeAll c room)"
    and "hb_chans h' = (hb_chans h)(c := x)" and "hb_next h' = hb_next h" and "hb_room_of h' = hb_room_of h"
  shows "hub_ok h'"
proof (rule hub_okI)
  fix b room' assume r: "hb_rooms h' b = Some room'"
  with assms hub_ok_distinct [OF assms(1)] show "distinct room'" by (auto simp: distinct_removeAll split: if_splits)
  fix c' assume "c' \<in> set room'"
  then have c': "\<exists>room1. hb_rooms h b = Some room1 \<and> c' \<in> set room1" "c' \<noteq> c \<or> b \<noteq> a"
    using r assms(2,4,5) by (auto split: if_splits)
  then have ok: "client_ok h b c'" using hub_okD [OF assms(1)] by blast
  have "c' \<noteq> c" using c'(2) client_room [OF ok] client_room [OF hub_okD [OF assms(1-3)]] by auto
  with ok show "client_ok h' b c'" by (rule client_ok_other [where c = c]) (use assms \<open>c' \<noteq> c\<close> in simp_all)
qed

lemma hub_ok_chan:
  assumes "hub_ok h" and "hb_chans h' = (hb_chans h)(c := x)" and "hb_rooms h' = hb_rooms h"
    and "hb_next h' = hb_next h" and "hb_room_of h' = hb_room_of h"
    and "\<not> ch_closed (hb_chans h c) \<Longrightarrow> length (ch_queue (hb_chans h c)) \<le> chan_cap \<Longrightarrow> \<not> ch_closed x \<and> length (ch_queue x) \<le> chan_cap"
  shows "hub_ok h'"
proof (rule hub_okI)
  fix b room' assume r: "hb_rooms h' b = Some room'"
  then show "distinct room'" using assms(1,3) hub_ok_distinct by simp
  fix c' assume "c' \<in> set room'"
  then have "client_ok h b c'" using r assms(1,3) hub_okD by simp
  with assms show "client_ok h' b c'" by (cases "c' = c") (auto simp: client_ok_def)
qed

lemma register_ok:
  assumes "hub_ok h"
  shows "hub_ok (hub_register a h)"
proof (rule hub_okI)
  let ?h' = "hub_register a h"
  have fresh: "c < hb_next h" if "hb_rooms h b = Some room" "c \<in> set room" for b room c
    using hub_okD [OF assms that] by (simp add: client_ok_def)
  fix b room assume r: "hb_rooms ?h' b = Some room"
  show "distinct room"
  proof (cases "b = a \<and> hb_rooms h a \<noteq> None")
    case True
    then obtain old where old: "hb_rooms h a = Some old" by blast
    then have "room = old @ [hb_next h]" using r True by (simp add: hub_register_def Let_def)
    then show ?thesis using hub_ok_distinct [OF assms old] fresh [OF old, of "hb_next h"] by auto
  next
    case False
    then show ?thesis using r hub_ok_distinct [OF assms, of b] by (cases "b = a") (auto simp: hub_register_def Let_def)
  qed
  fix c assume "c \<in> set room"
  then consider "c = hb_next h" "b = a" | room1 where "hb_rooms h b = Some room1" "c \<in> set room1"
    using r by (auto simp: hub_register_def Let_def split: if_splits option.splits)
  then show "client_ok ?h' b c"
  proof cases
    case 1
    then show ?thesis by (simp add: client_ok_def hub_register_def Let_def)
  next
    case 2
    then show ?thesis
      by (intro client_ok_other [where h = h and c = "hb_next h", OF hub_okD [OF assms 2]])
        (use fresh [OF 2] in \<open>simp_all add: hub_register_def Let_def\<close>)
  qed
qed

lemma unregister_ok:
  assumes "hub_ok h"
  shows "\<exists>h'. hub_unregister c h = Some h' \<and> hub_ok h'"
proof (cases "hb_rooms h (hb_room_of h c)")
  case None
  with assms show ?thesis by (simp add: hub_unregister_def)
next
  case (Some room)
  show ?thesis
  proof (cases "c \<in> set room")
    case True
    with hub_okD [OF assms Some] have "\<not> ch_closed (hb_chans h c)" by (simp add: client_ok_def)
    moreover have "hub_ok (h\<lparr>hb_chans := (hb_chans h)(c := x),
        hb_rooms := (hb_rooms h)(hb_room_of h c := (if removeAll c room = [] then None else Some (removeAll c room))),
        hb_gauge := g\<rparr>)" for x g
      by (rule hub_ok_leave [where x = x and r = "if removeAll c room = [] then None else Some (removeAll c room)", OF assms Some True]) auto
    ultimately show ?thesis using Some True by (simp add: hub_unregister_def chan_close_def Let_def)
  next
    case False
    with assms Some show ?thesis by (simp add: hub_unregister_def)
  qed
qed

lemma serve_ok:
  assumes "hub_ok h" and "hb_rooms h a = Some room" and "c \<in> set room"
  shows "\<exists>h' room'. hub_serve a m c h = Some h' \<and> hub_ok h' \<and> hb_rooms h' a = Some room' \<and> set room - {c} \<subseteq> set room'"
proof -
  have c: "\<not> ch_closed (hb_chans h c)" using hub_okD [OF assms] by (simp add: client_ok_def)
  show ?thesis
  proof (cases "length (ch_queue (hb_chans h c)) < chan_cap")
    case True
    have "hub_ok (h\<lparr>hb_chans := (hb_chans h)(c := (hb_chans h c)\<lparr>ch_queue := ch_queue (hb_chans h c) @ [m]\<rparr>)\<rparr>)"
      by (rule hub_ok_chan [where c = c, OF assms(1)]) (use True in auto)
    with c True assms(2) show ?thesis by (auto simp: hub_serve_def chan_send_def)
  next
    case False
    have "hub_ok (h\<lparr>hb_rooms := (hb_rooms h)(a := map_option (removeAll c) (hb_rooms h a)),
        hb_chans := (hb_chans h)(c := (hb_chans h c)\<lparr>ch_closed := True\<rparr>)\<rparr>)"
      by (rule hub_ok_leave [where x = "(hb_chans h c)\<lparr>ch_closed := True\<rparr>" and r = "Some (removeAll c room)", OF assms]) (use assms(2) in auto)
    with c False assms(2) show ?thesis by (auto simp: hub_serve_def chan_send_def chan_close_def)
  qed
qed

lemma serve_all_ok:
  assumes "hub_ok h" and "hb_rooms h a = Some room" and "set cs \<subseteq> set room" and "distinct cs"
  shows "\<exists>h'. hub_serve_all a m cs h = Some h' \<and> hub_ok h'"
  using assms
proof (induction cs arbitrary: h room)
  case (Cons c cs)
  from serve_ok [OF Cons.prems(1,2), of c m] Cons.prems(3) obtain h1 room1 where h1: "hub_serve a m c h = Some h1" "hub_ok h1"
    "hb_rooms h1 a = Some room1" "set room - {c} \<subseteq> set room1" by auto
  moreover have "set cs \<subseteq> set room1" using Cons.prems(3,4) h1(4) by auto
  ultimately show ?case using Cons.IH [OF h1(2,3)] Cons.prems(4) by simp
qed simp

lemma broadcast_ok:
  assumes "hub_ok h"
  shows "\<exists>h'. hub_broadcast a m h = Some h' \<and> hub_ok h'"
proof (cases "hb_rooms h a")
  case None
  with assms show ?thesis by (simp add: hub_broadcast_def)
next
  case (Some room)
  with serve_all_ok [OF assms Some _ hub_ok_distinct [OF assms Some]] show ?thesis by (simp add: hub_broadcast_def)
qed

lemma drain_ok: "hub_ok h \<Longrightarrow> hub_ok (hub_drain c n h)"
  unfolding hub_drain_def
  by (erule hub_ok_chan [where c = c and x = "(hb_chans h c)\<lparr>ch_queue := drop n (ch_queue (hb_chans h c))\<rparr>"]) auto

lemma hub_do_ok: "hub_ok h \<Longrightarrow> \<exists>h'. hub_do e h = Some h' \<and> hub_ok h'"
  by (cases e) (simp_all add: register_ok unregister_ok broadcast_ok drain_ok)

text \<open>The hub of the bid service does not panic. Over any registrations, departures, broadcasts and slow readers no
  channel is closed twice or written after closing, and every client in a room is open, in its own
  room only, with at most a full buffer waiting.\<close>

theorem hub_never_panics: "\<exists>h. hub_run es new_hub = Some h \<and> hub_ok h"
proof -
  have "hub_ok h \<Longrightarrow> \<exists>h'. hub_run es h = Some h' \<and> hub_ok h'" for h :: "'a hub"
    using hub_do_ok by (induction es arbitrary: h) (fastforce simp: bind_eq_Some_conv)+
  moreover have "hub_ok (new_hub :: 'a hub)" by (simp add: hub_ok_def new_hub_def)
  ultimately show ?thesis by blast
qed

subsection \<open>Slow readers\<close>

text \<open>An evicted client is never taken off the books. A client with a full buffer is removed by the next
  broadcast; its later departure then finds nothing to do, so the connection gauge still counts it and the empty room stays.\<close>

theorem eviction_not_counted:
  assumes "hub_ok h" and "hb_rooms h a = Some [c]" and "length (ch_queue (hb_chans h c)) = chan_cap"
  shows "\<exists>h'. hub_run [Broadcast a m, Unregister c] h = Some h' \<and> hb_gauge h' = hb_gauge h \<and> hb_rooms h' a = Some []"
proof -
  have "client_ok h a c" using hub_okD [OF assms(1,2)] by simp
  with assms(2,3) show ?thesis
    by (simp add: client_ok_def hub_broadcast_def hub_serve_def chan_send_def chan_close_def hub_unregister_def)
qed

text \<open>A hub with one client that does not read.\<close>

definition stuck_hub :: "nat hub" where
  "stuck_hub = (let h = hub_register ''a'' new_hub in h\<lparr>hb_chans := (hb_chans h)(0 := \<lparr>ch_queue = replicate 256 0, ch_closed = False\<rparr>)\<rparr>)"

lemma stuck_hub_ok: "hub_ok stuck_hub" "hb_rooms stuck_hub ''a'' = Some [0]"
  "length (ch_queue (hb_chans stuck_hub 0)) = chan_cap" "\<not> ch_closed (hb_chans stuck_hub 0)"
  by (auto simp: hub_ok_def client_ok_def stuck_hub_def hub_register_def new_hub_def chan_cap_def Let_def split: if_splits)

theorem eviction_not_counted_witness:
  "\<exists>h'. hub_run [Broadcast ''a'' 7, Unregister 0] stuck_hub = Some h' \<and> hb_gauge h' = 1"
  using eviction_not_counted [OF stuck_hub_ok(1-3), of 7] by (auto simp: stuck_hub_def hub_register_def new_hub_def Let_def)

text \<open>In the notification service the user of an evicted client stays online. After the eviction and the client's
  departure the user has no connection but still an entry, and its presence is not withdrawn.\<close>

theorem evicted_stays_online:
  assumes "hub_ok h" and "hb_rooms h u = Some [c]" and "length (ch_queue (hb_chans h c)) = chan_cap" and "u \<in> hb_online h"
  shows "\<exists>h1 h2. deliver_local u m h = Some h1 \<and> user_unregister c h1 = Some h2 \<and> u \<in> hb_online h2 \<and>
    hb_rooms h2 u = Some [] \<and> online_count [u] h2 = 1"
proof -
  have "client_ok h u c" using hub_okD [OF assms(1,2)] by simp
  with assms(2-4) show ?thesis
    by (simp add: client_ok_def deliver_local_def hub_broadcast_def hub_serve_def chan_send_def chan_close_def hub_unregister_def
        user_unregister_def online_count_def)
qed

theorem evicted_stays_online_witness:
  "\<exists>h1 h2. deliver_local ''a'' 7 (stuck_hub\<lparr>hb_online := {''a''}\<rparr>) = Some h1 \<and> user_unregister 0 h1 = Some h2 \<and> ''a'' \<in> hb_online h2"
  using evicted_stays_online [of "stuck_hub\<lparr>hb_online := {''a''}\<rparr>" "''a''" 0 7] stuck_hub_ok
  by (auto simp: hub_ok_def client_ok_def)

subsection \<open>Deliveries from several goroutines\<close>

text \<open>
  \<^verbatim>\<open>deliverLocal\<close> holds the lock only to look the user up and to remove a client. Between those points deliveries
  of the Redis subscriber and of the local fallback interleave: a delivery has the clients still to
  serve, and the client it has found full and is about to remove. \<open>None\<close> is the panic.
\<close>

record 'm deliveries_state =
  ds_hub :: "'m hub"
  ds_todo :: "nat \<Rightarrow> (string \<times> 'm \<times> nat list) option"
  ds_full :: "nat \<Rightarrow> nat option"

inductive deliver_step :: "'m deliveries_state option \<Rightarrow> 'm deliveries_state option \<Rightarrow> bool" where
  start: "ds_todo s i = None \<Longrightarrow> hb_rooms (ds_hub s) u = Some room \<Longrightarrow>
    deliver_step (Some s) (Some (s\<lparr>ds_todo := (ds_todo s)(i \<mapsto> (u, m, room))\<rparr>))"
| sent: "ds_todo s i = Some (u, m, c # cs) \<Longrightarrow> ds_full s i = None \<Longrightarrow> chan_send m (hb_chans (ds_hub s) c) = Some (True, ch) \<Longrightarrow>
    deliver_step (Some s) (Some (s\<lparr>ds_hub := (ds_hub s)\<lparr>hb_chans := (hb_chans (ds_hub s))(c := ch)\<rparr>,
      ds_todo := (ds_todo s)(i \<mapsto> (u, m, cs))\<rparr>))"
| full: "ds_todo s i = Some (u, m, c # cs) \<Longrightarrow> ds_full s i = None \<Longrightarrow> chan_send m (hb_chans (ds_hub s) c) = Some (False, ch) \<Longrightarrow>
    deliver_step (Some s) (Some (s\<lparr>ds_full := (ds_full s)(i \<mapsto> c)\<rparr>))"
| send_closed: "ds_todo s i = Some (u, m, c # cs) \<Longrightarrow> ds_full s i = None \<Longrightarrow> chan_send m (hb_chans (ds_hub s) c) = None \<Longrightarrow>
    deliver_step (Some s) None"
| evict: "ds_todo s i = Some (u, m, c # cs) \<Longrightarrow> ds_full s i = Some c \<Longrightarrow> chan_close (hb_chans (ds_hub s) c) = Some ch \<Longrightarrow>
    deliver_step (Some s) (Some (s\<lparr>ds_hub := (ds_hub s)\<lparr>hb_rooms := (hb_rooms (ds_hub s))(u := map_option (removeAll c) (hb_rooms (ds_hub s) u)),
        hb_chans := (hb_chans (ds_hub s))(c := ch)\<rparr>,
      ds_todo := (ds_todo s)(i \<mapsto> (u, m, cs)), ds_full := (ds_full s)(i := None)\<rparr>))"
| close_closed: "ds_todo s i = Some (u, m, c # cs) \<Longrightarrow> ds_full s i = Some c \<Longrightarrow> chan_close (hb_chans (ds_hub s) c) = None \<Longrightarrow>
    deliver_step (Some s) None"
| finish: "ds_todo s i = Some (u, m, []) \<Longrightarrow> deliver_step (Some s) (Some (s\<lparr>ds_todo := (ds_todo s)(i := None)\<rparr>))"

inductive_cases deliver_stepE: "deliver_step (Some s) s'"

text \<open>A single delivery cannot panic: the clients it has left are open while nobody else touches them.\<close>

lemma single_delivery_safe:
  assumes "deliver_step (Some s) None" and "\<forall>j. j \<noteq> i \<longrightarrow> ds_todo s j = None"
    and "\<forall>u m cs. ds_todo s i = Some (u, m, cs) \<longrightarrow> (\<forall>c \<in> set cs. \<not> ch_closed (hb_chans (ds_hub s) c))"
  shows False
proof -
  have live: "\<not> ch_closed (hb_chans (ds_hub s) c)" if "ds_todo s j = Some (u, m, c # cs)" for j u m c cs
    using assms(2,3) that by (cases "j = i") auto
  from assms(1) show False
    by (rule deliver_stepE) (auto simp: chan_send_def chan_close_def dest: live split: if_splits)
qed

text \<open>Two deliveries to one slow client can panic. Both find its buffer full before either removes it, and the second
  closes a channel that the first has closed.\<close>

theorem concurrent_deliveries_panic:
  assumes "hub_ok h" and "hb_rooms h u = Some [c]" and "length (ch_queue (hb_chans h c)) = chan_cap"
  shows "deliver_step\<^sup>*\<^sup>* (Some \<lparr>ds_hub = h, ds_todo = (\<lambda>_. None), ds_full = (\<lambda>_. None)\<rparr>) None"
proof -
  have c: "\<not> ch_closed (hb_chans h c)" using hub_okD [OF assms(1,2)] by (simp add: client_ok_def)
  let ?s0 = "\<lparr>ds_hub = h, ds_todo = (\<lambda>_. None), ds_full = (\<lambda>_. None)\<rparr>"
  let ?s1 = "?s0\<lparr>ds_todo := (ds_todo ?s0)(0 \<mapsto> (u, m, [c]))\<rparr>"
  let ?s2 = "?s1\<lparr>ds_todo := (ds_todo ?s1)(1 \<mapsto> (u, m, [c]))\<rparr>"
  let ?s3 = "?s2\<lparr>ds_full := (ds_full ?s2)(0 \<mapsto> c)\<rparr>"
  let ?s4 = "?s3\<lparr>ds_full := (ds_full ?s3)(1 \<mapsto> c)\<rparr>"
  let ?ch = "(hb_chans h c)\<lparr>ch_closed := True\<rparr>"
  let ?s5 = "?s4\<lparr>ds_hub := (ds_hub ?s4)\<lparr>hb_rooms := (hb_rooms (ds_hub ?s4))(u := map_option (removeAll c) (hb_rooms (ds_hub ?s4) u)),
        hb_chans := (hb_chans (ds_hub ?s4))(c := ?ch)\<rparr>,
      ds_todo := (ds_todo ?s4)(0 \<mapsto> (u, m, [])), ds_full := (ds_full ?s4)(0 := None)\<rparr>"
  have s1: "deliver_step (Some ?s0) (Some ?s1)" by (rule start) (simp_all add: assms(2))
  have s2: "deliver_step (Some ?s1) (Some ?s2)" by (rule start) (simp_all add: assms(2))
  have s3: "deliver_step (Some ?s2) (Some ?s3)"
    by (rule full [where cs = "[]" and u = u and m = m and ch = "hb_chans h c"]) (simp_all add: assms(3) c chan_send_def)
  have s4: "deliver_step (Some ?s3) (Some ?s4)"
    by (rule full [where cs = "[]" and u = u and m = m and ch = "hb_chans h c"]) (simp_all add: assms(3) c chan_send_def)
  have s5: "deliver_step (Some ?s4) (Some ?s5)"
    by (rule evict [where cs = "[]"]) (simp_all add: c chan_close_def)
  have s6: "deliver_step (Some ?s5) None"
    by (rule close_closed [where i = 1 and u = u and m = m and c = c and cs = "[]"]) (simp_all add: chan_close_def)
  note more = converse_rtranclp_into_rtranclp [where r = deliver_step]
  show ?thesis by (rule more [OF s1 more [OF s2 more [OF s3 more [OF s4 more [OF s5 r_into_rtranclp [where r = deliver_step, OF s6]]]]]])
qed

theorem concurrent_deliveries_panic_witness:
  "deliver_step\<^sup>*\<^sup>* (Some \<lparr>ds_hub = stuck_hub, ds_todo = (\<lambda>_. None), ds_full = (\<lambda>_. None)\<rparr>) None"
  by (rule concurrent_deliveries_panic [OF stuck_hub_ok(1-3)])

end
