(* ===== verification/Migrate.thy ===== *)
theory Migrate
  imports Prelude GoFmt
begin

text \<open>
  The migration runner of \<^verbatim>\<open>pkg/migrate/migrate.go\<close>. A migration is its version, its name and two operations on the
  database, which are arguments: given the deadline of the context and the time they return an
  error or not, the time at which they are finished and the database. The tracking table \<^verbatim>\<open>schema_migrations\<close> is the
  list of its rows, or \<open>None\<close> before it is created; migrations do not touch it. A statement on it fails by the
  fault script or when the deadline has passed, and then changes nothing.
\<close>

record 'w migration =
  mg_version :: int
  mg_name :: string
  mg_up :: "time \<Rightarrow> time \<Rightarrow> 'w \<Rightarrow> string option \<times> time \<times> 'w"
  mg_down :: "(time \<Rightarrow> time \<Rightarrow> 'w \<Rightarrow> string option \<times> time \<times> 'w) option"

record mig_config =
  mc_timeout :: duration
  mc_rollback_timeout :: duration

definition mig_defaults :: "mig_config \<Rightarrow> mig_config" where
  "mig_defaults cfg = cfg\<lparr>mc_timeout := (if mc_timeout cfg = 0 then 300 * second else mc_timeout cfg),
     mc_rollback_timeout := (if mc_rollback_timeout cfg = 0 then 120 * second else mc_rollback_timeout cfg)\<rparr>"

datatype mig_err = TableFailed | VersionsFailed | TimeoutExceeded | MarkDirtyFailed | UpFailed string | MarkCleanFailed
  | NotFound int | NoDown | DownFailed string | RemoveFailed int

record mig_result =
  rs_applied :: "int list"
  rs_rolled_back :: "int list"
  rs_error :: "mig_err option"
  rs_failed :: string

definition empty_result :: mig_result where
  "empty_result = \<lparr>rs_applied = [], rs_rolled_back = [], rs_error = None, rs_failed = ''''\<rparr>"

text \<open>Rows: version, dirty flag, time of application.\<close>

record track_row =
  tr_version :: int
  tr_dirty :: bool
  tr_applied :: time

record 'w mig_state =
  ms_table :: "track_row list option"
  ms_world :: 'w
  ms_now :: time
  ms_faults :: "bool list"

definition migration_name :: "'w migration \<Rightarrow> string" where
  "migration_name m = itoa (mg_version m) @ ''_'' @ mg_name m"

text \<open>\<^verbatim>\<open>NewRunner\<close> fills in the defaults and sorts by version. A version that occurs twice is not a case the
  theorems consider; the sort of the code does not order such migrations.\<close>

definition new_runner :: "'w migration list \<Rightarrow> mig_config \<Rightarrow> mig_config \<times> 'w migration list" where
  "new_runner ms cfg = (mig_defaults cfg, sort_key mg_version ms)"

text \<open>The map from versions to migrations, in which the last one of a version stays.\<close>

definition lookup_migration :: "'w migration list \<Rightarrow> int \<Rightarrow> 'w migration option" where
  "lookup_migration ms v = find (\<lambda>m. mg_version m = v) (rev ms)"

subsection \<open>The tracking table\<close>

text \<open>A statement in a context: whether it succeeded.\<close>

definition stmt_fails :: "time \<Rightarrow> 'w mig_state \<Rightarrow> bool" where
  "stmt_fails deadline s \<longleftrightarrow> deadline \<le> ms_now s \<or> (case ms_faults s of b # _ \<Rightarrow> b | [] \<Rightarrow> False)"

definition on_table :: "time \<Rightarrow> (track_row list \<Rightarrow> track_row list) \<Rightarrow> 'w mig_state \<Rightarrow> bool \<times> 'w mig_state" where
  "on_table deadline f s = (let s' = s\<lparr>ms_faults := tl (ms_faults s)\<rparr> in
     case ms_table s of
       Some rows \<Rightarrow> if stmt_fails deadline s then (False, s') else (True, s'\<lparr>ms_table := Some (f rows)\<rparr>)
     | None \<Rightarrow> (False, s'))"

definition ensure_table :: "time \<Rightarrow> 'w mig_state \<Rightarrow> bool \<times> 'w mig_state" where
  "ensure_table deadline s = (let s' = s\<lparr>ms_faults := tl (ms_faults s)\<rparr> in
     if stmt_fails deadline s then (False, s')
     else (True, s'\<lparr>ms_table := Some (case ms_table s of None \<Rightarrow> [] | Some rows \<Rightarrow> rows)\<rparr>))"

definition mark_dirty :: "time \<Rightarrow> int \<Rightarrow> 'w mig_state \<Rightarrow> bool \<times> 'w mig_state" where
  "mark_dirty deadline v s = on_table deadline (\<lambda>rows.
     if v \<in> tr_version ` set rows then update_where (\<lambda>r. tr_version r = v) (\<lambda>r. r\<lparr>tr_dirty := True\<rparr>) rows
     else rows @ [\<lparr>tr_version = v, tr_dirty = True, tr_applied = ms_now s\<rparr>]) s"

definition mark_clean :: "time \<Rightarrow> int \<Rightarrow> 'w mig_state \<Rightarrow> bool \<times> 'w mig_state" where
  "mark_clean deadline v s = on_table deadline
     (update_where (\<lambda>r. tr_version r = v) (\<lambda>r. r\<lparr>tr_dirty := False, tr_applied := ms_now s\<rparr>)) s"

definition remove_record :: "time \<Rightarrow> int \<Rightarrow> 'w mig_state \<Rightarrow> bool \<times> 'w mig_state" where
  "remove_record deadline v s = on_table deadline (filter (\<lambda>r. tr_version r \<noteq> v)) s"

text \<open>The versions that are not dirty, ascending.\<close>

definition applied_versions :: "time \<Rightarrow> 'w mig_state \<Rightarrow> int list option \<times> 'w mig_state" where
  "applied_versions deadline s = (let s' = s\<lparr>ms_faults := tl (ms_faults s)\<rparr> in
     case ms_table s of
       Some rows \<Rightarrow> if stmt_fails deadline s then (None, s')
         else (Some (sort (map tr_version (filter (\<lambda>r. \<not> tr_dirty r) rows))), s')
     | None \<Rightarrow> (None, s'))"

subsection \<open>Running migrations\<close>

definition run_op :: "(time \<Rightarrow> time \<Rightarrow> 'w \<Rightarrow> string option \<times> time \<times> 'w) \<Rightarrow> time \<Rightarrow> 'w mig_state \<Rightarrow> string option \<times> 'w mig_state" where
  "run_op f deadline s = (case f deadline (ms_now s) (ms_world s) of
     (e, t, w) \<Rightarrow> (e, s\<lparr>ms_now := t, ms_world := w\<rparr>))"

text \<open>\<^verbatim>\<open>rollbackApplied\<close>, over the versions in the reverse of their order; errors are only logged.\<close>

fun rollback_versions :: "'w migration list \<Rightarrow> time \<Rightarrow> int list \<Rightarrow> mig_result \<Rightarrow> 'w mig_state \<Rightarrow> mig_result \<times> 'w mig_state" where
  "rollback_versions ms deadline [] res s = (res, s)"
| "rollback_versions ms deadline (v # vs) res s =
     (case lookup_migration ms v of
        None \<Rightarrow> rollback_versions ms deadline vs res s
      | Some m \<Rightarrow>
          (case mg_down m of
             None \<Rightarrow> rollback_versions ms deadline vs res s
           | Some down \<Rightarrow>
               (case run_op down deadline s of
                  (Some e, s1) \<Rightarrow> rollback_versions ms deadline vs res s1
                | (None, s1) \<Rightarrow> rollback_versions ms deadline vs (res\<lparr>rs_rolled_back := rs_rolled_back res @ [v]\<rparr>)
                    (snd (remove_record deadline v s1)))))"

definition rollback_applied :: "mig_config \<Rightarrow> 'w migration list \<Rightarrow> mig_result \<Rightarrow> 'w mig_state \<Rightarrow> mig_result \<times> 'w mig_state" where
  "rollback_applied cfg ms res s =
     (if rs_applied res = [] then (res, s)
      else rollback_versions ms (ms_now s + mc_rollback_timeout cfg) (rev (rs_applied res)) res s)"

fun up_loop :: "mig_config \<Rightarrow> 'w migration list \<Rightarrow> time \<Rightarrow> int list \<Rightarrow> 'w migration list \<Rightarrow> mig_result \<Rightarrow> 'w mig_state \<Rightarrow>
    mig_result \<times> 'w mig_state" where
  "up_loop cfg ms deadline applied [] res s = (res, s)"
| "up_loop cfg ms deadline applied (m # todo) res s =
     (let failed = (\<lambda>e. res\<lparr>rs_error := Some e, rs_failed := migration_name m\<rparr>) in
      if mg_version m \<in> set applied then up_loop cfg ms deadline applied todo res s
      else if deadline \<le> ms_now s then rollback_applied cfg ms (failed TimeoutExceeded) s
      else (case mark_dirty deadline (mg_version m) s of
          (False, s1) \<Rightarrow> (failed MarkDirtyFailed, s1)
        | (True, s1) \<Rightarrow>
            (case run_op (mg_up m) deadline s1 of
               (Some e, s2) \<Rightarrow>
                 rollback_applied cfg ms (failed (UpFailed e)) (snd (remove_record deadline (mg_version m) s2))
             | (None, s2) \<Rightarrow>
                 (case mark_clean deadline (mg_version m) s2 of
                    (False, s3) \<Rightarrow> (failed MarkCleanFailed, s3)
                  | (True, s3) \<Rightarrow> up_loop cfg ms deadline applied todo
                      (res\<lparr>rs_applied := rs_applied res @ [mg_version m]\<rparr>) s3))))"

definition migrate_up :: "mig_config \<Rightarrow> 'w migration list \<Rightarrow> 'w mig_state \<Rightarrow> mig_result \<times> 'w mig_state" where
  "migrate_up cfg ms s =
     (let deadline = ms_now s + mc_timeout cfg in
      case ensure_table deadline s of
        (False, s1) \<Rightarrow> (empty_result\<lparr>rs_error := Some TableFailed\<rparr>, s1)
      | (True, s1) \<Rightarrow>
          (case applied_versions deadline s1 of
             (None, s2) \<Rightarrow> (empty_result\<lparr>rs_error := Some VersionsFailed\<rparr>, s2)
           | (Some applied, s2) \<Rightarrow> up_loop cfg ms deadline applied ms empty_result s2))"

fun down_loop :: "'w migration list \<Rightarrow> time \<Rightarrow> int \<Rightarrow> int list \<Rightarrow> mig_result \<Rightarrow> 'w mig_state \<Rightarrow> mig_result \<times> 'w mig_state" where
  "down_loop ms deadline steps [] res s = (res, s)"
| "down_loop ms deadline steps (v # vs) res s =
     (if steps \<le> 0 then (res, s)
      else case lookup_migration ms v of
          None \<Rightarrow> (res\<lparr>rs_error := Some (NotFound v)\<rparr>, s)
        | Some m \<Rightarrow>
            (case mg_down m of
               None \<Rightarrow> (res\<lparr>rs_error := Some NoDown, rs_failed := migration_name m\<rparr>, s)
             | Some down \<Rightarrow>
                 (case run_op down deadline s of
                    (Some e, s1) \<Rightarrow> (res\<lparr>rs_error := Some (DownFailed e), rs_failed := migration_name m\<rparr>, s1)
                  | (None, s1) \<Rightarrow>
                      (case remove_record deadline v s1 of
                         (False, s2) \<Rightarrow> (res\<lparr>rs_error := Some (RemoveFailed v)\<rparr>, s2)
                       | (True, s2) \<Rightarrow> down_loop ms deadline (steps - 1) vs
                           (res\<lparr>rs_rolled_back := rs_rolled_back res @ [v]\<rparr>) s2))))"

definition migrate_down :: "mig_config \<Rightarrow> 'w migration list \<Rightarrow> int \<Rightarrow> 'w mig_state \<Rightarrow> mig_result \<times> 'w mig_state" where
  "migrate_down cfg ms steps s =
     (let deadline = ms_now s + mc_rollback_timeout cfg in
      case ensure_table deadline s of
        (False, s1) \<Rightarrow> (empty_result\<lparr>rs_error := Some TableFailed\<rparr>, s1)
      | (True, s1) \<Rightarrow>
          (case applied_versions deadline s1 of
             (None, s2) \<Rightarrow> (empty_result\<lparr>rs_error := Some VersionsFailed\<rparr>, s2)
           | (Some applied, s2) \<Rightarrow> down_loop ms deadline steps (rev applied) empty_result s2))"

record mig_status =
  st_version :: int
  st_name :: string
  st_applied :: bool
  st_dirty :: bool
  st_at :: "time option"

definition migrate_status :: "time \<Rightarrow> 'w migration list \<Rightarrow> 'w mig_state \<Rightarrow> mig_status list option \<times> 'w mig_state" where
  "migrate_status deadline ms s = (case ensure_table deadline s of
     (False, s1) \<Rightarrow> (None, s1)
   | (True, s1) \<Rightarrow>
       let s2 = s1\<lparr>ms_faults := tl (ms_faults s1)\<rparr> in
       if stmt_fails deadline s1 then (None, s2)
       else let rows = (case ms_table s1 of None \<Rightarrow> [] | Some rows \<Rightarrow> rows) in
         (Some (map (\<lambda>m. case find (\<lambda>r. tr_version r = mg_version m) rows of
            Some r \<Rightarrow> \<lparr>st_version = mg_version m, st_name = mg_name m, st_applied = True, st_dirty = tr_dirty r, st_at = Some (tr_applied r)\<rparr>
          | None \<Rightarrow> \<lparr>st_version = mg_version m, st_name = mg_name m, st_applied = False, st_dirty = False, st_at = None\<rparr>) ms), s2))"

end
