(* ===== verification/MigrateSpec.thy ===== *)
theory MigrateSpec
  imports Migrate
begin

text \<open>
  What a migration run guarantees: a run without an error has brought the database to the newest version, a
  failed one gives back the database it found when its migrations can be reversed, and \<^verbatim>\<open>Down\<close> undoes \<^verbatim>\<open>Up\<close>.
\<close>

text \<open>The versions recorded as applied, and a run of forward operations that all succeed.\<close>

definition clean_rows :: "track_row list \<Rightarrow> int set" where
  "clean_rows rows = tr_version ` {r \<in> set rows. \<not> tr_dirty r}"

definition clean :: "'w mig_state \<Rightarrow> int set" where
  "clean s = (case ms_table s of None \<Rightarrow> {} | Some rows \<Rightarrow> clean_rows rows)"

definition table_ok :: "'w mig_state \<Rightarrow> bool" where
  "table_ok s = (case ms_table s of None \<Rightarrow> True | Some rows \<Rightarrow> distinct (map tr_version rows))"

inductive ran :: "time \<Rightarrow> 'w migration list \<Rightarrow> 'w \<Rightarrow> 'w \<Rightarrow> bool" for d where
  ran_none: "ran d [] w w"
| ran_more: "ran d ms w w1 \<Longrightarrow> mg_up m d t w1 = (None, t', w2) \<Longrightarrow> ran d (ms @ [m]) w w2"

inductive_cases ran_snocE: "ran d (ms @ [m]) w w2"
inductive_cases ran_nilE: "ran d [] w w2"

definition pending :: "int set \<Rightarrow> 'w migration list \<Rightarrow> 'w migration list" where
  "pending vs ms = filter (\<lambda>m. mg_version m \<notin> vs) ms"

text \<open>A migration whose reverse operation, given time, restores what the forward one changed, and whose failed forward
  operation changes nothing.\<close>

definition reversible :: "'w migration \<Rightarrow> bool" where
  "reversible m \<longleftrightarrow>
     (\<exists>down. mg_down m = Some down \<and>
        (\<forall>d t w t' w1. mg_up m d t w = (None, t', w1) \<longrightarrow>
           (\<forall>d2 t2. t2 < d2 \<longrightarrow> (\<exists>t3 < d2. down d2 t2 w1 = (None, t3, w))))) \<and>
     (\<forall>d t w e t' w1. mg_up m d t w = (Some e, t', w1) \<longrightarrow> w1 = w)"

subsection \<open>Statements\<close>

lemma on_table_frame [simp]:
  "ms_world (snd (on_table d f s)) = ms_world s" "ms_now (snd (on_table d f s)) = ms_now s"
  by (simp_all add: on_table_def Let_def split: option.splits)

lemma on_table_faults [simp]: "ms_faults s = [] \<Longrightarrow> ms_faults (snd (on_table d f s)) = []"
  by (simp add: on_table_def Let_def split: option.splits)

lemma on_table_true:
  "on_table d f s = (True, s') \<Longrightarrow> \<exists>rows. ms_table s = Some rows \<and> ms_table s' = Some (f rows)"
  by (auto simp: on_table_def Let_def split: option.splits if_splits)

lemma on_table_false: "on_table d f s = (False, s') \<Longrightarrow> ms_table s' = ms_table s"
  by (auto simp: on_table_def Let_def split: option.splits if_splits)

lemma on_table_works:
  "ms_faults s = [] \<Longrightarrow> ms_now s < d \<Longrightarrow> ms_table s = Some rows \<Longrightarrow> fst (on_table d f s)"
  by (simp add: on_table_def stmt_fails_def Let_def)

lemma on_table_some: "ms_table s \<noteq> None \<Longrightarrow> ms_table (snd (on_table d f s)) \<noteq> None"
  by (auto simp: on_table_def Let_def split: option.splits)

lemmas statements = mark_dirty_def mark_clean_def remove_record_def

lemma statement_frame [simp]:
  "ms_world (snd (mark_dirty d v s)) = ms_world s" "ms_now (snd (mark_dirty d v s)) = ms_now s"
  "ms_world (snd (mark_clean d v s)) = ms_world s" "ms_now (snd (mark_clean d v s)) = ms_now s"
  "ms_world (snd (remove_record d v s)) = ms_world s" "ms_now (snd (remove_record d v s)) = ms_now s"
  by (simp_all add: statements)

lemma statement_table [simp]:
  "ms_table s \<noteq> None \<Longrightarrow> ms_table (snd (mark_dirty d v s)) \<noteq> None"
  "ms_table s \<noteq> None \<Longrightarrow> ms_table (snd (mark_clean d v s)) \<noteq> None"
  "ms_table s \<noteq> None \<Longrightarrow> ms_table (snd (remove_record d v s)) \<noteq> None"
  "ms_faults s = [] \<Longrightarrow> ms_faults (snd (mark_dirty d v s)) = []"
  "ms_faults s = [] \<Longrightarrow> ms_faults (snd (mark_clean d v s)) = []"
  "ms_faults s = [] \<Longrightarrow> ms_faults (snd (remove_record d v s)) = []"
  unfolding statements by (erule on_table_some on_table_faults)+

lemma clean_rows_simps [simp]:
  "clean_rows [] = {}"
  "clean_rows (r # rows) = (if tr_dirty r then clean_rows rows else insert (tr_version r) (clean_rows rows))"
  by (auto simp: clean_rows_def)

lemma clean_rows_append [simp]: "clean_rows (xs @ ys) = clean_rows xs \<union> clean_rows ys"
  by (auto simp: clean_rows_def)

lemma clean_rows_dirty [simp]:
  "clean_rows (update_where (\<lambda>r. tr_version r = v) (\<lambda>r. r\<lparr>tr_dirty := True\<rparr>) rows) = clean_rows rows - {v}"
  by (induction rows) auto

lemma clean_rows_clean [simp]:
  "clean_rows (update_where (\<lambda>r. tr_version r = v) (\<lambda>r. r\<lparr>tr_dirty := False, tr_applied := t\<rparr>) rows) =
     (if v \<in> tr_version ` set rows then insert v (clean_rows rows) else clean_rows rows)"
  by (induction rows) auto

lemma clean_rows_remove [simp]: "clean_rows (filter (\<lambda>r. tr_version r \<noteq> v) rows) = clean_rows rows - {v}"
  by (auto simp: clean_rows_def)

lemma clean_rows_absent: "v \<notin> tr_version ` set rows \<Longrightarrow> v \<notin> clean_rows rows"
  by (auto simp: clean_rows_def)

lemma versions_kept [simp]:
  "map tr_version (update_where P (\<lambda>r. r\<lparr>tr_dirty := b\<rparr>) rows) = map tr_version rows"
  "map tr_version (update_where P (\<lambda>r. r\<lparr>tr_dirty := b, tr_applied := t\<rparr>) rows) = map tr_version rows"
  by (simp_all add: map_update_where)

lemma clean_same: "ms_table s' = ms_table s \<Longrightarrow> clean s' = clean s"
  by (simp add: clean_def)

lemma table_ok_same: "ms_table s' = ms_table s \<Longrightarrow> table_ok s' = table_ok s"
  by (simp add: table_ok_def)

lemma clean_dirty: assumes "mark_dirty d v s = (True, s')"
  shows "clean s' = clean s - {v}" and "\<exists>rows. ms_table s' = Some rows \<and> v \<in> tr_version ` set rows"
    and "table_ok s \<Longrightarrow> table_ok s'"
proof -
  obtain rows where r: "ms_table s = Some rows" "ms_table s' = Some (if v \<in> tr_version ` set rows
      then update_where (\<lambda>r. tr_version r = v) (\<lambda>r. r\<lparr>tr_dirty := True\<rparr>) rows
      else rows @ [\<lparr>tr_version = v, tr_dirty = True, tr_applied = ms_now s\<rparr>])"
    using on_table_true [OF assms [unfolded mark_dirty_def]] by blast
  then show "clean s' = clean s - {v}" by (auto simp: clean_def dest: clean_rows_absent)
  show "\<exists>rows. ms_table s' = Some rows \<and> v \<in> tr_version ` set rows"
    using r(2) by (auto simp: keys_update_where)
  show "table_ok s \<Longrightarrow> table_ok s'" using r by (auto simp: table_ok_def)
qed

lemma clean_clean: assumes "mark_clean d v s = (True, s')"
  shows "ms_table s = Some rows \<Longrightarrow> v \<in> tr_version ` set rows \<Longrightarrow> clean s' = insert v (clean s)"
    and "table_ok s \<Longrightarrow> table_ok s'"
  using on_table_true [OF assms [unfolded mark_clean_def]] by (auto simp: clean_def table_ok_def)

lemma clean_removed: "remove_record d v s = (True, s') \<Longrightarrow> clean s' = clean s - {v}"
  by (auto simp: remove_record_def clean_def dest!: on_table_true)

lemma remove_table_ok: "table_ok s \<Longrightarrow> table_ok (snd (remove_record d v s))"
  by (auto simp: remove_record_def on_table_def Let_def table_ok_def distinct_map_filter split: option.splits)

lemma remove_clean: assumes "v \<notin> clean s" shows "clean (snd (remove_record d v s)) = clean s"
  using assms by (auto simp: remove_record_def on_table_def Let_def clean_def split: option.splits)

lemma run_op_cases:
  "run_op f d s = (e, s') \<Longrightarrow> \<exists>t w. f d (ms_now s) (ms_world s) = (e, t, w) \<and> s' = s\<lparr>ms_now := t, ms_world := w\<rparr>"
  by (auto simp: run_op_def split: prod.splits)

lemma moved_simps [simp]:
  "clean (s\<lparr>ms_now := t, ms_world := w\<rparr>) = clean s" "table_ok (s\<lparr>ms_now := t, ms_world := w\<rparr>) = table_ok s"
  by (simp_all add: clean_def table_ok_def)

lemma lookup_registered:
  assumes "distinct (map mg_version ms)" and "m \<in> set ms"
  shows "lookup_migration ms (mg_version m) = Some m"
proof (cases "find (\<lambda>x. mg_version x = mg_version m) (rev ms)")
  case None
  then show ?thesis using assms(2) by (auto simp: find_None_iff)
next
  case (Some x)
  then have "x \<in> set ms" "mg_version x = mg_version m" by (auto dest: find_SomeD)
  then have "x = m" using assms by (metis inj_onD distinct_map)
  then show ?thesis using Some by (simp add: lookup_migration_def)
qed

subsection \<open>A successful run\<close>

lemma rollback_keeps_error: "rs_error (fst (rollback_versions ms d vs res s)) = rs_error res"
  by (induction ms d vs res s rule: rollback_versions.induct) (auto split: option.splits prod.splits)

lemma rollback_applied_error [simp]: "rs_error (fst (rollback_applied cfg ms res s)) = rs_error res"
  by (simp add: rollback_applied_def rollback_keeps_error)

lemma rollback_applied_error': "rollback_applied cfg ms res s = (res', s') \<Longrightarrow> rs_error res' = rs_error res"
  using rollback_applied_error [of cfg ms res s] by simp

definition advanced :: "time \<Rightarrow> 'w migration list \<Rightarrow> mig_result \<Rightarrow> 'w mig_state \<Rightarrow> mig_result \<Rightarrow> 'w mig_state \<Rightarrow> bool" where
  "advanced d run res s res' s' \<longleftrightarrow> rs_applied res' = rs_applied res @ map mg_version run \<and>
     rs_rolled_back res' = rs_rolled_back res \<and> clean s' = clean s \<union> mg_version ` set run \<and>
     (ms_faults s = [] \<longrightarrow> ms_faults s' = []) \<and> (ms_table s \<noteq> None \<longrightarrow> ms_table s' \<noteq> None) \<and>
     (\<forall>dn w0. ran d dn w0 (ms_world s) \<longrightarrow> ran d (dn @ run) w0 (ms_world s'))"

lemma advanced_refl: "advanced d [] res s res s"
  by (simp add: advanced_def)

lemma advanced_ran: assumes "advanced d run res s res' s'" shows "ran d run (ms_world s) (ms_world s')"
proof -
  have "ran d ([] @ run) (ms_world s) (ms_world s')"
    using assms ran_none [of d "ms_world s"] unfolding advanced_def by blast
  then show ?thesis by simp
qed

lemma advanced_trans:
  assumes "advanced d xs res s res1 s1" and "advanced d ys res1 s1 res2 s2"
  shows "advanced d (xs @ ys) res s res2 s2"
proof -
  have "ran d (dn @ (xs @ ys)) w0 (ms_world s2)" if r: "ran d dn w0 (ms_world s)" for dn w0
  proof -
    have "ran d (dn @ xs) w0 (ms_world s1)" using assms(1) r unfolding advanced_def by blast
    then have "ran d ((dn @ xs) @ ys) w0 (ms_world s2)" using assms(2) unfolding advanced_def by blast
    then show ?thesis by simp
  qed
  then show ?thesis using assms by (simp add: advanced_def Un_assoc image_Un)
qed

lemma step_advanced:
  assumes "mark_dirty d (mg_version m) s = (True, s1)" and "run_op (mg_up m) d s1 = (None, s2)"
    and "mark_clean d (mg_version m) s2 = (True, s3)"
  shows "advanced d [m] res s (res\<lparr>rs_applied := rs_applied res @ [mg_version m]\<rparr>) s3" and "table_ok s \<Longrightarrow> table_ok s3"
proof -
  obtain t w where op: "mg_up m d (ms_now s1) (ms_world s1) = (None, t, w)" "s2 = s1\<lparr>ms_now := t, ms_world := w\<rparr>"
    using run_op_cases [OF assms(2)] by blast
  obtain rows where rows: "ms_table s1 = Some rows" "mg_version m \<in> tr_version ` set rows"
    using clean_dirty(2) [OF assms(1)] by blast
  have w1: "ms_world s1 = ms_world s" using statement_frame(1) [of d "mg_version m" s] assms(1) by simp
  have w3: "ms_world s3 = w" using statement_frame(3) [of d "mg_version m" s2] unfolding assms(3) by (simp add: op(2))
  have "clean s3 = insert (mg_version m) (clean s2)"
    using clean_clean(1) [OF assms(3)] rows op(2) by simp
  then have c: "clean s3 = clean s \<union> {mg_version m}"
    using clean_dirty(1) [OF assms(1)] op(2) by auto
  have "ran d (dn @ [m]) w0 w" if "ran d dn w0 (ms_world s)" for dn w0
    using ran_more [OF that [folded w1] op(1)] .
  moreover have kept: "ms_faults s = [] \<longrightarrow> ms_faults s3 = []" "ms_table s3 \<noteq> None"
    using statement_table(4) [of s d "mg_version m"] statement_table(2,5) [of s2 d "mg_version m"] rows(1) op(2)
    unfolding assms(1,3) by simp_all
  ultimately show "advanced d [m] res s (res\<lparr>rs_applied := rs_applied res @ [mg_version m]\<rparr>) s3"
    using c w3 kept by (simp add: advanced_def)
  show "table_ok s \<Longrightarrow> table_ok s3"
    using clean_dirty(3) [OF assms(1)] clean_clean(2) [OF assms(3)] op(2) by simp
qed

lemma up_loop_sound:
  assumes "up_loop cfg ms d applied todo res s = (res', s')" and "rs_error res' = None"
  shows "advanced d (pending (set applied) todo) res s res' s'" and "table_ok s \<Longrightarrow> table_ok s'"
proof -
  have "advanced d (pending (set applied) todo) res s res' s' \<and> (table_ok s \<longrightarrow> table_ok s')"
    using assms
  proof (induction cfg ms d applied todo res s rule: up_loop.induct)
    case (1 cfg ms d applied res s)
    then show ?case by (simp add: pending_def advanced_refl)
  next
    case (2 cfg ms d applied m todo res s)
    consider "mg_version m \<in> set applied"
      | "mg_version m \<notin> set applied" "d \<le> ms_now s"
      | "mg_version m \<notin> set applied" "\<not> d \<le> ms_now s" by blast
    then show ?case
    proof cases
      case 1
      then show ?thesis using 2 by (simp add: pending_def)
    next
      case c: 2
      then show ?thesis using 2(3,4) by (auto simp: Let_def dest: rollback_applied_error')
    next
      case c: 3
      obtain s1 s2 s3 where st: "mark_dirty d (mg_version m) s = (True, s1)" "run_op (mg_up m) d s1 = (None, s2)"
        "mark_clean d (mg_version m) s2 = (True, s3)"
        using 2(3,4) c by (auto simp: Let_def dest: rollback_applied_error' split: prod.splits bool.splits option.splits)
      let ?res = "res\<lparr>rs_applied := rs_applied res @ [mg_version m]\<rparr>"
      have "up_loop cfg ms d applied todo ?res s3 = (res', s')"
        using 2(3) c st by (simp add: Let_def)
      then have "advanced d (pending (set applied) todo) ?res s3 res' s' \<and> (table_ok s3 \<longrightarrow> table_ok s')"
        using 2(2) [OF refl c(1) _ st(1) [symmetric] refl st(2) [symmetric] refl st(3) [symmetric]] c 2(4) by simp
      then show ?thesis
        using advanced_trans [OF step_advanced(1) [OF st, of res]] step_advanced(2) [OF st] c(1)
        by (auto simp: pending_def)
    qed
  qed
  then show "advanced d (pending (set applied) todo) res s res' s'" and "table_ok s \<Longrightarrow> table_ok s'"
    by blast+
qed

subsection \<open>Undoing\<close>

definition ready :: "time \<Rightarrow> 'w mig_state \<Rightarrow> bool" where
  "ready d s \<longleftrightarrow> ms_faults s = [] \<and> ms_table s \<noteq> None \<and> ms_now s < d"

definition can_undo :: "'w migration list \<Rightarrow> 'w migration list \<Rightarrow> bool" where
  "can_undo ms run \<longleftrightarrow> (\<forall>m \<in> set run. reversible m \<and> lookup_migration ms (mg_version m) = Some m)"

lemma remove_ready:
  assumes "ready d s"
  shows "\<exists>s'. remove_record d v s = (True, s') \<and> ready d s' \<and> ms_world s' = ms_world s \<and> clean s' = clean s - {v}"
proof -
  obtain b s' where r: "remove_record d v s = (b, s')" by fastforce
  obtain rows where "ms_table s = Some rows" using assms by (auto simp: ready_def)
  then have b: "b" using on_table_works assms r unfolding ready_def remove_record_def by (metis fst_conv)
  have "ready d s'"
    using assms r on_table_faults on_table_frame(2) on_table_some unfolding ready_def remove_record_def by (metis snd_conv)
  then show ?thesis using b r clean_removed [of d v s s'] statement_frame(5) [of d v s] by simp
qed

lemma undo_step:
  assumes "ran d (run @ [m]) w0 (ms_world s)" and "reversible m" and "ready d2 s"
  shows "\<exists>down s1 s2. mg_down m = Some down \<and> run_op down d2 s = (None, s1) \<and> remove_record d2 (mg_version m) s1 = (True, s2) \<and>
    ran d run w0 (ms_world s2) \<and> ready d2 s2 \<and> clean s2 = clean s - {mg_version m}"
proof -
  obtain w1 t t' where up: "ran d run w0 w1" "mg_up m d t w1 = (None, t', ms_world s)"
    using assms(1) by (rule ran_snocE) auto
  obtain down t3 where down: "mg_down m = Some down" "down d2 (ms_now s) (ms_world s) = (None, t3, w1)" "t3 < d2"
    using assms(2,3) up(2) unfolding reversible_def ready_def by metis
  let ?s1 = "s\<lparr>ms_now := t3, ms_world := w1\<rparr>"
  have "run_op down d2 s = (None, ?s1)" using down by (simp add: run_op_def)
  moreover have "ready d2 ?s1" using assms(3) down by (simp add: ready_def)
  ultimately show ?thesis using remove_ready [of d2 ?s1 "mg_version m"] up(1) down(1) by auto
qed

lemma rollback_restores:
  assumes "can_undo ms run" and "ran d run w0 (ms_world s)" and "ready d2 s"
  shows "\<exists>res' s'. rollback_versions ms d2 (rev (map mg_version run)) res s = (res', s') \<and> ms_world s' = w0 \<and>
    clean s' = clean s - mg_version ` set run \<and> rs_rolled_back res' = rs_rolled_back res @ rev (map mg_version run)"
  using assms
proof (induction run arbitrary: s res rule: rev_induct)
  case Nil
  then show ?case by (auto elim: ran_nilE)
next
  case (snoc m run)
  obtain down s1 s2 where st: "mg_down m = Some down" "run_op down d2 s = (None, s1)"
    "remove_record d2 (mg_version m) s1 = (True, s2)" "ran d run w0 (ms_world s2)" "ready d2 s2" "clean s2 = clean s - {mg_version m}"
    using undo_step [OF snoc(3) _ snoc(4)] snoc(2) unfolding can_undo_def by auto
  then show ?case using snoc(1) [OF _ st(4,5), of "res\<lparr>rs_rolled_back := rs_rolled_back res @ [mg_version m]\<rparr>"] snoc(2)
    by (auto simp: can_undo_def)
qed

lemma down_undoes:
  assumes "can_undo ms run" and "ran d run w0 (ms_world s)" and "ready d2 s"
  shows "\<exists>res' s'. down_loop ms d2 (int (length run)) (rev (map mg_version run) @ vs) res s = (res', s') \<and> ms_world s' = w0 \<and>
    clean s' = clean s - mg_version ` set run \<and> rs_rolled_back res' = rs_rolled_back res @ rev (map mg_version run) \<and>
    rs_error res' = rs_error res"
  using assms
proof (induction run arbitrary: s res rule: rev_induct)
  case Nil
  then show ?case by (cases vs) (auto elim: ran_nilE)
next
  case (snoc m run)
  obtain down s1 s2 where st: "mg_down m = Some down" "run_op down d2 s = (None, s1)"
    "remove_record d2 (mg_version m) s1 = (True, s2)" "ran d run w0 (ms_world s2)" "ready d2 s2" "clean s2 = clean s - {mg_version m}"
    using undo_step [OF snoc(3) _ snoc(4)] snoc(2) unfolding can_undo_def by auto
  then show ?case using snoc(1) [OF _ st(4,5), of "res\<lparr>rs_rolled_back := rs_rolled_back res @ [mg_version m]\<rparr>"] snoc(2)
    by (auto simp: can_undo_def)
qed

lemma mark_dirty_works:
  assumes "ms_faults s = []" and "ms_now s < d" and "ms_table s \<noteq> None"
  shows "\<exists>s1. mark_dirty d v s = (True, s1)"
  using assms by (auto simp: mark_dirty_def on_table_def stmt_fails_def Let_def)

text \<open>No statement of this run has failed so far, and what it did can be undone.\<close>

definition undoable :: "'w migration list \<Rightarrow> time \<Rightarrow> 'w migration list \<Rightarrow> 'w \<Rightarrow> int set \<Rightarrow> mig_result \<Rightarrow> 'w mig_state \<Rightarrow> bool" where
  "undoable ms d run w0 c0 res s \<longleftrightarrow> can_undo ms run \<and> ran d run w0 (ms_world s) \<and> ms_faults s = [] \<and> ms_table s \<noteq> None \<and>
     clean s = c0 \<union> mg_version ` set run \<and> c0 \<inter> mg_version ` set run = {} \<and> rs_applied res = map mg_version run"

lemma rollback_applied_restores:
  assumes "undoable ms d run w0 c0 res s" and "0 < mc_rollback_timeout cfg" and "rollback_applied cfg ms res s = (res', s')"
  shows "ms_world s' = w0 \<and> clean s' = c0 \<and> rs_error res' = rs_error res"
proof (cases "run = []")
  case True
  then show ?thesis using assms by (auto simp: rollback_applied_def undoable_def elim: ran_nilE)
next
  case False
  let ?d2 = "ms_now s + mc_rollback_timeout cfg"
  have u: "can_undo ms run" "ran d run w0 (ms_world s)" "ready ?d2 s" "rs_applied res = map mg_version run"
    "clean s - mg_version ` set run = c0"
    using assms(1,2) by (auto simp: undoable_def ready_def)
  obtain res1 s1 where r: "rollback_versions ms ?d2 (rev (map mg_version run)) res s = (res1, s1)" "ms_world s1 = w0" "clean s1 = c0"
    using rollback_restores [OF u(1-3), of res] u(5) by auto
  have "rollback_applied cfg ms res s = (res1, s1)" using r(1) u(4) False by (simp add: rollback_applied_def)
  then show ?thesis using r assms(3) rollback_applied_error' by auto
qed

lemma undoable_step:
  assumes "undoable ms d run w0 c0 res s" and "mg_version m \<notin> clean s" and "reversible m" and "lookup_migration ms (mg_version m) = Some m"
    and "mark_dirty d (mg_version m) s = (True, s1)" and "run_op (mg_up m) d s1 = (None, s2)" and "mark_clean d (mg_version m) s2 = (True, s3)"
  shows "undoable ms d (run @ [m]) w0 c0 (res\<lparr>rs_applied := rs_applied res @ [mg_version m]\<rparr>) s3"
proof -
  have adv: "clean s3 = clean s \<union> {mg_version m}" "ran d (run @ [m]) w0 (ms_world s3)"
    using step_advanced(1) [OF assms(5-7), of res] assms(1) by (auto simp: advanced_def undoable_def)
  have "ms_faults s1 = []" "ms_table s1 \<noteq> None"
    using assms(1) statement_table(1,4) [of s d "mg_version m"] unfolding undoable_def assms(5) by simp_all
  then have "ms_faults s2 = []" "ms_table s2 \<noteq> None" using run_op_cases [OF assms(6)] by auto
  then have "ms_faults s3 = []" "ms_table s3 \<noteq> None"
    using statement_table(2,5) [of s2 d "mg_version m"] unfolding assms(7) by simp_all
  then show ?thesis using adv assms(1-4) by (auto simp: undoable_def can_undo_def)
qed

lemma failed_up_restores:
  assumes "undoable ms d run w0 c0 res s" and "mg_version m \<notin> clean s" and "reversible m"
    and "mark_dirty d (mg_version m) s = (True, s1)" and "run_op (mg_up m) d s1 = (Some e, s2)"
  shows "undoable ms d run w0 c0 (res\<lparr>rs_error := er, rs_failed := nm\<rparr>) (snd (remove_record d (mg_version m) s2))"
proof -
  obtain t w where op: "mg_up m d (ms_now s1) (ms_world s1) = (Some e, t, w)" "s2 = s1\<lparr>ms_now := t, ms_world := w\<rparr>"
    using run_op_cases [OF assms(5)] by blast
  then have w: "w = ms_world s1" using assms(3) unfolding reversible_def by blast
  have s1: "ms_faults s1 = []" "ms_table s1 \<noteq> None" "ms_world s1 = ms_world s"
    using assms(1) statement_table(1,4) [of s d "mg_version m"] statement_frame(1) [of d "mg_version m" s]
    unfolding undoable_def assms(4) by simp_all
  have c: "clean s1 = clean s" using clean_dirty(1) [OF assms(4)] assms(2) by simp
  have "ms_table s2 \<noteq> None" "ms_faults s2 = []" "mg_version m \<notin> clean s2" "clean s2 = clean s" "ms_world s2 = ms_world s"
    using op(2) w s1 c assms(2) by simp_all
  then show ?thesis using assms(1) remove_clean [of "mg_version m" s2 d] statement_table(3,6) [of s2 d "mg_version m"]
    by (simp add: undoable_def)
qed

lemma up_loop_restores:
  assumes "up_loop cfg ms d applied todo res s = (res', s')" and "rs_error res' = Some e" and "e \<noteq> MarkCleanFailed"
    and "rs_error res = None" and "undoable ms d run w0 (set applied) res s" and "0 < mc_rollback_timeout cfg"
    and "\<forall>m \<in> set todo. reversible m \<and> lookup_migration ms (mg_version m) = Some m"
    and "distinct (map mg_version (run @ todo))"
  shows "ms_world s' = w0 \<and> clean s' = set applied"
  using assms
proof (induction cfg ms d applied todo res s arbitrary: run rule: up_loop.induct)
  case (1 cfg ms d applied res s)
  then show ?case by simp
next
  case (2 cfg ms d applied m todo res s)
  let ?v = "mg_version m"
  let ?res = "res\<lparr>rs_applied := rs_applied res @ [?v]\<rparr>"
  have live: "\<forall>m \<in> set todo. reversible m \<and> lookup_migration ms (mg_version m) = Some m" "reversible m" "lookup_migration ms ?v = Some m"
    using 2(9) by auto
  consider "?v \<in> set applied" | "?v \<notin> set applied" "d \<le> ms_now s" | "?v \<notin> set applied" "\<not> d \<le> ms_now s" by blast
  then show ?case
  proof cases
    case 1
    have "distinct (map mg_version (run @ todo))" using 2(10) by auto
    then show ?thesis using 2(1) [OF refl 1 _ 2(4,5,6,7,8) live(1)] 2(3) 1 by simp
  next
    case c: 2
    have u: "undoable ms d run w0 (set applied) (res\<lparr>rs_error := Some TimeoutExceeded, rs_failed := migration_name m\<rparr>) s"
      using 2(7) by (simp add: undoable_def)
    have "rollback_applied cfg ms (res\<lparr>rs_error := Some TimeoutExceeded, rs_failed := migration_name m\<rparr>) s = (res', s')"
      using 2(3) c by (simp add: Let_def)
    then show ?thesis using rollback_applied_restores [OF u 2(8)] by simp
  next
    case c: 3
    have fresh: "?v \<notin> clean s" using 2(7,10) c(1) by (auto simp: undoable_def)
    obtain s1 where s1: "mark_dirty d ?v s = (True, s1)"
      using mark_dirty_works [of s d ?v] 2(7) c(2) by (auto simp: undoable_def)
    show ?thesis
    proof (cases "run_op (mg_up m) d s1")
      case (Pair out s2)
      show ?thesis
      proof (cases out)
        case (Some e')
        note undo = failed_up_restores [OF 2(7) fresh live(2) s1 Pair [unfolded Some], where er = "Some (UpFailed e')" and nm = "migration_name m"]
        show ?thesis using rollback_applied_restores [OF undo 2(8)] 2(3) c s1 Pair Some by (auto simp: Let_def)
      next
        case None
        obtain b s3 where s3: "mark_clean d ?v s2 = (b, s3)" by fastforce
        have b: "b" using 2(3,4,5) c s1 Pair None s3 by (cases b) (auto simp: Let_def)
        note st = s1 Pair [unfolded None] s3 [unfolded eqTrueI [OF b]]
        have "up_loop cfg ms d applied todo ?res s3 = (res', s')" using 2(3) c st by (simp add: Let_def)
        moreover have "undoable ms d (run @ [m]) w0 (set applied) ?res s3"
          by (rule undoable_step [OF 2(7) fresh live(2,3) st])
        ultimately show ?thesis
          using 2(2) [OF refl c(1,2) st(1) [symmetric] refl st(2) [symmetric] refl st(3) [symmetric] refl _ 2(4,5) _ _ 2(8) live(1)]
            2(6,10) by simp
      qed
    qed
  qed
qed

subsection \<open>The runner\<close>

lemma new_runner_facts:
  assumes "new_runner ms0 cfg0 = (cfg, ms)"
  shows "set ms = set ms0" and "sorted (map mg_version ms)" and "distinct (map mg_version ms0) \<Longrightarrow> distinct (map mg_version ms)"
    and "0 \<le> mc_rollback_timeout cfg0 \<Longrightarrow> 0 < mc_rollback_timeout cfg"
proof -
  show "set ms = set ms0" "sorted (map mg_version ms)" using assms by (auto simp: new_runner_def)
  show "distinct (map mg_version ms0) \<Longrightarrow> distinct (map mg_version ms)"
    using assms by (auto simp: new_runner_def distinct_map)
  show "0 \<le> mc_rollback_timeout cfg0 \<Longrightarrow> 0 < mc_rollback_timeout cfg"
    using assms by (auto simp: new_runner_def mig_defaults_def second_def)
qed

lemma ensure_table_true:
  assumes "ensure_table d s = (True, s')"
  shows "ms_table s' \<noteq> None" and "ms_world s' = ms_world s" and "ms_now s' = ms_now s" and "clean s' = clean s"
    and "table_ok s \<Longrightarrow> table_ok s'" and "ms_faults s = [] \<Longrightarrow> ms_faults s' = []"
  using assms by (auto simp: ensure_table_def Let_def clean_def table_ok_def split: if_splits option.splits)

lemma ensure_table_false:
  "ensure_table d s = (False, s') \<Longrightarrow> ms_world s' = ms_world s \<and> clean s' = clean s"
  by (auto simp: ensure_table_def Let_def clean_def split: if_splits)

lemma applied_versions_none:
  "applied_versions d s = (None, s') \<Longrightarrow> ms_world s' = ms_world s \<and> clean s' = clean s"
  by (auto simp: applied_versions_def Let_def clean_def split: if_splits option.splits)

lemma applied_versions_some:
  assumes "applied_versions d s = (Some vs, s')"
  shows "set vs = clean s" and "sorted vs" and "table_ok s \<Longrightarrow> distinct vs" and "ms_table s' = ms_table s"
    and "ms_world s' = ms_world s" and "ms_now s' = ms_now s" and "ms_faults s = [] \<Longrightarrow> ms_faults s' = []"
  using assms by (auto simp: applied_versions_def Let_def clean_def clean_rows_def table_ok_def distinct_map_filter
      split: if_splits option.splits)

definition started :: "mig_config \<Rightarrow> 'w migration list \<Rightarrow> 'w mig_state \<Rightarrow> int list \<Rightarrow> 'w mig_state \<Rightarrow> mig_result \<Rightarrow> 'w mig_state \<Rightarrow> bool" where
  "started cfg ms s vs s1 res s' \<longleftrightarrow>
     up_loop cfg ms (ms_now s + mc_timeout cfg) vs ms empty_result s1 = (res, s') \<and> set vs = clean s \<and> clean s1 = clean s \<and>
      ms_world s1 = ms_world s \<and> ms_table s1 \<noteq> None \<and> (table_ok s \<longrightarrow> table_ok s1) \<and> (ms_faults s = [] \<longrightarrow> ms_faults s1 = [])"

text \<open>A run either stops at the table, or goes through the migrations with the versions recorded in it.\<close>

lemma migrate_up_cases:
  assumes "migrate_up cfg ms s = (res, s')"
  shows "(rs_error res \<noteq> None \<and> rs_applied res = [] \<and> ms_world s' = ms_world s \<and> clean s' = clean s) \<or>
    (\<exists>vs s1. started cfg ms s vs s1 res s')"
proof -
  let ?d = "ms_now s + mc_timeout cfg"
  obtain b s1 where s1: "ensure_table ?d s = (b, s1)" by fastforce
  obtain vs s2 where s2: "applied_versions ?d s1 = (vs, s2)" by fastforce
  consider "\<not> b" | "b" "vs = None" | l where "b" "vs = Some l" by (cases vs) auto
  then show ?thesis
  proof cases
    case 1
    then have "res = empty_result\<lparr>rs_error := Some TableFailed\<rparr>" "s' = s1" using assms s1 by (auto simp: migrate_up_def Let_def)
    then show ?thesis using ensure_table_false [of ?d s s1] s1 1 by (simp add: empty_result_def)
  next
    case 2
    then have "res = empty_result\<lparr>rs_error := Some VersionsFailed\<rparr>" "s' = s2" using assms s1 s2 by (auto simp: migrate_up_def Let_def)
    then show ?thesis using ensure_table_true [of ?d s s1] applied_versions_none [of ?d s1 s2] s1 s2 2 by (simp add: empty_result_def)
  next
    case (3 l)
    then have t: "ensure_table ?d s = (True, s1)" "applied_versions ?d s1 = (Some l, s2)" using s1 s2 by simp_all
    have "up_loop cfg ms ?d l ms empty_result s2 = (res, s')"
      using assms t by (simp add: migrate_up_def Let_def)
    then show ?thesis
      using ensure_table_true [OF t(1)] applied_versions_some [OF t(2)] clean_same [of s2 s1] table_ok_same [of s2 s1] by (intro disjI2 exI [of _ l] exI [of _ s2]) (simp add: started_def)
  qed
qed

text \<open>A schema as the list of its tables, and migrations that add a table or fail.\<close>

definition add_table :: "int \<Rightarrow> string \<Rightarrow> string list migration" where
  "add_table v nm = \<lparr>mg_version = v, mg_name = nm, mg_up = (\<lambda>d t w. (None, t, nm # w)), mg_down = Some (\<lambda>d t w. (None, t, tl w))\<rparr>"

definition bad_sql :: "int \<Rightarrow> string list migration" where
  "bad_sql v = \<lparr>mg_version = v, mg_name = ''bad'', mg_up = (\<lambda>d t w. (Some ''syntax error'', t, w)), mg_down = Some (\<lambda>d t w. (None, t, w))\<rparr>"

definition new_database :: "string list mig_state" where
  "new_database = \<lparr>ms_table = None, ms_world = [], ms_now = 0, ms_faults = []\<rparr>"

definition no_config :: mig_config where
  "no_config = \<lparr>mc_timeout = 0, mc_rollback_timeout = 0\<rparr>"

lemma reversible_samples [simp]: "reversible (add_table v nm)" "reversible (bad_sql v)"
  by (auto simp: reversible_def add_table_def bad_sql_def)

lemmas samples = add_table_def bad_sql_def new_database_def no_config_def new_runner_def mig_defaults_def second_def

lemmas runner_defs = migrate_up_def ensure_table_def applied_versions_def stmt_fails_def mark_dirty_def mark_clean_def remove_record_def
  on_table_def run_op_def empty_result_def rollback_applied_def lookup_migration_def update_where_def

text \<open>C30: A run of \<^verbatim>\<open>Up\<close> that reports no error has executed the forward operation of every migration that was not
  recorded as applied, each once, successfully and in the order of the versions, and afterwards exactly these and the versions
  applied before are recorded; whatever statements failed or how long it took.\<close>

theorem migrate_up_sound:
  assumes "new_runner ms0 cfg0 = (cfg, ms)" and "migrate_up cfg ms s = (res, s')" and "rs_error res = None"
  shows "rs_applied res = map mg_version (pending (clean s) ms) \<and> rs_rolled_back res = [] \<and> sorted (rs_applied res) \<and>
    clean s' = clean s \<union> mg_version ` set ms0 \<and>
    ran (ms_now s + mc_timeout cfg) (pending (clean s) ms) (ms_world s) (ms_world s')"
proof -
  obtain vs s1 where u: "up_loop cfg ms (ms_now s + mc_timeout cfg) vs ms empty_result s1 = (res, s')" "set vs = clean s" "clean s1 = clean s"
    "ms_world s1 = ms_world s"
    using migrate_up_cases [OF assms(2)] assms(3) by (auto simp: started_def)
  note a = up_loop_sound(1) [OF u(1) assms(3), unfolded advanced_def u(2,3,4)]
  have "clean s \<union> mg_version ` set (pending (clean s) ms) = clean s \<union> mg_version ` set ms0"
    using new_runner_facts(1) [OF assms(1)] by (auto simp: pending_def)
  moreover have "ran (ms_now s + mc_timeout cfg) (pending (clean s) ms) (ms_world s) (ms_world s')"
    using advanced_ran [OF up_loop_sound(1) [OF u(1) assms(3)]] u(2,4) by simp
  moreover have "sorted (map mg_version (pending (clean s) ms))"
    using new_runner_facts(2) [OF assms(1)] by (simp add: pending_def sorted_filter)
  ultimately show ?thesis using a by (simp add: empty_result_def)
qed

text \<open>A run of \<^verbatim>\<open>Up\<close> that fails, in a forward operation or because its time is over, gives back the database and
  the recorded versions it found, when every migration can be reversed and the statements on the tracking table do not fail. The only
  other error of such a run is a migration that finishes after the deadline, which stays applied and marked dirty.\<close>

theorem migrate_up_restores:
  assumes "new_runner ms0 cfg0 = (cfg, ms)" and "distinct (map mg_version ms0)" and "\<forall>m \<in> set ms0. reversible m"
    and "0 \<le> mc_rollback_timeout cfg0" and "ms_faults s = []"
    and "migrate_up cfg ms s = (res, s')" and "rs_error res = Some e" and "e \<noteq> MarkCleanFailed"
  shows "ms_world s' = ms_world s \<and> clean s' = clean s"
proof (cases "ms_world s' = ms_world s \<and> clean s' = clean s")
  case False
  then obtain vs s1 where u: "up_loop cfg ms (ms_now s + mc_timeout cfg) vs ms empty_result s1 = (res, s')" "set vs = clean s" "clean s1 = clean s"
    "ms_world s1 = ms_world s" "ms_table s1 \<noteq> None" "ms_faults s1 = []"
    using migrate_up_cases [OF assms(6)] assms(5) by (auto simp: started_def)
  have "undoable ms (ms_now s + mc_timeout cfg) [] (ms_world s) (set vs) empty_result s1"
    using u ran_none by (auto simp: undoable_def can_undo_def empty_result_def)
  moreover have "\<forall>m \<in> set ms. reversible m \<and> lookup_migration ms (mg_version m) = Some m"
    using assms(3) new_runner_facts(1,3) [OF assms(1)] assms(2) lookup_registered by auto
  ultimately show ?thesis
    using up_loop_restores [OF u(1) assms(7,8) _ _ new_runner_facts(4) [OF assms(1,4)]] new_runner_facts(3) [OF assms(1,2)] u(2)
    by (simp add: empty_result_def)
qed blast

text \<open>\<^verbatim>\<open>Down\<close> undoes \<^verbatim>\<open>Up\<close>: after a run that applied migrations newer than those recorded, as many steps down
  remove exactly these, last first, and the database and the recorded versions are those before the run.\<close>

theorem migrate_up_down:
  assumes "new_runner ms0 cfg0 = (cfg, ms)" and "distinct (map mg_version ms0)" and "\<forall>m \<in> set ms0. reversible m"
    and "0 \<le> mc_rollback_timeout cfg0" and "ms_faults s = []" and "table_ok s"
    and "\<forall>m \<in> set ms0. mg_version m \<notin> clean s \<longrightarrow> (\<forall>v \<in> clean s. v < mg_version m)"
    and "migrate_up cfg ms s = (res, s1)" and "rs_error res = None"
  shows "\<exists>res2 s2. migrate_down cfg ms (int (length (rs_applied res))) s1 = (res2, s2) \<and> rs_error res2 = None \<and>
    rs_rolled_back res2 = rev (rs_applied res) \<and> ms_world s2 = ms_world s \<and> clean s2 = clean s"
proof -
  let ?d = "ms_now s + mc_timeout cfg" and ?run = "pending (clean s) ms" and ?d2 = "ms_now s1 + mc_rollback_timeout cfg"
  obtain vs s0 where u: "up_loop cfg ms ?d vs ms empty_result s0 = (res, s1)" "set vs = clean s" "clean s0 = clean s"
    "ms_world s0 = ms_world s" "ms_table s0 \<noteq> None" "table_ok s0" "ms_faults s0 = []"
    using migrate_up_cases [OF assms(8)] assms(5,6,9) by (auto simp: started_def)
  have adv: "advanced ?d ?run empty_result s0 res s1" using up_loop_sound(1) [OF u(1) assms(9)] u(2) by simp
  have s1: "ms_faults s1 = []" "ms_table s1 \<noteq> None" "table_ok s1" "clean s1 = clean s \<union> mg_version ` set ?run"
    "rs_applied res = map mg_version ?run"
    using adv u(3,5,6,7) up_loop_sound(2) [OF u(1) assms(9)] by (auto simp: advanced_def empty_result_def)
  have pos: "0 < mc_rollback_timeout cfg" by (rule new_runner_facts(4) [OF assms(1,4)])
  obtain s2 where s2: "ensure_table ?d2 s1 = (True, s2)" using pos s1(1) by (simp add: ensure_table_def Let_def stmt_fails_def)
  note e = ensure_table_true [OF s2]
  obtain l s3 where s3: "applied_versions ?d2 s2 = (Some l, s3)"
    using pos s1(1) e by (auto simp: applied_versions_def Let_def stmt_fails_def split: option.splits)
  note a = applied_versions_some [OF s3]
  have l: "l = sorted_list_of_set (clean s) @ map mg_version ?run"
  proof (rule sorted_distinct_set_unique [OF a(2) a(3)])
    show "table_ok s2" using e(5) s1(3) by simp
    have fin: "finite (clean s)" using u(2) by (metis finite_set)
    show "sorted (sorted_list_of_set (clean s) @ map mg_version ?run)"
      using fin assms(7) new_runner_facts(1,2) [OF assms(1)] by (auto simp: sorted_append pending_def sorted_filter less_imp_le)
    show "distinct (sorted_list_of_set (clean s) @ map mg_version ?run)"
      using fin new_runner_facts(3) [OF assms(1,2)] by (auto simp: pending_def distinct_map_filter)
    show "set l = set (sorted_list_of_set (clean s) @ map mg_version ?run)" using fin a(1) e(4) s1(4) by simp
  qed
  have "can_undo ms ?run"
    using assms(3) new_runner_facts(1,3) [OF assms(1)] assms(2) lookup_registered by (auto simp: can_undo_def pending_def)
  moreover have "ran ?d ?run (ms_world s) (ms_world s3)" using advanced_ran [OF adv] u(4) e(2) a(5) by simp
  moreover have "ready ?d2 s3" using pos a(4,6,7) e(1,3,6) s1(1) by (simp add: ready_def)
  ultimately obtain res2 s4 where "down_loop ms ?d2 (int (length ?run)) (rev (map mg_version ?run) @ rev (sorted_list_of_set (clean s)))
      empty_result s3 = (res2, s4)" "ms_world s4 = ms_world s" "clean s4 = clean s3 - mg_version ` set ?run"
    "rs_rolled_back res2 = rev (map mg_version ?run)" "rs_error res2 = None"
    using down_undoes [of ms ?run ?d "ms_world s" s3 ?d2 "rev (sorted_list_of_set (clean s))" empty_result] by (auto simp: empty_result_def)
  moreover have "clean s3 = clean s \<union> mg_version ` set ?run" using clean_same [OF a(4)] e(4) s1(4) by simp
  moreover have "clean s \<inter> mg_version ` set ?run = {}" by (auto simp: pending_def)
  ultimately show ?thesis using l s2 s3 s1(5) by (auto simp: migrate_down_def Let_def)
qed

text \<open>After a successful run another one has nothing to do: it applies no migration and leaves the database as it is.\<close>

theorem migrate_up_idempotent:
  assumes "new_runner ms0 cfg0 = (cfg, ms)" and "migrate_up cfg ms s = (res, s1)" and "rs_error res = None"
    and "migrate_up cfg ms s1 = (res2, s2)"
  shows "rs_applied res2 = [] \<and> ms_world s2 = ms_world s1 \<and> clean s2 = clean s1"
proof -
  have none: "\<forall>m \<in> set ms. mg_version m \<in> clean s1"
    using migrate_up_sound [OF assms(1-3)] new_runner_facts(1) [OF assms(1)] by auto
  have skip: "up_loop cfg ms d vs todo r s0 = (r, s0)" if "\<forall>m \<in> set todo. mg_version m \<in> set vs" for d vs todo r s0
    using that by (induction todo) simp_all
  show ?thesis
  proof (rule disjE [OF migrate_up_cases [OF assms(4)]])
    assume "\<exists>vs s0. started cfg ms s1 vs s0 res2 s2"
    then obtain vs s0 where u: "up_loop cfg ms (ms_now s1 + mc_timeout cfg) vs ms empty_result s0 = (res2, s2)" "set vs = clean s1"
      "clean s0 = clean s1" "ms_world s0 = ms_world s1" by (auto simp: started_def)
    show ?thesis using skip [of ms vs "ms_now s1 + mc_timeout cfg" empty_result s0] none u by (auto simp: empty_result_def)
  qed simp
qed

subsection \<open>Instances\<close>

definition two_tables :: "string list migration list" where
  "two_tables = [add_table 2 ''bids'', add_table 1 ''users'']"

definition fresh_run :: "string list migration list \<Rightarrow> mig_result \<times> string list mig_state" where
  "fresh_run ms0 = (case new_runner ms0 no_config of (cfg, ms) \<Rightarrow> migrate_up cfg ms new_database)"

lemma small_numbers [simp]: "char_of (49 :: nat) = CHR ''1''" "char_of (51 :: nat) = CHR ''3''"
  by code_simp+

lemma fresh_run_two: "fresh_run two_tables = (empty_result\<lparr>rs_applied := [1, 2]\<rparr>,
    \<lparr>ms_table = Some [\<lparr>tr_version = 1, tr_dirty = False, tr_applied = 0\<rparr>, \<lparr>tr_version = 2, tr_dirty = False, tr_applied = 0\<rparr>],
     ms_world = [''bids'', ''users''], ms_now = 0, ms_faults = []\<rparr>)"
  by (simp add: fresh_run_def two_tables_def samples runner_defs Let_def)

lemma fresh_run_bad: "fresh_run (bad_sql 3 # two_tables) = (empty_result\<lparr>rs_applied := [1, 2], rs_rolled_back := [2, 1],
    rs_error := Some (UpFailed ''syntax error''), rs_failed := ''3_bad''\<rparr>,
    \<lparr>ms_table = Some [], ms_world = [], ms_now = 0, ms_faults = []\<rparr>)"
  by (simp add: fresh_run_def two_tables_def samples runner_defs Let_def migration_name_def itoa_def)

theorem migrate_up_sound_witness:
  "rs_applied (fst (fresh_run two_tables)) = map mg_version (pending {} [add_table 1 ''users'', add_table 2 ''bids'']) \<and>
   clean (snd (fresh_run two_tables)) = {1, 2}"
proof -
  obtain cfg ms where n: "new_runner two_tables no_config = (cfg, ms)" by fastforce
  obtain res s' where r: "fresh_run two_tables = (res, s')" by fastforce
  have up: "migrate_up cfg ms new_database = (res, s')" "rs_error res = None"
    using r n fresh_run_two by (simp_all add: fresh_run_def empty_result_def)
  have ms: "ms = [add_table 1 ''users'', add_table 2 ''bids'']" using n by (auto simp: two_tables_def samples)
  have "clean new_database = {}" by (simp add: clean_def new_database_def)
  then show ?thesis using migrate_up_sound [OF n up] r ms by (auto simp: two_tables_def add_table_def)
qed

theorem migrate_up_restores_witness:
  "ms_world (snd (fresh_run (bad_sql 3 # two_tables))) = [] \<and> clean (snd (fresh_run (bad_sql 3 # two_tables))) = {}"
proof -
  let ?ms0 = "bad_sql 3 # two_tables"
  obtain cfg ms where n: "new_runner ?ms0 no_config = (cfg, ms)" by fastforce
  obtain res s' where r: "fresh_run ?ms0 = (res, s')" by fastforce
  have up: "migrate_up cfg ms new_database = (res, s')" "rs_error res = Some (UpFailed ''syntax error'')"
    using r n fresh_run_bad by (simp_all add: fresh_run_def empty_result_def)
  have "distinct (map mg_version ?ms0)" "\<forall>m \<in> set ?ms0. reversible m" "0 \<le> mc_rollback_timeout no_config" "ms_faults new_database = []"
    by (auto simp: two_tables_def, simp_all add: samples)
  note res = migrate_up_restores [OF n this up, simplified]
  have "clean new_database = {}" "ms_world new_database = []" by (simp_all add: clean_def new_database_def)
  then show ?thesis using res r by simp
qed

theorem migrate_up_down_witness:
  "\<exists>cfg ms res2 s2. new_runner two_tables no_config = (cfg, ms) \<and>
     migrate_down cfg ms 2 (snd (fresh_run two_tables)) = (res2, s2) \<and> rs_rolled_back res2 = [2, 1] \<and> ms_world s2 = []"
proof -
  obtain cfg ms where n: "new_runner two_tables no_config = (cfg, ms)" by fastforce
  obtain res s' where r: "fresh_run two_tables = (res, s')" by fastforce
  have up: "migrate_up cfg ms new_database = (res, s')" "rs_error res = None" "rs_applied res = [1, 2]"
    using r n fresh_run_two by (simp_all add: fresh_run_def empty_result_def)
  have h: "distinct (map mg_version two_tables)" "\<forall>m \<in> set two_tables. reversible m" "0 \<le> mc_rollback_timeout no_config"
    "ms_faults new_database = []" "table_ok new_database"
    "\<forall>m \<in> set two_tables. mg_version m \<notin> clean new_database \<longrightarrow> (\<forall>v \<in> clean new_database. v < mg_version m)"
    by (auto simp: two_tables_def, simp_all add: samples table_ok_def clean_def)
  show ?thesis using migrate_up_down [OF n h up(1,2)] r up(3) n by (auto simp: new_database_def)
qed

theorem migrate_up_idempotent_witness:
  "\<exists>cfg ms res2 s2. new_runner two_tables no_config = (cfg, ms) \<and>
     migrate_up cfg ms (snd (fresh_run two_tables)) = (res2, s2) \<and> rs_applied res2 = [] \<and> ms_world s2 = [''bids'', ''users'']"
proof -
  obtain cfg ms where n: "new_runner two_tables no_config = (cfg, ms)" by fastforce
  obtain res s' where r: "fresh_run two_tables = (res, s')" by fastforce
  have up: "migrate_up cfg ms new_database = (res, s')" "rs_error res = None" "ms_world s' = [''bids'', ''users'']"
    using r n fresh_run_two by (simp_all add: fresh_run_def empty_result_def)
  obtain res2 s2 where again: "migrate_up cfg ms s' = (res2, s2)" by fastforce
  show ?thesis using migrate_up_idempotent [OF n up(1,2) again] again n r up(3) by auto
qed

subsection \<open>The dirty flag\<close>

text \<open>A migration that ends after the deadline has changed the database and stays marked dirty. Dirty versions do not count as
  applied, so the next run executes the migration a second time.\<close>

definition slow_table :: "string list migration" where
  "slow_table = \<lparr>mg_version = 1, mg_name = ''slow'', mg_up = (\<lambda>d t w. (None, max t d, ''slow'' # w)), mg_down = Some (\<lambda>d t w. (None, t, tl w))\<rparr>"

lemma late_migration:
  "fresh_run [slow_table] = (empty_result\<lparr>rs_error := Some MarkCleanFailed, rs_failed := ''1_slow''\<rparr>,
     \<lparr>ms_table = Some [\<lparr>tr_version = 1, tr_dirty = True, tr_applied = 0\<rparr>], ms_world = [''slow''], ms_now = 300 * second, ms_faults = []\<rparr>)"
  by (simp add: fresh_run_def samples runner_defs slow_table_def Let_def migration_name_def itoa_def)

lemma late_migration_runs_again:
  "ms_world (snd (migrate_up (mig_defaults no_config) [slow_table] (snd (fresh_run [slow_table])))) = [''slow'', ''slow'']"
  unfolding late_migration by (simp add: samples runner_defs slow_table_def Let_def)

end
