(* ===== verification/Jwt.thy ===== *)
theory Jwt
  imports Redis
begin

text \<open>
  Signed tokens (\<^verbatim>\<open>pkg/auth/jwt.go\<close>, \<^verbatim>\<open>claims.go\<close>, \<^verbatim>\<open>roles.go\<close>, \<^verbatim>\<open>token_blacklist.go\<close>). The library
  \<^verbatim>\<open>golang-jwt\<close> is not in the repository: it is an argument, a \<open>jwt_lib\<close>, of every operation that signs or parses, and
  \<open>jwt_ok\<close> states what it documents: a token parses exactly under the key it was signed with, and then to the claims it was
  signed for, if it has not expired and its start has come. Dates in a token are whole seconds. \<open>sample_jwt\<close> is a library of this kind.
\<close>

subsection \<open>The library\<close>

text \<open>The fields of all the structs that the code puts into tokens. A struct without a field ignores it, and one
  whose field is missing in the token has it empty.\<close>

record claims =
  cl_user :: string
  cl_name :: string
  cl_email :: string
  cl_role :: string
  cl_service :: string
  cl_jti :: string
  cl_subject :: string
  cl_issuer :: string
  cl_expires :: "time option"
  cl_issued :: "time option"
  cl_start :: "time option"

definition no_claims :: claims where
  "no_claims = \<lparr>cl_user = [], cl_name = [], cl_email = [], cl_role = [], cl_service = [], cl_jti = [], cl_subject = [],
     cl_issuer = [], cl_expires = None, cl_issued = None, cl_start = None\<rparr>"

datatype jwt_err = JwtExpired | JwtRejected

text \<open>The callback that finds the key is told whether the method of the token is HMAC, and may refuse. The first argument of
  \<open>jl_sign\<close> is the key id of the header, the second the key; of \<open>jl_parse\<close> the first says whether the dates are checked.\<close>

type_synonym key_func = "bool \<Rightarrow> string option"

record jwt_lib =
  jl_date :: "time \<Rightarrow> time"
  jl_sign :: "string \<Rightarrow> string \<Rightarrow> claims \<Rightarrow> string option"
  jl_parse :: "bool \<Rightarrow> time \<Rightarrow> key_func \<Rightarrow> string \<Rightarrow> jwt_err + claims"

definition in_time :: "time \<Rightarrow> claims \<Rightarrow> jwt_err + claims" where
  "in_time t c =
     (if case cl_expires c of Some e \<Rightarrow> e \<le> t | None \<Rightarrow> False then Inl JwtExpired
      else if case cl_start c of Some n \<Rightarrow> t < n | None \<Rightarrow> False then Inl JwtRejected
      else Inr c)"

definition jwt_ok :: "jwt_lib \<Rightarrow> bool" where
  "jwt_ok lib \<longleftrightarrow>
     (\<forall>t. jl_date lib t \<le> t \<and> t < jl_date lib t + second) \<and>
     (\<forall>kid k c. \<exists>tok. jl_sign lib kid k c = Some tok) \<and>
     (\<forall>kid k c tok b t f. jl_sign lib kid k c = Some tok \<longrightarrow>
        jl_parse lib b t f tok = (if f True = Some k then (if b then in_time t c else Inr c) else Inl JwtRejected)) \<and>
     (\<forall>b t f tok c. jl_parse lib b t f tok = Inr c \<longrightarrow> (\<exists>kid k. f True = Some k \<and> jl_sign lib kid k c = Some tok))"

lemma jwt_ok_date: "jwt_ok lib \<Longrightarrow> jl_date lib t \<le> t" "jwt_ok lib \<Longrightarrow> t < jl_date lib t + second"
  by (simp_all add: jwt_ok_def)

lemma jwt_ok_signs: "jwt_ok lib \<Longrightarrow> \<exists>tok. jl_sign lib kid k c = Some tok"
  by (simp add: jwt_ok_def)

lemma jwt_ok_parse:
  "jwt_ok lib \<Longrightarrow> jl_sign lib kid k c = Some tok \<Longrightarrow>
   jl_parse lib b t f tok = (if f True = Some k then (if b then in_time t c else Inr c) else Inl JwtRejected)"
  unfolding jwt_ok_def by blast

lemma jwt_ok_genuine:
  "jwt_ok lib \<Longrightarrow> jl_parse lib b t f tok = Inr c \<Longrightarrow> \<exists>kid k. f True = Some k \<and> jl_sign lib kid k c = Some tok"
  unfolding jwt_ok_def by blast

lemma in_time_Inr: "in_time t c = Inr c' \<longleftrightarrow> c' = c \<and> (\<forall>e. cl_expires c = Some e \<longrightarrow> t < e) \<and> (\<forall>n. cl_start c = Some n \<longrightarrow> n \<le> t)"
  by (auto simp: in_time_def split: option.splits)

text \<open>What an accepted token says: it was signed with the key in use for these claims, and the clock is between its dates.\<close>

lemma parse_accepts:
  assumes "jwt_ok lib" and "jl_parse lib True t f tok = Inr c"
  shows "(\<exists>kid k. f True = Some k \<and> jl_sign lib kid k c = Some tok) \<and> in_time t c = Inr c"
proof -
  obtain kid k where k: "f True = Some k" "jl_sign lib kid k c = Some tok"
    using jwt_ok_genuine [OF assms] by blast
  then show ?thesis using jwt_ok_parse [OF assms(1) k(2), of True t f] assms(2) by auto
qed

text \<open>The callback of the code: only HMAC tokens, with a fixed key.\<close>

definition hmac_key :: "string \<Rightarrow> key_func" where
  "hmac_key k hmac = (if hmac then Some k else None)"

lemma hmac_key_True [simp]: "hmac_key k True = Some k"
  by (simp add: hmac_key_def)

subsection \<open>Roles\<close>

definition role_admin :: string where "role_admin = ''admin''"
definition role_seller :: string where "role_seller = ''seller''"
definition role_bidder :: string where "role_bidder = ''bidder''"

definition all_roles :: "string list" where
  "all_roles = [role_admin, role_seller, role_bidder]"

definition is_valid_role :: "string \<Rightarrow> bool" where
  "is_valid_role role = list_ex (\<lambda>r. r = role) all_roles"

subsection \<open>Access and refresh tokens\<close>

definition access_token_ttl :: duration where "access_token_ttl = 15 * minute"
definition refresh_token_ttl :: duration where "refresh_token_ttl = 7 * 24 * hour"

datatype auth_err = ErrTokenExpired | ErrTokenInvalid | SignFailed

record token_pair =
  tp_access :: string
  tp_refresh :: string
  tp_expires_in :: int

text \<open>The fields that the claims of this package and the registered claims alone keep.\<close>

definition shared_view :: "claims \<Rightarrow> claims" where
  "shared_view c = c\<lparr>cl_name := [], cl_service := []\<rparr>"

definition generate_access_token :: "jwt_lib \<Rightarrow> time \<Rightarrow> string \<Rightarrow> string \<Rightarrow> string \<Rightarrow> string \<Rightarrow> auth_err + string" where
  "generate_access_token lib t user email role secret =
     (case jl_sign lib [] secret (no_claims\<lparr>cl_user := user, cl_email := email, cl_role := role,
         cl_expires := Some (jl_date lib (t + access_token_ttl)), cl_issued := Some (jl_date lib t), cl_start := Some (jl_date lib t)\<rparr>) of
        None \<Rightarrow> Inl SignFailed | Some tok \<Rightarrow> Inr tok)"

definition generate_refresh_token :: "jwt_lib \<Rightarrow> time \<Rightarrow> string \<Rightarrow> string \<Rightarrow> auth_err + string" where
  "generate_refresh_token lib t user secret =
     (case jl_sign lib [] secret (no_claims\<lparr>cl_subject := user,
         cl_expires := Some (jl_date lib (t + refresh_token_ttl)), cl_issued := Some (jl_date lib t)\<rparr>) of
        None \<Rightarrow> Inl SignFailed | Some tok \<Rightarrow> Inr tok)"

definition generate_token_pair :: "jwt_lib \<Rightarrow> time \<Rightarrow> string \<Rightarrow> string \<Rightarrow> string \<Rightarrow> string \<Rightarrow> auth_err + token_pair" where
  "generate_token_pair lib t user email role secret =
     (case generate_access_token lib t user email role secret of Inl e \<Rightarrow> Inl e
      | Inr access \<Rightarrow> (case generate_refresh_token lib t user secret of Inl e \<Rightarrow> Inl e
          | Inr refresh \<Rightarrow> Inr \<lparr>tp_access = access, tp_refresh = refresh, tp_expires_in = access_token_ttl div second\<rparr>))"

definition validate_token :: "jwt_lib \<Rightarrow> time \<Rightarrow> string \<Rightarrow> string \<Rightarrow> auth_err + claims" where
  "validate_token lib t tok secret =
     (case jl_parse lib True t (hmac_key secret) tok of
        Inl JwtExpired \<Rightarrow> Inl ErrTokenExpired | Inl JwtRejected \<Rightarrow> Inl ErrTokenInvalid | Inr c \<Rightarrow> Inr (shared_view c))"

definition validate_refresh_token :: "jwt_lib \<Rightarrow> time \<Rightarrow> string \<Rightarrow> string \<Rightarrow> auth_err + string" where
  "validate_refresh_token lib t tok secret =
     (case jl_parse lib True t (hmac_key secret) tok of
        Inl JwtExpired \<Rightarrow> Inl ErrTokenExpired | Inl JwtRejected \<Rightarrow> Inl ErrTokenInvalid | Inr c \<Rightarrow> Inr (cl_subject c))"

subsection \<open>The blacklist of the shared package\<close>

definition blacklist_key :: "string \<Rightarrow> string" where
  "blacklist_key tok = ''blacklist:'' @ tok"

definition revoke_token :: "string \<Rightarrow> duration \<Rightarrow> time \<Rightarrow> string redis \<Rightarrow> bool \<times> string redis" where
  "revoke_token tok ttl t r = redis_set (blacklist_key tok) ''revoked'' ttl t r"

text \<open>\<open>None\<close> is the error of a failed lookup.\<close>

definition is_revoked :: "string \<Rightarrow> time \<Rightarrow> string redis \<Rightarrow> bool option \<times> string redis" where
  "is_revoked tok t r = (case redis_get (blacklist_key tok) t r of
     (None, r') \<Rightarrow> (None, r') | (Some None, r') \<Rightarrow> (Some False, r') | (Some (Some v), r') \<Rightarrow> (Some (v = ''revoked''), r'))"

end
