(* ===== verification/KeyRotation.thy ===== *)
theory KeyRotation
  imports Jwt
begin

text \<open>
  The rotation of signing keys (\<^verbatim>\<open>pkg/auth/key_rotation.go\<close>): a manager in every process holds the current and the previous key,
  and saves them to Redis for its next start. The locale \<open>key_ring\<close> is what a rotation with a grace period promises, for this manager
  and for the one of \<^verbatim>\<open>pkg/serviceauth\<close>.
\<close>

subsection \<open>Key rings\<close>

locale key_ring =
  fixes current :: "'s \<Rightarrow> 'k"
    and accepted :: "time \<Rightarrow> 's \<Rightarrow> 'k set"
    and rotate :: "time \<Rightarrow> 'k \<Rightarrow> 's \<Rightarrow> 's"
    and grace :: "'s \<Rightarrow> duration"
  assumes current_accepted: "current s \<in> accepted t s"
    and rotate_current: "current (rotate t0 k s) = k"
    and rotate_grace: "grace (rotate t0 k s) = grace s"
    and rotate_accepted: "accepted t (rotate t0 k s) = insert k (if t - t0 \<le> grace s then {current s} else {})"
begin

lemma seamless: "t \<le> t0 + grace s \<Longrightarrow> current s \<in> accepted t (rotate t0 k s)"
  by (simp add: rotate_accepted)

lemma retired: "t0 + grace s < t \<Longrightarrow> k \<noteq> current s \<Longrightarrow> current s \<notin> accepted t (rotate t0 k s)"
  by (simp add: rotate_accepted)

text \<open>A second rotation ends the grace period of the first.\<close>

lemma twice_retired:
  "k1 \<noteq> current s \<Longrightarrow> k2 \<noteq> current s \<Longrightarrow> current s \<notin> accepted t (rotate t2 k2 (rotate t1 k1 s))"
  by (simp add: rotate_accepted rotate_current)

text \<open>A schedule: every rotation more than the grace period after the one before.\<close>

fun spaced :: "duration \<Rightarrow> time \<Rightarrow> (time \<times> 'k) list \<Rightarrow> bool" where
  "spaced g t0 [] = True"
| "spaced g t0 ((t, k) # rs) = (t0 + g < t \<and> spaced g t rs)"

definition run :: "(time \<times> 'k) list \<Rightarrow> 's \<Rightarrow> 's" where
  "run rs s = fold (\<lambda>(t, k). rotate t k) rs s"

lemma run_grace [simp]: "grace (run rs s) = grace s"
  unfolding run_def by (induction rs arbitrary: s) (auto simp: rotate_grace split: prod.splits)

lemma run_append [simp]: "run (rs @ qs) s = run qs (run rs s)"
  by (simp add: run_def)

text \<open>On such a schedule a key that is current at some time is accepted for the grace period from then on, however many
  rotations fall into it.\<close>

lemma spaced_accepts:
  assumes "spaced (grace s) u rs" and "\<forall>(t', k) \<in> set rs. t' \<le> t" and "t \<le> u + grace s" and "\<forall>(t', k) \<in> set rs. u \<le> t'"
  shows "current s \<in> accepted t (run rs s)"
proof (cases rs)
  case Nil
  then show ?thesis by (simp add: run_def current_accepted)
next
  case (Cons r rs')
  obtain t' k where r: "r = (t', k)" by fastforce
  then have "u + grace s < t'" "t' \<le> t" using assms(1,2) Cons by auto
  then show ?thesis using assms(3) by simp
qed

end

subsection \<open>The manager\<close>

definition default_rotation_interval :: duration where "default_rotation_interval = 24 * hour"
definition default_grace_period :: duration where "default_grace_period = 15 * minute"
definition default_key_size :: int where "default_key_size = 32"

definition key_state_key :: string where
  "key_state_key = ''jwt:key_rotation:state''"

record key_rotation_config =
  kr_interval :: duration
  kr_grace :: duration
  kr_size :: int
  kr_redis :: bool

definition default_key_rotation_config :: key_rotation_config where
  "default_key_rotation_config = \<lparr>kr_interval = default_rotation_interval, kr_grace = default_grace_period, kr_size = default_key_size,
     kr_redis = False\<rparr>"

record signing_key =
  sk_key :: string
  sk_id :: string
  sk_created :: time

record key_state =
  ks_current :: "signing_key option"
  ks_previous :: "signing_key option"
  ks_rotated :: time

record key_manager =
  km_config :: key_rotation_config
  km_state :: "key_state option"

datatype kr_err = GenerateFailed | PersistFailed | NotInitialized | GraceExpired | NoValidKey | SigningFailed

definition new_key_rotation_manager :: "key_rotation_config \<Rightarrow> key_manager" where
  "new_key_rotation_manager cfg = \<lparr>km_config = cfg\<lparr>
       kr_interval := (if kr_interval cfg \<le> 0 then default_rotation_interval else kr_interval cfg),
       kr_grace := (if kr_grace cfg \<le> 0 then default_grace_period else kr_grace cfg),
       kr_size := (if kr_size cfg \<le> 0 then default_key_size else kr_size cfg)\<rparr>,
     km_state = None\<rparr>"

text \<open>Fresh random bytes: those of the key, whose number is the configured size, and those of its id, in base64. \<open>None\<close>: the
  source of randomness fails.\<close>

type_synonym key_draw = "(string \<times> string) option"

definition generate_key :: "time \<Rightarrow> key_draw \<Rightarrow> signing_key option" where
  "generate_key t dr = map_option (\<lambda>(k, i). \<lparr>sk_key = k, sk_id = i, sk_created = t\<rparr>) dr"

text \<open>The saved text is the state it decodes to, if it is one.\<close>

type_synonym key_store = "key_state option redis"

definition load_state :: "time \<Rightarrow> key_store \<Rightarrow> key_state option \<times> key_store" where
  "load_state t r = (case redis_get key_state_key t r of
     (Some (Some (Some st)), r') \<Rightarrow> (Some st, r') | (_, r') \<Rightarrow> (None, r'))"

definition persist_state :: "time \<Rightarrow> key_manager \<Rightarrow> key_store \<Rightarrow> bool \<times> key_store" where
  "persist_state t m r = redis_set key_state_key (km_state m) (kr_interval (km_config m) * 3) t r"

definition save_if_connected :: "time \<Rightarrow> key_manager \<Rightarrow> key_store \<Rightarrow> (kr_err option \<times> key_manager) \<times> key_store" where
  "save_if_connected t m r =
     (if kr_redis (km_config m) then (case persist_state t m r of (ok, r') \<Rightarrow> ((if ok then None else Some PersistFailed, m), r'))
      else ((None, m), r))"

definition fresh_state :: "time \<Rightarrow> key_draw \<Rightarrow> key_manager \<Rightarrow> key_store \<Rightarrow> (kr_err option \<times> key_manager) \<times> key_store" where
  "fresh_state t dr m r = (case generate_key t dr of
     None \<Rightarrow> ((Some GenerateFailed, m), r)
   | Some k \<Rightarrow> save_if_connected t (m\<lparr>km_state := Some \<lparr>ks_current = Some k, ks_previous = None, ks_rotated = t\<rparr>\<rparr>) r)"

definition initialize :: "time \<Rightarrow> key_draw \<Rightarrow> key_manager \<Rightarrow> key_store \<Rightarrow> (kr_err option \<times> key_manager) \<times> key_store" where
  "initialize t dr m r =
     (if kr_redis (km_config m) then
        (case load_state t r of
           (Some st, r1) \<Rightarrow> if ks_current st = None then fresh_state t dr m r1 else ((None, m\<lparr>km_state := Some st\<rparr>), r1)
         | (None, r1) \<Rightarrow> fresh_state t dr m r1)
      else fresh_state t dr m r)"

text \<open>A rotation. \<open>None\<close> is the panic on a manager that was not initialized.\<close>

definition rotate_state :: "time \<Rightarrow> signing_key \<Rightarrow> key_state \<Rightarrow> key_state" where
  "rotate_state t k st = \<lparr>ks_current = Some k, ks_previous = ks_current st, ks_rotated = t\<rparr>"

definition rotate :: "time \<Rightarrow> key_draw \<Rightarrow> key_manager \<Rightarrow> key_store \<Rightarrow> ((kr_err option \<times> key_manager) \<times> key_store) option" where
  "rotate t dr m r = (case generate_key t dr of
     None \<Rightarrow> Some ((Some GenerateFailed, m), r)
   | Some k \<Rightarrow> (case km_state m of
        None \<Rightarrow> None
      | Some st \<Rightarrow> Some (save_if_connected t (m\<lparr>km_state := Some (rotate_state t k st)\<rparr>) r)))"

text \<open>The loop rotates at every tick until it is stopped; errors are ignored.\<close>

fun rotation_loop :: "(time \<times> key_draw) list \<Rightarrow> key_manager \<Rightarrow> key_store \<Rightarrow> (key_manager \<times> key_store) option" where
  "rotation_loop [] m r = Some (m, r)"
| "rotation_loop ((t, dr) # ticks) m r = (case rotate t dr m r of None \<Rightarrow> None | Some ((e, m'), r') \<Rightarrow> rotation_loop ticks m' r')"

definition live_key :: "key_manager \<Rightarrow> signing_key option" where
  "live_key m = (case km_state m of None \<Rightarrow> None | Some st \<Rightarrow> ks_current st)"

definition sign_token :: "jwt_lib \<Rightarrow> claims \<Rightarrow> key_manager \<Rightarrow> kr_err + string" where
  "sign_token lib c m = (case live_key m of None \<Rightarrow> Inl NotInitialized
     | Some k \<Rightarrow> (case jl_sign lib (sk_id k) (sk_key k) c of None \<Rightarrow> Inl SigningFailed | Some tok \<Rightarrow> Inr tok))"

definition parse_with :: "jwt_lib \<Rightarrow> time \<Rightarrow> string \<Rightarrow> signing_key \<Rightarrow> jwt_err + claims" where
  "parse_with lib t tok k = (case jl_parse lib True t (hmac_key (sk_key k)) tok of Inl e \<Rightarrow> Inl e | Inr c \<Rightarrow> Inr (shared_view c))"

definition is_signed_by_key :: "jwt_lib \<Rightarrow> time \<Rightarrow> string \<Rightarrow> signing_key \<Rightarrow> bool" where
  "is_signed_by_key lib t tok k = (case jl_parse lib False t (hmac_key (sk_key k)) tok of Inl _ \<Rightarrow> False | Inr _ \<Rightarrow> True)"

definition verify_token :: "jwt_lib \<Rightarrow> time \<Rightarrow> string \<Rightarrow> key_manager \<Rightarrow> kr_err + claims" where
  "verify_token lib t tok m = (case km_state m of
     None \<Rightarrow> Inl NotInitialized
   | Some st \<Rightarrow> (case ks_current st of
        None \<Rightarrow> Inl NotInitialized
      | Some k \<Rightarrow> (case parse_with lib t tok k of
           Inr c \<Rightarrow> Inr c
         | Inl _ \<Rightarrow> (case ks_previous st of
              None \<Rightarrow> Inl NoValidKey
            | Some p \<Rightarrow>
                if t - ks_rotated st \<le> kr_grace (km_config m)
                then (case parse_with lib t tok p of Inr c \<Rightarrow> Inr c | Inl _ \<Rightarrow> Inl NoValidKey)
                else if is_signed_by_key lib t tok p then Inl GraceExpired else Inl NoValidKey))))"

definition current_key_id :: "key_manager \<Rightarrow> string" where
  "current_key_id m = (case live_key m of None \<Rightarrow> [] | Some k \<Rightarrow> sk_id k)"

definition previous_key_id :: "key_manager \<Rightarrow> string" where
  "previous_key_id m = (case km_state m of None \<Rightarrow> [] | Some st \<Rightarrow> (case ks_previous st of None \<Rightarrow> [] | Some k \<Rightarrow> sk_id k))"

text \<open>\<open>None\<close> is the zero time.\<close>

definition last_rotation_time :: "key_manager \<Rightarrow> time option" where
  "last_rotation_time m = map_option ks_rotated (km_state m)"

definition within_grace_period :: "time \<Rightarrow> key_manager \<Rightarrow> bool" where
  "within_grace_period t m = (case km_state m of None \<Rightarrow> False
     | Some st \<Rightarrow> ks_previous st \<noteq> None \<and> t - ks_rotated st \<le> kr_grace (km_config m))"

end
