(* ===== verification/JwtSpec.thy ===== *)
theory JwtSpec
  imports Jwt
begin

text \<open>
  What tokens guarantee for a library that behaves as documented, and a library that does: \<open>sample_jwt\<close>, whose
  tokens are the key id, the key and the claims written one after the other.
\<close>

subsection \<open>A library\<close>

fun put_field :: "string \<Rightarrow> string" where
  "put_field [] = ''.''"
| "put_field (c # s) = CHR ''x'' # c # put_field s"

fun get_fields :: "string \<Rightarrow> string \<Rightarrow> string list option" where
  "get_fields acc [] = (if acc = [] then Some [] else None)"
| "get_fields acc [a] = (if a = CHR ''.'' then Some [rev acc] else None)"
| "get_fields acc (a # c # r) =
     (if a = CHR ''.'' then map_option ((#) (rev acc)) (get_fields [] (c # r))
      else if a = CHR ''x'' then get_fields (c # acc) r else None)"

definition put_fields :: "string list \<Rightarrow> string" where
  "put_fields xs = concat (map put_field xs)"

lemma get_put_field: "get_fields acc (put_field s @ r) = map_option ((#) (rev acc @ s)) (get_fields [] r)"
proof (induction s arbitrary: acc)
  case Nil
  then show ?case by (cases r) auto
next
  case (Cons c s)
  then show ?case by simp
qed

lemma get_put_fields: "get_fields [] (put_fields xs) = Some xs"
  unfolding put_fields_def by (induction xs) (simp_all add: get_put_field)

lemma put_get_fields: "get_fields acc t = Some xs \<Longrightarrow> concat (map (\<lambda>c. [CHR ''x'', c]) (rev acc)) @ t = put_fields xs"
proof (induction acc t arbitrary: xs rule: get_fields.induct)
  case (1 acc)
  then show ?case by (auto simp: put_fields_def split: if_splits)
next
  case (2 acc a)
  have "concat (map (\<lambda>c. [CHR ''x'', c]) s) @ ''.'' = put_field s" for s by (induction s) auto
  then show ?case using 2 by (auto simp: put_fields_def split: if_splits)
next
  case (3 acc a c r)
  have pf: "concat (map (\<lambda>c. [CHR ''x'', c]) s) @ CHR ''.'' # q = put_field s @ q" for s q by (induction s) auto
  show ?case
  proof (cases "a = CHR ''.''")
    case True
    then obtain ys where ys: "get_fields [] (c # r) = Some ys" "xs = rev acc # ys" using 3(3) by auto
    have "c # r = put_fields ys" using 3(1) [OF True ys(1)] by simp
    then show ?thesis using ys(2) True pf [of "rev acc" "c # r"] by (simp add: put_fields_def)
  next
    case False
    then have "a = CHR ''x''" "get_fields (c # acc) r = Some xs" using 3(3) by (auto split: if_splits)
    then show ?thesis using 3(2) [OF False] by simp
  qed
qed

definition put_time :: "time option \<Rightarrow> string" where
  "put_time x = (case x of None \<Rightarrow> [] | Some t \<Rightarrow> (if t < 0 then CHR ''-'' else CHR ''+'') # replicate (nat \<bar>t\<bar>) (CHR ''1''))"

definition get_time :: "string \<Rightarrow> time option" where
  "get_time s = (case s of [] \<Rightarrow> None | c # r \<Rightarrow> Some (if c = CHR ''-'' then - int (length r) else int (length r)))"

lemma get_put_time [simp]: "get_time (put_time x) = x"
  by (cases x) (auto simp: get_time_def put_time_def)

definition put_claims :: "claims \<Rightarrow> string list" where
  "put_claims c = [cl_user c, cl_name c, cl_email c, cl_role c, cl_service c, cl_jti c, cl_subject c, cl_issuer c,
     put_time (cl_expires c), put_time (cl_issued c), put_time (cl_start c)]"

definition get_claims :: "string list \<Rightarrow> claims option" where
  "get_claims xs = (let c = \<lparr>cl_user = xs ! 0, cl_name = xs ! 1, cl_email = xs ! 2, cl_role = xs ! 3, cl_service = xs ! 4,
       cl_jti = xs ! 5, cl_subject = xs ! 6, cl_issuer = xs ! 7, cl_expires = get_time (xs ! 8), cl_issued = get_time (xs ! 9),
       cl_start = get_time (xs ! 10)\<rparr>
     in if length xs = 11 \<and> put_claims c = xs then Some c else None)"

lemma get_put_claims [simp]: "get_claims (put_claims c) = Some c"
  by (simp add: get_claims_def put_claims_def)

lemma put_get_claims: "get_claims xs = Some c \<Longrightarrow> put_claims c = xs"
  by (auto simp: get_claims_def Let_def split: if_splits)

definition sample_jwt :: jwt_lib where
  "sample_jwt = \<lparr>jl_date = (\<lambda>t. t div second * second),
     jl_sign = (\<lambda>kid k c. Some (put_fields (kid # k # put_claims c))),
     jl_parse = (\<lambda>b t f tok. case get_fields [] tok of
        Some (kid # k # xs) \<Rightarrow> (case get_claims xs of None \<Rightarrow> Inl JwtRejected
          | Some c \<Rightarrow> if f True = Some k then (if b then in_time t c else Inr c) else Inl JwtRejected)
      | _ \<Rightarrow> Inl JwtRejected)\<rparr>"

lemma floor_second: "t div second * second \<le> t" "t < t div second * second + second"
  unfolding second_def by presburger+

lemma sample_jwt_ok: "jwt_ok sample_jwt"
  unfolding jwt_ok_def
proof (intro conjI allI impI)
  fix t show "jl_date sample_jwt t \<le> t" "t < jl_date sample_jwt t + second"
    using floor_second by (simp_all add: sample_jwt_def)
next
  fix kid k c show "\<exists>tok. jl_sign sample_jwt kid k c = Some tok" by (simp add: sample_jwt_def)
next
  fix kid k c tok b t f assume "jl_sign sample_jwt kid k c = Some tok"
  then have "tok = put_fields (kid # k # put_claims c)" by (simp add: sample_jwt_def)
  then show "jl_parse sample_jwt b t f tok = (if f True = Some k then (if b then in_time t c else Inr c) else Inl JwtRejected)"
    by (simp add: sample_jwt_def get_put_fields)
next
  fix b t f tok c assume a: "jl_parse sample_jwt b t f tok = Inr c"
  obtain kid k xs c' where p: "get_fields [] tok = Some (kid # k # xs)" "get_claims xs = Some c'" "f True = Some k"
      "(if b then in_time t c' else Inr c') = Inr c"
    using a by (auto simp: sample_jwt_def split: option.splits list.splits if_splits)
  then have "c' = c" by (auto simp: in_time_Inr split: if_splits)
  moreover have "tok = put_fields (kid # k # put_claims c')" using put_get_fields [OF p(1)] put_get_claims [OF p(2)] by simp
  ultimately show "\<exists>kid k. f True = Some k \<and> jl_sign sample_jwt kid k c = Some tok"
    using p(3) by (auto simp: sample_jwt_def)
qed

subsection \<open>Tokens\<close>

text \<open>The dates of a token are rounded down, so the last second of its life may be missing.\<close>

lemma expiry_rounded:
  assumes "jwt_ok lib"
  shows "e \<le> t \<Longrightarrow> jl_date lib e \<le> t" and "t + second \<le> e \<Longrightarrow> t < jl_date lib e"
  using jwt_ok_date [OF assms, of e] by simp_all

lemma generated_token:
  assumes "jwt_ok lib" and "generate_access_token lib t0 user email role secret = Inr tok"
  shows "\<exists>c. jl_sign lib [] secret c = Some tok \<and> cl_user c = user \<and> cl_email c = email \<and> cl_role c = role \<and>
    cl_expires c = Some (jl_date lib (t0 + access_token_ttl)) \<and> cl_start c = Some (jl_date lib t0)"
  using assms(2) by (auto simp: generate_access_token_def split: option.splits)

text \<open>An access token that was generated validates with the same secret to its user, e-mail address and role for its whole life
  but the last second, is refused as expired from its end on, and never validates with another secret.\<close>

theorem access_token_roundtrip:
  assumes "jwt_ok lib" and "generate_access_token lib t0 user email role secret = Inr tok"
  shows "(t0 \<le> t \<longrightarrow> t + second \<le> t0 + access_token_ttl \<longrightarrow>
      (\<exists>c. validate_token lib t tok secret = Inr c \<and> cl_user c = user \<and> cl_email c = email \<and> cl_role c = role)) \<and>
    (t0 + access_token_ttl \<le> t \<longrightarrow> validate_token lib t tok secret = Inl ErrTokenExpired) \<and>
    (secret' \<noteq> secret \<longrightarrow> validate_token lib t tok secret' = Inl ErrTokenInvalid)"
proof -
  obtain c where c: "jl_sign lib [] secret c = Some tok" "cl_user c = user" "cl_email c = email" "cl_role c = role"
    "cl_expires c = Some (jl_date lib (t0 + access_token_ttl))" "cl_start c = Some (jl_date lib t0)"
    using generated_token [OF assms] by auto
  note parse = jwt_ok_parse [OF assms(1) c(1)]
  have "jl_date lib t0 \<le> t" if "t0 \<le> t" using jwt_ok_date(1) [OF assms(1), of t0] that by simp
  then show ?thesis
    using c expiry_rounded [OF assms(1), where e = "t0 + access_token_ttl" and t = t] parse
    by (auto simp: validate_token_def shared_view_def in_time_def)
qed

theorem access_token_roundtrip_witness:
  "\<exists>tok c. generate_access_token sample_jwt 0 ''u1'' ''ann@x'' ''seller'' ''key'' = Inr tok \<and>
     validate_token sample_jwt (5 * minute) tok ''key'' = Inr c \<and> cl_user c = ''u1'' \<and> cl_role c = ''seller'' \<and>
     validate_token sample_jwt (15 * minute) tok ''key'' = Inl ErrTokenExpired"
proof -
  obtain tok where tok: "generate_access_token sample_jwt 0 ''u1'' ''ann@x'' ''seller'' ''key'' = Inr tok"
    by (auto simp: generate_access_token_def sample_jwt_def)
  show ?thesis
    using access_token_roundtrip [OF sample_jwt_ok tok, of "5 * minute" "[]"] access_token_roundtrip [OF sample_jwt_ok tok, of "15 * minute" "[]"] tok
    by (auto simp: access_token_ttl_def minute_def second_def)
qed

text \<open>A refresh token of the pair is signed with the same secret and carries no mark of its kind, so it also validates as an access
  token, of a user with the empty id, and for seven days.\<close>

lemma refresh_token_validates:
  assumes "jwt_ok lib" and "generate_token_pair lib t0 user email role secret = Inr p" and "t + second \<le> t0 + refresh_token_ttl"
  shows "\<exists>c. validate_token lib t (tp_refresh p) secret = Inr c \<and> cl_user c = [] \<and> cl_role c = [] \<and>
    validate_refresh_token lib t (tp_refresh p) secret = Inr user"
proof -
  let ?c = "no_claims\<lparr>cl_subject := user, cl_expires := Some (jl_date lib (t0 + refresh_token_ttl)), cl_issued := Some (jl_date lib t0)\<rparr>"
  have "jl_sign lib [] secret ?c = Some (tp_refresh p)"
    using assms(2) by (auto simp: generate_token_pair_def generate_refresh_token_def split: sum.splits option.splits)
  from jwt_ok_parse [OF assms(1) this] show ?thesis
    using expiry_rounded(2) [OF assms(1) assms(3)]
    by (simp add: validate_token_def validate_refresh_token_def shared_view_def in_time_def no_claims_def)
qed

subsection \<open>The blacklist\<close>

text \<open>A revoked token is reported as long as its entry lives, and another one is not affected.\<close>

lemma revoked_reported:
  assumes "rd_faults r = []" and "t' < t + ttl"
  shows "fst (is_revoked tok t' (snd (revoke_token tok ttl t r))) = Some True"
    and "tok' \<noteq> tok \<Longrightarrow> fst (is_revoked tok' t' (snd (revoke_token tok ttl t r))) = fst (is_revoked tok' t' r)"
  using assms by (auto simp: is_revoked_def revoke_token_def redis_set_def redis_get_def live_def alive_def blacklist_key_def redis_fails_def
      split: option.splits)

end
