(* ===== verification/KeyRotationSpec.thy ===== *)
theory KeyRotationSpec
  imports KeyRotation JwtSpec
begin

text \<open>
  The manager of \<^verbatim>\<open>pkg/auth\<close> is a key ring: a token verifies exactly when one of the keys it accepts at that time
  signed it. Rotation is seamless in one process, and not between several.
\<close>

subsection \<open>The manager as a key ring\<close>

definition slots_accepted :: "time \<Rightarrow> key_manager \<Rightarrow> signing_key option set" where
  "slots_accepted t m = insert (live_key m) (case km_state m of None \<Rightarrow> {}
     | Some st \<Rightarrow> if t - ks_rotated st \<le> kr_grace (km_config m) then {ks_previous st} else {})"

definition slots_rotate :: "time \<Rightarrow> signing_key option \<Rightarrow> key_manager \<Rightarrow> key_manager" where
  "slots_rotate t k m = m\<lparr>km_state := Some \<lparr>ks_current = k, ks_previous = live_key m, ks_rotated = t\<rparr>\<rparr>"

interpretation manager: key_ring live_key slots_accepted slots_rotate "\<lambda>m. kr_grace (km_config m)"
  by unfold_locales (auto simp: slots_accepted_def slots_rotate_def live_key_def)

lemma rotate_is_ring_rotation:
  assumes "rotate t (Some (k, i)) m r = Some ((e, m'), r')"
  shows "m' = slots_rotate t (Some \<lparr>sk_key = k, sk_id = i, sk_created = t\<rparr>) m"
  using assms by (auto simp: rotate_def generate_key_def save_if_connected_def slots_rotate_def rotate_state_def live_key_def
      split: option.splits if_splits prod.splits)

lemma rotate_succeeds:
  assumes "km_state m = Some st"
  shows "\<exists>e m' r'. rotate t (Some (k, i)) m r = Some ((e, m'), r') \<and> (e = None \<or> e = Some PersistFailed)"
  using assms by (auto simp: rotate_def generate_key_def save_if_connected_def split: prod.splits)

lemma parse_with_ok:
  assumes "jwt_ok lib" and "jl_sign lib (sk_id k) (sk_key k) c = Some tok"
  shows "parse_with lib t tok k' = (if sk_key k' = sk_key k then map_sum id shared_view (in_time t c) else Inl JwtRejected)"
  unfolding parse_with_def jwt_ok_parse [OF assms] by (auto split: sum.splits)

lemma parse_with_same:
  assumes "jwt_ok lib" and "parse_with lib t tok k = Inr c" and "parse_with lib t tok k' = Inr c'"
  shows "c = c'"
proof -
  obtain d where d: "jl_parse lib True t (hmac_key (sk_key k)) tok = Inr d" "c = shared_view d"
    using assms(2) by (auto simp: parse_with_def split: sum.splits)
  obtain d' where d': "jl_parse lib True t (hmac_key (sk_key k')) tok = Inr d'" "c' = shared_view d'"
    using assms(3) by (auto simp: parse_with_def split: sum.splits)
  obtain kid key where s: "jl_sign lib kid key d = Some tok" using parse_accepts [OF assms(1) d(1)] by auto
  have "in_time t d = Inr d'"
    using jwt_ok_parse [OF assms(1) s, of True t "hmac_key (sk_key k')"] d'(1) by (simp split: if_splits)
  then show ?thesis using d(2) d'(2) by (simp add: in_time_Inr)
qed

text \<open>The keys that \<^verbatim>\<open>VerifyToken\<close> tries are those of the ring.\<close>

lemma verify_token_iff:
  assumes "jwt_ok lib"
  shows "verify_token lib t tok m = Inr c \<longleftrightarrow>
    live_key m \<noteq> None \<and> (\<exists>k. Some k \<in> slots_accepted t m \<and> parse_with lib t tok k = Inr c)"
proof (cases "km_state m")
  case None
  then show ?thesis by (simp add: verify_token_def live_key_def)
next
  case (Some st)
  show ?thesis
  proof (cases "ks_current st")
    case None
    then show ?thesis using Some by (simp add: verify_token_def live_key_def)
  next
    case k: (Some k)
    have live: "live_key m = Some k" using Some k by (simp add: live_key_def)
    show ?thesis
    proof (cases "parse_with lib t tok k")
      case (Inl e)
      have acc: "slots_accepted t m = insert (Some k) (if t - ks_rotated st \<le> kr_grace (km_config m) then {ks_previous st} else {})"
        using Some live by (simp add: slots_accepted_def)
      show ?thesis
      proof (cases "ks_previous st")
        case None
        then show ?thesis by (simp add: acc verify_token_def Some k Inl)
      next
        case p: (Some p)
        show ?thesis
        proof (cases "t - ks_rotated st \<le> kr_grace (km_config m)")
          case True
          show ?thesis by (cases "parse_with lib t tok p") (simp_all add: acc verify_token_def Some k Inl p True live conj_disj_distribR ex_disj_distrib)
        next
          case False
          then show ?thesis by (simp add: acc verify_token_def Some k Inl p live)
        qed
      qed
    next
      case (Inr d)
      have v: "verify_token lib t tok m = Inr d" using Some k Inr by (simp add: verify_token_def)
      have mem: "Some k \<in> slots_accepted t m" using live by (simp add: slots_accepted_def)
      show ?thesis
      proof
        assume "verify_token lib t tok m = Inr c"
        then show "live_key m \<noteq> None \<and> (\<exists>k. Some k \<in> slots_accepted t m \<and> parse_with lib t tok k = Inr c)"
          using v live mem Inr by (intro conjI exI [of _ k]) simp_all
      next
        assume "live_key m \<noteq> None \<and> (\<exists>k. Some k \<in> slots_accepted t m \<and> parse_with lib t tok k = Inr c)"
        then obtain q where "parse_with lib t tok q = Inr c" by blast
        then show "verify_token lib t tok m = Inr c" using v parse_with_same [OF assms Inr] by simp
      qed
    qed
  qed
qed

lemma sign_token_okE:
  assumes "sign_token lib c m = Inr tok"
  obtains k where "live_key m = Some k" and "jl_sign lib (sk_id k) (sk_key k) c = Some tok"
  using assms by (auto simp: sign_token_def split: option.splits)

text \<open>C19: Rotating the key fails no request: whether or not the new key could be saved, a token signed before the rotation still verifies
  to its claims until the grace period is over, as long as it has not expired itself, and so does a token signed after it; past the grace period the
  manager answers that the period is over, to the old token alone.\<close>

theorem rotation_seamless:
  assumes "jwt_ok lib" and "sign_token lib c m = Inr tok" and "rotate t0 (Some (key, kid)) m r = Some ((e, m'), r')"
    and "in_time t c = Inr c" and "Some key \<noteq> map_option sk_key (live_key m)"
  shows "(if t \<le> t0 + kr_grace (km_config m) then verify_token lib t tok m' = Inr (shared_view c)
      else verify_token lib t tok m' = Inl GraceExpired) \<and>
    (\<exists>tok'. sign_token lib c m' = Inr tok' \<and> verify_token lib t tok' m' = Inr (shared_view c))"
proof -
  obtain k where k: "live_key m = Some k" "jl_sign lib (sk_id k) (sk_key k) c = Some tok" using sign_token_okE [OF assms(2)] by blast
  let ?n = "\<lparr>sk_key = key, sk_id = kid, sk_created = t0\<rparr>"
  have m': "m' = slots_rotate t0 (Some ?n) m" by (rule rotate_is_ring_rotation [OF assms(3)])
  have live: "live_key m' = Some ?n" unfolding m' by (rule manager.rotate_current)
  have old: "parse_with lib t tok k = Inr (shared_view c)" "parse_with lib t tok ?n = Inl JwtRejected"
    using parse_with_ok [OF assms(1) k(2)] assms(4,5) k(1) by simp_all
  have first: "verify_token lib t tok m' = (if t \<le> t0 + kr_grace (km_config m) then Inr (shared_view c) else Inl GraceExpired)"
  proof (cases "t \<le> t0 + kr_grace (km_config m)")
    case True
    have "Some k \<in> slots_accepted t m'" using manager.seamless [of t t0 m "Some ?n"] True k(1) unfolding m' by simp
    then show ?thesis using verify_token_iff [OF assms(1), of t tok m'] old live True by auto
  next
    case False
    have "is_signed_by_key lib t tok k" using jwt_ok_parse [OF assms(1) k(2)] by (simp add: is_signed_by_key_def)
    then show ?thesis using False old k(1) by (simp add: m' slots_rotate_def verify_token_def)
  qed
  obtain tok' where tok': "jl_sign lib kid key c = Some tok'" using jwt_ok_signs [OF assms(1)] by blast
  then have "sign_token lib c m' = Inr tok'" using live by (simp add: sign_token_def)
  moreover have "verify_token lib t tok' m' = Inr (shared_view c)"
    using verify_token_iff [OF assms(1), of t tok' m'] live parse_with_ok [OF assms(1), of ?n c tok' t ?n] tok' assms(4)
    by (auto simp: slots_accepted_def)
  ultimately show ?thesis using first by auto
qed

text \<open>A manager in memory, and one whose process starts again: what it saved is what it reads.\<close>

definition demo_manager :: key_manager where
  "demo_manager = snd (fst (initialize 0 (Some (''k0'', ''a'')) (new_key_rotation_manager default_key_rotation_config)
     \<lparr>rd_keys = Map.empty, rd_faults = []\<rparr>))"

lemma demo_manager_state: "km_state demo_manager = Some \<lparr>ks_current = Some \<lparr>sk_key = ''k0'', sk_id = ''a'', sk_created = 0\<rparr>, ks_previous = None, ks_rotated = 0\<rparr>"
  "km_config demo_manager = default_key_rotation_config"
  by (simp_all add: demo_manager_def initialize_def fresh_state_def generate_key_def save_if_connected_def new_key_rotation_manager_def
      default_key_rotation_config_def default_rotation_interval_def default_grace_period_def default_key_size_def hour_def minute_def second_def)

theorem rotation_seamless_witness:
  "\<exists>tok m'. sign_token sample_jwt (no_claims\<lparr>cl_user := ''u1''\<rparr>) demo_manager = Inr tok \<and>
     rotate (24 * hour) (Some (''k1'', ''b'')) demo_manager \<lparr>rd_keys = Map.empty, rd_faults = []\<rparr> = Some ((None, m'), \<lparr>rd_keys = Map.empty, rd_faults = []\<rparr>) \<and>
     verify_token sample_jwt (24 * hour + 15 * minute) tok m' = Inr (no_claims\<lparr>cl_user := ''u1''\<rparr>) \<and>
     verify_token sample_jwt (24 * hour + 16 * minute) tok m' = Inl GraceExpired"
proof -
  let ?c = "no_claims\<lparr>cl_user := ''u1''\<rparr>" and ?r = "\<lparr>rd_keys = Map.empty, rd_faults = []\<rparr> :: key_store"
  have live: "live_key demo_manager = Some \<lparr>sk_key = ''k0'', sk_id = ''a'', sk_created = 0\<rparr>"
    by (simp add: live_key_def demo_manager_state)
  obtain tok where tok: "sign_token sample_jwt ?c demo_manager = Inr tok"
    using live by (auto simp: sign_token_def sample_jwt_def)
  obtain m' where m': "rotate (24 * hour) (Some (''k1'', ''b'')) demo_manager ?r = Some ((None, m'), ?r)"
    by (auto simp: rotate_def generate_key_def demo_manager_state save_if_connected_def default_key_rotation_config_def)
  have c: "in_time t ?c = Inr ?c" "shared_view ?c = ?c" for t by (simp_all add: in_time_def no_claims_def shared_view_def)
  have grace: "kr_grace (km_config demo_manager) = 15 * minute"
    by (simp add: demo_manager_state default_key_rotation_config_def default_grace_period_def)
  note use = rotation_seamless [OF sample_jwt_ok tok m' c(1), unfolded grace c(2) live, simplified]
  have "verify_token sample_jwt (24 * hour + 15 * minute) tok m' = Inr ?c" using use [of "24 * hour + 15 * minute"] by simp
  moreover have "verify_token sample_jwt (24 * hour + 16 * minute) tok m' = Inl GraceExpired"
    using use [of "24 * hour + 16 * minute"] by (simp add: minute_def second_def)
  ultimately show ?thesis using tok m' by blast
qed

subsection \<open>Several processes\<close>

text \<open>A process that starts again within three intervals of the last save goes on with the keys that were saved.\<close>

lemma restart_restores:
  assumes "kr_redis (km_config m)" and "persist_state t0 m r = (True, r')" and "rd_faults r' = []"
    and "live_key m \<noteq> None" and "t < t0 + kr_interval (km_config m) * 3" and "km_config m' = km_config m"
  shows "\<exists>r2. initialize t dr m' r' = ((None, m'\<lparr>km_state := km_state m\<rparr>), r2)"
  using assms by (auto simp: persist_state_def redis_set_def initialize_def load_state_def redis_get_def live_def alive_def live_key_def
      split: if_splits option.splits)

text \<open>Processes that share Redis do not share a rotation: after one of them has rotated and saved its key, another that
  goes on running with the keys it started with refuses every token the first one signs, unexpired and genuine as it is.\<close>

theorem pods_diverge:
  assumes "jwt_ok lib" and "live_key m = Some k" and "rotate t0 (Some (key, kid)) m r = Some ((None, m'), r')" and "key \<noteq> sk_key k"
    and "km_state m = Some st" and "ks_previous st \<noteq> None \<longrightarrow> key \<noteq> sk_key (the (ks_previous st))"
    and "sign_token lib c m' = Inr tok"
  shows "\<exists>e. verify_token lib t tok m = Inl e"
proof (rule ccontr)
  assume "\<nexists>e. verify_token lib t tok m = Inl e"
  then obtain d where d: "verify_token lib t tok m = Inr d" by (cases "verify_token lib t tok m") auto
  let ?n = "\<lparr>sk_key = key, sk_id = kid, sk_created = t0\<rparr>"
  have live: "live_key m' = Some ?n" unfolding rotate_is_ring_rotation [OF assms(3)] by (rule manager.rotate_current)
  have s: "jl_sign lib (sk_id ?n) (sk_key ?n) c = Some tok" using sign_token_okE [OF assms(7)] live by auto
  obtain q where q: "Some q \<in> slots_accepted t m" "parse_with lib t tok q = Inr d" using verify_token_iff [OF assms(1)] d by blast
  have "sk_key q \<noteq> key" using q(1) assms(2,4,5,6) by (cases "ks_previous st") (auto simp: slots_accepted_def split: if_splits)
  then show False using q(2) parse_with_ok [OF assms(1) s, of t q] by simp
qed

theorem pods_diverge_witness:
  "\<exists>tok m' e. rotate (24 * hour) (Some (''k1'', ''b'')) demo_manager \<lparr>rd_keys = Map.empty, rd_faults = []\<rparr> =
       Some ((None, m'), \<lparr>rd_keys = Map.empty, rd_faults = []\<rparr>) \<and>
     sign_token sample_jwt no_claims m' = Inr tok \<and> verify_token sample_jwt (24 * hour) tok demo_manager = Inl e"
proof -
  let ?r = "\<lparr>rd_keys = Map.empty, rd_faults = []\<rparr> :: key_store"
  obtain m' where m': "rotate (24 * hour) (Some (''k1'', ''b'')) demo_manager ?r = Some ((None, m'), ?r)"
    by (auto simp: rotate_def generate_key_def demo_manager_state save_if_connected_def default_key_rotation_config_def)
  have live: "live_key demo_manager = Some \<lparr>sk_key = ''k0'', sk_id = ''a'', sk_created = 0\<rparr>"
    by (simp add: live_key_def demo_manager_state)
  have "live_key m' \<noteq> None" unfolding rotate_is_ring_rotation [OF m'] by (simp add: manager.rotate_current)
  then obtain tok where tok: "sign_token sample_jwt no_claims m' = Inr tok"
    by (auto simp: sign_token_def sample_jwt_def)
  show ?thesis using pods_diverge [OF sample_jwt_ok live m' _ demo_manager_state(1) _ tok, of "24 * hour"] m' tok by auto
qed

text \<open>Nor does every process reach its grace period: two rotations in a row end the first one's.\<close>

lemma second_rotation_ends_grace:
  assumes "k1 \<noteq> live_key m" and "k2 \<noteq> live_key m"
  shows "live_key m \<notin> slots_accepted t (slots_rotate t2 k2 (slots_rotate t1 k1 m))"
  by (rule manager.twice_retired [OF assms])

end
