(* ===== verification/ServiceAuth.thy ===== *)
theory ServiceAuth
  imports KeyRotation
begin

text \<open>
  Authentication between services (\<^verbatim>\<open>pkg/serviceauth\<close>): the key manager with its overlap period, the issuer and the validator of
  service tokens (\<^verbatim>\<open>serviceauth.go\<close>), the rotation schedule (\<^verbatim>\<open>rotation.go\<close>), and the two ends of a request: the transport that attaches a
  token (\<^verbatim>\<open>transport.go\<close>) and the middleware that demands one (\<^verbatim>\<open>middleware.go\<close>). Logging is left out.
\<close>

subsection \<open>Keys\<close>

definition default_token_ttl :: duration where "default_token_ttl = 24 * hour"
definition sa_rotation_interval :: duration where "sa_rotation_interval = 7 * 24 * hour"
definition default_overlap_period :: duration where "default_overlap_period = 24 * hour"

datatype sa_err = SaExpired | SaInvalid | SaMissingService | SaUnavailable | SaUnauthorized | SaSignFailed

record sa_config =
  sc_service :: string
  sc_keys :: "string list"
  sc_ttl :: duration
  sc_interval :: duration
  sc_overlap :: duration
  sc_allowed :: "string list"

record key_info =
  ki_key :: string
  ki_activated :: time

record sa_keys =
  sm_current :: key_info
  sm_previous :: "key_info option"
  sm_overlap :: duration

text \<open>The configuration lists the current key and perhaps the previous one. \<open>None\<close>: the panic on an empty list.\<close>

definition new_key_manager :: "time \<Rightarrow> sa_config \<Rightarrow> sa_keys option" where
  "new_key_manager t cfg = (case sc_keys cfg of
     [] \<Rightarrow> None
   | k # ks \<Rightarrow> Some \<lparr>sm_current = \<lparr>ki_key = k, ki_activated = t\<rparr>,
       sm_previous = (case ks of [] \<Rightarrow> None | p # _ \<Rightarrow> Some \<lparr>ki_key = p, ki_activated = t - sc_interval cfg\<rparr>),
       sm_overlap = sc_overlap cfg\<rparr>)"

definition rotate_key :: "time \<Rightarrow> string \<Rightarrow> sa_keys \<Rightarrow> sa_keys" where
  "rotate_key t key km = km\<lparr>sm_previous := Some (sm_current km), sm_current := \<lparr>ki_key = key, ki_activated = t\<rparr>\<rparr>"

definition current_key :: "sa_keys \<Rightarrow> string" where
  "current_key km = ki_key (sm_current km)"

definition validation_keys :: "time \<Rightarrow> sa_keys \<Rightarrow> string list" where
  "validation_keys t km = current_key km # (case sm_previous km of None \<Rightarrow> []
     | Some p \<Rightarrow> if t - ki_activated (sm_current km) \<le> sm_overlap km then [ki_key p] else [])"

subsection \<open>Tokens\<close>

record token_issuer =
  ti_service :: string
  ti_ttl :: duration

definition new_token_issuer :: "sa_config \<Rightarrow> token_issuer" where
  "new_token_issuer cfg = \<lparr>ti_service = sc_service cfg,
     ti_ttl = (if sc_ttl cfg = 0 \<or> default_token_ttl < sc_ttl cfg then default_token_ttl else sc_ttl cfg)\<rparr>"

definition issue_token :: "jwt_lib \<Rightarrow> time \<Rightarrow> uuid \<Rightarrow> token_issuer \<Rightarrow> sa_keys \<Rightarrow> sa_err + string" where
  "issue_token lib t jti ti km =
     (case jl_sign lib [] (current_key km) (no_claims\<lparr>cl_service := ti_service ti, cl_jti := jti, cl_issuer := ti_service ti,
         cl_issued := Some (jl_date lib t), cl_expires := Some (jl_date lib (t + ti_ttl ti)), cl_start := Some (jl_date lib t)\<rparr>) of
        None \<Rightarrow> Inl SaSignFailed | Some tok \<Rightarrow> Inr tok)"

record token_validator =
  tv_allowed :: "string list"
  tv_available :: bool

definition new_token_validator :: "sa_config \<Rightarrow> token_validator" where
  "new_token_validator cfg = \<lparr>tv_allowed = sc_allowed cfg, tv_available = True\<rparr>"

definition set_available :: "bool \<Rightarrow> token_validator \<Rightarrow> token_validator" where
  "set_available b tv = tv\<lparr>tv_available := b\<rparr>"

text \<open>The claims of a service token keep the service id and the registered claims.\<close>

definition service_view :: "claims \<Rightarrow> claims" where
  "service_view c = c\<lparr>cl_user := [], cl_name := [], cl_email := [], cl_role := []\<rparr>"

definition sa_parse :: "jwt_lib \<Rightarrow> time \<Rightarrow> string \<Rightarrow> string \<Rightarrow> sa_err + claims" where
  "sa_parse lib t tok key = (case jl_parse lib True t (hmac_key key) tok of
     Inl JwtExpired \<Rightarrow> Inl SaExpired
   | Inl JwtRejected \<Rightarrow> Inl SaInvalid
   | Inr c \<Rightarrow> if cl_service c = [] then Inl SaMissingService else Inr (service_view c))"

text \<open>The keys in turn; the error is that of the last one.\<close>

fun try_keys :: "jwt_lib \<Rightarrow> time \<Rightarrow> string list \<Rightarrow> string \<Rightarrow> sa_err \<Rightarrow> string list \<Rightarrow> sa_err + claims" where
  "try_keys lib t allowed tok err [] = Inl err"
| "try_keys lib t allowed tok err (k # ks) = (case sa_parse lib t tok k of
     Inr c \<Rightarrow> if allowed \<noteq> [] \<and> cl_service c \<notin> set allowed then Inl SaUnauthorized else Inr c
   | Inl e \<Rightarrow> try_keys lib t allowed tok e ks)"

definition sa_validate :: "jwt_lib \<Rightarrow> time \<Rightarrow> string \<Rightarrow> token_validator \<Rightarrow> sa_keys \<Rightarrow> sa_err + claims" where
  "sa_validate lib t tok tv km =
     (if \<not> tv_available tv then Inl SaUnavailable
      else try_keys lib t (tv_allowed tv) tok SaInvalid (validation_keys t km))"

subsection \<open>The rotation schedule\<close>

record rotation_scheduler =
  rs_interval :: duration
  rs_last :: time
  rs_next :: time
  rs_keys :: sa_keys

definition new_rotation_scheduler :: "time \<Rightarrow> duration \<Rightarrow> sa_keys \<Rightarrow> rotation_scheduler" where
  "new_rotation_scheduler t interval km = (let i = (if interval = 0 then sa_rotation_interval else interval) in
     \<lparr>rs_interval = i, rs_last = t, rs_next = t + i, rs_keys = km\<rparr>)"

text \<open>The result of the key generator; \<open>None\<close> is its error, and whether the rotation succeeded is returned.\<close>

definition force_rotate :: "time \<Rightarrow> string option \<Rightarrow> rotation_scheduler \<Rightarrow> bool \<times> rotation_scheduler" where
  "force_rotate t key rs = (case key of
     None \<Rightarrow> (False, rs)
   | Some k \<Rightarrow> (True, rs\<lparr>rs_keys := rotate_key t k (rs_keys rs), rs_last := t, rs_next := t + rs_interval rs\<rparr>))"

definition rotation_tick :: "time \<Rightarrow> string option \<Rightarrow> rotation_scheduler \<Rightarrow> rotation_scheduler" where
  "rotation_tick t key rs = (if rs_next rs \<le> t then snd (force_rotate t key rs) else rs)"

subsection \<open>Requests\<close>

text \<open>A request: its path and its headers. Names are in the canonical form, and the first value of a name counts.\<close>

record request =
  rq_path :: string
  rq_headers :: "(string \<times> string) list"

definition get_header :: "string \<Rightarrow> request \<Rightarrow> string" where
  "get_header k rq = (case map_of (rq_headers rq) k of None \<Rightarrow> [] | Some v \<Rightarrow> v)"

definition set_header :: "string \<Rightarrow> string \<Rightarrow> request \<Rightarrow> request" where
  "set_header k v rq = rq\<lparr>rq_headers := (k, v) # filter (\<lambda>h. fst h \<noteq> k) (rq_headers rq)\<rparr>"

definition service_header :: "string \<Rightarrow> string" where
  "service_header configured = (if configured = [] then ''X-Service-Token'' else configured)"

text \<open>A token that cannot be issued is not sent, but the request is.\<close>

definition round_trip :: "jwt_lib \<Rightarrow> time \<Rightarrow> uuid \<Rightarrow> string \<Rightarrow> token_issuer \<Rightarrow> sa_keys \<Rightarrow> request \<Rightarrow> request" where
  "round_trip lib t jti header ti km rq = (case issue_token lib t jti ti km of
     Inl e \<Rightarrow> rq | Inr tok \<Rightarrow> set_header (service_header header) tok rq)"

text \<open>What the middleware does with a request: let it through, with the identity of the service unless the path is skipped, or refuse
  it with status 403 and this message.\<close>

datatype sa_outcome = Skipped | Through string string | Refused string

definition bearer_token :: "string \<Rightarrow> string" where
  "bearer_token h = (if take 7 h = ''Bearer '' then drop 7 h else [])"

definition service_token_of :: "string \<Rightarrow> request \<Rightarrow> string" where
  "service_token_of header rq = (let tok = get_header (service_header header) rq in
     if tok = [] then bearer_token (get_header ''Authorization'' rq) else tok)"

definition middleware :: "jwt_lib \<Rightarrow> time \<Rightarrow> string \<Rightarrow> string list \<Rightarrow> token_validator \<Rightarrow> sa_keys \<Rightarrow> request \<Rightarrow> sa_outcome" where
  "middleware lib t header skip tv km rq =
     (if rq_path rq \<in> set skip then Skipped
      else let tok = service_token_of header rq in
        if tok = [] then Refused ''missing service authentication token''
        else (case sa_validate lib t tok tv km of
            Inr c \<Rightarrow> Through (cl_service c) (cl_jti c)
          | Inl SaUnavailable \<Rightarrow> Refused ''authentication subsystem unavailable''
          | Inl _ \<Rightarrow> Refused ''service authentication failed''))"

end
