(* ===== verification/ServiceAuthSpec.thy ===== *)
theory ServiceAuthSpec
  imports ServiceAuth JwtSpec
begin

text \<open>
  Service authentication end to end: the keys are a key ring with the overlap as its grace period, the middleware lets through
  exactly the tokens of allowed services under an accepted key, and keys are rotated on schedule.
\<close>

interpretation services: key_ring current_key "\<lambda>t km. set (validation_keys t km)" rotate_key sm_overlap
  by unfold_locales (auto simp: current_key_def validation_keys_def rotate_key_def split: option.splits)

lemma bearer_token_Cons [simp]: "bearer_token (''Bearer '' @ tok) = tok"
  by (simp add: bearer_token_def)

lemma get_set_header [simp]: "get_header k (set_header k v rq) = v"
  by (simp add: get_header_def set_header_def)

lemma set_header_path [simp]: "rq_path (set_header k v rq) = rq_path rq"
  by (simp add: set_header_def)

lemma sa_parse_signed:
  assumes "jwt_ok lib" and "jl_sign lib kid key c = Some tok"
  shows "sa_parse lib t tok k = (if k \<noteq> key then Inl SaInvalid else case in_time t c of
     Inl JwtExpired \<Rightarrow> Inl SaExpired | Inl JwtRejected \<Rightarrow> Inl SaInvalid
   | Inr c \<Rightarrow> if cl_service c = [] then Inl SaMissingService else Inr (service_view c))"
  by (simp add: sa_parse_def jwt_ok_parse [OF assms])

lemma try_keys_signed:
  assumes "jwt_ok lib" and "jl_sign lib kid key c = Some tok" and "in_time t c = Inr c" and "cl_service c \<noteq> []"
    and "allowed = [] \<or> cl_service c \<in> set allowed" and "key \<in> set ks"
  shows "try_keys lib t allowed tok e ks = Inr (service_view c)"
  using assms(6)
proof (induction ks arbitrary: e)
  case (Cons k ks)
  then show ?case using assms(3-5) by (auto simp: sa_parse_signed [OF assms(1,2)] service_view_def)
qed simp

lemma try_keys_sound:
  assumes "jwt_ok lib" and "try_keys lib t allowed tok e ks = Inr c"
  shows "\<exists>key \<in> set ks. \<exists>kid d. jl_sign lib kid key d = Some tok \<and> c = service_view d \<and> in_time t d = Inr d \<and> cl_service d \<noteq> [] \<and>
    (allowed = [] \<or> cl_service d \<in> set allowed)"
  using assms
proof (induction lib t allowed tok e ks rule: try_keys.induct)
  case (2 lib t allowed tok e k ks)
  show ?case
  proof (cases "sa_parse lib t tok k")
    case (Inl e')
    then show ?thesis using 2 by auto
  next
    case (Inr c')
    have c': "c' = c" "allowed = [] \<or> cl_service c \<in> set allowed" using 2(3) Inr by (auto split: if_splits)
    obtain d where d: "jl_parse lib True t (hmac_key k) tok = Inr d" "c = service_view d" "cl_service d \<noteq> []"
      using Inr c' by (auto simp: sa_parse_def split: sum.splits jwt_err.splits if_splits)
    have "\<exists>kid. jl_sign lib kid k d = Some tok" "in_time t d = Inr d"
      using parse_accepts [OF _ d(1)] 2 by auto
    then show ?thesis using d(2,3) c'(2) by (auto simp: service_view_def)
  qed
qed simp

text \<open>The middleware lets a request through only if the subsystem is available and the request carries a token that was
  signed with the current key, or the previous one within the overlap, is within its dates, and names the allowed service the handler is told.\<close>

theorem service_requests_authentic:
  assumes "jwt_ok lib" and "middleware lib t header skip tv km rq = Through svc jti"
  shows "tv_available tv \<and> svc \<noteq> [] \<and> (tv_allowed tv = [] \<or> svc \<in> set (tv_allowed tv)) \<and>
    (\<exists>key \<in> set (validation_keys t km). \<exists>kid c. jl_sign lib kid key c = Some (service_token_of header rq) \<and>
       cl_service c = svc \<and> cl_jti c = jti \<and> in_time t c = Inr c)"
proof -
  let ?tok = "service_token_of header rq"
  obtain c where c: "sa_validate lib t ?tok tv km = Inr c" "svc = cl_service c" "jti = cl_jti c"
    using assms(2) by (auto simp: middleware_def Let_def split: if_splits sum.splits sa_err.splits)
  have av: "tv_available tv" "try_keys lib t (tv_allowed tv) ?tok SaInvalid (validation_keys t km) = Inr c"
    using c(1) by (auto simp: sa_validate_def split: if_splits)
  show ?thesis using try_keys_sound [OF assms(1) av(2)] av(1) c(2,3) by (fastforce simp: service_view_def)
qed

text \<open>A request sent through the transport of a service passes the middleware of another under the identity of the sender, for the life of its token less a
  second, when the receiver accepts the key: so also if the receiver's key was rotated in between, until the overlap ends.\<close>

theorem service_call_accepted:
  assumes "jwt_ok lib" and "t0 \<le> t" and "t + second \<le> t0 + ti_ttl ti" and "ti_service ti \<noteq> []"
    and "tv_available tv" and "tv_allowed tv = [] \<or> ti_service ti \<in> set (tv_allowed tv)" and "rq_path rq \<notin> set skip"
    and "issue_token lib t0 jti ti km \<noteq> Inr []"
    and "km' = km \<or> (\<exists>t1 key. km' = rotate_key t1 key km \<and> t \<le> t1 + sm_overlap km)"
  shows "middleware lib t header skip tv km' (round_trip lib t0 jti header ti km rq) = Through (ti_service ti) jti"
proof -
  let ?c = "no_claims\<lparr>cl_service := ti_service ti, cl_jti := jti, cl_issuer := ti_service ti,
     cl_issued := Some (jl_date lib t0), cl_expires := Some (jl_date lib (t0 + ti_ttl ti)), cl_start := Some (jl_date lib t0)\<rparr>"
  obtain tok where tok: "jl_sign lib [] (current_key km) ?c = Some tok" using jwt_ok_signs [OF assms(1)] by blast
  then have issued: "issue_token lib t0 jti ti km = Inr tok" by (simp add: issue_token_def)
  have live: "in_time t ?c = Inr ?c"
    using expiry_rounded(2) [OF assms(1,3)] jwt_ok_date(1) [OF assms(1), of t0] assms(2) by (simp add: in_time_Inr no_claims_def)
  have "current_key km \<in> set (validation_keys t km')"
    using assms(9) services.current_accepted services.seamless by auto
  then have "try_keys lib t (tv_allowed tv) tok SaInvalid (validation_keys t km') = Inr (service_view ?c)"
    using try_keys_signed [OF assms(1) tok live] assms(4,6) by simp
  then show ?thesis
    using assms(5,7,8) issued by (simp add: middleware_def round_trip_def service_token_of_def sa_validate_def service_view_def Let_def)
qed

subsection \<open>The schedule\<close>

fun run_schedule :: "(time \<times> string option) list \<Rightarrow> rotation_scheduler \<Rightarrow> rotation_scheduler" where
  "run_schedule [] rs = rs"
| "run_schedule ((t, key) # ticks) rs = run_schedule ticks (rotation_tick t key rs)"

fun punctual :: "duration \<Rightarrow> time \<Rightarrow> (time \<times> string option) list \<Rightarrow> bool" where
  "punctual g t0 [] = True"
| "punctual g t0 ((t, key) # ticks) = (t0 \<le> t \<and> t \<le> t0 + g \<and> key \<noteq> None \<and> punctual g t ticks)"

fun last_tick :: "time \<Rightarrow> (time \<times> string option) list \<Rightarrow> time" where
  "last_tick t0 [] = t0"
| "last_tick t0 ((t, key) # ticks) = last_tick t ticks"

definition on_schedule :: "time \<Rightarrow> rotation_scheduler \<Rightarrow> bool" where
  "on_schedule t rs \<longleftrightarrow> 0 < rs_interval rs \<and> t < rs_next rs \<and> rs_next rs = ki_activated (sm_current (rs_keys rs)) + rs_interval rs"

lemma tick_on_schedule:
  assumes "0 < rs_interval rs" and "rs_next rs = ki_activated (sm_current (rs_keys rs)) + rs_interval rs"
  shows "on_schedule t (rotation_tick t (Some k) rs)" and "rs_interval (rotation_tick t key rs) = rs_interval rs"
  using assms by (auto simp: on_schedule_def rotation_tick_def force_rotate_def rotate_key_def split: option.splits)

lemma run_on_schedule:
  assumes "on_schedule t0 rs" and "punctual g t0 ticks"
  shows "on_schedule (last_tick t0 ticks) (run_schedule ticks rs) \<and> rs_interval (run_schedule ticks rs) = rs_interval rs"
  using assms
proof (induction g t0 ticks arbitrary: rs rule: punctual.induct)
  case (2 g t0 t key ticks)
  obtain k where k: "key = Some k" using 2(3) by auto
  have "on_schedule t (rotation_tick t key rs)" "rs_interval (rotation_tick t key rs) = rs_interval rs"
    using tick_on_schedule(1) [of rs t k] tick_on_schedule(2) [of rs t key] 2(2) k unfolding on_schedule_def by blast+
  then show ?case using 2(1) [of "rotation_tick t key rs"] 2(3) by simp
qed simp

text \<open>While the check runs at least every \<open>g\<close> and the generator works, the current key is never older than the
  interval plus \<open>g\<close>.\<close>

theorem keys_rotated_in_time:
  assumes "ki_activated (sm_current km) = t0" and "0 < interval" and "punctual g t0 ticks"
    and "t \<le> last_tick t0 ticks + g"
  shows "t < ki_activated (sm_current (rs_keys (run_schedule ticks (new_rotation_scheduler t0 interval km)))) + interval + g"
proof -
  let ?rs = "new_rotation_scheduler t0 interval km"
  have "on_schedule t0 ?rs" "rs_interval ?rs = interval" using assms(1,2) by (simp_all add: on_schedule_def new_rotation_scheduler_def Let_def)
  then show ?thesis using run_on_schedule [of t0 ?rs g ticks] assms(3,4) by (auto simp: on_schedule_def)
qed

theorem keys_rotated_in_time_witness:
  "\<exists>km. new_key_manager 0 \<lparr>sc_service = ''bid'', sc_keys = [''k0''], sc_ttl = 0, sc_interval = hour, sc_overlap = hour, sc_allowed = []\<rparr> = Some km \<and>
     2 * hour < ki_activated (sm_current (rs_keys (run_schedule [(hour, Some ''k1''), (2 * hour, Some ''k2'')] (new_rotation_scheduler 0 hour km)))) + hour + hour"
proof -
  let ?km = "\<lparr>sm_current = \<lparr>ki_key = ''k0'', ki_activated = 0\<rparr>, sm_previous = None, sm_overlap = hour\<rparr>"
  have "new_key_manager 0 \<lparr>sc_service = ''bid'', sc_keys = [''k0''], sc_ttl = 0, sc_interval = hour, sc_overlap = hour, sc_allowed = []\<rparr> = Some ?km"
    by (simp add: new_key_manager_def)
  moreover have "2 * hour < ki_activated (sm_current (rs_keys (run_schedule [(hour, Some ''k1''), (2 * hour, Some ''k2'')] (new_rotation_scheduler 0 hour ?km)))) + hour + hour"
    using keys_rotated_in_time [of ?km 0 hour hour "[(hour, Some ''k1''), (2 * hour, Some ''k2'')]" "2 * hour"]
    by (simp add: hour_def minute_def second_def)
  ultimately show ?thesis by blast
qed

subsection \<open>Instances\<close>

definition demo_keys :: sa_keys where
  "demo_keys = \<lparr>sm_current = \<lparr>ki_key = ''k0'', ki_activated = 0\<rparr>, sm_previous = None, sm_overlap = 24 * hour\<rparr>"

definition demo_validator :: token_validator where
  "demo_validator = \<lparr>tv_allowed = [''api-gateway''], tv_available = True\<rparr>"

lemma demo_call: "\<exists>tok. issue_token sample_jwt 0 ''j1'' \<lparr>ti_service = ''api-gateway'', ti_ttl = hour\<rparr> demo_keys = Inr tok \<and> tok \<noteq> []"
  by (simp add: issue_token_def sample_jwt_def put_fields_def)

theorem service_call_accepted_witness:
  "middleware sample_jwt (2 * minute) [] [''/health''] demo_validator (rotate_key minute ''k1'' demo_keys)
     (round_trip sample_jwt 0 ''j1'' [] \<lparr>ti_service = ''api-gateway'', ti_ttl = hour\<rparr> demo_keys \<lparr>rq_path = ''/bids'', rq_headers = []\<rparr>) =
   Through ''api-gateway'' ''j1''"
proof -
  have "issue_token sample_jwt 0 ''j1'' \<lparr>ti_service = ''api-gateway'', ti_ttl = hour\<rparr> demo_keys \<noteq> Inr []" using demo_call by auto
  moreover have "\<exists>t1 key. rotate_key minute ''k1'' demo_keys = rotate_key t1 key demo_keys \<and> 2 * minute \<le> t1 + sm_overlap demo_keys"
    by (intro exI conjI, rule refl) (simp add: demo_keys_def hour_def minute_def second_def)
  ultimately show ?thesis
    using service_call_accepted [OF sample_jwt_ok, where ?t0.0 = 0 and t = "2 * minute" and ti = "\<lparr>ti_service = ''api-gateway'', ti_ttl = hour\<rparr>"
      and tv = demo_validator and rq = "\<lparr>rq_path = ''/bids'', rq_headers = []\<rparr>" and skip = "[''/health'']" and jti = "''j1''" and km = demo_keys
      and km' = "rotate_key minute ''k1'' demo_keys" and header = "[]"]
    by (simp add: demo_validator_def hour_def minute_def second_def)
qed

theorem service_requests_authentic_witness:
  "\<exists>key \<in> set (validation_keys minute demo_keys). \<exists>kid c rq. jl_sign sample_jwt kid key c = Some (service_token_of [] rq) \<and> cl_service c = ''api-gateway'' \<and>
     middleware sample_jwt minute [] [] demo_validator demo_keys rq = Through ''api-gateway'' ''j1''"
proof -
  let ?rq = "round_trip sample_jwt 0 ''j1'' [] \<lparr>ti_service = ''api-gateway'', ti_ttl = hour\<rparr> demo_keys \<lparr>rq_path = ''/bids'', rq_headers = []\<rparr>"
  let ?c = "no_claims\<lparr>cl_service := ''api-gateway'', cl_jti := ''j1'', cl_issuer := ''api-gateway'',
     cl_issued := Some 0, cl_expires := Some hour, cl_start := Some 0\<rparr>"
  obtain tok where tok: "issue_token sample_jwt 0 ''j1'' \<lparr>ti_service = ''api-gateway'', ti_ttl = hour\<rparr> demo_keys = Inr tok" "tok \<noteq> []"
    using demo_call by auto
  have sig: "jl_sign sample_jwt [] ''k0'' ?c = Some tok"
    using tok(1) by (auto simp: issue_token_def sample_jwt_def demo_keys_def current_key_def hour_def minute_def second_def)
  have "in_time minute ?c = Inr ?c" by (simp add: in_time_def hour_def minute_def second_def)
  then have "middleware sample_jwt minute [] [] demo_validator demo_keys ?rq = Through ''api-gateway'' ''j1''"
    using try_keys_signed [OF sample_jwt_ok sig, of minute "[''api-gateway'']" "[''k0'']" SaInvalid] tok
    by (simp add: middleware_def round_trip_def service_token_of_def sa_validate_def demo_validator_def validation_keys_def demo_keys_def current_key_def
        service_view_def Let_def no_claims_def)
  then show ?thesis using service_requests_authentic [OF sample_jwt_ok] by blast
qed

end
