(* ===== verification/SlidingWindow.thy ===== *)
theory SlidingWindow
  imports RateLimit Redis GoFmt
begin

text \<open>
  The limiter on Redis (\<^verbatim>\<open>pkg/ratelimit/sliding_window.go\<close>), shared by the replicas of the gateway, with the in-memory limiter of
  \<^verbatim>\<open>RateLimit\<close> as its fallback: every operation that Redis does not answer is done by the fallback. A pipeline is one command: go-redis
  sends it in one write, and a failed connection fails all of it. Times are those of \<^verbatim>\<open>RateLimit\<close>; an operation that reads the clock
  more than once has one argument for each reading.
\<close>

datatype rl_value = Counter int | BlockInfo time int time

type_synonym rl_redis = "rl_value redis"

record sliding =
  sw_redis :: rl_redis
  sw_fallback :: limiter

text \<open>Seconds since 1970.\<close>

definition unix_seconds :: "time \<Rightarrow> int" where
  "unix_seconds t = t div second - 62135596800"

definition window_key :: "string \<Rightarrow> time \<Rightarrow> string" where
  "window_key key w = ''rl:'' @ key @ '':'' @ itoa (unix_seconds w)"

text \<open>The integer of a reply; a reply that is none reads as 0.\<close>

definition reply_int :: "rl_value option \<Rightarrow> int" where
  "reply_int v = (case v of Some (Counter n) \<Rightarrow> n | _ \<Rightarrow> 0)"

text \<open>\<^verbatim>\<open>INCR\<close> keeps the expiry; \<^verbatim>\<open>EXPIRE\<close> has whole seconds, at least one.\<close>

definition incr_key :: "string \<Rightarrow> time \<Rightarrow> rl_redis \<Rightarrow> (int \<times> rl_redis) option" where
  "incr_key k t r = (case live k t r of
     None \<Rightarrow> Some (1, r\<lparr>rd_keys := (rd_keys r)(k \<mapsto> (Counter 1, None))\<rparr>)
   | Some (Counter n, e) \<Rightarrow> Some (n + 1, r\<lparr>rd_keys := (rd_keys r)(k \<mapsto> (Counter (n + 1), e))\<rparr>)
   | Some (BlockInfo _ _ _, _) \<Rightarrow> None)"

definition expire_seconds :: "duration \<Rightarrow> duration" where
  "expire_seconds d = (if 0 < d \<and> d < second then second else d div second * second)"

definition redis_incr :: "string \<Rightarrow> time \<Rightarrow> rl_redis \<Rightarrow> int option \<times> rl_redis" where
  "redis_incr k t r = (if redis_fails r then (None, after_command r)
     else (case incr_key k t (after_command r) of None \<Rightarrow> (None, after_command r) | Some (n, r') \<Rightarrow> (Some n, r')))"

definition redis_expire :: "string \<Rightarrow> duration \<Rightarrow> time \<Rightarrow> rl_redis \<Rightarrow> rl_redis" where
  "redis_expire k ttl t r = (if redis_fails r then after_command r else redis_pexpire k (expire_seconds ttl) t (after_command r))"

subsection \<open>The window\<close>

text \<open>The first pipeline reads both counters; the second counts the request. \<open>None\<close> is an error of Redis.\<close>

definition read_counts :: "rate_config \<Rightarrow> time \<Rightarrow> string \<Rightarrow> rl_redis \<Rightarrow> (int \<times> int) option \<times> rl_redis" where
  "read_counts cfg t key r = (let cur = truncate_time t (rc_window cfg) in
     if redis_fails r then (None, after_command r)
     else (Some (reply_int (map_option fst (live (window_key key cur) t r)),
       reply_int (map_option fst (live (window_key key (cur - rc_window cfg)) t r))), after_command r))"

definition count_request :: "rate_config \<Rightarrow> time \<Rightarrow> string \<Rightarrow> rl_redis \<Rightarrow> bool \<times> rl_redis" where
  "count_request cfg t key r = (let k = window_key key (truncate_time t (rc_window cfg)) in
     if redis_fails r then (False, after_command r)
     else (case incr_key k t (after_command r) of
         None \<Rightarrow> (False, redis_pexpire k (expire_seconds (2 * rc_window cfg)) t (after_command r))
       | Some (_, r') \<Rightarrow> (True, redis_pexpire k (expire_seconds (2 * rc_window cfg)) t r')))"

definition sliding_window_check :: "rate_config \<Rightarrow> time \<Rightarrow> string \<Rightarrow> int \<Rightarrow> rl_redis \<Rightarrow> (bool \<times> int \<times> duration) option \<times> rl_redis" where
  "sliding_window_check cfg t key limit r =
     (case read_counts cfg t key r of
        (None, r1) \<Rightarrow> (None, r1)
      | (Some (c, p), r1) \<Rightarrow>
          let cur = truncate_time t (rc_window cfg); effective = weighted_count c p (t - cur) (rc_window cfg) in
          if limit \<le> effective then (Some (False, 0, cur + rc_window cfg - t), r1)
          else (case count_request cfg t key r1 of
              (False, r2) \<Rightarrow> (None, r2)
            | (True, r2) \<Rightarrow> (Some (True, max 0 (limit - effective - 1), 0), r2)))"

definition sw_allow :: "rate_config \<Rightarrow> time \<Rightarrow> time \<Rightarrow> string \<Rightarrow> int \<Rightarrow> sliding \<Rightarrow> (bool \<times> int \<times> duration) \<times> sliding" where
  "sw_allow cfg t tf key limit s =
     (case sliding_window_check cfg t key limit (sw_redis s) of
        (Some res, r) \<Rightarrow> (res, s\<lparr>sw_redis := r\<rparr>)
      | (None, r) \<Rightarrow> (case allow cfg tf key limit (sw_fallback s) of (res, m) \<Rightarrow> (res, \<lparr>sw_redis = r, sw_fallback = m\<rparr>)))"

subsection \<open>Blocked addresses\<close>

definition block_key :: "string \<Rightarrow> string" where
  "block_key ip = ''rl:block:'' @ ip"

definition is_blocked_redis :: "time \<Rightarrow> string \<Rightarrow> rl_redis \<Rightarrow> (bool \<times> duration) option \<times> rl_redis" where
  "is_blocked_redis t ip r = (case redis_get (block_key ip) t r of
     (None, r1) \<Rightarrow> (None, r1)
   | (Some (Some (BlockInfo _ _ e)), r1) \<Rightarrow>
       if e < t then (Some (False, 0), snd (redis_del (block_key ip) r1)) else (Some (True, e - t), r1)
   | (Some _, r1) \<Rightarrow> (Some (False, 0), r1))"

definition sw_is_blocked :: "time \<Rightarrow> time \<Rightarrow> string \<Rightarrow> sliding \<Rightarrow> (bool \<times> duration) \<times> sliding" where
  "sw_is_blocked t tf ip s = (case is_blocked_redis t ip (sw_redis s) of
     (Some b, r) \<Rightarrow> (b, s\<lparr>sw_redis := r\<rparr>)
   | (None, r) \<Rightarrow> (is_blocked tf ip (sw_fallback s), s\<lparr>sw_redis := r\<rparr>))"

definition violation_key :: "rate_config \<Rightarrow> time \<Rightarrow> string \<Rightarrow> string" where
  "violation_key cfg t ip = ''rl:violations:'' @ ip @ '':'' @ itoa (unix_seconds (truncate_time t (rc_violation_window cfg)))"

definition block_ip :: "rate_config \<Rightarrow> time \<Rightarrow> string \<Rightarrow> int \<Rightarrow> rl_redis \<Rightarrow> bool \<times> rl_redis" where
  "block_ip cfg t ip n r = redis_set (block_key ip) (BlockInfo t n (t + rc_block_duration cfg)) (rc_block_duration cfg) t r"

definition record_violation_redis :: "rate_config \<Rightarrow> time \<Rightarrow> time \<Rightarrow> string \<Rightarrow> rl_redis \<Rightarrow> bool \<times> rl_redis" where
  "record_violation_redis cfg t tb ip r = (case redis_incr (violation_key cfg t ip) t r of
     (None, r1) \<Rightarrow> (False, r1)
   | (Some n, r1) \<Rightarrow>
       let r2 = (if n = 1 then redis_expire (violation_key cfg t ip) (rc_violation_window cfg) t r1 else r1) in
       if rc_block_threshold cfg \<le> n then block_ip cfg tb ip n r2 else (True, r2))"

definition sw_record_violation :: "rate_config \<Rightarrow> time \<Rightarrow> time \<Rightarrow> time \<Rightarrow> string \<Rightarrow> sliding \<Rightarrow> sliding" where
  "sw_record_violation cfg t tb tf ip s = (case record_violation_redis cfg t tb ip (sw_redis s) of
     (True, r) \<Rightarrow> s\<lparr>sw_redis := r\<rparr>
   | (False, r) \<Rightarrow> \<lparr>sw_redis = r, sw_fallback = record_violation cfg tf ip (sw_fallback s)\<rparr>)"

subsection \<open>The comprehensive check\<close>

text \<open>The readings of the clock: for the block, the window, the violation and the new block, and those of the fallback.\<close>

record clock =
  ck_block :: time
  ck_window :: time
  ck_violation :: time
  ck_ban :: time
  ck_fb_block :: time
  ck_fb_window :: time
  ck_fb_violation :: time

definition sw_check :: "rate_config \<Rightarrow> clock \<Rightarrow> string \<Rightarrow> bool \<Rightarrow> string \<Rightarrow> sliding \<Rightarrow> rate_result \<times> sliding" where
  "sw_check cfg ck ip authenticated endpoint s =
     (case sw_is_blocked (ck_block ck) (ck_fb_block ck) ip s of
        ((True, rest), s1) \<Rightarrow> (\<lparr>rr_allowed = False, rr_remaining = 0, rr_retry_after = 0, rr_blocked = True, rr_block_remaining = rest\<rparr>, s1)
      | ((False, _), s1) \<Rightarrow>
          (case sw_allow cfg (ck_window ck) (ck_fb_window ck) (build_key ip authenticated endpoint) (effective_limit cfg authenticated endpoint) s1 of
             ((True, remaining, _), s2) \<Rightarrow>
               (\<lparr>rr_allowed = True, rr_remaining = remaining, rr_retry_after = 0, rr_blocked = False, rr_block_remaining = 0\<rparr>, s2)
           | ((False, remaining, retry), s2) \<Rightarrow>
               (\<lparr>rr_allowed = False, rr_remaining = remaining, rr_retry_after = retry, rr_blocked = False, rr_block_remaining = 0\<rparr>,
                 sw_record_violation cfg (ck_violation ck) (ck_ban ck) (ck_fb_violation ck) ip s2)))"

end
