(* ===== verification/AccountDb.thy ===== *)
theory AccountDb
  imports UserWallet
begin

text \<open>
  The accounts of the user service: the tables of \<^verbatim>\<open>migrations/001_initial.sql\<close> beside those of \<^verbatim>\<open>UserWallet\<close>, and the repositories of
  \<^verbatim>\<open>services/user-service/internal/repository\<close> on them (\<^verbatim>\<open>user_repository.go\<close>, \<^verbatim>\<open>refresh_repository.go\<close>,
  \<^verbatim>\<open>session_repository.go\<close>, \<^verbatim>\<open>admin_repository.go\<close>). A string is its bytes in UTF-8; a column of characters counts them. The
  wallet tables know the accounts by their ids.
\<close>

record account =
  ac_id :: uuid
  ac_username :: string
  ac_email :: string
  ac_hash :: string
  ac_first :: string
  ac_last :: string
  ac_role :: string
  ac_verified :: bool
  ac_active :: bool
  ac_created :: time
  ac_updated :: time
  ac_deleted :: "time option"

record refresh_row =
  rt_id :: uuid
  rt_user :: uuid
  rt_hash :: string
  rt_expires :: time
  rt_revoked :: bool
  rt_created :: time

record session_row =
  se_id :: uuid
  se_user :: uuid
  se_ip :: string
  se_agent :: string
  se_device :: string
  se_activity :: time
  se_created :: time

record accountdb =
  wallet_db :: userdb
  accounts :: "account list"
  refresh_tokens :: "refresh_row list"
  user_sessions :: "session_row list"

type_synonym ('e, 'a) acc_op = "(accountdb, 'e, 'a) db_op"

datatype acc_err = EmailExists | UserNotFound | InvalidCredentials | InactiveUser | InvalidRefresh | RefreshNotFound
  | HashingFailed | TokenFailed | RandomFailed | WalletErr user_err | AccDb db_error

text \<open>Characters of UTF-8: bytes that do not continue one.\<close>

definition rune_count :: "string \<Rightarrow> nat" where
  "rune_count s = length (filter (\<lambda>c. \<not> (128 \<le> (of_char c :: nat) \<and> (of_char c :: nat) < 192)) s)"

text \<open>An operation on the wallet tables, in the session of the accounts.\<close>

definition in_wallets :: "('e, 'a) user_op \<Rightarrow> ('e, 'a) acc_op" where
  "in_wallets m s =
     (case m \<lparr>db = wallet_db (db s), aborted = aborted s, faults = faults s\<rparr> of
        (r, u) \<Rightarrow> (r, \<lparr>db = (db s)\<lparr>wallet_db := db u\<rparr>, aborted = aborted u, faults = faults u\<rparr>))"

subsection \<open>Users\<close>

definition sql_insert_account :: "account \<Rightarrow> accountdb db_update" where
  "sql_insert_account a d =
     (if 50 < rune_count (ac_username a) \<or> 255 < rune_count (ac_email a) \<or> 100 < rune_count (ac_first a) \<or>
         100 < rune_count (ac_last a) \<or> 20 < rune_count (ac_role a) then Inl ValueTooLong
      else if ac_id a \<in> ac_id ` set (accounts d) \<or> ac_username a \<in> ac_username ` set (accounts d) \<or>
         ac_email a \<in> ac_email ` set (accounts d) then Inl UniqueViolation
      else Inr (d\<lparr>accounts := accounts d @ [a], wallet_db := (wallet_db d)\<lparr>users := users (wallet_db d) @ [ac_id a]\<rparr>\<rparr>, 1))"

text \<open>An update of the account with this id, if it is not deleted.\<close>

definition sql_update_account :: "uuid \<Rightarrow> (account \<Rightarrow> account) \<Rightarrow> accountdb db_update" where
  "sql_update_account uid f d = (let live = (\<lambda>a. ac_id a = uid \<and> ac_deleted a = None) in
     Inr (d\<lparr>accounts := update_where live f (accounts d)\<rparr>, length (filter live (accounts d))))"

definition create_account :: "account \<Rightarrow> (acc_err, account) acc_op" where
  "create_account a = andthen (on_err (\<lambda>e. if e = UniqueViolation then EmailExists else AccDb e) (exec (sql_insert_account a))) (\<lambda>_. ret a)"

definition not_found :: "db_error \<Rightarrow> acc_err" where
  "not_found e = (if e = NoRows then UserNotFound else AccDb e)"

definition find_by_email :: "string \<Rightarrow> (acc_err, account) acc_op" where
  "find_by_email email = on_err not_found (pool_query (\<lambda>d. find (\<lambda>a. ac_email a = email \<and> ac_deleted a = None) (accounts d)))"

definition find_by_id :: "uuid \<Rightarrow> (acc_err, account) acc_op" where
  "find_by_id uid = on_err not_found (pool_query (\<lambda>d. find (\<lambda>a. ac_id a = uid \<and> ac_deleted a = None) (accounts d)))"

definition update_account :: "uuid \<Rightarrow> (account \<Rightarrow> account) \<Rightarrow> (acc_err, unit) acc_op" where
  "update_account uid f = andthen (on_err AccDb (pool_exec (sql_update_account uid f)))
     (\<lambda>n. if n = 0 then fail UserNotFound else ret ())"

definition sql_update_profile :: "time \<Rightarrow> uuid \<Rightarrow> string \<Rightarrow> string \<Rightarrow> accountdb db_update" where
  "sql_update_profile t uid fname lname d =
     (case sql_update_account uid (\<lambda>a. a\<lparr>ac_first := fname, ac_last := lname, ac_updated := t\<rparr>) d of
        Inl e \<Rightarrow> Inl e
      | Inr (d', n) \<Rightarrow> if n \<noteq> 0 \<and> (100 < rune_count fname \<or> 100 < rune_count lname) then Inl ValueTooLong else Inr (d', n))"

definition update_profile :: "time \<Rightarrow> uuid \<Rightarrow> string \<Rightarrow> string \<Rightarrow> (acc_err, unit) acc_op" where
  "update_profile t uid fname lname = andthen (on_err AccDb (pool_exec (sql_update_profile t uid fname lname)))
     (\<lambda>n. if n = 0 then fail UserNotFound else ret ())"

subsection \<open>Refresh tokens\<close>

definition sql_insert_refresh :: "refresh_row \<Rightarrow> accountdb db_update" where
  "sql_insert_refresh r d =
     (if rt_id r \<in> rt_id ` set (refresh_tokens d) then Inl UniqueViolation
      else if rt_user r \<notin> ac_id ` set (accounts d) then Inl ForeignKeyViolation
      else Inr (d\<lparr>refresh_tokens := refresh_tokens d @ [r]\<rparr>, 1))"

definition refresh_create :: "uuid \<Rightarrow> time \<Rightarrow> uuid \<Rightarrow> string \<Rightarrow> time \<Rightarrow> (acc_err, refresh_row) acc_op" where
  "refresh_create rid t user hash expires =
     (let r = \<lparr>rt_id = rid, rt_user = user, rt_hash = hash, rt_expires = expires, rt_revoked = False, rt_created = t\<rparr> in
      andthen (on_err AccDb (pool_exec (sql_insert_refresh r))) (\<lambda>_. ret r))"

definition usable :: "time \<Rightarrow> string \<Rightarrow> refresh_row \<Rightarrow> bool" where
  "usable t hash r \<longleftrightarrow> rt_hash r = hash \<and> \<not> rt_revoked r \<and> t < rt_expires r"

definition find_valid :: "time \<Rightarrow> string \<Rightarrow> (acc_err, refresh_row) acc_op" where
  "find_valid t hash = on_err (\<lambda>e. if e = NoRows then RefreshNotFound else AccDb e)
     (pool_query (\<lambda>d. find (usable t hash) (refresh_tokens d)))"

definition sql_revoke :: "(refresh_row \<Rightarrow> bool) \<Rightarrow> accountdb db_update" where
  "sql_revoke P d = Inr (d\<lparr>refresh_tokens := update_where P (\<lambda>r. r\<lparr>rt_revoked := True\<rparr>) (refresh_tokens d)\<rparr>,
     length (filter P (refresh_tokens d)))"

definition revoke :: "uuid \<Rightarrow> (acc_err, unit) acc_op" where
  "revoke rid = andthen (on_err AccDb (pool_exec (sql_revoke (\<lambda>r. rt_id r = rid)))) (\<lambda>_. ret ())"

definition revoke_all_for_user :: "uuid \<Rightarrow> (acc_err, unit) acc_op" where
  "revoke_all_for_user user = andthen (on_err AccDb (pool_exec (sql_revoke (\<lambda>r. rt_user r = user \<and> \<not> rt_revoked r)))) (\<lambda>_. ret ())"

subsection \<open>Sessions\<close>

definition sql_insert_session :: "session_row \<Rightarrow> accountdb db_update" where
  "sql_insert_session r d =
     (if se_id r \<in> se_id ` set (user_sessions d) then Inl UniqueViolation
      else if se_user r \<notin> ac_id ` set (accounts d) then Inl ForeignKeyViolation
      else Inr (d\<lparr>user_sessions := user_sessions d @ [r]\<rparr>, 1))"

definition session_create :: "session_row \<Rightarrow> (acc_err, unit) acc_op" where
  "session_create r = andthen (on_err AccDb (pool_exec (sql_insert_session r))) (\<lambda>_. ret ())"

definition sessions_of :: "uuid \<Rightarrow> accountdb \<Rightarrow> session_row list" where
  "sessions_of user d = filter (\<lambda>r. se_user r = user) (user_sessions d)"

definition count_by_user :: "uuid \<Rightarrow> (acc_err, nat) acc_op" where
  "count_by_user user = on_err AccDb (pool_query (\<lambda>d. Some (length (sessions_of user d))))"

text \<open>The oldest row; of several the first.\<close>

fun oldest :: "session_row list \<Rightarrow> session_row option" where
  "oldest [] = None"
| "oldest (r # rs) = (case oldest rs of None \<Rightarrow> Some r | Some q \<Rightarrow> if se_created r \<le> se_created q then Some r else Some q)"

definition sql_delete_oldest :: "uuid \<Rightarrow> accountdb db_update" where
  "sql_delete_oldest user d = (case oldest (sessions_of user d) of
     None \<Rightarrow> Inr (d, 0)
   | Some q \<Rightarrow> Inr (d\<lparr>user_sessions := filter (\<lambda>r. se_id r \<noteq> se_id q) (user_sessions d)\<rparr>, 1))"

definition delete_oldest :: "uuid \<Rightarrow> (acc_err, unit) acc_op" where
  "delete_oldest user = andthen (on_err AccDb (pool_exec (sql_delete_oldest user))) (\<lambda>_. ret ())"

definition touch :: "time \<Rightarrow> uuid \<Rightarrow> (acc_err, unit) acc_op" where
  "touch t sid = andthen (on_err AccDb (pool_exec (\<lambda>d. Inr (d\<lparr>user_sessions :=
     update_where (\<lambda>r. se_id r = sid) (\<lambda>r. r\<lparr>se_activity := t\<rparr>) (user_sessions d)\<rparr>,
     length (filter (\<lambda>r. se_id r = sid) (user_sessions d)))))) (\<lambda>_. ret ())"

definition active_count :: "time \<Rightarrow> (acc_err, nat) acc_op" where
  "active_count t = on_err AccDb (pool_query (\<lambda>d. Some (length (filter (\<lambda>r. t - 24 * hour < se_activity r) (user_sessions d)))))"

text \<open>The loop of \<^verbatim>\<open>EnsureSessionLimit\<close>: \<open>n\<close> is the count it keeps itself.\<close>

function session_loop :: "uuid \<Rightarrow> int \<Rightarrow> int \<Rightarrow> (acc_err, unit) acc_op" where
  "session_loop user n most s =
     (if n < most then (Inr (), s)
      else (case delete_oldest user s of (Inl e, s') \<Rightarrow> (Inl e, s') | (Inr _, s') \<Rightarrow> session_loop user (n - 1) most s'))"
  by pat_completeness auto
termination by (relation "measure (\<lambda>(user, n, most, s). nat (n - most + 1))") auto

declare session_loop.simps [simp del]

definition ensure_session_limit :: "uuid \<Rightarrow> int \<Rightarrow> (acc_err, unit) acc_op" where
  "ensure_session_limit user most = andthen (count_by_user user) (\<lambda>n. session_loop user (int n) most)"

subsection \<open>Administration\<close>

text \<open>\<^verbatim>\<open>ILIKE\<close>: \<^verbatim>\<open>%\<close> matches any characters, \<^verbatim>\<open>_\<close> one, a backslash takes the next one as it is; ASCII letters match in either case.\<close>

definition lower :: "char \<Rightarrow> char" where
  "lower c = (let n = (of_char c :: nat) in if 65 \<le> n \<and> n \<le> 90 then char_of (n + 32) else c)"

fun ilike :: "string \<Rightarrow> string \<Rightarrow> bool" where
  "ilike [] s = (s = [])"
| "ilike (p # ps) [] = (p = CHR ''%'' \<and> ilike ps [])"
| "ilike (p # ps) (c # s) =
     (if p = CHR ''%'' then ilike ps (c # s) \<or> ilike (p # ps) s
      else if p = CHR ''_'' then ilike ps s
      else if p = CHR 0x5C \<and> ps \<noteq> [] then lower c = lower (hd ps) \<and> ilike (tl ps) s
      else lower c = lower p \<and> ilike ps s)"

definition listed :: "string \<Rightarrow> string \<Rightarrow> account \<Rightarrow> bool" where
  "listed role search a \<longleftrightarrow> ac_deleted a = None \<and> (role = [] \<or> ac_role a = role) \<and>
     (search = [] \<or> (let p = ''%'' @ search @ ''%'' in ilike p (ac_username a) \<or> ilike p (ac_email a) \<or> ilike p (ac_first a)))"

text \<open>The offset is computed in 64 bits.\<close>

definition page_offset :: "int \<Rightarrow> int \<Rightarrow> int" where
  "page_offset page limit = wrap64 ((page - 1) * limit)"

definition list_users :: "int \<Rightarrow> int \<Rightarrow> string \<Rightarrow> string \<Rightarrow> (acc_err, account list \<times> nat) acc_op" where
  "list_users page limit role search =
     andthen (on_err AccDb (pool_query (\<lambda>d. Some (length (filter (listed role search) (accounts d)))))) (\<lambda>n.
     if page_offset page limit < 0 \<or> limit < 0 then (\<lambda>s. (Inl (AccDb (if next_fault s then ConnError else NegativeOffset)), Session.tick s))
     else on_err AccDb (pool_query (\<lambda>d. Some (take (nat limit) (drop (nat (page_offset page limit))
       (sort_key (\<lambda>a. - ac_created a) (filter (listed role search) (accounts d)))), n))))"

definition update_role :: "time \<Rightarrow> uuid \<Rightarrow> string \<Rightarrow> (acc_err, unit) acc_op" where
  "update_role t uid role = update_account uid (\<lambda>a. a\<lparr>ac_role := role, ac_updated := t\<rparr>)"

definition set_active :: "time \<Rightarrow> uuid \<Rightarrow> bool \<Rightarrow> (acc_err, unit) acc_op" where
  "set_active t uid b = update_account uid (\<lambda>a. a\<lparr>ac_active := b, ac_updated := t\<rparr>)"

definition soft_delete :: "time \<Rightarrow> uuid \<Rightarrow> (acc_err, unit) acc_op" where
  "soft_delete t uid = update_account uid (\<lambda>a. a\<lparr>ac_deleted := Some t, ac_active := False, ac_updated := t\<rparr>)"

end
