(* ===== verification/Accounts.thy ===== *)
theory Accounts
  imports AccountDb Jwt
begin

text \<open>
  Registration, login, refresh and logout (\<^verbatim>\<open>services/user-service/internal/service/auth_service.go\<close> with \<^verbatim>\<open>auth/jwt.go\<close>,
  \<^verbatim>\<open>refresh.go\<close>, \<^verbatim>\<open>password.go\<close>, \<^verbatim>\<open>blacklist.go\<close>, \<^verbatim>\<open>permissions.go\<close>), profiles (\<^verbatim>\<open>user_service.go\<close>), and the handlers and
  the middleware in front of them (\<^verbatim>\<open>handler/auth_handler.go\<close>, \<^verbatim>\<open>user_handler.go\<close>, \<^verbatim>\<open>admin_handler.go\<close>, \<^verbatim>\<open>middleware/auth.go\<close>).
  The password and hash functions are libraries: an argument \<open>pw_lib\<close>. Fresh ids, random bytes and the time of a request are one argument.
  Audit rows keep the user and the action; their metadata is left out.
\<close>

subsection \<open>Libraries, configuration and state\<close>

text \<open>\<^verbatim>\<open>bcrypt\<close> with a cost and a random salt, its comparison, and SHA-256 in hexadecimal.\<close>

record pw_lib =
  pw_hash :: "int \<Rightarrow> string \<Rightarrow> string \<Rightarrow> string option"
  pw_verify :: "string \<Rightarrow> string \<Rightarrow> bool"
  pw_digest :: "string \<Rightarrow> string"

record auth_config =
  cf_secret :: string
  cf_access_min :: int
  cf_refresh_days :: int
  cf_cost :: int
  cf_sessions :: int

record auth_draw =
  dw_user :: uuid
  dw_wallet :: uuid
  dw_audit :: uuid
  dw_session :: uuid
  dw_jti :: uuid
  dw_refresh :: uuid
  dw_salt :: string
  dw_plain :: "string option"
  dw_now :: time

record user_event =
  ue_type :: string
  ue_user :: uuid
  ue_email :: string
  ue_role :: string
  ue_wallet :: string
  ue_time :: int

record acc_sys =
  ax_sess :: "accountdb session"
  ax_redis :: "string redis option"
  ax_events :: "user_event list"
  ax_broker :: "bool list"

definition on_accounts :: "('e, 'a) acc_op \<Rightarrow> acc_sys \<Rightarrow> ('e + 'a) \<times> acc_sys" where
  "on_accounts m s = (case m (ax_sess s) of (r, ss) \<Rightarrow> (r, s\<lparr>ax_sess := ss\<rparr>))"

text \<open>An event whose broker does not answer is lost; the code ignores the error.\<close>

definition publish_user_event :: "user_event \<Rightarrow> acc_sys \<Rightarrow> acc_sys" where
  "publish_user_event e s = (let s' = s\<lparr>ax_broker := tl (ax_broker s)\<rparr> in
     if ax_broker s \<noteq> [] \<and> \<not> hd (ax_broker s) then s' else s'\<lparr>ax_events := ax_events s @ [e]\<rparr>)"

definition audit :: "auth_draw \<Rightarrow> uuid \<Rightarrow> string \<Rightarrow> acc_sys \<Rightarrow> acc_sys" where
  "audit dr user action s = snd (on_accounts (in_wallets (pool_exec (sql_insert_audit
     \<lparr>al_id = dw_audit dr, al_user = (if user = [] then None else Some user), al_action = action, al_amount = 0, al_created = dw_now dr\<rparr>))) s)"

subsection \<open>Passwords and tokens\<close>

definition hash_password :: "pw_lib \<Rightarrow> string \<Rightarrow> string \<Rightarrow> int \<Rightarrow> string option" where
  "hash_password pw salt plain cost = pw_hash pw (if cost < 4 then 10 else cost) salt plain"

definition verify_password :: "pw_lib \<Rightarrow> string \<Rightarrow> string \<Rightarrow> bool" where
  "verify_password pw hash plain = pw_verify pw hash plain"

definition access_ttl :: "auth_config \<Rightarrow> duration" where
  "access_ttl cfg = cf_access_min cfg * minute"

definition refresh_expires_at :: "auth_config \<Rightarrow> time \<Rightarrow> time" where
  "refresh_expires_at cfg t = t + cf_refresh_days cfg * 24 * hour"

definition user_claims :: "jwt_lib \<Rightarrow> auth_config \<Rightarrow> time \<Rightarrow> uuid \<Rightarrow> account \<Rightarrow> claims" where
  "user_claims lib cfg t jti a = no_claims\<lparr>cl_user := ac_id a, cl_name := ac_username a, cl_email := ac_email a, cl_role := ac_role a,
     cl_jti := jti, cl_subject := ac_id a, cl_expires := Some (jl_date lib (t + access_ttl cfg)), cl_issued := Some (jl_date lib t),
     cl_issuer := ''auction-user-service''\<rparr>"

definition issue_access_token :: "jwt_lib \<Rightarrow> auth_config \<Rightarrow> time \<Rightarrow> uuid \<Rightarrow> account \<Rightarrow> string option" where
  "issue_access_token lib cfg t jti a = jl_sign lib [] (cf_secret cfg) (user_claims lib cfg t jti a)"

text \<open>The claims of this service have the user name too.\<close>

definition user_view :: "claims \<Rightarrow> claims" where
  "user_view c = c\<lparr>cl_service := []\<rparr>"

definition parse_access_token :: "jwt_lib \<Rightarrow> auth_config \<Rightarrow> time \<Rightarrow> string \<Rightarrow> jwt_err + claims" where
  "parse_access_token lib cfg t tok = (case jl_parse lib True t (hmac_key (cf_secret cfg)) tok of
     Inl e \<Rightarrow> Inl e | Inr c \<Rightarrow> Inr (user_view c))"

text \<open>The token in clear, of 32 random bytes in hexadecimal, and its digest.\<close>

definition generate_refresh :: "pw_lib \<Rightarrow> auth_draw \<Rightarrow> (string \<times> string) option" where
  "generate_refresh pw dr = map_option (\<lambda>p. (p, pw_digest pw p)) (dw_plain dr)"

definition jti_key :: "string \<Rightarrow> string" where
  "jti_key jti = ''jwt:blacklist:'' @ jti"

definition blacklist_jti :: "string \<Rightarrow> duration \<Rightarrow> time \<Rightarrow> acc_sys \<Rightarrow> bool \<times> acc_sys" where
  "blacklist_jti jti ttl t s = (case ax_redis s of
     None \<Rightarrow> (False, s)
   | Some r \<Rightarrow> (case redis_set (jti_key jti) ''1'' ttl t r of (b, r') \<Rightarrow> (b, s\<lparr>ax_redis := Some r'\<rparr>)))"

text \<open>Whether the id is listed. A failed lookup counts as not listed: the code logs the error and goes on.\<close>

definition is_blacklisted :: "string \<Rightarrow> time \<Rightarrow> acc_sys \<Rightarrow> bool \<times> acc_sys" where
  "is_blacklisted jti t s = (case ax_redis s of
     None \<Rightarrow> (False, s)
   | Some r \<Rightarrow> (if redis_fails r then (False, s\<lparr>ax_redis := Some (after_command r)\<rparr>)
       else (live (jti_key jti) t r \<noteq> None, s\<lparr>ax_redis := Some (after_command r)\<rparr>)))"

datatype parse_err = BadToken | TokenRevoked

definition parse_token :: "jwt_lib \<Rightarrow> auth_config \<Rightarrow> time \<Rightarrow> string \<Rightarrow> acc_sys \<Rightarrow> (parse_err + claims) \<times> acc_sys" where
  "parse_token lib cfg t tok s = (case parse_access_token lib cfg t tok of
     Inl e \<Rightarrow> (Inl BadToken, s)
   | Inr c \<Rightarrow> (case is_blacklisted (cl_jti c) t s of (b, s') \<Rightarrow> (if b then Inl TokenRevoked else Inr c, s')))"

text \<open>The levels of the roles; a role that is none of them has level 0.\<close>

definition role_level :: "string \<Rightarrow> int" where
  "role_level r = (if r = role_bidder then 1 else if r = role_seller then 2 else if r = role_admin then 3 else 0)"

definition has_role :: "string \<Rightarrow> string \<Rightarrow> bool" where
  "has_role user required \<longleftrightarrow> role_level required \<le> role_level user"

definition can_access_wallet :: "string \<Rightarrow> bool" where
  "can_access_wallet role = has_role role role_bidder"

definition can_manage_users :: "string \<Rightarrow> bool" where
  "can_manage_users role \<longleftrightarrow> role = role_admin"

subsection \<open>The service\<close>

record user_response =
  ur_id :: uuid
  ur_username :: string
  ur_email :: string
  ur_first :: string
  ur_last :: string
  ur_role :: string

definition to_user_response :: "account \<Rightarrow> user_response" where
  "to_user_response a = \<lparr>ur_id = ac_id a, ur_username = ac_username a, ur_email = ac_email a, ur_first = ac_first a,
     ur_last = ac_last a, ur_role = ac_role a\<rparr>"

record auth_response =
  ar_access :: string
  ar_refresh :: string
  ar_expires_in :: int
  ar_user :: user_response

definition parse_device :: "string \<Rightarrow> string" where
  "parse_device ua = (if 120 < length ua then take 120 ua else ua)"

definition record_session :: "auth_config \<Rightarrow> auth_draw \<Rightarrow> uuid \<Rightarrow> string \<Rightarrow> string \<Rightarrow> acc_sys \<Rightarrow> acc_sys" where
  "record_session cfg dr user ip ua s =
     (if ip = [] then s
      else snd (on_accounts (session_create \<lparr>se_id = dw_session dr, se_user = user, se_ip = ip, se_agent = ua, se_device = parse_device ua,
          se_activity = dw_now dr, se_created = dw_now dr\<rparr>)
        (snd (on_accounts (ensure_session_limit user (cf_sessions cfg)) s))))"

definition issue_tokens :: "jwt_lib \<Rightarrow> pw_lib \<Rightarrow> auth_config \<Rightarrow> auth_draw \<Rightarrow> account \<Rightarrow> string \<Rightarrow> string \<Rightarrow> acc_sys \<Rightarrow>
    (acc_err + auth_response) \<times> acc_sys" where
  "issue_tokens lib pw cfg dr a ip ua s =
     (let s1 = record_session cfg dr (ac_id a) ip ua s in
      case issue_access_token lib cfg (dw_now dr) (dw_jti dr) a of
        None \<Rightarrow> (Inl TokenFailed, s1)
      | Some access \<Rightarrow> (case generate_refresh pw dr of
           None \<Rightarrow> (Inl RandomFailed, s1)
         | Some (plain, hash) \<Rightarrow>
             (case on_accounts (refresh_create (dw_refresh dr) (dw_now dr) (ac_id a) hash (refresh_expires_at cfg (dw_now dr))) s1 of
                (Inl e, s2) \<Rightarrow> (Inl e, s2)
              | (Inr _, s2) \<Rightarrow> (Inr \<lparr>ar_access = access, ar_refresh = plain, ar_expires_in = cf_access_min cfg * 60,
                    ar_user = to_user_response a\<rparr>, s2))))"

record register_request =
  rr_username :: string
  rr_email :: string
  rr_password :: string
  rr_first :: string
  rr_last :: string
  rr_role :: string

definition new_account :: "auth_draw \<Rightarrow> string \<Rightarrow> register_request \<Rightarrow> account" where
  "new_account dr hash req = \<lparr>ac_id = dw_user dr, ac_username = rr_username req, ac_email = rr_email req, ac_hash = hash,
     ac_first = rr_first req, ac_last = rr_last req, ac_role = (if rr_role req = role_seller then role_seller else role_bidder),
     ac_verified = False, ac_active = True, ac_created = dw_now dr, ac_updated = dw_now dr, ac_deleted = None\<rparr>"

definition on_wallet_err :: "(user_err, 'a) acc_op \<Rightarrow> (acc_err, 'a) acc_op" where
  "on_wallet_err m s = (case m s of (Inl e, s') \<Rightarrow> (Inl (WalletErr e), s') | (Inr x, s') \<Rightarrow> (Inr x, s'))"

text \<open>The account and its wallet in one transaction.\<close>

definition register_tx :: "auth_draw \<Rightarrow> account \<Rightarrow> (acc_err, float64 uwallet) acc_op" where
  "register_tx dr a = with_tx AccDb AccDb (andthen (create_account a) (\<lambda>_.
     on_wallet_err (in_wallets (create_uwallet (dw_wallet dr) (dw_now dr) (ac_id a)))))"

definition register :: "jwt_lib \<Rightarrow> pw_lib \<Rightarrow> auth_config \<Rightarrow> auth_draw \<Rightarrow> register_request \<Rightarrow> string \<Rightarrow> string \<Rightarrow> acc_sys \<Rightarrow>
    (acc_err + auth_response) \<times> acc_sys" where
  "register lib pw cfg dr req ip ua s =
     (case hash_password pw (dw_salt dr) (rr_password req) (cf_cost cfg) of
        None \<Rightarrow> (Inl HashingFailed, s)
      | Some hash \<Rightarrow> let a = new_account dr hash req in
          (case on_accounts (register_tx dr a) s of
             (Inl e, s1) \<Rightarrow> (Inl e, s1)
           | (Inr w, s1) \<Rightarrow>
               let s2 = audit dr (ac_id a) ''USER_REGISTERED'' s1;
                   s3 = publish_user_event \<lparr>ue_type = ''USER_REGISTERED'', ue_user = ac_id a, ue_email = ac_email a, ue_role = ac_role a,
                     ue_wallet = [], ue_time = dw_now dr div second\<rparr> s2;
                   s4 = publish_user_event \<lparr>ue_type = ''WALLET_CREATED'', ue_user = ac_id a, ue_email = [], ue_role = [],
                     ue_wallet = uw_id w, ue_time = dw_now dr div second\<rparr> s3
               in issue_tokens lib pw cfg dr a ip ua s4))"

definition login :: "jwt_lib \<Rightarrow> pw_lib \<Rightarrow> auth_config \<Rightarrow> auth_draw \<Rightarrow> string \<Rightarrow> string \<Rightarrow> string \<Rightarrow> string \<Rightarrow> acc_sys \<Rightarrow>
    (acc_err + auth_response) \<times> acc_sys" where
  "login lib pw cfg dr email password ip ua s =
     (case on_accounts (find_by_email email) s of
        (Inl e, s1) \<Rightarrow> (Inl (if e = UserNotFound then InvalidCredentials else e), s1)
      | (Inr a, s1) \<Rightarrow>
          if \<not> ac_active a then (Inl InactiveUser, s1)
          else if \<not> verify_password pw (ac_hash a) password then (Inl InvalidCredentials, s1)
          else let s2 = audit dr (ac_id a) ''USER_LOGGED_IN'' s1;
                   s3 = publish_user_event \<lparr>ue_type = ''USER_LOGGED_IN'', ue_user = ac_id a, ue_email = ac_email a, ue_role = [],
                     ue_wallet = [], ue_time = dw_now dr div second\<rparr> s2
               in issue_tokens lib pw cfg dr a ip ua s3)"

text \<open>Refreshing, in the two steps between which another request may run: finding the token, and using it.\<close>

definition refresh_found :: "jwt_lib \<Rightarrow> pw_lib \<Rightarrow> auth_config \<Rightarrow> auth_draw \<Rightarrow> refresh_row \<Rightarrow> acc_sys \<Rightarrow> (acc_err + auth_response) \<times> acc_sys" where
  "refresh_found lib pw cfg dr rt s =
     (case on_accounts (revoke (rt_id rt)) s of
        (Inl e, s1) \<Rightarrow> (Inl e, s1)
      | (Inr _, s1) \<Rightarrow> (case on_accounts (find_by_id (rt_user rt)) s1 of
          (Inl e, s2) \<Rightarrow> (Inl InvalidRefresh, s2)
        | (Inr a, s2) \<Rightarrow> issue_tokens lib pw cfg dr a [] [] s2))"

definition refresh :: "jwt_lib \<Rightarrow> pw_lib \<Rightarrow> auth_config \<Rightarrow> auth_draw \<Rightarrow> string \<Rightarrow> acc_sys \<Rightarrow> (acc_err + auth_response) \<times> acc_sys" where
  "refresh lib pw cfg dr plain s =
     (case on_accounts (find_valid (dw_now dr) (pw_digest pw plain)) s of
        (Inl e, s1) \<Rightarrow> (Inl InvalidRefresh, s1)
      | (Inr rt, s1) \<Rightarrow> refresh_found lib pw cfg dr rt s1)"

definition logout :: "pw_lib \<Rightarrow> auth_draw \<Rightarrow> string \<Rightarrow> duration \<Rightarrow> string \<Rightarrow> acc_sys \<Rightarrow> acc_sys" where
  "logout pw dr jti ttl plain s =
     (let s1 = (if jti = [] then s else snd (blacklist_jti jti ttl (dw_now dr) s)) in
      if plain = [] then s1
      else (case on_accounts (find_valid (dw_now dr) (pw_digest pw plain)) s1 of
          (Inl e, s2) \<Rightarrow> s2
        | (Inr rt, s2) \<Rightarrow> audit dr (rt_user rt) ''USER_LOGGED_OUT'' (snd (on_accounts (revoke (rt_id rt)) s2))))"

definition get_me :: "uuid \<Rightarrow> acc_sys \<Rightarrow> (acc_err + user_response) \<times> acc_sys" where
  "get_me uid s = (case on_accounts (find_by_id uid) s of (Inl e, s1) \<Rightarrow> (Inl e, s1) | (Inr a, s1) \<Rightarrow> (Inr (to_user_response a), s1))"

text \<open>An empty name of the request keeps the old one.\<close>

definition update_me :: "time \<Rightarrow> uuid \<Rightarrow> string \<Rightarrow> string \<Rightarrow> acc_sys \<Rightarrow> (acc_err + user_response) \<times> acc_sys" where
  "update_me t uid fname lname s = (case on_accounts (find_by_id uid) s of
     (Inl e, s1) \<Rightarrow> (Inl e, s1)
   | (Inr a, s1) \<Rightarrow>
       let fn = (if fname = [] then ac_first a else fname); ln = (if lname = [] then ac_last a else lname) in
       (case on_accounts (update_profile t uid fn ln) s1 of
          (Inl e, s2) \<Rightarrow> (Inl e, s2)
        | (Inr _, s2) \<Rightarrow> (Inr (to_user_response (a\<lparr>ac_first := fn, ac_last := ln\<rparr>)), s2)))"

subsection \<open>Handlers\<close>

text \<open>A request body that did not decode is \<open>None\<close>; whether a string is an e-mail address is decided by the validator library.\<close>

definition register_valid :: "(string \<Rightarrow> bool) \<Rightarrow> register_request \<Rightarrow> bool" where
  "register_valid is_email req \<longleftrightarrow> 3 \<le> rune_count (rr_username req) \<and> rune_count (rr_username req) \<le> 50 \<and>
     rr_email req \<noteq> [] \<and> is_email (rr_email req) \<and> 8 \<le> rune_count (rr_password req) \<and>
     2 \<le> rune_count (rr_first req) \<and> 2 \<le> rune_count (rr_last req) \<and> rr_role req \<in> {[], role_seller, role_bidder}"

definition register_handler :: "(string \<Rightarrow> bool) \<Rightarrow> jwt_lib \<Rightarrow> pw_lib \<Rightarrow> auth_config \<Rightarrow> auth_draw \<Rightarrow> register_request option \<Rightarrow> string \<Rightarrow> string \<Rightarrow>
    acc_sys \<Rightarrow> (nat \<times> auth_response option) \<times> acc_sys" where
  "register_handler is_email lib pw cfg dr body ip ua s = (case body of
     None \<Rightarrow> ((400, None), s)
   | Some req \<Rightarrow>
       if \<not> register_valid is_email req then ((400, None), s)
       else (case register lib pw cfg dr req ip ua s of
           (Inl EmailExists, s') \<Rightarrow> ((409, None), s') | (Inl _, s') \<Rightarrow> ((500, None), s') | (Inr r, s') \<Rightarrow> ((201, Some r), s')))"

definition login_handler :: "(string \<Rightarrow> bool) \<Rightarrow> jwt_lib \<Rightarrow> pw_lib \<Rightarrow> auth_config \<Rightarrow> auth_draw \<Rightarrow> (string \<times> string) option \<Rightarrow> string \<Rightarrow> string \<Rightarrow>
    acc_sys \<Rightarrow> (nat \<times> auth_response option) \<times> acc_sys" where
  "login_handler is_email lib pw cfg dr body ip ua s = (case body of
     None \<Rightarrow> ((400, None), s)
   | Some (email, password) \<Rightarrow>
       if email = [] \<or> \<not> is_email email \<or> password = [] then ((400, None), s)
       else (case login lib pw cfg dr email password ip ua s of
           (Inl InvalidCredentials, s') \<Rightarrow> ((401, None), s') | (Inl InactiveUser, s') \<Rightarrow> ((403, None), s')
         | (Inl _, s') \<Rightarrow> ((500, None), s') | (Inr r, s') \<Rightarrow> ((200, Some r), s')))"

definition refresh_handler :: "jwt_lib \<Rightarrow> pw_lib \<Rightarrow> auth_config \<Rightarrow> auth_draw \<Rightarrow> string option \<Rightarrow> acc_sys \<Rightarrow> (nat \<times> auth_response option) \<times> acc_sys" where
  "refresh_handler lib pw cfg dr body s = (case body of
     None \<Rightarrow> ((400, None), s)
   | Some plain \<Rightarrow>
       if plain = [] then ((400, None), s)
       else (case refresh lib pw cfg dr plain s of (Inl _, s') \<Rightarrow> ((401, None), s') | (Inr r, s') \<Rightarrow> ((200, Some r), s')))"

text \<open>The body of a logout that does not decode counts as empty; the answer is always a success.\<close>

definition logout_handler :: "pw_lib \<Rightarrow> auth_draw \<Rightarrow> string \<Rightarrow> string option \<Rightarrow> acc_sys \<Rightarrow> nat \<times> acc_sys" where
  "logout_handler pw dr jti body s = (200, logout pw dr jti (15 * minute) (case body of None \<Rightarrow> [] | Some p \<Rightarrow> p) s)"

definition forgot_password_handler :: "(string \<Rightarrow> bool) \<Rightarrow> string option \<Rightarrow> acc_sys \<Rightarrow> nat \<times> acc_sys" where
  "forgot_password_handler is_email body s = (case body of
     None \<Rightarrow> (400, s) | Some email \<Rightarrow> (if email = [] \<or> \<not> is_email email then 400 else 200, s))"

definition reset_password_handler :: "(string \<times> string) option \<Rightarrow> acc_sys \<Rightarrow> nat \<times> acc_sys" where
  "reset_password_handler body s = (case body of
     None \<Rightarrow> (400, s) | Some (tok, new) \<Rightarrow> (if tok = [] \<or> rune_count new < 8 then 400 else 200, s))"

definition verify_email_handler :: "string option \<Rightarrow> acc_sys \<Rightarrow> nat \<times> acc_sys" where
  "verify_email_handler body s = (case body of None \<Rightarrow> (400, s) | Some tok \<Rightarrow> (if tok = [] then 400 else 200, s))"

definition change_password_handler :: "(string \<times> string) option \<Rightarrow> acc_sys \<Rightarrow> nat \<times> acc_sys" where
  "change_password_handler body s = (case body of
     None \<Rightarrow> (400, s) | Some (old, new) \<Rightarrow> (if old = [] \<or> rune_count new < 8 then 400 else 200, s))"

text \<open>The answer has no sessions in it, and the count of those of all users.\<close>

definition get_sessions_handler :: "time \<Rightarrow> acc_sys \<Rightarrow> (nat \<times> nat) \<times> acc_sys" where
  "get_sessions_handler t s = (case on_accounts (active_count t) s of (Inl e, s') \<Rightarrow> ((200, 0), s') | (Inr n, s') \<Rightarrow> ((200, n), s'))"

definition delete_session_handler :: "uuid \<Rightarrow> acc_sys \<Rightarrow> nat \<times> acc_sys" where
  "delete_session_handler sid s = (200, s)"

definition delete_all_sessions_handler :: "acc_sys \<Rightarrow> nat \<times> acc_sys" where
  "delete_all_sessions_handler s = (200, s)"

definition get_me_handler :: "uuid \<Rightarrow> acc_sys \<Rightarrow> (nat \<times> user_response option) \<times> acc_sys" where
  "get_me_handler uid s = (case get_me uid s of
     (Inl UserNotFound, s') \<Rightarrow> ((404, None), s') | (Inl _, s') \<Rightarrow> ((500, None), s') | (Inr r, s') \<Rightarrow> ((200, Some r), s'))"

definition update_me_handler :: "time \<Rightarrow> uuid \<Rightarrow> (string \<times> string) option \<Rightarrow> acc_sys \<Rightarrow> (nat \<times> user_response option) \<times> acc_sys" where
  "update_me_handler t uid body s = (case body of
     None \<Rightarrow> ((400, None), s)
   | Some (fname, lname) \<Rightarrow>
       if fname \<noteq> [] \<and> rune_count fname < 2 \<or> lname \<noteq> [] \<and> rune_count lname < 2 then ((400, None), s)
       else (case update_me t uid fname lname s of (Inl _, s') \<Rightarrow> ((500, None), s') | (Inr r, s') \<Rightarrow> ((200, Some r), s')))"

definition delete_me_handler :: "acc_sys \<Rightarrow> nat \<times> acc_sys" where
  "delete_me_handler s = (200, s)"

definition public_profile_handler :: "uuid \<Rightarrow> uuid \<times> string \<times> string" where
  "public_profile_handler uid = (uid, ''user'', ''bidder'')"

text \<open>The administration answers 500 to every error, also when there is no such user.\<close>

definition admin_done :: "(acc_err + unit) \<times> acc_sys \<Rightarrow> nat \<times> acc_sys" where
  "admin_done r = (case r of (Inl _, s) \<Rightarrow> (500, s) | (Inr _, s) \<Rightarrow> (200, s))"

definition update_role_handler :: "time \<Rightarrow> uuid \<Rightarrow> string option \<Rightarrow> acc_sys \<Rightarrow> nat \<times> acc_sys" where
  "update_role_handler t uid body s = (case body of
     None \<Rightarrow> (400, s)
   | Some role \<Rightarrow> if is_valid_role role then admin_done (on_accounts (update_role t uid role) s) else (400, s))"

definition ban_user_handler :: "time \<Rightarrow> uuid \<Rightarrow> acc_sys \<Rightarrow> nat \<times> acc_sys" where
  "ban_user_handler t uid s = admin_done (on_accounts (set_active t uid False) s)"

definition unban_user_handler :: "time \<Rightarrow> uuid \<Rightarrow> acc_sys \<Rightarrow> nat \<times> acc_sys" where
  "unban_user_handler t uid s = admin_done (on_accounts (set_active t uid True) s)"

definition delete_user_handler :: "time \<Rightarrow> uuid \<Rightarrow> acc_sys \<Rightarrow> nat \<times> acc_sys" where
  "delete_user_handler t uid s = admin_done (on_accounts (soft_delete t uid) s)"

definition list_users_handler :: "int \<Rightarrow> int \<Rightarrow> string \<Rightarrow> string \<Rightarrow> acc_sys \<Rightarrow> (nat \<times> user_response list \<times> nat) \<times> acc_sys" where
  "list_users_handler page limit role search s =
     (let page' = (if page < 1 then 1 else page); limit' = (if limit < 1 \<or> 100 < limit then 20 else limit) in
      case on_accounts (list_users page' limit' role search) s of
        (Inl _, s') \<Rightarrow> ((500, [], 0), s')
      | (Inr (as, n), s') \<Rightarrow> ((200, map to_user_response as, n), s'))"

text \<open>The middleware: who the request is from, with the role and the id of the token, or the status of the refusal.\<close>

definition auth_required :: "jwt_lib \<Rightarrow> auth_config \<Rightarrow> time \<Rightarrow> string \<Rightarrow> acc_sys \<Rightarrow> (nat + uuid \<times> string \<times> string) \<times> acc_sys" where
  "auth_required lib cfg t header s =
     (if take 7 header \<noteq> ''Bearer '' then (Inl 401, s)
      else (case parse_token lib cfg t (drop 7 header) s of
          (Inl _, s') \<Rightarrow> (Inl 401, s') | (Inr c, s') \<Rightarrow> (Inr (cl_user c, cl_role c, cl_jti c), s')))"

definition require_role :: "string list \<Rightarrow> string \<Rightarrow> nat option" where
  "require_role roles role = (if role \<in> set roles then None else Some 403)"

end
