(* ===== verification/Gateway.thy ===== *)
theory Gateway
  imports SlidingWindow Accounts KeyRotation "HOL-Library.Word"
begin

text \<open>
  The API gateway (\<^verbatim>\<open>api-gateway/internal\<close>): token check (\<^verbatim>\<open>auth/jwt.go\<close>, \<^verbatim>\<open>middleware/auth.go\<close>, \<^verbatim>\<open>rbac.go\<close>,
  \<^verbatim>\<open>auth/permissions.go\<close>), the rate limit in front (\<^verbatim>\<open>middleware/rate_limit.go\<close>), correlation ids (\<^verbatim>\<open>middleware/correlation.go\<close>),
  the proxy with its balancer and breaker (\<^verbatim>\<open>proxy/\<close>), the table of routes and the chain of middlewares (\<^verbatim>\<open>router/router.go\<close>), and the
  middleware of the services behind it that trusts its headers (\<^verbatim>\<open>middleware/auth.go\<close> of the auction and payment services,
  \<^verbatim>\<open>auth_middleware.go\<close> of the bid service).

  The libraries for CORS and security headers decide in an argument of the model (\<open>en_gate\<close>); the services behind the gateway answer from
  a script. A header name is canonical, as \<^verbatim>\<open>net/http\<close> makes it. Redirects of trailing slashes, the metrics and the log are left out.
\<close>

subsection \<open>Requests\<close>

type_synonym headers = "string \<Rightarrow> string list"

record gw_request =
  gq_method :: string
  gq_path :: string
  gq_query :: string
  gq_headers :: headers
  gq_body :: string
  gq_ip :: string
  gq_upgrades :: bool

record gw_response =
  gr_status :: nat
  gr_headers :: headers
  gr_body :: string

text \<open>What the middlewares put into the context of a request; a key that is not set reads as empty.\<close>

record gw_context =
  cx_user :: string
  cx_email :: string
  cx_role :: string
  cx_token :: string
  cx_correlation :: string

definition empty_context :: gw_context where
  "empty_context = \<lparr>cx_user = [], cx_email = [], cx_role = [], cx_token = [], cx_correlation = []\<rparr>"

definition get_header :: "string \<Rightarrow> headers \<Rightarrow> string" where
  "get_header k h = (case h k of [] \<Rightarrow> [] | v # _ \<Rightarrow> v)"

definition set_header :: "string \<Rightarrow> string \<Rightarrow> headers \<Rightarrow> headers" where
  "set_header k v h = h(k := [v])"

definition add_headers :: "headers \<Rightarrow> headers \<Rightarrow> headers" where
  "add_headers h h' = (\<lambda>k. h k @ h' k)"

definition header_user :: string where "header_user = ''X-User-Id''"
definition header_role :: string where "header_role = ''X-User-Role''"
definition header_email :: string where "header_email = ''X-User-Email''"
definition header_correlation :: string where "header_correlation = ''X-Correlation-Id''"
definition header_trust :: string where "header_trust = ''X-Gateway-Trust''"

lemmas header_names = header_user_def header_role_def header_email_def header_correlation_def header_trust_def

definition ends_with :: "string \<Rightarrow> string \<Rightarrow> bool" where
  "ends_with suf s \<longleftrightarrow> length suf \<le> length s \<and> drop (length s - length suf) s = suf"

subsection \<open>Tokens and roles\<close>

datatype validator = StaticSecret string | RotatingKeys key_manager

datatype gw_err = NoAuthorization | BadAuthorization | GwRevoked | GwInvalid

text \<open>The text before the first space, and the rest.\<close>

fun cut_space :: "string \<Rightarrow> (string \<times> string) option" where
  "cut_space [] = None"
| "cut_space (c # s) = (if c = CHR '' '' then Some ([], s) else map_option (\<lambda>(a, b). (c # a, b)) (cut_space s))"

definition bearer_token :: "string \<Rightarrow> string option" where
  "bearer_token header = (case cut_space header of
     None \<Rightarrow> None | Some (scheme, tok) \<Rightarrow> if map lower scheme = ''bearer'' then Some tok else None)"

definition validate :: "jwt_lib \<Rightarrow> validator \<Rightarrow> time \<Rightarrow> string \<Rightarrow> claims option" where
  "validate lib v t tok = (case v of
     RotatingKeys m \<Rightarrow> (case verify_token lib t tok m of Inl _ \<Rightarrow> None | Inr c \<Rightarrow> Some (shared_view c))
   | StaticSecret secret \<Rightarrow> (case jl_parse lib True t (hmac_key secret) tok of Inl _ \<Rightarrow> None | Inr c \<Rightarrow> Some (user_view c)))"

text \<open>A lookup that fails counts as not revoked.\<close>

definition parse_bearer :: "jwt_lib \<Rightarrow> validator \<Rightarrow> time \<Rightarrow> string \<Rightarrow> string redis option \<Rightarrow>
    (gw_err + claims \<times> string) \<times> string redis option" where
  "parse_bearer lib v t header rd =
     (if header = [] then (Inl NoAuthorization, rd)
      else (case bearer_token header of
          None \<Rightarrow> (Inl BadAuthorization, rd)
        | Some tok \<Rightarrow>
            (case (case rd of None \<Rightarrow> (False, None)
                | Some r \<Rightarrow> (case redis_get (blacklist_key tok) t r of (ans, r') \<Rightarrow> (ans = Some (Some ''revoked''), Some r'))) of
               (True, rd') \<Rightarrow> (Inl GwRevoked, rd')
             | (False, rd') \<Rightarrow> (case validate lib v t tok of None \<Rightarrow> (Inl GwInvalid, rd') | Some c \<Rightarrow> (Inr (c, tok), rd')))))"

definition gw_auth :: "jwt_lib \<Rightarrow> validator \<Rightarrow> time \<Rightarrow> gw_request \<Rightarrow> gw_context \<Rightarrow> string redis option \<Rightarrow>
    (nat + gw_context) \<times> string redis option" where
  "gw_auth lib v t rq cx rd = (case parse_bearer lib v t (get_header ''Authorization'' (gq_headers rq)) rd of
     (Inl _, rd') \<Rightarrow> (Inl 401, rd')
   | (Inr (c, tok), rd') \<Rightarrow> (Inr (cx\<lparr>cx_user := cl_user c, cx_email := cl_email c, cx_role := cl_role c, cx_token := tok\<rparr>), rd'))"

definition gw_require_role :: "string list \<Rightarrow> gw_context \<Rightarrow> nat option" where
  "gw_require_role roles cx = (if cx_role cx \<in> set roles then None else Some 403)"

definition is_seller :: "string \<Rightarrow> bool" where
  "is_seller role \<longleftrightarrow> role = role_seller \<or> role = role_admin"

subsection \<open>The rate limit and the correlation id\<close>

definition extract_endpoint :: "string \<Rightarrow> string" where
  "extract_endpoint path =
     (let parts = split_on CHR ''/'' path;
          norm = (if take 6 path = ''/api/v'' \<and> 4 \<le> length parts then CHR ''/'' # join_with CHR ''/'' (drop 3 parts) else path) in
      if ends_with ''/login'' norm then ''/login''
      else if ends_with ''/register'' norm then ''/register''
      else if norm = ''/bids'' then ''/bids'' else [])"

text \<open>The headers of the limit, and the refusal: 403 for a blocked address, 429 over the limit, with the seconds to wait.\<close>

definition limit_request :: "rate_config \<Rightarrow> clock \<Rightarrow> gw_request \<Rightarrow> gw_context \<Rightarrow> sliding \<Rightarrow> (nat option \<times> headers) \<times> sliding" where
  "limit_request cfg ck rq cx s =
     (let authenticated = cx_user cx \<noteq> []; endpoint = extract_endpoint (gq_path rq) in
      case sw_check cfg ck (gq_ip rq) authenticated endpoint s of (res, s') \<Rightarrow>
        let h = set_header ''X-Ratelimit-Remaining'' (itoa (rr_remaining res))
              (set_header ''X-Ratelimit-Limit'' (itoa (effective_limit cfg authenticated endpoint)) (\<lambda>_. []));
            wait = (\<lambda>d. set_header ''Retry-After'' (itoa (max 1 (d div second))) h) in
        if rr_blocked res then ((Some 403, wait (rr_block_remaining res)), s')
        else if \<not> rr_allowed res then ((Some 429, wait (rr_retry_after res)), s')
        else ((None, h), s'))"

definition correlate :: "string \<Rightarrow> gw_request \<Rightarrow> string" where
  "correlate fresh rq = (let v = get_header header_correlation (gq_headers rq) in if v = [] then fresh else v)"

subsection \<open>The proxy\<close>

datatype service = UserService | AuctionService | BidService | NotificationService

definition base_url :: "(service \<Rightarrow> string) \<Rightarrow> service \<Rightarrow> string" where
  "base_url reg svc = reg svc"

definition upstream_urls :: "(service \<Rightarrow> string) \<Rightarrow> service \<Rightarrow> string list" where
  "upstream_urls reg svc = (if base_url reg svc \<noteq> [] then [base_url reg svc] else [])"

record round_robin =
  rb_urls :: "string list"
  rb_next :: "64 word"

definition new_round_robin :: "string list \<Rightarrow> round_robin" where
  "new_round_robin urls = \<lparr>rb_urls = (if urls = [] then [[]] else urls), rb_next = 0\<rparr>"

text \<open>The counter is increased first, and wraps around.\<close>

definition next_url :: "round_robin \<Rightarrow> string \<times> round_robin" where
  "next_url rb = (if length (rb_urls rb) = 1 then (rb_urls rb ! 0, rb)
     else (let i = rb_next rb + 1 in (rb_urls rb ! (unat i mod length (rb_urls rb)), rb\<lparr>rb_next := i\<rparr>)))"

datatype proxy_state = PClosed | POpen | PHalfOpen

record proxy_breaker =
  pb_max :: int
  pb_reset :: duration
  pb_failures :: int
  pb_last :: time
  pb_state :: proxy_state

definition new_proxy_breaker :: "int \<Rightarrow> duration \<Rightarrow> proxy_breaker" where
  "new_proxy_breaker n d = \<lparr>pb_max = n, pb_reset = d, pb_failures = 0, pb_last = 0, pb_state = PClosed\<rparr>"

definition proxy_allow :: "time \<Rightarrow> proxy_breaker \<Rightarrow> bool \<times> proxy_breaker" where
  "proxy_allow t b = (if pb_state b = POpen then (if pb_reset b < t - pb_last b then (True, b\<lparr>pb_state := PHalfOpen\<rparr>) else (False, b)) else (True, b))"

definition proxy_success :: "proxy_breaker \<Rightarrow> proxy_breaker" where
  "proxy_success b = b\<lparr>pb_failures := 0, pb_state := PClosed\<rparr>"

definition proxy_failure :: "time \<Rightarrow> proxy_breaker \<Rightarrow> proxy_breaker" where
  "proxy_failure t b = (let n = pb_failures b + 1 in
     b\<lparr>pb_failures := n, pb_last := t, pb_state := (if pb_max b \<le> n then POpen else pb_state b)\<rparr>)"

text \<open>
  The script of the services: the connection fails, or a reply comes, of whose body a part can still be read when the context of the
  call, which is cancelled as soon as the call returns, has ended.
\<close>

datatype reply = Refused | Replied nat headers string nat

record sent_request =
  up_url :: string
  up_method :: string
  up_headers :: headers
  up_body :: string

record gateway =
  gw_lb :: "service \<Rightarrow> round_robin"
  gw_cb :: "service \<Rightarrow> proxy_breaker"
  gw_retries :: int
  gw_script :: "reply list"
  gw_sent :: "sent_request list"

definition new_gateway :: "(service \<Rightarrow> string) \<Rightarrow> int \<Rightarrow> reply list \<Rightarrow> gateway" where
  "new_gateway reg retries script = \<lparr>gw_lb = (\<lambda>svc. new_round_robin (upstream_urls reg svc)),
     gw_cb = (\<lambda>svc. new_proxy_breaker 5 (30 * second)), gw_retries = retries, gw_script = script, gw_sent = []\<rparr>"

text \<open>What \<^verbatim>\<open>net/url\<close> refuses in the text after the host: control bytes, and a percent sign without two hexadecimal digits, in the path or
  in the fragment.\<close>

definition hex_digit :: "char \<Rightarrow> bool" where
  "hex_digit c \<longleftrightarrow> (let n = (of_char c :: nat) in 48 \<le> n \<and> n \<le> 57 \<or> 65 \<le> n \<and> n \<le> 70 \<or> 97 \<le> n \<and> n \<le> 102)"

fun escapes_ok :: "string \<Rightarrow> bool" where
  "escapes_ok [] = True"
| "escapes_ok (c # s) = (if c = CHR ''%'' then (case s of a # b # s' \<Rightarrow> hex_digit a \<and> hex_digit b | _ \<Rightarrow> False) \<and> escapes_ok s else escapes_ok s)"

definition control_free :: "string \<Rightarrow> bool" where
  "control_free s \<longleftrightarrow> (\<forall>c \<in> set s. 32 \<le> (of_char c :: nat) \<and> (of_char c :: nat) \<noteq> 127)"

definition url_parses :: "string \<Rightarrow> bool" where
  "url_parses s = (let main = takeWhile (\<lambda>c. c \<noteq> CHR ''#'') s; frag = drop (length main + 1) s in
     control_free main \<and> escapes_ok (takeWhile (\<lambda>c. c \<noteq> CHR ''?'') main) \<and> escapes_ok frag)"

text \<open>The decoded path is put into the address as it is.\<close>

definition target :: "gw_request \<Rightarrow> string" where
  "target rq = gq_path rq @ (if gq_query rq = [] then [] else CHR ''?'' # gq_query rq)"

definition forward_headers :: "gw_context \<Rightarrow> headers \<Rightarrow> headers" where
  "forward_headers cx h =
     (let h0 = (\<lambda>k. if k = ''Host'' then [] else h k);
          h1 = (if cx_correlation cx = [] then h0 else set_header header_correlation (cx_correlation cx) h0) in
      if cx_user cx = [] then h1
      else set_header header_trust ''true'' (set_header header_email (cx_email cx)
        (set_header header_role (cx_role cx) (set_header header_user (cx_user cx) h1))))"

definition ws_headers :: "gw_context \<Rightarrow> headers \<Rightarrow> headers" where
  "ws_headers cx h =
     (let h0 = (\<lambda>k. if k = ''Connection'' \<or> k = ''Upgrade'' then [] else h k);
          h1 = (if cx_correlation cx = [] then h0 else set_header header_correlation (cx_correlation cx) h0) in
      if cx_user cx = [] then h1
      else set_header header_trust ''true'' (set_header header_role (cx_role cx) (set_header header_user (cx_user cx) h1)))"

text \<open>A script that has ended is a service that cannot be reached. The result is \<open>None\<close> for an error.\<close>

definition next_reply :: "gateway \<Rightarrow> reply" where
  "next_reply g = (case gw_script g of [] \<Rightarrow> Refused | r # _ \<Rightarrow> r)"

definition do_once :: "gw_context \<Rightarrow> gw_request \<Rightarrow> string \<Rightarrow> gateway \<Rightarrow> reply \<times> gateway" where
  "do_once cx rq base g = (if \<not> url_parses (target rq) then (Refused, g)
     else (next_reply g, g\<lparr>gw_script := tl (gw_script g), gw_sent := gw_sent g @
       [\<lparr>up_url = base @ target rq, up_method = gq_method rq, up_headers = forward_headers cx (gq_headers rq), up_body = gq_body rq\<rparr>]\<rparr>))"

text \<open>The attempts: the first argument counts those that are left after this one. A reply of the server's errors is closed and tried again.\<close>

fun attempt :: "nat \<Rightarrow> gw_context \<Rightarrow> gw_request \<Rightarrow> string \<Rightarrow> gateway \<Rightarrow> reply \<times> gateway" where
  "attempt n cx rq base g = (case do_once cx rq base g of
     (Replied st h b k, g') \<Rightarrow> if st < 500 then (Replied st h b k, g')
       else (case n of 0 \<Rightarrow> (Replied st h b 0, g') | Suc m \<Rightarrow> attempt m cx rq base g')
   | (Refused, g') \<Rightarrow> (case n of 0 \<Rightarrow> (Refused, g') | Suc m \<Rightarrow> attempt m cx rq base g'))"

declare attempt.simps [simp del]

definition set_breaker :: "service \<Rightarrow> proxy_breaker \<Rightarrow> gateway \<Rightarrow> gateway" where
  "set_breaker svc b g = g\<lparr>gw_cb := (gw_cb g)(svc := b)\<rparr>"

text \<open>With a negative number of retries nothing is tried, and the missing reply is a panic that the outermost middleware answers.\<close>

definition forward :: "time \<Rightarrow> time \<Rightarrow> service \<Rightarrow> gw_context \<Rightarrow> gw_request \<Rightarrow> gateway \<Rightarrow> (nat \<times> headers \<times> string) \<times> gateway" where
  "forward t t' svc cx rq g =
     (case proxy_allow t (gw_cb g svc) of
        (False, b) \<Rightarrow> ((503, \<lambda>_. [], ''service temporarily unavailable''), set_breaker svc b g)
      | (True, b) \<Rightarrow>
          let g1 = set_breaker svc b g in
          (case next_url (gw_lb g1 svc) of (base, lb) \<Rightarrow>
           let g2 = g1\<lparr>gw_lb := (gw_lb g1)(svc := lb)\<rparr> in
           if gw_retries g < 0 then ((500, \<lambda>_. [], ''internal server error''), g2)
           else (case attempt (nat (gw_retries g)) cx rq base g2 of
               (Refused, g3) \<Rightarrow> ((502, \<lambda>_. [], ''upstream unavailable''), set_breaker svc (proxy_failure t' (gw_cb g3 svc)) g3)
             | (Replied st h b k, g3) \<Rightarrow> ((st, h, take k b), set_breaker svc (proxy_success (gw_cb g3 svc)) g3))))"

text \<open>The web socket: no breaker, one dial. After the upgrade the answer is 101, and the frames are copied both ways.\<close>

definition ws_forward :: "service \<Rightarrow> gw_context \<Rightarrow> gw_request \<Rightarrow> gateway \<Rightarrow> (nat \<times> headers \<times> string) \<times> gateway" where
  "ws_forward svc cx rq g = (case next_url (gw_lb g svc) of (base, lb) \<Rightarrow>
     let g1 = g\<lparr>gw_lb := (gw_lb g)(svc := lb)\<rparr> in
     if \<not> url_parses (target rq) then ((502, \<lambda>_. [], ''invalid upstream''), g1)
     else if \<not> gq_upgrades rq then ((400, \<lambda>_. [], []), g1)
     else ((101, \<lambda>_. [], []), g1\<lparr>gw_script := tl (gw_script g1), gw_sent := gw_sent g1 @
       [\<lparr>up_url = base @ target rq, up_method = ''GET'', up_headers = ws_headers cx (gq_headers rq), up_body = []\<rparr>]\<rparr>))"

subsection \<open>Routes\<close>

datatype segment = Lit string | Param

datatype guard = Public | Authed | Roles "string list"

datatype action = Proxy service | Socket service | Health | Ready | Metrics | Swagger | SpecFile

text \<open>A parameter takes one segment, which is not empty at the end of a path.\<close>

fun path_matches :: "segment list \<Rightarrow> string list \<Rightarrow> bool" where
  "path_matches [] [] = True"
| "path_matches (Lit a # ps) (x # xs) = (a = x \<and> path_matches ps xs)"
| "path_matches (Param # ps) (x # xs) = ((xs = [] \<longrightarrow> x \<noteq> []) \<and> path_matches ps xs)"
| "path_matches _ _ = False"

type_synonym gw_route = "string \<times> segment list \<times> guard \<times> action"

definition seller_or_admin :: guard where "seller_or_admin = Roles [role_seller, role_admin]"
definition admin_only :: guard where "admin_only = Roles [role_admin]"

text \<open>The routes under \<^verbatim>\<open>/api/v1\<close>. A fixed segment goes before a parameter.\<close>

definition api_routes :: "gw_route list" where
  "api_routes =
    [(''POST'', [Lit ''auth'', Lit ''register''], Public, Proxy UserService),
     (''POST'', [Lit ''auth'', Lit ''login''], Public, Proxy UserService),
     (''POST'', [Lit ''auth'', Lit ''refresh''], Public, Proxy UserService),
     (''GET'', [Lit ''auctions''], Public, Proxy AuctionService),
     (''GET'', [Lit ''auctions'', Lit ''search''], Public, Proxy AuctionService),
     (''GET'', [Lit ''auctions'', Lit ''category'', Param], Public, Proxy AuctionService),
     (''GET'', [Lit ''auctions'', Param, Lit ''bids''], Public, Proxy BidService),
     (''GET'', [Lit ''auctions'', Param], Public, Proxy AuctionService),
     (''POST'', [Lit ''auth'', Lit ''logout''], Authed, Proxy UserService),
     (''GET'', [Lit ''users'', Lit ''me''], Authed, Proxy UserService),
     (''PUT'', [Lit ''users'', Lit ''me''], Authed, Proxy UserService),
     (''GET'', [Lit ''wallet''], Authed, Proxy UserService),
     (''GET'', [Lit ''wallet'', Lit ''history''], Authed, Proxy UserService),
     (''POST'', [Lit ''wallet'', Lit ''deposit''], Authed, Proxy UserService),
     (''POST'', [Lit ''bids''], Authed, Proxy BidService),
     (''GET'', [Lit ''bids'', Lit ''me''], Authed, Proxy BidService),
     (''GET'', [Lit ''ws'', Param], Authed, Socket BidService),
     (''POST'', [Lit ''auctions''], seller_or_admin, Proxy AuctionService),
     (''PUT'', [Lit ''auctions'', Param], seller_or_admin, Proxy AuctionService),
     (''DELETE'', [Lit ''auctions'', Param], seller_or_admin, Proxy AuctionService),
     (''GET'', [Lit ''seller'', Lit ''auctions''], seller_or_admin, Proxy AuctionService),
     (''DELETE'', [Lit ''admin'', Lit ''auctions'', Param], admin_only, Proxy AuctionService),
     (''GET'', [Lit ''admin'', Lit ''users''], admin_only, Proxy UserService),
     (''PUT'', [Lit ''admin'', Lit ''users'', Param, Lit ''role''], admin_only, Proxy UserService),
     (''POST'', [Lit ''admin'', Lit ''users'', Param, Lit ''ban''], admin_only, Proxy UserService),
     (''POST'', [Lit ''admin'', Lit ''users'', Param, Lit ''unban''], admin_only, Proxy UserService),
     (''DELETE'', [Lit ''admin'', Lit ''users'', Param], admin_only, Proxy UserService)]"

definition local_routes :: "gw_route list" where
  "local_routes =
    [(''GET'', [Lit ''health''], Public, Health), (''GET'', [Lit ''ready''], Public, Ready), (''GET'', [Lit ''metrics''], Public, Metrics),
     (''GET'', [Lit ''swagger''], Public, Swagger), (''GET'', [Lit ''swagger'', Lit ''spec.yaml''], Public, SpecFile)]"

definition gw_routes :: "gw_route list" where
  "gw_routes = local_routes @ map (\<lambda>(m, ps, g). (m, Lit ''api'' # Lit ''v1'' # ps, g)) api_routes"

definition find_route :: "gw_request \<Rightarrow> (guard \<times> action) option" where
  "find_route rq = (case split_on CHR ''/'' (gq_path rq) of
     [] # segs \<Rightarrow> map_option (\<lambda>(m, ps, g, a). (g, a)) (find (\<lambda>(m, ps, _). m = gq_method rq \<and> path_matches ps segs) gw_routes)
   | _ \<Rightarrow> None)"

subsection \<open>The chain\<close>

record gw_env =
  en_lib :: jwt_lib
  en_validator :: validator
  en_gate :: "gw_request \<Rightarrow> nat option"
  en_spec_file :: bool

record gw_system =
  gs_proxy :: gateway
  gs_limits :: sliding
  gs_redis :: "string redis"

record gw_clock =
  gk_limit :: clock
  gk_auth :: time
  gk_allow :: time
  gk_record :: time
  gk_fresh :: string

text \<open>The token and the role a guard asks for.\<close>

definition pass_guard :: "gw_env \<Rightarrow> time \<Rightarrow> guard \<Rightarrow> gw_request \<Rightarrow> gw_context \<Rightarrow> string redis \<Rightarrow> (nat + gw_context) \<times> string redis" where
  "pass_guard env t g rq cx r = (case g of
     Public \<Rightarrow> (Inr cx, r)
   | _ \<Rightarrow> (case gw_auth (en_lib env) (en_validator env) t rq cx (Some r) of
         (Inl st, rd) \<Rightarrow> (Inl st, the rd)
       | (Inr cx', rd) \<Rightarrow> ((case g of Roles rs \<Rightarrow> (case gw_require_role rs cx' of None \<Rightarrow> Inr cx' | Some st \<Rightarrow> Inl st) | _ \<Rightarrow> Inr cx'), the rd)))"

definition run_action :: "gw_env \<Rightarrow> gw_clock \<Rightarrow> action \<Rightarrow> gw_context \<Rightarrow> gw_request \<Rightarrow> gw_system \<Rightarrow> (nat \<times> headers \<times> string) \<times> gw_system" where
  "run_action env ck a cx rq s = (case a of
     Proxy svc \<Rightarrow> (case forward (gk_allow ck) (gk_record ck) svc cx rq (gs_proxy s) of (res, p) \<Rightarrow> (res, s\<lparr>gs_proxy := p\<rparr>))
   | Socket svc \<Rightarrow> (case ws_forward svc cx rq (gs_proxy s) of (res, p) \<Rightarrow> (res, s\<lparr>gs_proxy := p\<rparr>))
   | Ready \<Rightarrow> (if redis_fails (gs_redis s) then ((503, \<lambda>_. [], ''not_ready''), s\<lparr>gs_redis := after_command (gs_redis s)\<rparr>)
       else ((200, \<lambda>_. [], ''ready''), s\<lparr>gs_redis := after_command (gs_redis s)\<rparr>))
   | SpecFile \<Rightarrow> ((if en_spec_file env then 200 else 404, \<lambda>_. [], []), s)
   | _ \<Rightarrow> ((200, \<lambda>_. [], []), s))"

text \<open>A request through all of it. A response of an upstream adds its headers to those that are there.\<close>

definition handle :: "gw_env \<Rightarrow> gw_clock \<Rightarrow> gw_request \<Rightarrow> gw_system \<Rightarrow> gw_response \<times> gw_system" where
  "handle env ck rq s =
     (let cid = correlate (gk_fresh ck) rq; cx = empty_context\<lparr>cx_correlation := cid\<rparr>; h0 = set_header header_correlation cid (\<lambda>_. []) in
      case en_gate env rq of
        Some st \<Rightarrow> (\<lparr>gr_status = st, gr_headers = h0, gr_body = []\<rparr>, s)
      | None \<Rightarrow>
          (case limit_request default_rate_config (gk_limit ck) rq cx (gs_limits s) of ((refused, hl), sl) \<Rightarrow>
           let s1 = s\<lparr>gs_limits := sl\<rparr>; h1 = add_headers h0 hl in
           case refused of
             Some st \<Rightarrow> (\<lparr>gr_status = st, gr_headers = h1, gr_body = []\<rparr>, s1)
           | None \<Rightarrow>
               (case find_route rq of
                  None \<Rightarrow> (\<lparr>gr_status = 404, gr_headers = h1, gr_body = []\<rparr>, s1)
                | Some (g, a) \<Rightarrow>
                    (case pass_guard env (gk_auth ck) g rq cx (gs_redis s1) of
                       (Inl st, r) \<Rightarrow> (\<lparr>gr_status = st, gr_headers = h1, gr_body = []\<rparr>, s1\<lparr>gs_redis := r\<rparr>)
                     | (Inr cx', r) \<Rightarrow>
                         (case run_action env ck a cx' rq (s1\<lparr>gs_redis := r\<rparr>) of ((st, h, b), s2) \<Rightarrow>
                           (\<lparr>gr_status = st, gr_headers = add_headers h1 h, gr_body = b\<rparr>, s2))))))"

subsection \<open>The services behind it\<close>

text \<open>The middleware of the bid service, and that of the auction and payment services, which asks for no scheme and takes the token of
  any method under the secret. Both take the user and the role of the headers as they are.\<close>

definition bid_service_auth :: "jwt_lib \<Rightarrow> string \<Rightarrow> time \<Rightarrow> headers \<Rightarrow> nat + gw_context" where
  "bid_service_auth lib secret t h =
     (if get_header header_user h \<noteq> [] then Inr (empty_context\<lparr>cx_user := get_header header_user h, cx_role := get_header header_role h,
        cx_email := get_header header_email h\<rparr>)
      else (let a = get_header ''Authorization'' h in
        if a = [] then Inl 401
        else (case bearer_token a of None \<Rightarrow> Inl 401
          | Some tok \<Rightarrow> (case jl_parse lib True t (hmac_key secret) tok of Inl _ \<Rightarrow> Inl 401
              | Inr c \<Rightarrow> Inr (empty_context\<lparr>cx_user := cl_user c, cx_email := cl_email c, cx_role := cl_role c, cx_token := tok\<rparr>)))))"

definition service_auth :: "jwt_lib \<Rightarrow> string \<Rightarrow> time \<Rightarrow> headers \<Rightarrow> nat + gw_context" where
  "service_auth lib secret t h =
     (if get_header header_user h \<noteq> [] then Inr (empty_context\<lparr>cx_user := get_header header_user h, cx_role := get_header header_role h\<rparr>)
      else (let a = get_header ''Authorization'' h in
        if a = [] then Inl 401
        else (case cut_space a of None \<Rightarrow> Inl 401
          | Some (_, tok) \<Rightarrow> (case jl_parse lib True t (\<lambda>_. Some secret) tok of Inl _ \<Rightarrow> Inl 401
              | Inr c \<Rightarrow> Inr (empty_context\<lparr>cx_user := cl_user c, cx_role := cl_role c\<rparr>)))))"

end
