(* ===== verification/AccountsInv.thy ===== *)
theory AccountsInv
  imports Accounts
begin

text \<open>
  Invariants of the accounts: \<open>accounts_ok\<close>, the constraints of the tables, and the locale \<open>table_invariant\<close>, which says what any property
  of the tables needs so that every request keeps it, whichever statements fail.
\<close>

subsection \<open>The invariant\<close>

definition account_ok :: "account \<Rightarrow> bool" where
  "account_ok a \<longleftrightarrow> ac_role a \<in> set all_roles \<and> (ac_deleted a \<noteq> None \<longrightarrow> \<not> ac_active a)"

definition keys_ok :: "accountdb \<Rightarrow> bool" where
  "keys_ok d \<longleftrightarrow> distinct (map ac_id (accounts d)) \<and> distinct (map ac_username (accounts d)) \<and> distinct (map ac_email (accounts d)) \<and>
     distinct (map rt_id (refresh_tokens d)) \<and> distinct (map se_id (user_sessions d)) \<and>
     users (wallet_db d) = map ac_id (accounts d) \<and> distinct (map uw_user (uwallets (wallet_db d)))"

text \<open>Every account has its wallet.\<close>

definition walleted :: "accountdb \<Rightarrow> bool" where
  "walleted d \<longleftrightarrow> uw_user ` set (uwallets (wallet_db d)) = ac_id ` set (accounts d)"

lemma walleted_frame [simp]:
  "walleted (d\<lparr>refresh_tokens := x\<rparr>) = walleted d" "walleted (d\<lparr>user_sessions := y\<rparr>) = walleted d"
  by (simp_all add: walleted_def)

definition accounts_ok :: "accountdb \<Rightarrow> bool" where
  "accounts_ok d \<longleftrightarrow> keys_ok d \<and> (\<forall>a \<in> set (accounts d). account_ok a) \<and> walleted d \<and>
     (\<forall>r \<in> set (refresh_tokens d). rt_user r \<in> ac_id ` set (accounts d)) \<and>
     (\<forall>r \<in> set (user_sessions d). se_user r \<in> ac_id ` set (accounts d))"

definition harmless :: "(account \<Rightarrow> account) \<Rightarrow> bool" where
  "harmless f \<longleftrightarrow> (\<forall>a. ac_id (f a) = ac_id a \<and> ac_username (f a) = ac_username a \<and> ac_email (f a) = ac_email a \<and>
     (account_ok a \<longrightarrow> ac_deleted a = None \<longrightarrow> account_ok (f a)))"

lemma update_account_ok:
  assumes "sql_update_account uid f d = Inr (d', n)" and "harmless f" and "accounts_ok d"
  shows "accounts_ok d'"
proof -
  let ?up = "update_where (\<lambda>a. ac_id a = uid \<and> ac_deleted a = None) f (accounts d)"
  have d': "d' = d\<lparr>accounts := ?up\<rparr>" using assms(1) by (simp add: sql_update_account_def Let_def)
  have m: "map ac_id ?up = map ac_id (accounts d)" "map ac_username ?up = map ac_username (accounts d)" "map ac_email ?up = map ac_email (accounts d)"
    using assms(2) by (simp_all add: map_update_where harmless_def)
  have s: "ac_id ` set ?up = ac_id ` set (accounts d)" using m(1) by (metis set_map)
  have "account_ok a" if "a \<in> set ?up" for a
    using that assms(2,3) by (auto simp: in_set_update_where harmless_def accounts_ok_def)
  then show ?thesis using assms(3) m s by (simp add: d' accounts_ok_def keys_ok_def walleted_def)
qed

lemma insert_refresh_ok: "sql_insert_refresh r d = Inr (d', n) \<Longrightarrow> accounts_ok d \<Longrightarrow> accounts_ok d'"
  by (auto simp: sql_insert_refresh_def accounts_ok_def keys_ok_def split: if_splits)

lemma revoke_ok: "sql_revoke P d = Inr (d', n) \<Longrightarrow> accounts_ok d \<Longrightarrow> accounts_ok d'"
  by (auto simp: sql_revoke_def accounts_ok_def keys_ok_def map_update_where in_set_update_where)

lemma insert_session_ok: "sql_insert_session r d = Inr (d', n) \<Longrightarrow> accounts_ok d \<Longrightarrow> accounts_ok d'"
  by (auto simp: sql_insert_session_def accounts_ok_def keys_ok_def split: if_splits)

lemma delete_oldest_ok: "sql_delete_oldest user d = Inr (d', n) \<Longrightarrow> accounts_ok d \<Longrightarrow> accounts_ok d'"
  by (auto simp: sql_delete_oldest_def accounts_ok_def keys_ok_def distinct_map_filter split: option.splits)

lemma insert_audit_frame:
  "sql_insert_audit r u = Inr (u', n) \<Longrightarrow> users u' = users u \<and> uwallets u' = uwallets u"
  by (auto simp: sql_insert_audit_def split: if_splits)

lemma insert_account_ok:
  assumes "sql_insert_account a d = Inr (d1, n)" and "create_uwallet wid t (ac_id a) \<lparr>db = wallet_db d1, aborted = b, faults = fs\<rparr> = (Inr w, u)"
    and "accounts_ok d" and "account_ok a"
  shows "accounts_ok (d1\<lparr>wallet_db := db u\<rparr>)"
proof -
  have d1: "d1 = d\<lparr>accounts := accounts d @ [a], wallet_db := (wallet_db d)\<lparr>users := users (wallet_db d) @ [ac_id a]\<rparr>\<rparr>"
    "ac_id a \<notin> ac_id ` set (accounts d)" "ac_username a \<notin> ac_username ` set (accounts d)" "ac_email a \<notin> ac_email ` set (accounts d)"
    using assms(1) by (auto simp: sql_insert_account_def split: if_splits)
  obtain w' where w': "db u = (wallet_db d1)\<lparr>uwallets := uwallets (wallet_db d1) @ [w']\<rparr>" "uw_user w' = ac_id a"
    "uw_user w' \<notin> uw_user ` set (uwallets (wallet_db d1))"
    using assms(2) unfolding create_uwallet_def Let_def
    by (elim andthen_okE on_err_okE exec_okE) (auto simp: sql_insert_uwallet_def split: option.splits if_splits)
  show ?thesis using assms(3,4) d1 w' by (auto simp: accounts_ok_def keys_ok_def walleted_def)
qed

lemma in_wallets_okE:
  assumes "in_wallets m s = (Inr x, s')"
  obtains u where "m \<lparr>db = wallet_db (db s), aborted = aborted s, faults = faults s\<rparr> = (Inr x, u)" and "db s' = (db s)\<lparr>wallet_db := db u\<rparr>"
  using assms by (auto simp: in_wallets_def split: prod.splits)

abbreviation acc_db :: "acc_sys \<Rightarrow> accountdb" where
  "acc_db s \<equiv> db (ax_sess s)"

lemma side_effects [simp]:
  "ax_sess (publish_user_event e s) = ax_sess s" "ax_sess (snd (blacklist_jti jti ttl t s)) = ax_sess s"
  "ax_sess (snd (is_blacklisted jti t s)) = ax_sess s"
  by (simp_all add: publish_user_event_def blacklist_jti_def is_blacklisted_def Let_def split: option.splits prod.splits)

subsection \<open>Requests\<close>

datatype acc_request =
    Register auth_draw "register_request option" string string
  | Login auth_draw "(string \<times> string) option" string string
  | Refresh auth_draw "string option"
  | Logout auth_draw string "string option"
  | ChangePassword "(string \<times> string) option"
  | UpdateMe time uuid "(string \<times> string) option"
  | DeleteMe
  | DeleteSessions
  | UpdateRole time uuid "string option"
  | Ban time uuid
  | Unban time uuid
  | DeleteUser time uuid

fun acc_do :: "(string \<Rightarrow> bool) \<Rightarrow> jwt_lib \<Rightarrow> pw_lib \<Rightarrow> auth_config \<Rightarrow> acc_request \<Rightarrow> acc_sys \<Rightarrow> acc_sys" where
  "acc_do is_email lib pw cfg (Register dr body ip ua) s = snd (register_handler is_email lib pw cfg dr body ip ua s)"
| "acc_do is_email lib pw cfg (Login dr body ip ua) s = snd (login_handler is_email lib pw cfg dr body ip ua s)"
| "acc_do is_email lib pw cfg (Refresh dr body) s = snd (refresh_handler lib pw cfg dr body s)"
| "acc_do is_email lib pw cfg (Logout dr jti body) s = snd (logout_handler pw dr jti body s)"
| "acc_do is_email lib pw cfg (ChangePassword body) s = snd (change_password_handler body s)"
| "acc_do is_email lib pw cfg (UpdateMe t uid body) s = snd (update_me_handler t uid body s)"
| "acc_do is_email lib pw cfg DeleteMe s = snd (delete_me_handler s)"
| "acc_do is_email lib pw cfg DeleteSessions s = snd (delete_all_sessions_handler s)"
| "acc_do is_email lib pw cfg (UpdateRole t uid body) s = snd (update_role_handler t uid body s)"
| "acc_do is_email lib pw cfg (Ban t uid) s = snd (ban_user_handler t uid s)"
| "acc_do is_email lib pw cfg (Unban t uid) s = snd (unban_user_handler t uid s)"
| "acc_do is_email lib pw cfg (DeleteUser t uid) s = snd (delete_user_handler t uid s)"

lemma snd_status [simp]:
  "snd (case r of (Inl e, s') \<Rightarrow> ((f e, None), s') | (Inr x, s') \<Rightarrow> ((n, Some x), s')) = snd r"
  "snd (admin_done q) = snd q"
  by (auto simp: admin_done_def split: prod.splits sum.splits)

lemma snd_register_handler: "snd (register_handler is_email lib pw cfg dr body ip ua s) =
    (case body of Some req \<Rightarrow> if register_valid is_email req then snd (register lib pw cfg dr req ip ua s) else s | None \<Rightarrow> s)"
  by (auto simp: register_handler_def split: option.splits prod.splits sum.splits acc_err.splits)

lemma snd_login_handler: "snd (login_handler is_email lib pw cfg dr body ip ua s) =
    (case body of Some (email, password) \<Rightarrow> if email = [] \<or> \<not> is_email email \<or> password = [] then s
       else snd (login lib pw cfg dr email password ip ua s) | None \<Rightarrow> s)"
  by (auto simp: login_handler_def split: option.splits prod.splits sum.splits acc_err.splits)

text \<open>The digest of the refresh token a request may issue.\<close>

definition draw_fresh :: "(string \<Rightarrow> bool) \<Rightarrow> pw_lib \<Rightarrow> auth_draw \<Rightarrow> bool" where
  "draw_fresh fresh pw dr \<longleftrightarrow> (case dw_plain dr of None \<Rightarrow> True | Some p \<Rightarrow> fresh (pw_digest pw p))"

fun admissible :: "(string \<Rightarrow> bool) \<Rightarrow> pw_lib \<Rightarrow> acc_request \<Rightarrow> bool" where
  "admissible fresh pw (Register dr body ip ua) = draw_fresh fresh pw dr"
| "admissible fresh pw (Login dr body ip ua) = draw_fresh fresh pw dr"
| "admissible fresh pw (Refresh dr body) = draw_fresh fresh pw dr"
| "admissible fresh pw c = True"

subsection \<open>Keeping an invariant\<close>

definition keeps :: "(accountdb \<Rightarrow> bool) \<Rightarrow> ('e, 'a) acc_op \<Rightarrow> bool" where
  "keeps I m \<longleftrightarrow> (\<forall>s. I (db s) \<longrightarrow> I (db (snd (m s))))"

lemma keepsD: "keeps I m \<Longrightarrow> I (db s) \<Longrightarrow> I (db (snd (m s)))"
  by (simp add: keeps_def)

lemma keeps_basic [simp]: "keeps I (ret x)" "keeps I (fail e)" "keeps I (pool_query q)"
  by (auto simp: keeps_def ret_def fail_def pool_query_def split: option.splits)

lemma keeps_pool_exec: "(\<And>d d' n. f d = Inr (d', n) \<Longrightarrow> I d \<Longrightarrow> I d') \<Longrightarrow> keeps I (pool_exec f)"
  by (auto simp: keeps_def pool_exec_def split: sum.splits)

lemma keeps_on_err: "keeps I m \<Longrightarrow> keeps I (on_err f m)"
  unfolding keeps_def on_err_def by (metis (no_types, lifting) old.prod.case snd_conv sum.case_eq_if surj_pair)

lemma keeps_andthen: assumes "keeps I m" and "\<And>x. keeps I (k x)" shows "keeps I (andthen m k)"
  unfolding keeps_def
proof (intro allI impI)
  fix s :: "accountdb session" assume s: "I (db s)"
  obtain r s1 where r: "m s = (r, s1)" by fastforce
  then have "I (db s1)" using keepsD [OF assms(1) s] by simp
  then show "I (db (snd (andthen m k s)))" using r keepsD [OF assms(2)] by (cases r) (simp_all add: andthen_def)
qed

lemma keeps_if: "(b \<Longrightarrow> keeps I m) \<Longrightarrow> (\<not> b \<Longrightarrow> keeps I n) \<Longrightarrow> keeps I (if b then m else n)"
  by simp

lemma keeps_queries [simp]: "keeps I (find_by_email e)" "keeps I (find_by_id u)" "keeps I (find_valid t h)" "keeps I (count_by_user u)" "keeps I (active_count t)"
  by (simp_all add: find_by_email_def find_by_id_def find_valid_def count_by_user_def active_count_def keeps_on_err)

lemma keeps_refusal [simp]: "keeps I (\<lambda>s. (Inl (f s), Session.tick s))"
  by (simp add: keeps_def)

lemma keeps_list_users [simp]: "keeps I (list_users page limit role search)"
  unfolding list_users_def by (intro keeps_andthen keeps_if) (simp_all add: keeps_on_err)

subsection \<open>Invariants of the tables\<close>

text \<open>
  What a property of the tables has to survive for every request to keep it: the statements that the repositories send. A property may
  restrict the digests of the refresh tokens that are issued.
\<close>

locale table_invariant =
  fixes I :: "accountdb \<Rightarrow> bool"
    and fresh :: "string \<Rightarrow> bool"
  assumes update: "sql_update_account uid f d = Inr (d', n) \<Longrightarrow> harmless f \<Longrightarrow> I d \<Longrightarrow> I d'"
    and insert_refresh: "sql_insert_refresh r d = Inr (d', n) \<Longrightarrow> fresh (rt_hash r) \<Longrightarrow> I d \<Longrightarrow> I d'"
    and revokes: "sql_revoke P d = Inr (d', n) \<Longrightarrow> I d \<Longrightarrow> I d'"
    and insert_session: "sql_insert_session q d = Inr (d', n) \<Longrightarrow> I d \<Longrightarrow> I d'"
    and deletes_oldest: "sql_delete_oldest user d = Inr (d', n) \<Longrightarrow> I d \<Longrightarrow> I d'"
    and audited: "sql_insert_audit l (wallet_db d) = Inr (u, n) \<Longrightarrow> I d \<Longrightarrow> I (d\<lparr>wallet_db := u\<rparr>)"
    and registered: "sql_insert_account a d = Inr (d', n) \<Longrightarrow>
      create_uwallet wid t (ac_id a) \<lparr>db = wallet_db d', aborted = b, faults = fs\<rparr> = (Inr w, v) \<Longrightarrow> I d \<Longrightarrow> account_ok a \<Longrightarrow>
      I (d'\<lparr>wallet_db := db v\<rparr>)"
begin

lemma keeps_update_account: "harmless f \<Longrightarrow> keeps I (update_account uid f)"
  unfolding update_account_def
  by (rule keeps_andthen [OF keeps_on_err [OF keeps_pool_exec]]) (auto intro: update)

lemma profile: "sql_update_profile t uid fname lname d = Inr (d', n) \<Longrightarrow> I d \<Longrightarrow> I d'"
  using update [of uid "\<lambda>a. a\<lparr>ac_first := fname, ac_last := lname, ac_updated := t\<rparr>" d d' n]
  by (auto simp: sql_update_profile_def harmless_def account_ok_def split: sum.splits if_splits)

lemma keeps_updates [simp]:
  "keeps I (update_profile t uid fname lname)" "is_valid_role role \<Longrightarrow> keeps I (update_role t uid role)" "keeps I (set_active t uid b)"
  "keeps I (soft_delete t uid)" "fresh hash \<Longrightarrow> keeps I (refresh_create rid t user hash e)" "keeps I (revoke rid)" "keeps I (session_create r)" "keeps I (delete_oldest user)"
proof -
  show "keeps I (update_profile t uid fname lname)"
    unfolding update_profile_def
    by (rule keeps_andthen [OF keeps_on_err [OF keeps_pool_exec]]) (auto intro: profile)
  show "is_valid_role role \<Longrightarrow> keeps I (update_role t uid role)"
    unfolding update_role_def by (rule keeps_update_account) (auto simp: harmless_def account_ok_def is_valid_role_def list_ex_iff)
  show "keeps I (set_active t uid b)" "keeps I (soft_delete t uid)"
    unfolding set_active_def soft_delete_def by (rule keeps_update_account, auto simp: harmless_def account_ok_def)+
  show "fresh hash \<Longrightarrow> keeps I (refresh_create rid t user hash e)" "keeps I (revoke rid)" "keeps I (session_create r)" "keeps I (delete_oldest user)"
    unfolding refresh_create_def revoke_def session_create_def delete_oldest_def Let_def
    by (rule keeps_andthen [OF keeps_on_err [OF keeps_pool_exec]], auto intro: insert_refresh revokes insert_session deletes_oldest)+
qed

lemma keeps_session_loop [simp]: "keeps I (session_loop user n most)"
proof -
  have "I (db s) \<Longrightarrow> I (db (snd (session_loop user n most s)))" for s
  proof (induction user n most s rule: session_loop.induct)
    case (1 user n most s)
    obtain r s1 where r: "delete_oldest user s = (r, s1)" by fastforce
    then have "I (db s1)" using keepsD [of I "delete_oldest user" s] 1(2) by simp
    then show ?case using 1 r by (cases r) (auto simp: session_loop.simps [of user n most s])
  qed
  then show ?thesis by (simp add: keeps_def)
qed

lemma keeps_ensure_session_limit [simp]: "keeps I (ensure_session_limit user most)"
  unfolding ensure_session_limit_def by (rule keeps_andthen) simp_all

lemma keeps_audit [simp]: "keeps I (in_wallets (pool_exec (sql_insert_audit r)))"
  unfolding keeps_def
proof (intro allI impI)
  fix s :: "accountdb session" assume s: "I (db s)"
  show "I (db (snd (in_wallets (pool_exec (sql_insert_audit r)) s)))"
  proof (cases "next_fault s")
    case True
    then show ?thesis using s by (simp add: in_wallets_def pool_exec_def next_fault_def Session.tick_def)
  next
    case False
    then show ?thesis using s audited [of r "db s"]
      by (cases "sql_insert_audit r (wallet_db (db s))") (auto simp: in_wallets_def pool_exec_def next_fault_def Session.tick_def)
  qed
qed

lemma keeps_register_tx: assumes "account_ok a" shows "keeps I (register_tx dr a)"
  unfolding keeps_def
proof (intro allI impI)
  fix s :: "accountdb session" assume s: "I (db s)"
  obtain r s' where r: "register_tx dr a s = (r, s')" by fastforce
  show "I (db (snd (register_tx dr a s)))"
  proof (cases r)
    case (Inl e)
    then show ?thesis using with_tx_error [OF r [unfolded register_tx_def Inl]] r s by simp
  next
    case (Inr w)
    obtain s2 where body: "andthen (create_account a) (\<lambda>_. on_wallet_err (in_wallets (create_uwallet (dw_wallet dr) (dw_now dr) (ac_id a))))
        ((Session.tick s)\<lparr>aborted := False\<rparr>) = (Inr w, s2)" "db s' = db s2"
      using with_tx_okE [OF r [unfolded register_tx_def Inr]] by metis
    obtain x s1 where s1: "create_account a ((Session.tick s)\<lparr>aborted := False\<rparr>) = (Inr x, s1)"
      "on_wallet_err (in_wallets (create_uwallet (dw_wallet dr) (dw_now dr) (ac_id a))) s1 = (Inr w, s2)"
      using body(1) by (elim andthen_okE)
    obtain d1 n where d1: "sql_insert_account a (db s) = Inr (d1, n)" "db s1 = d1"
      using s1(1) unfolding create_account_def by (elim andthen_okE on_err_okE exec_okE) auto
    have "in_wallets (create_uwallet (dw_wallet dr) (dw_now dr) (ac_id a)) s1 = (Inr w, s2)"
      using s1(2) by (auto simp: on_wallet_err_def split: prod.splits sum.splits)
    then obtain u where "create_uwallet (dw_wallet dr) (dw_now dr) (ac_id a) \<lparr>db = wallet_db d1, aborted = aborted s1, faults = faults s1\<rparr> = (Inr w, u)"
      "db s2 = d1\<lparr>wallet_db := db u\<rparr>"
      using d1(2) by (elim in_wallets_okE) auto
    then show ?thesis using registered [OF d1(1) _ s assms] r body(2) by simp
  qed
qed

lemma on_accounts_keeps: "keeps I m \<Longrightarrow> I (acc_db s) \<Longrightarrow> I (acc_db (snd (on_accounts m s)))"
  by (simp add: on_accounts_def keeps_def split: prod.splits) (metis snd_conv)

lemma on_accounts_keepsD: "on_accounts m s = (r, s') \<Longrightarrow> keeps I m \<Longrightarrow> I (acc_db s) \<Longrightarrow> I (acc_db s')"
  using on_accounts_keeps [of m s] by simp

text \<open>The two ways on after an operation on the tables.\<close>

lemma case_keeps:
  assumes "keeps I m" and "I (acc_db s)"
    and "\<And>e s1. I (acc_db s1) \<Longrightarrow> P (f e s1)" and "\<And>x s1. I (acc_db s1) \<Longrightarrow> P (g x s1)"
  shows "P (case on_accounts m s of (Inl e, s1) \<Rightarrow> f e s1 | (Inr x, s1) \<Rightarrow> g x s1)"
proof -
  obtain r s1 where r: "on_accounts m s = (r, s1)" by fastforce
  then show ?thesis using on_accounts_keepsD [OF r assms(1,2)] assms(3,4) by (cases r) simp_all
qed

lemmas then_keeps = case_keeps [where P = "\<lambda>p. I (acc_db (snd p))"]

lemma account_audit_keeps [simp]: "I (acc_db s) \<Longrightarrow> I (acc_db (audit dr u act s))"
  by (simp add: audit_def on_accounts_keeps)

lemma record_session_keeps [simp]: "I (acc_db s) \<Longrightarrow> I (acc_db (record_session cfg dr u ip ua s))"
  by (simp add: record_session_def on_accounts_keeps)

lemma issue_tokens_keeps: "draw_fresh fresh pw dr \<Longrightarrow> I (acc_db s) \<Longrightarrow> I (acc_db (snd (issue_tokens lib pw cfg dr a ip ua s)))"
  unfolding issue_tokens_def Let_def
  by (cases "issue_access_token lib cfg (dw_now dr) (dw_jti dr) a"; cases "dw_plain dr")
    (simp_all add: generate_refresh_def draw_fresh_def, rule then_keeps, simp_all)

lemma account_register_keeps:
  assumes "I (acc_db s)" and fr: "draw_fresh fresh pw dr" shows "I (acc_db (snd (register lib pw cfg dr req ip ua s)))"
proof (cases "hash_password pw (dw_salt dr) (rr_password req) (cf_cost cfg)")
  case None
  then show ?thesis using assms by (simp add: register_def)
next
  case (Some hash)
  let ?a = "new_account dr hash req"
  obtain r s1 where r: "on_accounts (register_tx dr ?a) s = (r, s1)" by fastforce
  have "account_ok ?a" by (simp add: account_ok_def new_account_def all_roles_def)
  then have "I (acc_db s1)" using on_accounts_keepsD [OF r keeps_register_tx assms(1)] by simp
  then show ?thesis using Some r by (cases r) (simp_all add: register_def Let_def issue_tokens_keeps fr)
qed

lemma login_keeps: "draw_fresh fresh pw dr \<Longrightarrow> I (acc_db s) \<Longrightarrow> I (acc_db (snd (login lib pw cfg dr email password ip ua s)))"
  unfolding login_def by (rule then_keeps) (simp_all add: Let_def issue_tokens_keeps)

lemma refresh_found_keeps: "draw_fresh fresh pw dr \<Longrightarrow> I (acc_db s) \<Longrightarrow> I (acc_db (snd (refresh_found lib pw cfg dr rt s)))"
  unfolding refresh_found_def by (intro then_keeps) (simp_all add: issue_tokens_keeps)

lemma refresh_keeps: "draw_fresh fresh pw dr \<Longrightarrow> I (acc_db s) \<Longrightarrow> I (acc_db (snd (refresh lib pw cfg dr plain s)))"
  unfolding refresh_def by (rule then_keeps) (simp_all add: refresh_found_keeps)

lemma logout_keeps: assumes "I (acc_db s)" shows "I (acc_db (logout pw dr jti ttl plain s))"
proof -
  let ?s1 = "if jti = [] then s else snd (blacklist_jti jti ttl (dw_now dr) s)"
  have s1: "I (acc_db ?s1)" using assms by simp
  have "I (acc_db (case on_accounts (find_valid (dw_now dr) (pw_digest pw plain)) ?s1 of
          (Inl e, s2) \<Rightarrow> s2
        | (Inr rt, s2) \<Rightarrow> audit dr (rt_user rt) ''USER_LOGGED_OUT'' (snd (on_accounts (revoke (rt_id rt)) s2))))"
    by (rule case_keeps [where P = "\<lambda>s. I (acc_db s)", OF _ s1]) (simp_all add: on_accounts_keeps)
  then show ?thesis using s1 by (simp add: logout_def Let_def)
qed

lemma update_me_keeps: "I (acc_db s) \<Longrightarrow> I (acc_db (snd (update_me t uid fname lname s)))"
  unfolding update_me_def Let_def by (intro then_keeps) simp_all

lemma get_me_keeps: "I (acc_db s) \<Longrightarrow> I (acc_db (snd (get_me uid s)))"
  unfolding get_me_def by (rule then_keeps) simp_all

lemma acc_do_keeps: "admissible fresh pw c \<Longrightarrow> I (acc_db s) \<Longrightarrow> I (acc_db (acc_do is_email lib pw cfg c s))"
  by (cases c)
    (auto simp: snd_register_handler snd_login_handler account_register_keeps login_keeps refresh_handler_def refresh_keeps logout_handler_def logout_keeps
      change_password_handler_def update_me_handler_def update_me_keeps delete_me_handler_def delete_all_sessions_handler_def update_role_handler_def
      ban_user_handler_def unban_user_handler_def delete_user_handler_def on_accounts_keeps split: option.splits prod.splits)

lemma requests_keep: "\<forall>c \<in> set cs. admissible fresh pw c \<Longrightarrow> I (acc_db s) \<Longrightarrow> I (acc_db (fold (acc_do is_email lib pw cfg) cs s))"
  by (induction cs arbitrary: s) (auto simp: acc_do_keeps)

end

end
