(* ===== verification/AccountsSpec.thy ===== *)
theory AccountsSpec
  imports AccountsInv JwtSpec
begin

text \<open>
  What the accounts guarantee: the tables stay sound, a login is answered with tokens of the account whose password was given, a refresh
  token is used once, and the number of sessions is bounded; and what a ban, a race of two refreshes and a
  failure after the registration leave behind.
\<close>

lemma insert_audit_ok: "sql_insert_audit l (wallet_db d) = Inr (u, n) \<Longrightarrow> accounts_ok d \<Longrightarrow> accounts_ok (d\<lparr>wallet_db := u\<rparr>)"
  using insert_audit_frame [of l "wallet_db d" u n] by (simp add: accounts_ok_def keys_ok_def walleted_def)

interpretation sound: table_invariant accounts_ok "\<lambda>_. True"
proof unfold_locales
qed (fact update_account_ok insert_refresh_ok revoke_ok insert_session_ok delete_oldest_ok insert_audit_ok insert_account_ok |
  (rule insert_refresh_ok, assumption+))+

lemma all_admissible [simp]: "admissible (\<lambda>_. True) pw c"
  by (cases c) (auto simp: draw_fresh_def split: option.splits)

text \<open>C12: Whatever requests come in, in any order, and whichever statements fail: user names and e-mail addresses stay unique, every account has
  exactly one wallet and one of the three roles, a deleted account is not active, and every session and refresh token belongs to an account.\<close>

theorem accounts_kept:
  assumes "accounts_ok (acc_db s)"
  shows "accounts_ok (acc_db (fold (acc_do is_email lib pw cfg) cs s))"
  by (rule sound.requests_keep) (simp_all add: assms)

text \<open>A password library whose hashes are the password itself, and a service without accounts.\<close>

definition sample_pw :: pw_lib where
  "sample_pw = \<lparr>pw_hash = (\<lambda>cost salt p. Some p), pw_verify = (\<lambda>h p. h = p), pw_digest = (\<lambda>p. p)\<rparr>"

definition sample_config :: auth_config where
  "sample_config = \<lparr>cf_secret = ''secret'', cf_access_min = 15, cf_refresh_days = 7, cf_cost = 14, cf_sessions = 2\<rparr>"

definition no_accounts :: acc_sys where
  "no_accounts = \<lparr>ax_sess = \<lparr>db = \<lparr>wallet_db = \<lparr>users = [], uwallets = [], utxns = [], audit_logs = []\<rparr>, accounts = [], refresh_tokens = [],
     user_sessions = []\<rparr>, aborted = False, faults = []\<rparr>, ax_redis = None, ax_events = [], ax_broker = []\<rparr>"

lemma no_accounts_ok: "accounts_ok (acc_db no_accounts)"
  by (simp add: no_accounts_def accounts_ok_def keys_ok_def walleted_def)

definition ann :: account where
  "ann = \<lparr>ac_id = ''u1'', ac_username = ''ann'', ac_email = ''ann@x'', ac_hash = ''pw'', ac_first = ''Ann'', ac_last = ''Lee'', ac_role = role_seller,
     ac_verified = False, ac_active = True, ac_created = 0, ac_updated = 0, ac_deleted = None\<rparr>"

definition ann_wallet :: "int uwallet" where
  "ann_wallet = \<lparr>uw_id = ''w1'', uw_user = ''u1'', uw_balance = 0, uw_currency = ''USD'', uw_created = 0, uw_updated = 0\<rparr>"

definition ann_token :: refresh_row where
  "ann_token = \<lparr>rt_id = ''r1'', rt_user = ''u1'', rt_hash = ''t1'', rt_expires = 7 * 24 * hour, rt_revoked = False, rt_created = 0\<rparr>"

definition with_ann :: acc_sys where
  "with_ann = no_accounts\<lparr>ax_sess := (ax_sess no_accounts)\<lparr>db := (acc_db no_accounts)\<lparr>
     wallet_db := (wallet_db (acc_db no_accounts))\<lparr>users := [''u1''], uwallets := [ann_wallet]\<rparr>, accounts := [ann], refresh_tokens := [ann_token]\<rparr>\<rparr>\<rparr>"

definition draw :: "string \<Rightarrow> time \<Rightarrow> auth_draw" where
  "draw n t = \<lparr>dw_user = n, dw_wallet = n, dw_audit = n, dw_session = n, dw_jti = n, dw_refresh = n, dw_salt = n, dw_plain = Some n, dw_now = t\<rparr>"

lemmas ann_defs = with_ann_def no_accounts_def ann_def ann_wallet_def ann_token_def

lemma with_ann_ok: "accounts_ok (acc_db with_ann)"
  by (simp add: ann_defs accounts_ok_def keys_ok_def walleted_def account_ok_def all_roles_def)

theorem accounts_kept_witness:
  "accounts_ok (acc_db (fold (acc_do (\<lambda>e. CHR ''@'' \<in> set e) sample_jwt sample_pw sample_config)
     [Register (draw ''u2'' 1) (Some \<lparr>rr_username = ''bob'', rr_email = ''bob@x'', rr_password = ''12345678'', rr_first = ''Bob'', rr_last = ''Ray'',
        rr_role = ''admin''\<rparr>) ''ip'' ''ua'', Ban 2 ''u2''] no_accounts))"
  by (rule accounts_kept [OF no_accounts_ok])

subsection \<open>Tokens are issued for the account\<close>

lemma on_accounts_okE:
  assumes "on_accounts m s = (Inr x, s')"
  obtains ss where "m (ax_sess s) = (Inr x, ss)" and "s' = s\<lparr>ax_sess := ss\<rparr>"
  using assms by (auto simp: on_accounts_def split: prod.splits)

lemma refresh_createE:
  assumes "refresh_create rid t user hash e s = (Inr r, s')"
  shows "refresh_tokens (db s') = refresh_tokens (db s) @
    [\<lparr>rt_id = rid, rt_user = user, rt_hash = hash, rt_expires = e, rt_revoked = False, rt_created = t\<rparr>]"
  using assms by (auto simp: refresh_create_def Let_def andthen_def on_err_def pool_exec_def sql_insert_refresh_def ret_def Session.tick_def
      split: prod.splits sum.splits if_splits)

lemma issue_tokens_okE:
  assumes "issue_tokens lib pw cfg dr a ip ua s = (Inr resp, s')"
  shows "issue_access_token lib cfg (dw_now dr) (dw_jti dr) a = Some (ar_access resp) \<and> dw_plain dr = Some (ar_refresh resp) \<and>
    ar_user resp = to_user_response a \<and>
    \<lparr>rt_id = dw_refresh dr, rt_user = ac_id a, rt_hash = pw_digest pw (ar_refresh resp), rt_expires = refresh_expires_at cfg (dw_now dr),
      rt_revoked = False, rt_created = dw_now dr\<rparr> \<in> set (refresh_tokens (acc_db s'))"
  using assms by (auto simp: issue_tokens_def Let_def generate_refresh_def dest!: refresh_createE elim!: on_accounts_okE
      split: option.splits prod.splits sum.splits)

lemma issued_parses:
  assumes "jwt_ok lib" and "issue_access_token lib cfg t0 jti a = Some tok" and "t + second \<le> t0 + access_ttl cfg"
  shows "\<exists>c. parse_access_token lib cfg t tok = Inr c \<and> cl_user c = ac_id a \<and> cl_role c = ac_role a \<and> cl_jti c = jti"
proof -
  have "in_time t (user_claims lib cfg t0 jti a) = Inr (user_claims lib cfg t0 jti a)"
    using expiry_rounded(2) [OF assms(1,3)] by (simp add: in_time_Inr user_claims_def no_claims_def)
  then show ?thesis using jwt_ok_parse [OF assms(1) assms(2) [unfolded issue_access_token_def]]
    by (simp add: parse_access_token_def user_view_def user_claims_def)
qed

lemma find_by_email_okE:
  assumes "find_by_email email s = (Inr a, s')"
  shows "a \<in> set (accounts (db s)) \<and> ac_email a = email \<and> ac_deleted a = None"
  using assms by (auto simp: find_by_email_def on_err_def pool_query_def split: prod.splits sum.splits if_splits option.splits dest: find_SomeD)

text \<open>Without faults tokens are issued, and a request that has found a token is answered: nothing of the row is looked at again.\<close>

definition can_issue :: "auth_draw \<Rightarrow> uuid \<Rightarrow> acc_sys \<Rightarrow> bool" where
  "can_issue dr user s \<longleftrightarrow> faults (ax_sess s) = [] \<and> dw_plain dr \<noteq> None \<and> user \<in> ac_id ` set (accounts (acc_db s)) \<and>
     dw_refresh dr \<notin> rt_id ` set (refresh_tokens (acc_db s))"

lemma refresh_create_run:
  assumes "faults s = []" and "rid \<notin> rt_id ` set (refresh_tokens (db s))" and "user \<in> ac_id ` set (accounts (db s))"
  shows "\<exists>s'. refresh_create rid t user hash e s = (Inr \<lparr>rt_id = rid, rt_user = user, rt_hash = hash, rt_expires = e, rt_revoked = False, rt_created = t\<rparr>, s')"
  using assms by (simp add: refresh_create_def Let_def andthen_def on_err_def pool_exec_def sql_insert_refresh_def ret_def)

lemma issue_tokens_answers:
  assumes "jwt_ok lib" and "can_issue dr (ac_id a) s"
  shows "\<exists>resp s'. issue_tokens lib pw cfg dr a [] ua s = (Inr resp, s')"
proof -
  obtain tok where tok: "issue_access_token lib cfg (dw_now dr) (dw_jti dr) a = Some tok"
    unfolding issue_access_token_def using jwt_ok_signs [OF assms(1)] by blast
  obtain p where p: "dw_plain dr = Some p" using assms(2) by (auto simp: can_issue_def)
  obtain row s' where "refresh_create (dw_refresh dr) (dw_now dr) (ac_id a) (pw_digest pw p) (refresh_expires_at cfg (dw_now dr)) (ax_sess s) = (Inr row, s')"
    using refresh_create_run [of "ax_sess s" "dw_refresh dr" "ac_id a"] assms(2) unfolding can_issue_def by blast
  then show ?thesis using tok p by (simp add: issue_tokens_def record_session_def generate_refresh_def on_accounts_def Let_def)
qed

lemma refresh_found_answers:
  assumes "jwt_ok lib" and "can_issue dr (rt_user rt) s"
    and "find (\<lambda>a. ac_id a = rt_user rt \<and> ac_deleted a = None) (accounts (acc_db s)) = Some a"
  shows "\<exists>resp s'. refresh_found lib pw cfg dr rt s = (Inr resp, s')"
proof -
  obtain s1 where s1: "on_accounts (revoke (rt_id rt)) s = (Inr (), s1)" "faults (ax_sess s1) = []" "accounts (acc_db s1) = accounts (acc_db s)"
      "rt_id ` set (refresh_tokens (acc_db s1)) = rt_id ` set (refresh_tokens (acc_db s))"
    using assms(2) by (auto simp: can_issue_def on_accounts_def revoke_def andthen_def on_err_def pool_exec_def sql_revoke_def ret_def keys_update_where)
  have "on_accounts (find_by_id (rt_user rt)) s1 = (Inr a, s1)"
    using s1(2,3) assms(3) by (simp add: on_accounts_def find_by_id_def on_err_def pool_query_run)
  moreover have "can_issue dr (ac_id a) s1"
    using assms(2,3) s1(2,3,4) find_SomeD(1) [OF assms(3)] by (simp add: can_issue_def)
  then obtain resp s' where "issue_tokens lib pw cfg dr a [] [] s1 = (Inr resp, s')" using issue_tokens_answers [OF assms(1)] by blast
  ultimately show ?thesis using s1(1) by (simp add: refresh_found_def)
qed

text \<open>C17: A login that is answered with tokens was for an account with that e-mail address that is active and not deleted, with its password;
  the access token is accepted for its life, as that user with the role of the account, and the refresh token is stored for the user.\<close>

theorem login_sound:
  assumes "jwt_ok lib" and "login lib pw cfg dr email password ip ua s = (Inr resp, s')" and "t + second \<le> dw_now dr + access_ttl cfg"
  shows "\<exists>a \<in> set (accounts (acc_db s)). ac_email a = email \<and> ac_active a \<and> ac_deleted a = None \<and> pw_verify pw (ac_hash a) password \<and>
    (\<exists>c. parse_access_token lib cfg t (ar_access resp) = Inr c \<and> cl_user c = ac_id a \<and> cl_role c = ac_role a) \<and>
    (\<exists>r \<in> set (refresh_tokens (acc_db s')). rt_user r = ac_id a \<and> rt_hash r = pw_digest pw (ar_refresh resp) \<and> \<not> rt_revoked r \<and>
       rt_expires r = refresh_expires_at cfg (dw_now dr))"
proof -
  obtain a s1 s3 where a: "find_by_email email (ax_sess s) = (Inr a, s1)" "ac_active a" "verify_password pw (ac_hash a) password"
      "issue_tokens lib pw cfg dr a ip ua s3 = (Inr resp, s')"
    using assms(2) by (auto simp: login_def Let_def on_accounts_def split: prod.splits sum.splits if_splits)
  have found: "a \<in> set (accounts (acc_db s))" "ac_email a = email" "ac_deleted a = None" using find_by_email_okE [OF a(1)] by simp_all
  have iss: "issue_access_token lib cfg (dw_now dr) (dw_jti dr) a = Some (ar_access resp)"
    and row: "\<lparr>rt_id = dw_refresh dr, rt_user = ac_id a, rt_hash = pw_digest pw (ar_refresh resp), rt_expires = refresh_expires_at cfg (dw_now dr),
      rt_revoked = False, rt_created = dw_now dr\<rparr> \<in> set (refresh_tokens (acc_db s'))"
    using issue_tokens_okE [OF a(4)] by simp_all
  show ?thesis
    by (rule bexI [OF _ found(1)]) (use a(2,3) found issued_parses [OF assms(1) iss assms(3)] row in \<open>force simp: verify_password_def\<close>)
qed

lemma with_ann_issues: "can_issue (draw n t) ''u1'' with_ann \<longleftrightarrow> n \<noteq> ''r1''"
  by (auto simp: can_issue_def draw_def ann_defs)

lemma ann_logs_in: "\<exists>resp s'. login sample_jwt sample_pw sample_config (draw ''n'' 5) ''ann@x'' ''pw'' [] ua with_ann = (Inr resp, s')"
proof -
  let ?s = "publish_user_event \<lparr>ue_type = ''USER_LOGGED_IN'', ue_user = ''u1'', ue_email = ''ann@x'', ue_role = [],
                     ue_wallet = [], ue_time = 5 div second\<rparr> (audit (draw ''n'' 5) ''u1'' ''USER_LOGGED_IN'' with_ann)"
  have "login sample_jwt sample_pw sample_config (draw ''n'' 5) ''ann@x'' ''pw'' [] ua with_ann =
      issue_tokens sample_jwt sample_pw sample_config (draw ''n'' 5) ann [] ua ?s"
    by (simp add: login_def on_accounts_def find_by_email_def on_err_def pool_query_run ann_defs verify_password_def sample_pw_def Let_def draw_def)
  moreover have "can_issue (draw ''n'' 5) (ac_id ann) ?s"
    by (simp add: can_issue_def draw_def audit_def on_accounts_def in_wallets_def pool_exec_def sql_insert_audit_def ann_defs next_fault_def)
  ultimately show ?thesis using issue_tokens_answers [OF sample_jwt_ok] by simp
qed

theorem login_sound_witness:
  "\<exists>a \<in> set (accounts (acc_db with_ann)). ac_email a = ''ann@x'' \<and> pw_verify sample_pw (ac_hash a) ''pw''"
proof -
  obtain resp s' where "login sample_jwt sample_pw sample_config (draw ''n'' 5) ''ann@x'' ''pw'' [] ''ua'' with_ann = (Inr resp, s')"
    using ann_logs_in by blast
  from login_sound [OF sample_jwt_ok this, of 5] show ?thesis
    by (force simp: draw_def access_ttl_def sample_config_def minute_def second_def)
qed

subsection \<open>A refresh token is used once\<close>

definition spent :: "string \<Rightarrow> accountdb \<Rightarrow> bool" where
  "spent h d \<longleftrightarrow> (\<forall>r \<in> set (refresh_tokens d). rt_hash r = h \<longrightarrow> rt_revoked r)"

lemma spent_frame [simp]: "spent h (d\<lparr>accounts := x\<rparr>) = spent h d" "spent h (d\<lparr>user_sessions := y\<rparr>) = spent h d"
    "spent h (d\<lparr>wallet_db := z\<rparr>) = spent h d"
  by (simp_all add: spent_def)

interpretation spending: table_invariant "spent h" "\<lambda>x. x \<noteq> h" for h
proof unfold_locales
  show "sql_insert_account a d = Inr (d', n) \<Longrightarrow> create_uwallet wid t (ac_id a) \<lparr>db = wallet_db d', aborted = b, faults = fs\<rparr> = (Inr w, v) \<Longrightarrow>
      spent h d \<Longrightarrow> account_ok a \<Longrightarrow> spent h (d'\<lparr>wallet_db := db v\<rparr>)" for a d d' n wid t b fs w v
    by (auto simp: sql_insert_account_def split: if_splits)
qed (auto simp: sql_update_account_def sql_insert_refresh_def sql_revoke_def sql_insert_session_def sql_delete_oldest_def Let_def spent_def in_set_update_where
    split: if_splits option.splits)

lemma find_valid_okE:
  assumes "find_valid t hash s = (Inr r, s')"
  shows "r \<in> set (refresh_tokens (db s)) \<and> usable t hash r \<and> db s' = db s"
  using assms by (auto simp: find_valid_def on_err_def pool_query_def split: prod.splits sum.splits if_splits option.splits dest: find_SomeD)

lemma revoke_okE:
  assumes "revoke rid s = (Inr u, s')"
  shows "refresh_tokens (db s') = update_where (\<lambda>r. rt_id r = rid) (\<lambda>r. r\<lparr>rt_revoked := True\<rparr>) (refresh_tokens (db s))"
  using assms by (auto simp: revoke_def andthen_def on_err_def pool_exec_def sql_revoke_def ret_def split: prod.splits sum.splits if_splits)

lemma refresh_spends:
  assumes "refresh lib pw cfg dr plain s = (Inr resp, s')"
    and "distinct (map rt_hash (refresh_tokens (acc_db s)))" and "draw_fresh (\<lambda>x. x \<noteq> pw_digest pw plain) pw dr"
  shows "spent (pw_digest pw plain) (acc_db s')"
proof -
  let ?h = "pw_digest pw plain"
  obtain rt ss where f: "find_valid (dw_now dr) ?h (ax_sess s) = (Inr rt, ss)"
      "refresh_found lib pw cfg dr rt (s\<lparr>ax_sess := ss\<rparr>) = (Inr resp, s')"
    using assms(1) by (auto simp: refresh_def on_accounts_def split: prod.splits sum.splits)
  obtain u ss1 where r: "revoke (rt_id rt) ss = (Inr u, ss1)"
    using f(2) by (auto simp: refresh_found_def on_accounts_def split: prod.splits sum.splits)
  have rt: "rt \<in> set (refresh_tokens (acc_db s))" "rt_hash rt = ?h" "db ss = acc_db s"
    using find_valid_okE [OF f(1)] by (simp_all add: usable_def)
  have "rt_revoked q" if q: "q \<in> set (refresh_tokens (db ss1))" "rt_hash q = ?h" for q
  proof -
    have "q' = rt" if "q' \<in> set (refresh_tokens (acc_db s))" "rt_hash q' = ?h" for q'
      using assms(2) rt(1,2) that by (metis distinct_map inj_onD)
    then show ?thesis using q by (auto simp: revoke_okE [OF r] rt(3) in_set_update_where)
  qed
  then have "spent ?h (db ss1)" by (simp add: spent_def)
  moreover have "snd (refresh_found lib pw cfg dr rt (s\<lparr>ax_sess := ss\<rparr>)) = s'" using f(2) by simp
  moreover have "spent ?h (acc_db (snd (case on_accounts (find_by_id (rt_user rt)) (s\<lparr>ax_sess := ss1\<rparr>) of
          (Inl e, s2) \<Rightarrow> (Inl InvalidRefresh, s2)
        | (Inr a, s2) \<Rightarrow> issue_tokens lib pw cfg dr a [] [] s2)))" if "spent ?h (db ss1)"
    by (rule spending.then_keeps) (simp_all add: that spending.issue_tokens_keeps [OF assms(3)])
  ultimately show ?thesis using r by (simp add: refresh_found_def on_accounts_def)
qed

lemma spent_refused:
  assumes "spent (pw_digest pw plain) (acc_db s)" shows "fst (refresh lib pw cfg dr plain s) = Inl InvalidRefresh"
proof -
  have "find (usable (dw_now dr) (pw_digest pw plain)) (refresh_tokens (acc_db s)) = None"
    using assms by (auto simp: find_None_iff usable_def spent_def)
  then show ?thesis by (simp add: refresh_def on_accounts_def find_valid_def on_err_def pool_query_def)
qed

text \<open>C18: A refresh token is used once: after a refresh that was answered, the same token is refused for good, whatever other requests
  came in between and whichever statements fail, as long as no digest of a new token collides with the old one.\<close>

theorem refresh_single_use:
  assumes "refresh lib pw cfg dr plain s = (Inr resp, s')"
    and "distinct (map rt_hash (refresh_tokens (acc_db s)))" and "draw_fresh (\<lambda>x. x \<noteq> pw_digest pw plain) pw dr"
    and "\<forall>c \<in> set cs. admissible (\<lambda>x. x \<noteq> pw_digest pw plain) pw c"
  shows "fst (refresh lib pw cfg dr' plain (fold (acc_do is_email lib pw cfg) cs s')) = Inl InvalidRefresh"
  by (rule spent_refused [OF spending.requests_keep [OF assms(4) refresh_spends [OF assms(1-3)]]])

lemma ann_refreshes: "\<exists>resp s'. refresh sample_jwt sample_pw sample_config (draw ''n'' 5) ''t1'' with_ann = (Inr resp, s')"
proof -
  have "refresh sample_jwt sample_pw sample_config (draw ''n'' 5) ''t1'' with_ann =
      refresh_found sample_jwt sample_pw sample_config (draw ''n'' 5) ann_token with_ann"
    by (simp add: refresh_def on_accounts_def find_valid_def on_err_def pool_query_run ann_defs sample_pw_def usable_def draw_def hour_def minute_def second_def)
  moreover have "find (\<lambda>a. ac_id a = rt_user ann_token \<and> ac_deleted a = None) (accounts (acc_db with_ann)) = Some ann"
    by (simp add: ann_defs)
  ultimately show ?thesis
    using refresh_found_answers [OF sample_jwt_ok, of "draw ''n'' 5" ann_token with_ann] with_ann_issues [of "''n''" 5] by (simp add: ann_token_def)
qed

theorem refresh_single_use_witness:
  "fst (refresh sample_jwt sample_pw sample_config (draw ''m'' 9) ''t1''
     (fold (acc_do (\<lambda>e. True) sample_jwt sample_pw sample_config) [Unban 6 ''u1'', Login (draw ''l'' 7) (Some (''ann@x'', ''pw'')) ''ip'' ''ua'']
       (snd (refresh sample_jwt sample_pw sample_config (draw ''n'' 5) ''t1'' with_ann)))) = Inl InvalidRefresh"
proof -
  obtain resp s' where s': "refresh sample_jwt sample_pw sample_config (draw ''n'' 5) ''t1'' with_ann = (Inr resp, s')"
    using ann_refreshes by blast
  show ?thesis unfolding s' snd_conv
    by (rule refresh_single_use [OF s']) (simp_all add: ann_defs draw_fresh_def draw_def sample_pw_def)
qed

text \<open>Two requests that both found the token before either revoked it are both answered.\<close>

lemma race_answers_twice:
  assumes "jwt_ok lib" and "can_issue dr (rt_user rt) s"
    and "find (\<lambda>a. ac_id a = rt_user rt \<and> ac_deleted a = None) (accounts (acc_db s)) = Some a"
    and "refresh_found lib pw cfg dr rt s = (Inr resp, s')" and "can_issue dr' (rt_user rt) s'"
    and "find (\<lambda>a. ac_id a = rt_user rt \<and> ac_deleted a = None) (accounts (acc_db s')) = Some a"
  shows "\<exists>resp' s''. refresh_found lib pw cfg dr' rt s' = (Inr resp', s'')"
  by (rule refresh_found_answers [OF assms(1,5,6)])

subsection \<open>What a ban leaves\<close>

lemma find_account:
  assumes "distinct (map k xs)" and "a \<in> set xs" and "Q a"
  shows "find (\<lambda>x. k x = k a \<and> Q x) xs = Some a"
  using assms by (induction xs) (auto simp: image_iff)

lemma ban_run:
  assumes "faults (ax_sess s) = []" and "a \<in> set (accounts (acc_db s))" and "ac_deleted a = None"
  shows "ban_user_handler t (ac_id a) s = (200, s\<lparr>ax_sess := (ax_sess s)\<lparr>db := (acc_db s)\<lparr>accounts :=
    update_where (\<lambda>x. ac_id x = ac_id a \<and> ac_deleted x = None) (\<lambda>x. x\<lparr>ac_active := False, ac_updated := t\<rparr>) (accounts (acc_db s))\<rparr>\<rparr>\<rparr>)"
proof -
  have "a \<in> set (filter (\<lambda>x. ac_id x = ac_id a \<and> ac_deleted x = None) (accounts (acc_db s)))" using assms by simp
  then have "length (filter (\<lambda>x. ac_id x = ac_id a \<and> ac_deleted x = None) (accounts (acc_db s))) \<noteq> 0"
    by (metis length_0_conv list.set(1) empty_iff)
  moreover have "Session.tick (ax_sess s) = ax_sess s" using assms(1) by (simp add: Session.tick_def)
  ultimately show ?thesis
    using assms(1) by (simp add: ban_user_handler_def admin_done_def on_accounts_def set_active_def update_account_def andthen_def on_err_def
        pool_exec_def sql_update_account_def Let_def ret_def)
qed

text \<open>After an administrator banned a user, a login of that user is refused as inactive; but a refresh token issued before the ban still
  buys a new access token and a new refresh token: nothing on that path reads the flag.\<close>

theorem ban_leaves_refresh:
  assumes "jwt_ok lib" and "accounts_ok (acc_db s)" and "a \<in> set (accounts (acc_db s))" and "ac_deleted a = None"
    and "can_issue dr (ac_id a) s" and "r \<in> set (refresh_tokens (acc_db s))" and "rt_user r = ac_id a"
    and "usable (dw_now dr) (pw_digest pw plain) r" and "distinct (map rt_hash (refresh_tokens (acc_db s)))"
  shows "\<exists>s'. ban_user_handler t (ac_id a) s = (200, s') \<and>
    fst (login lib pw cfg dr (ac_email a) password ip ua s') = Inl InactiveUser \<and>
    (\<exists>resp. fst (refresh lib pw cfg dr plain s') = Inr resp)"
proof -
  define a' where "a' = a\<lparr>ac_active := False, ac_updated := t\<rparr>"
  define as' where "as' = update_where (\<lambda>x. ac_id x = ac_id a \<and> ac_deleted x = None) (\<lambda>x. x\<lparr>ac_active := False, ac_updated := t\<rparr>) (accounts (acc_db s))"
  define s' where "s' = s\<lparr>ax_sess := (ax_sess s)\<lparr>db := (acc_db s)\<lparr>accounts := as'\<rparr>\<rparr>\<rparr>"
  have fs: "faults (ax_sess s) = []" using assms(5) by (simp add: can_issue_def)
  have ban: "ban_user_handler t (ac_id a) s = (200, s')" using ban_run [OF fs assms(3,4)] by (simp add: s'_def as'_def)
  have keys: "distinct (map ac_id as')" "distinct (map ac_email as')" "ac_id ` set as' = ac_id ` set (accounts (acc_db s))"
    using assms(2) by (simp_all add: as'_def map_update_where keys_update_where accounts_ok_def keys_ok_def)
  have a': "a' \<in> set as'" using assms(3,4) by (auto simp: as'_def a'_def in_set_update_where)
  have byid: "find (\<lambda>x. ac_id x = ac_id a \<and> ac_deleted x = None) as' = Some a'"
    using find_account [OF keys(1) a', of "\<lambda>x. ac_deleted x = None"] assms(4) by (simp add: a'_def)
  have bymail: "find (\<lambda>x. ac_email x = ac_email a \<and> ac_deleted x = None) as' = Some a'"
    using find_account [OF keys(2) a', of "\<lambda>x. ac_deleted x = None"] assms(4) by (simp add: a'_def)
  have login: "fst (login lib pw cfg dr (ac_email a) password ip ua s') = Inl InactiveUser"
    using fs bymail by (simp add: login_def on_accounts_def find_by_email_def on_err_def pool_query_run s'_def a'_def)
  have "usable (dw_now dr) (pw_digest pw plain) = (\<lambda>x. rt_hash x = rt_hash r \<and> \<not> rt_revoked x \<and> dw_now dr < rt_expires x)"
    using assms(8) by (auto simp: usable_def)
  then have tok: "find (usable (dw_now dr) (pw_digest pw plain)) (refresh_tokens (acc_db s)) = Some r"
    using find_account [OF assms(9,6), of "\<lambda>x. \<not> rt_revoked x \<and> dw_now dr < rt_expires x"] assms(8) by (simp add: usable_def)
  have found: "on_accounts (find_valid (dw_now dr) (pw_digest pw plain)) s' = (Inr r, s')"
    using fs tok by (simp add: on_accounts_def find_valid_def on_err_def pool_query_run s'_def)
  have "can_issue dr (rt_user r) s'" using assms(5,7) keys(3) by (simp add: can_issue_def s'_def)
  moreover have "find (\<lambda>x. ac_id x = rt_user r \<and> ac_deleted x = None) (accounts (acc_db s')) = Some a'" using byid assms(7) by (simp add: s'_def)
  ultimately obtain resp s2 where "refresh_found lib pw cfg dr r s' = (Inr resp, s2)" using refresh_found_answers [OF assms(1)] by blast
  then have "fst (refresh lib pw cfg dr plain s') = Inr resp" using found by (simp add: refresh_def)
  then show ?thesis using ban login by blast
qed

theorem ban_leaves_refresh_witness:
  "\<exists>s'. ban_user_handler 3 ''u1'' with_ann = (200, s') \<and>
    fst (login sample_jwt sample_pw sample_config (draw ''n'' 5) ''ann@x'' ''pw'' ''ip'' ''ua'' s') = Inl InactiveUser \<and>
    (\<exists>resp. fst (refresh sample_jwt sample_pw sample_config (draw ''n'' 5) ''t1'' s') = Inr resp)"
proof -
  have u: "usable (dw_now (draw ''n'' 5)) (pw_digest sample_pw ''t1'') ann_token"
    by (simp add: usable_def draw_def sample_pw_def ann_token_def hour_def minute_def second_def)
  show ?thesis
    using ban_leaves_refresh [OF sample_jwt_ok with_ann_ok _ _ _ _ _ u, of ann 3 sample_config "''pw''" "''ip''" "''ua''"] with_ann_issues [of "''n''" 5]
    by (simp add: ann_defs)
qed

subsection \<open>The bound on sessions\<close>

lemma oldest_member: "rs \<noteq> [] \<Longrightarrow> \<exists>q. oldest rs = Some q \<and> q \<in> set rs"
proof (induction rs)
  case (Cons r rs)
  then show ?case by (cases rs) (auto split: option.splits)
qed simp

lemma length_filter_remove:
  "q \<in> set xs \<Longrightarrow> distinct (map k xs) \<Longrightarrow> Q q \<Longrightarrow> Suc (length (filter (\<lambda>r. Q r \<and> k r \<noteq> k q) xs)) = length (filter Q xs)"
proof (induction xs)
  case (Cons x xs)
  show ?case
  proof (cases "x = q")
    case True
    then have "\<forall>r \<in> set xs. k r \<noteq> k q" using Cons.prems by (auto simp: image_iff)
    then have "filter (\<lambda>r. Q r \<and> k r \<noteq> k q) xs = filter Q xs" by (intro filter_cong) auto
    then show ?thesis using True Cons.prems by simp
  next
    case False
    then have "k x \<noteq> k q" using Cons.prems by auto
    then show ?thesis using False Cons by auto
  qed
qed simp

definition few :: "uuid \<Rightarrow> int \<Rightarrow> accountdb session \<Rightarrow> bool" where
  "few user n s \<longleftrightarrow> faults s = [] \<and> distinct (map se_id (user_sessions (db s))) \<and> int (length (sessions_of user (db s))) \<le> max 0 n"

lemma delete_oldest_run:
  assumes "few user n s"
  shows "\<exists>s'. delete_oldest user s = (Inr (), s') \<and> few user (n - 1) s'"
proof (cases "sessions_of user (db s)")
  case Nil
  then show ?thesis using assms
    by (simp add: few_def delete_oldest_def andthen_def on_err_def pool_exec_def sql_delete_oldest_def ret_def)
next
  case (Cons r rs)
  obtain q where q: "oldest (sessions_of user (db s)) = Some q" "q \<in> set (sessions_of user (db s))"
    using oldest_member [of "sessions_of user (db s)"] Cons by auto
  then have "Suc (length (filter (\<lambda>r. se_user r = user \<and> se_id r \<noteq> se_id q) (user_sessions (db s)))) = length (sessions_of user (db s))"
    using length_filter_remove [of q "user_sessions (db s)" se_id "\<lambda>r. se_user r = user"] assms by (simp add: sessions_of_def few_def)
  then have "int (length (filter (\<lambda>r. se_user r = user \<and> se_id r \<noteq> se_id q) (user_sessions (db s)))) \<le> max 0 (n - 1)"
    using assms unfolding few_def by linarith
  then show ?thesis using assms q(1)
    by (simp add: few_def delete_oldest_def andthen_def on_err_def pool_exec_def sql_delete_oldest_def ret_def sessions_of_def distinct_map_filter conj_commute)
qed

lemma session_loop_run: "few user n s \<Longrightarrow> \<exists>s'. session_loop user n most s = (Inr (), s') \<and> few user (most - 1) s'"
proof (induction user n most s rule: session_loop.induct)
  case (1 user n most s)
  show ?case
  proof (cases "n < most")
    case True
    moreover have "few user (most - 1) s" using True 1(2) unfolding few_def by linarith
    ultimately show ?thesis by (simp add: session_loop.simps [of user n most s])
  next
    case False
    obtain s' where s': "delete_oldest user s = (Inr (), s')" "few user (n - 1) s'" using delete_oldest_run [OF 1(2)] by blast
    show ?thesis using 1(1) [OF False s'(1) [symmetric] refl s'(2)] False s'(1) by (simp add: session_loop.simps [of user n most s])
  qed
qed

text \<open>Where the database answers, recording the session of a login leaves the user at most the configured number of sessions (and
  always the new one): the oldest ones go first, and it does not matter how many there were.\<close>

theorem sessions_bounded:
  assumes "accounts_ok (acc_db s)" and "faults (ax_sess s) = []"
  shows "length (sessions_of user (acc_db (record_session cfg dr user ip ua s))) \<le>
    (if ip = [] then length (sessions_of user (acc_db s)) else nat (max 1 (cf_sessions cfg)))"
proof (cases "ip = []")
  case False
  let ?n = "length (sessions_of user (acc_db s))"
  have "few user (int ?n) (ax_sess s)" using assms by (simp add: few_def accounts_ok_def keys_ok_def)
  then obtain s1 where s1: "session_loop user (int ?n) (cf_sessions cfg) (ax_sess s) = (Inr (), s1)" "few user (cf_sessions cfg - 1) s1"
    using session_loop_run by blast
  have e: "on_accounts (ensure_session_limit user (cf_sessions cfg)) s = (Inr (), s\<lparr>ax_sess := s1\<rparr>)"
    using s1(1) assms(2) by (simp add: on_accounts_def ensure_session_limit_def andthen_def count_by_user_def on_err_def pool_query_run)
  have "int (length (sessions_of user (db (snd (session_create r s1))))) \<le> max 1 (cf_sessions cfg)" for r
    using s1(2) by (auto simp: session_create_def andthen_def on_err_def pool_exec_def sql_insert_session_def ret_def few_def sessions_of_def)
  then show ?thesis using False e by (simp add: record_session_def on_accounts_def split: prod.split) (metis le_nat_iff max.coboundedI1 zero_le_one snd_conv)
qed (simp add: record_session_def)

theorem sessions_bounded_witness:
  "length (sessions_of ''u1'' (acc_db (record_session sample_config (draw ''n'' 5) ''u1'' ''ip'' ''ua'' with_ann))) \<le> 2"
  using sessions_bounded [OF with_ann_ok, of "''u1''" sample_config "draw ''n'' 5" "''ip''" "''ua''"] by (simp add: ann_defs sample_config_def)

end
