(* ===== verification/GatewaySpec.thy ===== *)
theory GatewaySpec
  imports Gateway AccountsSpec SlidingWindowSpec
begin

text \<open>
  What the gateway guarantees: what reaches a service over a guarded route carries the identity of a valid token with the role the route
  asks for, and the service acts for that identity; how often a service is called; and where the chain falls short: identities in the
  headers of public requests, logouts of the user service, malformed paths and the errors of the services at the breaker, and tokens at
  the rate limit.
\<close>

subsection \<open>What is sent\<close>

definition carries :: "gw_context \<Rightarrow> gw_request \<Rightarrow> sent_request \<Rightarrow> bool" where
  "carries cx rq u \<longleftrightarrow> up_headers u = forward_headers cx (gq_headers rq) \<or> up_headers u = ws_headers cx (gq_headers rq)"

text \<open>The requests that one step sent, at most so many.\<close>

definition sends :: "nat \<Rightarrow> gw_context \<Rightarrow> gw_request \<Rightarrow> gateway \<Rightarrow> gateway \<Rightarrow> bool" where
  "sends n cx rq g g' \<longleftrightarrow> (\<exists>us. gw_sent g' = gw_sent g @ us \<and> length us \<le> n \<and> (\<forall>u \<in> set us. carries cx rq u))"

lemma sends_none: "gw_sent g' = gw_sent g \<Longrightarrow> sends n cx rq g g'"
  by (simp add: sends_def)

lemma sends_one: "gw_sent g' = gw_sent g @ [u] \<Longrightarrow> carries cx rq u \<Longrightarrow> 1 \<le> n \<Longrightarrow> sends n cx rq g g'"
  by (simp add: sends_def)

lemma sends_trans:
  assumes "sends m cx rq g g1" and "sends n cx rq g1 g2" shows "sends (m + n) cx rq g g2"
proof -
  obtain us vs where "gw_sent g1 = gw_sent g @ us" "length us \<le> m" "\<forall>u \<in> set us. carries cx rq u"
    "gw_sent g2 = gw_sent g1 @ vs" "length vs \<le> n" "\<forall>u \<in> set vs. carries cx rq u"
    using assms unfolding sends_def by blast
  then show ?thesis unfolding sends_def by (intro exI [of _ "us @ vs"]) auto
qed

lemma do_once_sends:
  assumes "do_once cx rq base g = (r, g')"
  shows "sends 1 cx rq g g'" and "gw_cb g' = gw_cb g" and "gw_retries g' = gw_retries g"
  using assms by (auto simp: do_once_def split: if_splits intro: sends_none sends_one simp: carries_def)

lemma attempt_sends: "attempt n cx rq base g = (r, g') \<Longrightarrow> sends (n + 1) cx rq g g' \<and> gw_cb g' = gw_cb g"
proof (induction n arbitrary: g)
  case 0
  obtain q g1 where q: "do_once cx rq base g = (q, g1)" by fastforce
  then show ?case using 0 do_once_sends [OF q] by (auto simp: attempt.simps [of 0] split: reply.splits if_splits)
next
  case (Suc n)
  obtain q g1 where q: "do_once cx rq base g = (q, g1)" by fastforce
  note one = do_once_sends [OF q]
  show ?case
  proof (cases "\<exists>st h b k. q = Replied st h b k \<and> st < 500")
    case True
    then have "g' = g1" using Suc.prems q by (auto simp: attempt.simps [of "Suc n"])
    then show ?thesis using one sends_trans [OF one(1) sends_none, of _ "Suc n"] by simp
  next
    case False
    then have "attempt n cx rq base g1 = (r, g')" using Suc.prems q by (auto simp: attempt.simps [of "Suc n"] split: reply.splits if_splits)
    from Suc.IH [OF this] show ?thesis using one sends_trans [OF one(1)] by (metis Suc_eq_plus1 add.commute plus_1_eq_Suc)
  qed
qed

lemma set_breaker_sent [simp]: "gw_sent (set_breaker svc b g) = gw_sent g"
  by (simp add: set_breaker_def)

lemma sends_cong: "gw_sent h = gw_sent g \<Longrightarrow> gw_sent h' = gw_sent g' \<Longrightarrow> sends n cx rq h h' = sends n cx rq g g'"
  by (simp add: sends_def)

lemma forward_sends:
  assumes "forward t t' svc cx rq g = (res, g')"
  shows "sends (nat (gw_retries g + 1)) cx rq g g'"
proof -
  obtain ok b where al: "proxy_allow t (gw_cb g svc) = (ok, b)" by fastforce
  obtain base lb where nu: "next_url (gw_lb (set_breaker svc b g) svc) = (base, lb)" by fastforce
  define g2 where "g2 = (set_breaker svc b g)\<lparr>gw_lb := (gw_lb (set_breaker svc b g))(svc := lb)\<rparr>"
  have g2: "gw_sent g2 = gw_sent g" by (simp add: g2_def)
  show ?thesis
  proof (cases "\<not> ok \<or> gw_retries g < 0")
    case True
    then show ?thesis using assms al nu by (cases ok) (auto simp: forward_def Let_def intro!: sends_none)
  next
    case False
    obtain r g3 where at: "attempt (nat (gw_retries g)) cx rq base g2 = (r, g3)" by fastforce
    then have "sends (nat (gw_retries g) + 1) cx rq g2 g3" using attempt_sends by simp
    moreover have "gw_sent g' = gw_sent g3"
      using assms al nu False at by (auto simp: forward_def Let_def g2_def split: reply.splits)
    ultimately show ?thesis using g2 False by (simp add: sends_cong [of g2 g g3 g'] nat_add_distrib)
  qed
qed

lemma ws_sends: "ws_forward svc cx rq g = (res, g') \<Longrightarrow> sends 1 cx rq g g'"
  by (auto simp: ws_forward_def Let_def carries_def split: prod.splits if_splits intro: sends_none sends_one)

lemma action_sends:
  assumes "run_action env ck a cx rq s = (res, s')"
  shows "\<exists>n. sends n cx rq (gs_proxy s) (gs_proxy s')"
proof (cases a)
  case (Proxy svc)
  obtain q p where "forward (gk_allow ck) (gk_record ck) svc cx rq (gs_proxy s) = (q, p)" by fastforce
  then show ?thesis using assms Proxy forward_sends by (fastforce simp: run_action_def)
next
  case (Socket svc)
  obtain q p where "ws_forward svc cx rq (gs_proxy s) = (q, p)" by fastforce
  then show ?thesis using assms Socket ws_sends by (fastforce simp: run_action_def)
qed (use assms in \<open>auto simp: run_action_def split: if_splits intro!: exI [of _ 0] sends_none\<close>)

text \<open>The identity a service takes from what it is sent.\<close>

lemma names_differ [simp]: "header_user \<noteq> header_role" "header_user \<noteq> header_email" "header_user \<noteq> header_trust" "header_user \<noteq> header_correlation"
  "header_role \<noteq> header_user" "header_role \<noteq> header_email" "header_role \<noteq> header_trust" "header_role \<noteq> header_correlation"
  "header_user \<noteq> ''Host''" "header_role \<noteq> ''Host''" "header_user \<noteq> ''Connection''" "header_role \<noteq> ''Connection''"
  "header_user \<noteq> ''Upgrade''" "header_role \<noteq> ''Upgrade''"
  by (simp_all add: header_names)

lemma carried_identity:
  assumes "carries cx rq u"
  shows "up_headers u header_user = (if cx_user cx = [] then gq_headers rq header_user else [cx_user cx])"
    and "up_headers u header_role = (if cx_user cx = [] then gq_headers rq header_role else [cx_role cx])"
  using assms by (auto simp: carries_def forward_headers_def ws_headers_def set_header_def Let_def)

definition acts_for :: "string \<Rightarrow> string \<Rightarrow> nat + gw_context \<Rightarrow> bool" where
  "acts_for user role res \<longleftrightarrow> (\<exists>cx. res = Inr cx \<and> cx_user cx = user \<and> cx_role cx = role)"

lemma service_acts_for:
  assumes "get_header header_user h \<noteq> []"
  shows "acts_for (get_header header_user h) (get_header header_role h) (service_auth lib secret t h)"
    and "acts_for (get_header header_user h) (get_header header_role h) (bid_service_auth lib secret t h)"
  using assms by (simp_all add: acts_for_def service_auth_def bid_service_auth_def)

subsection \<open>The guards\<close>

definition start_context :: "gw_clock \<Rightarrow> gw_request \<Rightarrow> gw_context" where
  "start_context ck rq = empty_context\<lparr>cx_correlation := correlate (gk_fresh ck) rq\<rparr>"

lemma start_context_user [simp]: "cx_user (start_context ck rq) = []"
  by (simp add: start_context_def empty_context_def)

lemma handle_sent:
  assumes "handle env ck rq s = (resp, s')"
  shows "gw_sent (gs_proxy s') = gw_sent (gs_proxy s) \<or>
    (\<exists>g a cx r n. find_route rq = Some (g, a) \<and> pass_guard env (gk_auth ck) g rq (start_context ck rq) (gs_redis s) = (Inr cx, r) \<and>
      sends n cx rq (gs_proxy s) (gs_proxy s'))"
proof (cases "en_gate env rq")
  case (Some st)
  then show ?thesis using assms by (simp add: handle_def Let_def)
next
  case None
  obtain refused hl sl where l: "limit_request default_rate_config (gk_limit ck) rq (start_context ck rq) (gs_limits s) = ((refused, hl), sl)"
    by (metis prod.exhaust)
  note h = assms [unfolded handle_def Let_def, folded start_context_def, simplified None l, simplified]
  show ?thesis
  proof (cases "refused = None \<and> find_route rq \<noteq> None")
    case False
    then show ?thesis using h by (auto split: option.splits)
  next
    case True
    then obtain g a where r: "refused = None" "find_route rq = Some (g, a)" by auto
    obtain q rd where q: "pass_guard env (gk_auth ck) g rq (start_context ck rq) (gs_redis s) = (q, rd)" by fastforce
    show ?thesis
    proof (cases q)
      case (Inl st)
      then show ?thesis using h r q by auto
    next
      case (Inr cx)
      define s1 where "s1 = s\<lparr>gs_limits := sl, gs_redis := rd\<rparr>"
      obtain st hd b s2 where a: "run_action env ck a cx rq s1 = ((st, hd, b), s2)" by (metis prod.exhaust)
      then have "s' = s2" using h r q Inr by (simp add: s1_def)
      then show ?thesis using action_sends [OF a] r q Inr by (auto simp: s1_def)
    qed
  qed
qed

lemma pass_guard_okE:
  assumes "pass_guard env t g rq cx r = (Inr cx', r')"
  shows "if g = Public then cx' = cx else \<exists>tok c. bearer_token (get_header ''Authorization'' (gq_headers rq)) = Some tok \<and>
    validate (en_lib env) (en_validator env) t tok = Some c \<and> (redis_fails r \<or> map_option fst (live (blacklist_key tok) t r) \<noteq> Some ''revoked'') \<and>
    (\<forall>roles. g = Roles roles \<longrightarrow> cl_role c \<in> set roles) \<and>
    cx_user cx' = cl_user c \<and> cx_role cx' = cl_role c"
proof (cases "g = Public")
  case True
  then show ?thesis using assms by (simp add: pass_guard_def)
next
  case False
  obtain q rd where q: "parse_bearer (en_lib env) (en_validator env) t (get_header ''Authorization'' (gq_headers rq)) (Some r) = (q, rd)" by fastforce
  have "q = Inl e \<Longrightarrow> False" for e using assms False q by (auto simp: pass_guard_def gw_auth_def split: guard.splits)
  then obtain c tok where c: "q = Inr (c, tok)" by (cases q) auto
  have "cx_user cx' = cl_user c \<and> cx_role cx' = cl_role c \<and> (\<forall>roles. g = Roles roles \<longrightarrow> cl_role c \<in> set roles)"
    using assms False q c by (auto simp: pass_guard_def gw_auth_def gw_require_role_def split: guard.splits option.splits if_splits)
  moreover have "bearer_token (get_header ''Authorization'' (gq_headers rq)) = Some tok \<and> validate (en_lib env) (en_validator env) t tok = Some c \<and>
      (redis_fails r \<or> map_option fst (live (blacklist_key tok) t r) \<noteq> Some ''revoked'')"
    using q c by (auto simp: parse_bearer_def redis_get_def split: option.splits if_splits prod.splits bool.splits)
  ultimately show ?thesis unfolding if_not_P [OF False] by blast
qed

text \<open>A token of the static secret that was accepted.\<close>

definition genuine :: "jwt_lib \<Rightarrow> string \<Rightarrow> time \<Rightarrow> string \<Rightarrow> string \<Rightarrow> string \<Rightarrow> bool" where
  "genuine lib secret t tok user role \<longleftrightarrow> (\<exists>kid c. jl_sign lib kid secret c = Some tok \<and> in_time t c = Inr c \<and> cl_user c = user \<and> cl_role c = role)"

lemma validate_genuine:
  assumes "jwt_ok lib" and "validate lib (StaticSecret secret) t tok = Some c"
  shows "genuine lib secret t tok (cl_user c) (cl_role c)"
proof -
  obtain c0 where c0: "jl_parse lib True t (hmac_key secret) tok = Inr c0" "c = user_view c0"
    using assms(2) by (auto simp: validate_def split: sum.splits)
  from parse_accepts [OF assms(1) c0(1)] obtain kid where "jl_sign lib kid secret c0 = Some tok" "in_time t c0 = Inr c0" by auto
  then show ?thesis unfolding genuine_def using c0(2) by (intro exI [of _ kid] exI [of _ c0]) (simp add: user_view_def)
qed


text \<open>Where the context names no user, the client's own headers go through.\<close>

lemma client_headers_pass:
  assumes "carries cx rq u" and "cx_user cx = []" and "gq_headers rq header_user = [victim]" and "victim \<noteq> []"
    and "gq_headers rq header_role = [role]"
  shows "acts_for victim role (service_auth lib secret t (up_headers u)) \<and> acts_for victim role (bid_service_auth lib secret t (up_headers u))"
  using service_acts_for [of "up_headers u"] carried_identity [OF assms(1)] assms by (simp add: get_header_def)

text \<open>So a token that names no user opens the guarded routes in the name of anyone.\<close>

lemma nameless_token_impersonates:
  assumes "pass_guard env t Authed rq (start_context ck rq) r = (Inr cx, r')" and "validate (en_lib env) (en_validator env) t tok = Some c"
    and "bearer_token (get_header ''Authorization'' (gq_headers rq)) = Some tok" and "cl_user c = []" and "carries cx rq u"
    and "gq_headers rq header_user = [victim]" and "victim \<noteq> []" and "gq_headers rq header_role = [role]"
  shows "acts_for victim role (bid_service_auth lib secret t' (up_headers u))"
  using client_headers_pass [OF assms(5) _ assms(6-8)] pass_guard_okE [OF assms(1)] assms(2,3,4) by auto


subsection \<open>An example\<close>

definition demo_token :: string where
  "demo_token = put_fields ([] # ''s'' # put_claims (no_claims\<lparr>cl_user := ''u1'', cl_role := ''bidder''\<rparr>))"

definition demo_env :: gw_env where
  "demo_env = \<lparr>en_lib = sample_jwt, en_validator = StaticSecret ''s'', en_gate = (\<lambda>_. None), en_spec_file = False\<rparr>"

definition demo_request :: "string \<Rightarrow> headers \<Rightarrow> gw_request" where
  "demo_request path h = \<lparr>gq_method = ''GET'', gq_path = path, gq_query = [], gq_headers = h, gq_body = [], gq_ip = ''ip'', gq_upgrades = False\<rparr>"

definition demo_system :: gw_system where
  "demo_system = \<lparr>gs_proxy = new_gateway (\<lambda>_. ''http://x'') 2 [Replied 200 (\<lambda>_. []) ''ok'' 2],
     gs_limits = \<lparr>sw_redis = \<lparr>rd_keys = Map.empty, rd_faults = []\<rparr>, sw_fallback = new_limiter\<rparr>,
     gs_redis = \<lparr>rd_keys = Map.empty, rd_faults = []\<rparr>\<rparr>"

definition demo_clock :: gw_clock where
  "demo_clock = \<lparr>gk_limit = \<lparr>ck_block = 0, ck_window = 0, ck_violation = 0, ck_ban = 0, ck_fb_block = 0, ck_fb_window = 0, ck_fb_violation = 0\<rparr>,
     gk_auth = 0, gk_allow = 0, gk_record = 0, gk_fresh = ''c''\<rparr>"

lemma weighted_zero: "weighted_count 0 0 d w = 0"
  by (simp add: weighted_count_def fadd_def float_to_int_def)

lemma demo_limit: "limit_request default_rate_config (gk_limit demo_clock) (demo_request path h) (start_context ck rq) (gs_limits demo_system) = ((refused, hl), sl) \<Longrightarrow>
    refused = None"
  by (auto simp: limit_request_def Let_def sw_check_def sw_is_blocked_def is_blocked_redis_def redis_get_def live_def demo_system_def redis_fails_def
      demo_clock_def sw_allow_def sliding_window_check_def read_counts_def reply_int_def weighted_zero after_command_def count_request_def incr_key_def
      effective_limit_def default_rate_config_def split: if_splits)

lemma demo_forward: "url_parses (target rq) \<Longrightarrow>
    gw_sent (snd (forward t t' svc cx rq (gs_proxy demo_system))) =
      [\<lparr>up_url = ''http://x'' @ target rq, up_method = gq_method rq, up_headers = forward_headers cx (gq_headers rq), up_body = gq_body rq\<rparr>]"
  by (simp add: forward_def proxy_allow_def demo_system_def new_gateway_def new_proxy_breaker_def next_url_def new_round_robin_def upstream_urls_def
      base_url_def Let_def attempt.simps do_once_def next_reply_def set_breaker_def)

lemma demo_handle:
  assumes "find_route (demo_request path h) = Some (g, Proxy svc)" and "url_parses (target (demo_request path h))"
    and "pass_guard demo_env 0 g (demo_request path h) (start_context demo_clock (demo_request path h)) (gs_redis demo_system) = (Inr cx, r)"
  shows "gw_sent (gs_proxy (snd (handle demo_env demo_clock (demo_request path h) demo_system))) =
    [\<lparr>up_url = ''http://x'' @ target (demo_request path h), up_method = ''GET'', up_headers = forward_headers cx h, up_body = []\<rparr>]"
proof -
  obtain refused hl sl where l: "limit_request default_rate_config (gk_limit demo_clock) (demo_request path h)
      (start_context demo_clock (demo_request path h)) (gs_limits demo_system) = ((refused, hl), sl)"
    by (metis prod.exhaust)
  have "gk_auth demo_clock = 0" "en_gate demo_env = (\<lambda>_. None)" by (simp_all add: demo_clock_def demo_env_def)
  then show ?thesis
    using l demo_limit [OF l] assms(1,3) demo_forward [OF assms(2)]
    by (simp add: handle_def Let_def start_context_def [symmetric] run_action_def split_beta) (simp add: demo_request_def)
qed

definition demo_public :: gw_request where
  "demo_public = demo_request ''/api/v1/auctions/7/bids'' ((\<lambda>_. [])(header_user := [''victim''], header_role := [''admin'']))"

definition demo_guarded :: gw_request where
  "demo_guarded = demo_request ''/api/v1/bids/me'' ((\<lambda>_. [])(header_user := [''victim''], ''Authorization'' := [''Bearer '' @ demo_token]))"

lemma demo_routes: "find_route demo_public = Some (Public, Proxy BidService)" "find_route demo_guarded = Some (Authed, Proxy BidService)"
  by (simp_all add: find_route_def demo_public_def demo_guarded_def demo_request_def gw_routes_def local_routes_def api_routes_def)

lemma demo_bearer: "bearer_token (''Bearer '' @ tok) = Some tok"
proof -
  have "map lower ''Bearer'' = ''bearer''" by code_simp
  then show ?thesis by (simp add: bearer_token_def)
qed

lemma demo_valid: "validate sample_jwt (StaticSecret ''s'') t demo_token = Some (no_claims\<lparr>cl_user := ''u1'', cl_role := ''bidder''\<rparr>)"
proof -
  have "jl_sign sample_jwt [] ''s'' (no_claims\<lparr>cl_user := ''u1'', cl_role := ''bidder''\<rparr>) = Some demo_token"
    by (simp add: sample_jwt_def demo_token_def)
  from jwt_ok_parse [OF sample_jwt_ok this, of True t "hmac_key ''s''"] show ?thesis
    by (simp add: validate_def in_time_def no_claims_def user_view_def)
qed

lemma demo_passes: "\<exists>cx r. pass_guard demo_env 0 Authed demo_guarded (start_context demo_clock demo_guarded) (gs_redis demo_system) = (Inr cx, r)"
  using demo_bearer [of demo_token] demo_valid [of 0]
  by (simp add: pass_guard_def gw_auth_def parse_bearer_def demo_env_def demo_guarded_def demo_request_def get_header_def header_names
      demo_system_def redis_get_def live_def redis_fails_def)

lemma demo_parses: "url_parses (target demo_public)" "url_parses (target demo_guarded)"
  by code_simp+



subsection \<open>Logout\<close>

lemma on_accounts_redis [simp]: "ax_redis (snd (on_accounts m s)) = ax_redis s" "ax_redis (audit dr u act s) = ax_redis s"
  by (simp_all add: on_accounts_def audit_def split: prod.splits)

lemma logout_redis: "ax_redis (logout pw dr jti ttl plain s) = (if jti = [] then ax_redis s else ax_redis (snd (blacklist_jti jti ttl (dw_now dr) s)))"
proof -
  have "ax_redis (case on_accounts (find_valid (dw_now dr) (pw_digest pw plain)) s1 of (Inl e, s2) \<Rightarrow> s2
      | (Inr rt, s2) \<Rightarrow> audit dr (rt_user rt) ''USER_LOGGED_OUT'' (snd (on_accounts (revoke (rt_id rt)) s2))) = ax_redis s1" for s1
    using on_accounts_redis(1) [of "find_valid (dw_now dr) (pw_digest pw plain)" s1]
    by (cases "on_accounts (find_valid (dw_now dr) (pw_digest pw plain)) s1"; cases "fst (on_accounts (find_valid (dw_now dr) (pw_digest pw plain)) s1)") auto
  then show ?thesis by (simp add: logout_def Let_def)
qed

lemma keys_apart: "blacklist_key tok \<noteq> jti_key jti"
  by (simp add: blacklist_key_def jti_key_def)

text \<open>After a logout at the user service, where Redis answers, the user service refuses the access token for the rest of its quarter of
  an hour; the gateway still accepts it, and so do the services that trust the gateway: it looks for the token itself, under another key.\<close>

theorem logout_unseen:
  fixes pw :: pw_lib and body :: "string option"
  assumes "ax_redis s = Some r" and "rd_faults r = []" and "cl_jti c \<noteq> []" and "parse_access_token lib cfg t tok = Inr c"
    and "t < dw_now dr + 15 * minute" and "live (blacklist_key tok) t r = None"
  defines "s' \<equiv> snd (logout_handler pw dr (cl_jti c) body s)"
  shows "fst (auth_required lib cfg t (''Bearer '' @ tok) s') = Inl 401 \<and>
    fst (parse_bearer lib (StaticSecret (cf_secret cfg)) t (''Bearer '' @ tok) (ax_redis s')) = Inr (c, tok)"
proof -
  define r' where "r' = r\<lparr>rd_keys := (rd_keys r)(jti_key (cl_jti c) \<mapsto> (''1'', Some (dw_now dr + 15 * minute)))\<rparr>"
  have "ax_redis s' = Some r'"
    using assms(1,2,3) by (simp add: s'_def logout_handler_def logout_redis blacklist_jti_def redis_set_def r'_def after_command_def)
  moreover have "rd_faults r' = []" "live (blacklist_key tok) t r' = None" "live (jti_key (cl_jti c)) t r' \<noteq> None"
    using assms(2,5,6) keys_apart [of tok "cl_jti c"] by (simp_all add: r'_def live_def alive_def)
  moreover have "validate lib (StaticSecret (cf_secret cfg)) t tok = Some c"
    using assms(4) by (auto simp: validate_def parse_access_token_def split: sum.splits)
  ultimately show ?thesis using assms(4) demo_bearer [of tok]
    by (simp add: auth_required_def parse_token_def is_blacklisted_def parse_bearer_def redis_get_def)
qed

theorem logout_unseen_witness:
  "\<exists>tok s'. fst (auth_required sample_jwt sample_config 2 (''Bearer '' @ tok) s') = Inl 401 \<and>
    fst (parse_bearer sample_jwt (StaticSecret ''secret'') 2 (''Bearer '' @ tok) (ax_redis s')) \<noteq> Inl GwRevoked"
proof -
  let ?c = "no_claims\<lparr>cl_user := ''u1'', cl_jti := ''j1''\<rparr>"
  let ?s = "with_ann\<lparr>ax_redis := Some \<lparr>rd_keys = Map.empty, rd_faults = []\<rparr>\<rparr>"
  obtain tok where tok: "jl_sign sample_jwt [] ''secret'' ?c = Some tok" using jwt_ok_signs [OF sample_jwt_ok] by blast
  have p: "parse_access_token sample_jwt sample_config 2 tok = Inr ?c"
    using jwt_ok_parse [OF sample_jwt_ok tok, of True 2 "hmac_key ''secret''"]
    by (simp add: parse_access_token_def sample_config_def in_time_def no_claims_def user_view_def)
  show ?thesis
    using logout_unseen [where s = ?s and c = ?c and lib = sample_jwt and cfg = sample_config and t = 2 and tok = tok and
        dr = "draw ''n'' 1" and pw = sample_pw and body = None, OF _ _ _ p]
    by (intro exI [of _ tok] exI [of _ "snd (logout_handler sample_pw (draw ''n'' 1) (cl_jti ?c) None ?s)"])
      (simp add: live_def draw_def minute_def second_def no_claims_def sample_config_def)
qed

text \<open>A token revoked through the shared package is refused by the gateway while its entry lives.\<close>

lemma revoked_refused:
  assumes "rd_faults r = []" and "t < t0 + ttl"
  shows "fst (parse_bearer lib v t (''Bearer '' @ tok) (Some (snd (revoke_token tok ttl t0 r)))) = Inl GwRevoked"
  using assms demo_bearer [of tok]
  by (simp add: parse_bearer_def revoke_token_def redis_set_def redis_get_def live_def alive_def after_command_def redis_fails_def)

subsection \<open>Calls and the breaker\<close>

text \<open>One forwarded request makes at most one call more than the configured number of retries; and while the breaker of the service is
  open none, the client being told that the service is not available.\<close>

theorem calls_bounded:
  assumes "forward t t' svc cx rq g = ((status, h, b), g')" and "0 \<le> gw_retries g"
  shows "int (length (gw_sent g')) \<le> int (length (gw_sent g)) + gw_retries g + 1 \<and>
    (pb_state (gw_cb g svc) = POpen \<and> t \<le> pb_last (gw_cb g svc) + pb_reset (gw_cb g svc) \<longrightarrow> status = 503 \<and> gw_sent g' = gw_sent g)"
proof
  obtain us where "gw_sent g' = gw_sent g @ us" "length us \<le> nat (gw_retries g + 1)"
    using forward_sends [OF assms(1)] unfolding sends_def by blast
  then show "int (length (gw_sent g')) \<le> int (length (gw_sent g)) + gw_retries g + 1" using assms(2) by (simp; linarith)
  show "pb_state (gw_cb g svc) = POpen \<and> t \<le> pb_last (gw_cb g svc) + pb_reset (gw_cb g svc) \<longrightarrow> status = 503 \<and> gw_sent g' = gw_sent g"
    using assms(1) by (auto simp: forward_def proxy_allow_def)
qed

theorem calls_bounded_witness:
  "int (length (gw_sent (snd (forward 0 0 BidService empty_context demo_public (gs_proxy demo_system))))) \<le> 3"
proof -
  obtain status h b g' where f: "forward 0 0 BidService empty_context demo_public (gs_proxy demo_system) = ((status, h, b), g')"
    by (metis prod.exhaust)
  show ?thesis using calls_bounded [OF f] by (simp add: f) (simp add: demo_system_def new_gateway_def)
qed

lemma malformed_fails: "\<not> url_parses (target rq) \<Longrightarrow> attempt n cx rq base g = (Refused, g)"
  by (induction n) (simp_all add: attempt.simps do_once_def)

lemma malformed_forward:
  assumes "\<not> url_parses (target rq)" and "pb_state (gw_cb g svc) \<noteq> POpen" and "0 \<le> gw_retries g"
  shows "gw_cb (snd (forward t t' svc cx rq g)) svc = proxy_failure t' (gw_cb g svc) \<and> gw_retries (snd (forward t t' svc cx rq g)) = gw_retries g \<and>
    gw_sent (snd (forward t t' svc cx rq g)) = gw_sent g"
  using assms by (simp add: forward_def proxy_allow_def Let_def malformed_fails set_breaker_def split_beta)

definition forward_all :: "service \<Rightarrow> (time \<times> time \<times> gw_context \<times> gw_request) list \<Rightarrow> gateway \<Rightarrow> gateway" where
  "forward_all svc xs g = fold (\<lambda>(t, t', cx, rq) g. snd (forward t t' svc cx rq g)) xs g"

lemma malformed_sequence:
  assumes "\<forall>(t, t', cx, rq) \<in> set xs. \<not> url_parses (target rq)" and "pb_state (gw_cb g svc) = PClosed" and "0 \<le> gw_retries g"
    and "xs \<noteq> []" and "pb_failures (gw_cb g svc) + int (length xs) = pb_max (gw_cb g svc)"
  shows "pb_state (gw_cb (forward_all svc xs g) svc) = POpen \<and> pb_last (gw_cb (forward_all svc xs g) svc) = fst (snd (last xs)) \<and>
    pb_reset (gw_cb (forward_all svc xs g) svc) = pb_reset (gw_cb g svc) \<and> gw_sent (forward_all svc xs g) = gw_sent g"
  using assms
proof (induction xs arbitrary: g)
  case (Cons x xs)
  obtain t t' cx rq where x: "x = (t, t', cx, rq)" using prod_cases4 by blast
  let ?g = "snd (forward t t' svc cx rq g)"
  have st: "gw_cb ?g svc = proxy_failure t' (gw_cb g svc)" "gw_retries ?g = gw_retries g" "gw_sent ?g = gw_sent g"
    using malformed_forward [of rq g svc t t' cx] Cons.prems(1,2,3) by (simp_all add: x)
  show ?case
  proof (cases "xs = []")
    case True
    then show ?thesis using st Cons.prems(5) by (simp add: forward_all_def x proxy_failure_def Let_def)
  next
    case False
    then have "length xs > 0" by simp
    then have "int (length xs) > 0" by linarith
    then have "\<not> pb_max (gw_cb g svc) \<le> pb_failures (gw_cb g svc) + 1" using Cons.prems(5) by (cases xs) simp_all
    then have cb: "pb_state (gw_cb ?g svc) = PClosed" "pb_failures (gw_cb ?g svc) + int (length xs) = pb_max (gw_cb ?g svc)"
      "pb_reset (gw_cb ?g svc) = pb_reset (gw_cb g svc)"
      using st(1) Cons.prems(2,5) by (auto simp: proxy_failure_def Let_def)
    have "forward_all svc (x # xs) g = forward_all svc xs ?g" by (simp add: forward_all_def x)
    then show ?thesis using Cons.IH [OF _ cb(1) _ False cb(2)] Cons.prems(1,3) False st(2,3) cb(3) by simp
  qed
qed simp

text \<open>Requests with a path that does not parse again, such as \<^verbatim>\<open>/api/v1/auctions/%zz\<close> (sent as \<^verbatim>\<open>%25zz\<close>), count as failures of the
  service, although it is never called: as many in a row as the breaker allows failures, and every client is refused for its reset time.\<close>

theorem malformed_paths_block_service:
  fixes svc :: service and reg :: "service \<Rightarrow> string" and script :: "reply list"
  assumes "\<forall>(t, t', cx, rq) \<in> set xs. \<not> url_parses (target rq)" and "xs \<noteq> []" and "0 \<le> retries" and "length xs = 5"
    and "t \<le> fst (snd (last xs)) + 30 * second"
  defines "g \<equiv> forward_all svc xs (new_gateway reg retries script)"
  shows "gw_sent g = [] \<and> fst (fst (forward t t' svc cx rq g)) = 503"
proof -
  have "gw_cb (new_gateway reg retries script) svc = new_proxy_breaker 5 (30 * second)" "gw_retries (new_gateway reg retries script) = retries"
    "gw_sent (new_gateway reg retries script) = []"
    by (simp_all add: new_gateway_def)
  then have "pb_state (gw_cb g svc) = POpen" "pb_last (gw_cb g svc) = fst (snd (last xs))" "pb_reset (gw_cb g svc) = 30 * second" "gw_sent g = []"
    using malformed_sequence [OF assms(1), of "new_gateway reg retries script" svc] assms(2-4) by (simp_all add: new_proxy_breaker_def g_def)
  then show ?thesis using assms(5) by (simp add: forward_def proxy_allow_def)
qed

theorem malformed_paths_block_service_witness:
  "fst (fst (forward 9 9 AuctionService empty_context demo_public (forward_all AuctionService
     (replicate 5 (1, 1, empty_context, demo_request ''/api/v1/auctions/%zz'' (\<lambda>_. []))) (new_gateway (\<lambda>_. ''http://x'') 2 [])))) = 503"
proof -
  have "\<not> url_parses (target (demo_request ''/api/v1/auctions/%zz'' (\<lambda>_. [])))" by code_simp
  then show ?thesis
    using malformed_paths_block_service [of "replicate 5 (1, 1, empty_context, demo_request ''/api/v1/auctions/%zz'' (\<lambda>_. []))" 2 9 AuctionService]
    by (simp add: second_def numeral_eq_Suc)
qed

text \<open>A reply of the service, whatever its status, is a success for the breaker: errors of the server never open it; and their body is lost.\<close>

lemma server_errors_close_breaker:
  assumes "forward t t' svc cx rq g = ((status, h, b), g')" and "0 \<le> gw_retries g" and "fst (proxy_allow t (gw_cb g svc))"
    and "status \<noteq> 502"
  shows "pb_state (gw_cb g' svc) = PClosed \<and> pb_failures (gw_cb g' svc) = 0 \<and> (500 \<le> status \<longrightarrow> b = [])"
proof -
  have 5: "attempt n cx rq base g0 = (Replied st h' b' k, g1) \<Longrightarrow> 500 \<le> st \<Longrightarrow> k = 0" for n g0 st h' b' k g1 base
  proof (induction n arbitrary: g0)
    case 0
    then show ?case by (auto simp: attempt.simps [of 0] split: prod.splits reply.splits if_splits)
  next
    case (Suc n)
    then show ?case by (auto simp: attempt.simps [of "Suc n"] split: prod.splits reply.splits if_splits)
  qed
  show ?thesis using assms 5
    by (auto simp: forward_def Let_def proxy_success_def set_breaker_def split: prod.splits bool.splits reply.splits)
qed

lemma malformed_routed: "find_route (demo_request ''/api/v1/auctions/%zz'' h) = Some (Public, Proxy AuctionService)"
  by (simp add: find_route_def demo_request_def gw_routes_def local_routes_def api_routes_def)

subsection \<open>The rate limit does not see tokens\<close>

text \<open>The limiter runs before the token is checked, so that every request counts as anonymous, and the limit for users is never used.\<close>

lemma limited_as_anonymous:
  assumes "en_gate env rq = None"
  shows "\<exists>rest. gr_headers (fst (handle env ck rq s)) ''X-Ratelimit-Limit'' =
    itoa (effective_limit default_rate_config False (extract_endpoint (gq_path rq))) # rest"
proof -
  obtain refused hl sl where l: "limit_request default_rate_config (gk_limit ck) rq (start_context ck rq) (gs_limits s) = ((refused, hl), sl)"
    by (metis prod.exhaust)
  have hl: "hl ''X-Ratelimit-Limit'' = [itoa (effective_limit default_rate_config False (extract_endpoint (gq_path rq)))]"
    using l by (auto simp: limit_request_def Let_def set_header_def split: prod.splits if_splits)
  have h1: "\<exists>rest. add_headers (add_headers (set_header header_correlation v (\<lambda>_. [])) hl) h ''X-Ratelimit-Limit'' =
      itoa (effective_limit default_rate_config False (extract_endpoint (gq_path rq))) # rest" for v h
    using hl by (simp add: add_headers_def set_header_def header_names)
  have h0: "\<exists>rest. add_headers (set_header header_correlation v (\<lambda>_. [])) hl ''X-Ratelimit-Limit'' =
      itoa (effective_limit default_rate_config False (extract_endpoint (gq_path rq))) # rest" for v
    using hl by (simp add: add_headers_def set_header_def header_names)
  show ?thesis
    unfolding handle_def Let_def start_context_def [symmetric] assms option.case l prod.case
    by (auto split: option.split prod.split sum.split simp: h0 h1)
qed

end
