(* ===== verification/PodLimits.thy ===== *)
theory PodLimits
  imports SlidingWindow "HOL-Library.AList"
begin

text \<open>
  Limits a pod keeps by itself or with Redis: load shedding under memory pressure (\<^verbatim>\<open>api-gateway/internal/middleware/memory_pressure.go\<close>),
  the number of web sockets (\<^verbatim>\<open>pkg/pool/websocket.go\<close>), requests per minute at the user service (\<^verbatim>\<open>middleware/rate_limit.go\<close>), and
  the versions of the API that are served at once (\<^verbatim>\<open>api-gateway/internal/router/version_router.go\<close>).
\<close>

subsection \<open>Memory pressure\<close>

record pressure_config =
  pc_limit :: nat
  pc_high :: float64
  pc_low :: float64
  pc_retry :: int
  pc_interval :: duration

definition default_pod_limit :: nat where
  "default_pod_limit = 512 * 1024 * 1024"

text \<open>Fields that are zero get their defaults.\<close>

definition pressure_defaults :: "pressure_config \<Rightarrow> pressure_config" where
  "pressure_defaults c = \<lparr>pc_limit = (if pc_limit c = 0 then default_pod_limit else pc_limit c),
     pc_high = (if pc_high c = 0 then fl (85 / 100) else pc_high c), pc_low = (if pc_low c = 0 then fl (80 / 100) else pc_low c),
     pc_retry = (if pc_retry c = 0 then 30 else pc_retry c), pc_interval = (if pc_interval c = 0 then 5 * second else pc_interval c)\<rparr>"

definition usage_ratio :: "pressure_config \<Rightarrow> nat \<Rightarrow> float64" where
  "usage_ratio c used = fl (fl (of_nat used) / fl (of_nat (pc_limit c)))"

text \<open>One tick of the monitor: whether requests are rejected after it.\<close>

definition check_memory :: "pressure_config \<Rightarrow> nat \<Rightarrow> bool \<Rightarrow> bool" where
  "check_memory c used shedding =
     (let r = usage_ratio c used in
      if \<not> shedding \<and> pc_high c \<le> r then True
      else if shedding \<and> r < pc_low c then False
      else shedding)"

definition pressure_middleware :: "pressure_config \<Rightarrow> bool \<Rightarrow> (nat \<times> int) option" where
  "pressure_middleware c shedding = (if shedding then Some (503, pc_retry c) else None)"

text \<open>An unsigned decimal number of 64 bits.\<close>

definition parse_uint :: "string \<Rightarrow> nat option" where
  "parse_uint s = (if s \<noteq> [] \<and> (\<forall>c \<in> set s. 48 \<le> (of_char c :: nat) \<and> (of_char c :: nat) \<le> 57)
     then (let n = foldl (\<lambda>n c. 10 * n + (of_char c - 48)) 0 s in if n < 2 ^ 64 then Some n else None) else None)"

definition trim_newline :: "string \<Rightarrow> string" where
  "trim_newline s = rev (dropWhile (\<lambda>c. c = CHR 0x0A \<or> c = CHR 0x0D) (rev s))"

definition positive :: "nat option \<Rightarrow> nat option" where
  "positive x = (case x of Some n \<Rightarrow> if 0 < n then Some n else None | None \<Rightarrow> None)"

text \<open>The variable, then the files of the two versions of control groups; a file that cannot be read is \<open>None\<close>.\<close>

definition read_pod_limit :: "string \<Rightarrow> string option \<Rightarrow> string option \<Rightarrow> nat" where
  "read_pod_limit var v2 v1 =
     (case positive (if var = [] then None else parse_uint var) of Some n \<Rightarrow> n
      | None \<Rightarrow> (case positive (case v2 of None \<Rightarrow> None | Some d \<Rightarrow> if trim_newline d = ''max'' then None else parse_uint (trim_newline d)) of Some n \<Rightarrow> n
        | None \<Rightarrow> (case positive (case v1 of None \<Rightarrow> None | Some d \<Rightarrow> parse_uint (trim_newline d)) of
              Some n \<Rightarrow> if n < 2 ^ 62 then n else default_pod_limit
            | None \<Rightarrow> default_pod_limit)))"

subsection \<open>Web sockets\<close>

record ws_limiter =
  wl_max :: int
  wl_timeout :: duration
  wl_current :: int
  wl_beats :: "(string \<times> time) list"

text \<open>The steps of accepting and releasing a connection that other goroutines may come between.\<close>

definition ws_cas :: "int \<Rightarrow> ws_limiter \<Rightarrow> bool \<times> ws_limiter" where
  "ws_cas seen w = (if wl_current w = seen then (True, w\<lparr>wl_current := seen + 1\<rparr>) else (False, w))"

definition record_heartbeat :: "string \<Rightarrow> time \<Rightarrow> ws_limiter \<Rightarrow> ws_limiter" where
  "record_heartbeat c t w = w\<lparr>wl_beats := AList.update c t (wl_beats w)\<rparr>"

definition ws_forget :: "string \<Rightarrow> ws_limiter \<Rightarrow> ws_limiter" where
  "ws_forget c w = w\<lparr>wl_beats := AList.delete c (wl_beats w)\<rparr>"

definition at_capacity :: "ws_limiter \<Rightarrow> bool" where
  "at_capacity w \<longleftrightarrow> wl_max w \<le> wl_current w"

definition timed_out :: "time \<Rightarrow> ws_limiter \<Rightarrow> string list" where
  "timed_out t w = map fst (filter (\<lambda>(c, b). b < t - wl_timeout w) (wl_beats w))"

text \<open>Where a connection is in \<^verbatim>\<open>TryAccept\<close> and \<^verbatim>\<open>Release\<close>.\<close>

datatype ws_phase = Outside | Seen int | Counted | Connected | Below | Leaving

inductive ws_step :: "ws_limiter \<times> (string \<Rightarrow> ws_phase) \<Rightarrow> ws_limiter \<times> (string \<Rightarrow> ws_phase) \<Rightarrow> bool" where
  load: "ph c = Outside \<Longrightarrow> ws_step (w, ph) (w, ph(c := Seen (wl_current w)))"
| reject: "ph c = Seen n \<Longrightarrow> wl_max w \<le> n \<Longrightarrow> ws_step (w, ph) (w, ph(c := Outside))"
| accept: "ph c = Seen n \<Longrightarrow> n < wl_max w \<Longrightarrow> ws_cas n w = (True, w') \<Longrightarrow> ws_step (w, ph) (w', ph(c := Counted))"
| again: "ph c = Seen n \<Longrightarrow> n < wl_max w \<Longrightarrow> ws_cas n w = (False, w') \<Longrightarrow> ws_step (w, ph) (w', ph(c := Outside))"
| enter: "ph c = Counted \<Longrightarrow> ws_step (w, ph) (record_heartbeat c t w, ph(c := Connected))"
| beat: "ph c = Connected \<Longrightarrow> ws_step (w, ph) (record_heartbeat c t w, ph)"
| leave: "ph c = Connected \<Longrightarrow>
    ws_step (w, ph) (w\<lparr>wl_current := wl_current w - 1\<rparr>, ph(c := (if wl_current w - 1 < 0 then Below else Leaving)))"
| clamp: "ph c = Below \<Longrightarrow> ws_step (w, ph) (w\<lparr>wl_current := 0\<rparr>, ph(c := Leaving))"
| leave_map: "ph c = Leaving \<Longrightarrow> ws_step (w, ph) (ws_forget c w, ph(c := Outside))"

text \<open>The same without others in between.\<close>

definition try_accept :: "string \<Rightarrow> time \<Rightarrow> ws_limiter \<Rightarrow> bool \<times> ws_limiter" where
  "try_accept c t w = (if at_capacity w then (False, w) else (True, record_heartbeat c t (snd (ws_cas (wl_current w) w))))"

definition ws_release :: "string \<Rightarrow> ws_limiter \<Rightarrow> ws_limiter" where
  "ws_release c w = ws_forget c (w\<lparr>wl_current := (if wl_current w - 1 < 0 then 0 else wl_current w - 1)\<rparr>)"

subsection \<open>Requests at the user service\<close>

definition user_limit_key :: "string \<Rightarrow> string \<Rightarrow> string" where
  "user_limit_key path ip = ''ratelimit:'' @ path @ '':'' @ ip"

text \<open>Whether a request passes. Without Redis, and when counting fails, it does.\<close>

definition user_rate_limit :: "int \<Rightarrow> duration \<Rightarrow> time \<Rightarrow> string \<Rightarrow> string \<Rightarrow> rl_redis option \<Rightarrow> bool \<times> rl_redis option" where
  "user_rate_limit requests window t path ip rd = (case rd of
     None \<Rightarrow> (True, None)
   | Some r \<Rightarrow> (case redis_incr (user_limit_key path ip) t r of
        (None, r1) \<Rightarrow> (True, Some r1)
      | (Some n, r1) \<Rightarrow> (n \<le> requests, Some (if n = 1 then redis_expire (user_limit_key path ip) window t r1 else r1))))"

subsection \<open>Versions of the API\<close>

record version_config =
  vc_deprecated :: bool
  vc_sunset :: "time option"

record version_router =
  vr_versions :: "string list"
  vr_configs :: "(string \<times> version_config) list"
  vr_max :: int

definition new_version_router :: "int \<Rightarrow> version_router" where
  "new_version_router n = \<lparr>vr_versions = [], vr_configs = [], vr_max = (let m = (if n < 2 then 2 else n) in if 3 < m then 3 else m)\<rparr>"

definition version_active :: "time \<Rightarrow> version_config \<Rightarrow> bool" where
  "version_active t c \<longleftrightarrow> \<not> vc_deprecated c \<or> (case vc_sunset c of None \<Rightarrow> True | Some d \<Rightarrow> t < d)"

definition active_versions :: "time \<Rightarrow> version_router \<Rightarrow> string list" where
  "active_versions t r = map fst (filter (\<lambda>(v, c). version_active t c) (vr_configs r))"

definition register_version :: "time \<Rightarrow> string \<Rightarrow> version_config \<Rightarrow> version_router \<Rightarrow> bool \<times> version_router" where
  "register_version t v c r =
     (let active = length (filter (\<lambda>v'. v' \<noteq> v) (active_versions t r)) in
      if v \<notin> set (vr_versions r) \<and> vr_max r \<le> int active then (False, r)
      else (True, r\<lparr>vr_versions := List.insert v (vr_versions r), vr_configs := AList.update v c (vr_configs r)\<rparr>))"

definition update_version_config :: "string \<Rightarrow> version_config \<Rightarrow> version_router \<Rightarrow> bool \<times> version_router" where
  "update_version_config v c r = (if v \<notin> set (vr_versions r) then (False, r) else (True, r\<lparr>vr_configs := AList.update v c (vr_configs r)\<rparr>))"

definition supported_versions :: "time \<Rightarrow> version_router \<Rightarrow> string list" where
  "supported_versions t r = map (\<lambda>v. ''/api/'' @ v) (active_versions t r)"

text \<open>410 with the versions that are supported, or on with the date of the deprecation headers; the second clock is read for the list.\<close>

datatype version_answer = Gone "string list" | Go "time option" | NoVersion "string list"

definition version_middleware :: "time \<Rightarrow> time \<Rightarrow> string \<Rightarrow> version_router \<Rightarrow> version_answer" where
  "version_middleware t t' v r = (case map_of (vr_configs r) v of
     None \<Rightarrow> Go None
   | Some c \<Rightarrow> (case vc_sunset c of
        Some d \<Rightarrow> if vc_deprecated c \<and> d < t then Gone (supported_versions t' r) else Go (if vc_deprecated c then Some d else None)
      | None \<Rightarrow> Go None))"

definition version_not_found :: "time \<Rightarrow> string \<Rightarrow> version_router \<Rightarrow> version_answer" where
  "version_not_found t path r =
     (if take 5 path \<noteq> ''/api/'' then Go None
      else (let v = takeWhile (\<lambda>c. c \<noteq> CHR ''/'') (drop 5 path) in
        if v = [] \<or> v \<in> set (vr_versions r) then Go None else NoVersion (supported_versions t r)))"

end
