(* ===== verification/Logging.thy ===== *)
theory Logging
  imports Prelude "HOL-Library.AList" "HOL-Library.Sublist"
begin

text \<open>
  The shared logger (\<^verbatim>\<open>pkg/logger/logger.go\<close>): redaction of secrets, suppression of repeated entries, and the fields it adds. The
  library \<^verbatim>\<open>zap\<close> behind it is the list of the lines that are written; a line has its level, its message and its fields.
\<close>

datatype level = DebugLevel | InfoLevel | WarnLevel | ErrorLevel

text \<open>A field is a string, or something else that the redaction passes over, such as an error.\<close>

datatype field_value = StringField string | IntField int | BoolField bool | OtherField string

type_synonym log_field = "string \<times> field_value"

record log_line =
  ll_level :: level
  ll_msg :: string
  ll_fields :: "log_field list"

subsection \<open>Redaction\<close>

fun contains :: "string \<Rightarrow> string \<Rightarrow> bool" where
  "contains u [] = (u = [])"
| "contains u (c # s) = (prefix u (c # s) \<or> contains u s)"

text \<open>\<^verbatim>\<open>strings.ReplaceAll\<close> of a text that is not empty.\<close>

function replace_all :: "string \<Rightarrow> string \<Rightarrow> string \<Rightarrow> string" where
  "replace_all old new s =
     (if s = [] \<or> old = [] then s
      else if prefix old s then new @ replace_all old new (drop (length old) s)
      else hd s # replace_all old new (tl s))"
  by pat_completeness auto
termination by (relation "measure (\<lambda>(old, new, s). length s)") (auto simp: length_greater_0_conv simp flip: length_greater_0_conv)

declare replace_all.simps [simp del]

definition redacted :: string where
  "redacted = ''[REDACTED]''"

text \<open>The parts of a secret of at least four characters, the longest first.\<close>

definition secret_parts :: "string \<Rightarrow> string list" where
  "secret_parts secret = concat (map (\<lambda>n. map (\<lambda>i. take n (drop i secret)) [0..<Suc (length secret - n)]) (rev [4..<Suc (length secret)]))"

definition redact_secret :: "string \<Rightarrow> string \<Rightarrow> string" where
  "redact_secret secret input = fold (\<lambda>part s. if contains part s then replace_all part redacted s else s) (secret_parts secret) input"

definition redact :: "string list \<Rightarrow> string \<Rightarrow> string" where
  "redact secrets input = fold (\<lambda>secret s. if length secret < 4 then s else redact_secret secret s) secrets input"

definition redact_fields :: "string list \<Rightarrow> log_field list \<Rightarrow> log_field list" where
  "redact_fields secrets fs = map (\<lambda>(k, v). (k, case v of StringField s' \<Rightarrow> StringField (redact secrets s') | _ \<Rightarrow> v)) fs"

subsection \<open>Repeated entries\<close>

record dedup =
  dd_entries :: "((level \<times> string) \<times> (int \<times> time)) list"
  dd_window :: duration
  dd_threshold :: int

definition should_suppress :: "level \<Rightarrow> string \<Rightarrow> time \<Rightarrow> dedup \<Rightarrow> bool \<times> dedup" where
  "should_suppress lv msg t d = (case map_of (dd_entries d) (lv, msg) of
     None \<Rightarrow> (False, d\<lparr>dd_entries := AList.update (lv, msg) (1, t + dd_window d) (dd_entries d)\<rparr>)
   | Some (n, e) \<Rightarrow>
       if e < t then (False, d\<lparr>dd_entries := AList.update (lv, msg) (1, t + dd_window d) (dd_entries d)\<rparr>)
       else (dd_threshold d < n + 1, d\<lparr>dd_entries := AList.update (lv, msg) (n + 1, e) (dd_entries d)\<rparr>))"

text \<open>The summaries of a flush, as lines with the number of entries suppressed.\<close>

definition flush_all :: "dedup \<Rightarrow> (level \<times> string \<times> int) list \<times> dedup" where
  "flush_all d = (map (\<lambda>((lv, m), n, _). (lv, m, n - dd_threshold d)) (filter (\<lambda>(_, n, _). 0 < n - dd_threshold d) (dd_entries d)),
     d\<lparr>dd_entries := []\<rparr>)"

definition suppressed_count :: "level \<Rightarrow> string \<Rightarrow> dedup \<Rightarrow> int" where
  "suppressed_count lv msg d = (case map_of (dd_entries d) (lv, msg) of None \<Rightarrow> 0
     | Some (n, _) \<Rightarrow> if n - dd_threshold d < 0 then 0 else n - dd_threshold d)"

subsection \<open>The logger\<close>

text \<open>Loggers made with \<^verbatim>\<open>With\<close> share the entries; each has fields of its own, which the library puts first.\<close>

record log_config =
  lc_service :: string
  lc_environment :: string
  lc_version :: string
  lc_window :: duration
  lc_threshold :: int
  lc_secrets :: "string list"

record logger =
  lg_base :: "log_field list"
  lg_secrets :: "string list"
  lg_correlation :: string

record log_state =
  ls_dedup :: dedup
  ls_lines :: "log_line list"

definition new_logger :: "log_config \<Rightarrow> logger \<times> log_state" where
  "new_logger c =
     (\<lparr>lg_base = [(''service_name'', StringField (lc_service c)), (''environment'', StringField (lc_environment c)), (''version'', StringField (lc_version c))],
        lg_secrets = lc_secrets c, lg_correlation = []\<rparr>,
      \<lparr>ls_dedup = \<lparr>dd_entries = [], dd_window = (if lc_window c = 0 then 60 * second else lc_window c),
         dd_threshold = (if lc_threshold c = 0 then 10 else lc_threshold c)\<rparr>, ls_lines = []\<rparr>)"

definition with_fields :: "log_field list \<Rightarrow> logger \<Rightarrow> logger" where
  "with_fields fs l = l\<lparr>lg_base := lg_base l @ fs\<rparr>"

definition with_correlation_id :: "string \<Rightarrow> logger \<Rightarrow> logger" where
  "with_correlation_id i l = l\<lparr>lg_base := lg_base l @ [(''correlation_id'', StringField i)], lg_correlation := i\<rparr>"

definition context_fields :: "logger \<Rightarrow> log_field list \<Rightarrow> log_field list" where
  "context_fields l fs =
     fs @ (if ''trace_id'' \<in> fst ` set fs then [] else [(''trace_id'', StringField [])]) @
       (if ''correlation_id'' \<in> fst ` set fs then [] else [(''correlation_id'', StringField (lg_correlation l))])"

definition log_entry :: "logger \<Rightarrow> level \<Rightarrow> string \<Rightarrow> log_field list \<Rightarrow> time \<Rightarrow> log_state \<Rightarrow> log_state" where
  "log_entry l lv msg fs t s =
     (let m = redact (lg_secrets l) msg; fs' = redact_fields (lg_secrets l) fs in
      case should_suppress lv m t (ls_dedup s) of (b, d) \<Rightarrow>
        if b then s\<lparr>ls_dedup := d\<rparr>
        else s\<lparr>ls_dedup := d, ls_lines := ls_lines s @ [\<lparr>ll_level = lv, ll_msg = m, ll_fields = lg_base l @ context_fields l fs'\<rparr>]\<rparr>)"

definition log_sync :: "logger \<Rightarrow> log_state \<Rightarrow> log_state" where
  "log_sync l s = (case flush_all (ls_dedup s) of (summ, d) \<Rightarrow>
     s\<lparr>ls_dedup := d, ls_lines := ls_lines s @ map (\<lambda>(lv, m, n). \<lparr>ll_level = lv, ll_msg = m, ll_fields = lg_base l @
       [(''suppressed_count'', IntField n), (''dedup_summary'', BoolField True)]\<rparr>) summ\<rparr>)"

end
