(* ===== verification/LoggingSpec.thy ===== *)
theory LoggingSpec
  imports Logging
begin

text \<open>
  What the logger guarantees: no part of four characters of a secret is left in a message, as long as the secrets have no character of
  the mark that replaces them; and of the entries repeated within a window as many are written as allowed, the others being counted.
\<close>

subsection \<open>Redaction\<close>

lemma contains_sublist: "contains u s = sublist u s"
proof (induction s)
  case (Cons c s)
  then show ?case by (auto simp: sublist_Cons_right)
qed simp

text \<open>Replacing a text that has no character of the new one: it is gone, and no other such text comes up.\<close>

definition plain :: "string \<Rightarrow> bool" where
  "plain u \<longleftrightarrow> u \<noteq> [] \<and> set u \<inter> set redacted = {}"

lemma redacted_nonempty [simp]: "redacted \<noteq> []"
  by (simp add: redacted_def)

lemma secret_apart: "plain u \<Longrightarrow> c \<in> set u \<Longrightarrow> c \<notin> set redacted"
  by (auto simp: plain_def)

lemma plain_not_mark: "plain u \<Longrightarrow> \<not> prefix u (redacted @ x)"
  by (cases u) (auto simp: plain_def redacted_def)

lemma sublist_past:
  assumes "\<forall>c \<in> set m. c \<notin> set u" and "u \<noteq> []" and "sublist u (m @ s)" shows "sublist u s"
  using assms(1,3)
proof (induction m)
  case (Cons c m)
  have "\<not> prefix u (c # m @ s)" using assms(2) Cons.prems(1) by (cases u) auto
  then have "sublist u (m @ s)" using Cons.prems(2) by (simp add: sublist_Cons_right)
  then show ?case using Cons by simp
qed simp

lemma sublist_past_mark: "plain u \<Longrightarrow> sublist u (redacted @ s) \<Longrightarrow> sublist u s"
  by (rule sublist_past) (auto simp: plain_def)

definition masked :: "string \<Rightarrow> string \<Rightarrow> string" where
  "masked old s = replace_all old redacted s"

lemma masked_simps:
  "masked old [] = []" "old \<noteq> [] \<Longrightarrow> s \<noteq> [] \<Longrightarrow> prefix old s \<Longrightarrow> masked old s = redacted @ masked old (drop (length old) s)"
  "\<not> prefix old (c # s) \<Longrightarrow> masked old (c # s) = c # masked old s" "masked [] s = s"
  by (simp_all add: masked_def replace_all.simps [of old] replace_all.simps [of "[]"])

text \<open>The two ways on: past an occurrence, or past a character.\<close>

lemma masked_induct [consumes 1, case_names empty hit miss]:
  assumes "old \<noteq> []" and "P []" and "\<And>s. s \<noteq> [] \<Longrightarrow> prefix old s \<Longrightarrow> P (drop (length old) s) \<Longrightarrow> P s"
    and "\<And>c s. \<not> prefix old (c # s) \<Longrightarrow> P s \<Longrightarrow> P (c # s)"
  shows "P s"
proof (induction s rule: length_induct)
  case (1 s)
  show ?case
  proof (cases "s = [] \<or> prefix old s")
    case True
    then show ?thesis using assms 1 by (cases "s = []") auto
  next
    case False
    then obtain c t where "s = c # t" by (cases s) auto
    then show ?thesis using assms(4) 1 False by auto
  qed
qed

lemma prefix_masked:
  assumes old: "old \<noteq> []" and "plain u" and "prefix u (masked old s)" shows "prefix u s"
  using assms
proof (induction s arbitrary: u rule: masked_induct [of old])
  case empty
  then show ?case by (simp add: masked_simps)
next
  case (hit s)
  then show ?case using plain_not_mark [of u] old by (simp add: masked_simps(2))
next
  case (miss c s)
  obtain d v where u: "u = d # v" using miss.prems(1) by (cases u) (auto simp: plain_def)
  then have p: "d = c" "prefix v (masked old s)" using miss.prems(2) miss.hyps by (simp_all add: masked_simps(3))
  show ?case
  proof (cases "v = []")
    case False
    then have "plain v" using miss.prems(1) u by (simp add: plain_def)
    then show ?thesis using miss.IH p u by simp
  qed (use p u in simp)
qed

lemma sublist_masked:
  assumes old: "old \<noteq> []" and "plain u" and "sublist u (masked old s)" shows "sublist u s"
  using assms
proof (induction s rule: masked_induct [of old])
  case empty
  then show ?case by (simp add: masked_simps)
next
  case (hit s)
  have "sublist u (redacted @ masked old (drop (length old) s))" using hit.prems(2) masked_simps(2) [OF old hit.hyps] by simp
  then have "sublist u (drop (length old) s)" by (rule hit.IH [OF hit.prems(1) sublist_past_mark [OF hit.prems(1)]])
  then show ?case by (meson sublist_drop sublist_order.order_trans)
next
  case (miss c s)
  then have "prefix u (masked old (c # s)) \<or> sublist u (masked old s)" by (simp add: masked_simps(3) sublist_Cons_right)
  then show ?case
  proof
    assume "prefix u (masked old (c # s))"
    then show ?thesis using prefix_masked [OF old miss.prems(1)] by (meson prefix_imp_sublist)
  next
    assume "sublist u (masked old s)"
    then show ?thesis using miss by (simp add: sublist_Cons_right)
  qed
qed

lemma masked_gone:
  assumes "plain old" shows "\<not> sublist old (masked old s)"
proof -
  have old: "old \<noteq> []" using assms by (simp add: plain_def)
  then show ?thesis
  proof (induction s rule: masked_induct [of old])
    case empty
    then show ?case using old by (simp add: masked_simps)
  next
    case (hit s)
    then show ?case using sublist_past_mark [OF assms] old by (auto simp: masked_simps(2))
  next
    case (miss c s)
    then show ?case using prefix_masked [OF old assms, of "c # s"] by (auto simp: masked_simps(3) sublist_Cons_right)
  qed
qed

definition mask_if :: "string \<Rightarrow> string \<Rightarrow> string" where
  "mask_if p s = (if contains p s then replace_all p redacted s else s)"

lemma mask_if_shrinks: "plain p \<Longrightarrow> plain u \<Longrightarrow> sublist u (mask_if p s) \<Longrightarrow> sublist u s"
  using sublist_masked [of p u s] by (auto simp: mask_if_def masked_def plain_def split: if_splits)

lemma mask_if_gone: "plain p \<Longrightarrow> \<not> sublist p (mask_if p s)"
  using masked_gone [of p s] by (auto simp: mask_if_def masked_def contains_sublist)

lemma masks_shrink: "\<forall>p \<in> set ps. plain p \<Longrightarrow> plain u \<Longrightarrow> sublist u (fold mask_if ps s) \<Longrightarrow> sublist u s"
  by (induction ps arbitrary: s) (auto dest: mask_if_shrinks)

lemma masks_gone: "\<forall>p \<in> set ps. plain p \<Longrightarrow> p \<in> set ps \<Longrightarrow> \<not> sublist p (fold mask_if ps s)"
proof (induction ps arbitrary: s)
  case (Cons q ps)
  show ?case
  proof (cases "p \<in> set ps")
    case False
    then have "p = q" using Cons.prems by simp
    then show ?thesis using masks_shrink [of ps p "mask_if q s"] mask_if_gone [of q s] Cons.prems(1) by auto
  qed (use Cons in simp)
qed simp

definition unmarked :: "string \<Rightarrow> bool" where
  "unmarked secret \<longleftrightarrow> set secret \<inter> set redacted = {}"

lemma in_secret_parts: "p \<in> set (secret_parts secret) \<longleftrightarrow>
    (\<exists>n \<in> {4..<Suc (length secret)}. \<exists>i \<in> {0..<Suc (length secret - n)}. p = take n (drop i secret))"
  by (simp add: secret_parts_def image_iff del: upt_Suc)

lemma secret_parts_iff: "p \<in> set (secret_parts secret) \<longleftrightarrow> sublist p secret \<and> 4 \<le> length p"
proof
  assume "p \<in> set (secret_parts secret)"
  then obtain n i where "p = take n (drop i secret)" "4 \<le> n" "n \<le> length secret" "i \<le> length secret - n"
    unfolding in_secret_parts by fastforce
  then show "sublist p secret \<and> 4 \<le> length p"
    using sublist_order.order_trans [OF sublist_take sublist_drop, of n i secret] by simp
next
  assume p: "sublist p secret \<and> 4 \<le> length p"
  then obtain a b where s: "secret = a @ p @ b" by (auto simp: sublist_def)
  have "p = take (length p) (drop (length a) secret)" "length p \<in> {4..<Suc (length secret)}" "length a \<in> {0..<Suc (length secret - length p)}"
    using p s by simp_all
  then show "p \<in> set (secret_parts secret)" unfolding in_secret_parts by blast
qed

lemma parts_plain: "unmarked secret \<Longrightarrow> p \<in> set (secret_parts secret) \<Longrightarrow> plain p"
  using set_mono_sublist [of p secret] by (auto simp: secret_parts_iff unmarked_def plain_def)

lemma redact_secret_fold: "redact_secret secret s = fold mask_if (secret_parts secret) s"
  unfolding redact_secret_def mask_if_def ..

lemma redact_shrinks: "\<forall>x \<in> set secrets. unmarked x \<Longrightarrow> plain u \<Longrightarrow> sublist u (redact secrets s) \<Longrightarrow> sublist u s"
proof (induction secrets arbitrary: s)
  case (Cons x xs)
  let ?s = "if length x < 4 then s else redact_secret x s"
  have "redact (x # xs) s = redact xs ?s" by (simp add: redact_def)
  then have s: "sublist u ?s" using Cons.IH [of ?s] Cons.prems by simp
  have "\<forall>p \<in> set (secret_parts x). plain p" using parts_plain [of x] Cons.prems(1) by simp
  then show ?case using s masks_shrink [OF _ Cons.prems(2), of "secret_parts x" s] by (cases "length x < 4") (simp_all add: redact_secret_fold)
qed (simp add: redact_def)

lemma redact_hides:
  assumes "\<forall>x \<in> set secrets. unmarked x" and "secret \<in> set secrets" and "sublist u secret" and "4 \<le> length u"
  shows "\<not> sublist u (redact secrets s)"
  using assms(1,2)
proof (induction secrets arbitrary: s)
  case (Cons x xs)
  let ?s = "if length x < 4 then s else redact_secret x s"
  have u: "plain u" using parts_plain [of secret u] Cons.prems assms(3,4) by (auto simp: secret_parts_iff)
  have r: "redact (x # xs) s = redact xs ?s" by (simp add: redact_def)
  show ?case
  proof (cases "secret = x")
    case True
    then have "4 \<le> length x" using assms(3,4) sublist_length_le [of u secret] by simp
    then have "\<not> sublist u ?s"
      using masks_gone [of "secret_parts x" u s] parts_plain [of x] Cons.prems(1) True assms(3,4) by (simp add: redact_secret_fold secret_parts_iff)
    then show ?thesis using r redact_shrinks [of xs u ?s] u Cons.prems(1) by auto
  next
    case False
    then show ?thesis using r Cons by auto
  qed
qed simp


text \<open>A secret with characters of the mark is found again in the mark itself; and a field given to \<^verbatim>\<open>With\<close> is not looked at.\<close>

lemma marked_secret_remains: "contains ''REDA'' (redact [''REDA''] ''REDA'')"
  by code_simp

lemma with_fields_leak:
  "(k, v) \<in> set fs \<Longrightarrow> line \<in> set (drop (length (ls_lines s)) (ls_lines (log_entry (with_fields fs l) lv msg gs t s))) \<Longrightarrow> (k, v) \<in> set (ll_fields line)"
  by (auto simp: log_entry_def Let_def with_fields_def split: prod.splits if_splits)

definition sample_logger :: logger where
  "sample_logger = \<lparr>lg_base = [], lg_secrets = [''hunter2''], lg_correlation = ''c''\<rparr>"

definition sample_log :: log_state where
  "sample_log = \<lparr>ls_dedup = \<lparr>dd_entries = [], dd_window = 60, dd_threshold = 10\<rparr>, ls_lines = []\<rparr>"


subsection \<open>Repeated entries\<close>

text \<open>A sequence of entries, and for each whether it was suppressed.\<close>

fun run_dedup :: "(level \<times> string \<times> time) list \<Rightarrow> dedup \<Rightarrow> ((level \<times> string) \<times> bool) list \<times> dedup" where
  "run_dedup [] d = ([], d)"
| "run_dedup ((lv, m, t) # xs) d = (let (b, d1) = should_suppress lv m t d; (bs, d2) = run_dedup xs d1 in (((lv, m), b) # bs, d2))"

definition outcomes :: "level \<times> string \<Rightarrow> ((level \<times> string) \<times> bool) list \<Rightarrow> bool list" where
  "outcomes key bs = map snd (filter (\<lambda>x. fst x = key) bs)"

lemma suppress_other: "(lv, m) \<noteq> key \<Longrightarrow> map_of (dd_entries (snd (should_suppress lv m t d))) key = map_of (dd_entries d) key"
  by (auto simp: should_suppress_def update_conv split: option.splits)

lemma suppress_params [simp]: "dd_window (snd (should_suppress lv m t d)) = dd_window d" "dd_threshold (snd (should_suppress lv m t d)) = dd_threshold d"
  by (auto simp: should_suppress_def split: option.splits)

lemma dedup_counts:
  assumes "map_of (dd_entries d) key = Some (n, e)" and "\<forall>(lv, m, t) \<in> set xs. (lv, m) = key \<longrightarrow> t \<le> e" and "run_dedup xs d = (bs, d')"
  shows "outcomes key bs = map (\<lambda>i. dd_threshold d < n + 1 + int i) [0..<length (outcomes key bs)] \<and>
    map_of (dd_entries d') key = Some (n + int (length (outcomes key bs)), e) \<and> dd_threshold d' = dd_threshold d"
  using assms
proof (induction xs arbitrary: d n bs)
  case Nil
  then show ?case by (simp add: outcomes_def)
next
  case (Cons x xs)
  obtain lv m t where x: "x = (lv, m, t)" using prod_cases3 by blast
  obtain b d1 where d1: "should_suppress lv m t d = (b, d1)" by fastforce
  obtain cs where cs: "run_dedup xs d1 = (cs, d')" "bs = ((lv, m), b) # cs" using Cons.prems(3) by (auto simp: x d1 split: prod.splits)
  have thr: "dd_threshold d1 = dd_threshold d" using suppress_params(2) [of lv m t d] d1 by simp
  have later: "\<forall>(lv, m, t) \<in> set xs. (lv, m) = key \<longrightarrow> t \<le> e" using Cons.prems(2) by simp
  show ?case
  proof (cases "(lv, m) = key")
    case False
    then have "map_of (dd_entries d1) key = Some (n, e)" using suppress_other [OF False, of t d] d1 Cons.prems(1) by simp
    then show ?thesis using Cons.IH [OF _ later cs(1)] cs(2) False thr by (simp add: outcomes_def)
  next
    case True
    then have "t \<le> e" using Cons.prems(2) by (simp add: x)
    then have b: "b = (dd_threshold d < n + 1)" "map_of (dd_entries d1) key = Some (n + 1, e)"
      using d1 Cons.prems(1) True by (auto simp: should_suppress_def update_conv)
    note ih = Cons.IH [OF b(2) later cs(1)]
    have o: "outcomes key bs = b # outcomes key cs" using cs(2) True by (simp add: outcomes_def)
    show ?thesis unfolding o using ih thr b(1) by (simp add: map_upt_Suc algebra_simps del: upt_Suc)
  qed
qed

text \<open>Of the entries with the same level and message from the first on until its window ends, among any others, as many are written as
  the threshold allows; the others are counted, for the summary.\<close>

theorem dedup_exact:
  assumes "map_of (dd_entries d) (lv, m) = None" and "1 \<le> dd_threshold d" and "\<forall>(lv', m', t') \<in> set xs. (lv', m') = (lv, m) \<longrightarrow> t' \<le> t + dd_window d"
    and "run_dedup ((lv, m, t) # xs) d = (bs, d')"
  shows "outcomes (lv, m) bs = map (\<lambda>i. dd_threshold d \<le> int i) [0..<length (outcomes (lv, m) bs)] \<and>
    suppressed_count lv m d' = max 0 (int (length (outcomes (lv, m) bs)) - dd_threshold d)"
proof -
  define d1 where "d1 = d\<lparr>dd_entries := AList.update (lv, m) (1, t + dd_window d) (dd_entries d)\<rparr>"
  have s: "should_suppress lv m t d = (False, d1)" using assms(1) by (simp add: should_suppress_def d1_def)
  obtain cs where cs: "run_dedup xs d1 = (cs, d')" "bs = ((lv, m), False) # cs" using assms(4) by (auto simp: s split: prod.splits)
  have e: "map_of (dd_entries d1) (lv, m) = Some (1, t + dd_window d)" by (simp add: d1_def update_conv)
  note c = dedup_counts [OF e assms(3) cs(1)]
  have o: "outcomes (lv, m) bs = False # outcomes (lv, m) cs" using cs(2) by (simp add: outcomes_def)
  have "outcomes (lv, m) cs = map (\<lambda>i. dd_threshold d \<le> int (Suc i)) [0..<length (outcomes (lv, m) cs)]"
  proof -
    have "(\<lambda>i. dd_threshold d1 < 1 + 1 + int i) = (\<lambda>i. dd_threshold d \<le> int (Suc i))" by (auto simp: fun_eq_iff d1_def)
    then show ?thesis using c by simp
  qed
  then have "outcomes (lv, m) bs = map (\<lambda>i. dd_threshold d \<le> int i) [0..<length (outcomes (lv, m) bs)]"
    unfolding o using assms(2) by (simp add: map_upt_Suc del: upt_Suc)
  moreover have "suppressed_count lv m d' = max 0 (int (length (outcomes (lv, m) bs)) - dd_threshold d)"
    using c by (simp add: suppressed_count_def o d1_def)
  ultimately show ?thesis by blast
qed

theorem dedup_exact_witness:
  "\<exists>bs d'. run_dedup [(InfoLevel, ''a'', 0), (InfoLevel, ''a'', 1), (WarnLevel, ''a'', 1), (InfoLevel, ''a'', 2)] \<lparr>dd_entries = [], dd_window = 60, dd_threshold = 2\<rparr> =
     (bs, d') \<and> suppressed_count InfoLevel ''a'' d' = max 0 (int (length (outcomes (InfoLevel, ''a'') bs)) - 2)"
proof -
  obtain bs d' where r: "run_dedup [(InfoLevel, ''a'', 0), (InfoLevel, ''a'', 1), (WarnLevel, ''a'', 1), (InfoLevel, ''a'', 2)]
      \<lparr>dd_entries = [], dd_window = 60, dd_threshold = 2\<rparr> = (bs, d')" by fastforce
  show ?thesis using dedup_exact [OF _ _ _ r] r by simp
qed

end
