(* ===== verification/Validation.thy ===== *)
theory Validation
  imports GoFmt "HOL-Library.Sublist"
begin

text \<open>
  Input validation (\<^verbatim>\<open>pkg/validation/validation.go\<close>, \<^verbatim>\<open>middleware.go\<close>) and the errors shared by the services
  (\<^verbatim>\<open>pkg/errors/errors.go\<close>). The validator library that walks over struct tags is not modelled; the rules registered with it are. A
  string is its bytes in UTF-8.
\<close>

subsection \<open>Rules\<close>

record field_error =
  fe_field :: string
  fe_message :: string

definition max_payload_size :: int where "max_payload_size = 1 * 1024 * 1024"
definition default_max_text :: int where "default_max_text = 1000"
definition max_bid_amount :: float64 where "max_bid_amount = fl (99999999999 / 100)"

definition byte_of :: "char \<Rightarrow> nat" where
  "byte_of c = of_char c"

definition hex_char :: "char \<Rightarrow> bool" where
  "hex_char c \<longleftrightarrow> (let n = byte_of c in 48 \<le> n \<and> n \<le> 57 \<or> 65 \<le> n \<and> n \<le> 70 \<or> 97 \<le> n \<and> n \<le> 102)"

text \<open>The pattern, a set of characters for each place; \<open>None\<close> is a hexadecimal digit.\<close>

definition uuid_pattern :: "string option list" where
  "uuid_pattern = replicate 8 None @ [Some ''-''] @ replicate 4 None @ [Some ''-''] @ [Some ''4''] @ replicate 3 None @ [Some ''-''] @
     [Some ''89abAB''] @ replicate 3 None @ [Some ''-''] @ replicate 12 None"

definition validate_uuid :: "string \<Rightarrow> bool" where
  "validate_uuid s \<longleftrightarrow> list_all2 (\<lambda>p c. case p of None \<Rightarrow> hex_char c | Some cs \<Rightarrow> c \<in> set cs) uuid_pattern s"

text \<open>\<^verbatim>\<open>html.EscapeString\<close>, and then the quotes once more.\<close>

definition escape_char :: "char \<Rightarrow> string" where
  "escape_char c = (if c = CHR ''&'' then ''&amp;'' else if c = CHR 0x27 then ''&#39;'' else if c = CHR ''<'' then ''&lt;''
     else if c = CHR ''>'' then ''&gt;'' else if c = CHR 0x22 then ''&#34;'' else [c])"

definition sanitize_string :: "string \<Rightarrow> string" where
  "sanitize_string s = concat (map (\<lambda>c. if c = CHR 0x27 then ''&#39;'' else [c]) (concat (map escape_char s)))"

definition validate_payload_size :: "int \<Rightarrow> bool" where
  "validate_payload_size n \<longleftrightarrow> n \<le> max_payload_size"

definition validate_text_length :: "string \<Rightarrow> int \<Rightarrow> bool" where
  "validate_text_length s n \<longleftrightarrow> int (length s) \<le> (if n \<le> 0 then default_max_text else n)"

text \<open>\<^verbatim>\<open>math.Round\<close>: halves away from zero.\<close>

definition round_away :: "float64 \<Rightarrow> int" where
  "round_away x = (if 0 \<le> x then \<lfloor>x + 1 / 2\<rfloor> else - \<lfloor>1 / 2 - x\<rfloor>)"

definition two_decimals :: "float64 \<Rightarrow> bool" where
  "two_decimals a = (let r = fl (of_int (round_away (fl (a * 100))) / 100) in \<bar>fl (a - r)\<bar> < fl (1 / 10 ^ 9))"

definition amount_error :: "string \<Rightarrow> field_error" where
  "amount_error m = \<lparr>fe_field = ''amount'', fe_message = m\<rparr>"

definition validate_bid_amount :: "float64 \<Rightarrow> field_error list" where
  "validate_bid_amount a =
     (if a \<le> 0 then [amount_error ''must be positive'']
      else (if max_bid_amount < a then [amount_error ''must not exceed 999999999.99''] else []) @
        (if two_decimals a then [] else [amount_error ''must have at most 2 decimal places'']))"

text \<open>The rules for tags: \<^verbatim>\<open>bid_amount\<close>, and \<^verbatim>\<open>max_text\<close> with the number of its parameter, if there is one.\<close>

definition bid_amount_tag :: "float64 \<Rightarrow> bool" where
  "bid_amount_tag a \<longleftrightarrow> \<not> a \<le> 0 \<and> \<not> max_bid_amount < a \<and> two_decimals a"

definition max_text_tag :: "string \<Rightarrow> int option \<Rightarrow> bool" where
  "max_text_tag s limit \<longleftrightarrow> int (length s) \<le> (case limit of None \<Rightarrow> default_max_text | Some n \<Rightarrow> n)"

text \<open>The encodings of the characters that are white space in Unicode.\<close>

definition white_space :: "string list" where
  "white_space = map (\<lambda>n. [char_of (n :: nat)]) [9, 10, 11, 12, 13, 32] @
     map (map (\<lambda>n. char_of (n :: nat)))
       ([[0xC2, 0x85], [0xC2, 0xA0], [0xE1, 0x9A, 0x80], [0xE2, 0x80, 0xA8], [0xE2, 0x80, 0xA9], [0xE2, 0x80, 0xAF], [0xE2, 0x81, 0x9F], [0xE3, 0x80, 0x80]] @
        map (\<lambda>n. [0xE2, 0x80, n]) [0x80..<0x8B])"

lemma white_space_nonempty: "w \<in> set white_space \<Longrightarrow> w \<noteq> []"
  by (auto simp: white_space_def)

lemma white_space_shorter: "s \<noteq> [] \<Longrightarrow> find (\<lambda>w. prefix w s) white_space = Some w \<Longrightarrow> length s - length w < length s"
  using white_space_nonempty [of w] find_SomeD [of "\<lambda>w. prefix w s" white_space w] by (cases w; cases s) auto

function blank :: "string \<Rightarrow> bool" where
  "blank s = (if s = [] then True else (case find (\<lambda>w. prefix w s) white_space of None \<Rightarrow> False | Some w \<Rightarrow> blank (drop (length w) s)))"
  by pat_completeness auto
termination by (relation "measure length") (auto dest: white_space_shorter)

declare blank.simps [simp del]

text \<open>The number rule: the position, and how many points and dashes came before.\<close>

fun numeric_rest :: "nat \<Rightarrow> nat \<Rightarrow> nat \<Rightarrow> string \<Rightarrow> bool" where
  "numeric_rest i dots dashes [] = True"
| "numeric_rest i dots dashes (c # s) =
     (if c = CHR ''.'' then dots + 1 \<le> 1 \<and> numeric_rest (i + 1) (dots + 1) dashes s
      else if c = CHR ''-'' then dashes + 1 \<le> 1 \<and> i = 0 \<and> numeric_rest (i + 1) dots (dashes + 1) s
      else 48 \<le> byte_of c \<and> byte_of c \<le> 57 \<and> numeric_rest (i + 1) dots dashes s)"

definition validate_query_param :: "string \<Rightarrow> string \<Rightarrow> string \<Rightarrow> field_error option" where
  "validate_query_param name value rule =
     (let err = (\<lambda>m. Some \<lparr>fe_field = name, fe_message = m\<rparr>) in
      if rule = ''uuid4'' then (if validate_uuid value then None else err ''must be a valid UUID v4 format'')
      else if rule = ''required'' then (if blank value then err ''is required'' else None)
      else if rule = ''numeric'' then (if numeric_rest 0 0 0 value then None else err ''must be a valid number'')
      else if rule = ''max_text'' then (if validate_text_length value 0 then None else err ''must not exceed 1000 characters'')
      else None)"

text \<open>The first byte in lower case; one that is not ASCII is no character, and is replaced.\<close>

definition format_field_name :: "string \<Rightarrow> string" where
  "format_field_name s = (case s of [] \<Rightarrow> [] | c # cs \<Rightarrow>
     (if 128 \<le> byte_of c then map (\<lambda>n. char_of (n :: nat)) [0xEF, 0xBF, 0xBD]
      else if 65 \<le> byte_of c \<and> byte_of c \<le> 90 then [char_of (byte_of c + 32)] else [c]) @ cs)"

definition build_error_message :: "string \<Rightarrow> string \<Rightarrow> string" where
  "build_error_message tag param =
     (if tag = ''required'' then ''is required''
      else if tag = ''min'' then ''must be at least '' @ param
      else if tag = ''max'' then ''must be at most '' @ param
      else if tag = ''email'' then ''must be a valid email address''
      else if tag = ''uuid4'' then ''must be a valid UUID v4 format''
      else if tag = ''bid_amount'' then ''must be a positive number with max 2 decimal places, not exceeding 999,999,999.99''
      else if tag = ''max_text'' then ''must not exceed '' @ (if param = [] then ''1000'' else param) @ '' characters''
      else if tag = ''gt'' then ''must be greater than '' @ param
      else if tag = ''lte'' then ''must be less than or equal to '' @ param
      else if tag = ''oneof'' then ''must be one of: '' @ param
      else if tag = ''url'' then ''must be a valid URL''
      else if tag = ''len'' then ''must be exactly '' @ param @ '' characters''
      else ''failed on '' @ [CHR 0x27] @ tag @ [CHR 0x27] @ '' validation'')"

text \<open>The refusal by the declared length (-1 when it is not known), and what the limited reader hands on, with an error past the limit.\<close>

definition payload_limit :: "int \<Rightarrow> nat option" where
  "payload_limit declared = (if max_payload_size < declared then Some 413 else None)"

definition limited_read :: "string \<Rightarrow> string \<times> bool" where
  "limited_read body = (take (nat max_payload_size) body, int (length body) \<le> max_payload_size)"

subsection \<open>Errors\<close>

datatype sentinel = ErrNotFound | ErrUnauthorized | ErrForbidden | ErrConflict | ErrBadRequest | ErrInternal | ErrTimeout | ErrServiceUnavailable

text \<open>An error: one of the fixed ones, an application error around another, one that wraps another, or any other.\<close>

datatype app_error = Sentinel sentinel | AppError nat string "app_error option" | Wrapped string app_error | Other string

text \<open>The chain of an error, as \<^verbatim>\<open>errors.As\<close> and \<^verbatim>\<open>errors.Is\<close> walk it.\<close>

fun chain :: "app_error \<Rightarrow> app_error list" where
  "chain (AppError c m (Some e)) = AppError c m (Some e) # chain e"
| "chain (Wrapped m e) = Wrapped m e # chain e"
| "chain e = [e]"

definition as_app_error :: "app_error \<Rightarrow> (nat \<times> string) option" where
  "as_app_error e = (case find (\<lambda>x. case x of AppError _ _ _ \<Rightarrow> True | _ \<Rightarrow> False) (chain e) of
     Some (AppError c m _) \<Rightarrow> Some (c, m) | _ \<Rightarrow> None)"

definition is_sentinel :: "app_error \<Rightarrow> sentinel \<Rightarrow> bool" where
  "is_sentinel e s \<longleftrightarrow> Sentinel s \<in> set (chain e)"

definition http_status :: "app_error \<Rightarrow> nat" where
  "http_status e = (case as_app_error e of Some (c, _) \<Rightarrow> c
     | None \<Rightarrow> if is_sentinel e ErrNotFound then 404 else if is_sentinel e ErrUnauthorized then 401 else if is_sentinel e ErrForbidden then 403
         else if is_sentinel e ErrConflict then 409 else if is_sentinel e ErrBadRequest then 400 else 500)"

definition user_message :: "app_error \<Rightarrow> string" where
  "user_message e = (case as_app_error e of Some (_, m) \<Rightarrow> m | None \<Rightarrow> ''an unexpected error occurred'')"

definition new_app_error :: "nat \<Rightarrow> string \<Rightarrow> app_error option \<Rightarrow> app_error" where
  "new_app_error c m e = AppError c m e"

definition not_found_error :: "string \<Rightarrow> app_error" where "not_found_error m = new_app_error 404 m (Some (Sentinel ErrNotFound))"
definition unauthorized_error :: "string \<Rightarrow> app_error" where "unauthorized_error m = new_app_error 401 m (Some (Sentinel ErrUnauthorized))"
definition forbidden_error :: "string \<Rightarrow> app_error" where "forbidden_error m = new_app_error 403 m (Some (Sentinel ErrForbidden))"
definition bad_request_error :: "string \<Rightarrow> app_error" where "bad_request_error m = new_app_error 400 m (Some (Sentinel ErrBadRequest))"
definition conflict_error :: "string \<Rightarrow> app_error" where "conflict_error m = new_app_error 409 m (Some (Sentinel ErrConflict))"
definition internal_error :: "string \<Rightarrow> app_error option \<Rightarrow> app_error" where "internal_error m e = new_app_error 500 m e"

text \<open>The text of an error, which may go to the log but not to the user.\<close>

definition sentinel_text :: "sentinel \<Rightarrow> string" where
  "sentinel_text s = (case s of ErrNotFound \<Rightarrow> ''not found'' | ErrUnauthorized \<Rightarrow> ''unauthorized'' | ErrForbidden \<Rightarrow> ''forbidden''
     | ErrConflict \<Rightarrow> ''conflict'' | ErrBadRequest \<Rightarrow> ''bad request'' | ErrInternal \<Rightarrow> ''internal server error''
     | ErrTimeout \<Rightarrow> ''request timeout'' | ErrServiceUnavailable \<Rightarrow> ''service unavailable'')"

fun error_text :: "app_error \<Rightarrow> string" where
  "error_text (Sentinel s) = sentinel_text s"
| "error_text (AppError c m None) = m"
| "error_text (AppError c m (Some e)) = m @ '': '' @ error_text e"
| "error_text (Wrapped m e) = m @ '': '' @ error_text e"
| "error_text (Other m) = m"

end
