(* ===== verification/ValidationSpec.thy ===== *)
theory ValidationSpec
  imports Validation
begin

text \<open>
  What the validation guarantees: a sanitized text has none of the characters of markup and can be read back; every whole number of cents
  up to the limit is a valid bid; and what it lets pass: amounts below a cent, and numbers without a digit. The status of an error is that
  of the first application error in it.
\<close>

subsection \<open>Sanitizing\<close>

text \<open>The reading back of the five entities.\<close>

function unescape :: "string \<Rightarrow> string" where
  "unescape s = (case s of [] \<Rightarrow> []
     | c # r \<Rightarrow> (if c \<noteq> CHR ''&'' then c # unescape r
         else if prefix ''&amp;'' s then CHR ''&'' # unescape (drop 5 s)
         else if prefix ''&#39;'' s then CHR 0x27 # unescape (drop 5 s)
         else if prefix ''&lt;'' s then CHR ''<'' # unescape (drop 4 s)
         else if prefix ''&gt;'' s then CHR ''>'' # unescape (drop 4 s)
         else if prefix ''&#34;'' s then CHR 0x22 # unescape (drop 5 s)
         else c # unescape r))"
  by pat_completeness auto
termination by (relation "measure length") auto

declare unescape.simps [simp del]

lemma unescape_escaped: "unescape (escape_char c @ s) = c # unescape s"
  by (simp add: escape_char_def unescape.simps [of "_ # _"])

lemma unescape_all: "unescape (concat (map escape_char s)) = s"
  by (induction s) (simp_all add: unescape_escaped unescape.simps [of "[]"])

lemma quotes_gone: "concat (map (\<lambda>c. if c = CHR 0x27 then ''&#39;'' else [c]) (concat (map escape_char s))) = concat (map escape_char s)"
  by (induction s) (simp_all add: escape_char_def)

lemma escaped_chars: "c \<in> set (escape_char d) \<Longrightarrow> c \<notin> {CHR ''<'', CHR ''>'', CHR 0x22, CHR 0x27}"
  by (auto simp: escape_char_def split: if_splits)

text \<open>A sanitized text contains no angle bracket and no quote, so that it can neither open a tag nor leave an attribute; and nothing is
  lost: reading the entities back gives the text.\<close>

theorem sanitize_roundtrip:
  "unescape (sanitize_string s) = s \<and> set (sanitize_string s) \<inter> {CHR ''<'', CHR ''>'', CHR 0x22, CHR 0x27} = {}"
proof
  show "unescape (sanitize_string s) = s" by (simp add: sanitize_string_def quotes_gone unescape_all)
  show "set (sanitize_string s) \<inter> {CHR ''<'', CHR ''>'', CHR 0x22, CHR 0x27} = {}"
    using escaped_chars by (fastforce simp: sanitize_string_def quotes_gone)
qed

subsection \<open>Amounts\<close>

lemma small_constant: "0 < fl (1 / 10 ^ 9)"
  by code_simp

lemma max_bid_dec: "max_bid_amount = dec 99999999999"
  by (simp add: max_bid_amount_def dec_def)

lemma round_away_near:
  assumes "\<bar>x - of_int c\<bar> < 1 / 2" and "0 \<le> x" shows "round_away x = c"
proof -
  have "\<lfloor>x + 1 / 2\<rfloor> = c" by (rule floor_unique) (use assms in linarith)+
  then show ?thesis using assms(2) by (simp add: round_away_def)
qed

lemma two_decimals_dec:
  assumes "1 \<le> c" and "c \<le> 99999999999"
  shows "two_decimals (dec c)"
proof -
  have r: "in_range c" using assms by (simp add: in_range_def)
  have near: "\<bar>dec c * 100 - of_int c\<bar> \<le> 100 / 1024" using dec_near [OF r] by linarith
  have "(1 :: rat) \<le> of_int c" "of_int c \<le> (99999999999 :: rat)"
    using assms by (simp_all add: of_int_le_iff [of _ 99999999999, simplified])
  then have "\<bar>dec c * 100\<bar> < 1099511627776" using near by linarith
  then have "\<bar>dec c * 100\<bar> < pow2 40" by (simp add: pow2_def)
  from fl_near [OF this] have f: "\<bar>fl (dec c * 100) - dec c * 100\<bar> \<le> 1 / 1024" by (simp add: pow2_def)
  have "\<bar>fl (dec c * 100) - of_int c\<bar> < 1 / 2" "0 \<le> fl (dec c * 100)" using near f \<open>1 \<le> of_int c\<close> by linarith+
  then have "round_away (fl (dec c * 100)) = c" by (rule round_away_near)
  then show ?thesis using small_constant by (simp add: two_decimals_def dec_def)
qed

text \<open>No valid bid is refused by rounding: every whole number of cents from one to 999,999,999.99, read into a float, passes.\<close>

theorem whole_cents_accepted:
  assumes "1 \<le> c" and "c \<le> 99999999999"
  shows "validate_bid_amount (dec c) = [] \<and> bid_amount_tag (dec c)"
proof -
  have r: "in_range c" "in_range 99999999999" "in_range 0" using assms by (simp_all add: in_range_def)
  have "\<not> dec c \<le> 0" using dec_le_iff [OF r(1,3)] assms(1) by (simp add: dec_def)
  moreover have "\<not> max_bid_amount < dec c" using dec_less_iff [OF r(2,1)] assms(2) by (simp add: max_bid_dec)
  ultimately show ?thesis using two_decimals_dec [OF assms] by (simp add: validate_bid_amount_def bid_amount_tag_def)
qed

theorem whole_cents_accepted_witness: "validate_bid_amount (dec 99999999999) = [] \<and> bid_amount_tag (dec 99999999999)"
  by (rule whole_cents_accepted) simp_all

text \<open>The tolerance lets through amounts that are no whole cents, and are stored as nothing.\<close>

lemma below_a_cent_accepted: "validate_bid_amount (1 / 2 ^ 31) = [] \<and> cents (1 / 2 ^ 31) = 0"
  by code_simp

lemma no_digit_is_numeric: "validate_query_param n ''-.'' ''numeric'' = None" "validate_query_param n [] ''numeric'' = None"
  by (simp_all add: validate_query_param_def Let_def)

subsection \<open>Errors\<close>

lemma chain_nonempty: "chain e \<noteq> []" "e \<in> set (chain e)"
  by (cases e rule: chain.cases; simp)+

text \<open>Wrapping an error changes neither its status nor its message for the user; two of the fixed errors have no status of their own.\<close>

lemma wrapping_keeps: "http_status (Wrapped m e) = http_status e" "user_message (Wrapped m e) = user_message e"
  by (simp_all add: http_status_def user_message_def as_app_error_def is_sentinel_def)

lemma unmapped_sentinels: "http_status (Sentinel ErrTimeout) = 500" "http_status (Sentinel ErrServiceUnavailable) = 500"
  by (simp_all add: http_status_def as_app_error_def is_sentinel_def)

lemma user_message_hides: "as_app_error e = None \<Longrightarrow> user_message e = ''an unexpected error occurred''"
  by (simp add: user_message_def)

end
