(* ===== verification/Shutdown.thy ===== *)
theory Shutdown
  imports Prelude
begin

text \<open>
  The shutdown handler of \<^verbatim>\<open>pkg/shutdown/shutdown.go\<close> and the adapters of \<^verbatim>\<open>kafka_adapter.go\<close> and \<^verbatim>\<open>db_adapter.go\<close>. A context
  is the time it ends, \<open>None\<close> when it has no end. A component is a function of the time its context ends and the time it is
  called, to its answer and the time it returns. What the handler does is recorded in the order it does it, with the times.
\<close>

record shut_config =
  sc_http :: duration
  sc_ws :: duration
  sc_kafka :: duration
  sc_db :: duration

definition default_shut_config :: shut_config where
  "default_shut_config = \<lparr>sc_http = 30 * second, sc_ws = 10 * second, sc_kafka = 10 * second, sc_db = 5 * second\<rparr>"

definition with_timeout :: "time option \<Rightarrow> duration \<Rightarrow> time \<Rightarrow> time" where
  "with_timeout ctx d t = (case ctx of None \<Rightarrow> t + d | Some e \<Rightarrow> min e (t + d))"

text \<open>The answer of a web socket manager or a flusher: how many are left over, and an error.\<close>

type_synonym drainer = "time \<Rightarrow> time \<Rightarrow> (nat \<times> string option) \<times> time"

text \<open>An HTTP server: draining it, and closing it by force, which does not wait.\<close>

record http_server =
  sv_drain :: "time \<Rightarrow> time \<Rightarrow> string option \<times> time"
  sv_close :: "string option"

text \<open>A pool: how long closing it takes, \<open>None\<close> when it never ends, its error, and which case the \<^verbatim>\<open>select\<close> takes when both are ready.\<close>

record pool =
  pl_takes :: "duration option"
  pl_error :: "string option"
  pl_tie :: bool

definition no_op_closer :: pool where
  "no_op_closer = \<lparr>pl_takes = Some 0, pl_error = None, pl_tie = True\<rparr>"

datatype shut_err = WsClose string | KafkaFlush string | HttpDrain string | HttpForce string | PoolClose nat string | PoolTimeout nat

datatype shut_step = CloseSockets | FlushKafka | DrainHttp | ForceHttp | ClosePools nat

record shut_handler =
  hd_config :: shut_config
  hd_server :: "http_server option"
  hd_ws :: "drainer option"
  hd_kafka :: "drainer option"
  hd_pools :: "pool list"
  hd_shutdown :: bool

datatype option_arg = WithServer http_server | WithSockets drainer | WithKafka drainer | WithDatabase pool

fun with_option :: "option_arg \<Rightarrow> shut_handler \<Rightarrow> shut_handler" where
  "with_option (WithServer s) h = h\<lparr>hd_server := Some s\<rparr>"
| "with_option (WithSockets w) h = h\<lparr>hd_ws := Some w\<rparr>"
| "with_option (WithKafka k) h = h\<lparr>hd_kafka := Some k\<rparr>"
| "with_option (WithDatabase p) h = h\<lparr>hd_pools := hd_pools h @ [p]\<rparr>"

definition new_handler :: "shut_config \<Rightarrow> option_arg list \<Rightarrow> shut_handler" where
  "new_handler cfg opts = fold with_option opts
     \<lparr>hd_config = cfg, hd_server = None, hd_ws = None, hd_kafka = None, hd_pools = [], hd_shutdown = False\<rparr>"

subsection \<open>The adapters\<close>

text \<open>Waiting for a goroutine in a \<^verbatim>\<open>select\<close> with the end of the context: whether the goroutine came first, and when.\<close>

definition await :: "duration option \<Rightarrow> bool \<Rightarrow> time \<Rightarrow> time \<Rightarrow> bool \<times> time" where
  "await takes tie e t = (case takes of
     None \<Rightarrow> (False, max e t)
   | Some d \<Rightarrow>
       let ready = t + max 0 d; over = max e t in
       if ready < over then (True, ready) else if over < ready then (False, over) else (tie, over))"

text \<open>The synchronous producer: \<^verbatim>\<open>Close\<close> takes some time and may fail.\<close>

definition sarama_flush :: "duration option \<Rightarrow> string option \<Rightarrow> bool \<Rightarrow> drainer" where
  "sarama_flush takes err tie e t = (case await takes tie e t of
     (True, t') \<Rightarrow> ((0, err), t')
   | (False, t') \<Rightarrow> ((1, Some ''context deadline exceeded''), t'))"

text \<open>The asynchronous one: \<open>failed\<close> counts the messages that its goroutine has taken from the channel of errors by some time.\<close>

definition async_flush :: "duration option \<Rightarrow> (time \<Rightarrow> nat) \<Rightarrow> bool \<Rightarrow> drainer" where
  "async_flush takes failed tie e t = (case await takes tie e t of
     (True, t') \<Rightarrow> ((failed t', None), t')
   | (False, t') \<Rightarrow> ((failed t', Some ''context deadline exceeded''), t'))"

subsection \<open>The steps\<close>

definition run_drainer :: "(string \<Rightarrow> shut_err) \<Rightarrow> shut_step \<Rightarrow> drainer option \<Rightarrow> duration \<Rightarrow> time option \<Rightarrow> time \<Rightarrow>
    shut_err list \<times> (shut_step \<times> time) list \<times> time" where
  "run_drainer wrap step dr d ctx t = (case dr of
     None \<Rightarrow> ([], [], t)
   | Some f \<Rightarrow> (case f (with_timeout ctx d t) t of ((_, err), t') \<Rightarrow>
       (case err of None \<Rightarrow> [] | Some e \<Rightarrow> [wrap e], [(step, t)], t')))"

definition run_server :: "http_server option \<Rightarrow> duration \<Rightarrow> time option \<Rightarrow> time \<Rightarrow> shut_err list \<times> (shut_step \<times> time) list \<times> time" where
  "run_server sv d ctx t = (case sv of
     None \<Rightarrow> ([], [], t)
   | Some s \<Rightarrow> (case sv_drain s (with_timeout ctx d t) t of
       (None, t') \<Rightarrow> ([], [(DrainHttp, t)], t')
     | (Some e, t') \<Rightarrow> (HttpDrain e # (case sv_close s of None \<Rightarrow> [] | Some c \<Rightarrow> [HttpForce c]), [(DrainHttp, t), (ForceHttp, t')], t')))"

text \<open>A goroutine for each pool: its error, if any, and when it is done.\<close>

definition close_pool :: "time \<Rightarrow> time \<Rightarrow> nat \<Rightarrow> pool \<Rightarrow> shut_err option \<times> time" where
  "close_pool e t i p = (case await (pl_takes p) (pl_tie p) e t of
     (True, t') \<Rightarrow> (map_option (PoolClose i) (pl_error p), t')
   | (False, t') \<Rightarrow> (Some (PoolTimeout i), t'))"

text \<open>The errors come in the order in which the goroutines are done; of those done at the same time in the order of the pools.\<close>

definition run_pools :: "pool list \<Rightarrow> duration \<Rightarrow> time option \<Rightarrow> time \<Rightarrow> shut_err list \<times> (shut_step \<times> time) list \<times> time" where
  "run_pools ps d ctx t = (if ps = [] then ([], [], t)
     else (let rs = map (\<lambda>(i, p). close_pool (with_timeout ctx d t) t i p) (enumerate 0 ps) in
       (List.map_filter fst (sort_key snd rs), [(ClosePools (length ps), t)], foldl max t (map snd rs))))"

text \<open>\<^verbatim>\<open>Shutdown\<close>: the errors, joined, what was done, and when it returned.\<close>

definition shutdown :: "time option \<Rightarrow> time \<Rightarrow> shut_handler \<Rightarrow> (shut_err list \<times> (shut_step \<times> time) list \<times> time) \<times> shut_handler" where
  "shutdown ctx t h =
     (if hd_shutdown h then (([], [], t), h)
      else let c = hd_config h in
        case run_drainer WsClose CloseSockets (hd_ws h) (sc_ws c) ctx t of (e1, s1, t1) \<Rightarrow>
        case run_drainer KafkaFlush FlushKafka (hd_kafka h) (sc_kafka c) ctx t1 of (e2, s2, t2) \<Rightarrow>
        case run_server (hd_server h) (sc_http c) ctx t2 of (e3, s3, t3) \<Rightarrow>
        case run_pools (hd_pools h) (sc_db c) ctx t3 of (e4, s4, t4) \<Rightarrow>
          ((e1 @ e2 @ e3 @ e4, s1 @ s2 @ s3 @ s4, t4), h\<lparr>hd_shutdown := True\<rparr>))"

text \<open>On the signal, with the background context, which has no end.\<close>

definition listen_and_shutdown :: "time \<Rightarrow> shut_handler \<Rightarrow> (shut_err list \<times> (shut_step \<times> time) list \<times> time) \<times> shut_handler" where
  "listen_and_shutdown = shutdown None"

end
