(* ===== verification/ShutdownSpec.thy ===== *)
theory ShutdownSpec
  imports Shutdown
begin

text \<open>
  How long a shutdown takes and what it does whatever fails. The contract of a component, to return by the end of
  its context, is a locale; the adapters of the program interpret it, and the pools too, as the handler waits for them only so long.
\<close>

definition on_time :: "(time \<Rightarrow> time \<Rightarrow> 'a \<times> time) \<Rightarrow> bool" where
  "on_time f \<longleftrightarrow> (\<forall>e t. t \<le> snd (f e t) \<and> snd (f e t) \<le> max e t)"

locale punctual =
  fixes f :: "time \<Rightarrow> time \<Rightarrow> 'a \<times> time"
  assumes on_time: "on_time f"
begin

lemma not_before: "t \<le> snd (f e t)"
  using on_time by (simp add: on_time_def)

lemma by_the_end: "snd (f e t) \<le> max e t"
  using on_time by (simp add: on_time_def)

lemma in_its_time:
  assumes "f (with_timeout ctx d t) t = (r, t')" and "0 \<le> d"
  shows "t \<le> t' \<and> t' \<le> t + d \<and> (\<forall>e. ctx = Some e \<longrightarrow> t' \<le> max e t)"
  using not_before [of t "with_timeout ctx d t"] by_the_end [of "with_timeout ctx d t" t] assms
  by (auto simp: with_timeout_def split: option.splits)

end

lemma await_on_time: "t \<le> snd (await takes tie e t) \<and> snd (await takes tie e t) \<le> max e t"
  by (auto simp: await_def Let_def split: option.splits)

lemma await_bounds [simp]:
  "await takes tie e t = (b, t') \<Longrightarrow> t \<le> t'" "await takes tie e t = (b, t') \<Longrightarrow> t' \<le> max e t"
  using await_on_time [of t takes tie e] by auto

interpretation sync: punctual "sarama_flush takes err tie" for takes err tie
  by unfold_locales (auto simp: on_time_def sarama_flush_def split: prod.splits bool.splits dest: await_bounds)

interpretation async: punctual "async_flush takes failed tie" for takes failed tie
  by unfold_locales (auto simp: on_time_def async_flush_def split: prod.splits bool.splits dest: await_bounds)

interpretation closing: punctual "\<lambda>e t. close_pool e t i p" for i p
  by unfold_locales (auto simp: on_time_def close_pool_def split: prod.splits bool.splits dest: await_bounds)

subsection \<open>The time of the steps\<close>

lemma run_drainer_time:
  assumes "run_drainer wrap step dr d ctx t = (es, ss, t')" and "pred_option on_time dr" and "0 \<le> d"
  shows "t \<le> t' \<and> t' \<le> t + (if dr = None then 0 else d) \<and> (\<forall>e. ctx = Some e \<longrightarrow> t' \<le> max e t)"
proof (cases dr)
  case (Some f)
  then obtain r where "f (with_timeout ctx d t) t = (r, t')" using assms(1) by (auto simp: run_drainer_def split: prod.splits)
  then show ?thesis using punctual.in_its_time [of f ctx d t r t'] assms Some by (simp add: punctual_def)
qed (use assms in \<open>auto simp: run_drainer_def\<close>)

lemma run_server_time:
  assumes "run_server sv d ctx t = (es, ss, t')" and "pred_option (\<lambda>s. on_time (sv_drain s)) sv" and "0 \<le> d"
  shows "t \<le> t' \<and> t' \<le> t + (if sv = None then 0 else d) \<and> (\<forall>e. ctx = Some e \<longrightarrow> t' \<le> max e t)"
proof (cases sv)
  case (Some s)
  then obtain r where "sv_drain s (with_timeout ctx d t) t = (r, t')"
    using assms(1) by (auto simp: run_server_def split: prod.splits option.splits)
  then show ?thesis using punctual.in_its_time [of "sv_drain s" ctx d t r t'] assms Some by (simp add: punctual_def)
qed (use assms in \<open>auto simp: run_server_def\<close>)

lemma close_pool_time:
  "0 \<le> d \<Longrightarrow> snd (close_pool (with_timeout ctx d t) t i p) \<le> t + d \<and> t \<le> snd (close_pool (with_timeout ctx d t) t i p) \<and>
     (\<forall>e. ctx = Some e \<longrightarrow> snd (close_pool (with_timeout ctx d t) t i p) \<le> max e t)"
  using closing.in_its_time [OF prod.collapse [symmetric]] by blast

lemma foldl_max_le: "foldl max t xs \<le> (b :: int) \<longleftrightarrow> t \<le> b \<and> (\<forall>x \<in> set xs. x \<le> b)"
  by (induction xs arbitrary: t) auto

lemma le_foldl_max: "t \<le> foldl max t (xs :: int list)"
  using foldl_max_le [of t xs "foldl max t xs"] by simp

lemma run_pools_time:
  assumes "run_pools ps d ctx t = (es, ss, t')" and "0 \<le> d"
  shows "t \<le> t' \<and> t' \<le> t + (if ps = [] then 0 else d) \<and> (\<forall>e. ctx = Some e \<longrightarrow> t' \<le> max e t)"
proof -
  have "t' = (if ps = [] then t else foldl max t (map snd (map (\<lambda>(i, p). close_pool (with_timeout ctx d t) t i p) (enumerate 0 ps))))"
    using assms(1) by (auto simp: run_pools_def Let_def split: if_splits)
  then show ?thesis
    using close_pool_time [OF assms(2), of ctx t] assms(2) by (auto simp: foldl_max_le le_foldl_max)
qed

text \<open>What may take time in a handler, and what a handler asks of its components.\<close>

definition budget :: "shut_handler \<Rightarrow> duration" where
  "budget h = (if hd_ws h = None then 0 else sc_ws (hd_config h)) + (if hd_kafka h = None then 0 else sc_kafka (hd_config h)) +
     (if hd_server h = None then 0 else sc_http (hd_config h)) + (if hd_pools h = [] then 0 else sc_db (hd_config h))"

definition punctual_handler :: "shut_handler \<Rightarrow> bool" where
  "punctual_handler h \<longleftrightarrow> pred_option on_time (hd_ws h) \<and> pred_option on_time (hd_kafka h) \<and>
     pred_option (\<lambda>s. on_time (sv_drain s)) (hd_server h) \<and>
     0 \<le> sc_ws (hd_config h) \<and> 0 \<le> sc_kafka (hd_config h) \<and> 0 \<le> sc_http (hd_config h) \<and> 0 \<le> sc_db (hd_config h)"

text \<open>A shutdown in its four steps.\<close>

lemma shutdown_steps:
  assumes "shutdown ctx t h = ((es, ss, t'), h')" and "\<not> hd_shutdown h"
  obtains e1 s1 t1 e2 s2 t2 e3 s3 t3 e4 s4 where
    "run_drainer WsClose CloseSockets (hd_ws h) (sc_ws (hd_config h)) ctx t = (e1, s1, t1)"
    "run_drainer KafkaFlush FlushKafka (hd_kafka h) (sc_kafka (hd_config h)) ctx t1 = (e2, s2, t2)"
    "run_server (hd_server h) (sc_http (hd_config h)) ctx t2 = (e3, s3, t3)"
    "run_pools (hd_pools h) (sc_db (hd_config h)) ctx t3 = (e4, s4, t')"
    "es = e1 @ e2 @ e3 @ e4" "ss = s1 @ s2 @ s3 @ s4" "h' = h\<lparr>hd_shutdown := True\<rparr>"
  using assms by (auto simp: shutdown_def Let_def split: prod.splits)

text \<open>Shutting down takes no longer than the timeouts of the components there are, together, and not past the end of the context: whatever hangs,
  as long as the web socket manager, the flusher and the server keep to the end of their contexts, as the flushers of the program do;
  a pool whose closing never ends is not waited for. Another call does nothing.\<close>

theorem shutdown_in_time:
  assumes "punctual_handler h" and "shutdown ctx t h = ((es, ss, t'), h')"
  shows "t' \<le> t + budget h \<and> (\<forall>e. ctx = Some e \<longrightarrow> t' \<le> max e t) \<and> (\<forall>c s. shutdown c s h' = (([], [], s), h'))"
proof (cases "hd_shutdown h")
  case False
  obtain e1 s1 t1 e2 s2 t2 e3 s3 t3 e4 s4 where
    r: "run_drainer WsClose CloseSockets (hd_ws h) (sc_ws (hd_config h)) ctx t = (e1, s1, t1)"
    "run_drainer KafkaFlush FlushKafka (hd_kafka h) (sc_kafka (hd_config h)) ctx t1 = (e2, s2, t2)"
    "run_server (hd_server h) (sc_http (hd_config h)) ctx t2 = (e3, s3, t3)"
    "run_pools (hd_pools h) (sc_db (hd_config h)) ctx t3 = (e4, s4, t')" and h': "h' = h\<lparr>hd_shutdown := True\<rparr>"
    using shutdown_steps [OF assms(2) False] by metis
  have p: "pred_option on_time (hd_ws h)" "pred_option on_time (hd_kafka h)" "pred_option (\<lambda>s. on_time (sv_drain s)) (hd_server h)"
    "0 \<le> sc_ws (hd_config h)" "0 \<le> sc_kafka (hd_config h)" "0 \<le> sc_http (hd_config h)" "0 \<le> sc_db (hd_config h)"
    using assms(1) by (simp_all add: punctual_handler_def)
  show ?thesis
    using run_drainer_time [OF r(1) p(1) p(4)] run_drainer_time [OF r(2) p(2) p(5)] run_server_time [OF r(3) p(3) p(6)]
      run_pools_time [OF r(4) p(7)] h' by (auto simp: budget_def shutdown_def)
qed (use assms in \<open>auto simp: punctual_handler_def budget_def shutdown_def\<close>)

lemma shutdown_in_time_witness:
  defines "h \<equiv> new_handler default_shut_config [WithKafka (sarama_flush (Some second) None True),
     WithServer \<lparr>sv_drain = (\<lambda>e t. (None, t)), sv_close = None\<rparr>, WithDatabase no_op_closer, WithDatabase \<lparr>pl_takes = None, pl_error = None, pl_tie = True\<rparr>]"
  shows "snd (snd (fst (shutdown None 0 h))) = 6 * second \<and> 6 * second \<le> budget h"
proof -
  have p: "punctual_handler h"
    using sync.on_time [of "Some second" None True]
    by (simp add: h_def new_handler_def punctual_handler_def default_shut_config_def) (simp add: on_time_def second_def)
  obtain es ss t' h' where r: "shutdown None 0 h = ((es, ss, t'), h')" by (metis surj_pair)
  have "snd (snd (fst (shutdown None 0 h))) = 6 * second" unfolding h_def by code_simp
  then show ?thesis using shutdown_in_time [OF p r] r by simp
qed

subsection \<open>What is done\<close>

lemma run_drainer_errors:
  assumes "run_drainer wrap step dr d ctx t = (es, ss, t')"
  shows "map fst ss = (if dr = None then [] else [step]) \<and> set es \<subseteq> range wrap"
  using assms by (auto simp: run_drainer_def split: option.splits prod.splits)

lemma run_server_errors:
  assumes "run_server sv d ctx t = (es, ss, t')"
  shows "filter (\<lambda>s. s \<noteq> ForceHttp) (map fst ss) = (if sv = None then [] else [DrainHttp]) \<and> set es \<subseteq> range HttpDrain \<union> range HttpForce \<and>
    (ForceHttp \<in> set (map fst ss) \<longleftrightarrow> (\<exists>e. HttpDrain e \<in> set es))"
  using assms by (auto simp: run_server_def split: option.splits prod.splits)

lemma set_map_filter_fst: "set (List.map_filter fst rs) = {e. \<exists>t. (Some e, t) \<in> set rs}"
  by (induction rs) (auto simp: List.map_filter_simps split: option.splits)

lemma in_enumerated: "x \<in> set (map (\<lambda>(i, p). f i p) (enumerate 0 ps)) \<longleftrightarrow> (\<exists>i < length ps. x = f i (ps ! i))"
proof
  assume "\<exists>i < length ps. x = f i (ps ! i)"
  then obtain i where "i < length ps" "x = f i (ps ! i)" by blast
  then have "(i, ps ! i) \<in> set (enumerate 0 ps)" "x = (\<lambda>(i, p). f i p) (i, ps ! i)" by (simp_all add: in_set_enumerate_eq)
  then show "x \<in> set (map (\<lambda>(i, p). f i p) (enumerate 0 ps))" unfolding set_map by (intro rev_image_eqI)
qed (auto simp: in_set_enumerate_eq)

lemma run_pools_errors:
  assumes "run_pools ps d ctx t = (es, ss, t')"
  shows "map fst ss = (if ps = [] then [] else [ClosePools (length ps)]) \<and>
    set es = {e. \<exists>i < length ps. fst (close_pool (with_timeout ctx d t) t i (ps ! i)) = Some e}"
proof (cases "ps = []")
  case False
  then have "es = List.map_filter fst (sort_key snd (map (\<lambda>(i, p). close_pool (with_timeout ctx d t) t i p) (enumerate 0 ps)))"
    "ss = [(ClosePools (length ps), t)]"
    using assms by (auto simp: run_pools_def Let_def)
  then show ?thesis using False
    by (simp only: set_map_filter_fst set_sort in_enumerated) (auto simp: prod_eq_iff)
qed (use assms in \<open>auto simp: run_pools_def\<close>)

lemma close_pool_errors: "fst (close_pool e t i p) = Some err \<Longrightarrow> err = PoolTimeout i \<or> (\<exists>m. err = PoolClose i m)"
  by (auto simp: close_pool_def split: prod.splits bool.splits)

text \<open>A pool without a parent deadline, that closes before its timeout, or never.\<close>

lemma quick_pool: "pl_takes p = Some d \<Longrightarrow> d < b \<Longrightarrow> 0 < b \<Longrightarrow> fst (close_pool (with_timeout None b t) t i p) = map_option (PoolClose i) (pl_error p)"
  by (simp add: close_pool_def await_def with_timeout_def)

lemma stuck_pool: "pl_takes p = None \<Longrightarrow> fst (close_pool e t i p) = Some (PoolTimeout i)"
  by (simp add: close_pool_def await_def)

text \<open>The steps are always the same, whatever fails before: the web sockets are closed, Kafka flushed, the server drained, and closed by force
  exactly if draining failed, and all pools closed. A pool that closes in time is reported exactly if it failed, and one that never closes is reported;
  neither depends on the others.\<close>

theorem shutdown_complete:
  assumes "\<not> hd_shutdown h" and "listen_and_shutdown t h = ((es, ss, t'), h')" and "0 < sc_db (hd_config h)"
  shows "filter (\<lambda>s. s \<noteq> ForceHttp) (map fst ss) =
       (if hd_ws h = None then [] else [CloseSockets]) @ (if hd_kafka h = None then [] else [FlushKafka]) @
       (if hd_server h = None then [] else [DrainHttp]) @ (if hd_pools h = [] then [] else [ClosePools (length (hd_pools h))]) \<and>
     (ForceHttp \<in> set (map fst ss) \<longleftrightarrow> (\<exists>e. HttpDrain e \<in> set es)) \<and>
     (\<forall>i < length (hd_pools h). case pl_takes (hd_pools h ! i) of
        None \<Rightarrow> PoolTimeout i \<in> set es
      | Some d \<Rightarrow> d < sc_db (hd_config h) \<longrightarrow> PoolTimeout i \<notin> set es \<and> (\<forall>m. PoolClose i m \<in> set es \<longleftrightarrow> pl_error (hd_pools h ! i) = Some m))"
    (is "?steps \<and> ?force \<and> ?pools")
proof -
  obtain e1 s1 t1 e2 s2 t2 e3 s3 t3 e4 s4 where
    r: "run_drainer WsClose CloseSockets (hd_ws h) (sc_ws (hd_config h)) None t = (e1, s1, t1)"
    "run_drainer KafkaFlush FlushKafka (hd_kafka h) (sc_kafka (hd_config h)) None t1 = (e2, s2, t2)"
    "run_server (hd_server h) (sc_http (hd_config h)) None t2 = (e3, s3, t3)"
    "run_pools (hd_pools h) (sc_db (hd_config h)) None t3 = (e4, s4, t')" and s: "es = e1 @ e2 @ e3 @ e4" "ss = s1 @ s2 @ s3 @ s4"
    using shutdown_steps [OF assms(2) [unfolded listen_and_shutdown_def] assms(1)] by metis
  note d = run_drainer_errors [OF r(1)] run_drainer_errors [OF r(2)] and v = run_server_errors [OF r(3)] and p = run_pools_errors [OF r(4)]
  have e4: "\<And>x. x \<in> set e4 \<longleftrightarrow> (\<exists>i < length (hd_pools h). fst (close_pool (with_timeout None (sc_db (hd_config h)) t3) t3 i (hd_pools h ! i)) = Some x)"
    using p by blast
  have other: "HttpDrain m \<notin> set e1 \<union> set e2 \<union> set e4" "PoolTimeout i \<notin> set e1 \<union> set e2 \<union> set e3" "PoolClose i m \<notin> set e1 \<union> set e2 \<union> set e3" for i m
    using d v by (auto simp: e4 dest!: close_pool_errors)
  have mine: "PoolTimeout i \<in> set e4 \<longleftrightarrow> i < length (hd_pools h) \<and> fst (close_pool (with_timeout None (sc_db (hd_config h)) t3) t3 i (hd_pools h ! i)) = Some (PoolTimeout i)"
    "PoolClose i m \<in> set e4 \<longleftrightarrow> i < length (hd_pools h) \<and> fst (close_pool (with_timeout None (sc_db (hd_config h)) t3) t3 i (hd_pools h ! i)) = Some (PoolClose i m)" for i m
    by (auto simp: e4 dest: close_pool_errors)
  have ?steps using d v p by (simp add: s)
  moreover have ?force using v other(1) d p by (auto simp: s split: if_splits)
  moreover have ?pools
    using other(2,3) by (auto simp: s mine stuck_pool quick_pool assms(3) split: option.splits)
  ultimately show ?thesis by blast
qed

lemma shutdown_complete_witness:
  defines "h \<equiv> new_handler default_shut_config [WithServer \<lparr>sv_drain = (\<lambda>e t. (Some ''busy'', e)), sv_close = None\<rparr>,
     WithDatabase \<lparr>pl_takes = None, pl_error = None, pl_tie = True\<rparr>, WithDatabase \<lparr>pl_takes = Some second, pl_error = Some ''io'', pl_tie = True\<rparr>]"
  shows "\<exists>es ss t' h'. listen_and_shutdown 0 h = ((es, ss, t'), h') \<and> PoolTimeout 0 \<in> set es \<and> PoolClose 1 ''io'' \<in> set es \<and> ForceHttp \<in> set (map fst ss)"
proof -
  obtain es ss t' h' where r: "listen_and_shutdown 0 h = ((es, ss, t'), h')" by (metis surj_pair)
  have h: "\<not> hd_shutdown h" "0 < sc_db (hd_config h)" "length (hd_pools h) = 2" "pl_takes (hd_pools h ! 0) = None"
    "pl_takes (hd_pools h ! 1) = Some second" "pl_error (hd_pools h ! 1) = Some ''io''" "second < sc_db (hd_config h)"
    by (simp_all add: h_def new_handler_def default_shut_config_def second_def)
  have "HttpDrain ''busy'' \<in> set (fst (fst (listen_and_shutdown 0 h)))"
    by (simp add: h_def new_handler_def listen_and_shutdown_def shutdown_def run_drainer_def run_server_def Let_def split: prod.splits)
  then have d: "\<exists>e. HttpDrain e \<in> set es" using r by auto
  note c = shutdown_complete [OF h(1) r h(2)]
  have f: "ForceHttp \<in> set (map fst ss)" using c d by blast
  have p: "\<forall>i < 2. case pl_takes (hd_pools h ! i) of None \<Rightarrow> PoolTimeout i \<in> set es
     | Some d \<Rightarrow> d < sc_db (hd_config h) \<longrightarrow> PoolTimeout i \<notin> set es \<and> (\<forall>m. PoolClose i m \<in> set es \<longleftrightarrow> pl_error (hd_pools h ! i) = Some m)"
    using c unfolding h(3) by blast
  have "PoolTimeout 0 \<in> set es" using p [rule_format, of 0] h(4) by simp
  moreover have "PoolClose 1 ''io'' \<in> set es" using p [rule_format, of 1] h(5-7) by simp
  ultimately show ?thesis using f r by blast
qed

text \<open>The first step only writes a log line: until Kafka is flushed the server goes on accepting requests. And the default timeouts add up
  to 55 seconds, more than the 30 or 45 seconds after which Kubernetes kills all services but one.\<close>

lemma slow_shutdown:
  defines "hung \<equiv> (\<lambda>e (t :: time). ((1 :: nat, Some ''timeout''), e :: time))"
  defines "h \<equiv> new_handler default_shut_config [WithSockets hung, WithKafka hung, WithServer \<lparr>sv_drain = (\<lambda>e t. (Some ''timeout'', e)), sv_close = None\<rparr>,
     WithDatabase \<lparr>pl_takes = None, pl_error = None, pl_tie = True\<rparr>]"
  shows "(DrainHttp, 20 * second) \<in> set (fst (snd (fst (listen_and_shutdown 0 h))))" and "snd (snd (fst (listen_and_shutdown 0 h))) = 55 * second"
  by (simp_all add: h_def hung_def new_handler_def default_shut_config_def listen_and_shutdown_def shutdown_def run_drainer_def run_server_def
    run_pools_def close_pool_def await_def with_timeout_def Let_def second_def)

end
