(* ===== verification/Secrets.thy ===== *)
theory Secrets
  imports Shutdown Float64 Validation
begin

text \<open>
  The secrets of \<^verbatim>\<open>pkg/secrets\<close>: the manager of \<^verbatim>\<open>secrets.go\<close> with its attempts at start-up, the provider over Vault
  (\<^verbatim>\<open>vault.go\<close>) and the one over mounted files (\<^verbatim>\<open>sealed_secrets.go\<close>). The replies of Vault and the file system are arguments.
\<close>

datatype sec_err = InvalidEnvironment string | Unavailable | NotReady | NotFound | ReadFailed | NotAString | AuthFailed

definition environments :: "string list" where
  "environments = [''dev'', ''staging'', ''prod'']"

record retry_config =
  rc_retries :: int
  rc_total :: duration
  rc_base :: duration
  rc_cap :: duration

definition default_retry_config :: retry_config where
  "default_retry_config = \<lparr>rc_retries = 5, rc_total = 60 * second, rc_base = second, rc_cap = 30 * second\<rparr>"

record secret_config =
  cn_environment :: string
  cn_service :: string
  cn_retry :: retry_config

record secret_manager =
  sm_config :: secret_config
  sm_ready :: bool

definition new_secret_manager :: "secret_config \<Rightarrow> sec_err + secret_manager" where
  "new_secret_manager c =
     (if cn_environment c \<notin> set environments then Inl (InvalidEnvironment (cn_environment c))
      else Inr \<lparr>sm_config = (if rc_retries (cn_retry c) = 0 then c\<lparr>cn_retry := default_retry_config\<rparr> else c), sm_ready = False\<rparr>)"

subsection \<open>Start-up\<close>

text \<open>\<^verbatim>\<open>time.Duration\<close> of a float; one that does not fit becomes the least integer, as on amd64.\<close>

definition float_duration :: "float64 \<Rightarrow> duration" where
  "float_duration x = (let n = float_to_int x in if - (2 ^ 63) \<le> n \<and> n < 2 ^ 63 then n else - (2 ^ 63))"

definition backoff :: "retry_config \<Rightarrow> nat \<Rightarrow> duration" where
  "backoff c n = (let d = float_duration (fl (fl (of_int (rc_base c)) * 2 ^ n)) in if rc_cap c < d then rc_cap c else d)"

datatype init_outcome = Ready | TimeSpent | Cancelled | Exhausted

text \<open>A probe of the provider, called at some time, answers at another. The context ends at \<open>ctx\<close>, if it does; \<open>tie\<close> is the
  choice of the \<^verbatim>\<open>select\<close> when both are ready. \<open>n\<close> counts the attempts made.\<close>

definition wait_retry :: "time option \<Rightarrow> bool \<Rightarrow> duration \<Rightarrow> time \<Rightarrow> bool \<times> time" where
  "wait_retry ctx tie d t = (case ctx of None \<Rightarrow> (True, t + max 0 d) | Some e \<Rightarrow> await (Some d) tie e t)"

fun init_loop :: "retry_config \<Rightarrow> (time \<Rightarrow> bool \<times> time) \<Rightarrow> time option \<Rightarrow> bool \<Rightarrow> time \<Rightarrow> nat \<Rightarrow> nat \<Rightarrow> duration \<Rightarrow> time \<Rightarrow> init_outcome \<times> nat \<times> time" where
  "init_loop c probe ctx tie start n 0 delay t = (Exhausted, n, t)"
| "init_loop c probe ctx tie start n (Suc left) delay t =
     (if rc_total c \<le> t - start then (TimeSpent, n, t)
      else (case probe t of
          (True, t1) \<Rightarrow> (Ready, Suc n, t1)
        | (False, t1) \<Rightarrow>
            (case wait_retry ctx tie (min delay (rc_total c - (t1 - start))) t1 of
               (False, t2) \<Rightarrow> (Cancelled, Suc n, t2)
             | (True, t2) \<Rightarrow> init_loop c probe ctx tie start (Suc n) left (backoff c (Suc n)) t2)))"

text \<open>\<^verbatim>\<open>Initialize\<close>; every outcome but \<open>Ready\<close> is \<^verbatim>\<open>ErrSecretsUnavailable\<close>.\<close>

definition init_secrets :: "(time \<Rightarrow> bool \<times> time) \<Rightarrow> time option \<Rightarrow> bool \<Rightarrow> time \<Rightarrow> secret_manager \<Rightarrow> (init_outcome \<times> nat \<times> time) \<times> secret_manager" where
  "init_secrets probe ctx tie t sm = (let c = cn_retry (sm_config sm) in
     case init_loop c probe ctx tie t 0 (nat (rc_retries c)) (rc_base c) t of (r, n, t') \<Rightarrow>
       ((r, n, t'), if r = Ready then sm\<lparr>sm_ready := True\<rparr> else sm))"

subsection \<open>Reading\<close>

definition build_path :: "secret_config \<Rightarrow> string \<Rightarrow> string" where
  "build_path c sub = (let b = ''secret/data/'' @ cn_environment c @ ''/'' @ cn_service c in if sub = [] then b else b @ ''/'' @ sub)"

definition get_secret :: "(string \<Rightarrow> string \<Rightarrow> sec_err + string) \<Rightarrow> secret_manager \<Rightarrow> string \<Rightarrow> string \<Rightarrow> sec_err + string" where
  "get_secret get sm sub key = (if \<not> sm_ready sm then Inl NotReady else get (build_path (sm_config sm) sub) key)"

definition get_secrets :: "(string \<Rightarrow> sec_err + (string \<rightharpoonup> string)) \<Rightarrow> secret_manager \<Rightarrow> string \<Rightarrow> sec_err + (string \<rightharpoonup> string)" where
  "get_secrets gets sm sub = (if \<not> sm_ready sm then Inl NotReady else gets (build_path (sm_config sm) sub))"

definition load_service_secrets :: "(string \<Rightarrow> sec_err + (string \<rightharpoonup> string)) \<Rightarrow> secret_manager \<Rightarrow> sec_err + (string \<rightharpoonup> string)" where
  "load_service_secrets gets sm = (if \<not> sm_ready sm then Inl NotReady else gets (build_path (sm_config sm) []))"

subsection \<open>Vault\<close>

text \<open>A value of a JSON object; the client decodes objects into maps.\<close>

datatype vault_value = VString string | VObject "string \<Rightarrow> vault_value option" | VOther

text \<open>A read: an error, no secret, or its data.\<close>

type_synonym vault_read = "string \<Rightarrow> unit + (string \<rightharpoonup> vault_value) option"

record vault_config =
  vc_address :: string
  vc_token :: string
  vc_namespace :: string
  vc_timeout :: duration
  vc_method :: string
  vc_role :: string
  vc_mount :: string
  vc_role_id :: string
  vc_secret_id :: string

definition default_vault_config :: "string \<Rightarrow> string \<Rightarrow> string \<Rightarrow> vault_config" where
  "default_vault_config addr token ns = \<lparr>vc_address = addr, vc_token = token, vc_namespace = ns, vc_timeout = 10 * second, vc_method = ''token'',
     vc_role = [], vc_mount = ''auth/kubernetes'', vc_role_id = [], vc_secret_id = []\<rparr>"

text \<open>A login: the path and the fields written to it, answered by a client token, an answer without one, or an error.\<close>

type_synonym vault_login = "string \<Rightarrow> (string \<times> string) list \<Rightarrow> unit + string option"

definition login_token :: "unit + string option \<Rightarrow> sec_err + string" where
  "login_token r = (case r of Inr (Some tok) \<Rightarrow> Inr tok | _ \<Rightarrow> Inl AuthFailed)"

definition authenticate_kubernetes :: "string option \<Rightarrow> vault_login \<Rightarrow> vault_config \<Rightarrow> sec_err + string" where
  "authenticate_kubernetes account write c = (case account of
     None \<Rightarrow> Inl AuthFailed
   | Some jwt \<Rightarrow> login_token (write ((if vc_mount c = [] then ''auth/kubernetes'' else vc_mount c) @ ''/login'') [(''role'', vc_role c), (''jwt'', jwt)]))"

definition authenticate_app_role :: "vault_login \<Rightarrow> vault_config \<Rightarrow> sec_err + string" where
  "authenticate_app_role write c = login_token (write ''auth/approle/login'' [(''role_id'', vc_role_id c), (''secret_id'', vc_secret_id c)])"

text \<open>The token the client goes on with.\<close>

definition authenticate :: "string option \<Rightarrow> vault_login \<Rightarrow> vault_config \<Rightarrow> sec_err + string" where
  "authenticate account write c =
     (if vc_method c = ''token'' then (if vc_token c = [] then Inl AuthFailed else Inr (vc_token c))
      else if vc_method c = ''kubernetes'' then authenticate_kubernetes account write c
      else if vc_method c = ''approle'' then authenticate_app_role write c
      else Inl AuthFailed)"

text \<open>Version 2 of the key-value store has the values under the key \<^verbatim>\<open>data\<close>, version 1 at the top.\<close>

definition kv_data :: "(string \<rightharpoonup> vault_value) \<Rightarrow> string \<rightharpoonup> vault_value" where
  "kv_data d = (case d ''data'' of Some (VObject m) \<Rightarrow> m | _ \<Rightarrow> d)"

definition vault_get :: "vault_read \<Rightarrow> string \<Rightarrow> string \<Rightarrow> sec_err + string" where
  "vault_get read path key = (case read path of
     Inl _ \<Rightarrow> Inl ReadFailed
   | Inr None \<Rightarrow> Inl NotFound
   | Inr (Some d) \<Rightarrow> (case kv_data d key of None \<Rightarrow> Inl NotFound | Some (VString v) \<Rightarrow> Inr v | Some _ \<Rightarrow> Inl NotAString))"

definition string_values :: "(string \<rightharpoonup> vault_value) \<Rightarrow> string \<rightharpoonup> string" where
  "string_values d k = (case d k of Some (VString v) \<Rightarrow> Some v | _ \<Rightarrow> None)"

definition vault_gets :: "vault_read \<Rightarrow> string \<Rightarrow> sec_err + (string \<rightharpoonup> string)" where
  "vault_gets read path = (case read path of
     Inl _ \<Rightarrow> Inl ReadFailed
   | Inr None \<Rightarrow> Inl NotFound
   | Inr (Some d) \<Rightarrow> Inr (string_values (kv_data d)))"

text \<open>The reply of the health endpoint: whether Vault is initialized and sealed, or an error.\<close>

definition vault_available :: "(bool \<times> bool) option \<Rightarrow> bool" where
  "vault_available health = (case health of Some (initialized, sealed) \<Rightarrow> initialized \<and> \<not> sealed | None \<Rightarrow> False)"

subsection \<open>Mounted files\<close>

datatype file_read = Content string | Missing | Unreadable

text \<open>The files, the entries of the directories with whether they are directories, and the JSON objects that texts stand for.\<close>

record file_system =
  fs_file :: "string \<Rightarrow> file_read"
  fs_dir :: "string \<Rightarrow> sec_err + (string \<times> bool) list"
  fs_json :: "string \<Rightarrow> json_object option"

record sealed_config =
  sl_namespace :: string
  sl_mount :: string
  sl_environment :: string

definition default_sealed_config :: "string \<Rightarrow> sealed_config" where
  "default_sealed_config env = \<lparr>sl_namespace = ''auction-system-'' @ env, sl_mount = ''/etc/secrets'', sl_environment = env\<rparr>"

definition new_sealed_provider :: "sealed_config \<Rightarrow> sealed_config" where
  "new_sealed_provider c = (if sl_mount c = [] then c\<lparr>sl_mount := ''/etc/secrets''\<rparr> else c)"

text \<open>\<^verbatim>\<open>filepath.Clean\<close> and \<^verbatim>\<open>filepath.Join\<close>: the segments that are kept so far, last first.\<close>

definition clean_step :: "bool \<Rightarrow> string list \<Rightarrow> string \<Rightarrow> string list" where
  "clean_step rooted acc s =
     (if s = [] \<or> s = ''.'' then acc
      else if s = ''..'' then
        (case acc of [] \<Rightarrow> if rooted then [] else [s] | a # acc' \<Rightarrow> if a = ''..'' then s # acc else acc')
      else s # acc)"

definition clean_segments :: "bool \<Rightarrow> string list \<Rightarrow> string list \<Rightarrow> string list" where
  "clean_segments rooted acc ss = rev (foldl (clean_step rooted) acc ss)"

definition clean_path :: "string \<Rightarrow> string" where
  "clean_path p = (let rooted = (take 1 p = ''/''); b = join_with CHR ''/'' (clean_segments rooted [] (split_on CHR ''/'' p)) in
     if rooted then CHR ''/'' # b else if b = [] then ''.'' else b)"

definition join_path :: "string list \<Rightarrow> string" where
  "join_path es = (case dropWhile (\<lambda>e. e = []) es of [] \<Rightarrow> [] | es' \<Rightarrow> clean_path (join_with CHR ''/'' es'))"

definition strip_path_prefix :: "sealed_config \<Rightarrow> string \<Rightarrow> string" where
  "strip_path_prefix c path = (let p = ''secret/data/'' @ sl_environment c @ ''/'' in if prefix p path then drop (length p) path else path)"

definition resolve_file_path :: "sealed_config \<Rightarrow> string \<Rightarrow> string \<Rightarrow> string" where
  "resolve_file_path c path key = join_path [sl_mount c, strip_path_prefix c path, key]"

definition resolve_dir_path :: "sealed_config \<Rightarrow> string \<Rightarrow> string" where
  "resolve_dir_path c path = join_path [sl_mount c, strip_path_prefix c path]"

text \<open>\<^verbatim>\<open>strings.TrimSpace\<close>.\<close>

function trim_left :: "string \<Rightarrow> string" where
  "trim_left s = (if s = [] then [] else (case find (\<lambda>w. prefix w s) white_space of None \<Rightarrow> s | Some w \<Rightarrow> trim_left (drop (length w) s)))"
  by pat_completeness auto
termination by (relation "measure length") (auto dest: white_space_shorter)

function trim_right :: "string \<Rightarrow> string" where
  "trim_right s = (if s = [] then [] else (case find (\<lambda>w. suffix w s) white_space of None \<Rightarrow> s | Some w \<Rightarrow> trim_right (take (length s - length w) s)))"
  by pat_completeness auto
termination
proof (relation "measure length", simp)
  fix s w assume "s \<noteq> []" "find (\<lambda>w. suffix w s) white_space = Some w"
  then have "w \<noteq> []" using find_SomeD [of "\<lambda>w. suffix w s" white_space w] white_space_nonempty [of w] by auto
  then show "(take (length s - length w) s, s) \<in> measure length" using \<open>s \<noteq> []\<close> by simp
qed

declare trim_left.simps [simp del] trim_right.simps [simp del]

definition trim_space :: "string \<Rightarrow> string" where
  "trim_space s = trim_right (trim_left s)"

definition sealed_get :: "file_system \<Rightarrow> sealed_config \<Rightarrow> string \<Rightarrow> string \<Rightarrow> sec_err + string" where
  "sealed_get fs c path key = (case fs_file fs (resolve_file_path c path key) of
     Content d \<Rightarrow> Inr (trim_space d) | Missing \<Rightarrow> Inl NotFound | Unreadable \<Rightarrow> Inl ReadFailed)"

text \<open>The entries of the directory, without the directories and the hidden files; a file that cannot be read is skipped.\<close>

fun dir_secrets :: "file_system \<Rightarrow> string \<Rightarrow> (string \<times> bool) list \<Rightarrow> (string \<rightharpoonup> string) \<Rightarrow> string \<rightharpoonup> string" where
  "dir_secrets fs d [] m = m"
| "dir_secrets fs d ((name, is_dir) # es) m =
     (if is_dir \<or> take 1 name = ''.'' then dir_secrets fs d es m
      else (case fs_file fs (join_path [d, name]) of
          Content t \<Rightarrow> dir_secrets fs d es (m(name \<mapsto> trim_space t))
        | _ \<Rightarrow> dir_secrets fs d es m))"

text \<open>A JSON object with only texts; a null is the empty text.\<close>

definition json_texts :: "json_object \<Rightarrow> (string \<times> string) list option" where
  "json_texts obj = (if list_all (\<lambda>(k, v). case v of JString _ \<Rightarrow> True | JNull \<Rightarrow> True | _ \<Rightarrow> False) obj
     then Some (map (\<lambda>(k, v). (k, case v of JString s \<Rightarrow> s | _ \<Rightarrow> [])) obj) else None)"

definition json_secrets :: "file_system \<Rightarrow> string \<Rightarrow> (string \<times> string) list" where
  "json_secrets fs d = (case fs_file fs (d @ ''.json'') of
     Content t \<Rightarrow> (case fs_json fs t of None \<Rightarrow> [] | Some obj \<Rightarrow> (case json_texts obj of None \<Rightarrow> [] | Some kvs \<Rightarrow> kvs))
   | _ \<Rightarrow> [])"

text \<open>Whether the map is empty is seen from what it was made of.\<close>

definition sealed_gets :: "file_system \<Rightarrow> sealed_config \<Rightarrow> string \<Rightarrow> sec_err + (string \<rightharpoonup> string)" where
  "sealed_gets fs c path = (let d = resolve_dir_path c path in case fs_dir fs d of
     Inl e \<Rightarrow> Inl e
   | Inr es \<Rightarrow>
       let m = fold (\<lambda>(k, v) m. m(k \<mapsto> v)) (json_secrets fs d) (dir_secrets fs d es Map.empty) in
       if list_all (\<lambda>k. m k = None) (map fst es @ map fst (json_secrets fs d)) then Inl NotFound else Inr m)"

text \<open>The mount path is there and a directory.\<close>

definition sealed_available :: "bool option \<Rightarrow> bool" where
  "sealed_available stat = (stat = Some True)"

end
