(* ===== verification/SecretsSpec.thy ===== *)
theory SecretsSpec
  imports Secrets
begin

text \<open>
  The start-up ends in its time; what is loaded at once agrees with what is read one by one, for both providers, which interpret
  one locale; and where the mounted files are looked for.
\<close>

subsection \<open>Start-up\<close>

text \<open>A probe that answers within \<open>d\<close>.\<close>

definition prompt_probe :: "duration \<Rightarrow> (time \<Rightarrow> bool \<times> time) \<Rightarrow> bool" where
  "prompt_probe d probe \<longleftrightarrow> (\<forall>t. t \<le> snd (probe t) \<and> snd (probe t) \<le> t + d)"

lemma wait_retry_bounds:
  assumes "wait_retry ctx tie d t = (b, t')"
  shows "t \<le> t' \<and> (b \<longrightarrow> t' \<le> t + max 0 d) \<and> (\<not> b \<longrightarrow> ctx \<noteq> None \<and> t' \<le> t + max 0 d)"
  using assms by (auto simp: wait_retry_def await_def Let_def split: option.splits if_splits)

lemma init_loop_bounds:
  assumes "init_loop c probe ctx tie start n left delay t = (r, n', t')" and "prompt_probe d probe" and "0 \<le> d"
    and "start \<le> t" and "t \<le> start + max 0 (rc_total c) + d"
  shows "t \<le> t' \<and> t' \<le> start + max 0 (rc_total c) + d \<and> n \<le> n' \<and> n' \<le> n + left \<and>
    (r = Ready \<longrightarrow> (\<exists>s. t \<le> s \<and> s < start + rc_total c \<and> probe s = (True, t'))) \<and> (r = Cancelled \<longrightarrow> ctx \<noteq> None)"
  using assms
proof (induction c probe ctx tie start n left delay t rule: init_loop.induct)
  case (2 c probe ctx tie start n left delay t)
  obtain b t1 where p: "probe t = (b, t1)" by (cases "probe t")
  have t1: "t \<le> t1" "t1 \<le> t + d" using "2.prems"(2) p unfolding prompt_probe_def by (metis snd_conv)+
  obtain w t2 where w: "wait_retry ctx tie (min delay (rc_total c - (t1 - start))) t1 = (w, t2)" by fastforce
  have t2: "t1 \<le> t2" "t2 \<le> t1 + max 0 (rc_total c - (t1 - start))"
    using wait_retry_bounds [OF w] by (auto split: if_splits)
  show ?case
  proof (cases "rc_total c \<le> t - start")
    case spent: False
    have t2': "t2 \<le> start + max 0 (rc_total c) + d" "t1 \<le> start + max 0 (rc_total c) + d" using t1 t2 spent "2.prems"(3) by auto
    show ?thesis
    proof (cases b)
      case True
      then show ?thesis using "2.prems"(1) p spent t1 t2' by auto
    next
      case nb: False
      show ?thesis
      proof (cases w)
        case True
        then have "init_loop c probe ctx tie start (Suc n) left (backoff c (Suc n)) t2 = (r, n', t')"
          using "2.prems"(1) p w spent nb by simp
        moreover have "start \<le> t2" using t1 t2 "2.prems"(4) by linarith
        ultimately have ih: "t2 \<le> t' \<and> t' \<le> start + max 0 (rc_total c) + d \<and> Suc n \<le> n' \<and> n' \<le> Suc n + left \<and>
            (r = Ready \<longrightarrow> (\<exists>s. t2 \<le> s \<and> s < start + rc_total c \<and> probe s = (True, t'))) \<and> (r = Cancelled \<longrightarrow> ctx \<noteq> None)"
          using "2.IH" [OF spent p [symmetric] _ w [symmetric]] nb True "2.prems"(2,3) t2' by blast
        then have "r = Ready \<Longrightarrow> \<exists>s. t \<le> s \<and> s < start + rc_total c \<and> probe s = (True, t')"
          using t1 t2 by (meson order_trans)
        then show ?thesis using ih t1 t2 by auto
      next
        case False
        then show ?thesis using "2.prems"(1) p w spent nb t1 t2 t2' wait_retry_bounds [OF w] by auto
      qed
    qed
  qed (use "2.prems" in auto)
qed auto



text \<open>After the last attempt has failed there is still a wait: with the default configuration it takes the 31 seconds of all five.\<close>

lemma waits_after_last:
  defines "sm \<equiv> \<lparr>sm_config = \<lparr>cn_environment = ''prod'', cn_service = ''bid-service'', cn_retry = default_retry_config\<rparr>, sm_ready = False\<rparr>"
  shows "fst (init_secrets (\<lambda>t. (False, t)) None True 0 sm) = (Exhausted, 5, 31 * second)"
  unfolding sm_def by code_simp

subsection \<open>Paths\<close>

text \<open>What the segments kept so far look like: none is empty or a dot, and only the first ones of a relative path go up.\<close>

fun kept :: "bool \<Rightarrow> string list \<Rightarrow> bool" where
  "kept rooted [] = True"
| "kept rooted (a # acc) = (kept rooted acc \<and> a \<noteq> [] \<and> a \<noteq> ''.'' \<and> (a = ''..'' \<longrightarrow> \<not> rooted \<and> (acc = [] \<or> hd acc = ''..'')))"

lemma clean_append: "clean_segments rooted acc (xs @ ys) = clean_segments rooted (rev (clean_segments rooted acc xs)) ys"
  by (simp add: clean_segments_def)

lemma clean_empty [simp]: "clean_segments rooted acc ([] # xs) = clean_segments rooted acc xs"
  by (simp add: clean_segments_def clean_step_def)

lemma step_kept: "kept rooted acc \<Longrightarrow> kept rooted (clean_step rooted acc s)"
  by (cases acc) (auto simp: clean_step_def)

lemma clean_kept: "kept rooted acc \<Longrightarrow> kept rooted (rev (clean_segments rooted acc xs))"
  by (induction xs arbitrary: acc) (simp_all add: clean_segments_def step_kept)

lemma step_again: "kept rooted (a # acc) \<Longrightarrow> clean_step rooted acc a = a # acc"
  by (cases acc) (auto simp: clean_step_def)

lemma clean_replay: "kept rooted acc \<Longrightarrow> clean_segments rooted [] (rev acc @ ys) = clean_segments rooted acc ys"
proof (induction acc arbitrary: ys)
  case (Cons a acc)
  then show ?case using Cons.IH [of "a # ys"] step_again [OF Cons.prems] by (simp add: clean_segments_def)
qed simp

lemma clean_again: "clean_segments rooted [] (clean_segments rooted [] xs @ ys) = clean_segments rooted [] (xs @ ys)"
  using clean_replay [OF clean_kept [of rooted "[]" xs], of ys] by (simp add: clean_append [of rooted "[]" xs])

lemma step_subset: "set (clean_step rooted acc s) \<subseteq> set acc \<union> {s}"
  by (cases acc) (auto simp: clean_step_def)

lemma clean_subset: "set (clean_segments rooted acc xs) \<subseteq> set acc \<union> set xs"
proof (induction xs arbitrary: acc)
  case (Cons x xs)
  show ?case using Cons.IH [of "clean_step rooted acc x"] step_subset [of rooted acc x] unfolding clean_segments_def by fastforce
qed (simp add: clean_segments_def)

lemma split_slashless: "s \<in> set (split_on c p) \<Longrightarrow> c \<notin> set s"
  by (induction p arbitrary: s) (auto split: if_splits list.splits)

lemma split_nonempty [simp]: "split_on c p \<noteq> []"
  by (induction p) (auto split: list.splits)

lemma split_on_plain: "c \<notin> set s \<Longrightarrow> split_on c s = [s]"
  by (induction s) auto

lemma split_on_append: "split_on c (s @ c # p) = split_on c s @ split_on c p"
  by (induction s) (auto split: list.splits)

lemma split_on_join: "ss \<noteq> [] \<Longrightarrow> \<forall>s \<in> set ss. c \<notin> set s \<Longrightarrow> split_on c (join_with c ss) = ss"
proof (induction c ss rule: join_with.induct)
  case (3 c s t ss)
  then show ?case using split_on_append [of c s] by (simp add: split_on_plain)
qed (auto simp: split_on_plain)

text \<open>An absolute path, cleaned after joining, and joining to it again.\<close>

lemma join_absolute:
  "join_path ((CHR ''/'' # p) # es) = CHR ''/'' # join_with CHR ''/'' (clean_segments True [] (concat (map (split_on CHR ''/'') (p # es))))"
proof -
  have "split_on CHR ''/'' (join_with CHR ''/'' (s # es)) = split_on CHR ''/'' s @ concat (map (split_on CHR ''/'') es)" for s
    by (induction es arbitrary: s) (simp_all add: split_on_append)
  moreover have "take 1 (join_with CHR ''/'' ((CHR ''/'' # p) # es)) = ''/''" by (cases es) simp_all
  ultimately show ?thesis by (simp add: join_path_def clean_path_def Let_def)
qed

lemma split_cleaned:
  "clean_segments True [] (split_on CHR ''/'' (join_with CHR ''/'' (clean_segments True [] (concat (map (split_on CHR ''/'') ps)))) @ ys) =
   clean_segments True [] (concat (map (split_on CHR ''/'') ps) @ ys)"
proof (cases "clean_segments True [] (concat (map (split_on CHR ''/'') ps)) = []")
  case True
  then show ?thesis using clean_again [of True "concat (map (split_on CHR ''/'') ps)" ys] by simp
next
  case False
  have "\<forall>s \<in> set (clean_segments True [] (concat (map (split_on CHR ''/'') ps))). CHR ''/'' \<notin> set s"
    using clean_subset [of True "[]" "concat (map (split_on CHR ''/'') ps)"] by (fastforce dest: split_slashless)
  then show ?thesis using split_on_join [OF False] clean_again [of True "concat (map (split_on CHR ''/'') ps)" ys] by simp
qed

lemma join_join: "take 1 d = ''/'' \<Longrightarrow> join_path [join_path [d, r], k] = join_path [d, r, k]"
  using split_cleaned [of "[tl d, r]"] by (cases d) (simp_all add: join_absolute)

definition file_name :: "string \<Rightarrow> bool" where
  "file_name s \<longleftrightarrow> s \<noteq> [] \<and> s \<noteq> ''.'' \<and> s \<noteq> ''..'' \<and> CHR ''/'' \<notin> set s"

lemma clean_names: "\<forall>s \<in> set xs. file_name s \<Longrightarrow> clean_segments r acc xs = rev acc @ xs"
  by (induction xs arbitrary: acc) (simp_all add: clean_segments_def clean_step_def file_name_def)

lemma split_names: "ss \<noteq> [] \<Longrightarrow> \<forall>s \<in> set ss. file_name s \<Longrightarrow> split_on CHR ''/'' (join_with CHR ''/'' ss) = ss"
  by (rule split_on_join) (auto simp: file_name_def)

lemma strip_built:
  "cn_environment cn = sl_environment c \<Longrightarrow> strip_path_prefix c (build_path cn sub) = cn_service cn @ (if sub = [] then [] else CHR ''/'' # sub)"
  by (simp add: strip_path_prefix_def build_path_def Let_def)

text \<open>The path that the manager builds for Vault and the one that the provider of mounted files takes apart fit: where both have one environment, a
  secret of a service is the file with its name in the directory of the service under the mount path. The environment is no part of it.\<close>

theorem secret_file:
  assumes "cn_environment cn = sl_environment c" and "sl_mount c = CHR ''/'' # join_with CHR ''/'' ms" and "ms \<noteq> []"
    and "\<forall>s \<in> set (ms @ cn_service cn # subs @ [key]). file_name s"
  shows "resolve_file_path c (build_path cn (join_with CHR ''/'' subs)) key = CHR ''/'' # join_with CHR ''/'' (ms @ cn_service cn # subs @ [key]) \<and>
    resolve_dir_path c (build_path cn (join_with CHR ''/'' subs)) = CHR ''/'' # join_with CHR ''/'' (ms @ cn_service cn # subs)"
proof -
  have e: "join_with CHR ''/'' subs = [] \<longleftrightarrow> subs = []"
    using assms(4) by (cases subs; cases "tl subs") (auto simp: file_name_def)
  have s: "split_on CHR ''/'' (strip_path_prefix c (build_path cn (join_with CHR ''/'' subs))) = cn_service cn # subs"
  proof (cases "subs = []")
    case True
    then show ?thesis using assms(4) by (simp add: strip_built [OF assms(1)] split_on_plain file_name_def)
  next
    case False
    then show ?thesis using assms(4) e
      by (simp add: strip_built [OF assms(1)] split_on_append split_on_plain file_name_def split_names)
  qed
  have m: "split_on CHR ''/'' (join_with CHR ''/'' ms) = ms" and k: "split_on CHR ''/'' key = [key]"
    using assms(3,4) by (simp_all add: split_names split_on_plain file_name_def)
  show ?thesis
    using clean_names [of "ms @ cn_service cn # subs @ [key]" True "[]"] clean_names [of "ms @ cn_service cn # subs" True "[]"] assms(4)
    by (simp add: resolve_file_path_def resolve_dir_path_def assms(2) join_absolute s m k)
qed

lemma secret_file_witness:
  "resolve_file_path (default_sealed_config ''prod'') (build_path \<lparr>cn_environment = ''prod'', cn_service = ''bid-service'', cn_retry = default_retry_config\<rparr> ''db'') ''password''
     = ''/etc/secrets/bid-service/db/password''"
  using secret_file [of "\<lparr>cn_environment = ''prod'', cn_service = ''bid-service'', cn_retry = default_retry_config\<rparr>" "default_sealed_config ''prod''"
      "[''etc'', ''secrets'']" "[''db'']" "''password''"] by (simp add: default_sealed_config_def file_name_def)

text \<open>A key is not checked: with dots it leads out of the directory of the service.\<close>

lemma key_leaves_directory:
  "resolve_file_path (default_sealed_config ''prod'') ''secret/data/prod/bid-service'' ''../payment-service/db'' = ''/etc/secrets/payment-service/db''"
  by code_simp

subsection \<open>One by one or all at once\<close>

text \<open>A provider: reading one secret, and all under a path; \<open>regular\<close> are the paths and keys for which the two agree.\<close>

locale secret_source =
  fixes get :: "string \<Rightarrow> string \<Rightarrow> sec_err + string"
    and gets :: "string \<Rightarrow> sec_err + (string \<rightharpoonup> string)"
    and regular :: "string \<Rightarrow> bool"
  assumes agree: "gets p = Inr m \<Longrightarrow> m k = Some v \<Longrightarrow> regular p \<Longrightarrow> get p k = Inr v"
begin

lemma loaded_agrees:
  "load_service_secrets gets sm = Inr m \<Longrightarrow> regular (build_path (sm_config sm) []) \<Longrightarrow> m k = Some v \<Longrightarrow> get_secret get sm [] k = Inr v"
  by (auto simp: load_service_secrets_def get_secret_def agree split: if_splits)

lemma listed_agrees:
  "get_secrets gets sm sub = Inr m \<Longrightarrow> regular (build_path (sm_config sm) sub) \<Longrightarrow> m k = Some v \<Longrightarrow> get_secret get sm sub k = Inr v"
  by (auto simp: get_secrets_def get_secret_def agree split: if_splits)

end

interpretation vault: secret_source "vault_get read" "vault_gets read" "\<lambda>_. True" for read
  by unfold_locales
    (auto simp: vault_gets_def vault_get_def string_values_def split: sum.splits option.splits vault_value.splits)

lemma dir_secrets_read:
  "dir_secrets fs d es m k = Some v \<Longrightarrow> m k = Some v \<or> (\<exists>t. fs_file fs (join_path [d, k]) = Content t \<and> v = trim_space t)"
  by (induction fs d es m rule: dir_secrets.induct) (auto split: if_splits file_read.splits)

interpretation sealed: secret_source "sealed_get fs c" "sealed_gets fs c"
    "\<lambda>p. take 1 (sl_mount c) = ''/'' \<and> json_secrets fs (resolve_dir_path c p) = []" for fs c
proof
  fix p m k v
  assume g: "sealed_gets fs c p = Inr m" and v: "m k = Some v"
    and r: "take 1 (sl_mount c) = ''/'' \<and> json_secrets fs (resolve_dir_path c p) = []"
  obtain es where "m = dir_secrets fs (resolve_dir_path c p) es Map.empty"
    using g r by (auto simp: sealed_gets_def Let_def split: sum.splits if_splits)
  then obtain t where "fs_file fs (join_path [resolve_dir_path c p, k]) = Content t" "v = trim_space t"
    using dir_secrets_read [of fs "resolve_dir_path c p" es Map.empty k v] v by auto
  then show "sealed_get fs c p k = Inr v"
    using r by (simp add: sealed_get_def resolve_file_path_def resolve_dir_path_def join_join)
qed

text \<open>What a service loads at once at start-up it also gets one by one: from Vault always, from the mounted files where no JSON file lies beside
  the directory.\<close>

theorem loaded_secrets_agree:
  assumes "m k = Some v"
  shows "(load_service_secrets (vault_gets read) sm = Inr m \<longrightarrow> get_secret (vault_get read) sm [] k = Inr v) \<and>
    (load_service_secrets (sealed_gets fs c) sm = Inr m \<longrightarrow> take 1 (sl_mount c) = ''/'' \<longrightarrow>
       json_secrets fs (resolve_dir_path c (build_path (sm_config sm) [])) = [] \<longrightarrow> get_secret (sealed_get fs c) sm [] k = Inr v)"
  using vault.loaded_agrees [of read sm m k v] sealed.loaded_agrees [of fs c sm m k v] assms by blast

lemma trim_space_id: "find (\<lambda>w. prefix w s) white_space = None \<Longrightarrow> find (\<lambda>w. suffix w s) white_space = None \<Longrightarrow> trim_space s = s"
  by (simp add: trim_space_def trim_left.simps [of s] trim_right.simps [of s] trim_right.simps [of "[]"])

lemma loaded_secrets_agree_witness:
  defines "sm \<equiv> \<lparr>sm_config = \<lparr>cn_environment = ''dev'', cn_service = ''s'', cn_retry = default_retry_config\<rparr>, sm_ready = True\<rparr>"
  defines "fs \<equiv> \<lparr>fs_file = (\<lambda>p. if p = ''/etc/secrets/s/k'' then Content ''v'' else Missing), fs_dir = (\<lambda>p. if p = ''/etc/secrets/s'' then Inr [(''k'', False)] else Inl NotFound),
     fs_json = (\<lambda>_. None)\<rparr>"
  shows "get_secret (sealed_get fs (default_sealed_config ''dev'')) sm [] ''k'' = Inr ''v''"
proof -
  let ?c = "default_sealed_config ''dev''" and ?p = "build_path (sm_config sm) []"
  have d: "resolve_dir_path ?c ?p = ''/etc/secrets/s''" unfolding sm_def by code_simp
  have j: "join_path [''/etc/secrets/s'', ''k''] = ''/etc/secrets/s/k''" by code_simp
  have w: "find (\<lambda>w. prefix w ''v'') white_space = None" "find (\<lambda>w. suffix w ''v'') white_space = None" by code_simp+
  have n: "json_secrets fs ''/etc/secrets/s'' = []" by (simp add: json_secrets_def fs_def)
  have "load_service_secrets (sealed_gets fs ?c) sm = Inr [''k'' \<mapsto> ''v'']"
    using n by (simp add: load_service_secrets_def sealed_gets_def d Let_def) (simp add: fs_def sm_def j trim_space_id [OF w])
  moreover have "take 1 (sl_mount ?c) = ''/''" by (simp add: default_sealed_config_def)
  ultimately show ?thesis using loaded_secrets_agree [of "[''k'' \<mapsto> ''v'']" "''k''" "''v''" "\<lambda>_. Inl ()" sm fs ?c] d n by simp
qed

text \<open>With such a file the two differ: a key that is only in it is loaded, but not found by itself.\<close>

lemma json_key_not_found:
  defines "c \<equiv> default_sealed_config ''dev''"
  defines "fs \<equiv> \<lparr>fs_file = (\<lambda>p. if p = ''/etc/secrets/s.json'' then Content ''{}'' else Missing), fs_dir = (\<lambda>p. Inr []),
     fs_json = (\<lambda>_. Some [(''k'', JString ''v'')])\<rparr>"
  shows "\<exists>m. sealed_gets fs c ''secret/data/dev/s'' = Inr m \<and> m ''k'' = Some ''v''" and "sealed_get fs c ''secret/data/dev/s'' ''k'' = Inl NotFound"
proof -
  have d: "resolve_dir_path c ''secret/data/dev/s'' = ''/etc/secrets/s''" "resolve_file_path c ''secret/data/dev/s'' ''k'' = ''/etc/secrets/s/k''"
    unfolding c_def by code_simp+
  show "\<exists>m. sealed_gets fs c ''secret/data/dev/s'' = Inr m \<and> m ''k'' = Some ''v''"
    by (simp add: sealed_gets_def d Let_def) (simp add: fs_def json_secrets_def json_texts_def)
  show "sealed_get fs c ''secret/data/dev/s'' ''k'' = Inl NotFound" by (simp add: sealed_get_def d) (simp add: fs_def)
qed

text \<open>A deleted secret of the second version of the store has a null under \<^verbatim>\<open>data\<close>: the code then reads the reply as one of the first version, and
  loads an empty map without an error.\<close>

lemma deleted_secret_loads_empty:
  "vault_gets (\<lambda>_. Inr (Some [''data'' \<mapsto> VOther, ''metadata'' \<mapsto> VObject Map.empty])) p = Inr Map.empty"
  by (auto simp: vault_gets_def kv_data_def string_values_def fun_eq_iff)

end
