(* ===== verification/Leaderboard.thy ===== *)
theory Leaderboard
  imports Redis "HOL-Library.AList" "HOL-Library.Multiset"
begin

text \<open>
  Sorted sets of Redis, as the search and analytics services use them for trending searches and leaderboards: members with a score,
  \<^verbatim>\<open>ZINCRBY\<close>, and \<^verbatim>\<open>ZREVRANGE\<close> from the top, where equal scores are in descending order of the bytes of the members.
\<close>

type_synonym 's zset = "(string \<times> 's) list"

definition zscore :: "string \<Rightarrow> 's::zero zset \<Rightarrow> 's" where
  "zscore m z = (case map_of z m of None \<Rightarrow> 0 | Some x \<Rightarrow> x)"

definition zincrby :: "('s::zero \<Rightarrow> 's \<Rightarrow> 's) \<Rightarrow> 's \<Rightarrow> string \<Rightarrow> 's zset \<Rightarrow> 's zset" where
  "zincrby add d m z = AList.update m (add (zscore m z) d) z"

fun bytes_less :: "string \<Rightarrow> string \<Rightarrow> bool" where
  "bytes_less s [] = False"
| "bytes_less [] (y # ys) = True"
| "bytes_less (x # xs) (y # ys) = ((of_char x :: nat) < of_char y \<or> x = y \<and> bytes_less xs ys)"

definition ranks_before :: "string \<times> 's::linorder \<Rightarrow> string \<times> 's \<Rightarrow> bool" where
  "ranks_before a b \<longleftrightarrow> snd b < snd a \<or> snd b = snd a \<and> bytes_less (fst b) (fst a)"

fun insert_ranked :: "string \<times> 's::linorder \<Rightarrow> 's zset \<Rightarrow> 's zset" where
  "insert_ranked a [] = [a]"
| "insert_ranked a (b # bs) = (if ranks_before b a then b # insert_ranked a bs else a # b # bs)"

definition zrev_top :: "nat \<Rightarrow> 's::linorder zset \<Rightarrow> 's zset" where
  "zrev_top n z = take n (foldr insert_ranked z [])"

subsection \<open>What they keep\<close>

lemma zscore_zincrby: "zscore m' (zincrby add d m z) = (if m' = m then add (zscore m z) d else zscore m' z)"
  by (simp add: zincrby_def zscore_def update_conv')

lemma distinct_zincrby: "distinct (map fst z) \<Longrightarrow> distinct (map fst (zincrby add d m z))"
  by (simp add: zincrby_def distinct_update)

lemma mset_insert_ranked: "mset (insert_ranked a bs) = add_mset a (mset bs)"
  by (induction bs) auto

lemma mset_ranked: "mset (foldr insert_ranked z []) = mset z"
  by (induction z) (simp_all add: mset_insert_ranked)

lemma sorted_insert_ranked:
  "sorted_wrt (\<lambda>a b. snd b \<le> snd a) bs \<Longrightarrow> sorted_wrt (\<lambda>a b. snd b \<le> snd a) (insert_ranked a bs)"
proof (induction bs)
  case (Cons b bs)
  have "set (insert_ranked a bs) = insert a (set bs)" using arg_cong [OF mset_insert_ranked, of set_mset a bs] by simp
  then show ?case using Cons by (auto simp: ranks_before_def not_less)
qed simp

lemma ranked_sorted: "sorted_wrt (\<lambda>a b. snd b \<le> snd a) (foldr insert_ranked z [])"
  by (induction z) (simp_all add: sorted_insert_ranked)

text \<open>The top: at most \<open>n\<close> entries of the set, as many as there are, and none outside has a higher score than one inside.\<close>

lemma zrev_top_best:
  "length (zrev_top n z) = min n (length z) \<and> mset (zrev_top n z) \<subseteq># mset z \<and>
    (\<forall>a \<in># mset (zrev_top n z). \<forall>b \<in># mset z - mset (zrev_top n z). snd b \<le> snd a)"
proof -
  define r where "r = foldr insert_ranked z []"
  have m: "mset z = mset r" by (simp add: r_def mset_ranked)
  have s: "mset r = mset (take n r) + mset (drop n r)" by (metis append_take_drop_id mset_append)
  have "sorted_wrt (\<lambda>a b. snd b \<le> snd a) (take n r @ drop n r)" using ranked_sorted [of z] by (simp add: r_def)
  then have "\<forall>a \<in> set (take n r). \<forall>b \<in> set (drop n r). snd b \<le> snd a" unfolding sorted_wrt_append by blast
  moreover have "length r = length z" using m by (metis size_mset)
  ultimately show ?thesis using s by (auto simp: zrev_top_def r_def [symmetric] m)
qed

end
