(* ===== verification/Search.thy ===== *)
theory Search
  imports Leaderboard Float64 GoFmt Auction
begin

text \<open>
  The search service: the requests of \<^verbatim>\<open>handler/search_handler.go\<close> with the cache of \<^verbatim>\<open>cache/redis_cache.go\<close>, the queries built and
  the answers read in \<^verbatim>\<open>elastic/queries.go\<close>, and the consumer of \<^verbatim>\<open>kafka/consumer.go\<close> that keeps the index. How Elasticsearch evaluates a query
  is an argument, the engine; the index is the list of its documents with their ids. A cached answer is read back as it was written.
\<close>

record document =
  dc_id :: uuid
  dc_title :: string
  dc_description :: string
  dc_category :: string
  dc_tags :: "string list"
  dc_seller :: uuid
  dc_seller_name :: string
  dc_start_price :: float64
  dc_price :: float64
  dc_bids :: int
  dc_state :: string
  dc_image :: string
  dc_start :: "time option"
  dc_end :: "time option"
  dc_created :: "time option"
  dc_updated :: "time option"

definition empty_document :: document where
  "empty_document = \<lparr>dc_id = [], dc_title = [], dc_description = [], dc_category = [], dc_tags = [], dc_seller = [], dc_seller_name = [],
     dc_start_price = 0, dc_price = 0, dc_bids = 0, dc_state = [], dc_image = [], dc_start = None, dc_end = None, dc_created = None, dc_updated = None\<rparr>"

subsection \<open>Queries\<close>

text \<open>A bound of the price as it is parsed from a request, which may also be infinite or no number.\<close>

datatype price = Finite float64 | Infinite bool | NotANumber

definition positive_price :: "price \<Rightarrow> bool" where
  "positive_price p = (case p of Finite x \<Rightarrow> 0 < x | Infinite pos \<Rightarrow> pos | NotANumber \<Rightarrow> False)"

record search_request =
  sq_query :: string
  sq_category :: string
  sq_state :: string
  sq_min :: price
  sq_max :: price
  sq_sort :: string
  sq_page :: int
  sq_size :: int

datatype clause = MultiMatch string | MatchAll | Term string string | AtLeast price | AtMost price

datatype sort_item = ByScore | Ascending string | Descending string

record es_query =
  eq_from :: int
  eq_size :: int
  eq_sort :: "sort_item list"
  eq_must :: "clause list"
  eq_filter :: "clause list"

definition build_sort :: "string \<Rightarrow> sort_item list" where
  "build_sort s =
     (if s = ''price_asc'' then [Ascending ''current_price'']
      else if s = ''price_desc'' then [Descending ''current_price'']
      else if s = ''newest'' then [Descending ''created_at'']
      else if s = ''ending_soon'' then [Ascending ''end_at'']
      else if s = ''most_bids'' then [Descending ''total_bids'']
      else [ByScore, Descending ''created_at''])"

definition page_size :: "int \<Rightarrow> int" where
  "page_size n = (let s = (if n \<le> 0 then 20 else n) in if 100 < s then 100 else s)"

definition build_search_query :: "search_request \<Rightarrow> es_query" where
  "build_search_query r =
     \<lparr>eq_from = (if 1 < sq_page r then wrap64 ((sq_page r - 1) * page_size (sq_size r)) else 0),
      eq_size = page_size (sq_size r),
      eq_sort = build_sort (sq_sort r),
      eq_must = (if sq_query r = [] then [MatchAll] else [MultiMatch (sq_query r)]),
      eq_filter = (if sq_category r = [] then [] else [Term ''category'' (sq_category r)]) @
        [Term ''state'' (if sq_state r = [] then ''active'' else sq_state r)] @
        (if positive_price (sq_min r) then [AtLeast (sq_min r)] else []) @
        (if positive_price (sq_max r) then [AtMost (sq_max r)] else [])\<rparr>"

text \<open>\<^verbatim>\<open>json.Marshal\<close> refuses numbers that are not finite. The error is dropped, and the request is sent without a body.\<close>

definition finite_clause :: "clause \<Rightarrow> bool" where
  "finite_clause c = (case c of AtLeast (Finite _) \<Rightarrow> True | AtLeast _ \<Rightarrow> False | AtMost (Finite _) \<Rightarrow> True | AtMost _ \<Rightarrow> False | _ \<Rightarrow> True)"

definition marshal_query :: "es_query \<Rightarrow> es_query option" where
  "marshal_query q = (if list_all finite_clause (eq_filter q) then Some q else None)"

text \<open>What comes back, and the answer made of it. An error of the request, of its status or of the decoding is \<open>None\<close>.\<close>

record es_answer =
  ea_hits :: "document list"
  ea_total :: int
  ea_took :: int

type_synonym engine = "es_query option \<Rightarrow> es_answer option"

record search_response =
  sr_hits :: "document list"
  sr_total :: int
  sr_page :: int
  sr_size :: int
  sr_took :: int

definition parse_search_response :: "es_answer \<Rightarrow> int \<Rightarrow> int \<Rightarrow> search_response" where
  "parse_search_response a page psize = \<lparr>sr_hits = ea_hits a, sr_total = ea_total a, sr_page = (if page \<le> 0 then 1 else page),
     sr_size = (if psize \<le> 0 then 20 else psize), sr_took = ea_took a\<rparr>"

definition es_search :: "engine \<Rightarrow> search_request \<Rightarrow> search_response option" where
  "es_search engine r = (case engine (marshal_query (build_search_query r)) of
     None \<Rightarrow> None | Some a \<Rightarrow> Some (parse_search_response a (sq_page r) (sq_size r)))"

text \<open>Suggestions: the titles that match the prefix, at most \<open>n\<close>, each once.\<close>

fun fresh_titles :: "string list \<Rightarrow> string list \<Rightarrow> string list" where
  "fresh_titles seen [] = []"
| "fresh_titles seen (t # ts) = (if t \<in> set seen then fresh_titles seen ts else t # fresh_titles (t # seen) ts)"

definition suggest :: "(string \<Rightarrow> nat \<Rightarrow> string list option) \<Rightarrow> string \<Rightarrow> nat \<Rightarrow> string list option" where
  "suggest titles p n = map_option (fresh_titles []) (titles p n)"

subsection \<open>The cache and the trending searches\<close>

record search_sys =
  ss_index :: "(string \<times> document) list"
  ss_es :: "bool list"
  ss_cache :: "search_response redis"
  ss_trending :: "nat zset \<times> time option"

definition search_cache_key :: "string \<Rightarrow> search_request \<Rightarrow> string" where
  "search_cache_key p r = ''search:'' @ p @ '':'' @ sq_query r @ '':'' @ sq_category r @ '':'' @ sq_state r @ '':'' @ sq_sort r @ '':'' @ itoa (sq_page r)"

text \<open>A sorted set whose expiry has come is gone.\<close>

definition trending_now :: "time \<Rightarrow> nat zset \<times> time option \<Rightarrow> nat zset \<times> time option" where
  "trending_now t z = (if alive t (snd z) then z else ([], None))"

definition record_search :: "time \<Rightarrow> string \<Rightarrow> search_sys \<Rightarrow> search_sys" where
  "record_search t q s =
     (if q = [] then s
      else let r1 = ss_cache s; z0 = trending_now t (ss_trending s);
               z1 = (if redis_fails r1 then z0 else (zincrby (+) 1 q (fst z0), snd z0)); r2 = after_command r1;
               z2 = (if redis_fails r2 \<or> fst z1 = [] then z1 else (fst z1, Some (t + 24 * hour))); r3 = after_command r2
           in s\<lparr>ss_cache := r3, ss_trending := z2\<rparr>)"

definition get_trending_searches :: "time \<Rightarrow> nat \<Rightarrow> search_sys \<Rightarrow> nat zset option \<times> search_sys" where
  "get_trending_searches t n s =
     (if redis_fails (ss_cache s) then None else Some (zrev_top n (fst (trending_now t (ss_trending s)))),
      s\<lparr>ss_cache := after_command (ss_cache s)\<rparr>)"

subsection \<open>The handlers\<close>

datatype search_answer = BadQuery | Found search_response bool | SearchFailed

definition bound_request :: "search_request \<Rightarrow> search_request" where
  "bound_request r = r\<lparr>sq_page := (if sq_page r \<le> 0 then 1 else sq_page r), sq_size := (if sq_size r \<le> 0 then 20 else sq_size r)\<rparr>"

text \<open>A request that cannot be bound is \<open>None\<close>. A cached answer is taken as it is; errors of the cache count as a miss.\<close>

definition search_handler :: "engine \<Rightarrow> time \<Rightarrow> duration \<Rightarrow> search_request option \<Rightarrow> search_sys \<Rightarrow> search_answer \<times> search_sys" where
  "search_handler engine t ttl req s = (case req of
     None \<Rightarrow> (BadQuery, s)
   | Some r0 \<Rightarrow>
       let r = bound_request r0; s1 = record_search t (sq_query r) s; k = search_cache_key ''main'' r
       in case redis_get k t (ss_cache s1) of
            (Some (Some resp), c) \<Rightarrow> (Found resp True, s1\<lparr>ss_cache := c\<rparr>)
          | (_, c) \<Rightarrow>
              (case es_search engine r of
                 None \<Rightarrow> (SearchFailed, s1\<lparr>ss_cache := c\<rparr>)
               | Some resp \<Rightarrow> (Found resp False, s1\<lparr>ss_cache := snd (redis_set k resp ttl t c)\<rparr>)))"

definition suggest_handler :: "(string \<Rightarrow> nat \<Rightarrow> string list option) \<Rightarrow> string \<Rightarrow> string list option" where
  "suggest_handler titles p = (if length p < 2 then Some [] else suggest titles p 10)"

definition trending_handler :: "time \<Rightarrow> search_sys \<Rightarrow> nat zset option \<times> search_sys" where
  "trending_handler t s = get_trending_searches t 10 s"

subsection \<open>Keeping the index\<close>

text \<open>A message: its key, its JSON object, and what the value under \<^verbatim>\<open>tags\<close> decodes to, \<open>None\<close> when it is no list of texts.\<close>

record index_message =
  im_key :: string
  im_value :: "json_object option"
  im_tags :: "string list option"

definition field_int :: "string \<Rightarrow> json_object \<Rightarrow> int option" where
  "field_int k obj = (case field_number k obj of None \<Rightarrow> None
     | Some x \<Rightarrow> if of_int \<lfloor>x\<rfloor> = x \<and> - (2 ^ 63) \<le> \<lfloor>x\<rfloor> \<and> \<lfloor>x\<rfloor> < 2 ^ 63 then Some \<lfloor>x\<rfloor> else None)"

definition decode_document :: "(string \<Rightarrow> time option) \<Rightarrow> string list option \<Rightarrow> json_object \<Rightarrow> document option" where
  "decode_document rfc3339 tags obj =
     (let str = (\<lambda>k f. Option.bind (field_string k obj) f); num = (\<lambda>k f. Option.bind (field_number k obj) f);
          tim = (\<lambda>k f. Option.bind (field_time rfc3339 k obj) f) in
      str ''auction_id'' (\<lambda>i. str ''title'' (\<lambda>ti. str ''description'' (\<lambda>de. str ''category'' (\<lambda>ca.
      Option.bind tags (\<lambda>tg. str ''seller_id'' (\<lambda>se. str ''seller_name'' (\<lambda>sn. num ''start_price'' (\<lambda>sp. num ''current_price'' (\<lambda>cp.
      Option.bind (field_int ''total_bids'' obj) (\<lambda>tb. str ''state'' (\<lambda>st. str ''image_url'' (\<lambda>im.
      tim ''start_at'' (\<lambda>sa. tim ''end_at'' (\<lambda>en. tim ''created_at'' (\<lambda>cr. tim ''updated_at'' (\<lambda>up.
        Some \<lparr>dc_id = i, dc_title = ti, dc_description = de, dc_category = ca, dc_tags = tg, dc_seller = se, dc_seller_name = sn,
          dc_start_price = sp, dc_price = cp, dc_bids = tb, dc_state = st, dc_image = im, dc_start = sa, dc_end = en,
          dc_created = cr, dc_updated = up\<rparr>)))))))))))))))))"

definition es_fails :: "search_sys \<Rightarrow> bool" where
  "es_fails s = (case ss_es s of [] \<Rightarrow> False | b # _ \<Rightarrow> b)"

definition after_request :: "search_sys \<Rightarrow> search_sys" where
  "after_request s = s\<lparr>ss_es := tl (ss_es s)\<rparr>"

text \<open>Indexing replaces the document with the id; without an id Elasticsearch makes one, \<open>auto\<close>. The result is whether it succeeded.\<close>

definition index_document :: "string \<Rightarrow> document \<Rightarrow> search_sys \<Rightarrow> bool \<times> search_sys" where
  "index_document auto d s = (if es_fails s then (False, after_request s)
     else (True, (after_request s)\<lparr>ss_index := AList.update (if dc_id d = [] then auto else dc_id d) d (ss_index s)\<rparr>))"

definition delete_document :: "string \<Rightarrow> search_sys \<Rightarrow> bool \<times> search_sys" where
  "delete_document i s = (if es_fails s then (False, after_request s)
     else (True, (after_request s)\<lparr>ss_index := AList.delete i (ss_index s)\<rparr>))"

text \<open>A message at time \<open>t\<close>. Whatever happens it is committed afterwards.\<close>

definition process_index_message :: "(string \<Rightarrow> time option) \<Rightarrow> string \<Rightarrow> time \<Rightarrow> index_message \<Rightarrow> search_sys \<Rightarrow> search_sys" where
  "process_index_message rfc3339 auto t m s =
     (if im_key m = ''auction.created'' \<or> im_key m = ''auction.updated'' then
        (case Option.bind (im_value m) (decode_document rfc3339 (im_tags m)) of None \<Rightarrow> s | Some d \<Rightarrow> snd (index_document auto d s))
      else if im_key m = ''auction.ended'' then
        (case Option.bind (im_value m) (field_string ''auction_id'') of None \<Rightarrow> s
         | Some i \<Rightarrow> snd (index_document auto (empty_document\<lparr>dc_id := i, dc_state := ''ended'', dc_updated := Some t\<rparr>) s))
      else if im_key m = ''auction.deleted'' then
        (case Option.bind (im_value m) (field_string ''auction_id'') of None \<Rightarrow> s | Some i \<Rightarrow> snd (delete_document i s))
      else s)"

definition index_messages :: "(string \<Rightarrow> time option) \<Rightarrow> (string \<times> time \<times> index_message) list \<Rightarrow> search_sys \<Rightarrow> search_sys" where
  "index_messages rfc3339 ms s = fold (\<lambda>(auto, t, m). process_index_message rfc3339 auto t m) ms s"

text \<open>What the auction service writes to the topic of an event: the key is its type, empty optional fields are left out.\<close>

definition event_json :: "(time \<Rightarrow> string) \<Rightarrow> auction_event \<Rightarrow> json_object" where
  "event_json format e =
     [(''event_type'', JString (ev_type e)), (''auction_id'', JString (ev_auction e)), (''seller_id'', JString (ev_seller e)),
      (''title'', JString (ev_title e)), (''category'', JString (ev_category e))] @
     (if ev_winner e = [] then [] else [(''winner_id'', JString (ev_winner e))]) @
     (if ev_amount e = 0 then [] else [(''amount'', JNumber (ev_amount e))]) @
     [(''timestamp'', JString (format (ev_time e)))]"

definition event_message :: "(time \<Rightarrow> string) \<Rightarrow> auction_event \<Rightarrow> index_message" where
  "event_message format e = \<lparr>im_key = ev_type e, im_value = Some (event_json format e), im_tags = Some []\<rparr>"

end
