(* ===== verification/SearchSpec.thy ===== *)
theory SearchSpec
  imports Search
begin

text \<open>
  What a search returns, when its filters hold, what the cache does to them, and what becomes of the auctions that the auction service announces.
\<close>

subsection \<open>The engine\<close>

text \<open>What Elasticsearch promises of an answer: its hits are documents of the index that satisfy every clause of the filter, no more than asked for.\<close>

definition satisfies :: "clause \<Rightarrow> document \<Rightarrow> bool" where
  "satisfies c d = (case c of
     Term f v \<Rightarrow> (if f = ''category'' then dc_category d = v else if f = ''state'' then dc_state d = v else False)
   | AtLeast (Finite x) \<Rightarrow> x \<le> dc_price d
   | AtMost (Finite x) \<Rightarrow> dc_price d \<le> x
   | _ \<Rightarrow> True)"

definition engine_ok :: "document set \<Rightarrow> engine \<Rightarrow> bool" where
  "engine_ok docs engine \<longleftrightarrow> (\<forall>q a. engine (Some q) = Some a \<longrightarrow>
     set (ea_hits a) \<subseteq> docs \<and> int (length (ea_hits a)) \<le> eq_size q \<and> (\<forall>d \<in> set (ea_hits a). \<forall>c \<in> set (eq_filter q). satisfies c d))"

text \<open>An engine that scans the documents and matches every text, for the witnesses.\<close>

definition scan :: "document list \<Rightarrow> engine" where
  "scan docs q = (case q of None \<Rightarrow> None
   | Some q \<Rightarrow> if eq_size q < 0 \<or> eq_from q < 0 then None
       else let hits = filter (\<lambda>d. list_all (\<lambda>c. satisfies c d) (eq_filter q)) docs in
         Some \<lparr>ea_hits = take (nat (eq_size q)) (drop (nat (eq_from q)) hits), ea_total = int (length hits), ea_took = 1\<rparr>)"

lemma page_size_bounds: "1 \<le> page_size n" "page_size n \<le> 100"
  by (auto simp: page_size_def)

lemma scan_ok: "engine_ok (set docs) (scan docs)"
  by (auto simp: engine_ok_def scan_def Let_def list_all_iff dest!: in_set_takeD in_set_dropD split: if_splits)

subsection \<open>The hits\<close>

definition finite_request :: "search_request \<Rightarrow> bool" where
  "finite_request r \<longleftrightarrow> (positive_price (sq_min r) \<longrightarrow> (\<exists>x. sq_min r = Finite x)) \<and> (positive_price (sq_max r) \<longrightarrow> (\<exists>x. sq_max r = Finite x))"

lemma marshal_finite: "finite_request r \<Longrightarrow> marshal_query (build_search_query r) = Some (build_search_query r)"
  by (auto simp: marshal_query_def finite_request_def build_search_query_def finite_clause_def)

definition in_prices :: "search_request \<Rightarrow> document \<Rightarrow> bool" where
  "in_prices r d \<longleftrightarrow> (\<forall>x. sq_min r = Finite x \<longrightarrow> 0 < x \<longrightarrow> x \<le> dc_price d) \<and> (\<forall>x. sq_max r = Finite x \<longrightarrow> 0 < x \<longrightarrow> dc_price d \<le> x)"

lemma hits_fit_lemma:
  assumes "engine_ok docs engine" and "finite_request r" and "es_search engine r = Some resp"
  shows "int (length (sr_hits resp)) \<le> page_size (sq_size r) \<and> page_size (sq_size r) \<le> 100 \<and>
    (\<forall>d \<in> set (sr_hits resp). d \<in> docs \<and> (sq_category r = [] \<or> dc_category d = sq_category r) \<and>
       dc_state d = (if sq_state r = [] then ''active'' else sq_state r) \<and> in_prices r d)"
proof -
  obtain a where a: "engine (Some (build_search_query r)) = Some a" "sr_hits resp = ea_hits a"
    using assms(3) by (auto simp: es_search_def marshal_finite [OF assms(2)] parse_search_response_def split: option.splits)
  have ok: "set (ea_hits a) \<subseteq> docs" "int (length (ea_hits a)) \<le> eq_size (build_search_query r)"
    and f: "\<forall>d \<in> set (ea_hits a). \<forall>c \<in> set (eq_filter (build_search_query r)). satisfies c d"
    using assms(1) a(1) unfolding engine_ok_def by blast+
  have "(sq_category r = [] \<or> dc_category d = sq_category r) \<and> dc_state d = (if sq_state r = [] then ''active'' else sq_state r) \<and> in_prices r d"
    if "\<forall>c \<in> set (eq_filter (build_search_query r)). satisfies c d" for d
    using that by (auto simp: build_search_query_def satisfies_def in_prices_def positive_price_def split: if_splits)
  then show ?thesis using f ok a(2) page_size_bounds by (auto simp: build_search_query_def)
qed

text \<open>With bounds that are finite every hit of a query is a document of the index in the category, state and price range asked for, the state being
  active when none is given, and there are at most as many as the page has, which is at most a hundred.\<close>

theorem hits_fit:
  assumes "engine_ok docs engine" and "finite_request r" and "es_search engine r = Some resp"
  shows "int (length (sr_hits resp)) \<le> page_size (sq_size r) \<and> page_size (sq_size r) \<le> 100 \<and>
    (\<forall>d \<in> set (sr_hits resp). d \<in> docs \<and> (sq_category r = [] \<or> dc_category d = sq_category r) \<and>
       dc_state d = (if sq_state r = [] then ''active'' else sq_state r) \<and> in_prices r d)"
  using hits_fit_lemma [OF assms] .

text \<open>An infinite bound, which a request can have, takes the whole query with it: the request to Elasticsearch has no body, and so no filter.\<close>

lemma infinite_price_unfiltered:
  "sq_max r = Infinite True \<Longrightarrow> marshal_query (build_search_query r) = None"
  by (simp add: marshal_query_def build_search_query_def positive_price_def finite_clause_def)

text \<open>The pages of a query follow one another without gap or overlap, as long as the products stay in 64 bits.\<close>

theorem pages_adjoin:
  assumes "1 \<le> sq_page r" and "sq_page r \<le> 2 ^ 56"
  defines "q \<equiv> build_search_query r" and "q' \<equiv> build_search_query (r\<lparr>sq_page := sq_page r + 1\<rparr>)"
  shows "eq_from q = (sq_page r - 1) * eq_size q \<and> eq_from q' = eq_from q + eq_size q \<and> eq_size q' = eq_size q"
proof -
  have w: "wrap64 (p * page_size n) = p * page_size n" if "0 \<le> p" "p \<le> 2 ^ 56" for p n
  proof -
    have "0 \<le> p * page_size n" "p * page_size n \<le> 2 ^ 56 * 100"
      using that page_size_bounds [of n] mult_mono [of p "2 ^ 56" "page_size n" 100] by auto
    then show ?thesis by (simp add: wrap64_def)
  qed
  have "eq_from q = (sq_page r - 1) * eq_size q" using assms(1,2) by (auto simp: q_def build_search_query_def w)
  moreover have "eq_from q' = sq_page r * eq_size q" "eq_size q' = eq_size q"
    using assms(1,2) by (simp_all add: q_def q'_def build_search_query_def w)
  ultimately show ?thesis by (simp add: algebra_simps)
qed

text \<open>But the answer names the page size of the request, not the one used.\<close>

lemma page_size_not_told: "sr_size (parse_search_response a p 500) = 500" "page_size 500 = 100"
  by (simp_all add: parse_search_response_def page_size_def)

text \<open>The suggestions are the titles found, each once and in their order.\<close>

theorem suggestions_distinct:
  "case suggest titles p n of None \<Rightarrow> titles p n = None
   | Some ts \<Rightarrow> distinct ts \<and> (\<exists>found. titles p n = Some found \<and> ts = rev (remdups (rev found)))"
proof -
  have "fresh_titles seen found = filter (\<lambda>t. t \<notin> set seen) (rev (remdups (rev found)))" for seen found
  proof (induction seen found rule: fresh_titles.induct)
    case (2 seen t ts)
    have "rev (remdups (rev (t # ts))) = t # filter (\<lambda>x. x \<noteq> t) (rev (remdups (rev ts)))"
    proof -
      have "remdups (xs @ [t]) = filter (\<lambda>x. x \<noteq> t) (remdups xs) @ [t]" for xs by (induction xs) auto
      then show ?thesis by (simp add: rev_filter [symmetric])
    qed
    then show ?case using 2 by (auto intro: filter_cong)
  qed simp
  then show ?thesis by (simp add: suggest_def split: option.split)
qed

lemma hits_fit_witness:
  defines "d \<equiv> empty_document\<lparr>dc_id := ''a'', dc_category := ''art'', dc_price := 40, dc_state := ''active''\<rparr>"
    and "e \<equiv> empty_document\<lparr>dc_id := ''b'', dc_category := ''art'', dc_price := 400, dc_state := ''active''\<rparr>"
    and "r \<equiv> \<lparr>sq_query = [], sq_category = ''art'', sq_state = [], sq_min = Finite 0, sq_max = Finite 100, sq_sort = [], sq_page = 1, sq_size = 10\<rparr>"
  shows "\<exists>resp. es_search (scan [d, e]) r = Some resp \<and> sr_hits resp = [d] \<and> in_prices r d \<and> \<not> in_prices r e"
proof -
  have f: "finite_request r" by (simp add: finite_request_def r_def positive_price_def)
  obtain resp where resp: "es_search (scan [d, e]) r = Some resp" "sr_hits resp = [d]"
    by (simp add: es_search_def marshal_finite [OF f] scan_def Let_def)
      (simp add: parse_search_response_def build_search_query_def r_def d_def e_def satisfies_def positive_price_def page_size_def empty_document_def)
  then show ?thesis using hits_fit [OF scan_ok f resp(1)] by (simp add: in_prices_def r_def e_def)
qed

lemma pages_adjoin_witness:
  "eq_from (build_search_query \<lparr>sq_query = [], sq_category = [], sq_state = [], sq_min = NotANumber, sq_max = NotANumber, sq_sort = [], sq_page = 4, sq_size = 0\<rparr>) = 60"
  using pages_adjoin [of "\<lparr>sq_query = [], sq_category = [], sq_state = [], sq_min = NotANumber, sq_max = NotANumber, sq_sort = [], sq_page = 4, sq_size = 0\<rparr>"]
  by (simp add: build_search_query_def page_size_def)

subsection \<open>The cache\<close>

lemma record_search_cache [simp]:
  "rd_keys (ss_cache (record_search t q s)) = rd_keys (ss_cache s)" "rd_faults (ss_cache s) = [] \<Longrightarrow> rd_faults (ss_cache (record_search t q s)) = []"
  "ss_index (record_search t q s) = ss_index s"
  by (simp_all add: record_search_def Let_def)

lemma redis_get_up: "rd_faults r = [] \<Longrightarrow> redis_get k t r = (Some (map_option fst (live k t r)), after_command r)"
  by (simp add: redis_get_def)

text \<open>The cache knows nothing of the prices and the page size: while an answer is kept, every request with the same text, category, state,
  sort order and page gets it, whatever range of prices it asks for.\<close>

theorem cached_for_other_prices:
  assumes "search_handler engine t ttl (Some r) s = (Found resp False, s')" and "rd_faults (ss_cache s) = []"
    and "sq_query r' = sq_query r" and "sq_category r' = sq_category r" and "sq_state r' = sq_state r" and "sq_sort r' = sq_sort r" and "sq_page r' = sq_page r"
    and "t' < t + ttl"
  shows "fst (search_handler engine' t' ttl' (Some r') s') = Found resp True"
proof -
  define k where "k = search_cache_key ''main'' (bound_request r)"
  have k': "search_cache_key ''main'' (bound_request r') = k"
    using assms(3-7) by (simp add: k_def search_cache_key_def bound_request_def)
  have q: "sq_query (bound_request r) = sq_query r" for r by (simp add: bound_request_def)
  have s': "rd_faults (ss_cache s') = []" "rd_keys (ss_cache s') k = Some (resp, Some (t + ttl))"
    using assms(1,2) by (auto simp: search_handler_def Let_def redis_get_up k_def redis_set_def split: option.splits if_splits)
  have "live k t' (ss_cache (record_search t' (sq_query (bound_request r')) s')) = Some (resp, Some (t + ttl))"
    using s' assms(8) by (simp add: live_def alive_def)
  then show ?thesis
    using s' by (simp add: search_handler_def Let_def k' redis_get_up)
qed

subsection \<open>What the auction service announces\<close>

text \<open>A document of an announced auction: it has no state, or the one that an ended event gives it.\<close>

definition announced :: "document \<Rightarrow> bool" where
  "announced d \<longleftrightarrow> dc_state d = [] \<or> dc_state d = ''ended''"

lemma event_fields:
  "json_field ''state'' (event_json format e) = JNull" "json_field ''auction_id'' (event_json format e) = JString (ev_auction e)"
  by (simp_all add: json_field_def event_json_def)

lemma decoded_event: "decode_document rfc3339 tags (event_json format e) = Some d \<Longrightarrow> dc_state d = []"
  by (auto simp: decode_document_def Let_def field_string_def event_fields bind_eq_Some_conv split: json.splits)

lemma update_values: "set (map snd (AList.update k v al)) \<subseteq> insert v (set (map snd al))"
  by (induction al) auto

lemma delete_values: "set (map snd (AList.delete k al)) \<subseteq> set (map snd al)"
  by (induction al) auto

lemma index_document_in: "set (map snd (ss_index (snd (index_document auto d s)))) \<subseteq> insert d (set (map snd (ss_index s)))"
  using update_values [of "if dc_id d = [] then auto else dc_id d" d "ss_index s"]
  by (auto simp: index_document_def after_request_def Let_def)

definition all_announced :: "search_sys \<Rightarrow> bool" where
  "all_announced s \<longleftrightarrow> set (map snd (ss_index s)) \<subseteq> Collect announced"

lemma index_announced: "announced d \<Longrightarrow> all_announced s \<Longrightarrow> all_announced (snd (index_document auto d s))"
  using index_document_in [of auto d s] unfolding all_announced_def by blast

lemma delete_announced: "all_announced s \<Longrightarrow> all_announced (snd (delete_document i s))"
  using order_trans [OF delete_values [of i "ss_index s"], of "Collect announced"]
  by (simp add: all_announced_def delete_document_def after_request_def)

lemma process_event_announced:
  "all_announced s \<Longrightarrow> all_announced (process_index_message rfc3339 auto t (event_message format e) s)"
  by (auto simp: process_index_message_def event_message_def announced_def dest: decoded_event
      intro!: index_announced delete_announced split: option.splits)

lemma index_events_announced:
  "all_announced s \<Longrightarrow> all_announced (index_messages rfc3339 (map (\<lambda>(auto, t, e). (auto, t, event_message format e)) evs) s)"
  by (induction evs arbitrary: s) (auto simp: index_messages_def process_event_announced)



lemma cached_for_other_prices_witness:
  defines "d \<equiv> empty_document\<lparr>dc_id := ''a'', dc_price := 400, dc_state := ''active''\<rparr>"
    and "s \<equiv> \<lparr>ss_index = [], ss_es = [], ss_cache = \<lparr>rd_keys = (\<lambda>_. None), rd_faults = []\<rparr>, ss_trending = ([], None)\<rparr>"
    and "r \<equiv> \<lparr>sq_query = ''lamp'', sq_category = [], sq_state = [], sq_min = Finite 0, sq_max = Finite 0, sq_sort = [], sq_page = 1, sq_size = 10\<rparr>"
  shows "\<exists>resp s'. search_handler (scan [d]) 0 10 (Some r) s = (Found resp False, s') \<and> sr_hits resp = [d] \<and>
    fst (search_handler (scan [d]) 5 10 (Some (r\<lparr>sq_max := Finite 50\<rparr>)) s') = Found resp True"
proof -
  obtain resp s' where h: "search_handler (scan [d]) 0 10 (Some r) s = (Found resp False, s')" "sr_hits resp = [d]"
    by (simp add: search_handler_def Let_def redis_get_up live_def es_search_def s_def)
      (simp add: record_search_def Let_def marshal_query_def build_search_query_def r_def d_def bound_request_def positive_price_def finite_clause_def
        scan_def page_size_def satisfies_def parse_search_response_def empty_document_def live_def redis_get_def redis_fails_def after_command_def)
  have f: "rd_faults (ss_cache s) = []" by (simp add: s_def)
  have "fst (search_handler (scan [d]) 5 10 (Some (r\<lparr>sq_max := Finite 50\<rparr>)) s') = Found resp True"
    by (rule cached_for_other_prices [OF h(1) f]) simp_all
  then show ?thesis using h by blast
qed

text \<open>An ended auction loses all the index had of it but its id.\<close>

lemma ended_wipes:
  assumes "\<not> es_fails s" and "im_key m = ''auction.ended''" and "Option.bind (im_value m) (field_string ''auction_id'') = Some i" and "i \<noteq> []"
  shows "map_of (ss_index (process_index_message rfc3339 auto t m s)) i = Some (empty_document\<lparr>dc_id := i, dc_state := ''ended'', dc_updated := Some t\<rparr>)"
  using assms by (simp add: process_index_message_def index_document_def after_request_def update_conv')

end
