(* ===== verification/Analytics.thy ===== *)
theory Analytics
  imports Leaderboard Session Float64 GoFmt
begin

text \<open>
  The analytics service: the consumer of events (\<^verbatim>\<open>consumer/consumer.go\<close>), its tables (\<^verbatim>\<open>repository/analytics_repository.go\<close>,
  \<^verbatim>\<open>migrations/001_init.sql\<close>), the counters and leaderboards on Redis (\<^verbatim>\<open>cache/redis.go\<close>) and the dashboards
  (\<^verbatim>\<open>handler/dashboard_handler.go\<close>). Amounts in the tables are whole cents; ids are UUIDs; the process runs in UTC. The day of a time is the number
  of days since the year 1. An event is handled at one time.
\<close>

record daily_metric =
  dm_date :: int
  dm_revenue :: int
  dm_bids :: int
  dm_auctions :: int
  dm_active :: int
  dm_new :: int
  dm_completed :: int
  dm_created :: time

record auction_metric =
  am_auction :: uuid
  am_bids :: int
  am_highest :: int
  am_bidders :: int
  am_watch :: int
  am_updated :: time

record revenue_metric =
  rv_seller :: uuid
  rv_auction :: uuid
  rv_gross :: int
  rv_fee :: int
  rv_net :: int
  rv_created :: time

record analyticsdb =
  daily :: "daily_metric list"
  auctions_seen :: "auction_metric list"
  revenue :: "revenue_metric list"

text \<open>A value of a key: a counter, an amount or a set.\<close>

datatype an_value = Counted int | Amount rat | Members "string list"

record an_sys =
  an_sess :: "analyticsdb session"
  an_redis :: "an_value redis"
  an_sellers :: "float64 zset"
  an_bidders :: "float64 zset"
  an_categories :: "float64 zset"

subsection \<open>The tables\<close>

definition day_of :: "time \<Rightarrow> int" where
  "day_of t = t div (24 * hour)"

text \<open>\<^verbatim>\<open>INSERT ... ON CONFLICT DO UPDATE\<close>, by the key of the table.\<close>

definition upsert :: "('r \<Rightarrow> bool) \<Rightarrow> 'r \<Rightarrow> ('r \<Rightarrow> 'r) \<Rightarrow> 'r list \<Rightarrow> 'r list" where
  "upsert P new f rows = (if list_ex P rows then update_where P f rows else rows @ [new])"

definition empty_daily :: "time \<Rightarrow> daily_metric" where
  "empty_daily t = \<lparr>dm_date = day_of t, dm_revenue = 0, dm_bids = 0, dm_auctions = 0, dm_active = 0, dm_new = 0, dm_completed = 0, dm_created = t\<rparr>"

definition sql_incr_bids :: "time \<Rightarrow> uuid \<Rightarrow> float64 \<Rightarrow> analyticsdb db_update" where
  "sql_incr_bids t a amount d = (case money amount of
     None \<Rightarrow> Inl NumericOverflow
   | Some c \<Rightarrow> Inr (d\<lparr>auctions_seen := upsert (\<lambda>m. am_auction m = a)
        \<lparr>am_auction = a, am_bids = 1, am_highest = c, am_bidders = 1, am_watch = 0, am_updated = t\<rparr>
        (\<lambda>m. m\<lparr>am_bids := am_bids m + 1, am_highest := max (am_highest m) c, am_updated := t\<rparr>) (auctions_seen d)\<rparr>, 1))"

definition sql_incr_auctions :: "time \<Rightarrow> analyticsdb db_update" where
  "sql_incr_auctions t d = Inr (d\<lparr>daily := upsert (\<lambda>m. dm_date m = day_of t) ((empty_daily t)\<lparr>dm_auctions := 1\<rparr>)
     (\<lambda>m. m\<lparr>dm_auctions := dm_auctions m + 1\<rparr>) (daily d)\<rparr>, 1)"

definition sql_incr_new_users :: "time \<Rightarrow> analyticsdb db_update" where
  "sql_incr_new_users t d = Inr (d\<lparr>daily := upsert (\<lambda>m. dm_date m = day_of t) ((empty_daily t)\<lparr>dm_new := 1\<rparr>)
     (\<lambda>m. m\<lparr>dm_new := dm_new m + 1\<rparr>) (daily d)\<rparr>, 1)"

definition sql_insert_revenue :: "time \<Rightarrow> uuid \<Rightarrow> uuid \<Rightarrow> float64 \<Rightarrow> float64 \<Rightarrow> analyticsdb db_update" where
  "sql_insert_revenue t seller a gross fee d = (case (money gross, money fee, money (fsub gross fee)) of
     (Some g, Some f, Some n) \<Rightarrow> Inr (d\<lparr>revenue := revenue d @ [\<lparr>rv_seller = seller, rv_auction = a, rv_gross = g, rv_fee = f, rv_net = n, rv_created = t\<rparr>]\<rparr>, 1)
   | _ \<Rightarrow> Inl NumericOverflow)"

text \<open>The errors of these statements are dropped.\<close>

definition an_exec :: "analyticsdb db_update \<Rightarrow> an_sys \<Rightarrow> an_sys" where
  "an_exec f s = s\<lparr>an_sess := snd (pool_exec f (an_sess s))\<rparr>"

definition incr_auction_bids :: "time \<Rightarrow> uuid \<Rightarrow> float64 \<Rightarrow> an_sys \<Rightarrow> an_sys" where
  "incr_auction_bids t a amount = an_exec (sql_incr_bids t a amount)"

definition incr_daily_auctions :: "time \<Rightarrow> an_sys \<Rightarrow> an_sys" where
  "incr_daily_auctions t = an_exec (sql_incr_auctions t)"

definition incr_daily_new_users :: "time \<Rightarrow> an_sys \<Rightarrow> an_sys" where
  "incr_daily_new_users t = an_exec (sql_incr_new_users t)"

definition record_revenue :: "time \<Rightarrow> uuid \<Rightarrow> uuid \<Rightarrow> float64 \<Rightarrow> float64 \<Rightarrow> an_sys \<Rightarrow> an_sys" where
  "record_revenue t seller a gross fee = an_exec (sql_insert_revenue t seller a gross fee)"

definition an_query :: "(analyticsdb \<Rightarrow> 'a option) \<Rightarrow> an_sys \<Rightarrow> (db_error + 'a) \<times> an_sys" where
  "an_query q s = (case pool_query q (an_sess s) of (r, u) \<Rightarrow> (r, s\<lparr>an_sess := u\<rparr>))"

definition get_daily_metrics :: "time \<Rightarrow> time \<Rightarrow> an_sys \<Rightarrow> (db_error + daily_metric list) \<times> an_sys" where
  "get_daily_metrics a b = an_query (\<lambda>d. Some (sort_key (\<lambda>m. - dm_date m) (filter (\<lambda>m. day_of a \<le> dm_date m \<and> dm_date m \<le> day_of b) (daily d))))"

definition get_total_revenue :: "an_sys \<Rightarrow> (db_error + float64) \<times> an_sys" where
  "get_total_revenue = an_query (\<lambda>d. Some (dec (sum_list (map rv_fee (revenue d)))))"

record seller_stats =
  st_seller :: uuid
  st_revenue :: float64
  st_auctions :: int

text \<open>A query that fails leaves its field at zero.\<close>

definition get_seller_stats :: "uuid \<Rightarrow> an_sys \<Rightarrow> seller_stats \<times> an_sys" where
  "get_seller_stats seller s =
     (case an_query (\<lambda>d. Some (dec (sum_list (map rv_net (filter (\<lambda>r. rv_seller r = seller) (revenue d)))))) s of (r1, s1) \<Rightarrow>
      case an_query (\<lambda>d. Some (int (length (remdups (map rv_auction (filter (\<lambda>r. rv_seller r = seller) (revenue d))))))) s1 of (r2, s2) \<Rightarrow>
        (\<lparr>st_seller = seller, st_revenue = (case r1 of Inr x \<Rightarrow> x | Inl _ \<Rightarrow> 0), st_auctions = (case r2 of Inr n \<Rightarrow> n | Inl _ \<Rightarrow> 0)\<rparr>, s2))"

definition get_auction_metric :: "uuid \<Rightarrow> an_sys \<Rightarrow> (db_error + auction_metric) \<times> an_sys" where
  "get_auction_metric a = an_query (\<lambda>d. find (\<lambda>m. am_auction m = a) (auctions_seen d))"

subsection \<open>Counters and leaderboards\<close>

text \<open>\<^verbatim>\<open>Format("2006-01-02")\<close> of a day: the civil calendar, counted from March in eras of 400 years.\<close>

definition two_digits :: "int \<Rightarrow> string" where
  "two_digits n = (if n < 10 then ''0'' @ itoa n else itoa n)"

definition date_text :: "int \<Rightarrow> string" where
  "date_text day =
     (let z = day + 306; era = z div 146097; doe = z mod 146097;
          yoe = (doe - doe div 1460 + doe div 36524 - doe div 146096) div 365;
          doy = doe - (365 * yoe + yoe div 4 - yoe div 100); mp = (5 * doy + 2) div 153;
          d = doy - (153 * mp + 2) div 5 + 1; m = (if mp < 10 then mp + 3 else mp - 9);
          y = yoe + era * 400 + (if m \<le> 2 then 1 else 0)
      in replicate (4 - length (itoa y)) CHR ''0'' @ itoa y @ ''-'' @ two_digits m @ ''-'' @ two_digits d)"

definition bids_key :: "time \<Rightarrow> string" where "bids_key t = ''analytics:bids:'' @ date_text (day_of t)"
definition users_key :: "time \<Rightarrow> string" where "users_key t = ''analytics:active_users:'' @ date_text (day_of t)"
definition revenue_key :: "time \<Rightarrow> string" where "revenue_key t = ''analytics:revenue:'' @ date_text (day_of t)"

text \<open>A command that changes the value of a key, keeping its expiry, and fails on a value of another kind; then \<^verbatim>\<open>EXPIRE\<close>. Errors are dropped.\<close>

definition change_key :: "(an_value option \<Rightarrow> an_value option) \<Rightarrow> string \<Rightarrow> time \<Rightarrow> an_value redis \<Rightarrow> an_value redis" where
  "change_key f k t r = (if redis_fails r then after_command r
     else (case f (map_option fst (live k t r)) of None \<Rightarrow> after_command r
        | Some v \<Rightarrow> (after_command r)\<lparr>rd_keys := (rd_keys r)(k \<mapsto> (v, Option.bind (live k t r) snd))\<rparr>))"

definition expire_key :: "string \<Rightarrow> duration \<Rightarrow> time \<Rightarrow> an_value redis \<Rightarrow> an_value redis" where
  "expire_key k ttl t r = (if redis_fails r then after_command r else redis_pexpire k ttl t (after_command r))"

definition bump :: "an_value option \<Rightarrow> an_value option" where
  "bump v = (case v of None \<Rightarrow> Some (Counted 1) | Some (Counted n) \<Rightarrow> Some (Counted (n + 1)) | _ \<Rightarrow> None)"

definition add_member :: "string \<Rightarrow> an_value option \<Rightarrow> an_value option" where
  "add_member m v = (case v of None \<Rightarrow> Some (Members [m]) | Some (Members ms) \<Rightarrow> Some (Members (if m \<in> set ms then ms else ms @ [m])) | _ \<Rightarrow> None)"

text \<open>Redis adds in a longer format than the float of the program: \<open>add\<close> is an argument.\<close>

definition add_amount :: "(rat \<Rightarrow> rat \<Rightarrow> rat) \<Rightarrow> float64 \<Rightarrow> an_value option \<Rightarrow> an_value option" where
  "add_amount add x v = (case v of None \<Rightarrow> Some (Amount (add 0 x)) | Some (Amount y) \<Rightarrow> Some (Amount (add y x)) | Some (Counted n) \<Rightarrow> Some (Amount (add (of_int n) x))
     | _ \<Rightarrow> None)"

definition an_on_redis :: "(an_value redis \<Rightarrow> an_value redis) \<Rightarrow> an_sys \<Rightarrow> an_sys" where
  "an_on_redis f s = s\<lparr>an_redis := f (an_redis s)\<rparr>"

definition incr_bids_today :: "time \<Rightarrow> an_sys \<Rightarrow> an_sys" where
  "incr_bids_today t = an_on_redis (expire_key (bids_key t) (48 * hour) t \<circ> change_key bump (bids_key t) t)"

definition incr_active_users :: "string \<Rightarrow> time \<Rightarrow> an_sys \<Rightarrow> an_sys" where
  "incr_active_users u t = an_on_redis (expire_key (users_key t) (48 * hour) t \<circ> change_key (add_member u) (users_key t) t)"

definition incr_revenue :: "(rat \<Rightarrow> rat \<Rightarrow> rat) \<Rightarrow> float64 \<Rightarrow> time \<Rightarrow> an_sys \<Rightarrow> an_sys" where
  "incr_revenue add x t = an_on_redis (expire_key (revenue_key t) (48 * hour) t \<circ> change_key (add_amount add x) (revenue_key t) t)"

definition get_bids_today :: "time \<Rightarrow> an_sys \<Rightarrow> int \<times> an_sys" where
  "get_bids_today t s = (case redis_get (bids_key t) t (an_redis s) of
     (Some (Some (Counted n)), r) \<Rightarrow> (n, s\<lparr>an_redis := r\<rparr>) | (_, r) \<Rightarrow> (0, s\<lparr>an_redis := r\<rparr>))"

definition get_active_users_today :: "time \<Rightarrow> an_sys \<Rightarrow> int \<times> an_sys" where
  "get_active_users_today t s = (case redis_get (users_key t) t (an_redis s) of
     (Some (Some (Members ms)), r) \<Rightarrow> (int (length ms), s\<lparr>an_redis := r\<rparr>) | (_, r) \<Rightarrow> (0, s\<lparr>an_redis := r\<rparr>))"

definition get_revenue_today :: "time \<Rightarrow> an_sys \<Rightarrow> float64 \<times> an_sys" where
  "get_revenue_today t s = (case redis_get (revenue_key t) t (an_redis s) of
     (Some (Some (Amount x)), r) \<Rightarrow> (fl x, s\<lparr>an_redis := r\<rparr>) | (Some (Some (Counted n)), r) \<Rightarrow> (fl (of_int n), s\<lparr>an_redis := r\<rparr>)
   | (_, r) \<Rightarrow> (0, s\<lparr>an_redis := r\<rparr>))"

definition board_incr :: "float64 \<Rightarrow> string \<Rightarrow> bool \<Rightarrow> float64 zset \<Rightarrow> float64 zset" where
  "board_incr x m fails z = (if fails then z else zincrby fadd x m z)"

definition incr_seller_revenue :: "string \<Rightarrow> float64 \<Rightarrow> an_sys \<Rightarrow> an_sys" where
  "incr_seller_revenue m x s = an_on_redis after_command (s\<lparr>an_sellers := board_incr x m (redis_fails (an_redis s)) (an_sellers s)\<rparr>)"

definition incr_bidder_activity :: "string \<Rightarrow> an_sys \<Rightarrow> an_sys" where
  "incr_bidder_activity m s = an_on_redis after_command (s\<lparr>an_bidders := board_incr 1 m (redis_fails (an_redis s)) (an_bidders s)\<rparr>)"

definition incr_category_activity :: "string \<Rightarrow> an_sys \<Rightarrow> an_sys" where
  "incr_category_activity m s = an_on_redis after_command (s\<lparr>an_categories := board_incr 1 m (redis_fails (an_redis s)) (an_categories s)\<rparr>)"

definition get_top :: "(an_sys \<Rightarrow> float64 zset) \<Rightarrow> nat \<Rightarrow> an_sys \<Rightarrow> float64 zset \<times> an_sys" where
  "get_top board n s = (if redis_fails (an_redis s) then [] else zrev_top n (board s), an_on_redis after_command s)"

subsection \<open>The consumer\<close>

text \<open>A message: its key, which is taken for the type of the event, and its JSON object.\<close>

type_synonym an_message = "string \<times> json_object option"

definition platform_fee :: "float64 \<Rightarrow> float64" where
  "platform_fee amount = fl (amount * fl (5 / 100))"

definition analytics_process :: "(rat \<Rightarrow> rat \<Rightarrow> rat) \<Rightarrow> time \<Rightarrow> an_message \<Rightarrow> an_sys \<Rightarrow> an_sys" where
  "analytics_process add t m s = (let str = (\<lambda>k. Option.bind (snd m) (field_string k)); num = (\<lambda>k. Option.bind (snd m) (field_number k)) in
     if fst m = ''bid.placed'' then
       (case (str ''auction_id'', str ''user_id'', num ''amount'') of
          (Some a, Some u, Some x) \<Rightarrow> incr_auction_bids t a x (incr_active_users u t (incr_bidder_activity u (incr_bids_today t s)))
        | _ \<Rightarrow> s)
     else if fst m = ''auction.created'' then
       (case (str ''auction_id'', str ''category'', str ''seller_id'') of
          (Some a, Some c, Some sl) \<Rightarrow> incr_daily_auctions t (incr_category_activity c s)
        | _ \<Rightarrow> s)
     else if fst m = ''payment.settled'' then
       (case (str ''auction_id'', str ''seller_id'', num ''amount'') of
          (Some a, Some sl, Some x) \<Rightarrow> let fee = platform_fee x in
            record_revenue t sl a x fee (incr_seller_revenue sl (fsub x fee) (incr_revenue add fee t s))
        | _ \<Rightarrow> s)
     else if fst m = ''user.registered'' then incr_daily_new_users t s
     else s)"

text \<open>The messages with the times they are handled; each is committed whatever came of it.\<close>

definition analytics_run :: "(rat \<Rightarrow> rat \<Rightarrow> rat) \<Rightarrow> (time \<times> an_message) list \<Rightarrow> an_sys \<Rightarrow> an_sys" where
  "analytics_run add ms s = fold (\<lambda>(t, m). analytics_process add t m) ms s"

subsection \<open>The dashboards\<close>

record dashboard_stats =
  ds_total_revenue :: float64
  ds_today_revenue :: float64
  ds_today_bids :: int
  ds_users :: int

definition admin_dashboard :: "time \<Rightarrow> an_sys \<Rightarrow> dashboard_stats \<times> an_sys" where
  "admin_dashboard t s = (case get_total_revenue s of (r, s1) \<Rightarrow> case get_revenue_today t s1 of (v, s2) \<Rightarrow>
     case get_bids_today t s2 of (b, s3) \<Rightarrow> case get_active_users_today t s3 of (u, s4) \<Rightarrow>
       (\<lparr>ds_total_revenue = (case r of Inr x \<Rightarrow> x | Inl _ \<Rightarrow> 0), ds_today_revenue = v, ds_today_bids = b, ds_users = u\<rparr>, s4))"

text \<open>The range is the last thirty days, unless the request has dates that parse.\<close>

definition revenue_dashboard :: "time option \<Rightarrow> time option \<Rightarrow> time \<Rightarrow> an_sys \<Rightarrow> (nat \<times> daily_metric list) \<times> an_sys" where
  "revenue_dashboard a b t s =
     (case get_daily_metrics (case a of Some x \<Rightarrow> x | None \<Rightarrow> t - 30 * 24 * hour) (case b of Some x \<Rightarrow> x | None \<Rightarrow> t) s of
        (Inl _, s') \<Rightarrow> ((500, []), s') | (Inr ms, s') \<Rightarrow> ((200, ms), s'))"

definition seller_dashboard :: "string \<Rightarrow> uuid \<Rightarrow> an_sys \<Rightarrow> seller_stats \<times> an_sys" where
  "seller_dashboard param user = get_seller_stats (if param = [] then user else param)"

definition trending_dashboard :: "an_sys \<Rightarrow> (float64 zset \<times> float64 zset \<times> float64 zset) \<times> an_sys" where
  "trending_dashboard s = (case get_top an_sellers 10 s of (a, s1) \<Rightarrow> case get_top an_bidders 10 s1 of (b, s2) \<Rightarrow>
     case get_top an_categories 10 s2 of (c, s3) \<Rightarrow> ((a, b, c), s3))"

definition auction_dashboard :: "uuid \<Rightarrow> an_sys \<Rightarrow> (nat \<times> auction_metric option) \<times> an_sys" where
  "auction_dashboard a s = (case get_auction_metric a s of (Inl _, s') \<Rightarrow> ((404, None), s') | (Inr m, s') \<Rightarrow> ((200, Some m), s'))"

end
