(* ===== verification/AnalyticsSpec.thy ===== *)
theory AnalyticsSpec
  imports Analytics
begin

text \<open>
  What the tables of the analytics service hold after any messages: which figures are right, and which are never filled.
\<close>

subsection \<open>Sessions\<close>

lemma an_exec_db: "db (an_sess (an_exec f s)) = (if next_fault (an_sess s) then db (an_sess s)
     else case f (db (an_sess s)) of Inl _ \<Rightarrow> db (an_sess s) | Inr (d, _) \<Rightarrow> d)"
  by (auto simp: an_exec_def pool_exec_def tick_def split: sum.splits)

lemma an_exec_faults: "faults (an_sess (an_exec f s)) = tl (faults (an_sess s))"
  by (auto simp: an_exec_def pool_exec_def tick_def split: sum.splits)

lemma counters_session [simp]: "an_sess (an_on_redis f s) = an_sess s" "an_sess (incr_bids_today t s) = an_sess s"
  "an_sess (incr_active_users u t s) = an_sess s" "an_sess (incr_revenue add x t s) = an_sess s" "an_sess (incr_seller_revenue u x s) = an_sess s"
  "an_sess (incr_bidder_activity u s) = an_sess s" "an_sess (incr_category_activity u s) = an_sess s"
  by (simp_all add: an_on_redis_def incr_bids_today_def incr_active_users_def incr_revenue_def incr_seller_revenue_def incr_bidder_activity_def
    incr_category_activity_def)

text \<open>A message is at most one statement: what it is.\<close>

definition statement :: "time \<Rightarrow> an_message \<Rightarrow> analyticsdb db_update option" where
  "statement t m = (let str = (\<lambda>k. Option.bind (snd m) (field_string k)); num = (\<lambda>k. Option.bind (snd m) (field_number k)) in
     if fst m = ''bid.placed'' then
       (case (str ''auction_id'', str ''user_id'', num ''amount'') of (Some a, Some u, Some x) \<Rightarrow> Some (sql_incr_bids t a x) | _ \<Rightarrow> None)
     else if fst m = ''auction.created'' then
       (case (str ''auction_id'', str ''category'', str ''seller_id'') of (Some a, Some c, Some sl) \<Rightarrow> Some (sql_incr_auctions t) | _ \<Rightarrow> None)
     else if fst m = ''payment.settled'' then
       (case (str ''auction_id'', str ''seller_id'', num ''amount'') of
          (Some a, Some sl, Some x) \<Rightarrow> Some (sql_insert_revenue t sl a x (platform_fee x)) | _ \<Rightarrow> None)
     else if fst m = ''user.registered'' then Some (sql_incr_new_users t)
     else None)"

lemma process_session:
  "an_sess (analytics_process add t m s) = (case statement t m of None \<Rightarrow> an_sess s | Some f \<Rightarrow> snd (pool_exec f (an_sess s)))"
  by (simp add: analytics_process_def statement_def Let_def an_exec_def incr_auction_bids_def incr_daily_auctions_def incr_daily_new_users_def
    record_revenue_def split: option.split)

text \<open>An invariant of the tables that every statement keeps holds after any messages, whichever statements fail.\<close>

lemma analytics_keeps:
  assumes "\<And>t m f d d' n. statement t m = Some f \<Longrightarrow> I d \<Longrightarrow> f d = Inr (d', n) \<Longrightarrow> I d'" and "I (db (an_sess s))"
  shows "I (db (an_sess (analytics_run add ms s)))"
  using assms(2)
proof (induction ms arbitrary: s)
  case (Cons tm ms)
  obtain t m where tm: "tm = (t, m)" by (cases tm)
  have "I (db (an_sess (analytics_process add t m s)))"
    using Cons.prems assms(1) by (auto simp: process_session pool_exec_def tick_def split: option.split sum.split)
  then show ?case using Cons.IH by (simp add: analytics_run_def tm)
qed (simp add: analytics_run_def)

subsection \<open>The figures of a day\<close>

text \<open>One row a day, in which only the new auctions and the new users count.\<close>

definition unfilled :: "daily_metric \<Rightarrow> bool" where
  "unfilled m \<longleftrightarrow> dm_revenue m = 0 \<and> dm_bids m = 0 \<and> dm_active m = 0 \<and> dm_completed m = 0 \<and> 0 \<le> dm_auctions m \<and> 0 \<le> dm_new m"

definition daily_ok :: "analyticsdb \<Rightarrow> bool" where
  "daily_ok d \<longleftrightarrow> distinct (map dm_date (daily d)) \<and> list_all unfilled (daily d)"

lemma upsert_ok:
  assumes "distinct (map dm_date rows)" and "list_all unfilled rows" and "unfilled new" and "\<And>m. unfilled m \<Longrightarrow> unfilled (f m)"
    and "\<And>m. dm_date (f m) = dm_date m"
  shows "distinct (map dm_date (upsert (\<lambda>m. dm_date m = dm_date new) new f rows)) \<and> list_all unfilled (upsert (\<lambda>m. dm_date m = dm_date new) new f rows)"
  using assms by (auto simp: upsert_def list_all_iff list_ex_iff map_update_where) (auto simp: update_where_def)

lemma statement_cases:
  assumes "statement t m = Some f"
  obtains a x where "f = sql_incr_bids t a x" | "f = sql_incr_auctions t" | sl a x where "f = sql_insert_revenue t sl a x (platform_fee x)"
    | "f = sql_incr_new_users t"
  using assms by (auto simp: statement_def Let_def split: if_splits option.splits)

lemma statement_daily_ok: "statement t m = Some f \<Longrightarrow> daily_ok d \<Longrightarrow> f d = Inr (d', n) \<Longrightarrow> daily_ok d'"
proof (erule statement_cases)
  assume "daily_ok d" "f = sql_incr_auctions t" "f d = Inr (d', n)"
  then show ?thesis
    using upsert_ok [of "daily d" "(empty_daily t)\<lparr>dm_auctions := 1\<rparr>" "\<lambda>m. m\<lparr>dm_auctions := dm_auctions m + 1\<rparr>"]
    by (auto simp: daily_ok_def sql_incr_auctions_def empty_daily_def unfilled_def)
next
  assume "daily_ok d" "f = sql_incr_new_users t" "f d = Inr (d', n)"
  then show ?thesis
    using upsert_ok [of "daily d" "(empty_daily t)\<lparr>dm_new := 1\<rparr>" "\<lambda>m. m\<lparr>dm_new := dm_new m + 1\<rparr>"]
    by (auto simp: daily_ok_def sql_incr_new_users_def empty_daily_def unfilled_def)
qed (auto simp: daily_ok_def sql_incr_bids_def sql_insert_revenue_def split: option.splits)

text \<open>The report of a range of days has each day once, the latest first; but whatever messages came in, payments among them, its revenue, bids, active
  users and completed auctions are zero: nothing ever fills them.\<close>

theorem daily_report_empty:
  assumes "daily (db (an_sess s)) = []" and "revenue_dashboard a b t (analytics_run add ms s) = ((st, rows), s')"
  shows "sorted_wrt (\<lambda>m m'. dm_date m' < dm_date m) rows \<and>
    (\<forall>m \<in> set rows. dm_revenue m = 0 \<and> dm_bids m = 0 \<and> dm_active m = 0 \<and> dm_completed m = 0)"
proof -
  define d where "d = db (an_sess (analytics_run add ms s))"
  have "daily_ok (db (an_sess s))" by (simp add: daily_ok_def assms(1))
  with statement_daily_ok have ok: "daily_ok d" unfolding d_def by (rule analytics_keeps)
  obtain lo hi where rows: "rows = [] \<or> rows = sort_key (\<lambda>m. - dm_date m) (filter (\<lambda>m. lo \<le> dm_date m \<and> dm_date m \<le> hi) (daily d))"
    using assms(2) by (auto simp: revenue_dashboard_def get_daily_metrics_def an_query_def pool_query_def d_def split: if_splits)
  have "sorted_wrt (\<lambda>m m'. dm_date m' < dm_date m) rows"
  proof (cases "rows = []")
    case False
    then have "sorted (map (\<lambda>m. - dm_date m) rows)" using rows by (auto simp del: map_map)
    moreover have "distinct (map dm_date rows)"
      using rows ok False by (auto simp: daily_ok_def distinct_map intro: inj_on_subset)
    then have "distinct (map uminus (map dm_date rows))" by (subst distinct_map) (simp add: inj_on_def)
    ultimately have "sorted_wrt (<) (map (\<lambda>m. - dm_date m) rows)" by (simp add: strict_sorted_iff comp_def)
    then show ?thesis by (simp add: sorted_wrt_map)
  qed simp
  moreover have "set rows \<subseteq> set (daily d)" using rows by auto
  ultimately show ?thesis using ok by (auto simp: daily_ok_def list_all_iff unfilled_def)
qed

lemma daily_report_empty_witness:
  defines "s \<equiv> \<lparr>an_sess = \<lparr>db = \<lparr>daily = [], auctions_seen = [], revenue = []\<rparr>, aborted = False, faults = []\<rparr>,
     an_redis = \<lparr>rd_keys = (\<lambda>_. None), rd_faults = []\<rparr>, an_sellers = [], an_bidders = [], an_categories = []\<rparr>"
    and "ms \<equiv> [(0, ''user.registered'', None),
     (1, ''payment.settled'', Some [(''auction_id'', JString ''a''), (''seller_id'', JString ''s''), (''amount'', JNumber 100)])] :: (time \<times> an_message) list"
  shows "\<exists>m s'. revenue_dashboard None None 2 (analytics_run (+) ms s) = ((200, [m]), s') \<and> dm_new m = 1 \<and> dm_revenue m = 0"
proof -
  have e: "daily (db (an_sess s)) = []" by (simp add: s_def)
  have d: "db (an_sess (analytics_run (+) [(0, ''user.registered'', None)] s)) = \<lparr>daily = [(empty_daily 0)\<lparr>dm_new := 1\<rparr>], auctions_seen = [], revenue = []\<rparr>"
    "faults (an_sess (analytics_run (+) [(0, ''user.registered'', None)] s)) = []"
    by (simp_all add: analytics_run_def process_session statement_def pool_exec_def next_fault_def tick_def s_def sql_incr_new_users_def upsert_def)
  have r: "analytics_run (+) ms s = analytics_process (+) 1 (snd (ms ! 1)) (analytics_run (+) [(0, ''user.registered'', None)] s)"
    by (simp add: ms_def analytics_run_def)
  have d2: "daily (db (an_sess (analytics_run (+) ms s))) = [(empty_daily 0)\<lparr>dm_new := 1\<rparr>]" "faults (an_sess (analytics_run (+) ms s)) = []"
    unfolding r by (auto simp: process_session pool_exec_def next_fault_def tick_def d statement_def Let_def ms_def sql_insert_revenue_def split: option.split)
  obtain s' where h: "revenue_dashboard None None 2 (analytics_run (+) ms s) = ((200, [(empty_daily 0)\<lparr>dm_new := 1\<rparr>]), s')"
    by (simp add: revenue_dashboard_def get_daily_metrics_def an_query_def pool_query_def next_fault_def d2)
      (simp add: empty_daily_def day_of_def hour_def minute_def second_def)
  show ?thesis using daily_report_empty [OF e h] h by fastforce
qed

subsection \<open>The bids of an auction\<close>

text \<open>The auction and the cents of a message that is a bid the tables can hold.\<close>

definition bid_of :: "an_message \<Rightarrow> (uuid \<times> int) option" where
  "bid_of m = (if fst m = ''bid.placed'' then
     (case (Option.bind (snd m) (field_string ''auction_id''), Option.bind (snd m) (field_string ''user_id''), Option.bind (snd m) (field_number ''amount'')) of
        (Some a, Some u, Some x) \<Rightarrow> map_option (Pair a) (money x) | _ \<Rightarrow> None) else None)"

definition bids_on :: "uuid \<Rightarrow> (time \<times> an_message) list \<Rightarrow> int list" where
  "bids_on a ms = List.map_filter (\<lambda>(t, m). case bid_of m of Some (a', c) \<Rightarrow> if a' = a then Some c else None | None \<Rightarrow> None) ms"

text \<open>What is seen of the row of an auction, and what a bid does to it.\<close>

definition row_of :: "uuid \<Rightarrow> an_sys \<Rightarrow> (int \<times> int \<times> int \<times> int) option" where
  "row_of a s = map_option (\<lambda>m. (am_bids m, am_highest m, am_bidders m, am_watch m)) (find (\<lambda>m. am_auction m = a) (auctions_seen (db (an_sess s))))"

definition count_bid :: "int \<Rightarrow> (int \<times> int \<times> int \<times> int) option \<Rightarrow> (int \<times> int \<times> int \<times> int) option" where
  "count_bid c r = Some (case r of None \<Rightarrow> (1, c, 1, 0) | Some (n, h, b, w) \<Rightarrow> (n + 1, max h c, b, w))"

lemma count_bids: "fold count_bid (c # cs) None = Some (int (length cs) + 1, Max (set (c # cs)), 1, 0)"
proof (induction cs rule: rev_induct)
  case (snoc x cs)
  have "fold count_bid (c # cs @ [x]) None = count_bid x (fold count_bid (c # cs) None)" by simp
  moreover have "Max (insert c (insert x (set cs))) = max (Max (insert c (set cs))) x"
    by (subst insert_commute) (simp add: max.commute)
  ultimately show ?case using snoc by (simp add: count_bid_def del: Max_insert)
qed (simp add: count_bid_def)

lemma find_upsert:
  assumes "\<And>m. am_auction (f m) = am_auction m" and "am_auction new = a"
  shows "find (\<lambda>m. am_auction m = b) (upsert (\<lambda>m. am_auction m = a) new f rows) =
    (if b = a then Some (case find (\<lambda>m. am_auction m = a) rows of None \<Rightarrow> new | Some m \<Rightarrow> f m) else find (\<lambda>m. am_auction m = b) rows)"
proof -
  have app: "find P (xs @ ys) = (case find P xs of None \<Rightarrow> find P ys | Some x \<Rightarrow> Some x)" for P and xs ys :: "'r list"
    by (induction xs) auto
  have upd: "find (\<lambda>m. am_auction m = b) (update_where (\<lambda>m. am_auction m = a) f rows) =
      (if b = a then map_option f (find (\<lambda>m. am_auction m = a) rows) else find (\<lambda>m. am_auction m = b) rows)" for rows
    using assms(1) by (induction rows) auto
  show ?thesis
  proof (cases "find (\<lambda>m. am_auction m = a) rows")
    case None
    then have "\<not> list_ex (\<lambda>m. am_auction m = a) rows" by (auto simp: find_None_iff list_ex_iff)
    then show ?thesis using None assms(2) by (auto simp: upsert_def app split: option.split)
  next
    case (Some m)
    then have "list_ex (\<lambda>m. am_auction m = a) rows" by (auto simp: find_Some_iff list_ex_iff dest: nth_mem)
    then show ?thesis using Some by (simp add: upsert_def upd)
  qed
qed

lemma process_row:
  assumes "faults (an_sess s) = []"
  shows "row_of a (analytics_process add t m s) = (case bid_of m of Some (a', c) \<Rightarrow> if a' = a then count_bid c (row_of a s) else row_of a s | None \<Rightarrow> row_of a s)"
    and "faults (an_sess (analytics_process add t m s)) = []"
proof -
  have other: "auctions_seen (db (an_sess (analytics_process add t m s))) = auctions_seen (db (an_sess s))" if "fst m \<noteq> ''bid.placed''"
    using that by (auto simp: process_session statement_def Let_def pool_exec_def tick_def sql_incr_auctions_def sql_incr_new_users_def
      sql_insert_revenue_def split: option.split)
  show "row_of a (analytics_process add t m s) = (case bid_of m of Some (a', c) \<Rightarrow> if a' = a then count_bid c (row_of a s) else row_of a s | None \<Rightarrow> row_of a s)"
  proof (cases "fst m = ''bid.placed''")
    case True
    then show ?thesis using assms
      by (auto simp: process_session statement_def Let_def bid_of_def pool_exec_def next_fault_def tick_def sql_incr_bids_def row_of_def
        find_upsert count_bid_def split: option.split)
  qed (simp add: row_of_def other bid_of_def)
  show "faults (an_sess (analytics_process add t m s)) = []"
    using assms by (auto simp: process_session pool_exec_def tick_def split: option.split sum.split)
qed

lemma run_row: "faults (an_sess s) = [] \<Longrightarrow> row_of a (analytics_run add ms s) = fold count_bid (bids_on a ms) (row_of a s)"
proof (induction ms arbitrary: s)
  case (Cons tm ms)
  obtain t m where tm: "tm = (t, m)" by (cases tm)
  have "row_of a (analytics_run add (tm # ms) s) = fold count_bid (bids_on a ms) (row_of a (analytics_process add t m s))"
    using Cons.IH [OF process_row(2) [OF Cons.prems, of add t m]] by (simp add: analytics_run_def tm)
  then show ?case by (simp add: process_row(1) [OF Cons.prems] bids_on_def tm List.map_filter_simps split: option.split)
qed (simp add: analytics_run_def bids_on_def List.map_filter_simps)

text \<open>While the database answers, the metrics of an auction count its bids, each delivery of a message as one, and have the highest of them; the number of
  different bidders is one however many there are. An auction without bids has no metrics.\<close>

theorem bids_counted:
  assumes "faults (an_sess s) = []" and "auctions_seen (db (an_sess s)) = []" and "s' = analytics_run add ms s"
  shows "case auction_dashboard a s' of
      ((st, Some m), _) \<Rightarrow> st = 200 \<and> am_bids m = int (length (bids_on a ms)) \<and> bids_on a ms \<noteq> [] \<and> am_highest m = Max (set (bids_on a ms)) \<and> am_bidders m = 1
    | ((st, None), _) \<Rightarrow> st = 404 \<and> bids_on a ms = []"
proof -
  have n: "row_of a s = None" by (simp add: row_of_def assms(2))
  have f: "faults (an_sess (analytics_run add ms s)) = []" for ms
    using assms(1)
  proof (induction ms arbitrary: s)
    case (Cons tm ms)
    then show ?case using process_row(2) [OF Cons.prems] by (cases tm) (simp add: analytics_run_def)
  qed (simp add: analytics_run_def)
  have r: "row_of a s' = fold count_bid (bids_on a ms) None" using run_row [OF assms(1), of a add ms] by (simp add: assms(3) n)
  show ?thesis
  proof (cases "bids_on a ms")
    case Nil
    then show ?thesis using r f [of ms]
      by (auto simp: auction_dashboard_def get_auction_metric_def an_query_def pool_query_def next_fault_def row_of_def assms(3))
  next
    case (Cons c cs)
    then show ?thesis using r f [of ms] count_bids [of c cs]
      by (auto simp: auction_dashboard_def get_auction_metric_def an_query_def pool_query_def next_fault_def row_of_def assms(3))
  qed
qed

lemma bids_counted_witness:
  defines "s \<equiv> \<lparr>an_sess = \<lparr>db = \<lparr>daily = [], auctions_seen = [], revenue = []\<rparr>, aborted = False, faults = []\<rparr>,
     an_redis = \<lparr>rd_keys = (\<lambda>_. None), rd_faults = []\<rparr>, an_sellers = [], an_bidders = [], an_categories = []\<rparr>"
    and "bid \<equiv> (\<lambda>u x. (''bid.placed'', Some [(''auction_id'', JString ''a''), (''user_id'', JString u), (''amount'', JNumber x)]) :: an_message)"
  defines "ms \<equiv> [(0, bid ''u'' (dec 1000)), (1, bid ''v'' (dec 2000))]"
  shows "\<exists>m s'. auction_dashboard ''a'' (analytics_run (+) ms s) = ((200, Some m), s') \<and> am_bids m = 2 \<and> am_highest m = 2000 \<and> am_bidders m = 1"
proof -
  have e: "faults (an_sess s) = []" "auctions_seen (db (an_sess s)) = []" by (simp_all add: s_def)
  have b: "bids_on ''a'' ms = [1000, 2000]"
    by (simp add: bids_on_def bid_of_def ms_def bid_def field_string_def field_number_def json_field_def List.map_filter_simps in_range_def)
  show ?thesis using bids_counted [OF e refl, where add = "(+)" and ms = ms and a = "''a''"] by (auto simp: b split: prod.splits option.splits)
qed

text \<open>The parts of a payment are rounded each by itself: of ten cents, one is the fee and ten are left.\<close>

lemma fee_and_rest_exceed:
  "sql_insert_revenue 0 ''s'' ''a'' (dec 10) (platform_fee (dec 10)) \<lparr>daily = [], auctions_seen = [], revenue = []\<rparr> =
     Inr (\<lparr>daily = [], auctions_seen = [], revenue = [\<lparr>rv_seller = ''s'', rv_auction = ''a'', rv_gross = 10, rv_fee = 1, rv_net = 10, rv_created = 0\<rparr>]\<rparr>, 1)"
  by code_simp

end
