(* ===== verification/PaymentHttp.thy ===== *)
theory PaymentHttp
  imports LegacyWallet Gateway
begin

text \<open>
  The HTTP interface of the payment service: the routes of \<^verbatim>\<open>cmd/main.go\<close> with their middleware (\<^verbatim>\<open>middleware/auth.go\<close>), the handlers
  of \<^verbatim>\<open>internal/handler/wallet_handler.go\<close> and the two reads of \<^verbatim>\<open>service/wallet_service.go\<close> that only they use. A request carries its
  headers and its body; a body that is not JSON of the right types is \<open>None\<close>, and a field it does not have is empty or zero. The probes and the
  metrics are left out.
\<close>

subsection \<open>Reads\<close>

definition get_wallet_by_user_id :: "uuid \<Rightarrow> (db_error, float64 wallet) goop" where
  "get_wallet_by_user_id user = pool_query (\<lambda>d. map_option scan_wallet (find (\<lambda>w. w_user w = user) (wallets d)))"

text \<open>Newest first, then the page.\<close>

definition txns_desc :: "uuid \<Rightarrow> paydb \<Rightarrow> int transaction list" where
  "txns_desc wid d = sort_key (\<lambda>t. - t_created t) (filter (\<lambda>t. t_wallet t = wid) (txns d))"

definition get_by_wallet_id :: "uuid \<Rightarrow> nat \<Rightarrow> nat \<Rightarrow> (db_error, float64 transaction list) goop" where
  "get_by_wallet_id wid limit offset = pool_query (\<lambda>d. Some (map scan_txn (take limit (drop offset (txns_desc wid d)))))"

definition wallet_total :: "float64 wallet \<Rightarrow> float64" where
  "wallet_total w = fadd (w_available w) (w_held w)"

subsection \<open>Handlers\<close>

record wallet_view =
  wv_id :: uuid
  wv_available :: float64
  wv_held :: float64
  wv_total :: float64
  wv_currency :: string

datatype pay_body = PbError | PbWallet wallet_view | PbTxn "float64 transaction" | PbTxns "float64 transaction list" | PbDone

type_synonym pay_answer = "nat \<times> pay_body"

record pay_json =
  pj_amount :: float64
  pj_auction :: string
  pj_winner :: string

record pay_draw =
  pd_txn :: txn_draw
  pd_key :: string
  pd_settle :: "uuid \<Rightarrow> txn_draw"

definition view_of :: "float64 wallet \<Rightarrow> wallet_view" where
  "view_of w = \<lparr>wv_id = w_id w, wv_available = w_available w, wv_held = w_held w, wv_total = wallet_total w, wv_currency = w_currency w\<rparr>"

definition get_wallet_handler :: "gw_context \<Rightarrow> sess \<Rightarrow> pay_answer \<times> sess" where
  "get_wallet_handler cx s =
     (if cx_user cx = [] then ((401, PbError), s)
      else (case get_wallet_by_user_id (cx_user cx) s of
          (Inl e, s') \<Rightarrow> ((404, PbError), s') | (Inr w, s') \<Rightarrow> ((200, PbWallet (view_of w)), s')))"

definition deposit_handler :: "pay_draw \<Rightarrow> headers \<Rightarrow> pay_json option \<Rightarrow> gw_context \<Rightarrow> sess \<Rightarrow> pay_answer \<times> sess" where
  "deposit_handler dr h body cx s =
     (if cx_user cx = [] then ((401, PbError), s)
      else (case body of
          None \<Rightarrow> ((400, PbError), s)
        | Some j \<Rightarrow>
            (if pj_amount j \<le> 0 then ((400, PbError), s)
             else let k = get_header ''Idempotency-Key'' h; key = (if k = [] then pd_key dr else k) in
               (case LegacyWallet.deposit (pd_txn dr) (cx_user cx) (pj_amount j) key s of
                  (Inl e, s') \<Rightarrow> ((500, PbError), s') | (Inr txn, s') \<Rightarrow> ((200, PbTxn txn), s')))))"

primrec hold_error_status :: "pay_err \<Rightarrow> nat" where
  "hold_error_status PErrInsufficientBalance = 400"
| "hold_error_status PErrWalletNotFound = 404"
| "hold_error_status PErrHoldNotFound = 500"
| "hold_error_status (PErrBegin e) = 500"
| "hold_error_status (PErrStatement e) = 500"
| "hold_error_status (PErrCommit e) = 500"
| "hold_error_status (PErrGetHolds e) = 500"

definition hold_key :: "uuid \<Rightarrow> uuid \<Rightarrow> string" where
  "hold_key au user = ''hold:'' @ au @ '':'' @ user"

definition hold_handler :: "pay_draw \<Rightarrow> headers \<Rightarrow> pay_json option \<Rightarrow> gw_context \<Rightarrow> sess \<Rightarrow> pay_answer \<times> sess" where
  "hold_handler dr h body cx s =
     (if cx_user cx = [] then ((401, PbError), s)
      else (case body of
          None \<Rightarrow> ((400, PbError), s)
        | Some j \<Rightarrow>
            (if pj_auction j = [] \<or> pj_amount j \<le> 0 then ((400, PbError), s)
             else let k = get_header ''Idempotency-Key'' h; key = (if k = [] then hold_key (pj_auction j) (cx_user cx) else k) in
               (case LegacyWallet.hold_balance (pd_txn dr) (cx_user cx) (pj_auction j) (pj_amount j) key s of
                  (Inl e, s') \<Rightarrow> ((hold_error_status e, PbError), s') | (Inr _, s') \<Rightarrow> ((200, PbDone), s')))))"

definition history_handler :: "gw_context \<Rightarrow> sess \<Rightarrow> pay_answer \<times> sess" where
  "history_handler cx s = (case get_wallet_by_user_id (cx_user cx) s of
     (Inl e, s1) \<Rightarrow> ((404, PbError), s1)
   | (Inr w, s1) \<Rightarrow> (case get_by_wallet_id (w_id w) 50 0 s1 of
         (Inl e, s2) \<Rightarrow> ((500, PbError), s2) | (Inr ts, s2) \<Rightarrow> ((200, PbTxns ts), s2)))"

definition settle_handler :: "pay_draw \<Rightarrow> pay_json option \<Rightarrow> sess \<Rightarrow> pay_answer \<times> sess" where
  "settle_handler dr body s = (case body of
     None \<Rightarrow> ((400, PbError), s)
   | Some j \<Rightarrow>
       (if pj_auction j = [] \<or> pj_winner j = [] then ((400, PbError), s)
        else (case LegacyWallet.settle_auction (pd_settle dr) (pj_auction j) (pj_winner j) s of
            (Inl e, s') \<Rightarrow> ((500, PbError), s') | (Inr _, s') \<Rightarrow> ((200, PbDone), s'))))"

subsection \<open>Routes\<close>

datatype pay_call = CallWallet | CallHistory | CallDeposit | CallHold | CallSettle

definition pay_routes :: "((string \<times> string) \<times> pay_call) list" where
  "pay_routes =
     [((''GET'', ''/api/v1/wallet''), CallWallet),
      ((''GET'', ''/api/v1/wallet/history''), CallHistory),
      ((''POST'', ''/api/v1/wallet/deposit''), CallDeposit),
      ((''POST'', ''/api/v1/payments/hold''), CallHold),
      ((''POST'', ''/api/v1/admin/payments/settle''), CallSettle)]"

record pay_request =
  pr_method :: string
  pr_path :: string
  pr_headers :: headers
  pr_body :: "pay_json option"

primrec run_pay_call :: "pay_call \<Rightarrow> pay_draw \<Rightarrow> pay_request \<Rightarrow> gw_context \<Rightarrow> sess \<Rightarrow> pay_answer \<times> sess" where
  "run_pay_call CallWallet dr rq cx s = get_wallet_handler cx s"
| "run_pay_call CallHistory dr rq cx s = history_handler cx s"
| "run_pay_call CallDeposit dr rq cx s = deposit_handler dr (pr_headers rq) (pr_body rq) cx s"
| "run_pay_call CallHold dr rq cx s = hold_handler dr (pr_headers rq) (pr_body rq) cx s"
| "run_pay_call CallSettle dr rq cx s = settle_handler dr (pr_body rq) s"

definition serve_payment :: "jwt_lib \<Rightarrow> string \<Rightarrow> time \<Rightarrow> pay_draw \<Rightarrow> pay_request \<Rightarrow> sess \<Rightarrow> pay_answer \<times> sess" where
  "serve_payment lib secret t dr rq s = (case map_of pay_routes (pr_method rq, pr_path rq) of
     None \<Rightarrow> ((404, PbError), s)
   | Some call \<Rightarrow>
       (case service_auth lib secret t (pr_headers rq) of
          Inl st \<Rightarrow> ((st, PbError), s)
        | Inr cx \<Rightarrow>
            (if call = CallSettle \<and> gw_require_role [''admin''] cx \<noteq> None then ((403, PbError), s)
             else run_pay_call call dr rq cx s)))"

end
