(* ===== verification/PaymentHttpSpec.thy ===== *)
theory PaymentHttpSpec
  imports PaymentHttp JwtSpec
begin

text \<open>
  What a client of the payment service can do over HTTP: whose money a request can move, what a refused request leaves, and what the reads tell.
\<close>

subsection \<open>Whose wallet an operation changes\<close>

lemma update_balance_others:
  "sql_update_balance wid a h t d = Inr (d', n) \<Longrightarrow> x \<in> set (wallets d) \<Longrightarrow> w_id x \<noteq> wid \<Longrightarrow> x \<in> set (wallets d')"
  by (force simp: sql_update_balance_def in_set_update_where split: if_splits option.splits)

lemma sql_deposit_others:
  "sql_deposit wid a t d = Inr (d', n) \<Longrightarrow> x \<in> set (wallets d) \<Longrightarrow> w_id x \<noteq> wid \<Longrightarrow> x \<in> set (wallets d')"
  by (force simp: sql_deposit_def in_set_update_where split: if_splits option.splits)

lemma insert_hold_wallets: "sql_insert_hold h d = Inr (d', n) \<Longrightarrow> wallets d' = wallets d"
  by (auto simp: sql_insert_hold_def split: if_splits option.splits)

lemma other_user_other_id:
  assumes "schema_ok d" and "find (\<lambda>r. w_user r = user) (wallets d) = Some w" and "x \<in> set (wallets d)" "w_user x \<noteq> user"
  shows "w_id x \<noteq> w_id w"
  using distinct_key_unique [OF schema_distinct(1) [OF assms(1)] assms(3)] find_SomeD [OF assms(2)] assms(4) by metis

lemma deposit_others:
  assumes "schema_ok (db s)" and "x \<in> set (wallets (db s))" and "w_user x \<noteq> user"
    and "LegacyWallet.deposit dr user amount key s = (r, s')"
  shows "x \<in> set (wallets (db s'))"
proof (cases r)
  case (Inl e)
  with legacy_errors(1) assms show ?thesis by metis
next
  case (Inr u)
  from deposit_raw [OF assms(4) [unfolded Inr]] show ?thesis
  proof (elim disjE exE conjE)
    fix w d n
    assume "find (\<lambda>r. w_user r = user) (wallets (db s)) = Some w" and u: "sql_deposit (w_id w) amount (td_now dr) (db s) = Inr (d, n)"
      and "books_eq d (db s')"
    with sql_deposit_others [OF u assms(2)] other_user_other_id [OF assms(1) _ assms(2,3)] show ?thesis by (simp add: books_eq_def)
  qed (use assms in simp)
qed

lemma hold_others:
  assumes "schema_ok (db s)" and "x \<in> set (wallets (db s))" and "w_user x \<noteq> user"
    and "LegacyWallet.hold_balance dr user au amount key s = (r, s')"
  shows "x \<in> set (wallets (db s'))"
proof (cases r)
  case (Inl e)
  with legacy_errors(2) assms show ?thesis by metis
next
  case (Inr u)
  from hold_balance_raw [OF assms(4) [unfolded Inr]] show ?thesis
  proof (elim disjE exE conjE)
    fix w :: "int wallet" and d n d2 m
    assume w: "find (\<lambda>r. w_user r = user) (wallets (db s)) = Some w"
      and u: "sql_update_balance (w_id w) (fsub (dec (w_available w)) amount) (fadd (dec (w_held w)) amount) (td_now dr) (db s) = Inr (d, n)"
      and i: "sql_insert_hold \<lparr>h_id = td_hold dr, h_auction = au, h_bidder = user, h_wallet = w_id w, h_amount = amount,
        h_status = HoldActive, h_expires = td_now dr + 48 * hour, h_created = td_now dr\<rparr> d = Inr (d2, m)"
      and "books_eq d2 (db s')"
    with update_balance_others [OF u assms(2)] insert_hold_wallets [OF i] other_user_other_id [OF assms(1) w assms(2,3)]
    show ?thesis by (simp add: books_eq_def)
  qed (use assms in simp)
qed

subsection \<open>Requests\<close>

lemma reads_keep:
  "get_wallet_by_user_id u s = (r, s') \<Longrightarrow> db s' = db s" "get_by_wallet_id wid n m s = (q, s') \<Longrightarrow> db s' = db s"
  by (auto simp: get_wallet_by_user_id_def get_by_wallet_id_def pool_query_def split: option.splits if_splits)

lemma read_handlers_keep: "get_wallet_handler cx s = (ans, s') \<Longrightarrow> db s' = db s" "history_handler cx s = (ans, s') \<Longrightarrow> db s' = db s"
  by (auto simp: get_wallet_handler_def history_handler_def dest!: reads_keep split: prod.splits sum.splits if_splits)

text \<open>What a handler leaves: the session it got, or that of the operation of the service.\<close>

lemma deposit_handler_cases:
  assumes "deposit_handler dr h body cx s = (ans, s')"
  obtains (refused) "s' = s" "400 \<le> fst ans" "snd ans = PbError"
  | (served) j key r where "body = Some j" "0 < pj_amount j" "cx_user cx \<noteq> []"
      "key = (if get_header ''Idempotency-Key'' h = [] then pd_key dr else get_header ''Idempotency-Key'' h)"
      "LegacyWallet.deposit (pd_txn dr) (cx_user cx) (pj_amount j) key s = (r, s')"
      "ans = (case r of Inl _ \<Rightarrow> (500, PbError) | Inr txn \<Rightarrow> (200, PbTxn txn))"
  using assms by (auto simp: deposit_handler_def Let_def not_le split: if_splits option.splits prod.splits sum.splits)

lemma hold_handler_cases:
  assumes "hold_handler dr h body cx s = (ans, s')"
  obtains (refused) "s' = s" "400 \<le> fst ans" "snd ans = PbError"
  | (served) j key r where "body = Some j" "0 < pj_amount j" "cx_user cx \<noteq> []"
      "key = (if get_header ''Idempotency-Key'' h = [] then hold_key (pj_auction j) (cx_user cx) else get_header ''Idempotency-Key'' h)"
      "LegacyWallet.hold_balance (pd_txn dr) (cx_user cx) (pj_auction j) (pj_amount j) key s = (r, s')"
      "ans = (case r of Inl e \<Rightarrow> (hold_error_status e, PbError) | Inr _ \<Rightarrow> (200, PbDone))"
  using assms by (auto simp: hold_handler_def Let_def not_le split: if_splits option.splits prod.splits sum.splits)

lemma settle_handler_cases:
  assumes "settle_handler dr body s = (ans, s')"
  obtains (refused) "s' = s" "400 \<le> fst ans" "snd ans = PbError"
  | (served) j r where "body = Some j" "LegacyWallet.settle_auction (pd_settle dr) (pj_auction j) (pj_winner j) s = (r, s')"
      "ans = (case r of Inl e \<Rightarrow> (500, PbError) | Inr _ \<Rightarrow> (200, PbDone))"
  using assms by (auto simp: settle_handler_def split: if_splits option.splits prod.splits sum.splits)

lemma serve_cases:
  assumes "serve_payment lib secret t dr rq s = (ans, s')"
  obtains (refused) "s' = s" "400 \<le> fst ans" "snd ans = PbError"
  | (served) call cx where "map_of pay_routes (pr_method rq, pr_path rq) = Some call"
      "service_auth lib secret t (pr_headers rq) = Inr cx" "call = CallSettle \<longrightarrow> cx_role cx = ''admin''"
      "run_pay_call call dr rq cx s = (ans, s')"
proof -
  have "service_auth lib secret t (pr_headers rq) = Inl st \<Longrightarrow> st = 401" for st
    by (auto simp: service_auth_def Let_def split: if_splits option.splits sum.splits)
  then show thesis using assms that
    by (auto simp: serve_payment_def gw_require_role_def split: option.splits sum.splits if_splits)
qed

lemma hold_error_status_ge: "400 \<le> hold_error_status e"
  by (cases e) simp_all

text \<open>C13: Over HTTP a request moves only the money of the user it is authenticated as: whatever it is, a wallet of anybody else stays in the table as it
  is. The exception is the settlement of an auction, which needs the role of an administrator. Who a request is from is decided by the header of the
  gateway, or by a token under the secret.\<close>

theorem own_wallet_only:
  assumes "pay_ok (db s)" and "serve_payment lib secret t dr rq s = (ans, s')" and "w \<in> set (wallets (db s))"
  shows "w \<in> set (wallets (db s')) \<or> (\<exists>cx. service_auth lib secret t (pr_headers rq) = Inr cx \<and>
    (w_user w = cx_user cx \<or> cx_role cx = ''admin'' \<and> (pr_method rq, pr_path rq) = (''POST'', ''/api/v1/admin/payments/settle'')))"
proof (cases rule: serve_cases [OF assms(2)])
  case 1
  with assms(3) show ?thesis by simp
next
  case (2 call cx)
  have sc: "schema_ok (db s)" using assms(1) by (simp add: pay_ok_def db_ok_def)
  note kept = read_handlers_keep [of cx s ans s'] deposit_others [OF sc assms(3)] hold_others [OF sc assms(3)]
  show ?thesis
  proof (cases "w_user w = cx_user cx \<or> call = CallSettle")
    case True
    with 2 show ?thesis by (auto simp: pay_routes_def split: if_splits)
  next
    case False
    have "w \<in> set (wallets (db s'))"
    proof (cases call)
      case CallDeposit
      then have "deposit_handler dr (pr_headers rq) (pr_body rq) cx s = (ans, s')" using 2 by simp
      then show ?thesis by (cases rule: deposit_handler_cases) (use assms(3) kept(3) False in auto)
    next
      case CallHold
      then have "hold_handler dr (pr_headers rq) (pr_body rq) cx s = (ans, s')" using 2 by simp
      then show ?thesis by (cases rule: hold_handler_cases) (use assms(3) kept(4) False in auto)
    qed (use 2(4) False assms(3) kept(1,2) in auto)
    then show ?thesis ..
  qed
qed

definition http_draw :: pay_draw where
  "http_draw = \<lparr>pd_txn = demo_pay_draw ''9'', pd_key = ''fresh'', pd_settle = demo_pay_draw\<rparr>"

text \<open>A request that came through the gateway, from a user with a role.\<close>

definition via_gateway :: "string \<Rightarrow> string \<Rightarrow> headers" where
  "via_gateway user role = (\<lambda>_. [])(header_user := [user], header_role := [role])"

definition deposit_call :: "string \<Rightarrow> float64 \<Rightarrow> headers \<Rightarrow> pay_request" where
  "deposit_call user x h = \<lparr>pr_method = ''POST'', pr_path = ''/api/v1/wallet/deposit'', pr_headers = add_headers (via_gateway user ''bidder'') h,
     pr_body = Some \<lparr>pj_amount = x, pj_auction = [], pj_winner = []\<rparr>\<rparr>"

lemma via_gateway_auth [simp]:
  "user \<noteq> [] \<Longrightarrow> service_auth lib secret t (add_headers (via_gateway user role) h) = Inr (empty_context\<lparr>cx_user := user, cx_role := role\<rparr>)"
  by (simp add: service_auth_def get_header_def add_headers_def via_gateway_def header_names)

theorem own_wallet_only_witness:
  "\<exists>w \<in> set (wallets (db (snd (serve_payment sample_jwt ''s'' 0 http_draw (deposit_call ''bob'' 5 (\<lambda>_. [])) demo_sess)))). w_user w = ''alice''"
proof -
  let ?w = "hd (wallets demo_db)"
  have w: "?w \<in> set (wallets (db demo_sess))" "w_user ?w = ''alice''" by (simp_all add: demo_sess_def demo_db_def)
  have "pay_ok (db demo_sess)" using demo_pay_ok by (simp add: demo_sess_def)
  from own_wallet_only [OF this prod.collapse [symmetric] w(1), of sample_jwt "''s''" 0 http_draw "deposit_call ''bob'' 5 (\<lambda>_. [])"] w
  show ?thesis by (auto simp: deposit_call_def)
qed

text \<open>A request that is refused, with any status from 400 on, has changed nothing in the database and is told nothing but the error. Only a settlement,
  which is a transaction per hold, can fail after a part of it.\<close>

theorem refused_changes_nothing:
  assumes "serve_payment lib secret t dr rq s = (ans, s')" and "400 \<le> fst ans"
    and "(pr_method rq, pr_path rq) \<noteq> (''POST'', ''/api/v1/admin/payments/settle'')"
  shows "db s' = db s \<and> snd ans = PbError"
proof (cases rule: serve_cases [OF assms(1)])
  case (2 call cx)
  show ?thesis
  proof (cases call)
    case CallWallet
    with 2(4) have g: "get_wallet_handler cx s = (ans, s')" by simp
    with assms(2) have "snd ans = PbError" by (auto simp: get_wallet_handler_def split: if_splits prod.splits sum.splits)
    with read_handlers_keep(1) [OF g] show ?thesis by simp
  next
    case CallHistory
    with 2(4) have g: "history_handler cx s = (ans, s')" by simp
    with assms(2) have "snd ans = PbError" by (auto simp: history_handler_def split: prod.splits sum.splits)
    with read_handlers_keep(2) [OF g] show ?thesis by simp
  next
    case CallDeposit
    then have "deposit_handler dr (pr_headers rq) (pr_body rq) cx s = (ans, s')" using 2 by simp
    then show ?thesis
      by (cases rule: deposit_handler_cases) (use assms(2) in \<open>auto dest: legacy_errors(1) split: sum.splits\<close>)
  next
    case CallHold
    then have "hold_handler dr (pr_headers rq) (pr_body rq) cx s = (ans, s')" using 2 by simp
    then show ?thesis
      by (cases rule: hold_handler_cases) (use assms(2) in \<open>auto dest: legacy_errors(2) split: sum.splits\<close>)
  next
    case CallSettle
    with 2(1) assms(3) show ?thesis by (auto simp: pay_routes_def split: if_splits)
  qed
qed simp

theorem refused_changes_nothing_witness:
  "db (snd (serve_payment sample_jwt ''s'' 0 http_draw (deposit_call ''nobody'' 5 (\<lambda>_. [])) demo_sess)) = demo_db"
proof -
  have "400 \<le> fst (fst (serve_payment sample_jwt ''s'' 0 http_draw (deposit_call ''nobody'' 5 (\<lambda>_. [])) demo_sess))" by code_simp
  from refused_changes_nothing [OF prod.collapse [symmetric] this]
  show ?thesis by (simp add: deposit_call_def demo_sess_def)
qed

subsection \<open>Deposits\<close>

lemma key_lookup: "get_by_idempotency_key k s = (if next_fault s then (Inl ConnError, tick s)
    else case find (\<lambda>t. t_key t = k) (txns (db s)) of None \<Rightarrow> (Inl NoRows, tick s) | Some t \<Rightarrow> (Inr (scan_txn t), tick s))"
  by (auto simp: get_by_idempotency_key_def pool_query_def split: option.splits)

lemma deposit_known:
  assumes "get_by_idempotency_key key s = (Inr t, s1)"
  shows "LegacyWallet.deposit dr user amount key s = (Inr t, s1)" and "db s1 = db s" and "\<exists>t0 \<in> set (txns (db s)). t = scan_txn t0"
  using assms by (auto simp: LegacyWallet.deposit_def key_lookup dest: find_SomeD split: if_splits option.splits)

lemma deposit_fresh:
  assumes "LegacyWallet.deposit dr user amount key s = (Inr u, s')" and e: "get_by_idempotency_key key s = (Inl e, s1)"
  shows "\<exists>w d n. find (\<lambda>x. w_user x = user) (wallets (db s)) = Some w \<and> sql_deposit (w_id w) amount (td_now dr) (db s) = Inr (d, n) \<and>
    wallets (db s') = wallets d"
proof -
  have "db s1 = db s" using e by (auto simp: key_lookup split: if_splits option.splits)
  with assms(1) show ?thesis unfolding LegacyWallet.deposit_def Let_def e prod.case sum.case
    by (elim legacy_okE) (auto simp: books_eq_def)
qed

lemma cents_exact_sum:
  assumes "in_range b"
  shows "cents (of_int a / 100 + dec b) = a + b"
proof (rule cents_near)
  show "\<bar>of_int a / 100 + dec b - of_int (a + b) / 100\<bar> < 1 / 200"
    using dec_near [OF assms] unfolding of_int_add add_divide_distrib by linarith
qed

text \<open>A deposit of whole cents whose key is not found, when it is answered with success, adds exactly the amount to the wallet of the user.\<close>

lemma deposit_credits:
  assumes "pay_ok (db s)" and "whole_cents x" and "LegacyWallet.deposit dr user x key s = (Inr u, s')"
    and "get_by_idempotency_key key s = (Inl e, s1)"
  shows "\<exists>w \<in> set (wallets (db s)). w_user w = user \<and>
    wallets (db s') = set_wallet (w_id w) (w_available w + cents x) (w_held w) (td_now dr) (wallets (db s))"
proof -
  have sc: "schema_ok (db s)" using assms(1) by (simp add: pay_ok_def db_ok_def)
  obtain w d n where w: "find (\<lambda>x. w_user x = user) (wallets (db s)) = Some w"
    and u: "sql_deposit (w_id w) x (td_now dr) (db s) = Inr (d, n)" and eq: "wallets (db s') = wallets d"
    using deposit_fresh [OF assms(3,4)] by blast
  from find_SomeD [OF w] have ws: "w \<in> set (wallets (db s))" "w_user w = user" by auto
  have f: "find (\<lambda>r. w_id r = w_id w) (wallets (db s)) = Some w" by (rule find_key_eq [OF schema_distinct(1) [OF sc] ws(1)])
  have c: "cents (of_int (w_available w) / 100 + x) = w_available w + cents x"
    using whole_centsD [OF assms(2)] cents_exact_sum by metis
  with u f only_wallet_available [OF sc ws(1)] ws eq show ?thesis
    by (auto simp: sql_deposit_def dest!: num_cast_SomeD split: if_splits option.splits)
qed



text \<open>Two ways in which a key is not what it is meant to be. A client whose key somebody else has used is answered with the other one's transaction, and
  its money is not credited; and when the lookup of the key fails, the error is dropped and the deposit made again, without a row for it.\<close>

definition keyed :: "string \<Rightarrow> headers" where
  "keyed k = (\<lambda>_. [])(''Idempotency-Key'' := [k])"

lemma keys_shared:
  "let s1 = snd (serve_payment sample_jwt ''s'' 0 http_draw (deposit_call ''alice'' 7 (keyed ''k'')) demo_sess);
       (ans, s2) = serve_payment sample_jwt ''s'' 0 http_draw (deposit_call ''bob'' 5 (keyed ''k'')) s1 in
     ans = (200, PbTxn (scan_txn (last (txns (db s1))))) \<and> wallets (db s2) = wallets (db s1)"
  by code_simp

lemma failed_lookup_repeats:
  "let s1 = snd (serve_payment sample_jwt ''s'' 0 http_draw (deposit_call ''bob'' 5 (keyed ''k'')) demo_sess);
       (ans, s2) = serve_payment sample_jwt ''s'' 0 (http_draw\<lparr>pd_txn := demo_pay_draw ''8''\<rparr>) (deposit_call ''bob'' 5 (keyed ''k'')) (s1\<lparr>faults := [True]\<rparr>) in
     fst ans = 200 \<and> total (db s2) = total (db demo_sess) + 1000 \<and> txns (db s2) = txns (db s1)"
  by code_simp

subsection \<open>Reads\<close>

text \<open>The history is that of the caller's wallet, newest first and at most fifty; an older transaction is only left out when there are fifty.\<close>

lemma history_answered:
  assumes "history_handler cx s = ((200, PbTxns ts), s')"
  shows "\<exists>w \<in> set (wallets (db s)). w_user w = cx_user cx \<and> ts = map scan_txn (take 50 (txns_desc (w_id w) (db s)))"
    and "length ts \<le> 50" and "sorted (map (\<lambda>t. - t_created t) ts)"
proof -
  have *: "\<exists>w \<in> set (wallets (db s)). w_user w = cx_user cx \<and> ts = map scan_txn (take 50 (txns_desc (w_id w) (db s)))"
    using assms by (auto simp: history_handler_def get_wallet_by_user_id_def get_by_wallet_id_def pool_query_def scan_wallet_def
        dest!: find_SomeD split: prod.splits sum.splits if_splits option.splits)
  then show "\<exists>w \<in> set (wallets (db s)). w_user w = cx_user cx \<and> ts = map scan_txn (take 50 (txns_desc (w_id w) (db s)))" .
  from * obtain wid where ts: "ts = map scan_txn (take 50 (txns_desc wid (db s)))" by blast
  then show "length ts \<le> 50" by simp
  have "sorted (map (\<lambda>t. - t_created t) (txns_desc wid (db s)))" by (simp add: txns_desc_def)
  then have "sorted (map (\<lambda>t. - t_created t) (take 50 (txns_desc wid (db s))))" by (metis sorted_wrt_take take_map)
  with ts show "sorted (map (\<lambda>t. - t_created t) ts)" by (simp add: scan_txn_def comp_def)
qed

text \<open>The total shown is the sum of the two balances, to the cent.\<close>

lemma wallet_answered:
  assumes "schema_ok (db s)" and "get_wallet_handler cx s = ((200, PbWallet v), s')"
  shows "\<exists>w \<in> set (wallets (db s)). w_user w = cx_user cx \<and> wv_available v = dec (w_available w) \<and> wv_held v = dec (w_held w) \<and>
    cents (wv_total v) = w_available w + w_held w"
proof -
  obtain w where w: "w \<in> set (wallets (db s))" "w_user w = cx_user cx" "v = view_of (scan_wallet w)"
    using assms(2) by (auto simp: get_wallet_handler_def get_wallet_by_user_id_def pool_query_def
        dest!: find_SomeD split: prod.splits sum.splits if_splits option.splits)
  with schema_wallet [OF assms(1) w(1)] show ?thesis by (auto simp: view_of_def wallet_total_def scan_wallet_def)
qed

end
