(* ===== verification/AuctionHttp.thy ===== *)
theory AuctionHttp
  imports Auction Gateway
begin

text \<open>
  The HTTP interface of the auction service: the routes of \<^verbatim>\<open>cmd/main.go\<close> with their middlewares and the handlers of
  \<^verbatim>\<open>internal/handler/auction_handler.go\<close>. The parameters of a path are those of the call; a body that does not bind is \<open>None\<close>, and the query
  of a listing is what binding has made of it. Whether a text is a UUID is for the validator library to say. The probes and the metrics are left out.
\<close>

subsection \<open>Requests\<close>

text \<open>The rules of the tags: a title has 3 to 255 characters, a description at least 10; what is optional may be empty.\<close>

definition create_valid :: "(string \<Rightarrow> bool) \<Rightarrow> string \<Rightarrow> string \<Rightarrow> create_request \<Rightarrow> bool" where
  "create_valid is_uuid start_text end_text r \<longleftrightarrow> 3 \<le> length (cr_title r) \<and> length (cr_title r) \<le> 255 \<and> 10 \<le> length (cr_description r) \<and>
     (cr_category r = [] \<or> is_uuid (cr_category r)) \<and> 0 < cr_starting r \<and> 0 \<le> cr_reserve r \<and> start_text \<noteq> [] \<and> end_text \<noteq> []"

definition update_valid :: "update_request \<Rightarrow> bool" where
  "update_valid r \<longleftrightarrow> (ur_title r = [] \<or> 3 \<le> length (ur_title r) \<and> length (ur_title r) \<le> 255) \<and>
     (ur_description r = [] \<or> 10 \<le> length (ur_description r)) \<and> 0 \<le> ur_reserve r"

text \<open>A body with the texts of its two times, and what parsing makes of them.\<close>

record create_body =
  cb_request :: create_request
  cb_start :: string
  cb_end :: string

record list_query =
  lq_state :: string
  lq_page :: int
  lq_size :: int

datatype auc_call = ListAuctions list_query | GetAuction uuid | GetAuctionBids uuid | GetCategories
  | CreateAuction "create_body option" | UpdateAuction uuid "update_request option" | DeleteAuction uuid | SellerAuctions
  | PublishAuction uuid | CancelAuction uuid | AddImage uuid | DeleteImage uuid uuid
  | AddToWatchlist uuid | RemoveFromWatchlist uuid | GetWatchlist | AdminDelete uuid | AdminList list_query

datatype auc_body = AbError | AbAuction "float64 auction" | AbAuctions "float64 auction list" | AbPage auction_page | AbCategories "(string \<times> string) list" | AbDone

type_synonym auc_answer = "nat \<times> auc_body"

subsection \<open>Handlers\<close>

definition answer_auction :: "nat \<Rightarrow> (auc_err + float64 auction) \<times> auc_sys \<Rightarrow> auc_answer \<times> auc_sys" where
  "answer_auction ok r = (case r of (Inl e, s) \<Rightarrow> ((error_status e, AbError), s) | (Inr a, s) \<Rightarrow> ((ok, AbAuction a), s))"

definition create_handler :: "(string \<Rightarrow> bool) \<Rightarrow> uuid \<Rightarrow> time \<Rightarrow> create_body option \<Rightarrow> gw_context \<Rightarrow> auc_sys \<Rightarrow> auc_answer \<times> auc_sys" where
  "create_handler is_uuid aid t body cx s =
     (if cx_user cx = [] then ((401, AbError), s)
      else (case body of
          None \<Rightarrow> ((400, AbError), s)
        | Some b \<Rightarrow>
            (if \<not> create_valid is_uuid (cb_start b) (cb_end b) (cb_request b) then ((400, AbError), s)
             else answer_auction 201 (create aid t (cx_user cx) (cb_request b) s))))"

definition get_by_id_handler :: "uuid \<Rightarrow> auc_sys \<Rightarrow> auc_answer \<times> auc_sys" where
  "get_by_id_handler aid s = answer_auction 200 (get_auction aid s)"

definition update_handler :: "time \<Rightarrow> uuid \<Rightarrow> update_request option \<Rightarrow> gw_context \<Rightarrow> auc_sys \<Rightarrow> auc_answer \<times> auc_sys" where
  "update_handler t aid body cx s = (case body of
     None \<Rightarrow> ((400, AbError), s)
   | Some r \<Rightarrow> (if \<not> update_valid r then ((400, AbError), s) else answer_auction 200 (update t aid (cx_user cx) r s)))"

definition delete_handler :: "time \<Rightarrow> uuid \<Rightarrow> gw_context \<Rightarrow> auc_sys \<Rightarrow> auc_answer \<times> auc_sys" where
  "delete_handler t aid cx s = (case delete t aid (cx_user cx) (cx_role cx) s of
     (Inl e, s1) \<Rightarrow> ((error_status e, AbError), s1) | (Inr _, s1) \<Rightarrow> ((200, AbDone), s1))"

definition list_handler :: "list_query \<Rightarrow> auc_sys \<Rightarrow> auc_answer \<times> auc_sys" where
  "list_handler q s =
     (let page = (if lq_page q \<le> 0 then 1 else lq_page q); size = (if lq_size q \<le> 0 then 20 else lq_size q) in
      case list_page (lq_state q) page size s of
        (Inl e, s1) \<Rightarrow> ((500, AbError), s1) | (Inr p, s1) \<Rightarrow> ((200, AbPage p), s1))"

definition seller_auctions_handler :: "gw_context \<Rightarrow> auc_sys \<Rightarrow> auc_answer \<times> auc_sys" where
  "seller_auctions_handler cx s =
     (if cx_user cx = [] then ((401, AbError), s)
      else (case list_by_seller (cx_user cx) s of
          (Inl e, s1) \<Rightarrow> ((500, AbError), s1) | (Inr as, s1) \<Rightarrow> ((200, AbAuctions as), s1)))"

definition categories_answer :: auc_answer where
  "categories_answer = (200, AbCategories [(''1'', ''Electronics''), (''2'', ''Vehicles''), (''3'', ''Art''), (''4'', ''Collectibles''),
     (''5'', ''Fashion''), (''6'', ''Home & Garden''), (''7'', ''Sports''), (''8'', ''Other'')])"

definition plain_answer :: "nat \<times> auc_sys \<Rightarrow> auc_answer \<times> auc_sys" where
  "plain_answer r = (case r of (st, s) \<Rightarrow> ((st, if st < 400 then AbDone else AbError), s))"

text \<open>The images and the watch list: handlers that answer and do nothing.\<close>

primrec stub_answer :: "auc_call \<Rightarrow> auc_answer option" where
  "stub_answer (ListAuctions q) = None"
| "stub_answer (GetAuction i) = None"
| "stub_answer (GetAuctionBids i) = Some (200, AbAuctions [])"
| "stub_answer GetCategories = Some categories_answer"
| "stub_answer (CreateAuction b) = None"
| "stub_answer (UpdateAuction i b) = None"
| "stub_answer (DeleteAuction i) = None"
| "stub_answer SellerAuctions = None"
| "stub_answer (PublishAuction i) = None"
| "stub_answer (CancelAuction i) = None"
| "stub_answer (AddImage i) = Some (201, AbDone)"
| "stub_answer (DeleteImage i j) = Some (200, AbDone)"
| "stub_answer (AddToWatchlist i) = Some (201, AbDone)"
| "stub_answer (RemoveFromWatchlist i) = Some (200, AbDone)"
| "stub_answer GetWatchlist = Some (200, AbAuctions [])"
| "stub_answer (AdminDelete i) = None"
| "stub_answer (AdminList q) = None"

subsection \<open>Routes\<close>

text \<open>What a call needs: nothing, an identity, or one of some roles.\<close>

datatype auc_access = Anybody | SignedIn | OneOf "string list"

fun auc_access_of :: "auc_call \<Rightarrow> auc_access" where
  "auc_access_of (ListAuctions q) = Anybody"
| "auc_access_of (GetAuction i) = Anybody"
| "auc_access_of (GetAuctionBids i) = Anybody"
| "auc_access_of GetCategories = Anybody"
| "auc_access_of (CreateAuction b) = OneOf [''seller'', ''admin'']"
| "auc_access_of (PublishAuction i) = OneOf [''seller'', ''admin'']"
| "auc_access_of (AddImage i) = OneOf [''seller'', ''admin'']"
| "auc_access_of (AdminDelete i) = OneOf [''admin'']"
| "auc_access_of (AdminList q) = OneOf [''admin'']"
| "auc_access_of _ = SignedIn"

definition pass_access :: "jwt_lib \<Rightarrow> string \<Rightarrow> time \<Rightarrow> headers \<Rightarrow> auc_access \<Rightarrow> nat + gw_context" where
  "pass_access lib secret t h acc = (case acc of
     Anybody \<Rightarrow> Inr empty_context
   | SignedIn \<Rightarrow> service_auth lib secret t h
   | OneOf roles \<Rightarrow> (case service_auth lib secret t h of
        Inl st \<Rightarrow> Inl st
      | Inr cx \<Rightarrow> (case gw_require_role roles cx of None \<Rightarrow> Inr cx | Some st \<Rightarrow> Inl st)))"

fun run_auc_call :: "(string \<Rightarrow> bool) \<Rightarrow> uuid \<Rightarrow> time \<Rightarrow> auc_call \<Rightarrow> gw_context \<Rightarrow> auc_sys \<Rightarrow> auc_answer \<times> auc_sys" where
  "run_auc_call is_uuid new t (ListAuctions q) cx s = list_handler q s"
| "run_auc_call is_uuid new t (AdminList q) cx s = list_handler q s"
| "run_auc_call is_uuid new t (GetAuction i) cx s = get_by_id_handler i s"
| "run_auc_call is_uuid new t (CreateAuction b) cx s = create_handler is_uuid new t b cx s"
| "run_auc_call is_uuid new t (UpdateAuction i b) cx s = update_handler t i b cx s"
| "run_auc_call is_uuid new t (DeleteAuction i) cx s = delete_handler t i cx s"
| "run_auc_call is_uuid new t (AdminDelete i) cx s = delete_handler t i cx s"
| "run_auc_call is_uuid new t SellerAuctions cx s = seller_auctions_handler cx s"
| "run_auc_call is_uuid new t (PublishAuction i) cx s = plain_answer (publish_handler i (cx_user cx) s)"
| "run_auc_call is_uuid new t (CancelAuction i) cx s = plain_answer (cancel_handler t i (cx_user cx) (cx_role cx) s)"
| "run_auc_call is_uuid new t call cx s = (the (stub_answer call), s)"

definition serve_auction :: "jwt_lib \<Rightarrow> string \<Rightarrow> (string \<Rightarrow> bool) \<Rightarrow> uuid \<Rightarrow> time \<Rightarrow> headers \<Rightarrow> auc_call \<Rightarrow> auc_sys \<Rightarrow> auc_answer \<times> auc_sys" where
  "serve_auction lib secret is_uuid new t h call s = (case pass_access lib secret t h (auc_access_of call) of
     Inl st \<Rightarrow> ((st, AbError), s) | Inr cx \<Rightarrow> run_auc_call is_uuid new t call cx s)"

end
