(* ===== verification/AuctionHttpSpec.thy ===== *)
theory AuctionHttpSpec
  imports AuctionHttp AuctionSpec JwtSpec
begin

text \<open>
  What a client of the auction service can do over HTTP: who changes an auction, what a refused request leaves, and what deleting one does.
\<close>

lemma update_others:
  assumes "auc_ok (adb s)" and "update t aid user req s = (r, s')" and "a \<in> set (auctions (adb s))"
  shows "a \<in> set (auctions (adb s')) \<or> a_seller a = user"
proof (cases "adb s' = adb s")
  case False
  then obtain x c where x: "live_auction aid (adb s) = Some x" "a_seller x = user"
    and s': "adb s' = (adb s)\<lparr>auctions := update_where (\<lambda>r. a_id r = aid \<and> a_deleted r = None)
       (\<lambda>r. r\<lparr>a_title := a_title (edited req (scan_auction x)), a_description := a_description (edited req (scan_auction x)),
          a_reserve := c, a_updated := t\<rparr>) (auctions (adb s))\<rparr>"
    using update_effect [OF assms(2)] by blast
  show ?thesis
  proof (cases "a_id a = aid")
    case True
    with live_auctionD [OF x(1)] assms(1,3) have "a = x" by (metis auc_ok_def distinct_key_unique)
    with x show ?thesis by simp
  next
    case False
    with assms(3) show ?thesis unfolding s' by (force simp: in_set_update_where)
  qed
qed (use assms in simp)

lemma delete_effect:
  assumes "delete t aid user role s = (r, s')"
  shows "adb s' = adb s \<or> (\<exists>x. live_auction aid (adb s) = Some x \<and> (a_seller x = user \<or> role = ''admin'') \<and>
     adb s' = (adb s)\<lparr>auctions := update_where (\<lambda>r. a_id r = aid) (\<lambda>r. r\<lparr>a_deleted := Some t\<rparr>) (auctions (adb s))\<rparr>)"
    and "r = Inr u \<Longrightarrow> adb s' = (adb s)\<lparr>auctions := update_where (\<lambda>r. a_id r = aid) (\<lambda>r. r\<lparr>a_deleted := Some t\<rparr>) (auctions (adb s))\<rparr>"
proof -
  obtain q s1 where q: "on_db (get_by_id aid) s = (q, s1)" by fastforce
  have s1: "adb s1 = adb s" using on_db_query(1) q unfolding get_by_id_def by metis
  obtain w s2 where w: "on_db (AuctionDb.soft_delete aid t) s1 = (w, s2)" by fastforce
  note sd = on_db_exec [OF w [unfolded AuctionDb.soft_delete_def]]
  show "adb s' = adb s \<or> (\<exists>x. live_auction aid (adb s) = Some x \<and> (a_seller x = user \<or> role = ''admin'') \<and>
     adb s' = (adb s)\<lparr>auctions := update_where (\<lambda>r. a_id r = aid) (\<lambda>r. r\<lparr>a_deleted := Some t\<rparr>) (auctions (adb s))\<rparr>)"
  proof (cases "\<exists>a. q = Inr a \<and> \<not> (a_seller a \<noteq> user \<and> role \<noteq> ''admin'')")
    case True
    then obtain a where a: "q = Inr a" "\<not> (a_seller a \<noteq> user \<and> role \<noteq> ''admin'')" by auto
    obtain x where x: "live_auction aid (adb s) = Some x" "a = scan_auction x" using q unfolding a(1) by (rule get_by_id_read)
    have "adb s' = adb s2" using assms q a w by (auto simp: delete_def split: sum.splits)
    with sd(1) s1 x a(2) show ?thesis by (auto simp: sql_soft_delete_def change_auctions_def)
  next
    case False
    then have "s' = s1" using assms q by (auto simp: delete_def split: sum.splits if_splits)
    with s1 show ?thesis by simp
  qed
  assume "r = Inr u"
  then obtain n where "w = Inr n" "adb s' = adb s2" using assms q w by (auto simp: delete_def split: sum.splits if_splits)
  with sd(2) s1 show "adb s' = (adb s)\<lparr>auctions := update_where (\<lambda>r. a_id r = aid) (\<lambda>r. r\<lparr>a_deleted := Some t\<rparr>) (auctions (adb s))\<rparr>"
    by (auto simp: sql_soft_delete_def change_auctions_def)
qed

lemma delete_others:
  assumes "auc_ok (adb s)" and "delete t aid user role s = (r, s')" and "a \<in> set (auctions (adb s))"
  shows "a \<in> set (auctions (adb s')) \<or> a_seller a = user \<or> role = ''admin''"
  using delete_effect(1) [OF assms(2)]
proof (elim disjE exE conjE)
  fix x
  assume x: "live_auction aid (adb s) = Some x" "a_seller x = user"
    and s': "adb s' = (adb s)\<lparr>auctions := update_where (\<lambda>r. a_id r = aid) (\<lambda>r. r\<lparr>a_deleted := Some t\<rparr>) (auctions (adb s))\<rparr>"
  show ?thesis
  proof (cases "a_id a = aid")
    case True
    with live_auctionD [OF x(1)] assms(1,3) have "a = x" by (metis auc_ok_def distinct_key_unique)
    with x show ?thesis by simp
  next
    case False
    with assms(3) show ?thesis unfolding s' by (force simp: in_set_update_where)
  qed
qed (use assms in simp_all)

lemma insert_seller:
  "sql_insert_auction a d = Inr (d', n) \<Longrightarrow> \<exists>x. d' = d\<lparr>auctions := auctions d @ [x]\<rparr> \<and> a_seller x = a_seller a"
  by (auto simp: sql_insert_auction_def split: if_splits option.splits)

lemma create_effect:
  assumes "create aid t seller req s = (r, s')"
  shows "adb s' = adb s \<or> (\<exists>x. adb s' = (adb s)\<lparr>auctions := auctions (adb s) @ [x]\<rparr> \<and> a_seller x = seller)"
proof (cases "parsed (cr_end req) < parsed (cr_start req) \<or> parsed (cr_end req) < t")
  case False
  obtain q s1 where q: "on_db (create_auction (new_auction aid t seller req)) s = (q, s1)" by fastforce
  have "adb s' = adb s1" using assms q False by (auto simp: create_def Let_def split: sum.splits)
  moreover have "a_seller (new_auction aid t seller req) = seller" by (simp add: new_auction_def)
  ultimately show ?thesis using on_db_exec(1) [OF q [unfolded create_auction_def]] insert_seller by metis
qed (use assms in \<open>auto simp: create_def\<close>)

text \<open>The reads and the handlers without effect.\<close>

lemma by_seller_frame: "adb (snd (list_by_seller u s)) = adb s"
  by (auto simp: list_by_seller_def get_by_seller_def query_auctions_def on_db_def pool_query_def)

lemma reading_calls:
  assumes "run_auc_call is_uuid new t call cx s = (ans, s')"
    and "\<nexists>b. call = CreateAuction b" "\<nexists>i b. call = UpdateAuction i b" "\<nexists>i. call \<in> {DeleteAuction i, AdminDelete i, CancelAuction i}"
  shows "adb s' = adb s"
proof -
  have "adb (snd (run_auc_call is_uuid new t call cx s)) = adb s"
    using assms(2-4) read_frame by_seller_frame
    by (cases call) (auto simp: list_handler_def get_by_id_handler_def answer_auction_def seller_auctions_handler_def plain_answer_def publish_handler_def
        split: sum.splits prod.splits dest!: arg_cong [where f = snd])
  with assms(1) show ?thesis by simp
qed

subsection \<open>Calls\<close>

definition row_changed :: "int auction \<Rightarrow> auc_sys \<Rightarrow> auc_sys \<Rightarrow> bool" where
  "row_changed a s s' \<longleftrightarrow> (a \<in> set (auctions (adb s))) \<noteq> (a \<in> set (auctions (adb s')))"

lemma one_row:
  assumes "auc_ok d" and "live_auction aid d = Some x" and "\<And>r. a_id (f r) = a_id r" "a_seller (f x) = a_seller x"
    and "(a \<in> set (auctions d)) = (a \<notin> set (update_where P f (auctions d)))" and "\<And>r. P r \<Longrightarrow> a_id r = aid"
  shows "a_seller a = a_seller x"
proof -
  have same: "r = x" if "r \<in> set (auctions d)" "P r" for r
    using that live_auctionD [OF assms(2)] assms(1,6) by (metis auc_ok_def distinct_key_unique)
  from assms(5) obtain r where "r \<in> set (auctions d)" "P r" "a = r \<or> a = f r" by (force simp: in_set_update_where)
  with same assms(4) show ?thesis by auto
qed

lemma update_rows:
  assumes "auc_ok (adb s)" and "update t aid user req s = (r, s')" and "row_changed a s s'"
  shows "a_seller a = user"
proof -
  obtain x c where x: "live_auction aid (adb s) = Some x" "a_seller x = user"
    and s': "adb s' = (adb s)\<lparr>auctions := update_where (\<lambda>r. a_id r = aid \<and> a_deleted r = None)
       (\<lambda>r. r\<lparr>a_title := a_title (edited req (scan_auction x)), a_description := a_description (edited req (scan_auction x)),
          a_reserve := c, a_updated := t\<rparr>) (auctions (adb s))\<rparr>"
    using update_effect [OF assms(2)] assms(3) by (auto simp: row_changed_def)
  note ch = assms(3) [unfolded row_changed_def s', simplified]
  from one_row [OF assms(1) x(1) _ _ ch] x(2) show ?thesis by simp
qed

lemma delete_rows:
  assumes "auc_ok (adb s)" and "delete t aid user role s = (r, s')" and "row_changed a s s'"
  shows "a_seller a = user \<or> role = ''admin''"
proof -
  obtain x where x: "live_auction aid (adb s) = Some x" "a_seller x = user \<or> role = ''admin''"
    and s': "adb s' = (adb s)\<lparr>auctions := update_where (\<lambda>r. a_id r = aid) (\<lambda>r. r\<lparr>a_deleted := Some t\<rparr>) (auctions (adb s))\<rparr>"
    using delete_effect(1) [OF assms(2)] assms(3) by (auto simp: row_changed_def)
  note ch = assms(3) [unfolded row_changed_def s', simplified]
  from one_row [OF assms(1) x(1) _ _ ch] x(2) show ?thesis by auto
qed

lemma create_rows:
  assumes "create aid t user req s = (r, s')" and "row_changed a s s'"
  shows "a_seller a = user"
  using create_effect [OF assms(1)] assms(2) by (auto simp: row_changed_def)

lemma unchanged_rows: "adb s' = adb s \<Longrightarrow> \<not> row_changed a s s'"
  by (simp add: row_changed_def)

lemma call_rows:
  assumes "auc_ok (adb s)" and "run_auc_call is_uuid new t call cx s = (ans, s')" and "row_changed a s s'"
  shows "auc_access_of call \<noteq> Anybody \<and> (a_seller a = cx_user cx \<or> cx_role cx = ''admin'')"
proof -
  have deletes: "a_seller a = cx_user cx \<or> cx_role cx = ''admin''" if "delete t i (cx_user cx) (cx_role cx) s = (r, s')" for i r
    using delete_rows [OF assms(1) that assms(3)] .
  show ?thesis
  proof (cases call)
    case (CreateAuction b)
    with assms(2,3) show ?thesis
      by (auto simp: create_handler_def answer_auction_def unchanged_rows dest: create_rows split: if_splits option.splits prod.splits sum.splits)
  next
    case (UpdateAuction i b)
    with assms(2,3) show ?thesis
      by (auto simp: update_handler_def answer_auction_def unchanged_rows dest: update_rows [OF assms(1)] split: if_splits option.splits prod.splits sum.splits)
  next
    case (DeleteAuction i)
    with assms(2) deletes [of i] show ?thesis by (auto simp: delete_handler_def split: prod.splits sum.splits)
  next
    case (AdminDelete i)
    with assms(2) deletes [of i] show ?thesis by (auto simp: delete_handler_def split: prod.splits sum.splits)
  next
    case (CancelAuction i)
    with assms(2) deletes [of i] show ?thesis by (auto simp: cancel_handler_def plain_answer_def split: prod.splits sum.splits)
  qed (use reading_calls [OF assms(2)] unchanged_rows assms(3) in auto)
qed

text \<open>C24: A row of the auctions' table comes, goes or changes over HTTP only for the user whose auction it is, or for an administrator: the request has passed
  the middleware as that user or with that role. So nobody creates an auction in the name of somebody else, either.\<close>

theorem owner_or_admin:
  assumes "auc_ok (adb s)" and "serve_auction lib secret is_uuid new t h call s = (ans, s')" and "row_changed a s s'"
  shows "\<exists>cx. service_auth lib secret t h = Inr cx \<and> (a_seller a = cx_user cx \<or> cx_role cx = ''admin'')"
proof -
  obtain cx where cx: "pass_access lib secret t h (auc_access_of call) = Inr cx" "run_auc_call is_uuid new t call cx s = (ans, s')"
    using assms(2,3) by (auto simp: serve_auction_def unchanged_rows split: sum.splits)
  from call_rows [OF assms(1) cx(2) assms(3)] cx(1) show ?thesis
    by (auto simp: pass_access_def split: auc_access.splits sum.splits option.splits)
qed

definition as_user :: "string \<Rightarrow> string \<Rightarrow> headers" where
  "as_user user role = (\<lambda>_. [])(header_user := [user], header_role := [role])"

theorem owner_or_admin_witness:
  "\<exists>cx. service_auth sample_jwt ''s'' 7 (as_user ''s1'' ''seller'') = Inr cx \<and> (a_seller demo_auction = cx_user cx \<or> cx_role cx = ''admin'')"
proof (rule owner_or_admin [OF demo_auctions_ok [of "[]"] prod.collapse [symmetric]])
  show "row_changed demo_auction (demo_auctions [])
      (snd (serve_auction sample_jwt ''s'' (\<lambda>_. True) ''n'' 7 (as_user ''s1'' ''seller'') (DeleteAuction ''a1'') (demo_auctions [])))"
    by code_simp
qed

text \<open>A refused operation.\<close>

lemma on_db_events: "on_db m s = (r, s') \<Longrightarrow> au_events s' = au_events s"
  by (auto simp: on_db_def split: prod.splits)

lemma exec_refused: "on_db (pool_exec u) s = (Inl e, s') \<Longrightarrow> adb s' = adb s"
  by (auto simp: on_db_def pool_exec_def split: if_splits sum.splits prod.splits)

lemma refused_ops:
  "create i t u req s = (Inl e, s') \<Longrightarrow> adb s' = adb s \<and> au_events s' = au_events s"
  "update t i u ureq s = (Inl e, s') \<Longrightarrow> adb s' = adb s \<and> au_events s' = au_events s"
  "delete t i u role s = (Inl e, s') \<Longrightarrow> adb s' = adb s \<and> au_events s' = au_events s"
proof -
  have g: "adb s1 = adb s \<and> au_events s1 = au_events s" if "on_db (get_by_id i) s = (q, s1)" for q s1
    using that on_db_query(1) on_db_events unfolding get_by_id_def by metis
  have x: "adb s2 = adb s1 \<and> au_events s2 = au_events s1" if "on_db (pool_exec v) s1 = (Inl e, s2)" for v s1 s2 e
    using that exec_refused on_db_events by metis
  note defs = create_auction_def update_auction_def AuctionDb.soft_delete_def
  show "create i t u req s = (Inl e, s') \<Longrightarrow> adb s' = adb s \<and> au_events s' = au_events s"
    by (auto simp: create_def Let_def defs split: if_splits prod.splits sum.splits dest!: x)
  show "update t i u ureq s = (Inl e, s') \<Longrightarrow> adb s' = adb s \<and> au_events s' = au_events s"
    by (auto simp: update_def defs split: if_splits prod.splits sum.splits dest!: x g)
  show "delete t i u role s = (Inl e, s') \<Longrightarrow> adb s' = adb s \<and> au_events s' = au_events s"
    by (auto simp: delete_def defs split: if_splits prod.splits sum.splits dest!: x g)
qed

lemma by_id_ok: "adb (snd (get_auction i s)) = adb s" "au_events (snd (get_auction i s)) = au_events s"
  "au_events (snd (list_page st p n s)) = au_events s" "au_events (snd (list_by_seller u s)) = au_events s"
  using read_frame(1)
  by (auto simp: get_auction_def list_page_def list_by_seller_def Let_def dest: on_db_events split: prod.splits sum.splits)

lemma error_status_ge: "400 \<le> error_status e"
  by (cases e) simp_all

lemma answer_refused:
  assumes "answer_auction ok m = (ans, s')" and "400 \<le> fst ans" and "ok < 400"
  obtains e where "m = (Inl e, s')" and "snd ans = AbError"
  using assms by (auto simp: answer_auction_def split: prod.splits sum.splits)

text \<open>A request that is refused, with any status from 400 on, has changed no table, has published no event and is told nothing but the error.\<close>

theorem refused_call_changes_nothing:
  assumes "serve_auction lib secret is_uuid new t h call s = (ans, s')" and "400 \<le> fst ans"
  shows "adb s' = adb s \<and> au_events s' = au_events s \<and> snd ans = AbError"
proof (cases "pass_access lib secret t h (auc_access_of call)")
  case (Inr cx)
  with assms(1) have run: "run_auc_call is_uuid new t call cx s = (ans, s')" by (simp add: serve_auction_def)
  show ?thesis
  proof (cases call)
    case (CreateAuction b)
    with run assms(2) show ?thesis
      by (auto simp: create_handler_def dest: refused_ops(1) elim!: answer_refused split: if_splits option.splits)
  next
    case (UpdateAuction i b)
    with run assms(2) show ?thesis
      by (auto simp: update_handler_def dest: refused_ops(2) elim!: answer_refused split: if_splits option.splits)
  next
    case (DeleteAuction i)
    with run assms(2) show ?thesis by (auto simp: delete_handler_def dest: refused_ops(3) split: prod.splits sum.splits)
  next
    case (AdminDelete i)
    with run assms(2) show ?thesis by (auto simp: delete_handler_def dest: refused_ops(3) split: prod.splits sum.splits)
  next
    case (CancelAuction i)
    with run assms(2) show ?thesis
      by (auto simp: cancel_handler_def plain_answer_def dest: refused_ops(3) split: prod.splits sum.splits)
  next
    case (GetAuction i)
    with run assms(2) by_id_ok(1,2) [of i s] show ?thesis by (auto simp: get_by_id_handler_def elim!: answer_refused)
  next
    case (PublishAuction i)
    with run assms(2) by_id_ok(1,2) [of i s] show ?thesis
      by (auto simp: plain_answer_def publish_handler_def split: prod.splits sum.splits if_splits)
  next
    case (ListAuctions q)
    with run assms(2) by_id_ok(3) read_frame(2) show ?thesis
      by (auto simp: list_handler_def Let_def split: prod.splits sum.splits dest!: arg_cong [where f = snd])
  next
    case (AdminList q)
    with run assms(2) by_id_ok(3) read_frame(2) show ?thesis
      by (auto simp: list_handler_def Let_def split: prod.splits sum.splits dest!: arg_cong [where f = snd])
  next
    case SellerAuctions
    with run assms(2) by_id_ok(4) by_seller_frame show ?thesis
      by (auto simp: seller_auctions_handler_def split: prod.splits sum.splits if_splits dest!: arg_cong [where f = snd])
  qed (use run assms(2) in \<open>auto simp: categories_answer_def\<close>)
qed (use assms in \<open>auto simp: serve_auction_def\<close>)

theorem refused_call_changes_nothing_witness:
  "adb (snd (serve_auction sample_jwt ''s'' (\<lambda>_. True) ''n'' 7 (as_user ''s2'' ''seller'') (DeleteAuction ''a1'') (demo_auctions []))) =
     adb (demo_auctions [])"
proof -
  have "400 \<le> fst (fst (serve_auction sample_jwt ''s'' (\<lambda>_. True) ''n'' 7 (as_user ''s2'' ''seller'') (DeleteAuction ''a1'') (demo_auctions [])))"
    by code_simp
  from refused_call_changes_nothing [OF prod.collapse [symmetric] this] show ?thesis by simp
qed

subsection \<open>Deleted auctions\<close>

text \<open>What the auction service says about a deleted auction: nothing any more.\<close>

definition gone :: "uuid \<Rightarrow> aucdb \<Rightarrow> bool" where
  "gone aid d \<longleftrightarrow> (\<exists>r \<in> set (auctions d). a_id r = aid) \<and> (\<forall>r \<in> set (auctions d). a_id r = aid \<longrightarrow> a_deleted r \<noteq> None)"

definition said :: "uuid \<Rightarrow> auc_sys \<Rightarrow> auction_event set" where
  "said aid s = {e \<in> set (au_events s). ev_auction e = aid}"

lemma said_frame [simp]: "said aid (invalidate_auction i s) = said aid s" "said aid (cache_auction a t s) = said aid s"
  "said aid (release_scheduler_lock s) = said aid s" "said aid (snd (acquire_scheduler_lock ttl t s)) = said aid s"
  by (simp_all add: said_def invalidate_auction_def cache_auction_def release_scheduler_lock_def acquire_scheduler_lock_def on_redis_def split_beta)

lemma said_on_db: "on_db m s = (r, s') \<Longrightarrow> said aid s' = said aid s"
  by (auto simp: said_def on_db_def split: prod.splits)

lemma said_snd [simp]: "said aid (snd (on_db m s)) = said aid s"
  by (simp add: said_def on_db_def split_beta)

lemma said_other: "ev_auction e \<noteq> aid \<Longrightarrow> said aid (publish_event e s) = said aid s"
  by (auto simp: said_def publish_event_def Let_def)

lemma event_of_auction [simp]: "ev_auction (event_of ty i a b c x t) = i"
  by (simp add: event_of_def)

lemma deleted_stays: "(auction_step bs)\<^sup>*\<^sup>* r r' \<Longrightarrow> a_deleted r \<noteq> None \<Longrightarrow> r' = r"
  by (induction rule: rtranclp_induct) (auto elim: auction_stepE)

lemma gone_follows:
  assumes "gone aid d" and "follows d d'" and "auc_ok d'"
  shows "gone aid d'"
proof -
  obtain r where r: "r \<in> set (auctions d)" "a_id r = aid" "a_deleted r \<noteq> None" using assms(1) by (auto simp: gone_def)
  obtain f more where f: "auctions d' = map f (auctions d) @ more" "\<forall>r \<in> set (auctions d). (auction_step (set (bids d)))\<^sup>*\<^sup>* r (f r)"
    using assms(2) by (auto simp: follows_def)
  have "f r = r" using deleted_stays f(2) r by blast
  then have "r \<in> set (auctions d')" using f(1) r(1) by force
  moreover have "q = r" if "q \<in> set (auctions d')" "a_id q = aid" for q
    using that \<open>r \<in> set (auctions d')\<close> r(2) assms(3) by (metis auc_ok_def distinct_key_unique)
  ultimately show ?thesis using r(2,3) unfolding gone_def by blast
qed

lemma gone_not_live: "gone aid d \<Longrightarrow> live_auction aid d = None"
  unfolding gone_def live_auction_def find_None_iff by blast

lemma silent_read:
  assumes "gone aid (adb s)" and "on_db (get_by_id aid) s = (q, s1)"
  shows "\<exists>e. q = Inl e"
proof (cases q)
  case (Inr a)
  with assms(2) have "on_db (get_by_id aid) s = (Inr a, s1)" by simp
  then obtain r where "live_auction aid (adb s) = Some r" by (rule get_by_id_read)
  with gone_not_live [OF assms(1)] show ?thesis by simp
qed simp

lemma silent_fold:
  assumes "\<And>a s. a \<in> set as \<Longrightarrow> said aid (f a s) = said aid s"
  shows "said aid (fold f as s) = said aid s"
  using assms by (induction as arbitrary: s) auto

lemma silent_activate: "a_id a \<noteq> aid \<Longrightarrow> said aid (activate t a s) = said aid s"
  by (auto simp: activate_def said_other dest: said_on_db split: prod.splits sum.splits)

lemma silent_end: "a_id a \<noteq> aid \<Longrightarrow> said aid (end_auction t a s) = said aid s"
  by (auto simp: end_auction_def Let_def said_other dest: said_on_db split: prod.splits sum.splits)

lemma gone_change:
  assumes "gone aid d" and "\<And>r. a_id (f r) = a_id r" "\<And>r. a_deleted (f r) = a_deleted r"
  shows "gone aid (d\<lparr>auctions := update_where P f (auctions d)\<rparr>)"
proof -
  obtain r where r: "r \<in> set (auctions d)" "a_id r = aid" using assms(1) by (auto simp: gone_def)
  have "\<exists>q \<in> set (update_where P f (auctions d)). a_id q = aid"
    by (rule bexI [of _ "if P r then f r else r"]) (use r assms(2) in \<open>auto simp: update_where_def\<close>)
  moreover have "a_deleted q \<noteq> None" if "q \<in> set (update_where P f (auctions d))" "a_id q = aid" for q
  proof -
    from that(1) obtain x where x: "x \<in> set (auctions d)" "q = (if P x then f x else x)" by (auto simp: update_where_def)
    with that(2) assms(2) have "a_id x = aid" by (simp split: if_splits)
    with assms(1) x(1) have "a_deleted x \<noteq> None" by (simp add: gone_def)
    with x(2) assms(3) show ?thesis by simp
  qed
  ultimately show ?thesis by (simp add: gone_def)
qed

lemma gone_activate:
  assumes "gone aid (adb s)"
  shows "gone aid (adb (activate t a s))"
proof -
  obtain r s1 where r: "on_db (update_state (a_id a) StateActive t) s = (r, s1)" by fastforce
  have "adb (activate t a s) = adb s1" using r by (auto simp: activate_def split: sum.splits)
  moreover from on_db_exec(1) [OF r [unfolded update_state_def]]
  have "adb s1 = adb s \<or> adb s1 = (adb s)\<lparr>auctions := update_where (\<lambda>r. a_id r = a_id a)
      (\<lambda>r. r\<lparr>a_state := StateActive, a_updated := t\<rparr>) (auctions (adb s))\<rparr>"
    by (auto simp: sql_update_state_def change_auctions_def)
  ultimately show ?thesis using assms by (auto intro!: gone_change)
qed

lemma gone_read:
  assumes "gone aid d" and "a \<in> set (map scan_auction (filter P (auctions d)))" and "\<And>r. P r \<Longrightarrow> a_deleted r = None"
  shows "a_id a \<noteq> aid"
  using assms unfolding gone_def by force

lemma silent_activate_scheduled:
  assumes "gone aid (adb s)"
  shows "said aid (activate_scheduled t s) = said aid s \<and> gone aid (adb (activate_scheduled t s))"
proof -
  obtain r s1 where r: "on_db (get_scheduled_to_activate t) s = (r, s1)" by fastforce
  note q = on_db_query [OF r [unfolded get_scheduled_to_activate_def query_auctions_def]]
  have s1: "gone aid (adb s1)" "said aid s1 = said aid s" using assms q(1) said_on_db [OF r] by simp_all
  show ?thesis
  proof (cases r)
    case (Inr as)
    with q have as: "as = map scan_auction (filter (due_to_start t) (auctions (adb s)))" by simp
    have "a_id a \<noteq> aid" if "a \<in> set as" for a
      using gone_read [OF assms that [unfolded as]] by (simp add: due_to_start_def)
    then have "said aid (fold (activate t) as s1) = said aid s1" by (intro silent_fold silent_activate)
    moreover have "gone aid (adb (fold (activate t) as s'))" if "gone aid (adb s')" for s'
      using that by (induction as arbitrary: s') (simp_all add: gone_activate)
    ultimately show ?thesis using s1 r Inr by (simp add: activate_scheduled_def)
  qed (use r s1 in \<open>simp add: activate_scheduled_def\<close>)
qed

lemma silent_end_expired:
  assumes "gone aid (adb s)"
  shows "said aid (end_expired t s) = said aid s"
proof -
  obtain r s1 where r: "on_db (get_expired_active t) s = (r, s1)" by fastforce
  note q = on_db_query [OF r [unfolded get_expired_active_def query_auctions_def]]
  show ?thesis
  proof (cases r)
    case (Inr as)
    with q have as: "as = map scan_auction (filter (due_to_end t) (auctions (adb s)))" by simp
    have "a_id a \<noteq> aid" if "a \<in> set as" for a
      using gone_read [OF assms that [unfolded as]] by (simp add: due_to_end_def)
    then have "said aid (fold (end_auction t) as s1) = said aid s1" by (intro silent_fold silent_end)
    then show ?thesis using r Inr said_on_db [OF r] by (simp add: end_expired_def)
  qed (use r said_on_db [OF r] in \<open>simp add: end_expired_def\<close>)
qed

lemma silent_create:
  assumes "gone aid (adb s)"
  shows "said aid (snd (create i t seller req s)) = said aid s"
proof -
  obtain r s1 where r: "on_db (create_auction (new_auction i t seller req)) s = (r, s1)" by fastforce
  have i: "a_id (new_auction i t seller req) = i" by (simp add: new_auction_def)
  have "i \<noteq> aid" if "r = Inr n" for n
  proof -
    from on_db_exec(2) [OF r [unfolded create_auction_def] that] insert_auction_effect i assms show ?thesis
      unfolding gone_def by (metis image_eqI)
  qed
  with r said_on_db [OF r] show ?thesis by (auto simp: create_def Let_def said_other split: sum.splits)
qed

lemma silent_delete:
  assumes "gone aid (adb s)"
  shows "said aid (snd (delete t i user role s)) = said aid s"
proof -
  obtain q s1 where q: "on_db (get_by_id i) s = (q, s1)" by fastforce
  have "i \<noteq> aid" if "q = Inr a" for a using silent_read [OF assms] q that by blast
  moreover obtain w s2 where w: "on_db (AuctionDb.soft_delete i t) s1 = (w, s2)" by fastforce
  ultimately show ?thesis using q said_on_db [OF q] said_on_db [OF w]
    by (simp add: delete_def said_other split: sum.splits)
qed

lemma silent_rest: "said aid (snd (update t i user req s)) = said aid s" "said aid (snd (get_auction i s)) = said aid s"
  "said aid (snd (list_page st p n s)) = said aid s"
  by (auto simp: update_def get_auction_def list_page_def Let_def dest: said_on_db split: sum.splits prod.splits)

lemma silent_tick: "gone aid (adb s) \<Longrightarrow> said aid (tick ttl t1 t2 s) = said aid s"
  using silent_activate_scheduled [of aid "snd (acquire_scheduler_lock ttl t1 s)" t1]
    silent_end_expired [of aid "activate_scheduled t1 (snd (acquire_scheduler_lock ttl t1 s))" t2]
  by (simp add: tick_def split_beta Let_def)

interpretation deleted: invariant_system auc_do "\<lambda>_. True" "\<lambda>s. auc_ok (adb s) \<and> gone aid (adb s) \<and> said aid s = E" for aid E
proof
  fix c s assume "auc_ok (adb s) \<and> gone aid (adb s) \<and> said aid s = E"
  then have s: "auc_ok (adb s)" "gone aid (adb s)" "said aid s = E" by simp_all
  have "said aid (auc_do c s) = said aid s"
    using silent_create [OF s(2)] silent_delete [OF s(2)] silent_rest silent_tick [OF s(2)] by (cases c) auto
  with s auc_do_follows [OF s(1), of c] gone_follows [OF s(2)]
  show "auc_ok (adb (auc_do c s)) \<and> gone aid (adb (auc_do c s)) \<and> said aid (auc_do c s) = E" by auto
qed

lemma gone_removed:
  assumes "r \<in> set (auctions d)" and "a_id r = aid"
  shows "gone aid (d\<lparr>auctions := update_where (\<lambda>r. a_id r = aid) (\<lambda>r. r\<lparr>a_deleted := Some t\<rparr>) (auctions d)\<rparr>)"
proof -
  let ?g = "\<lambda>r. if a_id r = aid then r\<lparr>a_deleted := Some t\<rparr> else r"
  have "?g r \<in> ?g ` set (auctions d)" "a_id (?g r) = aid" using assms by (blast, simp)
  moreover have "a_deleted q \<noteq> None" if "q \<in> ?g ` set (auctions d)" "a_id q = aid" for q
  proof -
    from that(1) obtain x where "q = ?g x" by blast
    with that(2) show ?thesis by (cases "a_id x = aid") simp_all
  qed
  moreover have rows: "set (auctions (d\<lparr>auctions := update_where (\<lambda>r. a_id r = aid) (\<lambda>r. r\<lparr>a_deleted := Some t\<rparr>) (auctions d)\<rparr>)) =
      ?g ` set (auctions d)" by (simp add: update_where_def del: if_image_distrib)
  ultimately show ?thesis unfolding gone_def rows by blast
qed

lemma delete_gone:
  assumes "auc_ok (adb s)" and "delete t aid user role s = (Inr u, s1)"
  shows "auc_ok (adb s1) \<and> gone aid (adb s1)"
proof -
  obtain q s0 where q: "on_db (get_by_id aid) s = (q, s0)" by fastforce
  with assms(2) obtain a where "q = Inr a" by (auto simp: delete_def split: sum.splits)
  with q obtain r where "live_auction aid (adb s) = Some r" using get_by_id_read by metis
  with live_auctionD have r: "r \<in> set (auctions (adb s))" "a_id r = aid" by auto
  then have "gone aid (adb s1)" unfolding delete_effect(2) [OF assms(2) refl] by (rule gone_removed)
  with delete_follows [OF assms] show ?thesis by simp
qed

text \<open>C25: Once deleting an auction has succeeded, in whatever state it was, it is over for the auction service: whatever is asked of it and however often the
  scheduler runs, no lookup finds it, and no event about it is ever published again, so no end either. Only the search service listens to the event of
  the deletion itself; the money the highest bidder has on hold waits for an end that does not come.\<close>

theorem deleted_never_ends:
  assumes "auc_ok (adb s)" and "delete t aid user role s = (Inr u, s1)" and "s' = fold auc_do cs s1"
  shows "live_auction aid (adb s') = None \<and> {e \<in> set (au_events s'). ev_auction e = aid} = {e \<in> set (au_events s1). ev_auction e = aid}"
proof -
  have "\<forall>c \<in> set cs. True" by simp
  from deleted.run_keeps [OF this, where s = s1 and aid = aid and E = "said aid s1"] delete_gone [OF assms(1,2)]
  have "gone aid (adb s') \<and> said aid s' = said aid s1" by (simp add: assms(3))
  then show ?thesis by (simp add: gone_not_live said_def)
qed

theorem deleted_never_ends_witness:
  "live_auction ''a1'' (adb (fold auc_do [Tick 5 150 150, Get ''a1''] (snd (delete 7 ''a1'' ''s1'' [] (demo_auctions []))))) = None"
proof -
  let ?d = "delete 7 ''a1'' ''s1'' [] (demo_auctions [])"
  have "\<not> isl (fst ?d)" by code_simp
  then obtain u where "?d = (Inr u, snd ?d)" by (metis prod.collapse sum.collapse(2))
  from deleted_never_ends [OF demo_auctions_ok this refl] show ?thesis by blast
qed

end
