(* ===== verification/BidHttp.thy ===== *)
theory BidHttp
  imports Bid Gateway
begin

text \<open>
  The HTTP interface of the bid service (\<^verbatim>\<open>cmd/main.go\<close>, \<^verbatim>\<open>middleware/auth_middleware.go\<close>, \<^verbatim>\<open>internal/handler/bid_handler.go\<close>) with the two listings of
  \<^verbatim>\<open>service/bid_service.go\<close>. The web socket, the probes and the metrics are elsewhere or left out. The handlers with logic of their own are those of
  \<open>Bid\<close>.
\<close>

subsection \<open>Listings\<close>

definition bid_response :: "float64 bid \<Rightarrow> float64 bid" where
  "bid_response b = \<lparr>b_id = b_id b, b_auction = b_auction b, b_user = b_user b, b_amount = b_amount b, b_created = b_created b\<rparr>"

definition service_bids_by_auction :: "uuid \<Rightarrow> float64 bid list auc_op" where
  "service_bids_by_auction aid = andthen (bids_by_auction aid) (\<lambda>bs. ret (map bid_response bs))"

definition service_bids_by_user :: "uuid \<Rightarrow> float64 bid list auc_op" where
  "service_bids_by_user user = andthen (bids_by_user user) (\<lambda>bs. ret (map bid_response bs))"

datatype bid_body = BbError | BbBids "float64 bid list" nat | BbMin uuid float64 float64 | BbPlaced

type_synonym bid_answer = "nat \<times> bid_body"

definition list_answer :: "(db_error + float64 bid list) \<times> bid_sys \<Rightarrow> bid_answer \<times> bid_sys" where
  "list_answer r = (case r of (Inl e, s) \<Rightarrow> ((500, BbError), s) | (Inr bs, s) \<Rightarrow> ((200, BbBids bs (length bs)), s))"

definition bids_by_auction_handler :: "uuid \<Rightarrow> bid_sys \<Rightarrow> bid_answer \<times> bid_sys" where
  "bids_by_auction_handler aid s = (if aid = [] then ((400, BbError), s) else list_answer (on_bids (service_bids_by_auction aid) s))"

definition my_bids_handler :: "gw_context \<Rightarrow> bid_sys \<Rightarrow> bid_answer \<times> bid_sys" where
  "my_bids_handler cx s = (if cx_user cx = [] then ((401, BbError), s) else list_answer (on_bids (service_bids_by_user (cx_user cx)) s))"

definition bid_history_handler :: "uuid \<Rightarrow> bid_sys \<Rightarrow> bid_answer \<times> bid_sys" where
  "bid_history_handler aid s = (if aid = [] then ((400, BbError), s) else list_answer (on_bids (service_bids_by_auction aid) s))"

subsection \<open>Routes\<close>

datatype bid_call = BidsOf uuid | HistoryOf uuid | MinBid uuid | PlaceBid "(uuid \<times> float64) option" | MyBids

primrec needs_user :: "bid_call \<Rightarrow> bool" where
  "needs_user (BidsOf i) = False"
| "needs_user (HistoryOf i) = False"
| "needs_user (MinBid i) = False"
| "needs_user (PlaceBid b) = True"
| "needs_user MyBids = True"

primrec run_bid_call :: "bool \<Rightarrow> bid_draw \<Rightarrow> bid_call \<Rightarrow> gw_context \<Rightarrow> bid_sys \<Rightarrow> bid_answer \<times> bid_sys" where
  "run_bid_call enabled dr (BidsOf i) cx s = bids_by_auction_handler i s"
| "run_bid_call enabled dr (HistoryOf i) cx s = bid_history_handler i s"
| "run_bid_call enabled dr (MinBid i) cx s =
     (if i = [] then ((400, BbError), s)
      else (case min_bid_handler i (bd_now dr) s of ((highest, least), s') \<Rightarrow> ((200, BbMin i highest least), s')))"
| "run_bid_call enabled dr (PlaceBid body) cx s = (case body of
     None \<Rightarrow> ((400, BbError), s)
   | Some (i, x) \<Rightarrow> (case place_bid_handler enabled dr (cx_user cx) i x s of (st, s') \<Rightarrow> ((st, if st = 201 then BbPlaced else BbError), s')))"
| "run_bid_call enabled dr MyBids cx s = my_bids_handler cx s"

definition serve_bid :: "jwt_lib \<Rightarrow> string \<Rightarrow> bool \<Rightarrow> bid_draw \<Rightarrow> headers \<Rightarrow> bid_call \<Rightarrow> bid_sys \<Rightarrow> bid_answer \<times> bid_sys" where
  "serve_bid lib secret enabled dr h call s =
     (if needs_user call
      then (case bid_service_auth lib secret (bd_now dr) h of Inl st \<Rightarrow> ((st, BbError), s) | Inr cx \<Rightarrow> run_bid_call enabled dr call cx s)
      else run_bid_call enabled dr call empty_context s)"

end
