(* ===== verification/BidHttpSpec.thy ===== *)
theory BidHttpSpec
  imports BidHttp BidSpec JwtSpec "HOL-Library.Multiset"
begin

text \<open>
  What a client of the bid service can do over HTTP: in whose name a bid is placed, what the listings contain, and how far the announced least bid is right.
\<close>

subsection \<open>Bids\<close>

definition own_bid :: "bid_draw \<Rightarrow> uuid \<Rightarrow> uuid \<Rightarrow> bid_sys \<Rightarrow> bid_sys \<Rightarrow> bool" where
  "own_bid dr user aid s s' \<longleftrightarrow> bids (bdb s') = bids (bdb s) \<or>
     (\<exists>b. bids (bdb s') = bids (bdb s) @ [b] \<and> b_id b = bd_bid dr \<and> b_user b = user \<and> b_auction b = aid)"

lemma query_bids [simp]: "bdb (snd (on_bids (pool_query q) s)) = bdb s"
  by (auto simp: on_bids_def pool_query_def split: option.splits)

lemma highest_bids: "current_highest aid t s = (r, s') \<Longrightarrow> bdb s' = bdb s"
proof -
  have "bdb (snd (current_highest aid t s)) = bdb s"
  proof -
    obtain c s1 where c: "cached_highest_bid aid t s = (c, s1)" by fastforce
    then have s1: "bdb s1 = bdb s" by (auto simp: cached_highest_bid_def on_cache_def split: prod.splits option.splits bid_value.splits)
    obtain q s2 where q: "on_bids (highest_amount aid) s1 = (q, s2)" by fastforce
    then have "bdb s2 = bdb s1" by (metis highest_amount_def query_bids snd_conv)
    with c q s1 show ?thesis by (simp add: current_highest_def split: sum.splits)
  qed
  then show "current_highest aid t s = (r, s') \<Longrightarrow> bdb s' = bdb s" by simp
qed

lemma price_bids: "bids (bdb (snd (on_bids (update_current_price aid x) s))) = bids (bdb s)"
  by (auto simp: on_bids_def update_current_price_def pool_exec_def change_auctions_def split: sum.splits option.splits if_splits prod.splits)

lemma release_bids: "bdb (release_previous enabled dr aid x s) = bdb s"
  by (auto simp: release_previous_def wallet_release_def call_wallet_api_def Let_def highest_bidder_def on_bids_def pool_query_def
      split: prod.splits sum.splits if_splits option.splits list.splits net.splits)

lemma after_saving_bids: "bids (bdb (after_saving enabled dr b highest s)) = bids (bdb s)"
  by (simp add: after_saving_def Let_def release_bids price_bids)

lemma create_bid_bids:
  assumes "on_bids (create_bid b) s = (r, s')"
  shows "bids (bdb s') = bids (bdb s) \<or> (\<exists>x. bids (bdb s') = bids (bdb s) @ [x] \<and> b_id x = b_id b \<and> b_user x = b_user b \<and> b_auction x = b_auction b)"
  using assms by (auto simp: on_bids_def create_bid_def pool_exec_def sql_insert_bid_def split: prod.splits sum.splits option.splits if_splits)

lemma locked_bid_own: "own_bid dr user aid s (snd (locked_bid enabled dr user aid x s))"
proof -
  obtain a s1 where a: "on_bids (get_auction_by_id aid) s = (a, s1)" by fastforce
  have s1: "bdb s1 = bdb s" using a query_bids unfolding get_auction_by_id_def by (metis snd_conv)
  obtain h s2 where h: "current_highest aid (bd_now dr) s1 = (h, s2)" by fastforce
  let ?s3 = "snd (wallet_hold enabled (bd_hold dr) user x (bid_ref aid) s2)"
  have s3: "bdb ?s3 = bdb s" using s1 highest_bids [OF h] by (simp add: wallet_hold_def)
  obtain r s4 where r: "on_bids (create_bid (new_bid dr user aid x)) ?s3 = (r, s4)" by fastforce
  have new: "b_id (new_bid dr user aid x) = bd_bid dr" "b_user (new_bid dr user aid x) = user" "b_auction (new_bid dr user aid x) = aid"
    by (simp_all add: new_bid_def)
  have "own_bid dr user aid s s4" using create_bid_bids [OF r] new by (simp add: own_bid_def s3)
  moreover have "own_bid dr user aid s s1" "own_bid dr user aid s s2" using s1 highest_bids [OF h] by (simp_all add: own_bid_def)
  ultimately show ?thesis using a h r
    by (auto simp: locked_bid_def Let_def own_bid_def after_saving_bids split: sum.splits)
qed

lemma place_bid_own: "own_bid dr user aid s (snd (place_bid enabled dr user aid x s))"
proof -
  obtain r s1 where r: "acquire_auction_lock aid (5 * second) (bd_now dr) s = (r, s1)" by fastforce
  then have "bs_sess s1 = bs_sess s" by (metis bid_frame(3) snd_conv)
  with r locked_bid_own [of dr user aid s1 enabled x] show ?thesis
    by (auto simp: place_bid_def own_bid_def split_beta Let_def split: option.splits bool.splits)
qed

lemma handler_reads:
  "bdb (snd (bids_by_auction_handler aid s)) = bdb s" "bdb (snd (bid_history_handler aid s)) = bdb s"
  "bdb (snd (my_bids_handler cx s)) = bdb s" "bdb (snd (min_bid_handler aid t s)) = bdb s"
proof -
  have l: "bdb (snd (on_bids (andthen (pool_query q) (\<lambda>bs. ret (map bid_response bs))) s)) = bdb s" for q s
    by (auto simp: on_bids_def andthen_def pool_query_def ret_def split: option.splits)
  have a: "bdb (snd (list_answer m)) = bdb (snd m)" for m by (simp add: list_answer_def split: sum.splits prod.splits)
  show "bdb (snd (bids_by_auction_handler aid s)) = bdb s" "bdb (snd (bid_history_handler aid s)) = bdb s" "bdb (snd (my_bids_handler cx s)) = bdb s"
    by (simp_all add: bids_by_auction_handler_def bid_history_handler_def my_bids_handler_def a l service_bids_by_auction_def
        service_bids_by_user_def bids_by_auction_def bids_by_user_def)
  obtain c s1 where c: "cached_highest_bid aid t s = (c, s1)" by fastforce
  then have "bdb s1 = bdb s" by (metis bid_frame(2) snd_conv)
  moreover obtain q s2 where q: "on_bids (highest_amount aid) s1 = (q, s2)" by fastforce
  then have "bdb s2 = bdb s1" by (metis highest_amount_def query_bids snd_conv)
  ultimately show "bdb (snd (min_bid_handler aid t s)) = bdb s" using c q by (simp add: min_bid_handler_def Let_def split: sum.splits)
qed

lemma place_handler_own: "own_bid dr user aid s (snd (place_bid_handler enabled dr user aid x s))"
proof -
  obtain r s1 where r: "place_bid enabled dr user aid x s = (r, s1)" by fastforce
  with place_bid_own [of dr user aid s enabled x] show ?thesis by (auto simp: place_bid_handler_def own_bid_def split: sum.splits)
qed

text \<open>Over HTTP no bid is ever changed or lost, and a new one is in the name of the user the request passed the middleware as, on the auction it names: at
  most one for a request, whatever fails on the way.\<close>

theorem bids_in_own_name:
  assumes "serve_bid lib secret enabled dr h call s = (ans, s')"
  shows "bids (bdb s') = bids (bdb s) \<or>
    (\<exists>cx i x b. bid_service_auth lib secret (bd_now dr) h = Inr cx \<and> call = PlaceBid (Some (i, x)) \<and> bids (bdb s') = bids (bdb s) @ [b] \<and>
      b_user b = cx_user cx \<and> b_auction b = i)"
proof -
  have keep: "bids (bdb (snd (run_bid_call enabled dr call cx s))) = bids (bdb s)" if "\<forall>i x. call \<noteq> PlaceBid (Some (i, x))" for cx
    using that handler_reads by (cases call) (auto simp: split_beta split: option.splits)
  show ?thesis
  proof (cases "\<exists>i x. call = PlaceBid (Some (i, x))")
    case True
    then obtain i x where call: "call = PlaceBid (Some (i, x))" by blast
    show ?thesis
    proof (cases "bid_service_auth lib secret (bd_now dr) h")
      case (Inr cx)
      with assms call have "s' = snd (place_bid_handler enabled dr (cx_user cx) i x s)"
        by (auto simp: serve_bid_def split: prod.splits)
      with place_handler_own [of dr "cx_user cx" i s enabled x] Inr call show ?thesis by (auto simp: own_bid_def)
    qed (use assms call in \<open>simp add: serve_bid_def\<close>)
  next
    case False
    with keep assms have "bids (bdb s') = bids (bdb s)"
      by (auto simp: serve_bid_def split: if_splits sum.splits) (metis snd_conv)+
    then show ?thesis ..
  qed
qed

subsection \<open>Listings\<close>

lemma bid_response_id [simp]: "bid_response b = b"
  by (simp add: bid_response_def)

text \<open>A listing of an auction has each of its bids once, the highest first, with their number.\<close>

lemma listing_complete:
  assumes "bids_by_auction_handler aid s = ((200, BbBids bs n), s')"
  shows "bs = map scan_bid (bids_desc aid (bdb s)) \<and> n = length (filter (\<lambda>b. b_auction b = aid) (bids (bdb s))) \<and>
    mset (bids_desc aid (bdb s)) = mset (filter (\<lambda>b. b_auction b = aid) (bids (bdb s))) \<and>
    sorted (map (\<lambda>b. - b_amount b) (bids_desc aid (bdb s)))"
  using assms mset_sort [of "\<lambda>b. - b_amount b" "filter (\<lambda>b. b_auction b = aid) (bids (bdb s))"] by (auto simp: bids_by_auction_handler_def list_answer_def on_bids_def service_bids_by_auction_def bids_by_auction_def
      andthen_def pool_query_def ret_def bids_desc_def split: if_splits prod.splits sum.splits)

text \<open>The announced least bid. It does not know the starting price, so it can be refused.\<close>

lemma least_bid_refused:
  "fst (serve_bid sample_jwt ''s'' True (demo_bdraw ''1'' 20) (\<lambda>_. []) (MinBid ''a1'') demo_bids) = (200, BbMin ''a1'' 0 1) \<and>
   fst (fst (serve_bid sample_jwt ''s'' True (demo_bdraw ''1'' 20) ((\<lambda>_. [])(header_user := [''u1''])) (PlaceBid (Some (''a1'', 1))) demo_bids)) = 400"
  by code_simp

theorem bids_in_own_name_witness:
  "\<exists>cx i x b. bid_service_auth sample_jwt ''s'' 20 ((\<lambda>_. [])(header_user := [''u1''])) = Inr cx \<and> PlaceBid (Some (''a1'', dec 2000)) = PlaceBid (Some (i, x)) \<and>
     bids (bdb (snd (serve_bid sample_jwt ''s'' True (demo_bdraw ''1'' 20) ((\<lambda>_. [])(header_user := [''u1''])) (PlaceBid (Some (''a1'', dec 2000))) demo_bids))) = [b] \<and>
     b_user b = cx_user cx \<and> b_auction b = i"
proof -
  let ?r = "serve_bid sample_jwt ''s'' True (demo_bdraw ''1'' 20) ((\<lambda>_. [])(header_user := [''u1''])) (PlaceBid (Some (''a1'', dec 2000))) demo_bids"
  obtain s' where "place_bid True (demo_bdraw ''1'' 20) ''u1'' ''a1'' (dec 2000) demo_bids = (Inr (new_bid (demo_bdraw ''1'' 20) ''u1'' ''a1'' (dec 2000)), s')"
    and "bdb s' = accepted (demo_bdraw ''1'' 20) ''u1'' ''a1'' 2000 (bdb demo_bids)"
    using place_bid_run [OF demo_ready] by blast
  moreover have "\<not> dec 2000 \<le> 0" by code_simp
  ultimately have "bids (bdb (snd ?r)) \<noteq> []"
    by (simp add: serve_bid_def bid_service_auth_def get_header_def header_names place_bid_handler_def accepted_def)
  moreover have "bids (bdb demo_bids) = []" "bd_now (demo_bdraw ''1'' 20) = 20" by (simp_all add: demo_bids_def demo_bdraw_def)
  ultimately show ?thesis using bids_in_own_name [OF prod.collapse [symmetric, of ?r]] by simp
qed

end
