(* ===== verification/UserWalletHttp.thy ===== *)
theory UserWalletHttp
  imports UserWallet Accounts SlidingWindowSpec
begin

text \<open>
  The HTTP interface of the wallets of the user service: the routes of \<^verbatim>\<open>cmd/main.go\<close> and the public handlers of \<^verbatim>\<open>internal/handler/wallet_handler.go\<close>;
  those of the internal API are in \<open>UserWallet\<close>. A body is the amount it binds to, or \<open>None\<close>.
\<close>

subsection \<open>Numbers in a query\<close>

text \<open>\<^verbatim>\<open>strconv.Atoi\<close> with its error dropped: zero for what is no number, the nearest bound for what does not fit.\<close>

definition is_digit :: "char \<Rightarrow> bool" where
  "is_digit c \<longleftrightarrow> 48 \<le> (of_char c :: nat) \<and> (of_char c :: nat) \<le> 57"

definition clamp64 :: "int \<Rightarrow> int" where
  "clamp64 n = (if n < - (2 ^ 63) then - (2 ^ 63) else if 2 ^ 63 - 1 < n then 2 ^ 63 - 1 else n)"

definition atoi :: "string \<Rightarrow> int" where
  "atoi s = (let (neg, ds) = (case s of c # cs \<Rightarrow> if c = CHR ''-'' then (True, cs) else if c = CHR ''+'' then (False, cs) else (False, s) | [] \<Rightarrow> (False, [])) in
     if ds = [] \<or> \<not> list_all is_digit ds then 0 else clamp64 (if neg then - int (digit_value ds) else int (digit_value ds)))"

definition query_number :: "string option \<Rightarrow> string \<Rightarrow> int" where
  "query_number q dflt = atoi (case q of None \<Rightarrow> dflt | Some v \<Rightarrow> v)"

subsection \<open>Handlers\<close>

datatype uw_body = UbError | UbWallet "float64 uwallet" | UbHistory "float64 uwallet_txn list" int | UbInitiated float64 | UbDone

type_synonym uw_answer = "nat \<times> uw_body"

definition wallet_handler :: "uuid \<Rightarrow> userdb session \<Rightarrow> uw_answer \<times> userdb session" where
  "wallet_handler user s = (case get_uwallet user s of
     (Inl e, s') \<Rightarrow> ((404, UbError), s') | (Inr w, s') \<Rightarrow> ((200, UbWallet w), s'))"

definition wallet_history_handler :: "uuid \<Rightarrow> string option \<Rightarrow> string option \<Rightarrow> userdb session \<Rightarrow> uw_answer \<times> userdb session" where
  "wallet_history_handler user limit offset s = (case history user (query_number limit ''20'') (query_number offset ''0'') s of
     (Inl e, s') \<Rightarrow> ((500, UbError), s') | (Inr (ts, n), s') \<Rightarrow> ((200, UbHistory ts n), s'))"

definition wallet_deposit_handler :: "user_draw \<Rightarrow> uuid \<Rightarrow> float64 option \<Rightarrow> userdb session \<Rightarrow> uw_answer \<times> userdb session" where
  "wallet_deposit_handler dr user body s = (case body of
     None \<Rightarrow> ((400, UbError), s)
   | Some x \<Rightarrow>
       (if x \<le> 0 then ((400, UbError), s)
        else (case deposit dr user x s of
            (Inl UWalletNotFound, s') \<Rightarrow> ((404, UbError), s')
          | (Inl _, s') \<Rightarrow> ((500, UbError), s')
          | (Inr w, s') \<Rightarrow> ((200, UbWallet w), s'))))"

definition withdraw_handler :: "float64 option \<Rightarrow> uw_answer" where
  "withdraw_handler body = (case body of
     None \<Rightarrow> (400, UbError) | Some x \<Rightarrow> (if x \<le> 0 then (400, UbError) else (200, UbInitiated x)))"

subsection \<open>Routes\<close>

datatype uw_call =
    GetWallet
  | GetHistory "string option" "string option"
  | Deposit "float64 option"
  | Withdraw "float64 option"
  | InternalHold uuid float64 string
  | InternalRelease uuid float64 string
  | InternalSettle uuid float64 uuid
  | InternalCredit uuid float64 uuid

text \<open>The group of the internal calls has no middleware.\<close>

fun uw_public :: "uw_call \<Rightarrow> bool" where
  "uw_public GetWallet = True"
| "uw_public (GetHistory l ofs) = True"
| "uw_public (Deposit b) = True"
| "uw_public (Withdraw b) = True"
| "uw_public _ = False"

definition status_only :: "nat \<times> userdb session \<Rightarrow> uw_answer \<times> userdb session" where
  "status_only r = (case r of (st, s) \<Rightarrow> ((st, if st < 400 then UbDone else UbError), s))"

primrec run_uw_call :: "user_draw \<Rightarrow> uw_call \<Rightarrow> uuid \<Rightarrow> userdb session \<Rightarrow> uw_answer \<times> userdb session" where
  "run_uw_call dr GetWallet user s = wallet_handler user s"
| "run_uw_call dr (GetHistory l ofs) user s = wallet_history_handler user l ofs s"
| "run_uw_call dr (Deposit b) user s = wallet_deposit_handler dr user b s"
| "run_uw_call dr (Withdraw b) user s = (withdraw_handler b, s)"
| "run_uw_call dr (InternalHold u x ref) user s = status_only (api_hold dr u x ref s)"
| "run_uw_call dr (InternalRelease u x ref) user s = status_only (api_release dr u x ref s)"
| "run_uw_call dr (InternalSettle u x a) user s = status_only (api_settle dr u x a s)"
| "run_uw_call dr (InternalCredit u x a) user s = status_only (api_credit dr u x a s)"

text \<open>The wallets are tables of the same database as the accounts.\<close>

definition wallet_session :: "acc_sys \<Rightarrow> userdb session" where
  "wallet_session s = \<lparr>db = wallet_db (db (ax_sess s)), aborted = aborted (ax_sess s), faults = faults (ax_sess s)\<rparr>"

definition on_wallets :: "(userdb session \<Rightarrow> 'a \<times> userdb session) \<Rightarrow> acc_sys \<Rightarrow> 'a \<times> acc_sys" where
  "on_wallets f s = (case f (wallet_session s) of (r, u) \<Rightarrow>
     (r, s\<lparr>ax_sess := \<lparr>db = (db (ax_sess s))\<lparr>wallet_db := db u\<rparr>, aborted = aborted u, faults = faults u\<rparr>\<rparr>))"

definition serve_wallet :: "jwt_lib \<Rightarrow> auth_config \<Rightarrow> time \<Rightarrow> string \<Rightarrow> user_draw \<Rightarrow> uw_call \<Rightarrow> acc_sys \<Rightarrow> uw_answer \<times> acc_sys" where
  "serve_wallet lib cfg t header dr call s =
     (if uw_public call
      then (case auth_required lib cfg t header s of
          (Inl st, s') \<Rightarrow> ((st, UbError), s')
        | (Inr (user, role, jti), s') \<Rightarrow> on_wallets (run_uw_call dr call user) s')
      else on_wallets (run_uw_call dr call []) s)"

end
