(* ===== verification/UserWalletHttpSpec.thy ===== *)
theory UserWalletHttpSpec
  imports UserWalletHttp UserWalletSpec AccountsSpec
begin

text \<open>
  What a client of the user service can do to wallets over HTTP: with a token, and without one.
\<close>

subsection \<open>Numbers\<close>

lemma digits_digits: "list_all is_digit (digits n)"
  using digits_range [of n] by (simp add: list_all_iff is_digit_def)

lemma digits_start: obtains c cs where "digits n = c # cs" and "c \<noteq> CHR ''-''" and "c \<noteq> CHR ''+''"
proof -
  have "digits n \<noteq> []" by (cases "n < 10") (simp_all add: digits_small digits_big)
  then obtain c cs where d: "digits n = c # cs" by (cases "digits n") auto
  with digits_digits [of n] have "is_digit c" by simp
  then have "c \<noteq> CHR ''-''" "c \<noteq> CHR ''+''" by (auto simp: is_digit_def)
  with d that show thesis by blast
qed

text \<open>What the code writes as a number it reads back as that number.\<close>

lemma atoi_itoa:
  assumes "- (2 ^ 63) \<le> i" and "i < 2 ^ 63"
  shows "atoi (itoa i) = i"
proof (cases "i < 0")
  case True
  obtain c cs where "digits (nat (- i)) = c # cs" by (rule digits_start)
  then have ne: "digits (nat (- i)) \<noteq> []" by simp
  have "itoa i = CHR ''-'' # digits (nat (- i))" using True by (simp add: itoa_def)
  with ne digits_digits [of "nat (- i)"] digit_value_digits [of "nat (- i)"] True assms
  show ?thesis by (simp add: atoi_def clamp64_def)
next
  case False
  obtain c cs where d: "digits (nat i) = c # cs" "c \<noteq> CHR ''-''" "c \<noteq> CHR ''+''" by (rule digits_start)
  have "itoa i = c # cs" using False d by (simp add: itoa_def)
  with d digits_digits [of "nat i"] digit_value_digits [of "nat i"] False assms
  show ?thesis by (simp add: atoi_def clamp64_def)
qed

subsection \<open>Whose wallet a call changes\<close>

lemma find_keeps: "find_by_user_id user s = (r, s') \<Longrightarrow> db s' = db s"
  using find_by_user_db by (metis snd_conv)

lemma entered_others:
  assumes "entered d d' w c ty desc dr" and "x \<in> set (uwallets d)" and "uw_id x \<noteq> uw_id w"
  shows "x \<in> set (uwallets d')"
  using assms by (force simp: entered_def in_set_update_where)

text \<open>A deposit of any amount leaves the rows of the others; only the row with the id of the found wallet can change.\<close>

lemma set_balance_others:
  assumes "sql_set_balance wid x t d = Inr (d', n)" and "r \<in> set (uwallets d)" and "uw_id r \<noteq> wid"
  shows "r \<in> set (uwallets d')"
  using assms by (force simp: sql_set_balance_def in_set_update_where split: if_splits option.splits)

lemma insert_utxn_wallets: "sql_insert_utxn r d = Inr (d', n) \<Longrightarrow> uwallets d' = uwallets d"
  by (auto simp: sql_insert_utxn_def split: if_splits option.splits prod.splits)

lemma audit_wallets: "uwallets (db (snd (pool_exec (sql_insert_audit r) s))) = uwallets (db s)"
  by (auto simp: pool_exec_def sql_insert_audit_def split: if_splits option.splits sum.splits)

lemma repo_deposit_others:
  assumes "repo_deposit dr wid x desc s = (Inr u, s')" and "r \<in> set (uwallets (db s))" and "uw_id r \<noteq> wid"
  shows "r \<in> set (uwallets (db s'))"
proof -
  from assms(1) obtain w s0 n s1 m where w: "lock_uwallet wid s = (Inr w, s0)"
    and e: "exec (sql_set_balance wid (fadd (uw_balance w) x) (ud_now dr)) s0 = (Inr n, s1)"
      "exec (sql_insert_utxn (utxn dr wid UDeposit x (uw_balance w) (fadd (uw_balance w) x) desc)) s1 = (Inr m, s')"
    unfolding repo_deposit_def Let_def by (auto elim!: andthen_okE on_err_okE)
  from w have "db s0 = db s" by (auto elim: lock_uwallet_okE)
  moreover obtain d where "sql_set_balance wid (fadd (uw_balance w) x) (ud_now dr) (db s0) = Inr (d, n)" "db s1 = d"
    using e(1) by (auto elim: exec_okE)
  moreover obtain d where "sql_insert_utxn (utxn dr wid UDeposit x (uw_balance w) (fadd (uw_balance w) x) desc) (db s1) = Inr (d, m)" "db s' = d"
    using e(2) by (auto elim: exec_okE)
  ultimately show ?thesis using set_balance_others insert_utxn_wallets assms(2,3) by metis
qed

lemma wallet_deposit_others:
  assumes "distinct (map uw_id (uwallets (db s)))" and "deposit dr user x s = (r, s')" and "w \<in> set (uwallets (db s))" and "uw_user w \<noteq> user"
  shows "w \<in> set (uwallets (db s'))"
proof (cases "find_by_user_id user s")
  case (Pair q s1)
  have s1: "db s1 = db s" by (rule find_keeps [OF Pair])
  show ?thesis
  proof (cases q)
    case (Inr v)
    with Pair obtain y where y: "find (\<lambda>w. uw_user w = user) (uwallets (db s)) = Some y" "v = scan_uwallet y" by (auto elim: find_by_user_okE)
    from find_SomeD [OF y(1)] y(2) assms(1,3,4) have id: "uw_id w \<noteq> uw_id v" by (auto dest: distinct_key_unique)
    obtain p s2 where p: "with_tx UDb UDb (repo_deposit dr (uw_id v) x ''manual deposit'') s1 = (p, s2)" by fastforce
    have "w \<in> set (uwallets (db s2))"
    proof (cases p)
      case (Inl e)
      with with_tx_error p s1 assms(3) show ?thesis by metis
    next
      case (Inr u)
      with p obtain s3 where "repo_deposit dr (uw_id v) x ''manual deposit'' ((Session.tick s1)\<lparr>aborted := False\<rparr>) = (Inr u, s3)" "db s2 = db s3"
        by (blast elim: with_tx_okE)
      with repo_deposit_others [OF this(1)] s1 assms(3) id show ?thesis by simp
    qed
    then show ?thesis using assms(2) Pair Inr p find_by_user_db [of user]
      by (auto simp: deposit_def andthen_def ignoring_def audit_wallets split: sum.splits dest!: arg_cong [where f = snd])
  qed (use assms(2,3) Pair s1 in \<open>auto simp: deposit_def andthen_def\<close>)
qed

lemma history_keeps: "history user l ofs s = (r, s') \<Longrightarrow> db s' = db s"
  using read_only_keeps by (metis snd_conv)

lemma deposit_handler_others:
  assumes "distinct (map uw_id (uwallets (db s)))" and "wallet_deposit_handler dr user body s = (ans, s')" and "w \<in> set (uwallets (db s))"
    and "uw_user w \<noteq> user"
  shows "w \<in> set (uwallets (db s'))"
proof (cases "\<exists>x. body = Some x \<and> \<not> x \<le> 0")
  case True
  then obtain x where x: "body = Some x" "\<not> x \<le> 0" by blast
  obtain r s1 where r: "deposit dr user x s = (r, s1)" by fastforce
  have "s' = s1" using assms(2) x r by (auto simp: wallet_deposit_handler_def split: sum.splits user_err.splits)
  with wallet_deposit_others [OF assms(1) r assms(3,4)] show ?thesis by simp
qed (use assms in \<open>auto simp: wallet_deposit_handler_def split: option.splits if_splits\<close>)

abbreviation wdb :: "acc_sys \<Rightarrow> userdb" where "wdb s \<equiv> wallet_db (db (ax_sess s))"

lemma wallet_session_db [simp]: "db (wallet_session s) = wdb s"
  by (simp add: wallet_session_def)

lemma on_wallets_db: "on_wallets f s = (r, s') \<Longrightarrow> f (wallet_session s) = (r, u) \<Longrightarrow> wdb s' = db u"
  by (auto simp: on_wallets_def)

lemma auth_sess: "auth_required lib cfg t header s = (r, s') \<Longrightarrow> ax_sess s' = ax_sess s"
  by (auto simp: auth_required_def parse_token_def is_blacklisted_def split: if_splits sum.splits prod.splits option.splits)

text \<open>With a token a client moves only its own money: a wallet that a call other than the internal ones changes is that of the user of the token, and the call
  is a deposit.\<close>

theorem token_moves_own_wallet:
  assumes "ledger_ok (wdb s)" and "serve_wallet lib cfg t header dr call s = (ans, s')" and "uw_public call"
    and "w \<in> set (uwallets (wdb s))" and "w \<notin> set (uwallets (wdb s'))"
  shows "\<exists>user role jti x. fst (auth_required lib cfg t header s) = Inr (user, role, jti) \<and> uw_user w = user \<and> call = Deposit (Some x)"
proof -
  obtain q s1 where q: "auth_required lib cfg t header s = (q, s1)" by fastforce
  have s1: "ax_sess s1 = ax_sess s" by (rule auth_sess [OF q])
  obtain user role jti where au: "q = Inr (user, role, jti)" and on: "on_wallets (run_uw_call dr call user) s1 = (ans, s')"
    using assms(2-5) q s1 by (auto simp: serve_wallet_def split: sum.splits)
  obtain ans' u where run: "run_uw_call dr call user (wallet_session s1) = (ans', u)" by fastforce
  have u: "wdb s' = db u" using on run by (auto simp: on_wallets_def)
  have w: "w \<in> set (uwallets (db (wallet_session s1)))" "w \<notin> set (uwallets (db u))" using assms(4,5) s1 u by simp_all
  have d: "distinct (map uw_id (uwallets (db (wallet_session s1))))" using assms(1) s1 by (simp add: ledger_ok_def)
  show ?thesis
  proof (cases call)
    case GetWallet
    with run w show ?thesis by (auto simp: wallet_handler_def get_uwallet_def dest!: find_keeps split: prod.splits sum.splits)
  next
    case (GetHistory l ofs)
    with run w show ?thesis by (auto simp: wallet_history_handler_def dest!: history_keeps split: prod.splits sum.splits)
  next
    case (Deposit b)
    with run have h: "wallet_deposit_handler dr user b (wallet_session s1) = (ans', u)" by simp
    have "uw_user w = user" using deposit_handler_others [OF d h w(1)] w(2) by blast
    moreover obtain x where "b = Some x" using h w by (cases b) (auto simp: wallet_deposit_handler_def)
    ultimately show ?thesis using q au Deposit by simp
  next
    case (Withdraw b)
    with run w show ?thesis by simp
  qed (use assms(3) in simp_all)
qed

definition wallets_demo :: acc_sys where
  "wallets_demo = with_ann\<lparr>ax_sess := (ax_sess with_ann)\<lparr>db := (db (ax_sess with_ann))\<lparr>wallet_db := db demo_users\<rparr>\<rparr>\<rparr>"

theorem token_moves_own_wallet_witness:
  "\<exists>tok user role jti x. fst (auth_required sample_jwt sample_config 2 (''Bearer '' @ tok) wallets_demo) = Inr (user, role, jti) \<and>
     uw_user (hd (uwallets (db demo_users))) = user \<and> Deposit (Some (dec 500)) = Deposit (Some x)"
proof -
  let ?c = "no_claims\<lparr>cl_user := ''u1'', cl_jti := ''j1''\<rparr>" and ?call = "Deposit (Some (dec 500))"
  let ?w = "hd (uwallets (db demo_users))"
  obtain tok where tok: "jl_sign sample_jwt [] ''secret'' ?c = Some tok" using jwt_ok_signs [OF sample_jwt_ok] by blast
  have p: "parse_access_token sample_jwt sample_config 2 tok = Inr ?c"
    using jwt_ok_parse [OF sample_jwt_ok tok, of True 2 "hmac_key ''secret''"]
    by (simp add: parse_access_token_def sample_config_def in_time_def no_claims_def user_view_def)
  have "ax_redis wallets_demo = None" by (simp add: wallets_demo_def with_ann_def no_accounts_def)
  then have auth: "auth_required sample_jwt sample_config 2 (''Bearer '' @ tok) wallets_demo = (Inr (''u1'', [], ''j1''), wallets_demo)"
    using p by (simp add: auth_required_def parse_token_def is_blacklisted_def no_claims_def)
  have "?w \<notin> set (uwallets (wdb (snd (on_wallets (run_uw_call (demo_udraw ''t1'') ?call ''u1'') wallets_demo))))" by code_simp
  then have new: "?w \<notin> set (uwallets (wdb (snd (serve_wallet sample_jwt sample_config 2 (''Bearer '' @ tok) (demo_udraw ''t1'') ?call wallets_demo))))"
    unfolding serve_wallet_def auth by (simp only: uw_public.simps if_True prod.case sum.case not_False_eq_True)
  have "wdb wallets_demo = db demo_users" by (simp add: wallets_demo_def)
  then have "ledger_ok (wdb wallets_demo)" "?w \<in> set (uwallets (wdb wallets_demo))"
    using demo_users_ok(1) by (simp_all add: demo_users_def)
  from token_moves_own_wallet [OF this(1) prod.collapse [symmetric] _ this(2) new] show ?thesis by auto
qed

text \<open>C27: The internal calls need nothing: whatever header a request has, none included, a credit of whole cents to a user with a wallet succeeds while the database
  answers and adds the amount. The key of the services that the comment on these routes speaks of is never asked for.\<close>

theorem anybody_credits:
  assumes "ledger_ok (wdb s)" and "quiet (wallet_session s)" and "w \<in> set (uwallets (wdb s))" "uw_user w \<noteq> []" and "au \<noteq> []"
    and "0 < c" "in_range c" "in_range (uw_balance w + c)" and "ud_txn dr \<notin> ut_id ` set (utxns (wdb s))"
  shows "\<exists>s'. serve_wallet lib cfg t header dr (InternalCredit (uw_user w) (dec c) au) s = ((200, UbDone), s') \<and>
    balance_of (uw_user w) (wdb s') = Some (uw_balance w + c)"
proof -
  have "dec 0 = 0" by (simp add: dec_def)
  with dec_less_iff [of 0 c] assms(6,7) have "0 < dec c" by (simp add: in_range_def)
  from quiet_credit [OF assms(2) _ _ _ assms(7,8), of dr au] assms obtain u where
    u: "credit dr (uw_user w) (dec c) au (wallet_session s) = (Inr (), u)"
      "entered (wdb s) (db u) w c UCredit (''credit:auction:'' @ au) dr" by auto
  have "balance_of (uw_user w) (db u) = Some (uw_balance w + c)"
    using entered_balance [OF assms(1) u(2), of "uw_user w"] assms(1,3)
    by (auto simp: balance_of_def ledger_ok_def find_key_eq)
  moreover have "run_uw_call dr (InternalCredit (uw_user w) (dec c) au) [] (wallet_session s) = ((200, UbDone), u)"
    using u(1) \<open>0 < dec c\<close> assms(4,5) by (simp add: api_credit_def status_only_def)
  ultimately show ?thesis by (auto simp: serve_wallet_def on_wallets_def)
qed

theorem anybody_credits_witness:
  "\<exists>s'. serve_wallet sample_jwt sample_config 2 [] (demo_udraw ''t1'') (InternalCredit ''u1'' (dec 900000) ''a1'') wallets_demo = ((200, UbDone), s') \<and>
     balance_of ''u1'' (wdb s') = Some 910000"
proof -
  let ?w = "hd (uwallets (db demo_users))"
  have w: "uw_user ?w = ''u1''" "uw_balance ?w = 10000" "?w \<in> set (uwallets (wdb wallets_demo))"
    by (simp_all add: demo_users_def wallets_demo_def)
  have d: "wdb wallets_demo = db demo_users" by (simp add: wallets_demo_def)
  have "quiet (wallet_session wallets_demo)"
    by (simp add: quiet_def wallet_session_def wallets_demo_def with_ann_def no_accounts_def)
  from anybody_credits [OF _ this w(3), of "''a1''" 900000 "demo_udraw ''t1''" sample_jwt sample_config 2 "[]"] w d demo_users_ok(1)
  show ?thesis by (simp add: in_range_def demo_users_def demo_udraw_def)
qed

text \<open>When only the last read of a deposit fails, the answer is an error though the money is there; a client that tries again deposits twice.\<close>

lemma failed_deposit_credits:
  "case run_uw_call (demo_udraw ''t1'') (Deposit (Some (dec 500))) ''u1'' (demo_users\<lparr>faults := replicate 7 False @ [True]\<rparr>) of
     (ans, s) \<Rightarrow> ans = (500, UbError) \<and> balance_of ''u1'' (db s) = Some 10500"
  by code_simp

lemma withdraw_does_nothing:
  "0 < x \<Longrightarrow> run_uw_call dr (Withdraw (Some x)) user s = ((200, UbInitiated x), s)"
  by (simp add: withdraw_handler_def)

end
