(* ===== verification/Spec2Isabelle.thy ===== *)
theory Spec2Isabelle
  imports SettlementSpec LegacyWallet Outbox CircuitBreaker RateLimit AuctionSpec BidSpec FencedLockSpec KafkaSpec NotificationSpec Hubs MigrateSpec
    KeyRotationSpec ServiceAuthSpec GatewaySpec PodLimitsSpec LoggingSpec ValidationSpec ShutdownSpec SecretsSpec
    SearchSpec AnalyticsSpec PaymentHttpSpec AuctionHttpSpec BidHttpSpec UserWalletHttpSpec
begin

text \<open>
  \<^bold>\<open>A model of the auction platform.\<close> Sellers list auctions (auction-service), users bid on them
  (bid-service), the money of a bid is held in a wallet, and when an auction ends the winner is charged and the
  seller paid. The services share PostgreSQL tables and Redis, and tell each other what happened over Kafka; the
  packages under \<^verbatim>\<open>pkg/\<close> are used by all of them. All paths below are under \<^verbatim>\<open>src/\<close>.

  \<^bold>\<open>Foundations.\<close>
  \<^item> \<^verbatim>\<open>Prelude\<close>: results (\<open>err + 'a\<close>) with \<open>andthen\<close> and \<open>on_err\<close>, rows
    of tables as lists with \<open>update_where\<close>, times, durations, identifiers, and the fact collections.
  \<^item> \<^verbatim>\<open>Session\<close>: a PostgreSQL session: autocommitted statements, transactions with row locks
    and rollback, and a script of faults that decides which statement loses its connection. An operation that
    takes several statements is a function of the script, so a theorem for every script covers every failure.
  \<^item> \<^verbatim>\<open>Float64\<close>: the amounts of the code are \<open>float64\<close>; the model rounds to the 53-bit grid, and proves
    when sums of amounts in cents are exact. \<^verbatim>\<open>GoFmt\<close>: decimal printing and the JSON texts.
  \<^item> \<^verbatim>\<open>Redis\<close>: keys with values and expiry, \<open>SET NX\<close>, \<open>INCR\<close>, scripts; commands may fail.

  \<^bold>\<open>Payment service\<close> (\<^verbatim>\<open>services/payment-service/internal\<close>).
  \<^item> \<^verbatim>\<open>PaymentDb\<close>, \<^verbatim>\<open>WalletRepo\<close>, \<^verbatim>\<open>Wallet\<close>: the schema with its checks, \<^verbatim>\<open>wallet/pg_repository.go\<close> and
    \<^verbatim>\<open>wallet/wallet.go\<close>: hold, release, charge under an idempotency key. \<^verbatim>\<open>WalletSpec\<close>: the books stay balanced
    under any sequence of operations and faults; each operation is atomic and refines an abstract account; a key
    is spent once; and the interleaving in which two requests with one key both hold.
  \<^item> \<^verbatim>\<open>Saga\<close>: \<^verbatim>\<open>saga/orchestrator.go\<close> with its store; its contract is stated step by step, and the locale \<open>saga_phases\<close> of \<^verbatim>\<open>SettlementPhases\<close> gives the settlement's.
    \<^verbatim>\<open>Settlement\<close>, \<^verbatim>\<open>SettlementSteps\<close>, \<^verbatim>\<open>SettlementPhases\<close>, \<^verbatim>\<open>SettlementSpec\<close>: the four steps of
    \<^verbatim>\<open>saga/settlement.go\<close> and the settlement of an auction as a whole: what a completed one did, that an undone one
    restores every balance, and that money is never created or lost.
  \<^item> \<^verbatim>\<open>LegacyWallet\<close>: the HTTP wallet of \<^verbatim>\<open>service/wallet_service.go\<close> with its repositories. \<^verbatim>\<open>Outbox\<close>: both
    outbox pollers: an entry marked as published was delivered, and a queue drains when sends succeed.

  \<^bold>\<open>Shared packages.\<close>
  \<^item> \<^verbatim>\<open>CircuitBreaker\<close> (\<^verbatim>\<open>pkg/circuitbreaker\<close>) and \<^verbatim>\<open>RateLimit\<close> (\<^verbatim>\<open>pkg/ratelimit/memory.go\<close>): the
    state machines of the breaker and of the sliding windows, their invariants and bounds.
  \<^item> \<^verbatim>\<open>FencedLock\<close>, \<^verbatim>\<open>FencedLockSpec\<close> (\<^verbatim>\<open>pkg/lock\<close>): a lock with a fencing token. Acquisition recurses on the number of
    attempts left, so it ends; the locale \<open>lease\<close> of \<^verbatim>\<open>Redis\<close> has the laws of a key with an expiry,
    and the invariants of whole systems go through the locale \<open>invariant_system\<close> of \<^verbatim>\<open>Prelude\<close>.
  \<^item> \<^verbatim>\<open>KafkaBus\<close>, \<^verbatim>\<open>KafkaSpec\<close> (\<^verbatim>\<open>pkg/kafka\<close>): headers written and read back, retries with backoff, the dead letter
    topic, and the store of processed events.

  \<^item> \<^verbatim>\<open>SlidingWindow\<close>, \<^verbatim>\<open>SlidingWindowSpec\<close> (\<^verbatim>\<open>pkg/ratelimit/sliding_window.go\<close>): the same windows on Redis, with the limiter in memory
    as fallback.
  \<^item> \<^verbatim>\<open>Migrate\<close>, \<^verbatim>\<open>MigrateSpec\<close> (\<^verbatim>\<open>pkg/migrate/migrate.go\<close>): the runner of schema migrations with deadlines, rollback and the
    tracking table. What a migration does to the database is an argument.
  \<^item> \<^verbatim>\<open>Jwt\<close>, \<^verbatim>\<open>KeyRotation\<close>, \<^verbatim>\<open>ServiceAuth\<close> and their \<^verbatim>\<open>Spec\<close> theories (\<^verbatim>\<open>pkg/auth\<close>, \<^verbatim>\<open>pkg/serviceauth\<close>): tokens, rotating keys and the
    authentication of services. Signing and parsing are the functions \<open>jl_sign\<close> and \<open>jl_parse\<close> of a record, and \<open>jwt_ok\<close> is what the library
    documents: a signed token parses under its key within its dates, and only tokens signed with the key parse. The locale \<open>key_ring\<close>
    has the laws of a current and a previous key with a grace period; both packages interpret it.
  \<^item> \<^verbatim>\<open>Logging\<close> (\<^verbatim>\<open>pkg/logger\<close>): redaction of secrets and suppression of repeated entries. \<^verbatim>\<open>Validation\<close> (\<^verbatim>\<open>pkg/validation\<close>,
    \<^verbatim>\<open>pkg/errors\<close>): the rules for inputs and the error values.
  \<^item> \<^verbatim>\<open>Shutdown\<close>, \<^verbatim>\<open>ShutdownSpec\<close> (\<^verbatim>\<open>pkg/shutdown\<close>): the steps of a shutdown with their timeouts. The locale \<open>punctual\<close> is the contract
    of a component, to return by the end of its context; the adapters and the pools interpret it. \<^verbatim>\<open>Secrets\<close>, \<^verbatim>\<open>SecretsSpec\<close>
    (\<^verbatim>\<open>pkg/secrets\<close>): start-up with retries, Vault and mounted files, which interpret the locale \<open>secret_source\<close>: what is loaded at once
    agrees with what is read one by one.

  \<^bold>\<open>The gateway and the accounts.\<close>
  \<^item> \<^verbatim>\<open>AccountDb\<close>, \<^verbatim>\<open>Accounts\<close> (\<^verbatim>\<open>services/user-service/internal\<close>): registration, login, refresh tokens, sessions, profiles and
    administration. \<^verbatim>\<open>AccountsInv\<close> has the locale of table invariants that every request keeps, \<^verbatim>\<open>AccountsSpec\<close> its two interpretations.
  \<^item> \<^verbatim>\<open>Gateway\<close>, \<^verbatim>\<open>GatewaySpec\<close> (\<^verbatim>\<open>api-gateway/internal\<close>): a request from the limiter over its route and guard to the service, and
    the middleware of the services that takes its headers. \<^verbatim>\<open>PodLimits\<close>: memory pressure, web socket capacity (\<^verbatim>\<open>pkg/pool/websocket.go\<close>), the
    request limit of user-service and the API versions.

  \<^bold>\<open>The other services.\<close>
  \<^item> \<^verbatim>\<open>AuctionDb\<close>, \<^verbatim>\<open>Auction\<close>, \<^verbatim>\<open>AuctionSpec\<close>: the life of an auction from upcoming to ended, the scheduler tick, who wins.
  \<^item> \<^verbatim>\<open>UserWallet\<close>, \<^verbatim>\<open>UserWalletSpec\<close>: the wallets of user-service, their ledger, and the consumer of ended auctions.
  \<^item> \<^verbatim>\<open>Bid\<close>, \<^verbatim>\<open>BidSpec\<close>: placing a bid, with the hold for the bidder and the release for the one who is outbid. It
    calls the wallet of \<^verbatim>\<open>UserWallet\<close>, the auctions of \<^verbatim>\<open>AuctionDb\<close> and a lock on Redis.
  \<^item> \<^verbatim>\<open>Notification\<close>, \<^verbatim>\<open>NotificationSpec\<close>: the consumer of notification-service, its idempotency keys, table and mails.
  \<^item> \<^verbatim>\<open>Search\<close>, \<^verbatim>\<open>SearchSpec\<close>: requests, queries, cache and index of search-service, and what becomes of the events of the auction
    service. The engine that evaluates a query is an argument; \<open>engine_ok\<close> is what is asked of it. \<^verbatim>\<open>Analytics\<close>, \<^verbatim>\<open>AnalyticsSpec\<close>: the
    figures that analytics-service keeps. \<^verbatim>\<open>Leaderboard\<close>: the sorted sets of Redis that both use.
  \<^item> \<^verbatim>\<open>Hubs\<close>: the websocket hubs of bid-service and notification-service as rooms of clients with bounded channels.

  \<^bold>\<open>The HTTP interfaces\<close> of four services, each a table of routes with the middleware in front and the handlers behind; every request is one call of a
  \<open>serve\<close> function, which the \<^verbatim>\<open>Spec\<close> theories turn into statements on what a client can do: whose rows a request changes, and that a refused one
  changes nothing.
  \<^item> \<^verbatim>\<open>PaymentHttp\<close>, \<^verbatim>\<open>PaymentHttpSpec\<close>: \<^verbatim>\<open>payment-service/internal/handler/wallet_handler.go\<close>, with idempotency keys of clients.
  \<^item> \<^verbatim>\<open>AuctionHttp\<close>, \<^verbatim>\<open>AuctionHttpSpec\<close>: \<^verbatim>\<open>auction-service/internal/handler/auction_handler.go\<close>; and what becomes of a deleted auction.
  \<^item> \<^verbatim>\<open>BidHttp\<close>, \<^verbatim>\<open>BidHttpSpec\<close>: \<^verbatim>\<open>bid-service/internal/handler/bid_handler.go\<close> with the listings.
  \<^item> \<^verbatim>\<open>UserWalletHttp\<close>, \<^verbatim>\<open>UserWalletHttpSpec\<close>: \<^verbatim>\<open>user-service/internal/handler/wallet_handler.go\<close>; the internal API has no middleware.

  \<^bold>\<open>Bounds.\<close> Machine integers are \<open>int\<close> where the code only counts; amounts are rounded as above, and exactness
  is claimed below \<open>2 ^ 53\<close> only. No definition uses fuel: retries recurse on the attempts left, pollers on their batch.

  \<^bold>\<open>Not modelled.\<close> Goroutines, channels and tickers appear only as the sequences of steps they produce; metrics,
  tracing and the wiring in \<^verbatim>\<open>cmd/main.go\<close> other than the routes of these four services have no counterpart; PostgreSQL, Redis and Kafka are modelled as far as the
  statements the code sends. The creation of
  connections, pools and the search index, the command line of the migrations, CORS, security headers and the bytes that cross the
  web sockets of the gateway configure or move what libraries do, and are left out; so are the frontend and the deployment files.
\<close>

end
